(* ===== verification/Prelude.thy ===== *)
theory Prelude
  imports
    Main
    "HOL-Library.AList"
    "HOL-Library.Multiset"
    "HOL-Library.Char_ord"
    "HOL-Library.List_Lexorder"
begin

text \<open>
  The shared ground of the development: the collections of facts the component proofs use,
  the pieces of Go's \<^verbatim>\<open>strings\<close>, \<^verbatim>\<open>sort\<close> and integer arithmetic that the sources rely on, and the
  interface locales that several components provide (a weak order that a stable sort may be run
  with, a newest-first log with a cap, a normaliser onto well-formed values, a map).
\<close>

named_theorems go_defs \<open>unfolding rules of small wrappers around Go library calls\<close>
named_theorems norm_simps \<open>normal forms of normalised values\<close>

section \<open>Types shared by the components\<close>

text \<open>A Go map is an association list with distinct keys; the order of the list stands for one
  order in which \<^verbatim>\<open>range\<close> may visit it.\<close>

type_synonym ('k, 'v) gomap = "('k \<times> 'v) list"

text \<open>Instants and durations are nanoseconds; instant 0 is Go's zero time.
  \<^verbatim>\<open>time.Time\<close> values of the sources are all in UTC.\<close>

type_synonym gotime = int
type_synonym duration = int

section \<open>Machine integers\<close>

text \<open>Go's \<^verbatim>\<open>int\<close> and \<^verbatim>\<open>int64\<close> have 64 bits: arithmetic is done over \<^typ>\<open>int\<close> and brought back
  to the two's complement range by \<open>i64\<close>.\<close>

definition i64 :: "int \<Rightarrow> int" where
  "i64 x = (x + 2 ^ 63) mod 2 ^ 64 - 2 ^ 63"

lemma i64_bounds: "- (2 ^ 63) \<le> i64 x" "i64 x < 2 ^ 63"
  by (simp_all add: i64_def)

lemma i64_id: "- (2 ^ 63) \<le> x \<Longrightarrow> x < 2 ^ 63 \<Longrightarrow> i64 x = x"
  by (simp add: i64_def)

lemma i64_idem [simp]: "i64 (i64 x) = i64 x"
  by (rule i64_id) (rule i64_bounds)+

definition second :: duration where "second = 1000000000"
definition minute :: duration where "minute = 60 * second"
definition hour :: duration where "hour = 60 * minute"

lemmas duration_defs = second_def minute_def hour_def

section \<open>Strings\<close>

text \<open>Go strings are byte strings. \<^verbatim>\<open>strings.ToLower\<close>, \<^verbatim>\<open>strings.TrimSpace\<close> and
  \<^verbatim>\<open>strings.EqualFold\<close> are given on the ASCII range, which is what the program's identifiers,
  codes and headers use.\<close>

definition is_space :: "char \<Rightarrow> bool" where
  "is_space c \<longleftrightarrow> c \<in> {CHR '' '', CHR 0x09, CHR 0x0A, CHR 0x0B, CHR 0x0C, CHR 0x0D}"

definition lower_char :: "char \<Rightarrow> char" where
  "lower_char c = (let n = (of_char c :: nat) in if 65 \<le> n \<and> n \<le> 90 then char_of (n + 32) else c)"

definition ToLower :: "string \<Rightarrow> string" where
  "ToLower s = map lower_char s"

definition trim_by :: "(char \<Rightarrow> bool) \<Rightarrow> string \<Rightarrow> string" where
  "trim_by p s = rev (dropWhile p (rev (dropWhile p s)))"

definition TrimSpace :: "string \<Rightarrow> string" where
  "TrimSpace s = trim_by is_space s"

definition TrimRight :: "char \<Rightarrow> string \<Rightarrow> string" where
  "TrimRight c s = rev (dropWhile (\<lambda>x. x = c) (rev s))"

definition HasPrefix :: "string \<Rightarrow> string \<Rightarrow> bool" where
  "HasPrefix s p \<longleftrightarrow> take (length p) s = p"

definition HasSuffix :: "string \<Rightarrow> string \<Rightarrow> bool" where
  "HasSuffix s p \<longleftrightarrow> take (length p) (rev s) = rev p"

fun Contains :: "string \<Rightarrow> string \<Rightarrow> bool" where
  "Contains [] p = (p = [])"
| "Contains (c # s) p = (HasPrefix (c # s) p \<or> Contains s p)"

definition EqualFold :: "string \<Rightarrow> string \<Rightarrow> bool" where
  "EqualFold a b \<longleftrightarrow> ToLower a = ToLower b"

definition TrimPrefix :: "string \<Rightarrow> string \<Rightarrow> string" where
  "TrimPrefix s p = (if HasPrefix s p then drop (length p) s else s)"

fun Split :: "char \<Rightarrow> string \<Rightarrow> string list" where
  "Split c [] = [[]]"
| "Split c (x # s) =
     (if x = c then [] # Split c s
      else (case Split c s of [] \<Rightarrow> [[x]] | w # ws \<Rightarrow> (x # w) # ws))"

lemma dropWhile_idem [simp]: "dropWhile p (dropWhile p s) = dropWhile p s"
  by (induction s) auto

lemma dropWhile_id: "(s = [] \<or> \<not> p (hd s)) \<Longrightarrow> dropWhile p s = s"
  by (cases s) auto

lemma hd_rev_dropWhile:
  "dropWhile p s = s \<Longrightarrow> dropWhile p (rev (dropWhile p (rev s))) = rev (dropWhile p (rev s))"
proof (cases "dropWhile p (rev s) = []")
  case False
  assume s: "dropWhile p s = s"
  let ?t = "rev (dropWhile p (rev s))"
  obtain u where u: "s = ?t @ u"
    by (metis rev_append rev_rev_ident takeWhile_dropWhile_id)
  from False have "?t \<noteq> []" by simp
  then have "hd s = hd ?t" using u by (metis hd_append2)
  moreover have "s = [] \<or> \<not> p (hd s)"
    using s by (metis hd_dropWhile)
  moreover have "s \<noteq> []" using False by auto
  ultimately show ?thesis by (intro dropWhile_id) auto
next
  case True
  then show ?thesis by (simp only: rev.simps dropWhile.simps)
qed

lemma trim_by_idem [simp]: "trim_by p (trim_by p s) = trim_by p s"
  unfolding trim_by_def by (subst hd_rev_dropWhile) simp_all

lemma trim_by_Nil [simp]: "trim_by p [] = []"
  by (simp add: trim_by_def)

lemma TrimSpace_idem [simp]: "TrimSpace (TrimSpace s) = TrimSpace s"
  by (simp add: TrimSpace_def)

lemma TrimSpace_Nil [simp]: "TrimSpace [] = []"
  by (simp add: TrimSpace_def)

lemma ToLower_Nil [simp]: "ToLower [] = []"
  by (simp add: ToLower_def)

lemma length_ToLower [simp]: "length (ToLower s) = length s"
  by (simp add: ToLower_def)

lemma lower_char_idem [simp]: "lower_char (lower_char c) = lower_char c"
  by (simp add: lower_char_def Let_def of_char_of)

lemma ToLower_idem [simp]: "ToLower (ToLower s) = ToLower s"
  by (simp add: ToLower_def)

lemma length_trim_by_le: "length (trim_by p s) \<le> length s"
  unfolding trim_by_def by (metis length_dropWhile_le length_rev order_trans)

section \<open>Maps\<close>

definition goget :: "('k, 'v) gomap \<Rightarrow> 'k \<Rightarrow> 'v option" where
  "goget m k = map_of m k"

definition goput :: "'k \<Rightarrow> 'v \<Rightarrow> ('k, 'v) gomap \<Rightarrow> ('k, 'v) gomap" where
  "goput k v m = AList.update k v m"

definition godelete :: "'k \<Rightarrow> ('k, 'v) gomap \<Rightarrow> ('k, 'v) gomap" where
  "godelete k m = AList.delete k m"

definition gokeys_distinct :: "('k, 'v) gomap \<Rightarrow> bool" where
  "gokeys_distinct m \<longleftrightarrow> distinct (map fst m)"

locale finite_map_interface =
  fixes lookup :: "'m \<Rightarrow> 'k \<Rightarrow> 'v option"
    and update :: "'k \<Rightarrow> 'v \<Rightarrow> 'm \<Rightarrow> 'm"
    and delete :: "'k \<Rightarrow> 'm \<Rightarrow> 'm"
    and invar :: "'m \<Rightarrow> bool"
  assumes lookup_update: "lookup (update k v m) k' = (if k' = k then Some v else lookup m k')"
    and lookup_delete: "lookup (delete k m) k' = (if k' = k then None else lookup m k')"
    and invar_update: "invar m \<Longrightarrow> invar (update k v m)"
    and invar_delete: "invar m \<Longrightarrow> invar (delete k m)"
begin

lemma update_shadows: "lookup (update k v (update k w m)) = lookup (update k v m)"
  by (rule ext) (simp add: lookup_update)

lemma delete_after_update: "lookup (delete k (update k v m)) = lookup (delete k m)"
  by (rule ext) (simp add: lookup_update lookup_delete)

lemma updates_commute:
  "k \<noteq> k' \<Longrightarrow> lookup (update k v (update k' w m)) = lookup (update k' w (update k v m))"
  by (rule ext) (auto simp: lookup_update)

end

interpretation gm: finite_map_interface goget goput godelete gokeys_distinct
  by unfold_locales
    (simp_all add: goget_def goput_def godelete_def gokeys_distinct_def update_conv' delete_conv'
      distinct_update distinct_delete)

lemmas gomap_simps [simp] = gm.lookup_update gm.lookup_delete
lemmas gomap_invar [intro] = gm.invar_update gm.invar_delete

lemma goget_Nil [simp]: "goget [] k = None"
  by (simp add: goget_def)

lemma goget_in_set: "goget m k = Some v \<Longrightarrow> (k, v) \<in> set m"
  by (simp add: goget_def map_of_SomeD)

lemma goget_set: "gokeys_distinct m \<Longrightarrow> (k, v) \<in> set m \<longleftrightarrow> goget m k = Some v"
  by (simp add: goget_def gokeys_distinct_def)

lemma set_goput: "gokeys_distinct m \<Longrightarrow> p \<in> set (goput k v m) \<Longrightarrow> p = (k, v) \<or> p \<in> set m"
  by (metis goget_set gm.invar_update gm.lookup_update option.inject prod.collapse)

section \<open>Stable sorting\<close>

text \<open>\<^verbatim>\<open>sort.SliceStable\<close> and \<^verbatim>\<open>sort.Slice\<close> are called with a less-function. Any stable sorting
  algorithm returns the same list when that function is a strict weak order; the model inserts
  from the right, in front of the elements that are not strictly smaller.\<close>

fun insert_stable :: "('a \<Rightarrow> 'a \<Rightarrow> bool) \<Rightarrow> 'a \<Rightarrow> 'a list \<Rightarrow> 'a list" where
  "insert_stable lt x [] = [x]"
| "insert_stable lt x (y # ys) =
     (if lt y x then y # insert_stable lt x ys else x # y # ys)"

definition SliceStable :: "('a \<Rightarrow> 'a \<Rightarrow> bool) \<Rightarrow> 'a list \<Rightarrow> 'a list" where
  "SliceStable lt xs = foldr (insert_stable lt) xs []"

lemma SliceStable_simps [simp]:
  "SliceStable lt [] = []"
  "SliceStable lt (x # xs) = insert_stable lt x (SliceStable lt xs)"
  by (simp_all add: SliceStable_def)

lemma mset_insert_stable [simp]: "mset (insert_stable lt x xs) = add_mset x (mset xs)"
  by (induction xs) auto

lemma mset_SliceStable [simp]: "mset (SliceStable lt xs) = mset xs"
  by (induction xs) auto

lemma set_SliceStable [simp]: "set (SliceStable lt xs) = set xs"
  by (metis mset_SliceStable set_mset_mset)

lemma length_SliceStable [simp]: "length (SliceStable lt xs) = length xs"
  by (metis mset_SliceStable size_mset)

lemma SliceStable_eq_Nil [simp]: "SliceStable lt xs = [] \<longleftrightarrow> xs = []"
  by (metis length_SliceStable length_0_conv)

lemma distinct_SliceStable [simp]: "distinct (SliceStable lt xs) \<longleftrightarrow> distinct xs"
  by (metis mset_SliceStable mset_eq_imp_distinct_iff)

locale weak_order =
  fixes lt :: "'a \<Rightarrow> 'a \<Rightarrow> bool"
  assumes asym: "lt x y \<Longrightarrow> \<not> lt y x"
    and neg_trans: "\<not> lt x y \<Longrightarrow> \<not> lt y z \<Longrightarrow> \<not> lt x z"
begin

definition ordered :: "'a list \<Rightarrow> bool" where
  "ordered xs \<longleftrightarrow> sorted_wrt (\<lambda>x y. \<not> lt y x) xs"

lemma insert_ordered: "ordered xs \<Longrightarrow> ordered (insert_stable lt x xs)"
proof (induction xs)
  case (Cons y ys)
  have set: "set (insert_stable lt x ys) = insert x (set ys)"
    by (metis mset_insert_stable set_mset_add_mset_insert set_mset_mset)
  show ?case
  proof (cases "lt y x")
    case True
    with Cons set asym show ?thesis by (auto simp: ordered_def)
  next
    case False
    with Cons.prems neg_trans show ?thesis by (auto simp: ordered_def)
  qed
qed (simp add: ordered_def)

lemma sort_ordered: "ordered (SliceStable lt xs)"
  by (induction xs) (simp_all add: insert_ordered, simp add: ordered_def)

lemma hd_minimal: "ordered xs \<Longrightarrow> y \<in> set xs \<Longrightarrow> \<not> lt y (hd xs)"
  using asym by (cases xs) (auto simp: ordered_def)

definition eqv :: "'a \<Rightarrow> 'a \<Rightarrow> bool" where
  "eqv x y \<longleftrightarrow> \<not> lt x y \<and> \<not> lt y x"

lemma eqv_refl [simp]: "eqv x x"
  using asym by (auto simp: eqv_def)

lemma insert_stable_filter:
  "ordered xs \<Longrightarrow> filter (eqv a) (insert_stable lt x xs) = filter (eqv a) (x # xs)"
proof (induction xs)
  case (Cons y ys)
  then have IH: "filter (eqv a) (insert_stable lt x ys) = filter (eqv a) (x # ys)"
    by (simp add: ordered_def)
  have "lt y x \<Longrightarrow> \<not> (eqv a x \<and> eqv a y)"
    using neg_trans by (auto simp: eqv_def)
  with IH show ?case by auto
qed simp

lemma sort_stable: "filter (eqv a) (SliceStable lt xs) = filter (eqv a) xs"
  by (induction xs) (simp_all add: insert_stable_filter sort_ordered)

lemma ordered_unique:
  assumes "ordered xs" "ordered ys" "\<And>a. filter (eqv a) xs = filter (eqv a) ys"
  shows "xs = ys"
  using assms
proof (induction xs arbitrary: ys)
  case Nil
  show ?case
  proof (cases ys)
    case (Cons y ys')
    with Nil.prems(3) [of y] show ?thesis by simp
  qed simp
next
  case (Cons x xs)
  have "x \<in> set (filter (eqv x) ys)"
    unfolding Cons.prems(3) [symmetric] by simp
  then have xin: "x \<in> set ys" by simp
  then obtain y ys' where ys: "ys = y # ys'" by (cases ys) auto
  have "y \<in> set (filter (eqv y) (x # xs))"
    unfolding Cons.prems(3) ys by simp
  then have "y \<in> set (x # xs)" by (simp only: set_filter) simp
  then have "\<not> lt y x" using hd_minimal [OF Cons.prems(1), of y] by simp
  moreover have "\<not> lt x y" using hd_minimal [OF Cons.prems(2) xin] ys by simp
  ultimately have "eqv x y" by (simp add: eqv_def)
  with Cons.prems(3) [of x] ys have xy: "x = y" by simp
  have "xs = ys'"
  proof (rule Cons.IH)
    show "ordered xs" "ordered ys'"
      using Cons.prems(1,2) ys by (simp_all add: ordered_def)
    show "filter (eqv a) xs = filter (eqv a) ys'" for a
      using Cons.prems(3) [of a] ys xy by (simp split: if_splits)
  qed
  with xy ys show ?case by simp
qed

lemma filter_eqv_perm:
  assumes "mset xs = mset ys" "distinct xs"
    and "\<And>x y. x \<in> set xs \<Longrightarrow> y \<in> set xs \<Longrightarrow> eqv x y \<Longrightarrow> x = y"
  shows "filter (eqv a) xs = filter (eqv a) ys"
proof -
  have m: "mset (filter (eqv a) xs) = mset (filter (eqv a) ys)"
    using assms(1) by simp
  have "length (filter (eqv a) xs) \<le> 1"
  proof (rule ccontr)
    assume "\<not> ?thesis"
    then obtain u v w where u: "filter (eqv a) xs = u # v # w"
      by (metis One_nat_def length_Cons length_0_conv list.exhaust linear Suc_le_mono zero_le)
    have "set (u # v # w) \<subseteq> {x \<in> set xs. eqv a x}"
      unfolding u [symmetric] by simp
    then have "u \<in> set xs" "v \<in> set xs" "eqv a u" "eqv a v"
      by simp_all
    moreover from this(3,4) have "eqv u v" using neg_trans by (auto simp: eqv_def)
    ultimately have "u = v" using assms(3) by blast
    moreover have "distinct (u # v # w)" using u assms(2) by (metis distinct_filter)
    ultimately show False by simp
  qed
  then consider "filter (eqv a) xs = []" | u where "filter (eqv a) xs = [u]"
    by (cases "filter (eqv a) xs") auto
  then show ?thesis
  proof cases
    case 1
    with m show ?thesis by (metis mset_zero_iff mset.simps(1))
  next
    case 2
    with m have "mset (filter (eqv a) ys) = {#u#}" by (metis mset_single_iff_right)
    then show ?thesis using 2 by (metis mset_single_iff)
  qed
qed

text \<open>A linear scan that replaces the current choice by a strictly smaller element ends with a
  minimal one, and with the first of the minimal ones.\<close>

definition scan_min :: "'a \<Rightarrow> 'a list \<Rightarrow> 'a" where
  "scan_min x xs = foldl (\<lambda>w c. if lt c w then c else w) x xs"

lemma scan_min_minimal: "y \<in> set (x # xs) \<Longrightarrow> \<not> lt y (scan_min x xs)"
  unfolding scan_min_def
proof (induction xs arbitrary: x y)
  case Nil
  then show ?case using asym by auto
next
  case (Cons z zs)
  let ?w = "if lt z x then z else x"
  have w: "\<not> lt ?w (foldl (\<lambda>w c. if lt c w then c else w) ?w zs)" by (rule Cons.IH) simp
  have "\<not> lt x ?w" "\<not> lt z ?w" using asym by auto
  then have "\<not> lt u (foldl (\<lambda>w c. if lt c w then c else w) ?w zs)" if "u = x \<or> u = z" for u
    using that w neg_trans by blast
  moreover have "\<not> lt u (foldl (\<lambda>w c. if lt c w then c else w) ?w zs)" if "u \<in> set zs" for u
    using that by (intro Cons.IH) simp
  ultimately show ?case using Cons.prems by (simp only: foldl.simps list.set insert_iff) blast
qed

lemma scan_min_first: "\<forall>y \<in> set xs. \<not> lt y x \<Longrightarrow> scan_min x xs = x"
  unfolding scan_min_def by (induction xs) auto

lemma scan_min_in: "scan_min x xs \<in> set (x # xs)"
  unfolding scan_min_def by (induction xs arbitrary: x) (auto split: if_splits)

text \<open>Sorting a list that is already in order for another relation gives the lexicographic order.\<close>

lemma sort_lexicographic:
  assumes "sorted_wrt R xs"
  shows "sorted_wrt (\<lambda>x y. \<not> lt y x \<and> (eqv x y \<longrightarrow> R x y)) (SliceStable lt xs)"
  using assms
proof (induction xs)
  case (Cons x xs)
  let ?Q = "\<lambda>x y. \<not> lt y x \<and> (eqv x y \<longrightarrow> R x y)"
  have ins: "\<forall>y \<in> set ys. R x y \<Longrightarrow> sorted_wrt ?Q ys \<Longrightarrow> sorted_wrt ?Q (insert_stable lt x ys)" for ys
  proof (induction ys)
    case (Cons y ys)
    have set: "set (insert_stable lt x ys) = insert x (set ys)"
      by (metis mset_insert_stable set_mset_add_mset_insert set_mset_mset)
    show ?case
    proof (cases "lt y x")
      case True
      with Cons set show ?thesis by (auto simp: eqv_def dest: asym)
    next
      case False
      with Cons.prems neg_trans show ?thesis by (auto simp: eqv_def)
    qed
  qed simp
  from Cons show ?case by (simp add: ins)
qed simp

theorem sort_append_perm:
  assumes "mset xs = mset ys" "distinct xs"
    and "\<And>x y. x \<in> set xs \<Longrightarrow> y \<in> set xs \<Longrightarrow> eqv x y \<Longrightarrow> x = y"
  shows "SliceStable lt (xs @ zs) = SliceStable lt (ys @ zs)"
proof (rule ordered_unique)
  show "filter (eqv a) (SliceStable lt (xs @ zs)) = filter (eqv a) (SliceStable lt (ys @ zs))" for a
    unfolding sort_stable filter_append using filter_eqv_perm [OF assms, of a] by (rule arg_cong)
qed (rule sort_ordered)+

end

section \<open>Logs with a cap\<close>

text \<open>Several lists of the program are kept newest first and cut to a fixed length after each
  insertion: the audit trail, the finished queue entries, the benchmark results, the scheduler
  history.\<close>

locale capped_log =
  fixes cap :: nat
    and push :: "'a \<Rightarrow> 'a list \<Rightarrow> 'a list"
  assumes push_eq: "push x xs = take cap (x # xs)"
begin

lemma push_length: "length (push x xs) \<le> cap"
  by (simp add: push_eq)

lemma push_newest: "0 < cap \<Longrightarrow> hd (push x xs) = x"
  by (cases cap) (simp_all add: push_eq)

lemma push_keeps: "length xs < cap \<Longrightarrow> push x xs = x # xs"
  by (simp add: push_eq)

lemma set_push: "set (push x xs) \<subseteq> insert x (set xs)"
  using set_take_subset [of cap "x # xs"] by (simp add: push_eq)

theorem fold_push: "fold push es (take cap xs) = take cap (rev es @ xs)"
proof (induction es arbitrary: xs)
  case (Cons e es)
  have "push e (take cap xs) = take cap (e # xs)"
    by (cases cap) (simp_all add: push_eq)
  with Cons [of "e # xs"] show ?case by simp
qed simp

end

section \<open>Normalisers\<close>

text \<open>The program normalises configurations, nodes, enrollment requests and codes: whatever comes
  in, a well-formed value comes out, and a well-formed value is left alone.\<close>

locale normaliser =
  fixes norm :: "'a \<Rightarrow> 'a"
    and wf :: "'a \<Rightarrow> bool"
  assumes norm_wf: "wf (norm x)"
    and norm_id: "wf x \<Longrightarrow> norm x = x"
begin

lemma norm_idem: "norm (norm x) = norm x"
  by (simp add: norm_id norm_wf)

lemma norm_fixpoint: "norm x = x \<longleftrightarrow> wf x"
  using norm_id norm_wf [of x] by auto

lemma range_norm: "range norm = {x. wf x}"
  using norm_id norm_wf by (auto simp: image_iff) metis

end

text \<open>A normaliser that reads the clock to fill in a missing instant. A value that was normalised
  once does not change when it is normalised again later.\<close>

locale clocked_normaliser =
  fixes norm :: "gotime \<Rightarrow> 'a \<Rightarrow> 'a"
    and wf :: "'a \<Rightarrow> bool"
  assumes clocked_wf: "now \<noteq> 0 \<Longrightarrow> wf (norm now x)"
    and clocked_id: "wf x \<Longrightarrow> norm now x = x"
begin

lemma clocked_idem: "now \<noteq> 0 \<Longrightarrow> norm later (norm now x) = norm now x"
  by (simp add: clocked_id clocked_wf)

lemma clocked_fixpoint: "now \<noteq> 0 \<Longrightarrow> norm now x = x \<longleftrightarrow> wf x"
  using clocked_id clocked_wf [of now x] by auto

end

end
