(* ===== verification/GoTime.thy ===== *)
theory GoTime
  imports Prelude
begin

text \<open>
  The part of Go's \<^verbatim>\<open>time\<close> package that the sources rely on: the calendar, and formatting and
  parsing in the layout \<^verbatim>\<open>time.RFC3339Nano\<close>, which is how instants travel through the JSON state
  file and through the dynamically typed maps of a node. The main result is that every instant
  of the years 1 to 9999 survives being printed and parsed.
\<close>

section \<open>Decimal digits\<close>

definition is_digit :: "char \<Rightarrow> bool" where
  "is_digit c \<longleftrightarrow> (let n = (of_char c :: nat) in 48 \<le> n \<and> n \<le> 57)"

definition digit_char :: "nat \<Rightarrow> char" where
  "digit_char d = char_of (48 + d)"

definition digit_val :: "char \<Rightarrow> nat" where
  "digit_val c = of_char c - 48"

fun digits_w :: "nat \<Rightarrow> nat \<Rightarrow> string" where
  "digits_w 0 n = []"
| "digits_w (Suc w) n = digits_w w (n div 10) @ [digit_char (n mod 10)]"

fun dec_val :: "nat \<Rightarrow> string \<Rightarrow> nat" where
  "dec_val acc [] = acc"
| "dec_val acc (c # cs) = dec_val (10 * acc + digit_val c) cs"

lemma digit_char_props [simp]:
  "d < 10 \<Longrightarrow> is_digit (digit_char d)" "d < 10 \<Longrightarrow> digit_val (digit_char d) = d"
  by (simp_all add: is_digit_def digit_char_def digit_val_def of_char_of)

lemma length_digits_w [simp]: "length (digits_w w n) = w"
  by (induction w arbitrary: n) auto

lemma digits_w_digits [simp]: "\<forall>c \<in> set (digits_w w n). is_digit c"
  by (induction w arbitrary: n) auto

lemma dec_val_append: "dec_val acc (s @ t) = dec_val (dec_val acc s) t"
  by (induction s arbitrary: acc) auto

lemma dec_val_digits_w: "n < 10 ^ w \<Longrightarrow> dec_val 0 (digits_w w n) = n"
proof (induction w arbitrary: n)
  case (Suc w)
  then have "n div 10 < 10 ^ w" by (simp add: less_mult_imp_div_less mult.commute)
  with Suc.IH show ?case by (simp add: dec_val_append)
qed simp

lemma dec_val_zeros: "dec_val acc (replicate k (CHR ''0'')) = acc * 10 ^ k"
  by (induction k arbitrary: acc) (simp_all add: digit_val_def)

section \<open>The calendar\<close>

definition leap_year :: "int \<Rightarrow> bool" where
  "leap_year y \<longleftrightarrow> y mod 4 = 0 \<and> (y mod 100 \<noteq> 0 \<or> y mod 400 = 0)"

definition month_lengths :: "int \<Rightarrow> int list" where
  "month_lengths y = [31, if leap_year y then 29 else 28, 31, 30, 31, 30, 31, 31, 30, 31, 30, 31]"

fun month_day :: "int list \<Rightarrow> int \<Rightarrow> int \<Rightarrow> int \<times> int" where
  "month_day [] m yd = (m, yd + 1)"
| "month_day (l # ls) m yd = (if yd < l then (m, yd + 1) else month_day ls (m + 1) (yd - l))"

definition civil_of_days :: "int \<Rightarrow> int \<times> int \<times> int" where
  "civil_of_days d0 =
     (let n400 = d0 div 146097; d1 = d0 mod 146097;
          n100 = min (d1 div 36524) 3; d2 = d1 - 36524 * n100;
          n4 = d2 div 1461; d3 = d2 mod 1461;
          n1 = min (d3 div 365) 3; yd = d3 - 365 * n1;
          y = 400 * n400 + 100 * n100 + 4 * n4 + n1 + 1;
          (m, d) = month_day (month_lengths y) 1 yd
      in (y, m, d))"

definition days_before_year :: "int \<Rightarrow> int" where
  "days_before_year y = (let p = y - 1 in 365 * p + p div 4 - p div 100 + p div 400)"

definition days_of_civil :: "int \<Rightarrow> int \<Rightarrow> int \<Rightarrow> int" where
  "days_of_civil y m d = days_before_year y + sum_list (take (nat (m - 1)) (month_lengths y)) + d - 1"

lemma month_day_spec:
  assumes "0 \<le> yd" "yd < sum_list ls" "month_day ls m yd = (m', d)"
  shows "m \<le> m' \<and> m' < m + int (length ls) \<and> 1 \<le> d \<and> d \<le> ls ! nat (m' - m) \<and>
    sum_list (take (nat (m' - m)) ls) + d - 1 = yd"
  using assms
proof (induction ls m yd rule: month_day.induct)
  case (2 l ls m yd)
  show ?case
  proof (cases "yd < l")
    case True
    with 2 show ?thesis by auto
  next
    case False
    with 2 have *: "m + 1 \<le> m' \<and> m' < m + 1 + int (length ls) \<and> 1 \<le> d \<and> d \<le> ls ! nat (m' - (m + 1)) \<and>
      sum_list (take (nat (m' - (m + 1))) ls) + d - 1 = yd - l" by simp
    then have "nat (m' - m) = Suc (nat (m' - (m + 1)))" by linarith
    with * show ?thesis by simp
  qed
qed simp

lemma sum_month_lengths: "sum_list (month_lengths y) = (if leap_year y then 366 else 365)"
  by (simp add: month_lengths_def)

text \<open>The year found by the 400/100/4/1 year cycles, and where the day falls in it.\<close>

lemma year_cycles:
  fixes d0 :: int
  defines "n400 \<equiv> d0 div 146097" and "d1 \<equiv> d0 mod 146097"
  defines "n100 \<equiv> min (d1 div 36524) 3" and "d2 \<equiv> d1 - 36524 * min (d1 div 36524) 3"
  defines "n4 \<equiv> d2 div 1461" and "d3 \<equiv> d2 mod 1461"
  defines "n1 \<equiv> min (d3 div 365) 3"
  defines "y \<equiv> 400 * n400 + 100 * n100 + 4 * n4 + n1 + 1"
  shows "days_before_year y + (d3 - 365 * n1) = d0"
    and "0 \<le> d3 - 365 * n1"
    and "d3 - 365 * n1 < (if leap_year y then 366 else 365)"
proof -
  have d0: "d0 = 146097 * n400 + d1" by (simp add: n400_def d1_def)
  have d1: "0 \<le> d1" "d1 < 146097" by (simp_all add: d1_def)
  then have n100: "0 \<le> n100" "n100 \<le> 3" unfolding n100_def by simp_all
  have d2: "d2 = d1 - 36524 * n100" by (simp add: d2_def n100_def)
  have d2b: "0 \<le> d2" "d2 \<le> 36524" "n100 < 3 \<Longrightarrow> d2 < 36524"
    using d1 unfolding d2 n100_def by linarith+
  have d23: "d2 = 1461 * n4 + d3" by (simp add: n4_def d3_def)
  have d3: "0 \<le> d3" "d3 < 1461" by (simp_all add: d3_def)
  have n4: "0 \<le> n4" "n4 \<le> 24" using d2b unfolding n4_def by linarith+
  have n1: "0 \<le> n1" "n1 \<le> 3" using d3 unfolding n1_def by simp_all
  have yd: "0 \<le> d3 - 365 * n1" "d3 - 365 * n1 \<le> 365" "n1 < 3 \<Longrightarrow> d3 - 365 * n1 < 365"
    using d3 unfolding n1_def by linarith+
  show "0 \<le> d3 - 365 * n1" by (rule yd)
  have div4: "(y - 1) div 4 = 100 * n400 + 25 * n100 + n4"
    by (rule int_div_pos_eq [of _ _ _ n1]) (use n1 in \<open>simp_all add: y_def\<close>)
  have div100: "(y - 1) div 100 = 4 * n400 + n100"
    by (rule int_div_pos_eq [of _ _ _ "4 * n4 + n1"]) (use n1 n4 in \<open>simp_all add: y_def\<close>)
  have div400: "(y - 1) div 400 = n400"
    by (rule int_div_pos_eq [of _ _ _ "100 * n100 + 4 * n4 + n1"])
      (use n1 n4 n100 in \<open>simp_all add: y_def\<close>)
  show "days_before_year y + (d3 - 365 * n1) = d0"
    unfolding days_before_year_def Let_def div4 div100 div400 d0
    using d2 d23 unfolding y_def by simp
  have last4: "n4 = 24 \<Longrightarrow> n100 < 3 \<Longrightarrow> d3 < 1460" using d2b d23 by simp
  have "d3 - 365 * n1 = 365 \<Longrightarrow> leap_year y"
  proof -
    assume 365: "d3 - 365 * n1 = 365"
    with yd(3) n1 have n1': "n1 = 3" by force
    with 365 have "d3 = 1460" by simp
    with last4 n4 n100 have cases: "n4 < 24 \<or> n4 = 24 \<and> n100 = 3" by force
    have mod4: "y mod 4 = 0"
      by (rule int_mod_pos_eq [of _ _ "100 * n400 + 25 * n100 + n4 + 1"]) (simp_all add: y_def n1')
    have "n4 < 24 \<Longrightarrow> y mod 100 = 4 * n4 + 4"
      by (rule int_mod_pos_eq [of _ _ "4 * n400 + n100"]) (use n4 in \<open>simp_all add: y_def n1'\<close>)
    moreover have "n4 = 24 \<and> n100 = 3 \<Longrightarrow> y mod 400 = 0"
      by (rule int_mod_pos_eq [of _ _ "n400 + 1"]) (simp_all add: y_def n1')
    ultimately show ?thesis unfolding leap_year_def using cases mod4 n4 by auto
  qed
  with yd(2) show "d3 - 365 * n1 < (if leap_year y then 366 else 365)"
    by (auto simp: order.strict_iff_order)
qed

theorem civil_roundtrip:
  assumes "civil_of_days d0 = (y, m, d)"
  shows "days_of_civil y m d = d0" "1 \<le> m" "m \<le> 12" "1 \<le> d" "d \<le> month_lengths y ! nat (m - 1)"
proof -
  let ?n400 = "d0 div 146097" let ?d1 = "d0 mod 146097"
  let ?n100 = "min (?d1 div 36524) 3" let ?d2 = "?d1 - 36524 * ?n100"
  let ?n4 = "?d2 div 1461" let ?d3 = "?d2 mod 1461"
  let ?n1 = "min (?d3 div 365) 3"
  have y: "y = 400 * ?n400 + 100 * ?n100 + 4 * ?n4 + ?n1 + 1"
    and md: "month_day (month_lengths y) 1 (?d3 - 365 * ?n1) = (m, d)"
    using assms unfolding civil_of_days_def Let_def by (auto simp only: prod.inject split: prod.splits)
  define yd where "yd = ?d3 - 365 * ?n1"
  note cyc = year_cycles [of d0, folded y, folded yd_def]
  have lt: "yd < sum_list (month_lengths y)"
    unfolding sum_month_lengths by (rule cyc(3))
  note spec = month_day_spec [OF cyc(2) lt md [folded yd_def]]
  then show "1 \<le> m" "m \<le> 12" "1 \<le> d" "d \<le> month_lengths y ! nat (m - 1)"
    by (simp_all add: month_lengths_def)
  from spec have "sum_list (take (nat (m - 1)) (month_lengths y)) + d - 1 = yd" by blast
  with cyc(1) show "days_of_civil y m d = d0"
    unfolding days_of_civil_def by simp
qed

section \<open>Formatting in the layout RFC3339Nano\<close>

definition nat_pad :: "nat \<Rightarrow> int \<Rightarrow> string" where
  "nat_pad w n = digits_w w (nat n)"

definition format_frac :: "int \<Rightarrow> string" where
  "format_frac ns = (let ds = TrimRight (CHR ''0'') (nat_pad 9 ns)
     in if ds = [] then [] else CHR ''.'' # ds)"

definition format_time :: "gotime \<Rightarrow> string" where
  "format_time t =
     (let secs = t div second; ns = t mod second;
          days = secs div 86400; sod = secs mod 86400;
          (y, m, d) = civil_of_days days
      in nat_pad 4 y @ ''-'' @ nat_pad 2 m @ ''-'' @ nat_pad 2 d @ ''T'' @
         nat_pad 2 (sod div 3600) @ '':'' @ nat_pad 2 (sod mod 3600 div 60) @ '':'' @
         nat_pad 2 (sod mod 60) @ format_frac ns @ ''Z'')"

section \<open>Parsing\<close>

text \<open>The steps of \<^verbatim>\<open>time.Parse\<close> for this layout: a field of a fixed number of digits, the hour (one or
  two digits), an optional fraction of any length after a point or a comma of which nine digits
  count, and \<^verbatim>\<open>Z\<close> or a numeric offset.\<close>

definition p_fixed :: "nat \<Rightarrow> string \<Rightarrow> (int \<times> string) option" where
  "p_fixed w s = (if w \<le> length s \<and> (\<forall>c \<in> set (take w s). is_digit c)
     then Some (int (dec_val 0 (take w s)), drop w s) else None)"

definition p_hour :: "string \<Rightarrow> (int \<times> string) option" where
  "p_hour s = (case p_fixed 2 s of Some r \<Rightarrow> Some r | None \<Rightarrow> p_fixed 1 s)"

definition p_lit :: "char \<Rightarrow> string \<Rightarrow> string option" where
  "p_lit c s = (case s of [] \<Rightarrow> None | x # r \<Rightarrow> if x = c then Some r else None)"

definition p_frac :: "string \<Rightarrow> int \<times> string" where
  "p_frac s = (case s of
     c # d # r \<Rightarrow> if c \<in> {CHR ''.'', CHR '',''} \<and> is_digit d
       then (let ds = takeWhile is_digit (d # r); ds9 = take 9 ds
             in (int (dec_val 0 ds9 * 10 ^ (9 - length ds9)), dropWhile is_digit (d # r)))
       else (0, s)
   | _ \<Rightarrow> (0, s))"

definition p_zone :: "string \<Rightarrow> (int \<times> string) option" where
  "p_zone s = (case s of [] \<Rightarrow> None
   | c # r \<Rightarrow>
      if c = CHR ''Z'' then Some (0, r)
      else Option.bind (p_fixed 2 r) (\<lambda>(hh, r). Option.bind (p_lit (CHR '':'') r) (\<lambda>r.
        Option.bind (p_fixed 2 r) (\<lambda>(mm, r).
          if 24 < hh \<or> 60 < mm then None
          else if c = CHR ''+'' then Some ((hh * 60 + mm) * 60, r)
          else if c = CHR ''-'' then Some (- ((hh * 60 + mm) * 60), r)
          else None))))"

definition parse_time :: "string \<Rightarrow> gotime option" where
  "parse_time s =
     Option.bind (p_fixed 4 s) (\<lambda>(y, s). Option.bind (p_lit (CHR ''-'') s) (\<lambda>s.
     Option.bind (p_fixed 2 s) (\<lambda>(mo, s). Option.bind (p_lit (CHR ''-'') s) (\<lambda>s.
     Option.bind (p_fixed 2 s) (\<lambda>(d, s). Option.bind (p_lit (CHR ''T'') s) (\<lambda>s.
     Option.bind (p_hour s) (\<lambda>(h, s). Option.bind (p_lit (CHR '':'') s) (\<lambda>s.
     Option.bind (p_fixed 2 s) (\<lambda>(mi, s). Option.bind (p_lit (CHR '':'') s) (\<lambda>s.
     Option.bind (p_fixed 2 s) (\<lambda>(se, s).
       (let (ns, s) = p_frac s in Option.bind (p_zone s) (\<lambda>(off, s).
          if s = [] \<and> 1 \<le> mo \<and> mo \<le> 12 \<and> 1 \<le> d \<and> d \<le> month_lengths y ! nat (mo - 1)
             \<and> h < 24 \<and> mi < 60 \<and> se < 60
          then Some ((days_of_civil y mo d * 86400 + h * 3600 + mi * 60 + se - off) * second + ns)
          else None)))))))))))))"

lemma p_fixed_pad:
  "0 \<le> n \<Longrightarrow> n < 10 ^ w \<Longrightarrow> p_fixed w (nat_pad w n @ r) = Some (n, r)"
  using digits_w_digits [of w "nat n"]
  by (auto simp: p_fixed_def nat_pad_def dec_val_digits_w nat_less_iff)

lemma p_hour_pad: "0 \<le> n \<Longrightarrow> n < 100 \<Longrightarrow> p_hour (nat_pad 2 n @ r) = Some (n, r)"
  by (simp add: p_hour_def p_fixed_pad)

lemma p_lit_hit [simp]: "p_lit c (c # r) = Some r"
  by (simp add: p_lit_def)

lemma TrimRight_split: "\<exists>k. s = TrimRight c s @ replicate k c"
proof -
  let ?u = "takeWhile (\<lambda>x. x = c) (rev s)"
  have "?u = replicate (length ?u) c"
    by (rule replicate_length_same [symmetric]) (auto dest: set_takeWhileD)
  then have "rev s = replicate (length ?u) c @ dropWhile (\<lambda>x. x = c) (rev s)"
    by (metis takeWhile_dropWhile_id)
  then have "s = rev (replicate (length ?u) c @ dropWhile (\<lambda>x. x = c) (rev s))"
    by (metis rev_rev_ident)
  then show ?thesis by (auto simp: TrimRight_def)
qed

lemma p_frac_format:
  assumes "0 \<le> ns" "ns < second"
  shows "p_frac (format_frac ns @ ''Z'' ) = (ns, ''Z'')"
proof -
  define s where "s = nat_pad 9 ns"
  obtain k where k: "s = TrimRight (CHR ''0'') s @ replicate k (CHR ''0'')"
    using TrimRight_split by blast
  define t where "t = TrimRight (CHR ''0'') s"
  have s9: "length s = 9" and dig: "\<forall>c \<in> set s. is_digit c"
    by (simp_all add: s_def nat_pad_def)
  have tdig: "\<forall>c \<in> set t. is_digit c" using dig k unfolding t_def by (metis UnCI set_append)
  have len: "length t + k = 9" using s9 k unfolding t_def by (metis length_append length_replicate)
  have "dec_val 0 s = nat ns"
    unfolding s_def nat_pad_def by (rule dec_val_digits_w) (use assms in \<open>simp add: second_def nat_less_iff\<close>)
  moreover from len have "9 - length t = k" by linarith
  ultimately have val: "dec_val 0 t * 10 ^ (9 - length t) = nat ns"
    using k dec_val_append [of 0 t "replicate k (CHR ''0'')"]
    by (simp add: t_def dec_val_zeros)
  have fmt: "format_frac ns = (if t = [] then [] else CHR ''.'' # t)"
    by (simp add: format_frac_def s_def t_def Let_def)
  show ?thesis
  proof (cases t)
    case Nil
    with val assms have "ns = 0" by simp
    with Nil fmt show ?thesis by (simp add: p_frac_def)
  next
    case (Cons d r)
    have z: "\<not> is_digit (CHR ''Z'')" by (simp add: is_digit_def)
    have tw: "takeWhile is_digit (d # r @ ''Z'') = t" "dropWhile is_digit (d # r @ ''Z'') = ''Z''"
      using tdig z Cons by (simp_all add: takeWhile_append2 dropWhile_append2)
    have "take 9 t = t" using len by simp
    moreover have "int (dec_val 0 t * 10 ^ (9 - length t)) = ns"
      using assms(1) by (simp only: val)
    ultimately show ?thesis using tw tdig Cons
      by (simp add: fmt p_frac_def Let_def)
  qed
qed

section \<open>The round trip\<close>

definition printable :: "gotime \<Rightarrow> bool" where
  "printable t \<longleftrightarrow> 0 \<le> t \<and> t < 3652059 * 86400 * second"

lemma year_range:
  assumes "civil_of_days d0 = (y, m, d)" "0 \<le> d0" "d0 < 3652059"
  shows "1 \<le> y" "y \<le> 9999"
proof -
  have eq: "days_of_civil y m d = d0" and m: "1 \<le> m" "m \<le> 12" and d: "1 \<le> d"
    and dm: "d \<le> month_lengths y ! nat (m - 1)"
    using civil_roundtrip [OF assms(1)] by blast+
  have pre: "0 \<le> sum_list (take k (month_lengths y))" for k
    by (rule sum_list_nonneg) (auto simp: month_lengths_def dest!: in_set_takeD split: if_splits)
  have lo: "days_before_year y \<le> d0"
    using eq pre [of "nat (m - 1)"] d unfolding days_of_civil_def by linarith
  have k: "nat (m - 1) < length (month_lengths y)"
    using m by (simp add: month_lengths_def)
  have "sum_list (take (Suc (nat (m - 1))) (month_lengths y)) \<le> sum_list (month_lengths y)"
  proof -
    have "0 \<le> sum_list (drop (Suc (nat (m - 1))) (month_lengths y))"
      by (rule sum_list_nonneg) (auto simp: month_lengths_def dest!: in_set_dropD split: if_splits)
    then show ?thesis by (metis append_take_drop_id le_add_same_cancel1 sum_list_append)
  qed
  then have hi: "d0 < days_before_year y + 366"
    using eq dm k sum_month_lengths [of y] unfolding days_of_civil_def
    by (simp add: take_Suc_conv_app_nth split: if_splits)
  show "1 \<le> y"
  proof (rule ccontr)
    assume "\<not> 1 \<le> y"
    then consider "y = 0" | "y - 1 \<le> -2" by linarith
    then have "days_before_year y \<le> -366"
    proof cases
      case 2
      define p where "p = y - 1"
      have "4 * (p div 4) \<le> p" "p - 99 \<le> 100 * (p div 100)" "400 * (p div 400) \<le> p"
        by (linarith, linarith, linarith)
      with 2 show ?thesis unfolding days_before_year_def Let_def p_def [symmetric] by simp
    qed (simp add: days_before_year_def)
    with hi assms(2) show False by simp
  qed
  show "y \<le> 9999"
  proof (rule ccontr)
    assume "\<not> y \<le> 9999"
    then consider "y = 10000" | "10000 \<le> y - 1" by linarith
    then have "3652059 \<le> days_before_year y"
    proof cases
      case 2
      define p where "p = y - 1"
      have "p - 3 \<le> 4 * (p div 4)" "100 * (p div 100) \<le> p" "p - 399 \<le> 400 * (p div 400)"
        by (linarith, linarith, linarith)
      with 2 show ?thesis unfolding days_before_year_def Let_def p_def [symmetric] by simp
    qed (simp add: days_before_year_def)
    with lo assms(3) show False by simp
  qed
qed

theorem parse_format:
  assumes "printable t"
  shows "parse_time (format_time t) = Some t"
proof -
  define secs ns where "secs = t div second" and "ns = t mod second"
  define days sod where "days = secs div 86400" and "sod = secs mod 86400"
  obtain y m d where c: "civil_of_days days = (y, m, d)" by (cases "civil_of_days days") auto
  have ns: "0 \<le> ns" "ns < second" by (simp_all add: ns_def second_def)
  have sod: "0 \<le> sod" "sod < 86400" by (simp_all add: sod_def)
  have t: "t = (days * 86400 + sod) * second + ns"
    by (simp add: days_def sod_def secs_def ns_def)
  have days: "0 \<le> days" "days < 3652059"
  proof -
    have "days = t div 86400000000000"
      by (simp add: days_def secs_def second_def zdiv_zmult2_eq [symmetric])
    then show "0 \<le> days" "days < 3652059"
      using assms unfolding printable_def second_def by linarith+
  qed
  note civil = civil_roundtrip [OF c] and yr = year_range [OF c days]
  have d31: "d \<le> 31"
  proof -
    have "\<forall>x \<in> set (month_lengths y). x \<le> 31" by (simp add: month_lengths_def)
    moreover have "nat (m - 1) < length (month_lengths y)"
      using civil(2,3) by (simp add: month_lengths_def)
    ultimately show ?thesis using civil(5) nth_mem by fastforce
  qed
  have fields: "0 \<le> sod div 3600" "sod div 3600 < 24" "0 \<le> sod mod 3600 div 60" "sod mod 3600 div 60 < 60"
    "0 \<le> sod mod 60" "sod mod 60 < 60" using sod by simp_all
  have hms: "sod div 3600 * 3600 + sod mod 3600 div 60 * 60 + sod mod 60 = sod"
  proof -
    have "sod mod 3600 div 60 * 60 + sod mod 3600 mod 60 = sod mod 3600" by simp
    moreover have "sod mod 3600 mod 60 = sod mod 60" by (rule mod_mod_cancel) simp
    ultimately show ?thesis by (metis add.assoc div_mult_mod_eq)
  qed
  have fmt: "format_time t = nat_pad 4 y @ ''-'' @ nat_pad 2 m @ ''-'' @ nat_pad 2 d @ ''T'' @
      nat_pad 2 (sod div 3600) @ '':'' @ nat_pad 2 (sod mod 3600 div 60) @ '':'' @
      nat_pad 2 (sod mod 60) @ format_frac ns @ ''Z''"
    by (simp add: format_time_def Let_def c flip: secs_def ns_def days_def sod_def)
  have "parse_time (format_time t) =
      Some ((days_of_civil y m d * 86400 + sod div 3600 * 3600 + sod mod 3600 div 60 * 60 +
        sod mod 60 - 0) * second + ns)"
  proof -
    have steps: "p_fixed 4 (nat_pad 4 y @ r) = Some (y, r)" "p_fixed 2 (nat_pad 2 m @ r) = Some (m, r)"
      "p_fixed 2 (nat_pad 2 d @ r) = Some (d, r)"
      "p_hour (nat_pad 2 (sod div 3600) @ r) = Some (sod div 3600, r)"
      "p_fixed 2 (nat_pad 2 (sod mod 3600 div 60) @ r) = Some (sod mod 3600 div 60, r)"
      "p_fixed 2 (nat_pad 2 (sod mod 60) @ r) = Some (sod mod 60, r)" for r
    proof -
      have b: "x < 60 \<Longrightarrow> x < 10 ^ 2" "x < 24 \<Longrightarrow> x < 100" for x :: int by simp_all
      show "p_fixed 4 (nat_pad 4 y @ r) = Some (y, r)" using yr by (intro p_fixed_pad) simp_all
      show "p_fixed 2 (nat_pad 2 m @ r) = Some (m, r)" using civil(2,3) by (intro p_fixed_pad) simp_all
      show "p_fixed 2 (nat_pad 2 d @ r) = Some (d, r)" using civil(4) d31 by (intro p_fixed_pad) simp_all
      show "p_hour (nat_pad 2 (sod div 3600) @ r) = Some (sod div 3600, r)"
        by (rule p_hour_pad [OF fields(1) b(2) [OF fields(2)]])
      show "p_fixed 2 (nat_pad 2 (sod mod 3600 div 60) @ r) = Some (sod mod 3600 div 60, r)"
        by (rule p_fixed_pad [OF fields(3) b(1) [OF fields(4)]])
      show "p_fixed 2 (nat_pad 2 (sod mod 60) @ r) = Some (sod mod 60, r)"
        by (rule p_fixed_pad [OF fields(5) b(1) [OF fields(6)]])
    qed
    have zone: "p_zone ''Z'' = Some (0, [])" by (simp add: p_zone_def)
    have ok: "1 \<le> m \<and> m \<le> 12 \<and> 1 \<le> d \<and> d \<le> month_lengths y ! nat (m - 1) \<and>
        sod div 3600 < 24 \<and> sod mod 3600 div 60 < 60 \<and> sod mod 60 < 60"
      using civil(2-5) fields by blast
    show ?thesis
      unfolding fmt parse_time_def append_Cons append_Nil
      by (simp only: steps Option.bind.simps prod.case p_lit_hit p_frac_format [OF ns] zone Let_def
          ok simp_thms if_True)
  qed
  also have "\<dots> = Some t" 
    unfolding civil(1) add.assoc diff_0_right hms [unfolded add.assoc] by (simp only: t)
  finally show ?thesis .
qed

end
