(* ===== verification/GoValue.thy ===== *)
theory GoValue
  imports GoTime Complex_Main
begin

text \<open>
  The dynamically typed values (\<^verbatim>\<open>interface{}\<close>) that the program keeps in a node's \<^verbatim>\<open>Observed\<close> map, in
  benchmark jobs, in model lifecycle actions and in audit events, and what a passage through
  \<^verbatim>\<open>encoding/json\<close> does to them: the store hands out copies made by marshalling and
  unmarshalling, so integers come back as floats, instants as strings, and typed slices as
  slices of \<^verbatim>\<open>interface{}\<close>. \<^verbatim>\<open>float64\<close> values are kept as exact rationals; the sources only
  compare them, and divide two small counts.
\<close>

text \<open>One constructor per dynamic type that the sources put into these maps: \<^verbatim>\<open>nil\<close>, \<^verbatim>\<open>bool\<close>, \<^verbatim>\<open>int\<close>,
  \<^verbatim>\<open>float64\<close>, \<^verbatim>\<open>string\<close>, \<^verbatim>\<open>time.Time\<close>, \<^verbatim>\<open>[]interface{}\<close>, \<^verbatim>\<open>map[string]interface{}\<close>,
  \<^verbatim>\<open>[]map[string]interface{}\<close>, \<^verbatim>\<open>[]string\<close> and \<^verbatim>\<open>map[string]int\<close>.\<close>

datatype gval =
    GNil
  | GBool bool
  | GInt int
  | GFloat rat
  | GStr string
  | GTime gotime
  | GList "gval list"
  | GMap "(string \<times> gval) list"
  | GMaps "(string \<times> gval) list list"
  | GStrs "string list"
  | GCounts "(string \<times> int) list"

type_synonym gobj = "(string, gval) gomap"

text \<open>Reading a missing key gives \<^verbatim>\<open>nil\<close>.\<close>

definition field :: "gobj \<Rightarrow> string \<Rightarrow> gval" where
  "field m k = (case goget m k of None \<Rightarrow> GNil | Some v \<Rightarrow> v)"

definition has_key :: "gobj \<Rightarrow> string \<Rightarrow> bool" where
  "has_key m k \<longleftrightarrow> goget m k \<noteq> None"

lemma field_goput [simp]: "field (goput k v m) k' = (if k' = k then v else field m k')"
  by (simp add: field_def)

lemma field_godelete [simp]: "field (godelete k m) k' = (if k' = k then GNil else field m k')"
  by (simp add: field_def)

lemma field_Nil [simp]: "field [] k = GNil"
  by (simp add: field_def)

text \<open>Type assertions.\<close>

definition as_string :: "gval \<Rightarrow> string" where
  "as_string v = (case v of GStr s \<Rightarrow> s | _ \<Rightarrow> [])"

definition as_bool :: "gval \<Rightarrow> bool option" where
  "as_bool v = (case v of GBool b \<Rightarrow> Some b | _ \<Rightarrow> None)"

definition as_map :: "gval \<Rightarrow> gobj option" where
  "as_map v = (case v of GMap m \<Rightarrow> Some m | _ \<Rightarrow> None)"

text \<open>The maps held by a value that is a \<^verbatim>\<open>[]map[string]interface{}\<close> or a \<^verbatim>\<open>[]interface{}\<close>.\<close>

definition as_maps :: "gval \<Rightarrow> gobj list" where
  "as_maps v = (case v of
     GMaps ms \<Rightarrow> ms
   | GList vs \<Rightarrow> List.map_filter as_map vs
   | _ \<Rightarrow> [])"

definition as_time :: "gval \<Rightarrow> gotime option" where
  "as_time v = (case v of GTime t \<Rightarrow> Some t | GStr s \<Rightarrow> parse_time s | _ \<Rightarrow> None)"

text \<open>Go's conversion of a \<^verbatim>\<open>float64\<close> to \<^verbatim>\<open>int\<close> truncates towards zero.\<close>

definition rat_trunc :: "rat \<Rightarrow> int" where
  "rat_trunc q = (if 0 \<le> q then \<lfloor>q\<rfloor> else \<lceil>q\<rceil>)"

lemma rat_trunc_of_int [simp]: "rat_trunc (of_int n) = n"
  by (simp add: rat_trunc_def)

section \<open>Through JSON and back\<close>

fun json_val :: "gval \<Rightarrow> gval" where
  "json_val GNil = GNil"
| "json_val (GBool b) = GBool b"
| "json_val (GInt n) = GFloat (of_int n)"
| "json_val (GFloat q) = GFloat q"
| "json_val (GStr s) = GStr s"
| "json_val (GTime t) = GStr (format_time t)"
| "json_val (GList vs) = GList (map json_val vs)"
| "json_val (GMap m) = GMap (map (\<lambda>(k, v). (k, json_val v)) m)"
| "json_val (GMaps ms) = GList (map (\<lambda>m. GMap (map (\<lambda>(k, v). (k, json_val v)) m)) ms)"
| "json_val (GStrs ss) = GList (map GStr ss)"
| "json_val (GCounts cs) = GMap (map (\<lambda>(k, n). (k, GFloat (of_int n))) cs)"

definition json_obj :: "gobj \<Rightarrow> gobj" where
  "json_obj m = map (\<lambda>(k, v). (k, json_val v)) m"

lemma json_val_idem [simp]: "json_val (json_val v) = json_val v"
  by (induction v rule: json_val.induct) (auto simp: comp_def split: prod.splits)

lemma json_obj_idem [simp]: "json_obj (json_obj m) = json_obj m"
  by (simp add: json_obj_def comp_def case_prod_unfold)

lemma goget_json_obj [simp]: "goget (json_obj m) k = map_option json_val (goget m k)"
  by (simp add: goget_def json_obj_def map_of_map)

lemma field_json_obj [simp]: "field (json_obj m) k = json_val (field m k)"
  by (simp add: field_def split: option.splits)

lemma map_fst_json_obj [simp]: "map fst (json_obj m) = map fst m"
  by (simp add: json_obj_def comp_def case_prod_unfold)

lemma json_obj_goput: "json_obj (goput k v m) = goput k (json_val v) (json_obj m)"
  unfolding goput_def json_obj_def by (induction m) auto

lemma json_GMap: "json_val (GMap m) = GMap (json_obj m)"
  by (simp add: json_obj_def)

lemma json_GMaps: "json_val (GMaps ms) = GList (map (\<lambda>m. GMap (json_obj m)) ms)"
  by (simp add: json_obj_def)

lemma as_map_json [simp]: "as_map (json_val v) = (case v of
    GMap m \<Rightarrow> Some (json_obj m)
  | GCounts cs \<Rightarrow> Some (map (\<lambda>(k, n). (k, GFloat (of_int n))) cs)
  | _ \<Rightarrow> None)"
  by (cases v) (simp_all add: as_map_def json_obj_def)

lemma as_maps_json_GMaps: "as_maps (json_val (GMaps ms)) = map json_obj ms"
  by (simp only: json_GMaps)
    (simp add: as_maps_def List.map_filter_def as_map_def comp_def filter_map)

lemma as_string_json_GStr [simp]: "as_string (json_val (GStr s)) = s"
  by (simp add: as_string_def)

lemma as_bool_json [simp]: "as_bool (json_val v) = as_bool v"
  by (cases v) (simp_all add: as_bool_def)

text \<open>An instant read back from a copy is the instant that was stored.\<close>

lemma as_time_json_GTime: "printable t \<Longrightarrow> as_time (json_val (GTime t)) = Some t"
  by (simp add: as_time_def parse_format)

end
