(* ===== verification/Config.thy ===== *)
theory Config
  imports GoValue
begin

text \<open>
  Package \<^verbatim>\<open>internal/config\<close>: the configuration structures, the defaults, normalisation and
  loading. The YAML decoder, the file system and the process environment are parameters of
  \<open>Load\<close> and \<open>resolveEnv\<close>.
\<close>

section \<open>Structures\<close>

record ServerConfig =
  sv_Mode :: string
  sv_Listen :: string

record APIKey =
  ak_Name :: string
  ak_Key :: string
  ak_KeyEnv :: string

record AuthConfig =
  au_Enabled :: bool
  au_APIKeys :: "APIKey list"

record QueuePriorityWeights =
  w_High :: int
  w_Normal :: int
  w_Low :: int

record RoutingConfig =
  r_DefaultModelAlias :: string
  r_DefaultExecutionMode :: string
  r_AllowFallback :: bool
  r_RequestTimeoutSec :: int
  r_QueueMaxDepth :: int
  r_QueueSchedulingPolicy :: string
  r_QueuePriorityWeights :: QueuePriorityWeights

record ModelAlias =
  ma_Strategy :: string
  ma_Candidates :: "string list"
  ma_ExecutionMode :: string
  ma_MinParticipants :: int
  ma_MaxParticipants :: int
  ma_Affinity :: string
  ma_KeepWarm :: bool

record SubscriberConfig =
  sub_NodeID :: string
  sub_URL :: string
  sub_Token :: string

record Budget =
  b_DailyLimitUSD :: rat
  b_PerRequestLimitUSD :: rat

record FrontierConfig =
  f_Enabled :: bool
  f_DefaultMode :: string
  f_RequireApprovalFor :: "string list"
  f_LocalOnly :: bool
  f_Budget :: Budget

record SplunkHECConfig =
  h_Enabled :: bool
  h_URL :: string
  h_Token :: string
  h_TokenEnv :: string
  h_Index :: string
  h_Source :: string
  h_VerifySSL :: bool
  h_Prefix :: string

record TelemetryConfig =
  t_JSONLogs :: bool
  t_LocalJSONLogs :: bool
  t_LoggingLevel :: string
  t_SplunkHEC :: SplunkHECConfig
  t_StorePayloads :: bool
  t_RedactPayloads :: bool

record NodeConfig =
  nc_NodeID :: string
  nc_DisplayName :: string
  nc_Tags :: "string list"

record RegistrationConfig =
  reg_MarshalURL :: string
  reg_IntervalSeconds :: int
  reg_EnrollmentToken :: string
  reg_HeartbeatCredential :: string
  reg_HeartbeatCredentialEnv :: string

record BenchmarkSchedulerConfig =
  bs_Policy :: string
  bs_MaxAttempts :: int
  bs_LeaseTimeoutSeconds :: int
  bs_RetryDelaySeconds :: int
  bs_BackgroundEnabled :: bool
  bs_TickIntervalSeconds :: int

record BenchmarkRunnerConfig =
  br_Enabled :: bool
  br_Mode :: string
  br_PollIntervalSeconds :: int
  br_MaxJobsPerTick :: int
  br_ResultBodyPolicy :: string

record CapabilitiesConfig =
  cap_AutoDetect :: bool
  cap_BenchmarkOnStart :: bool
  cap_BenchmarkIntervalMinutes :: int
  cap_BenchmarkScheduler :: BenchmarkSchedulerConfig
  cap_BenchmarkRunner :: BenchmarkRunnerConfig

record LimitsConfig =
  l_MaxConcurrentJobs :: int
  l_MaxContextTokens :: int
  l_AllowModelPull :: bool

record UIConfig =
  ui_Enabled :: bool
  ui_RequireAuth :: bool

text \<open>One-field structures (\<^verbatim>\<open>FeatureConfig\<close>, \<^verbatim>\<open>OllamaConfig\<close>, \<^verbatim>\<open>SessionConfig\<close>) are their field.
  A nil \<^verbatim>\<open>ModelAliases\<close> map is \<^term>\<open>None\<close>.\<close>

record Config =
  c_Version :: string
  c_Server :: ServerConfig
  c_OllamaCompat :: bool
  c_OpenAICompat :: bool
  c_Auth :: AuthConfig
  c_Routing :: RoutingConfig
  c_ModelAliases :: "(string, ModelAlias) gomap option"
  c_Subscribers :: "SubscriberConfig list"
  c_Frontier :: FrontierConfig
  c_Telemetry :: TelemetryConfig
  c_Node :: NodeConfig
  c_Ollama_URL :: string
  c_Registration :: RegistrationConfig
  c_Capabilities :: CapabilitiesConfig
  c_Limits :: LimitsConfig
  c_UI :: UIConfig
  c_Session_DefaultAffinity :: string
  c_Compatibility :: gobj

section \<open>Benchmark scheduler and runner policies\<close>

definition boundedInt :: "int \<Rightarrow> int \<Rightarrow> int \<Rightarrow> int \<Rightarrow> int" where
  "boundedInt value fallback lo hi =
     (let v = (if value \<le> 0 then fallback else value)
      in if v < lo then lo else if hi < v then hi else v)"

definition PolicyBoundedRetryTimeout :: string where
  "PolicyBoundedRetryTimeout = ''bounded_retry_timeout_v1''"

definition DefaultBenchmarkSchedulerConfig :: BenchmarkSchedulerConfig where
  "DefaultBenchmarkSchedulerConfig =
     \<lparr> bs_Policy = PolicyBoundedRetryTimeout, bs_MaxAttempts = 3, bs_LeaseTimeoutSeconds = 600,
       bs_RetryDelaySeconds = 60, bs_BackgroundEnabled = False, bs_TickIntervalSeconds = 60 \<rparr>"

definition NormalizeBenchmarkSchedulerConfig :: "BenchmarkSchedulerConfig \<Rightarrow> BenchmarkSchedulerConfig" where
  "NormalizeBenchmarkSchedulerConfig policy =
     (let defaults = DefaultBenchmarkSchedulerConfig in
      policy\<lparr> bs_Policy := (if bs_Policy policy \<noteq> PolicyBoundedRetryTimeout
                             then bs_Policy defaults else bs_Policy policy),
        bs_MaxAttempts := boundedInt (bs_MaxAttempts policy) (bs_MaxAttempts defaults) 1 10,
        bs_LeaseTimeoutSeconds :=
          boundedInt (bs_LeaseTimeoutSeconds policy) (bs_LeaseTimeoutSeconds defaults) 30 3600,
        bs_RetryDelaySeconds :=
          boundedInt (bs_RetryDelaySeconds policy) (bs_RetryDelaySeconds defaults) 5 1800,
        bs_TickIntervalSeconds :=
          boundedInt (bs_TickIntervalSeconds policy) (bs_TickIntervalSeconds defaults) 10 3600 \<rparr>)"

definition ModeDryRun :: string where "ModeDryRun = ''dry_run_v1''"
definition ModeSyntheticBuiltin :: string where "ModeSyntheticBuiltin = ''synthetic_builtin_v1''"
definition ResultPolicyMetricsOnly :: string where "ResultPolicyMetricsOnly = ''metrics_only''"

definition DefaultBenchmarkRunnerConfig :: BenchmarkRunnerConfig where
  "DefaultBenchmarkRunnerConfig =
     \<lparr> br_Enabled = False, br_Mode = ModeDryRun, br_PollIntervalSeconds = 60,
       br_MaxJobsPerTick = 1, br_ResultBodyPolicy = ResultPolicyMetricsOnly \<rparr>"

definition NormalizeBenchmarkRunnerConfig :: "BenchmarkRunnerConfig \<Rightarrow> BenchmarkRunnerConfig" where
  "NormalizeBenchmarkRunnerConfig runner =
     (let defaults = DefaultBenchmarkRunnerConfig in
      runner\<lparr> br_Mode := (if br_Mode runner \<in> {ModeDryRun, ModeSyntheticBuiltin}
                          then br_Mode runner else br_Mode defaults),
        br_PollIntervalSeconds :=
          boundedInt (br_PollIntervalSeconds runner) (br_PollIntervalSeconds defaults) 5 3600,
        br_MaxJobsPerTick := boundedInt (br_MaxJobsPerTick runner) (br_MaxJobsPerTick defaults) 1 5,
        br_ResultBodyPolicy := (if br_ResultBodyPolicy runner \<noteq> ResultPolicyMetricsOnly
          then br_ResultBodyPolicy defaults else br_ResultBodyPolicy runner) \<rparr>)"

section \<open>Defaults and normalisation\<close>

definition default_aliases :: "(string, ModelAlias) gomap" where
  "default_aliases =
    [(''local-fast'', \<lparr> ma_Strategy = ''fastest_available'', ma_Candidates = [''llama3.1:8b''],
        ma_ExecutionMode = ''single'', ma_MinParticipants = 0, ma_MaxParticipants = 0,
        ma_Affinity = ''soft'', ma_KeepWarm = False \<rparr>),
     (''local-code'', \<lparr> ma_Strategy = ''best_code_node'',
        ma_Candidates = [''qwen2.5-coder:14b'', ''llama3.1:8b''],
        ma_ExecutionMode = ''single'', ma_MinParticipants = 0, ma_MaxParticipants = 0,
        ma_Affinity = ''soft'', ma_KeepWarm = False \<rparr>),
     (''local-consensus'', \<lparr> ma_Strategy = ''consensus'',
        ma_Candidates = [''qwen2.5-coder:14b'', ''llama3.1:8b''],
        ma_ExecutionMode = ''consensus'', ma_MinParticipants = 2, ma_MaxParticipants = 4,
        ma_Affinity = ''task'', ma_KeepWarm = False \<rparr>)]"

definition Default :: "string \<Rightarrow> Config" where
  "Default mode =
    \<lparr> c_Version = ''0.1.0'',
      c_Server = \<lparr> sv_Mode = mode,
        sv_Listen = (if mode = ''subscriber'' then ''127.0.0.1:11436'' else ''127.0.0.1:11435'') \<rparr>,
      c_OllamaCompat = True,
      c_OpenAICompat = True,
      c_Auth = \<lparr> au_Enabled = False, au_APIKeys = [] \<rparr>,
      c_Routing = \<lparr> r_DefaultModelAlias = ''local-fast'', r_DefaultExecutionMode = ''single'',
        r_AllowFallback = True, r_RequestTimeoutSec = 300, r_QueueMaxDepth = 128,
        r_QueueSchedulingPolicy = ''weighted_priority'',
        r_QueuePriorityWeights = \<lparr> w_High = 3, w_Normal = 2, w_Low = 1 \<rparr> \<rparr>,
      c_ModelAliases = Some default_aliases,
      c_Subscribers = [],
      c_Frontier = \<lparr> f_Enabled = False, f_DefaultMode = ''frontier_delta'',
        f_RequireApprovalFor = [], f_LocalOnly = True,
        f_Budget = \<lparr> b_DailyLimitUSD = 0, b_PerRequestLimitUSD = 0 \<rparr> \<rparr>,
      c_Telemetry = \<lparr> t_JSONLogs = True, t_LocalJSONLogs = False, t_LoggingLevel = ''metadata_only'',
        t_SplunkHEC = \<lparr> h_Enabled = False, h_URL = [], h_Token = [], h_TokenEnv = [],
          h_Index = ''llama_wrangler'', h_Source = ''llama-wrangler'', h_VerifySSL = True,
          h_Prefix = ''llama_wrangler'' \<rparr>,
        t_StorePayloads = False, t_RedactPayloads = False \<rparr>,
      c_Node = \<lparr> nc_NodeID = ''local'', nc_DisplayName = [], nc_Tags = [] \<rparr>,
      c_Ollama_URL = ''http://localhost:11434'',
      c_Registration = \<lparr> reg_MarshalURL = [], reg_IntervalSeconds = 0, reg_EnrollmentToken = [],
        reg_HeartbeatCredential = [], reg_HeartbeatCredentialEnv = [] \<rparr>,
      c_Capabilities = \<lparr> cap_AutoDetect = True, cap_BenchmarkOnStart = False,
        cap_BenchmarkIntervalMinutes = 0,
        cap_BenchmarkScheduler = DefaultBenchmarkSchedulerConfig,
        cap_BenchmarkRunner = DefaultBenchmarkRunnerConfig \<rparr>,
      c_Limits = \<lparr> l_MaxConcurrentJobs = 2, l_MaxContextTokens = 32768, l_AllowModelPull = False \<rparr>,
      c_UI = \<lparr> ui_Enabled = True, ui_RequireAuth = True \<rparr>,
      c_Session_DefaultAffinity = ''soft'',
      c_Compatibility = [] \<rparr>"

definition orElse :: "string \<Rightarrow> string \<Rightarrow> string" where
  "orElse s d = (if s = [] then d else s)"

definition orElseInt :: "int \<Rightarrow> int \<Rightarrow> int" where
  "orElseInt n d = (if n = 0 then d else n)"

definition positiveOr :: "int \<Rightarrow> int \<Rightarrow> int" where
  "positiveOr n d = (if n \<le> 0 then d else n)"

definition Normalize :: "Config \<Rightarrow> Config" where
  "Normalize cfg =
    (let def = Default (sv_Mode (c_Server cfg));
         r = c_Routing cfg; dr = c_Routing def;
         w = r_QueuePriorityWeights r; dw = r_QueuePriorityWeights dr;
         t = c_Telemetry cfg; h = t_SplunkHEC t
     in cfg\<lparr>
      c_Version := orElse (c_Version cfg) (c_Version def),
      c_Server := (c_Server cfg)\<lparr>
        sv_Listen := orElse (sv_Listen (c_Server cfg)) (sv_Listen (c_Server def)),
        sv_Mode := orElse (sv_Mode (c_Server cfg)) (sv_Mode (c_Server def)) \<rparr>,
      c_Routing := r\<lparr>
        r_DefaultModelAlias := orElse (r_DefaultModelAlias r) (r_DefaultModelAlias dr),
        r_DefaultExecutionMode := orElse (r_DefaultExecutionMode r) (r_DefaultExecutionMode dr),
        r_RequestTimeoutSec := orElseInt (r_RequestTimeoutSec r) (r_RequestTimeoutSec dr),
        r_QueueMaxDepth := orElseInt (r_QueueMaxDepth r) (r_QueueMaxDepth dr),
        r_QueueSchedulingPolicy := orElse (r_QueueSchedulingPolicy r) (r_QueueSchedulingPolicy dr),
        r_QueuePriorityWeights := w\<lparr>
          w_High := positiveOr (w_High w) (w_High dw),
          w_Normal := positiveOr (w_Normal w) (w_Normal dw),
          w_Low := positiveOr (w_Low w) (w_Low dw) \<rparr> \<rparr>,
      c_ModelAliases := (case c_ModelAliases cfg of None \<Rightarrow> c_ModelAliases def | Some m \<Rightarrow> Some m),
      c_Ollama_URL := orElse (c_Ollama_URL cfg) (c_Ollama_URL def),
      c_Telemetry := t\<lparr>
        t_LoggingLevel := orElse (t_LoggingLevel t) ''metadata_only'',
        t_SplunkHEC := h\<lparr>
          h_Index := orElse (h_Index h) ''llama_wrangler'',
          h_Source := orElse (h_Source h) ''llama-wrangler'',
          h_Prefix := orElse (h_Prefix h) ''llama_wrangler'' \<rparr> \<rparr>,
      c_Session_DefaultAffinity := orElse (c_Session_DefaultAffinity cfg) ''soft'',
      c_UI := (c_UI cfg)\<lparr> ui_Enabled := (if ui_Enabled (c_UI cfg) = False then True else ui_Enabled (c_UI cfg)) \<rparr>,
      c_Capabilities := (c_Capabilities cfg)\<lparr>
        cap_BenchmarkScheduler :=
          NormalizeBenchmarkSchedulerConfig (cap_BenchmarkScheduler (c_Capabilities cfg)),
        cap_BenchmarkRunner :=
          NormalizeBenchmarkRunnerConfig (cap_BenchmarkRunner (c_Capabilities cfg)) \<rparr> \<rparr>)"

section \<open>Loading\<close>

definition resolveEnv :: "(string \<Rightarrow> string) \<Rightarrow> Config \<Rightarrow> Config" where
  "resolveEnv getenv cfg =
    (let fill = (\<lambda>v e. if v = [] \<and> e \<noteq> [] then getenv e else v);
         h = t_SplunkHEC (c_Telemetry cfg); g = c_Registration cfg
     in cfg\<lparr>
      c_Auth := (c_Auth cfg)\<lparr> au_APIKeys :=
        map (\<lambda>k. k\<lparr> ak_Key := fill (ak_Key k) (ak_KeyEnv k) \<rparr>) (au_APIKeys (c_Auth cfg)) \<rparr>,
      c_Telemetry := (c_Telemetry cfg)\<lparr> t_SplunkHEC := h\<lparr> h_Token := fill (h_Token h) (h_TokenEnv h) \<rparr> \<rparr>,
      c_Registration := g\<lparr> reg_HeartbeatCredential :=
        fill (reg_HeartbeatCredential g) (reg_HeartbeatCredentialEnv g) \<rparr> \<rparr>)"

text \<open>\<open>readFile\<close> is \<^verbatim>\<open>os.ReadFile\<close> and \<open>yaml\<close> is \<^verbatim>\<open>yaml.Unmarshal\<close> into an existing structure; both may
  fail. The error case returns the configuration reached so far, as the Go function does.\<close>

definition Load :: "(string \<Rightarrow> 'e + 'd) \<Rightarrow> ('d \<Rightarrow> Config \<Rightarrow> 'e option \<times> Config) \<Rightarrow> (string \<Rightarrow> string)
    \<Rightarrow> string \<Rightarrow> 'e option \<times> Config" where
  "Load readFile yaml getenv path =
    (let cfg = Default ''marshal'' in
     case readFile path of
       Inl err \<Rightarrow> (Some err, cfg)
     | Inr data \<Rightarrow>
        (case yaml data cfg of
           (Some err, cfg) \<Rightarrow> (Some err, cfg)
         | (None, cfg) \<Rightarrow> (None, resolveEnv getenv (Normalize cfg))))"

text \<open>\<^verbatim>\<open>RoutingConfig.Timeout\<close>: the product is an \<^verbatim>\<open>int64\<close> and wraps.\<close>

definition Timeout :: "RoutingConfig \<Rightarrow> duration" where
  "Timeout r = (if r_RequestTimeoutSec r \<le> 0 then 5 * minute
                else i64 (r_RequestTimeoutSec r * second))"

section \<open>Well-formed configurations\<close>

definition scheduler_wf :: "BenchmarkSchedulerConfig \<Rightarrow> bool" where
  "scheduler_wf p \<longleftrightarrow> bs_Policy p = PolicyBoundedRetryTimeout \<and>
     1 \<le> bs_MaxAttempts p \<and> bs_MaxAttempts p \<le> 10 \<and>
     30 \<le> bs_LeaseTimeoutSeconds p \<and> bs_LeaseTimeoutSeconds p \<le> 3600 \<and>
     5 \<le> bs_RetryDelaySeconds p \<and> bs_RetryDelaySeconds p \<le> 1800 \<and>
     10 \<le> bs_TickIntervalSeconds p \<and> bs_TickIntervalSeconds p \<le> 3600"

definition runner_wf :: "BenchmarkRunnerConfig \<Rightarrow> bool" where
  "runner_wf r \<longleftrightarrow> br_Mode r \<in> {ModeDryRun, ModeSyntheticBuiltin} \<and>
     5 \<le> br_PollIntervalSeconds r \<and> br_PollIntervalSeconds r \<le> 3600 \<and>
     1 \<le> br_MaxJobsPerTick r \<and> br_MaxJobsPerTick r \<le> 5 \<and>
     br_ResultBodyPolicy r = ResultPolicyMetricsOnly"

definition config_wf :: "Config \<Rightarrow> bool" where
  "config_wf c \<longleftrightarrow> c_Version c \<noteq> [] \<and> sv_Listen (c_Server c) \<noteq> [] \<and>
     r_DefaultModelAlias (c_Routing c) \<noteq> [] \<and> r_DefaultExecutionMode (c_Routing c) \<noteq> [] \<and>
     r_RequestTimeoutSec (c_Routing c) \<noteq> 0 \<and> r_QueueMaxDepth (c_Routing c) \<noteq> 0 \<and>
     r_QueueSchedulingPolicy (c_Routing c) \<noteq> [] \<and>
     0 < w_High (r_QueuePriorityWeights (c_Routing c)) \<and>
     0 < w_Normal (r_QueuePriorityWeights (c_Routing c)) \<and>
     0 < w_Low (r_QueuePriorityWeights (c_Routing c)) \<and>
     c_ModelAliases c \<noteq> None \<and> c_Ollama_URL c \<noteq> [] \<and>
     t_LoggingLevel (c_Telemetry c) \<noteq> [] \<and>
     h_Index (t_SplunkHEC (c_Telemetry c)) \<noteq> [] \<and> h_Source (t_SplunkHEC (c_Telemetry c)) \<noteq> [] \<and>
     h_Prefix (t_SplunkHEC (c_Telemetry c)) \<noteq> [] \<and>
     c_Session_DefaultAffinity c \<noteq> [] \<and> ui_Enabled (c_UI c) \<and>
     scheduler_wf (cap_BenchmarkScheduler (c_Capabilities c)) \<and>
     runner_wf (cap_BenchmarkRunner (c_Capabilities c))"

lemma boundedInt_bounds:
  assumes "lo \<le> hi" shows "lo \<le> boundedInt v d lo hi" "boundedInt v d lo hi \<le> hi"
  using assms by (simp_all add: boundedInt_def Let_def)

lemma boundedInt_id: "0 < lo \<Longrightarrow> lo \<le> v \<Longrightarrow> v \<le> hi \<Longrightarrow> boundedInt v d lo hi = v"
  by (simp add: boundedInt_def Let_def)

lemma orElse_simps [simp]:
  "orElse s d = [] \<longleftrightarrow> s = [] \<and> d = []" "s \<noteq> [] \<Longrightarrow> orElse s d = s" "orElse s s = s"
  by (simp_all add: orElse_def)

lemma orElseInt_simps [simp]:
  "orElseInt n d = 0 \<longleftrightarrow> n = 0 \<and> d = 0" "n \<noteq> 0 \<Longrightarrow> orElseInt n d = n"
  by (simp_all add: orElseInt_def)

lemma positiveOr_simps [simp]:
  "0 < d \<Longrightarrow> 0 < positiveOr n d" "0 < n \<Longrightarrow> positiveOr n d = n"
  by (simp_all add: positiveOr_def)

interpretation scheduler: normaliser NormalizeBenchmarkSchedulerConfig scheduler_wf
proof
  fix p :: BenchmarkSchedulerConfig
  show "scheduler_wf (NormalizeBenchmarkSchedulerConfig p)"
    by (simp add: scheduler_wf_def NormalizeBenchmarkSchedulerConfig_def Let_def boundedInt_bounds
        DefaultBenchmarkSchedulerConfig_def)
  show "scheduler_wf p \<Longrightarrow> NormalizeBenchmarkSchedulerConfig p = p"
    by (simp add: scheduler_wf_def NormalizeBenchmarkSchedulerConfig_def Let_def boundedInt_id
        DefaultBenchmarkSchedulerConfig_def)
qed

interpretation runner: normaliser NormalizeBenchmarkRunnerConfig runner_wf
proof
  fix r :: BenchmarkRunnerConfig
  show "runner_wf (NormalizeBenchmarkRunnerConfig r)"
    by (simp add: runner_wf_def NormalizeBenchmarkRunnerConfig_def Let_def boundedInt_bounds
        DefaultBenchmarkRunnerConfig_def)
  show "runner_wf r \<Longrightarrow> NormalizeBenchmarkRunnerConfig r = r"
    by (simp add: runner_wf_def NormalizeBenchmarkRunnerConfig_def Let_def boundedInt_id
        DefaultBenchmarkRunnerConfig_def)
qed

lemmas policy_norms [norm_simps] = scheduler.norm_wf scheduler.norm_id runner.norm_wf runner.norm_id

lemma Default_fields:
  "c_Version (Default m) \<noteq> []" "sv_Listen (c_Server (Default m)) \<noteq> []"
  "sv_Mode (c_Server (Default m)) = m" "c_Ollama_URL (Default m) \<noteq> []"
  "c_ModelAliases (Default m) = Some default_aliases"
  by (simp_all add: Default_def)

lemma Default_routing:
  "r_DefaultModelAlias (c_Routing (Default m)) \<noteq> []"
  "r_DefaultExecutionMode (c_Routing (Default m)) \<noteq> []"
  "r_RequestTimeoutSec (c_Routing (Default m)) \<noteq> 0" "r_QueueMaxDepth (c_Routing (Default m)) \<noteq> 0"
  "r_QueueSchedulingPolicy (c_Routing (Default m)) \<noteq> []"
  "0 < w_High (r_QueuePriorityWeights (c_Routing (Default m)))"
  "0 < w_Normal (r_QueuePriorityWeights (c_Routing (Default m)))"
  "0 < w_Low (r_QueuePriorityWeights (c_Routing (Default m)))"
  by (simp_all add: Default_def)

interpretation config: normaliser Normalize config_wf
proof
  fix c :: Config
  show "config_wf (Normalize c)"
    by (simp add: config_wf_def Normalize_def Let_def Default_fields Default_routing norm_simps
        split: option.split)
  show "config_wf c \<Longrightarrow> Normalize c = c"
    by (auto simp: config_wf_def Normalize_def Let_def Default_fields Default_routing norm_simps)
qed

section \<open>What loading promises\<close>

lemma resolveEnv_wf: "config_wf c \<Longrightarrow> config_wf (resolveEnv getenv c)"
  by (simp add: config_wf_def resolveEnv_def Let_def)

text \<open>A configuration file that is read and decoded without an error always leaves a
  configuration in which every policy value is within its bounds: the listen address, the routing
  defaults, the queue weights, the benchmark scheduler and runner limits are usable whatever the
  file says.\<close>

theorem load_wf:
  assumes "Load readFile yaml getenv path = (None, cfg)"
  shows "config_wf cfg"
  using assms
  by (auto simp: Load_def Let_def config.norm_wf resolveEnv_wf split: sum.splits prod.splits option.splits)

theorem load_wf_witness:
  "config_wf (snd (Load (\<lambda>_. Inr ()) (\<lambda>_ c. (None :: string option, c\<lparr> c_Version := [] \<rparr>)) (\<lambda>_. []) ''config.yaml''))"
  using load_wf [of "\<lambda>_. Inr ()" "\<lambda>_ c. (None :: string option, c\<lparr> c_Version := [] \<rparr>)" "\<lambda>_. []" "''config.yaml''"]
  by (simp add: Load_def Let_def)

text \<open>Normalising a configuration is idempotent and leaves exactly the well-formed
  configurations alone.\<close>

theorem Normalize_closure:
  "Normalize (Normalize c) = Normalize c \<and> (Normalize c = c \<longleftrightarrow> config_wf c)"
  by (simp add: config.norm_idem config.norm_fixpoint)

text \<open>The wrap-around of \<open>Timeout\<close> can only be reached with more than 292 years of seconds.\<close>

lemma Timeout_positive:
  "r_RequestTimeoutSec r * second < 2 ^ 63 \<Longrightarrow> 0 < Timeout r"
  by (cases "r_RequestTimeoutSec r \<le> 0")
    (simp_all add: Timeout_def i64_id duration_defs)

end
