(* ===== verification/GoNet.thy ===== *)
theory GoNet
  imports GoTime
begin

text \<open>
  The part of Go's \<^verbatim>\<open>net/url\<close>, \<^verbatim>\<open>net\<close> and \<^verbatim>\<open>net/netip\<close> packages that decides how the program classifies
  an endpoint or a remote address: \<^verbatim>\<open>url.Parse\<close> (scheme and host, with every way it can fail),
  \<^verbatim>\<open>URL.Hostname\<close>, \<^verbatim>\<open>net.SplitHostPort\<close>, \<^verbatim>\<open>net.ParseIP\<close> for dotted quads and for the IPv6 notation,
  and the address classes.
\<close>

section \<open>Characters\<close>

definition is_letter :: "char \<Rightarrow> bool" where
  "is_letter c = (let n = (of_char c :: nat) in 65 \<le> n \<and> n \<le> 90 \<or> 97 \<le> n \<and> n \<le> 122)"

definition hex_val :: "char \<Rightarrow> nat option" where
  "hex_val c = (let n = (of_char c :: nat) in
     if 48 \<le> n \<and> n \<le> 57 then Some (n - 48)
     else if 97 \<le> n \<and> n \<le> 102 then Some (n - 87)
     else if 65 \<le> n \<and> n \<le> 70 then Some (n - 55)
     else None)"

definition is_ctl :: "char \<Rightarrow> bool" where
  "is_ctl c = (let n = (of_char c :: nat) in n < 32 \<or> n = 127)"

text \<open>\<^verbatim>\<open>strings.Cut\<close> at the first, and the split at the last occurrence of a separator.\<close>

definition Cut :: "char \<Rightarrow> string \<Rightarrow> string \<times> string" where
  "Cut c s = (takeWhile (\<lambda>x. x \<noteq> c) s, drop 1 (dropWhile (\<lambda>x. x \<noteq> c) s))"

definition cut_last :: "char \<Rightarrow> string \<Rightarrow> string \<times> string" where
  "cut_last c s = (rev (drop 1 (dropWhile (\<lambda>x. x \<noteq> c) (rev s))), rev (takeWhile (\<lambda>x. x \<noteq> c) (rev s)))"

section \<open>URLs\<close>

datatype escape_mode = EncodeHost | EncodeZone | EncodeOther

definition host_char :: "char \<Rightarrow> bool" where
  "host_char c \<longleftrightarrow> is_letter c \<or> is_digit c \<or> c \<in> set ''!$&()*+,;=:[]<>-_.~'' \<or> c = CHR 0x27 \<or> c = CHR 0x22"

text \<open>\<^verbatim>\<open>unescape\<close>; \<^term>\<open>None\<close> is its error.\<close>

fun unescape :: "escape_mode \<Rightarrow> string \<Rightarrow> string option" where
  "unescape mode [] = Some []"
| "unescape mode (c # s) =
    (if c = CHR ''%'' then
       (case s of
          a # b # rest \<Rightarrow>
            (case (hex_val a, hex_val b) of
               (Some x, Some y) \<Rightarrow>
                 (let v = char_of (16 * x + y) in
                  if mode = EncodeHost \<and> x < 8 \<and> (a, b) \<noteq> (CHR ''2'', CHR ''5'') then None
                  else if mode = EncodeZone \<and> (a, b) \<noteq> (CHR ''2'', CHR ''5'') \<and> v \<noteq> CHR '' '' \<and>
                          \<not> host_char v then None
                  else map_option ((#) v) (unescape mode rest))
             | _ \<Rightarrow> None)
        | _ \<Rightarrow> None)
     else if mode \<noteq> EncodeOther \<and> (of_char c :: nat) < 128 \<and> \<not> host_char c then None
     else map_option ((#) c) (unescape mode s))"

fun get_scheme_from :: "string \<Rightarrow> string \<Rightarrow> string \<Rightarrow> (string \<times> string) option" where
  "get_scheme_from whole acc [] = Some ([], whole)"
| "get_scheme_from whole acc (c # s) =
    (if is_letter c then get_scheme_from whole (acc @ [c]) s
     else if is_digit c \<or> c \<in> set ''+-.'' then
       (if acc = [] then Some ([], whole) else get_scheme_from whole (acc @ [c]) s)
     else if c = CHR '':'' then (if acc = [] then None else Some (acc, s))
     else Some ([], whole))"

definition getScheme :: "string \<Rightarrow> (string \<times> string) option" where
  "getScheme s = get_scheme_from s [] s"

definition validOptionalPort :: "string \<Rightarrow> bool" where
  "validOptionalPort p = (case p of [] \<Rightarrow> True | c # ds \<Rightarrow> c = CHR '':'' \<and> list_all is_digit ds)"

definition last_from :: "char \<Rightarrow> string \<Rightarrow> string" where
  "last_from c s = c # snd (cut_last c s)"

fun index_of :: "string \<Rightarrow> string \<Rightarrow> nat option" where
  "index_of p [] = (if p = [] then Some 0 else None)"
| "index_of p (c # s) = (if HasPrefix (c # s) p then Some 0 else map_option Suc (index_of p s))"

definition parseHost :: "string \<Rightarrow> string option" where
  "parseHost host =
    (if HasPrefix host ''['' then
       (if CHR '']'' \<notin> set host then None
        else let (inner, colonPort) = cut_last (CHR '']'') host in
          if \<not> validOptionalPort colonPort then None
          else (case index_of ''%25'' inner of
              Some z \<Rightarrow>
                (case (unescape EncodeHost (take z inner), unescape EncodeZone (drop z inner),
                       unescape EncodeHost (CHR '']'' # colonPort)) of
                   (Some h1, Some h2, Some h3) \<Rightarrow> Some (h1 @ h2 @ h3)
                 | _ \<Rightarrow> None)
            | None \<Rightarrow> unescape EncodeHost host))
     else if CHR '':'' \<in> set host \<and> \<not> validOptionalPort (last_from (CHR '':'') host) then None
     else unescape EncodeHost host)"

definition userinfo_char :: "char \<Rightarrow> bool" where
  "userinfo_char c \<longleftrightarrow> is_letter c \<or> is_digit c \<or> c \<in> set ''-._:~!$&()*+,;=%@'' \<or> c = CHR 0x27"

definition parseAuthority :: "string \<Rightarrow> string option" where
  "parseAuthority a =
    (if CHR ''@'' \<notin> set a then parseHost a
     else let (user, h) = cut_last (CHR ''@'') a in
       case parseHost h of
         None \<Rightarrow> None
       | Some host \<Rightarrow>
           (if list_all userinfo_char user \<and> unescape EncodeOther (fst (Cut (CHR '':'') user)) \<noteq> None \<and>
               unescape EncodeOther (snd (Cut (CHR '':'') user)) \<noteq> None
            then Some host else None))"

text \<open>A URL: its scheme, host, path in plain and in the encoded form that is kept when it is not the usual one, whether it has
  user information, and whether a lone question mark ends it.\<close>

record url =
  url_Scheme :: string
  url_Host :: string
  url_User :: bool
  url_Path :: string
  url_RawPath :: string
  url_ForceQuery :: bool

definition upper_hex :: "nat \<Rightarrow> char" where
  "upper_hex n = (if n < 10 then char_of (48 + n) else char_of (55 + n))"

definition path_char :: "char \<Rightarrow> bool" where
  "path_char c \<longleftrightarrow> is_letter c \<or> is_digit c \<or> c \<in> set ''-_.~$&+,/:;=@''"

definition escape :: "(char \<Rightarrow> bool) \<Rightarrow> string \<Rightarrow> string" where
  "escape plain s = concat (map (\<lambda>c. if plain c then [c]
     else [CHR ''%'', upper_hex (of_char c div 16), upper_hex (of_char c mod 16)]) s)"

definition validEncoded :: "string \<Rightarrow> bool" where
  "validEncoded s = list_all (\<lambda>c. path_char c \<or> c \<in> set ''!()*[]%'' \<or> c = CHR 0x27) s"

definition plain_url :: "string \<Rightarrow> string \<Rightarrow> url" where
  "plain_url scheme host = \<lparr> url_Scheme = scheme, url_Host = host, url_User = False, url_Path = [], url_RawPath = [], url_ForceQuery = False \<rparr>"

definition setPath :: "string \<Rightarrow> url \<Rightarrow> url option" where
  "setPath p u =
    (case unescape EncodeOther p of
       None \<Rightarrow> None
     | Some path \<Rightarrow> Some (u\<lparr> url_Path := path, url_RawPath := (if p = escape path_char path then [] else p) \<rparr>))"

definition url_EscapedPath :: "url \<Rightarrow> string" where
  "url_EscapedPath u =
    (if url_RawPath u \<noteq> [] \<and> validEncoded (url_RawPath u) \<and> unescape EncodeOther (url_RawPath u) = Some (url_Path u) then url_RawPath u
     else if url_Path u = ''*'' then ''*''
     else escape path_char (url_Path u))"

text \<open>\<^verbatim>\<open>URL.String\<close> for a URL with a host and without user information, query and fragment.\<close>

definition url_String :: "url \<Rightarrow> string" where
  "url_String u =
    (let path = url_EscapedPath u in
     url_Scheme u @ ''://'' @ escape host_char (url_Host u) @
     (if path \<noteq> [] \<and> hd path \<noteq> CHR ''/'' then ''/'' else []) @ path @ (if url_ForceQuery u then ''?'' else []))"

definition url_parse_nofrag :: "string \<Rightarrow> url option" where
  "url_parse_nofrag raw =
    (if list_ex is_ctl raw then None
     else if raw = ''*'' then Some ((plain_url [] [])\<lparr> url_Path := ''*'' \<rparr>)
     else case getScheme raw of
       None \<Rightarrow> None
     | Some (scheme0, rest0) \<Rightarrow>
       (let scheme = ToLower scheme0; rest = fst (Cut (CHR ''?'') rest0);
            force = (HasSuffix rest0 ''?'' \<and> length (filter (\<lambda>c. c = CHR ''?'') rest0) = 1) in
        map_option (\<lambda>u. u\<lparr> url_ForceQuery := force \<rparr>)
        (if \<not> HasPrefix rest ''/'' \<and> scheme \<noteq> [] then Some (plain_url scheme [])
         else if \<not> HasPrefix rest ''/'' \<and> CHR '':'' \<in> set (fst (Cut (CHR ''/'') rest)) then None
         else if (scheme \<noteq> [] \<or> \<not> HasPrefix rest ''///'') \<and> HasPrefix rest ''//'' then
           (let authority = takeWhile (\<lambda>x. x \<noteq> CHR ''/'') (drop 2 rest);
                path = dropWhile (\<lambda>x. x \<noteq> CHR ''/'') (drop 2 rest)
            in case parseAuthority authority of
                 None \<Rightarrow> None
               | Some host \<Rightarrow> setPath path ((plain_url scheme host)\<lparr> url_User := CHR ''@'' \<in> set authority \<rparr>))
         else setPath rest (plain_url scheme []))))"

definition url_Parse :: "string \<Rightarrow> url option" where
  "url_Parse raw =
    (case url_parse_nofrag (fst (Cut (CHR ''#'') raw)) of
       None \<Rightarrow> None
     | Some u \<Rightarrow> if unescape EncodeOther (snd (Cut (CHR ''#'') raw)) = None then None else Some u)"

definition url_Hostname :: "url \<Rightarrow> string" where
  "url_Hostname u =
    (let hp = url_Host u;
         host = (if CHR '':'' \<in> set hp \<and> validOptionalPort (last_from (CHR '':'') hp)
                 then fst (cut_last (CHR '':'') hp) else hp)
     in if HasPrefix host ''['' \<and> HasSuffix host '']'' then butlast (tl host) else host)"

text \<open>\<^verbatim>\<open>net.SplitHostPort\<close>; \<^term>\<open>None\<close> is its error.\<close>

definition SplitHostPort :: "string \<Rightarrow> (string \<times> string) option" where
  "SplitHostPort hp =
    (if CHR '':'' \<notin> set hp then None
     else let (front, port) = cut_last (CHR '':'') hp in
       if hd hp = CHR ''['' then
         (if CHR '']'' \<notin> set hp then None
          else let (h, rest) = Cut (CHR '']'') hp in
            if rest \<noteq> CHR '':'' # port then None
            else if CHR ''['' \<in> set (tl hp) \<or> CHR '']'' \<in> set rest then None
            else Some (tl h, port))
       else if CHR '':'' \<in> set front then None
       else if CHR ''['' \<in> set hp \<or> CHR '']'' \<in> set hp then None
       else Some (front, port))"

section \<open>IP addresses\<close>

text \<open>An address is its list of sixteen bytes.\<close>

type_synonym ip = "nat list"

definition octet :: "string \<Rightarrow> nat option" where
  "octet s = (if s = [] \<or> \<not> list_all is_digit s \<or> length s > 3 \<or> (length s > 1 \<and> hd s = CHR ''0'')
              then None
              else let v = dec_val 0 s in if v > 255 then None else Some v)"

definition parseIPv4 :: "string \<Rightarrow> nat list option" where
  "parseIPv4 s = (let fs = Split (CHR ''.'') s in
     if length fs \<noteq> 4 then None else those (map octet fs))"

definition v4_prefix :: "nat list" where
  "v4_prefix = replicate 10 0 @ [255, 255]"

fun span_hex :: "string \<Rightarrow> nat list \<times> string" where
  "span_hex [] = ([], [])"
| "span_hex (c # s) =
    (case hex_val c of
       None \<Rightarrow> ([], c # s)
     | Some v \<Rightarrow> (let (vs, r) = span_hex s in (v # vs, r)))"

text \<open>The main loop of \<^verbatim>\<open>parseIPv6\<close>: bytes read so far, the position of \<^verbatim>\<open>::\<close>, the rest of the string.
  The first argument counts the groups that can still be read; eight of them fill an address.\<close>

fun v6_loop :: "nat \<Rightarrow> nat list \<Rightarrow> nat option \<Rightarrow> string \<Rightarrow> (nat list \<times> nat option) option" where
  "v6_loop 0 bs ell s = (if s = [] then Some (bs, ell) else None)"
| "v6_loop (Suc k) bs ell s =
    (let (ds, r) = span_hex s; acc = foldl (\<lambda>a d. 16 * a + d) 0 ds in
     if length ds > 4 \<or> ds = [] then None
     else case r of
       [] \<Rightarrow> Some (bs @ [acc div 256, acc mod 256], ell)
     | c # r1 \<Rightarrow>
        (if c = CHR ''.'' then
           (if (ell = None \<and> length bs \<noteq> 12) \<or> length bs + 4 > 16 then None
            else map_option (\<lambda>v. (bs @ v, ell)) (parseIPv4 s))
         else if c \<noteq> CHR '':'' \<or> r1 = [] then None
         else (let bs' = bs @ [acc div 256, acc mod 256] in
           if hd r1 = CHR '':'' then
             (if ell \<noteq> None then None
              else if tl r1 = [] then Some (bs', Some (length bs'))
              else v6_loop k bs' (Some (length bs')) (tl r1))
           else v6_loop k bs' ell r1)))"

definition v6_expand :: "nat list \<times> nat option \<Rightarrow> nat list option" where
  "v6_expand = (\<lambda>(bs, ell).
     if length bs < 16 then
       (case ell of None \<Rightarrow> None
        | Some e \<Rightarrow> Some (take e bs @ replicate (16 - length bs) 0 @ drop e bs))
     else if ell \<noteq> None then None else Some bs)"

definition parseIPv6 :: "string \<Rightarrow> nat list option" where
  "parseIPv6 s =
    (if HasPrefix s ''::'' then
       (if length s = 2 then Some (replicate 16 0)
        else Option.bind (v6_loop 8 [] (Some 0) (drop 2 s)) v6_expand)
     else Option.bind (v6_loop 8 [] None s) v6_expand)"

text \<open>\<^verbatim>\<open>net.ParseIP\<close>: zones are refused, and a dotted quad is an IPv4-mapped address.\<close>

definition ParseIP :: "string \<Rightarrow> ip option" where
  "ParseIP s =
    (case dropWhile (\<lambda>c. c \<noteq> CHR ''.'' \<and> c \<noteq> CHR '':'' \<and> c \<noteq> CHR ''%'') s of
       [] \<Rightarrow> None
     | c # _ \<Rightarrow>
        if c = CHR ''.'' then map_option ((@) v4_prefix) (parseIPv4 s)
        else if c = CHR '':'' \<and> CHR ''%'' \<notin> set s then parseIPv6 s
        else None)"

definition ip_to4 :: "ip \<Rightarrow> nat list option" where
  "ip_to4 a = (if take 12 a = v4_prefix then Some (drop 12 a) else None)"

definition IsLoopback :: "ip \<Rightarrow> bool" where
  "IsLoopback a = (case ip_to4 a of Some q \<Rightarrow> q ! 0 = 127 | None \<Rightarrow> a = replicate 15 0 @ [1])"

definition IsPrivate :: "ip \<Rightarrow> bool" where
  "IsPrivate a = (case ip_to4 a of
     Some q \<Rightarrow> q ! 0 = 10 \<or> (q ! 0 = 172 \<and> q ! 1 div 16 = 1) \<or> (q ! 0 = 192 \<and> q ! 1 = 168)
   | None \<Rightarrow> a ! 0 div 2 = 126)"

definition IsLinkLocalUnicast :: "ip \<Rightarrow> bool" where
  "IsLinkLocalUnicast a = (case ip_to4 a of
     Some q \<Rightarrow> q ! 0 = 169 \<and> q ! 1 = 254
   | None \<Rightarrow> a ! 0 = 254 \<and> a ! 1 div 64 = 2)"

section \<open>Texts in UTF-8\<close>

text \<open>The code points of a text, when it is valid: no overlong forms, no surrogates, nothing behind U+10FFFF.\<close>

definition follows :: "char \<Rightarrow> bool" where
  "follows c \<longleftrightarrow> 128 \<le> (of_char c :: int) \<and> (of_char c :: int) < 192"

definition code_point :: "int \<Rightarrow> char list \<Rightarrow> int" where
  "code_point n cs = fold (\<lambda>c p. p * 64 + of_char c mod 64) cs n"

text \<open>The length of the tail of a first byte, and the first character of a text in UTF-8 with the rest.\<close>

definition tail_length :: "int \<Rightarrow> nat" where
  "tail_length n = (if n < 128 then 0 else if n < 224 then 1 else if n < 240 then 2 else 3)"

definition utf8_char :: "int \<Rightarrow> string \<Rightarrow> int option" where
  "utf8_char n cs =
    (let p = code_point (n mod [128, 32, 16, 8] ! length cs) cs in
     if (n < 128 \<or> 194 \<le> n \<and> n < 245) \<and> list_all follows cs \<and> [0, 128, 2048, 65536] ! length cs \<le> p \<and> p < 1114112 \<and>
       \<not> (55296 \<le> p \<and> p < 57344)
     then Some p else None)"

definition utf8_first :: "string \<Rightarrow> (int \<times> string) option" where
  "utf8_first s =
    (case s of [] \<Rightarrow> None | a # r \<Rightarrow>
       let n = (of_char a :: int); k = tail_length n in
       if length r < k then None else map_option (\<lambda>p. (p, drop k r)) (utf8_char n (take k r)))"

lemma utf8_first_shorter [termination_simp]: "utf8_first s = Some (p, r) \<Longrightarrow> length r < length s"
  by (auto simp: utf8_first_def Let_def split: list.splits if_splits)

fun utf8_points :: "string \<Rightarrow> int list option" where
  "utf8_points s = (if s = [] then Some [] else case utf8_first s of None \<Rightarrow> None | Some (p, r) \<Rightarrow> map_option ((#) p) (utf8_points r))"

declare utf8_points.simps [simp del]

lemma utf8_nil [simp]: "utf8_points [] = Some []" by (simp add: utf8_points.simps)

lemma utf8_first_append: "utf8_first s = Some (p, r) \<Longrightarrow> utf8_first (s @ t) = Some (p, r @ t)"
  by (cases s) (simp_all add: utf8_first_def Let_def not_less split: if_splits)

lemma utf8_append: "utf8_points s = Some ps \<Longrightarrow> utf8_points (s @ t) = map_option ((@) ps) (utf8_points t)"
proof (induction s arbitrary: ps rule: utf8_points.induct)
  case (1 s)
  show ?case
  proof (cases "s = []")
    case True
    then show ?thesis using "1.prems" by (cases "utf8_points t") simp_all
  next
    case False
    with "1.prems" obtain p r qs where f: "utf8_first s = Some (p, r)" "utf8_points r = Some qs" "ps = p # qs"
      by (auto simp: utf8_points.simps [of s] split: option.splits)
    then show ?thesis
      using False "1.IH" [OF False f(1) refl f(2)] by (simp add: utf8_points.simps [of "s @ t"] utf8_first_append option.map_comp comp_def)
  qed
qed

lemma byte_nonneg [simp]: "0 \<le> (of_char c :: int)"
  by (cases c) (simp add: of_char_def)

lemma ascii_mod: "(of_char c :: int) < 128 \<Longrightarrow> of_char c mod 128 = (of_char c :: int)"
  by simp

lemma utf8_ascii: "(of_char c :: int) < 128 \<Longrightarrow> utf8_points (c # s) = map_option ((#) (of_char c)) (utf8_points s)"
  by (simp add: utf8_points.simps [of "c # s"] utf8_first_def tail_length_def utf8_char_def code_point_def Let_def ascii_mod)

definition valid_utf8 :: "string \<Rightarrow> bool" where
  "valid_utf8 s \<longleftrightarrow> utf8_points s \<noteq> None"

text \<open>A valid text is made of single bytes below 128 and of longer groups of bytes that are not.\<close>

lemma utf8_firstE:
  assumes "utf8_first s = Some (p, r)"
  obtains (ascii) c where "s = c # r" "(of_char c :: int) < 128" "p = of_char c"
  | (group) f where "s = f @ r" "list_all (\<lambda>c. 128 \<le> (of_char c :: int)) f" "utf8_points f = Some [p]"
proof -
  obtain a t where s: "s = a # t" using assms by (cases s) (simp_all add: utf8_first_def)
  let ?n = "of_char a :: int"
  have f: "\<not> length t < tail_length ?n" "r = drop (tail_length ?n) t" "utf8_char ?n (take (tail_length ?n) t) = Some p"
    using assms by (auto simp: s utf8_first_def Let_def split: if_splits)
  show thesis
  proof (cases "?n < 128")
    case True
    then show thesis using f s by (intro ascii [of a]) (simp_all add: tail_length_def utf8_char_def code_point_def Let_def ascii_mod split: if_splits)
  next
    case False
    let ?f = "a # take (tail_length ?n) t"
    have "list_all follows (take (tail_length ?n) t)" using f(3) by (simp add: utf8_char_def Let_def split: if_splits)
    then have "list_all (\<lambda>c. 128 \<le> (of_char c :: int)) ?f" using False by (simp add: list_all_iff follows_def)
    moreover have "utf8_points ?f = Some [p]"
      using f by (simp add: utf8_points.simps [of ?f] utf8_first_def Let_def min_def)
    ultimately show thesis using s f(2) by (intro group [of ?f]) simp_all
  qed
qed

end
