(* ===== verification/AppState.thy ===== *)
theory AppState
  imports Config GoNet
begin

text \<open>
  Package \<^verbatim>\<open>internal/appstate\<close>: the persistent state of a Marshal, the normalisation of nodes and
  enrollment requests, schema migration, and the operations of \<^verbatim>\<open>Store\<close>. Every operation takes the
  environment it runs in (the clock, the outcome of writing the file, the random suffix) and
  returns its error, if any, with the store it leaves behind. The file is what
  \<^verbatim>\<open>json.Unmarshal\<close> would make of it: fields tagged \<^verbatim>\<open>json:"-"\<close> are lost and dynamically typed values
  come back in their JSON form. A nil slice or map is the empty list.
\<close>

section \<open>Constants\<close>

definition CurrentSchemaVersion :: int where "CurrentSchemaVersion = 2"

definition ControlLevelManaged :: string where "ControlLevelManaged = ''managed''"
definition ControlLevelPassive :: string where "ControlLevelPassive = ''passive''"

definition TrustLevelLocal :: string where "TrustLevelLocal = ''local''"
definition TrustLevelLANTrusted :: string where "TrustLevelLANTrusted = ''lan_trusted''"
definition TrustLevelLANUnverified :: string where "TrustLevelLANUnverified = ''lan_unverified''"
definition TrustLevelExternal :: string where "TrustLevelExternal = ''external''"

definition CapabilitySourceSubscriberReported :: string where
  "CapabilitySourceSubscriberReported = ''subscriber_reported''"
definition CapabilitySourceMarshalObserved :: string where
  "CapabilitySourceMarshalObserved = ''marshal_observed''"
definition CapabilitySourceManual :: string where "CapabilitySourceManual = ''manual''"

definition ApprovalStatePending :: string where "ApprovalStatePending = ''pending''"
definition ApprovalStateApproved :: string where "ApprovalStateApproved = ''approved''"
definition ApprovalStateRejected :: string where "ApprovalStateRejected = ''rejected''"
definition ApprovalStateRevoked :: string where "ApprovalStateRevoked = ''revoked''"

definition HealthSourceSubscriberReported :: string where
  "HealthSourceSubscriberReported = ''subscriber_reported''"
definition HealthSourceMarshalObserved :: string where
  "HealthSourceMarshalObserved = ''marshal_observed''"
definition ModelInventorySourceSubscriberReported :: string where
  "ModelInventorySourceSubscriberReported = ''subscriber_reported''"
definition ModelInventorySourceMarshalObserved :: string where
  "ModelInventorySourceMarshalObserved = ''marshal_observed''"
definition BenchmarkSourceNone :: string where "BenchmarkSourceNone = ''none''"
definition TelemetryLevelRichMetadata :: string where "TelemetryLevelRichMetadata = ''rich_metadata''"
definition TelemetryLevelMarshalObservedMetadata :: string where
  "TelemetryLevelMarshalObservedMetadata = ''marshal_observed_metadata''"

lemmas level_defs = ControlLevelManaged_def ControlLevelPassive_def TrustLevelLocal_def
  TrustLevelLANTrusted_def TrustLevelLANUnverified_def TrustLevelExternal_def
  ApprovalStatePending_def ApprovalStateApproved_def ApprovalStateRejected_def ApprovalStateRevoked_def

lemmas source_defs = CapabilitySourceSubscriberReported_def CapabilitySourceMarshalObserved_def
  HealthSourceSubscriberReported_def HealthSourceMarshalObserved_def
  ModelInventorySourceSubscriberReported_def ModelInventorySourceMarshalObserved_def
  BenchmarkSourceNone_def TelemetryLevelRichMetadata_def TelemetryLevelMarshalObservedMetadata_def

section \<open>Structures\<close>

record ModelState =
  ms_Name :: string
  ms_State :: string
  ms_KeepWarm :: bool
  ms_TokensSec :: rat
  ms_LoadTimeMS :: int

record Node =
  n_NodeID :: string
  n_DisplayName :: string
  n_URL :: string
  n_Role :: string
  n_ControlLevel :: string
  n_TrustLevel :: string
  n_CapabilitySource :: string
  n_ApprovalState :: string
  n_HealthSource :: string
  n_ModelInventorySource :: string
  n_BenchmarkSource :: string
  n_WarmStateSupported :: bool
  n_ManagementSupported :: bool
  n_TelemetryLevel :: string
  n_Hostname :: string
  n_Platform :: string
  n_Arch :: string
  n_CPU :: string
  n_GPU :: string
  n_MemoryTotalGB :: rat
  n_MemoryAvailGB :: rat
  n_OllamaAvailable :: bool
  n_OllamaURL :: string
  n_OllamaVersion :: string
  n_Models :: "ModelState list"
  n_Tags :: "string list"
  n_Status :: string
  n_Enabled :: bool
  n_Approved :: bool
  n_ActiveJobs :: int
  n_MaxJobs :: int
  n_QueueDepth :: int
  n_Observed :: gobj
  n_LastSeen :: gotime
  n_LastObservedAt :: "gotime option"
  n_LastReportedAt :: "gotime option"

record Session =
  se_SessionID :: string
  se_AffinityMode :: string
  se_NodeID :: string
  se_Model :: string
  se_LastRequestID :: string
  se_UpdatedAt :: gotime

record ClientAPIKey =
  ck_ID :: string
  ck_Name :: string
  ck_Hint :: string
  ck_CreatedAt :: gotime
  ck_LastUsed :: gotime
  ck_Enabled :: bool

record EnrollmentRequest =
  er_NodeID :: string
  er_URL :: string
  er_Hostname :: string
  er_ControlLevel :: string
  er_TrustLevel :: string
  er_CapabilitySource :: string
  er_ApprovalState :: string
  er_TokenHash :: string
  er_TokenHint :: string
  er_CreatedAt :: gotime
  er_ExpiresAt :: gotime
  er_RegisteredAt :: gotime

record AuditEvent =
  ae_Timestamp :: gotime
  ae_Type :: string
  ae_RequestID :: string
  ae_Message :: string
  ae_Fields :: gobj

record MigrationRecord =
  mr_FromVersion :: int
  mr_ToVersion :: int
  mr_AppliedAt :: gotime
  mr_Description :: string

record State =
  st_SchemaVersion :: int
  st_ConfigVersion :: int
  st_SetupComplete :: bool
  st_AdminTokenHint :: string
  st_NodeID :: string
  st_Role :: string
  st_Config :: Config
  st_Nodes :: "(string, Node) gomap"
  st_Sessions :: "(string, Session) gomap"
  st_ClientAPIKeys :: "ClientAPIKey list"
  st_Audit :: "AuditEvent list"
  st_EnrollmentQueue :: "EnrollmentRequest list"
  st_MigrationHistory :: "MigrationRecord list"
  st_CreatedAt :: gotime
  st_UpdatedAt :: gotime

datatype store_file = NoFile | Unreadable | Corrupt | StateFile State

record Store =
  s_state :: State
  s_file :: store_file

datatype store_error =
    ReadError
  | DecodeError
  | WriteError
  | NewerSchema int
  | NoMigrationPath int
  | EnrollmentTokenExpired
  | EnrollmentTokenNotFound

text \<open>The environment of one operation: the clock, whether writing and renaming the state file
  succeeds, and the result of \<^verbatim>\<open>randomHex(4)\<close>.\<close>

record env =
  e_now :: gotime
  e_write_ok :: bool
  e_random :: string

text \<open>Go's zero values, from which composite literals start.\<close>

definition zeroNode :: Node where
  "zeroNode = \<lparr> n_NodeID = [], n_DisplayName = [], n_URL = [], n_Role = [], n_ControlLevel = [],
     n_TrustLevel = [], n_CapabilitySource = [], n_ApprovalState = [], n_HealthSource = [],
     n_ModelInventorySource = [], n_BenchmarkSource = [], n_WarmStateSupported = False,
     n_ManagementSupported = False, n_TelemetryLevel = [], n_Hostname = [], n_Platform = [], n_Arch = [],
     n_CPU = [], n_GPU = [], n_MemoryTotalGB = 0, n_MemoryAvailGB = 0, n_OllamaAvailable = False,
     n_OllamaURL = [], n_OllamaVersion = [], n_Models = [], n_Tags = [], n_Status = [],
     n_Enabled = False, n_Approved = False, n_ActiveJobs = 0, n_MaxJobs = 0, n_QueueDepth = 0,
     n_Observed = [], n_LastSeen = 0, n_LastObservedAt = None, n_LastReportedAt = None \<rparr>"

definition zeroRequest :: EnrollmentRequest where
  "zeroRequest = \<lparr> er_NodeID = [], er_URL = [], er_Hostname = [], er_ControlLevel = [],
     er_TrustLevel = [], er_CapabilitySource = [], er_ApprovalState = [], er_TokenHash = [],
     er_TokenHint = [], er_CreatedAt = 0, er_ExpiresAt = 0, er_RegisteredAt = 0 \<rparr>"

section \<open>Normalisation\<close>

definition primaryNodeEndpoint :: "Node \<Rightarrow> string" where
  "primaryNodeEndpoint node = (if n_URL node \<noteq> [] then n_URL node else n_OllamaURL node)"

definition trustLevelForEndpoint :: "string \<Rightarrow> bool \<Rightarrow> string" where
  "trustLevelForEndpoint raw localDefault =
    (if raw = [] then (if localDefault then TrustLevelLocal else TrustLevelLANUnverified)
     else case url_Parse raw of
       None \<Rightarrow> TrustLevelLANUnverified
     | Some parsed \<Rightarrow>
        if url_Hostname parsed = [] then TrustLevelLANUnverified
        else let host = ToLower (url_Hostname parsed) in
          if host = ''localhost'' \<or> HasSuffix host ''.localhost'' then TrustLevelLocal
          else case ParseIP host of
            None \<Rightarrow> if HasSuffix host ''.local'' then TrustLevelLANUnverified else TrustLevelExternal
          | Some ip \<Rightarrow>
              if IsLoopback ip then TrustLevelLocal
              else if IsPrivate ip \<or> IsLinkLocalUnicast ip then TrustLevelLANUnverified
              else TrustLevelExternal)"

definition normalizeEnrollmentRequest :: "EnrollmentRequest \<Rightarrow> EnrollmentRequest" where
  "normalizeEnrollmentRequest req = req\<lparr>
     er_ControlLevel := orElse (er_ControlLevel req) ControlLevelManaged,
     er_TrustLevel := orElse (er_TrustLevel req) (trustLevelForEndpoint (er_URL req) False),
     er_CapabilitySource := orElse (er_CapabilitySource req) CapabilitySourceSubscriberReported,
     er_ApprovalState := orElse (er_ApprovalState req) ApprovalStatePending \<rparr>"

definition normalizeEnrollmentQueue :: "EnrollmentRequest list \<Rightarrow> EnrollmentRequest list" where
  "normalizeEnrollmentQueue queue = map normalizeEnrollmentRequest queue"

definition sameEnrollmentRequest :: "EnrollmentRequest \<Rightarrow> EnrollmentRequest \<Rightarrow> bool" where
  "sameEnrollmentRequest a b \<longleftrightarrow>
     (er_TokenHash a \<noteq> [] \<and> er_TokenHash b \<noteq> [] \<and> er_TokenHash a = er_TokenHash b) \<or>
     (er_NodeID a \<noteq> [] \<and> er_NodeID a = er_NodeID b)"

text \<open>\<^verbatim>\<open>normalizeNode\<close>, in the four stages its body has: control and trust level, approval, the
  sources that depend on the control level, the timestamps.\<close>

definition normalize_levels :: "Node \<Rightarrow> Node" where
  "normalize_levels node =
    (let cl = (if n_ControlLevel node = [] then
                 (if EqualFold (n_Role node) ControlLevelPassive then ControlLevelPassive
                  else ControlLevelManaged)
               else n_ControlLevel node);
         cl = (if cl \<noteq> ControlLevelPassive \<and> cl \<noteq> ControlLevelManaged then ControlLevelManaged else cl)
     in node\<lparr> n_ControlLevel := cl,
          n_TrustLevel := orElse (n_TrustLevel node)
            (trustLevelForEndpoint (primaryNodeEndpoint node) (n_URL node = [] \<and> n_OllamaURL node = [])) \<rparr>)"

definition normalize_approval :: "Node \<Rightarrow> Node" where
  "normalize_approval node =
    (let derived = (if n_Approved node then ApprovalStateApproved else ApprovalStatePending);
         s = orElse (n_ApprovalState node) derived
     in if s = ApprovalStateApproved then node\<lparr> n_ApprovalState := s, n_Approved := True \<rparr>
        else if s \<in> {ApprovalStatePending, ApprovalStateRejected, ApprovalStateRevoked}
        then node\<lparr> n_ApprovalState := s, n_Approved := False \<rparr>
        else node\<lparr> n_ApprovalState := derived \<rparr>)"

definition normalize_sources :: "Node \<Rightarrow> Node" where
  "normalize_sources node =
    (if n_ControlLevel node = ControlLevelPassive then
       node\<lparr> n_CapabilitySource := orElse (n_CapabilitySource node) CapabilitySourceMarshalObserved,
         n_HealthSource := orElse (n_HealthSource node) HealthSourceMarshalObserved,
         n_ModelInventorySource := orElse (n_ModelInventorySource node) ModelInventorySourceMarshalObserved,
         n_BenchmarkSource := orElse (n_BenchmarkSource node) BenchmarkSourceNone,
         n_TelemetryLevel := orElse (n_TelemetryLevel node) TelemetryLevelMarshalObservedMetadata,
         n_WarmStateSupported := False,
         n_ManagementSupported := False \<rparr>
     else
       node\<lparr> n_CapabilitySource := orElse (n_CapabilitySource node) CapabilitySourceSubscriberReported,
         n_HealthSource := orElse (n_HealthSource node) HealthSourceSubscriberReported,
         n_ModelInventorySource := orElse (n_ModelInventorySource node) ModelInventorySourceSubscriberReported,
         n_BenchmarkSource := orElse (n_BenchmarkSource node) BenchmarkSourceNone,
         n_TelemetryLevel := orElse (n_TelemetryLevel node) TelemetryLevelRichMetadata,
         n_ManagementSupported := True \<rparr>)"

definition time_or :: "gotime option \<Rightarrow> gotime \<Rightarrow> gotime option" where
  "time_or t d = (case t of None \<Rightarrow> Some d | Some x \<Rightarrow> if x = 0 then Some d else Some x)"

definition normalize_times :: "gotime \<Rightarrow> Node \<Rightarrow> Node" where
  "normalize_times now node =
    (let seen = (if n_LastSeen node = 0 then now else n_LastSeen node) in
     node\<lparr> n_LastSeen := seen,
       n_LastObservedAt := time_or (n_LastObservedAt node) seen,
       n_LastReportedAt :=
         (if n_ControlLevel node = ControlLevelManaged then time_or (n_LastReportedAt node) seen
          else None) \<rparr>)"

definition normalizeNode :: "gotime \<Rightarrow> Node \<Rightarrow> Node" where
  "normalizeNode now node =
     normalize_times now (normalize_sources (normalize_approval (normalize_levels node)))"

definition normalizeNodeMap :: "gotime \<Rightarrow> (string, Node) gomap \<Rightarrow> (string, Node) gomap" where
  "normalizeNodeMap now nodes = map (\<lambda>(id, node). (id, normalizeNode now node)) nodes"

section \<open>Copies through JSON\<close>

definition jsonNode :: "Node \<Rightarrow> Node" where
  "jsonNode node = node\<lparr> n_Observed := json_obj (n_Observed node) \<rparr>"

definition jsonAudit :: "AuditEvent \<Rightarrow> AuditEvent" where
  "jsonAudit ev = ev\<lparr> ae_Fields := json_obj (ae_Fields ev) \<rparr>"

definition jsonConfig :: "Config \<Rightarrow> Config" where
  "jsonConfig cfg = cfg\<lparr>
     c_Auth := (c_Auth cfg)\<lparr> au_APIKeys := map (\<lambda>k. k\<lparr> ak_Key := [] \<rparr>) (au_APIKeys (c_Auth cfg)) \<rparr>,
     c_Subscribers := map (\<lambda>b. b\<lparr> sub_Token := [] \<rparr>) (c_Subscribers cfg),
     c_Telemetry := (c_Telemetry cfg)\<lparr>
       t_SplunkHEC := (t_SplunkHEC (c_Telemetry cfg))\<lparr> h_Token := [] \<rparr> \<rparr>,
     c_Registration := (c_Registration cfg)\<lparr> reg_EnrollmentToken := [], reg_HeartbeatCredential := [] \<rparr>,
     c_Compatibility := json_obj (c_Compatibility cfg) \<rparr>"

definition jsonState :: "State \<Rightarrow> State" where
  "jsonState st = st\<lparr>
     st_Config := jsonConfig (st_Config st),
     st_Nodes := map (\<lambda>(id, node). (id, jsonNode node)) (st_Nodes st),
     st_Audit := map jsonAudit (st_Audit st) \<rparr>"

definition cloneState :: "State \<Rightarrow> State" where
  "cloneState st = jsonState st"

definition Snapshot :: "Store \<Rightarrow> State" where
  "Snapshot s = cloneState (s_state s)"

section \<open>Saving, migrating, loading\<close>

definition saveLocked :: "env \<Rightarrow> Store \<Rightarrow> store_error option \<times> Store" where
  "saveLocked e s =
    (let st = (s_state s)\<lparr> st_SchemaVersion := CurrentSchemaVersion,
                st_ConfigVersion := orElseInt (st_ConfigVersion (s_state s)) 1,
                st_UpdatedAt := e_now e \<rparr>
     in if e_write_ok e then (None, s\<lparr> s_state := st, s_file := StateFile (jsonState st) \<rparr>)
        else (Some WriteError, s\<lparr> s_state := st \<rparr>))"

definition migration_0_1 :: "gotime \<Rightarrow> State \<Rightarrow> State" where
  "migration_0_1 now st = st\<lparr>
     st_CreatedAt := (if st_CreatedAt st = 0 then now else st_CreatedAt st),
     st_SchemaVersion := 1,
     st_MigrationHistory := st_MigrationHistory st @
       [\<lparr> mr_FromVersion = 0, mr_ToVersion = 1, mr_AppliedAt = now,
          mr_Description = ''Initialized schema metadata, collection defaults, and migration history.'' \<rparr>] \<rparr>"

definition migration_1_2 :: "gotime \<Rightarrow> State \<Rightarrow> State" where
  "migration_1_2 now st = st\<lparr>
     st_Nodes := normalizeNodeMap now (st_Nodes st),
     st_EnrollmentQueue := normalizeEnrollmentQueue (st_EnrollmentQueue st),
     st_SchemaVersion := 2,
     st_MigrationHistory := st_MigrationHistory st @
       [\<lparr> mr_FromVersion = 1, mr_ToVersion = 2, mr_AppliedAt = now,
          mr_Description = ''Added Managed Node and Passive Endpoint control, trust, approval, capability source, and freshness metadata.'' \<rparr>] \<rparr>"

text \<open>The result says whether a migration was applied, or why none leads to the current version;
  the state is the one reached in either case.\<close>

definition migrateLocked :: "gotime \<Rightarrow> State \<Rightarrow> (store_error + bool) \<times> State" where
  "migrateLocked now st =
    (if CurrentSchemaVersion < st_SchemaVersion st then (Inl (NewerSchema (st_SchemaVersion st)), st)
     else
       let m0 = (st_SchemaVersion st = 0); st0 = (if m0 then migration_0_1 now st else st);
           m1 = (st_SchemaVersion st0 = 1); st1 = (if m1 then migration_1_2 now st0 else st0)
       in if st_SchemaVersion st1 < CurrentSchemaVersion
          then (Inl (NoMigrationPath (st_SchemaVersion st1)), st1)
          else (Inr (m0 \<or> m1), st1))"

definition mergeRuntimeConfig :: "Config \<Rightarrow> Config \<Rightarrow> Config" where
  "mergeRuntimeConfig stored runtimeCfg = stored\<lparr>
     c_Server := (c_Server stored)\<lparr>
       sv_Mode := orElse (sv_Mode (c_Server runtimeCfg)) (sv_Mode (c_Server stored)),
       sv_Listen := orElse (sv_Listen (c_Server runtimeCfg)) (sv_Listen (c_Server stored)) \<rparr>,
     c_Ollama_URL := orElse (c_Ollama_URL runtimeCfg) (c_Ollama_URL stored) \<rparr>"

definition fresh_state :: "env \<Rightarrow> Config \<Rightarrow> State" where
  "fresh_state e cfg =
    \<lparr> st_SchemaVersion = CurrentSchemaVersion, st_ConfigVersion = 1, st_SetupComplete = False,
      st_AdminTokenHint = [],
      st_NodeID = (if nc_NodeID (c_Node cfg) = [] \<or> nc_NodeID (c_Node cfg) = ''local''
                   then ''node_'' @ e_random e else nc_NodeID (c_Node cfg)),
      st_Role = sv_Mode (c_Server cfg), st_Config = cfg, st_Nodes = [], st_Sessions = [],
      st_ClientAPIKeys = [], st_Audit = [], st_EnrollmentQueue = [], st_MigrationHistory = [],
      st_CreatedAt = e_now e, st_UpdatedAt = e_now e \<rparr>"

text \<open>What \<^verbatim>\<open>load\<close> does to a decoded and migrated state.\<close>

definition adoptConfig :: "Config \<Rightarrow> State \<Rightarrow> State" where
  "adoptConfig cfg st =
    (let c = Normalize (mergeRuntimeConfig (st_Config st) cfg) in
     st\<lparr> st_Config := c, st_ConfigVersion := orElseInt (st_ConfigVersion st) 1,
         st_Role := orElse (st_Role st) (sv_Mode (c_Server c)) \<rparr>)"

definition load :: "env \<Rightarrow> Config \<Rightarrow> Store \<Rightarrow> store_error option \<times> Store" where
  "load e cfg0 s =
    (let cfg = Normalize cfg0 in
     case s_file s of
       NoFile \<Rightarrow> saveLocked e (s\<lparr> s_state := fresh_state e cfg \<rparr>)
     | Unreadable \<Rightarrow> (Some ReadError, s)
     | Corrupt \<Rightarrow> (Some DecodeError, s)
     | StateFile st \<Rightarrow>
        (case migrateLocked (e_now e) st of
           (Inl err, st1) \<Rightarrow> (Some err, s\<lparr> s_state := st1 \<rparr>)
         | (Inr migrated, st1) \<Rightarrow>
            (let s' = s\<lparr> s_state := adoptConfig cfg st1 \<rparr>
             in if migrated \<or> st_ConfigVersion st1 = 0 \<or> st_Role st1 = [] then saveLocked e s'
                else (None, s'))))"

section \<open>Operations of the store\<close>

definition SaveConfig :: "env \<Rightarrow> Config \<Rightarrow> Store \<Rightarrow> store_error option \<times> Store" where
  "SaveConfig e cfg s = saveLocked e (s\<lparr> s_state := (s_state s)\<lparr>
     st_Config := Normalize cfg,
     st_ConfigVersion := (if st_ConfigVersion (s_state s) = 0 then 1
                          else i64 (st_ConfigVersion (s_state s) + 1)),
     st_UpdatedAt := e_now e \<rparr> \<rparr>)"

definition prepareNode :: "env \<Rightarrow> Node \<Rightarrow> Node" where
  "prepareNode e node = normalizeNode (e_now e) (node\<lparr>
     n_NodeID := orElse (n_NodeID node) (''node_'' @ e_random e),
     n_Status := orElse (n_Status node) ''unknown'',
     n_LastSeen := (if n_LastSeen node \<noteq> 0 then n_LastSeen node else e_now e) \<rparr>)"

definition putNode :: "env \<Rightarrow> Node \<Rightarrow> State \<Rightarrow> State" where
  "putNode e node st = st\<lparr> st_Nodes := goput (n_NodeID node) node (st_Nodes st), st_UpdatedAt := e_now e \<rparr>"

definition UpsertNode :: "env \<Rightarrow> Node \<Rightarrow> Store \<Rightarrow> store_error option \<times> Store" where
  "UpsertNode e node s = saveLocked e (s\<lparr> s_state := putNode e (prepareNode e node) (s_state s) \<rparr>)"

text \<open>The loops of the store replace the first entry that matches.\<close>

fun replace_first :: "('a \<Rightarrow> bool) \<Rightarrow> ('a \<Rightarrow> 'a) \<Rightarrow> 'a list \<Rightarrow> 'a list option" where
  "replace_first p f [] = None"
| "replace_first p f (x # xs) = (if p x then Some (f x # xs) else map_option ((#) x) (replace_first p f xs))"

definition AddEnrollmentRequest ::
  "env \<Rightarrow> EnrollmentRequest \<Rightarrow> Store \<Rightarrow> EnrollmentRequest \<times> store_error option \<times> Store" where
  "AddEnrollmentRequest e req0 s =
    (let req = normalizeEnrollmentRequest (req0\<lparr>
           er_NodeID := orElse (er_NodeID req0) (''enroll_'' @ e_random e),
           er_CreatedAt := (if er_CreatedAt req0 = 0 then e_now e else er_CreatedAt req0) \<rparr>);
         q = st_EnrollmentQueue (s_state s);
         q' = (case replace_first (\<lambda>x. sameEnrollmentRequest x req) (\<lambda>_. req) q of
                 Some q' \<Rightarrow> q' | None \<Rightarrow> req # q)
     in (req, saveLocked e (s\<lparr> s_state := (s_state s)\<lparr> st_EnrollmentQueue := q', st_UpdatedAt := e_now e \<rparr> \<rparr>)))"

definition enrolled_node :: "gotime \<Rightarrow> EnrollmentRequest \<Rightarrow> EnrollmentRequest \<Rightarrow> Node \<Rightarrow> Node" where
  "enrolled_node clock queued req node = normalizeNode clock (node\<lparr>
     n_NodeID := orElse (n_NodeID node) (er_NodeID queued),
     n_URL := orElse (n_URL node) (er_URL queued),
     n_Hostname := orElse (n_Hostname node) (er_Hostname req),
     n_ControlLevel := ControlLevelManaged,
     n_TrustLevel := orElse (n_TrustLevel node) (er_TrustLevel queued),
     n_CapabilitySource := CapabilitySourceSubscriberReported,
     n_ApprovalState := ApprovalStatePending,
     n_Approved := False,
     n_Enabled := True \<rparr>)"

definition enrolled_request ::
  "gotime \<Rightarrow> EnrollmentRequest \<Rightarrow> Node \<Rightarrow> EnrollmentRequest \<Rightarrow> EnrollmentRequest" where
  "enrolled_request now req node queued = queued\<lparr>
     er_NodeID := n_NodeID node,
     er_URL := n_URL node,
     er_Hostname := (if er_Hostname req \<noteq> [] then er_Hostname req
                     else if n_Hostname node \<noteq> [] then n_Hostname node else er_Hostname queued),
     er_ControlLevel := ControlLevelManaged,
     er_TrustLevel := n_TrustLevel node,
     er_CapabilitySource := CapabilitySourceSubscriberReported,
     er_ApprovalState := ApprovalStatePending,
     er_TokenHash := [],
     er_RegisteredAt := now \<rparr>"

text \<open>The loop of \<^verbatim>\<open>RegisterEnrollmentNode\<close> looks for the first entry with the token.\<close>

fun token_index :: "string \<Rightarrow> EnrollmentRequest list \<Rightarrow> nat option" where
  "token_index h [] = None"
| "token_index h (q # qs) =
    (if er_TokenHash q = [] \<or> er_TokenHash q \<noteq> h then map_option Suc (token_index h qs) else Some 0)"

definition RegisterEnrollmentNode ::
  "env \<Rightarrow> string \<Rightarrow> Node \<Rightarrow> EnrollmentRequest \<Rightarrow> gotime \<Rightarrow> Store
    \<Rightarrow> (store_error + EnrollmentRequest) \<times> Store" where
  "RegisterEnrollmentNode e tokenHash node0 req now s =
    (case token_index tokenHash (st_EnrollmentQueue (s_state s)) of
       None \<Rightarrow> (Inl EnrollmentTokenNotFound, s)
     | Some i \<Rightarrow>
        (let queued0 = normalizeEnrollmentRequest (st_EnrollmentQueue (s_state s) ! i) in
         if er_ExpiresAt queued0 \<noteq> 0 \<and> er_ExpiresAt queued0 < now
         then (Inl EnrollmentTokenExpired, s)
         else
           let node = enrolled_node (e_now e) queued0 req node0;
               queued = enrolled_request now req node queued0;
               (err, s') = saveLocked e (s\<lparr> s_state := (s_state s)\<lparr>
                 st_EnrollmentQueue := (st_EnrollmentQueue (s_state s))[i := queued],
                 st_Nodes := goput (n_NodeID node) node (st_Nodes (s_state s)),
                 st_UpdatedAt := now \<rparr> \<rparr>)
           in ((case err of None \<Rightarrow> Inr queued | Some x \<Rightarrow> Inl x), s')))"

definition SetEnrollmentApproval :: "env \<Rightarrow> string \<Rightarrow> string \<Rightarrow> Store \<Rightarrow> Store" where
  "SetEnrollmentApproval e nodeID approvalState s =
    (case replace_first (\<lambda>q. er_NodeID q = nodeID) (\<lambda>q. q\<lparr> er_ApprovalState := approvalState \<rparr>)
            (st_EnrollmentQueue (s_state s)) of
       None \<Rightarrow> s
     | Some q' \<Rightarrow> snd (saveLocked e (s\<lparr> s_state := (s_state s)\<lparr>
                    st_EnrollmentQueue := q', st_UpdatedAt := e_now e \<rparr> \<rparr>)))"

definition SetSetupComplete :: "env \<Rightarrow> bool \<Rightarrow> Store \<Rightarrow> store_error option \<times> Store" where
  "SetSetupComplete e done_flag s = saveLocked e (s\<lparr> s_state := (s_state s)\<lparr>
     st_SetupComplete := done_flag, st_UpdatedAt := e_now e \<rparr> \<rparr>)"

definition SetAdminTokenHint :: "env \<Rightarrow> string \<Rightarrow> Store \<Rightarrow> store_error option \<times> Store" where
  "SetAdminTokenHint e hint s = saveLocked e (s\<lparr> s_state := (s_state s)\<lparr>
     st_AdminTokenHint := hint, st_UpdatedAt := e_now e \<rparr> \<rparr>)"

definition containsClientKey :: "ClientAPIKey list \<Rightarrow> string \<Rightarrow> bool" where
  "containsClientKey keys i \<longleftrightarrow> list_ex (\<lambda>k. ck_ID k = i) keys"

definition putClientKey :: "ClientAPIKey \<Rightarrow> ClientAPIKey list \<Rightarrow> ClientAPIKey list" where
  "putClientKey key keys =
    (case replace_first (\<lambda>k. ck_ID k = ck_ID key) (\<lambda>_. key) keys of
       Some ks \<Rightarrow> ks | None \<Rightarrow> keys @ [key])"

definition UpsertClientAPIKey :: "env \<Rightarrow> ClientAPIKey \<Rightarrow> Store \<Rightarrow> store_error option \<times> Store" where
  "UpsertClientAPIKey e key0 s =
    (let keys = st_ClientAPIKeys (s_state s);
         kid = orElse (ck_ID key0) (''key_'' @ e_random e);
         key = key0\<lparr> ck_ID := kid,
           ck_CreatedAt := (if ck_CreatedAt key0 = 0 then e_now e else ck_CreatedAt key0),
           ck_Enabled := (ck_Enabled key0 \<or> \<not> containsClientKey keys kid) \<rparr>
     in saveLocked e (s\<lparr> s_state := (s_state s)\<lparr>
          st_ClientAPIKeys := putClientKey key keys, st_UpdatedAt := e_now e \<rparr> \<rparr>))"

definition TouchClientAPIKey :: "env \<Rightarrow> string \<Rightarrow> Store \<Rightarrow> Store" where
  "TouchClientAPIKey e kid s =
    (case replace_first (\<lambda>k. ck_ID k = kid) (\<lambda>k. k\<lparr> ck_LastUsed := e_now e \<rparr>)
            (st_ClientAPIKeys (s_state s)) of
       None \<Rightarrow> s
     | Some ks \<Rightarrow> snd (saveLocked e (s\<lparr> s_state := (s_state s)\<lparr> st_ClientAPIKeys := ks \<rparr> \<rparr>)))"

definition UpdateSession :: "env \<Rightarrow> Session \<Rightarrow> Store \<Rightarrow> store_error option \<times> Store" where
  "UpdateSession e session s =
    (if se_SessionID session = [] then (None, s)
     else let session = session\<lparr> se_UpdatedAt := e_now e \<rparr> in
       saveLocked e (s\<lparr> s_state := (s_state s)\<lparr>
         st_Sessions := goput (se_SessionID session) session (st_Sessions (s_state s)),
         st_UpdatedAt := se_UpdatedAt session \<rparr> \<rparr>))"

definition session_of :: "Store \<Rightarrow> string \<Rightarrow> Session option" where
  "session_of s sid = goget (st_Sessions (s_state s)) sid"

definition pushAudit :: "AuditEvent \<Rightarrow> AuditEvent list \<Rightarrow> AuditEvent list" where
  "pushAudit ev trail = (let t = ev # trail in if 250 < length t then take 250 t else t)"

definition AddAudit :: "env \<Rightarrow> AuditEvent \<Rightarrow> Store \<Rightarrow> Store" where
  "AddAudit e ev s =
     snd (saveLocked e (s\<lparr> s_state := (s_state s)\<lparr>
       st_Audit := pushAudit (ev\<lparr> ae_Timestamp := e_now e \<rparr>) (st_Audit (s_state s)) \<rparr> \<rparr>))"

section \<open>Well-formed nodes and requests\<close>

definition node_wf :: "Node \<Rightarrow> bool" where
  "node_wf n \<longleftrightarrow>
     n_ControlLevel n \<in> {ControlLevelManaged, ControlLevelPassive} \<and>
     n_TrustLevel n \<noteq> [] \<and>
     n_ApprovalState n \<in> {ApprovalStatePending, ApprovalStateApproved, ApprovalStateRejected, ApprovalStateRevoked} \<and>
     (n_Approved n \<longleftrightarrow> n_ApprovalState n = ApprovalStateApproved) \<and>
     n_CapabilitySource n \<noteq> [] \<and> n_HealthSource n \<noteq> [] \<and> n_ModelInventorySource n \<noteq> [] \<and>
     n_BenchmarkSource n \<noteq> [] \<and> n_TelemetryLevel n \<noteq> [] \<and>
     (n_ManagementSupported n \<longleftrightarrow> n_ControlLevel n = ControlLevelManaged) \<and>
     (n_ControlLevel n = ControlLevelPassive \<longrightarrow> \<not> n_WarmStateSupported n \<and> n_LastReportedAt n = None) \<and>
     n_LastSeen n \<noteq> 0 \<and>
     n_LastObservedAt n \<noteq> None \<and> n_LastObservedAt n \<noteq> Some 0 \<and>
     (n_ControlLevel n = ControlLevelManaged \<longrightarrow> n_LastReportedAt n \<noteq> None \<and> n_LastReportedAt n \<noteq> Some 0)"

definition request_wf :: "EnrollmentRequest \<Rightarrow> bool" where
  "request_wf r \<longleftrightarrow> er_ControlLevel r \<noteq> [] \<and> er_TrustLevel r \<noteq> [] \<and>
     er_CapabilitySource r \<noteq> [] \<and> er_ApprovalState r \<noteq> []"

lemma trustLevelForEndpoint_range:
  "trustLevelForEndpoint raw d \<in> {TrustLevelLocal, TrustLevelLANUnverified, TrustLevelExternal}"
  by (simp add: trustLevelForEndpoint_def Let_def split: option.split)

lemma trustLevelForEndpoint_nonempty [simp]: "trustLevelForEndpoint raw d \<noteq> []"
  using trustLevelForEndpoint_range [of raw d] by (auto simp: level_defs)

lemma managed_neq_passive [simp]:
  "ControlLevelManaged \<noteq> ControlLevelPassive" "ControlLevelPassive \<noteq> ControlLevelManaged"
  by (simp_all add: level_defs)

lemma levels_nonempty [simp]:
  "ControlLevelManaged \<noteq> []" "ControlLevelPassive \<noteq> []" "ApprovalStatePending \<noteq> []"
  "ApprovalStateApproved \<noteq> []"
  by (simp_all add: level_defs)

lemma approval_states_distinct [simp]:
  "ApprovalStatePending \<noteq> ApprovalStateApproved" "ApprovalStateApproved \<noteq> ApprovalStatePending"
  "ApprovalStateRejected \<noteq> ApprovalStateApproved" "ApprovalStateRevoked \<noteq> ApprovalStateApproved"
  "ApprovalStateApproved \<noteq> ApprovalStateRejected" "ApprovalStateApproved \<noteq> ApprovalStateRevoked"
  by (simp_all add: level_defs)

lemma sources_nonempty [simp]:
  "CapabilitySourceSubscriberReported \<noteq> []" "CapabilitySourceMarshalObserved \<noteq> []"
  "HealthSourceSubscriberReported \<noteq> []" "HealthSourceMarshalObserved \<noteq> []"
  "ModelInventorySourceSubscriberReported \<noteq> []" "ModelInventorySourceMarshalObserved \<noteq> []"
  "BenchmarkSourceNone \<noteq> []" "TelemetryLevelRichMetadata \<noteq> []"
  "TelemetryLevelMarshalObservedMetadata \<noteq> []"
  by (simp_all add: source_defs)

lemma time_or_props [simp]:
  "time_or t d \<noteq> None" "d \<noteq> 0 \<Longrightarrow> time_or t d \<noteq> Some 0"
  "t \<noteq> None \<Longrightarrow> t \<noteq> Some 0 \<Longrightarrow> time_or t d = t"
  by (auto simp: time_or_def split: option.splits)

lemma normalize_levels_fields [simp]:
  "n_ControlLevel (normalize_levels n) \<in> {ControlLevelManaged, ControlLevelPassive}"
  "n_TrustLevel (normalize_levels n) \<noteq> []"
  by (simp_all add: normalize_levels_def Let_def)

lemma normalize_approval_fields [simp]:
  "n_ApprovalState (normalize_approval n) \<in>
     {ApprovalStatePending, ApprovalStateApproved, ApprovalStateRejected, ApprovalStateRevoked}"
  "n_Approved (normalize_approval n) \<longleftrightarrow> n_ApprovalState (normalize_approval n) = ApprovalStateApproved"
  "n_ControlLevel (normalize_approval n) = n_ControlLevel n"
  "n_TrustLevel (normalize_approval n) = n_TrustLevel n"
  by (auto simp: normalize_approval_def Let_def)

lemma normalize_sources_fields [simp]:
  "n_ControlLevel (normalize_sources n) = n_ControlLevel n"
  "n_TrustLevel (normalize_sources n) = n_TrustLevel n"
  "n_ApprovalState (normalize_sources n) = n_ApprovalState n"
  "n_Approved (normalize_sources n) = n_Approved n"
  "n_CapabilitySource (normalize_sources n) \<noteq> []" "n_HealthSource (normalize_sources n) \<noteq> []"
  "n_ModelInventorySource (normalize_sources n) \<noteq> []" "n_BenchmarkSource (normalize_sources n) \<noteq> []"
  "n_TelemetryLevel (normalize_sources n) \<noteq> []"
  "n_ManagementSupported (normalize_sources n) \<longleftrightarrow> n_ControlLevel n \<noteq> ControlLevelPassive"
  "n_ControlLevel n = ControlLevelPassive \<Longrightarrow> \<not> n_WarmStateSupported (normalize_sources n)"
  by (simp_all add: normalize_sources_def)

lemma normalize_times_wf:
  assumes "now \<noteq> 0"
    and "n_ControlLevel n \<in> {ControlLevelManaged, ControlLevelPassive}"
  shows "n_LastSeen (normalize_times now n) \<noteq> 0"
    and "n_LastObservedAt (normalize_times now n) \<noteq> None"
    and "n_LastObservedAt (normalize_times now n) \<noteq> Some 0"
    and "n_ControlLevel n = ControlLevelManaged \<Longrightarrow>
           n_LastReportedAt (normalize_times now n) \<noteq> None \<and> n_LastReportedAt (normalize_times now n) \<noteq> Some 0"
    and "n_ControlLevel n = ControlLevelPassive \<Longrightarrow> n_LastReportedAt (normalize_times now n) = None"
  using assms by (simp_all add: normalize_times_def Let_def)

lemma normalize_times_fields [simp]:
  "n_ControlLevel (normalize_times now n) = n_ControlLevel n"
  "n_TrustLevel (normalize_times now n) = n_TrustLevel n"
  "n_ApprovalState (normalize_times now n) = n_ApprovalState n"
  "n_Approved (normalize_times now n) = n_Approved n"
  "n_CapabilitySource (normalize_times now n) = n_CapabilitySource n"
  "n_HealthSource (normalize_times now n) = n_HealthSource n"
  "n_ModelInventorySource (normalize_times now n) = n_ModelInventorySource n"
  "n_BenchmarkSource (normalize_times now n) = n_BenchmarkSource n"
  "n_TelemetryLevel (normalize_times now n) = n_TelemetryLevel n"
  "n_ManagementSupported (normalize_times now n) = n_ManagementSupported n"
  "n_WarmStateSupported (normalize_times now n) = n_WarmStateSupported n"
  by (simp_all add: normalize_times_def Let_def)

lemma normalizeNode_control:
  "n_ControlLevel (normalizeNode now n) = n_ControlLevel (normalize_levels n)"
  by (simp add: normalizeNode_def)

lemma normalizeNode_wf:
  assumes "now \<noteq> 0" shows "node_wf (normalizeNode now n)"
proof -
  let ?m = "normalize_sources (normalize_approval (normalize_levels n))"
  from normalize_levels_fields(1) [of n] consider
    "n_ControlLevel ?m = ControlLevelManaged" | "n_ControlLevel ?m = ControlLevelPassive"
    by auto
  then show ?thesis
    unfolding node_wf_def normalizeNode_def
    using normalize_times_wf [OF assms, of ?m] normalize_approval_fields(1) [of "normalize_levels n"]
    by cases (auto simp del: insert_iff)
qed

lemma node_wf_D:
  assumes "node_wf n"
  shows "n_ControlLevel n = ControlLevelManaged \<or> n_ControlLevel n = ControlLevelPassive"
    and "n_TrustLevel n \<noteq> []"
    and "n_ApprovalState n \<in>
           {ApprovalStatePending, ApprovalStateApproved, ApprovalStateRejected, ApprovalStateRevoked}"
    and "n_Approved n \<longleftrightarrow> n_ApprovalState n = ApprovalStateApproved"
    and "n_CapabilitySource n \<noteq> []" "n_HealthSource n \<noteq> []" "n_ModelInventorySource n \<noteq> []"
    and "n_BenchmarkSource n \<noteq> []" "n_TelemetryLevel n \<noteq> []"
    and "n_ManagementSupported n \<longleftrightarrow> n_ControlLevel n = ControlLevelManaged"
    and "n_ControlLevel n = ControlLevelPassive \<Longrightarrow> \<not> n_WarmStateSupported n \<and> n_LastReportedAt n = None"
    and "n_LastSeen n \<noteq> 0" "n_LastObservedAt n \<noteq> None" "n_LastObservedAt n \<noteq> Some 0"
    and "n_ControlLevel n = ControlLevelManaged \<Longrightarrow> n_LastReportedAt n \<noteq> None \<and> n_LastReportedAt n \<noteq> Some 0"
  using assms unfolding node_wf_def by simp_all

lemma normalize_id:
  assumes wf: "node_wf n" shows "normalizeNode now n = n"
proof -
  have levels: "normalize_levels n = n"
    using node_wf_D(1,2) [OF wf] by (elim disjE) (simp_all add: normalize_levels_def Let_def)
  have approval: "normalize_approval n = n"
    using node_wf_D(3,4) [OF wf] unfolding insert_iff empty_iff
    by (elim disjE) (simp_all add: normalize_approval_def Let_def orElse_def level_defs)
  have sources: "normalize_sources n = n"
    using node_wf_D(1,5-11) [OF wf] by (elim disjE) (simp_all add: normalize_sources_def)
  have times: "normalize_times now n = n"
    using node_wf_D(1,11-15) [OF wf]
    by (elim disjE) (simp_all add: normalize_times_def Let_def)
  from levels approval sources times show ?thesis by (simp add: normalizeNode_def)
qed

interpretation node: clocked_normaliser normalizeNode node_wf
  by unfold_locales (simp_all add: normalizeNode_wf normalize_id)

interpretation request: normaliser normalizeEnrollmentRequest request_wf
  by unfold_locales (simp_all add: normalizeEnrollmentRequest_def request_wf_def)

section \<open>The invariant of the store\<close>

definition nodes_wf :: "(string, Node) gomap \<Rightarrow> bool" where
  "nodes_wf m \<longleftrightarrow> gokeys_distinct m \<and> (\<forall>(k, n) \<in> set m. n_NodeID n = k \<and> node_wf n)"

definition sessions_wf :: "(string, Session) gomap \<Rightarrow> bool" where
  "sessions_wf m \<longleftrightarrow> gokeys_distinct m \<and> (\<forall>(k, v) \<in> set m. se_SessionID v = k \<and> k \<noteq> [])"

definition content_wf :: "State \<Rightarrow> bool" where
  "content_wf st \<longleftrightarrow> nodes_wf (st_Nodes st) \<and> sessions_wf (st_Sessions st) \<and>
     distinct (map ck_ID (st_ClientAPIKeys st)) \<and> length (st_Audit st) \<le> 250 \<and>
     list_all request_wf (st_EnrollmentQueue st) \<and> config_wf (st_Config st)"

definition state_wf :: "State \<Rightarrow> bool" where
  "state_wf st \<longleftrightarrow> content_wf st \<and> st_SchemaVersion st = CurrentSchemaVersion \<and> st_ConfigVersion st \<noteq> 0"

definition file_wf :: "store_file \<Rightarrow> bool" where
  "file_wf f = (case f of StateFile st \<Rightarrow> state_wf st \<and> jsonState st = st | _ \<Rightarrow> True)"

definition store_wf :: "Store \<Rightarrow> bool" where
  "store_wf s \<longleftrightarrow> state_wf (s_state s) \<and> file_wf (s_file s)"

interpretation audit: capped_log 250 pushAudit
  by unfold_locales (auto simp: pushAudit_def Let_def)

lemma jsonNode_fields [simp]: "n_NodeID (jsonNode n) = n_NodeID n" "node_wf (jsonNode n) = node_wf n"
  by (simp_all add: jsonNode_def node_wf_def)

lemma map_snd_distinct: "gokeys_distinct (map (\<lambda>(k, v). (k, f v)) m) = gokeys_distinct m"
  by (simp add: gokeys_distinct_def comp_def case_prod_unfold)

lemma goget_map_snd: "goget (map (\<lambda>(k, v). (k, f v)) m) k = map_option f (goget m k)"
  by (simp add: goget_def map_of_map)

lemma jsonConfig_idem: "jsonConfig (jsonConfig c) = jsonConfig c"
  by (simp add: jsonConfig_def comp_def)

lemma jsonState_idem [simp]: "jsonState (jsonState st) = jsonState st"
  by (simp add: jsonState_def jsonConfig_idem jsonNode_def jsonAudit_def comp_def case_prod_unfold)

lemma jsonConfig_wf: "config_wf (jsonConfig c) = config_wf c"
  by (simp add: config_wf_def jsonConfig_def)

lemma jsonState_wf: "content_wf st \<Longrightarrow> content_wf (jsonState st)"
  by (auto simp: content_wf_def jsonState_def nodes_wf_def map_snd_distinct jsonConfig_wf)

lemma saveLocked_wf:
  assumes "content_wf (s_state s)" "file_wf (s_file s)"
  shows "store_wf (snd (saveLocked e s))"
proof -
  let ?st = "(s_state s)\<lparr> st_SchemaVersion := CurrentSchemaVersion,
      st_ConfigVersion := orElseInt (st_ConfigVersion (s_state s)) 1, st_UpdatedAt := e_now e \<rparr>"
  have c: "content_wf ?st" using assms(1) by (simp add: content_wf_def)
  have v: "st_SchemaVersion (jsonState ?st) = CurrentSchemaVersion" "st_ConfigVersion (jsonState ?st) \<noteq> 0"
    by (simp_all add: jsonState_def)
  show ?thesis
    using assms(2) c v jsonState_wf [OF c]
    by (simp add: saveLocked_def Let_def store_wf_def state_wf_def file_wf_def)
qed

lemma saveLocked_content: "content_wf (s_state s) \<Longrightarrow> content_wf (s_state (snd (saveLocked e s)))"
  by (simp add: saveLocked_def Let_def content_wf_def)

text \<open>What saving leaves alone.\<close>

lemma saveLocked_fields [simp]:
  "st_Nodes (s_state (snd (saveLocked e s))) = st_Nodes (s_state s)"
  "st_Sessions (s_state (snd (saveLocked e s))) = st_Sessions (s_state s)"
  "st_ClientAPIKeys (s_state (snd (saveLocked e s))) = st_ClientAPIKeys (s_state s)"
  "st_Audit (s_state (snd (saveLocked e s))) = st_Audit (s_state s)"
  "st_EnrollmentQueue (s_state (snd (saveLocked e s))) = st_EnrollmentQueue (s_state s)"
  "st_Config (s_state (snd (saveLocked e s))) = st_Config (s_state s)"
  "st_SetupComplete (s_state (snd (saveLocked e s))) = st_SetupComplete (s_state s)"
  "st_AdminTokenHint (s_state (snd (saveLocked e s))) = st_AdminTokenHint (s_state s)"
  by (simp_all add: saveLocked_def Let_def)

lemma saveLocked_err: "fst (saveLocked e s) = (if e_write_ok e then None else Some WriteError)"
  by (simp add: saveLocked_def Let_def)

lemma saveLocked_file:
  "e_write_ok e \<Longrightarrow> s_file (snd (saveLocked e s)) = StateFile (jsonState (s_state (snd (saveLocked e s))))"
  by (simp add: saveLocked_def Let_def)

lemma saveLocked_file_kept: "\<not> e_write_ok e \<Longrightarrow> s_file (snd (saveLocked e s)) = s_file s"
  by (simp add: saveLocked_def Let_def)

lemma nodes_wf_goput:
  "nodes_wf m \<Longrightarrow> node_wf n \<Longrightarrow> nodes_wf (goput (n_NodeID n) n m)"
  unfolding nodes_wf_def using set_goput [of m _ "n_NodeID n" n] by fastforce

lemma sessions_wf_goput:
  "sessions_wf m \<Longrightarrow> se_SessionID v \<noteq> [] \<Longrightarrow> sessions_wf (goput (se_SessionID v) v m)"
  unfolding sessions_wf_def using set_goput [of m _ "se_SessionID v" v] by fastforce

lemma replace_first_set:
  "replace_first p f xs = Some ys \<Longrightarrow> x \<in> set ys \<Longrightarrow> x \<in> set xs \<or> (\<exists>y \<in> set xs. p y \<and> x = f y)"
  by (induction xs arbitrary: ys) (auto split: if_splits)

lemma replace_first_map:
  "replace_first p f xs = Some ys \<Longrightarrow> (\<And>x. p x \<Longrightarrow> g (f x) = g x) \<Longrightarrow> map g ys = map g xs"
  by (induction xs arbitrary: ys) (auto split: if_splits)

lemma replace_first_None: "replace_first p f xs = None \<longleftrightarrow> (\<forall>x \<in> set xs. \<not> p x)"
  by (induction xs) auto

section \<open>Every operation keeps the invariant\<close>

lemma store_wf_D: "store_wf s \<Longrightarrow> content_wf (s_state s)" "store_wf s \<Longrightarrow> file_wf (s_file s)"
  by (simp_all add: store_wf_def state_wf_def)

lemma prepareNode_wf: "e_now e \<noteq> 0 \<Longrightarrow> node_wf (prepareNode e n)"
  by (simp add: prepareNode_def node.clocked_wf)

lemma SaveConfig_wf: "store_wf s \<Longrightarrow> store_wf (snd (SaveConfig e cfg s))"
  unfolding SaveConfig_def using store_wf_D [of s]
  by (intro saveLocked_wf) (simp_all add: content_wf_def config.norm_wf)

lemma UpsertNode_wf: "e_now e \<noteq> 0 \<Longrightarrow> store_wf s \<Longrightarrow> store_wf (snd (UpsertNode e n s))"
  unfolding UpsertNode_def using store_wf_D [of s]
  by (intro saveLocked_wf) (simp_all add: content_wf_def putNode_def nodes_wf_goput prepareNode_wf)

lemma AddEnrollmentRequest_wf: "store_wf s \<Longrightarrow> store_wf (snd (snd (AddEnrollmentRequest e r s)))"
  unfolding AddEnrollmentRequest_def Let_def snd_conv using store_wf_D [of s]
  by (intro saveLocked_wf)
    (auto simp: content_wf_def list_all_iff request.norm_wf dest: replace_first_set split: option.split)

lemma token_index_Some:
  "token_index h qs = Some i \<Longrightarrow> i < length qs \<and> er_TokenHash (qs ! i) = h \<and> h \<noteq> [] \<and>
     (\<forall>j < i. er_TokenHash (qs ! j) \<noteq> h)"
proof (induction qs arbitrary: i)
  case (Cons q qs)
  then show ?case
  proof (cases "er_TokenHash q = [] \<or> er_TokenHash q \<noteq> h")
    case True
    then obtain k where k: "i = Suc k" "token_index h qs = Some k" using Cons.prems by auto
    with Cons.IH [OF k(2)] True show ?thesis by (auto simp: less_Suc_eq_0_disj)
  qed auto
qed simp

lemma token_index_None: "token_index h qs = None \<longleftrightarrow> h = [] \<or> (\<forall>q \<in> set qs. er_TokenHash q \<noteq> h)"
  by (induction qs) auto

lemma enrolled_node_wf: "now \<noteq> 0 \<Longrightarrow> node_wf (enrolled_node now q r n)"
  by (simp add: enrolled_node_def node.clocked_wf)

lemma enrolled_request_wf:
  "request_wf q \<Longrightarrow> node_wf n \<Longrightarrow> request_wf (enrolled_request now r n q)"
  by (simp add: request_wf_def enrolled_request_def node_wf_D)

lemma list_all_update: "list_all p xs \<Longrightarrow> p x \<Longrightarrow> list_all p (xs[i := x])"
  by (auto simp: list_all_iff dest: set_update_subset_insert [THEN subsetD])

lemma RegisterEnrollmentNode_wf:
  "e_now e \<noteq> 0 \<Longrightarrow> store_wf s \<Longrightarrow> store_wf (snd (RegisterEnrollmentNode e h n r now s))"
  unfolding RegisterEnrollmentNode_def Let_def using store_wf_D [of s]
  by (auto simp: content_wf_def case_prod_unfold request.norm_wf
      intro!: saveLocked_wf nodes_wf_goput enrolled_node_wf list_all_update enrolled_request_wf
      split: option.split)

lemma SetEnrollmentApproval_wf:
  "a \<noteq> [] \<Longrightarrow> store_wf s \<Longrightarrow> store_wf (SetEnrollmentApproval e nid a s)"
  unfolding SetEnrollmentApproval_def using store_wf_D [of s]
  by (auto simp: content_wf_def list_all_iff intro!: saveLocked_wf
      dest: replace_first_set [where p = "\<lambda>q. er_NodeID q = nid"] split: option.split)
    (auto simp: request_wf_def dest!: replace_first_set)

lemma SetSetupComplete_wf: "store_wf s \<Longrightarrow> store_wf (snd (SetSetupComplete e b s))"
  unfolding SetSetupComplete_def using store_wf_D [of s]
  by (intro saveLocked_wf) (simp_all add: content_wf_def)

lemma SetAdminTokenHint_wf: "store_wf s \<Longrightarrow> store_wf (snd (SetAdminTokenHint e h s))"
  unfolding SetAdminTokenHint_def using store_wf_D [of s]
  by (intro saveLocked_wf) (simp_all add: content_wf_def)

lemma putClientKey_distinct:
  assumes "distinct (map ck_ID ks)" shows "distinct (map ck_ID (putClientKey key ks))"
proof (cases "replace_first (\<lambda>k. ck_ID k = ck_ID key) (\<lambda>_. key) ks")
  case None
  then have "ck_ID key \<notin> ck_ID ` set ks" unfolding replace_first_None by force
  with None assms show ?thesis by (simp add: putClientKey_def)
next
  case (Some ks')
  then have "map ck_ID ks' = map ck_ID ks" by (rule replace_first_map) simp
  with Some assms show ?thesis by (simp add: putClientKey_def)
qed

lemma UpsertClientAPIKey_wf: "store_wf s \<Longrightarrow> store_wf (snd (UpsertClientAPIKey e k s))"
  unfolding UpsertClientAPIKey_def Let_def using store_wf_D [of s]
  by (intro saveLocked_wf) (simp_all add: content_wf_def putClientKey_distinct)

lemma TouchClientAPIKey_wf: "store_wf s \<Longrightarrow> store_wf (TouchClientAPIKey e i s)"
  unfolding TouchClientAPIKey_def using store_wf_D [of s]
  by (auto simp: content_wf_def intro!: saveLocked_wf dest: replace_first_map [where g = ck_ID]
      split: option.split)

lemma UpdateSession_wf: "store_wf s \<Longrightarrow> store_wf (snd (UpdateSession e v s))"
  unfolding UpdateSession_def Let_def using store_wf_D [of s]
  using sessions_wf_goput [of _ "v\<lparr> se_UpdatedAt := e_now e \<rparr>"]
  by (auto simp: content_wf_def intro!: saveLocked_wf)

lemma AddAudit_wf: "store_wf s \<Longrightarrow> store_wf (AddAudit e ev s)"
  unfolding AddAudit_def using store_wf_D [of s]
  by (intro saveLocked_wf) (simp_all add: content_wf_def audit.push_length)

lemma load_store_wf:
  assumes "file_wf (s_file s)" "fst (load e cfg s) = None"
  shows "store_wf (snd (load e cfg s))"
proof (cases "s_file s")
  case NoFile
  have "content_wf (fresh_state e (Normalize cfg))"
    by (simp add: fresh_state_def content_wf_def nodes_wf_def sessions_wf_def gokeys_distinct_def
        config.norm_wf)
  with NoFile show ?thesis
    by (simp add: load_def Let_def) (rule saveLocked_wf; simp add: file_wf_def)
next
  case (StateFile st)
  with assms(1) have st: "state_wf st" by (simp add: file_wf_def)
  then have m: "migrateLocked (e_now e) st = (Inr False, st)"
    by (simp add: migrateLocked_def state_wf_def CurrentSchemaVersion_def)
  have "state_wf (adoptConfig c st)" for c
    using st by (simp add: adoptConfig_def Let_def state_wf_def content_wf_def config.norm_wf)
  then have "store_wf (s\<lparr> s_state := adoptConfig c st \<rparr>)" for c
    using assms(1) by (simp add: store_wf_def)
  moreover from this have "store_wf (snd (saveLocked e (s\<lparr> s_state := adoptConfig c st \<rparr>)))" for c
    by (blast intro: saveLocked_wf store_wf_D)
  ultimately show ?thesis using StateFile m by (simp add: load_def Let_def)
qed (use assms in \<open>simp_all add: load_def Let_def\<close>)

lemmas store_ops_wf = SaveConfig_wf UpsertNode_wf AddEnrollmentRequest_wf RegisterEnrollmentNode_wf
  SetEnrollmentApproval_wf SetSetupComplete_wf SetAdminTokenHint_wf UpsertClientAPIKey_wf
  TouchClientAPIKey_wf UpdateSession_wf AddAudit_wf load_store_wf

section \<open>Runs of the store\<close>

text \<open>A run starts by loading with no file, then performs operations and restarts in any order,
  each in its own environment; writes may fail at any of them.\<close>

inductive store_step :: "Store \<Rightarrow> Store \<Rightarrow> bool" where
  step_config: "store_step s (snd (SaveConfig e cfg s))"
| step_node: "e_now e \<noteq> 0 \<Longrightarrow> store_step s (snd (UpsertNode e n s))"
| step_request: "store_step s (snd (snd (AddEnrollmentRequest e r s)))"
| step_register: "e_now e \<noteq> 0 \<Longrightarrow> store_step s (snd (RegisterEnrollmentNode e h n r now s))"
| step_approval: "a \<noteq> [] \<Longrightarrow> store_step s (SetEnrollmentApproval e nid a s)"
| step_setup: "store_step s (snd (SetSetupComplete e b s))"
| step_hint: "store_step s (snd (SetAdminTokenHint e hint s))"
| step_key: "store_step s (snd (UpsertClientAPIKey e k s))"
| step_touch: "store_step s (TouchClientAPIKey e kid s)"
| step_session: "store_step s (snd (UpdateSession e v s))"
| step_audit: "store_step s (AddAudit e ev s)"
| step_restart: "s_file s0 = s_file s \<Longrightarrow> load e cfg s0 = (None, s') \<Longrightarrow> store_step s s'"

inductive store_reachable :: "Store \<Rightarrow> bool" where
  reach_open: "s_file s0 = NoFile \<Longrightarrow> load e cfg s0 = (None, s) \<Longrightarrow> store_reachable s"
| reach_step: "store_reachable s \<Longrightarrow> store_step s s' \<Longrightarrow> store_reachable s'"

inductive_cases store_stepE: "store_step s s'"

lemma store_step_wf: "store_step s s' \<Longrightarrow> store_wf s \<Longrightarrow> store_wf s'"
proof (induction rule: store_step.induct)
  case (step_restart s0 s e cfg s')
  then show ?case using load_store_wf [of s0 e cfg] store_wf_D(2) [of s] by simp
qed (auto intro: store_ops_wf)

lemma reachable_wf: "store_reachable s \<Longrightarrow> store_wf s"
proof (induction rule: store_reachable.induct)
  case (reach_open s0 e cfg s)
  then show ?case using load_store_wf [of s0 e cfg] by (simp add: file_wf_def)
qed (rule store_step_wf)

lemma store_wf_node:
  "store_wf s \<Longrightarrow> goget (st_Nodes (s_state s)) k = Some n \<Longrightarrow> n_NodeID n = k \<and> node_wf n"
  unfolding store_wf_def state_wf_def content_wf_def nodes_wf_def by (blast dest: goget_in_set)

section \<open>Registration\<close>

lemma filter_update_count:
  "i < length xs \<Longrightarrow> P (xs ! i) \<Longrightarrow> \<not> P y \<Longrightarrow> length (filter P xs) = Suc (length (filter P (xs[i := y])))"
  by (induction xs arbitrary: i) (auto simp: nth_Cons split: nat.splits)

lemma register_cases:
  "RegisterEnrollmentNode e h node req now s = (case token_index h (st_EnrollmentQueue (s_state s)) of
     None \<Rightarrow> (Inl EnrollmentTokenNotFound, s)
   | Some i \<Rightarrow>
      (let q0 = normalizeEnrollmentRequest (st_EnrollmentQueue (s_state s) ! i);
           n = enrolled_node (e_now e) q0 req node; q = enrolled_request now req n q0;
           s1 = snd (saveLocked e (s\<lparr> s_state := (s_state s)\<lparr>
                 st_EnrollmentQueue := (st_EnrollmentQueue (s_state s))[i := q],
                 st_Nodes := goput (n_NodeID n) n (st_Nodes (s_state s)),
                 st_UpdatedAt := now \<rparr> \<rparr>))
       in if er_ExpiresAt q0 \<noteq> 0 \<and> er_ExpiresAt q0 < now then (Inl EnrollmentTokenExpired, s)
          else (if e_write_ok e then Inr q else Inl WriteError, s1)))"
  by (auto simp: RegisterEnrollmentNode_def Let_def case_prod_unfold saveLocked_err split: option.split)

lemma enrolled_node_fields:
  "n_ControlLevel (enrolled_node now q r n) = ControlLevelManaged"
  "n_ApprovalState (enrolled_node now q r n) = ApprovalStatePending"
  "\<not> n_Approved (enrolled_node now q r n)"
proof -
  let ?n = "normalize_levels (n\<lparr> n_NodeID := orElse (n_NodeID n) (er_NodeID q),
     n_URL := orElse (n_URL n) (er_URL q), n_Hostname := orElse (n_Hostname n) (er_Hostname r),
     n_ControlLevel := ControlLevelManaged, n_TrustLevel := orElse (n_TrustLevel n) (er_TrustLevel q),
     n_CapabilitySource := CapabilitySourceSubscriberReported, n_ApprovalState := ApprovalStatePending,
     n_Approved := False, n_Enabled := True \<rparr>)"
  have "n_ControlLevel ?n = ControlLevelManaged" "n_ApprovalState ?n = ApprovalStatePending"
    by (simp_all add: normalize_levels_def Let_def)
  then show "n_ControlLevel (enrolled_node now q r n) = ControlLevelManaged"
    "n_ApprovalState (enrolled_node now q r n) = ApprovalStatePending"
    "\<not> n_Approved (enrolled_node now q r n)"
    unfolding enrolled_node_def normalizeNode_def
    by (simp_all only: normalize_times_fields normalize_sources_fields normalize_approval_fields)
      (simp_all add: normalize_approval_def Let_def)
qed

lemma enrolled_request_fields [simp]:
  "er_NodeID (enrolled_request now r n q) = n_NodeID n" "er_TokenHash (enrolled_request now r n q) = []"
  by (simp_all add: enrolled_request_def)

lemma normalizeEnrollmentRequest_fields [simp]:
  "er_TokenHash (normalizeEnrollmentRequest q) = er_TokenHash q"
  "er_ExpiresAt (normalizeEnrollmentRequest q) = er_ExpiresAt q"
  by (simp_all add: normalizeEnrollmentRequest_def)

lemma register_Inr:
  assumes "RegisterEnrollmentNode e h node req now s = (Inr q, s')"
  obtains i n where "token_index h (st_EnrollmentQueue (s_state s)) = Some i"
    and "er_ExpiresAt (st_EnrollmentQueue (s_state s) ! i) = 0 \<or> now \<le> er_ExpiresAt (st_EnrollmentQueue (s_state s) ! i)"
    and "n_ControlLevel n = ControlLevelManaged" "n_ApprovalState n = ApprovalStatePending" "\<not> n_Approved n"
    and "er_NodeID q = n_NodeID n" "er_TokenHash q = []" "e_write_ok e"
    and "st_EnrollmentQueue (s_state s') = (st_EnrollmentQueue (s_state s))[i := q]"
    and "st_Nodes (s_state s') = goput (n_NodeID n) n (st_Nodes (s_state s))"
  using assms unfolding register_cases Let_def
  by (auto split: option.splits if_splits simp: enrolled_node_fields intro!: that)

lemma register_count:
  assumes "RegisterEnrollmentNode e h node req now s = (Inr q, s')"
  shows "length (filter (\<lambda>r. er_TokenHash r = h) (st_EnrollmentQueue (s_state s))) =
      Suc (length (filter (\<lambda>r. er_TokenHash r = h) (st_EnrollmentQueue (s_state s'))))"
proof -
  obtain i where i: "token_index h (st_EnrollmentQueue (s_state s)) = Some i"
    and q: "er_TokenHash q = []" "st_EnrollmentQueue (s_state s') = (st_EnrollmentQueue (s_state s))[i := q]"
    using assms by (rule register_Inr)
  from token_index_Some [OF i] show ?thesis
    unfolding q(2) by (intro filter_update_count) (auto simp: q(1))
qed

lemma token_index_find:
  "token_index h qs = Some i \<Longrightarrow> find (\<lambda>r. er_TokenHash r = h) qs = Some (qs ! i)"
  by (auto simp: find_Some_iff dest!: token_index_Some)

section \<open>Properties\<close>

text \<open>C2. In every state the store can reach, by any sequence of its operations and restarts with any
  write failing or not, the nodes are stored under their own identifiers with the approval flag
  equal to the approval state, passive endpoints are never managed, sessions are keyed by a
  non-empty identifier, client keys have distinct identifiers, the audit trail holds at most 250
  events, the configuration is within its bounds, and the file, if it holds a state, holds one of
  the current version with the same invariant.\<close>

theorem store_invariant:
  "store_reachable s \<Longrightarrow> store_wf s \<and>
     (\<forall>k n. goget (st_Nodes (s_state s)) k = Some n \<longrightarrow>
        n_NodeID n = k \<and> (n_Approved n \<longleftrightarrow> n_ApprovalState n = ApprovalStateApproved) \<and>
        (n_ControlLevel n = ControlLevelPassive \<longrightarrow> \<not> n_ManagementSupported n)) \<and>
     length (st_Audit (s_state s)) \<le> 250 \<and> config_wf (st_Config (s_state s))"
  using reachable_wf [of s] store_wf_node [of s]
  by (auto simp: node_wf_def) (auto simp: store_wf_def state_wf_def content_wf_def)

text \<open>A registration succeeds only with a token that is in the queue and has not expired; it uses
  the token up, and the node it stores is a managed node that awaits approval. Every other node is
  left as it was.\<close>

theorem register_success:
  assumes "RegisterEnrollmentNode e h node req now s = (Inr q, s')"
  shows "h \<noteq> [] \<and>
    (\<exists>r \<in> set (st_EnrollmentQueue (s_state s)). er_TokenHash r = h \<and> (er_ExpiresAt r = 0 \<or> now \<le> er_ExpiresAt r)) \<and>
    length (filter (\<lambda>r. er_TokenHash r = h) (st_EnrollmentQueue (s_state s))) =
      Suc (length (filter (\<lambda>r. er_TokenHash r = h) (st_EnrollmentQueue (s_state s')))) \<and>
    (\<exists>n. goget (st_Nodes (s_state s')) (er_NodeID q) = Some n \<and> n_ControlLevel n = ControlLevelManaged \<and>
       n_ApprovalState n = ApprovalStatePending \<and> \<not> n_Approved n) \<and>
    (\<forall>k. k \<noteq> er_NodeID q \<longrightarrow> goget (st_Nodes (s_state s')) k = goget (st_Nodes (s_state s)) k)"
proof -
  obtain i n where r: "token_index h (st_EnrollmentQueue (s_state s)) = Some i"
    "er_ExpiresAt (st_EnrollmentQueue (s_state s) ! i) = 0 \<or> now \<le> er_ExpiresAt (st_EnrollmentQueue (s_state s) ! i)"
    "n_ControlLevel n = ControlLevelManaged" "n_ApprovalState n = ApprovalStatePending" "\<not> n_Approved n"
    "er_NodeID q = n_NodeID n" "er_TokenHash q = []"
    "st_EnrollmentQueue (s_state s') = (st_EnrollmentQueue (s_state s))[i := q]"
    "st_Nodes (s_state s') = goput (n_NodeID n) n (st_Nodes (s_state s))"
    using assms by (rule register_Inr)
  note i = token_index_Some [OF r(1)]
  then have "st_EnrollmentQueue (s_state s) ! i \<in> set (st_EnrollmentQueue (s_state s))"
    by simp
  with i r register_count [OF assms] show ?thesis by auto
qed

text \<open>A registration that is refused for its token changes nothing: the token is unknown when no
  entry of the queue has it (an empty token never matches), and expired when the first entry that
  has it is past its expiry.\<close>

theorem register_refused:
  "let R = RegisterEnrollmentNode e h node req now s; queue = st_EnrollmentQueue (s_state s);
       unknown = (h = [] \<or> find (\<lambda>r. er_TokenHash r = h) queue = None);
       expired = (h \<noteq> [] \<and> (\<exists>r. find (\<lambda>r. er_TokenHash r = h) queue = Some r \<and>
                    er_ExpiresAt r \<noteq> 0 \<and> er_ExpiresAt r < now))
   in (fst R = Inl EnrollmentTokenNotFound \<longleftrightarrow> unknown) \<and> (R = (Inl EnrollmentTokenNotFound, s) \<longleftrightarrow> unknown) \<and>
      (fst R = Inl EnrollmentTokenExpired \<longleftrightarrow> expired) \<and> (R = (Inl EnrollmentTokenExpired, s) \<longleftrightarrow> expired)"
proof (cases "token_index h (st_EnrollmentQueue (s_state s))")
  case None
  then have "h = [] \<or> find (\<lambda>r. er_TokenHash r = h) (st_EnrollmentQueue (s_state s)) = None"
    by (auto simp: token_index_None find_None_iff)
  with None show ?thesis by (auto simp: register_cases Let_def)
next
  case (Some i)
  with token_index_Some [OF Some] token_index_find [OF Some] show ?thesis
    by (simp add: register_cases Let_def)
qed

text \<open>A token works once: after it was used, the same token is unknown, in whatever environment
  and for whatever node it is presented again.\<close>

theorem register_once:
  assumes "RegisterEnrollmentNode e h node req now s = (Inr q, s')"
    and "length (filter (\<lambda>r. er_TokenHash r = h) (st_EnrollmentQueue (s_state s))) = 1"
  shows "RegisterEnrollmentNode e' h node' req' now' s' = (Inl EnrollmentTokenNotFound, s')"
proof -
  have "filter (\<lambda>r. er_TokenHash r = h) (st_EnrollmentQueue (s_state s')) = []"
    using register_count [OF assms(1)] assms(2) by simp
  then have "token_index h (st_EnrollmentQueue (s_state s')) = None"
    by (auto simp: token_index_None filter_empty_conv)
  then show ?thesis by (simp add: register_cases)
qed

text \<open>Migration never leaves a state of another version: it succeeds exactly for the versions 0, 1
  and 2, then the version is the current one, nodes of older versions are normalised, one record
  per applied migration is appended to the history, and the sessions, keys and audit events are kept;
  any other version is refused.\<close>

theorem migrate_outcome:
  assumes "now \<noteq> 0"
  shows "case migrateLocked now st of
      (Inr migrated, st') \<Rightarrow> st_SchemaVersion st \<in> {0, 1, 2} \<and> st_SchemaVersion st' = CurrentSchemaVersion \<and>
        (migrated \<longleftrightarrow> st_SchemaVersion st \<noteq> CurrentSchemaVersion) \<and>
        (if migrated then list_all (\<lambda>(k, n). node_wf n) (st_Nodes st') \<and>
             list_all request_wf (st_EnrollmentQueue st') \<and>
             map fst (st_Nodes st') = map fst (st_Nodes st) else st' = st) \<and>
        length (st_MigrationHistory st') = length (st_MigrationHistory st) + nat (2 - st_SchemaVersion st) \<and>
        st_Sessions st' = st_Sessions st \<and> st_ClientAPIKeys st' = st_ClientAPIKeys st \<and> st_Audit st' = st_Audit st
    | (Inl err, st') \<Rightarrow> st_SchemaVersion st \<notin> {0, 1, 2} \<and> st' = st \<and>
        err = (if 2 < st_SchemaVersion st then NewerSchema (st_SchemaVersion st)
               else NoMigrationPath (st_SchemaVersion st))"
proof -
  have norm: "list_all (\<lambda>(k, n). node_wf n) (normalizeNodeMap now m)" for m
    using assms by (auto simp: list_all_iff normalizeNodeMap_def node.clocked_wf)
  have keys: "map fst (normalizeNodeMap now m) = map fst m" for m
    by (simp add: normalizeNodeMap_def comp_def case_prod_unfold)
  have queue: "list_all request_wf (normalizeEnrollmentQueue q)" for q
    by (auto simp: list_all_iff normalizeEnrollmentQueue_def request.norm_wf)
  consider "2 < st_SchemaVersion st" | "st_SchemaVersion st = 2" | "st_SchemaVersion st = 1"
    | "st_SchemaVersion st = 0" | "st_SchemaVersion st < 0" by linarith
  then show ?thesis
    by cases (simp_all add: migrateLocked_def CurrentSchemaVersion_def migration_0_1_def
        migration_1_2_def norm keys queue)
qed

text \<open>What a successful save wrote is what a restart reads: the nodes, sessions, client keys, audit
  events, enrollment requests, migration history, setup flag and token hint of the restarted store
  are those of a snapshot taken before, and its configuration is the one of the snapshot with the
  mode, address and Ollama URL of the command line, normalised.\<close>

theorem reload_snapshot:
  assumes "store_reachable s" "e_write_ok e" "saved = snd (saveLocked e s)"
    and "s_file s0 = s_file saved" "st_Role (s_state s) \<noteq> [] \<or> e_write_ok e'"
    and "load e' cfg s0 = (err, s')"
  shows "err = None \<and> st_Nodes (s_state s') = st_Nodes (Snapshot saved) \<and>
    st_Sessions (s_state s') = st_Sessions (Snapshot saved) \<and>
    st_ClientAPIKeys (s_state s') = st_ClientAPIKeys (Snapshot saved) \<and>
    st_Audit (s_state s') = st_Audit (Snapshot saved) \<and>
    st_EnrollmentQueue (s_state s') = st_EnrollmentQueue (Snapshot saved) \<and>
    st_SetupComplete (s_state s') = st_SetupComplete (Snapshot saved) \<and>
    st_AdminTokenHint (s_state s') = st_AdminTokenHint (Snapshot saved) \<and>
    st_Config (s_state s') = Normalize (mergeRuntimeConfig (st_Config (Snapshot saved)) (Normalize cfg))"
proof -
  let ?st = "jsonState (s_state saved)"
  have disk: "s_file s0 = StateFile ?st"
    using assms(2-4) by (simp add: saveLocked_file)
  have "store_wf saved"
    using assms(3) reachable_wf [OF assms(1)] by (simp add: saveLocked_wf store_wf_D)
  then have m: "migrateLocked (e_now e') ?st = (Inr False, ?st)"
    by (simp add: migrateLocked_def store_wf_def state_wf_def jsonState_def CurrentSchemaVersion_def)
  have v: "st_ConfigVersion ?st \<noteq> 0" "st_Role ?st = st_Role (s_state s)"
    using assms(3) by (simp_all add: saveLocked_def Let_def jsonState_def)
  define t where "t = s0\<lparr> s_state := adoptConfig (Normalize cfg) ?st \<rparr>"
  have l: "load e' cfg s0 = (if st_Role (s_state s) = [] then saveLocked e' t else (None, t))"
    using disk m v by (simp add: load_def Let_def t_def)
  have t: "st_Nodes (s_state t) = st_Nodes ?st" "st_Sessions (s_state t) = st_Sessions ?st"
    "st_ClientAPIKeys (s_state t) = st_ClientAPIKeys ?st" "st_Audit (s_state t) = st_Audit ?st"
    "st_EnrollmentQueue (s_state t) = st_EnrollmentQueue ?st"
    "st_SetupComplete (s_state t) = st_SetupComplete ?st" "st_AdminTokenHint (s_state t) = st_AdminTokenHint ?st"
    "st_Config (s_state t) = Normalize (mergeRuntimeConfig (st_Config ?st) (Normalize cfg))"
    by (simp_all add: t_def adoptConfig_def Let_def)
  have "err = None \<and> s' = t \<or> err = None \<and> s' = snd (saveLocked e' t)"
    using l assms(5,6) saveLocked_err [of e' t] by (cases "saveLocked e' t") (auto split: if_splits)
  then show ?thesis
    by (elim disjE conjE) (simp_all only: saveLocked_fields t Snapshot_def cloneState_def simp_thms)
qed

section \<open>Concrete runs\<close>

definition sampleEnv :: env where
  "sampleEnv = \<lparr> e_now = 5, e_write_ok = True, e_random = ''0a1b2c3d'' \<rparr>"

definition sampleStore :: Store where
  "sampleStore = snd (load sampleEnv (Default ''marshal'') \<lparr> s_state = undefined, s_file = NoFile \<rparr>)"

definition enrollingStore :: Store where
  "enrollingStore = snd (snd (AddEnrollmentRequest sampleEnv
     (zeroRequest\<lparr> er_NodeID := ''gpu-1'', er_TokenHash := ''h1'', er_ExpiresAt := 9 \<rparr>) sampleStore))"

lemma sampleStore_reachable: "store_reachable sampleStore"
  by (rule reach_open [of "\<lparr> s_state = undefined, s_file = NoFile \<rparr>" sampleEnv "Default ''marshal''"])
    (simp_all add: sampleStore_def load_def Let_def saveLocked_def sampleEnv_def)

lemma enrollingStore_reachable: "store_reachable enrollingStore"
  unfolding enrollingStore_def by (rule reach_step [OF sampleStore_reachable step_request])

lemma enrollingStore_queue:
  "map er_TokenHash (st_EnrollmentQueue (s_state enrollingStore)) = [''h1'']"
  "map er_ExpiresAt (st_EnrollmentQueue (s_state enrollingStore)) = [9]"
  by (simp_all add: enrollingStore_def sampleStore_def AddEnrollmentRequest_def Let_def load_def
      fresh_state_def zeroRequest_def normalizeEnrollmentRequest_def)

lemma enrolling_registers:
  "\<exists>q s'. RegisterEnrollmentNode sampleEnv ''h1'' zeroNode zeroRequest 5 enrollingStore = (Inr q, s')"
proof -
  obtain q where "st_EnrollmentQueue (s_state enrollingStore) = [q]" "er_TokenHash q = ''h1''" "er_ExpiresAt q = 9"
    using enrollingStore_queue by (auto simp: map_eq_Cons_conv)
  then show ?thesis by (simp add: register_cases Let_def) (simp add: sampleEnv_def)
qed

theorem store_invariant_witness: "length (st_Audit (s_state enrollingStore)) \<le> 250"
  using store_invariant [OF enrollingStore_reachable] by simp

theorem register_success_witness:
  "\<exists>q s'. RegisterEnrollmentNode sampleEnv ''h1'' zeroNode zeroRequest 5 enrollingStore = (Inr q, s') \<and>
     (\<exists>n. goget (st_Nodes (s_state s')) (er_NodeID q) = Some n \<and> \<not> n_Approved n)"
  using enrolling_registers register_success by blast

theorem register_once_witness:
  "\<exists>q s'. RegisterEnrollmentNode sampleEnv ''h1'' zeroNode zeroRequest 5 enrollingStore = (Inr q, s') \<and>
     RegisterEnrollmentNode sampleEnv ''h1'' zeroNode zeroRequest 6 s' = (Inl EnrollmentTokenNotFound, s')"
proof -
  have "length (filter (\<lambda>r. er_TokenHash r = ''h1'') (st_EnrollmentQueue (s_state enrollingStore))) = 1"
    using enrollingStore_queue(1) by (auto simp: map_eq_Cons_conv)
  with enrolling_registers register_once show ?thesis by blast
qed

theorem migrate_outcome_witness:
  "case migrateLocked 5 ((s_state sampleStore)\<lparr> st_SchemaVersion := 3 \<rparr>) of
     (Inr _, _) \<Rightarrow> False | (Inl err, _) \<Rightarrow> err = NewerSchema 3"
  using migrate_outcome [of 5 "(s_state sampleStore)\<lparr> st_SchemaVersion := 3 \<rparr>"]
  by (simp split: prod.splits sum.splits)

theorem reload_snapshot_witness:
  "st_Nodes (s_state (snd (load sampleEnv (Default ''marshal'') (snd (saveLocked sampleEnv enrollingStore))))) =
   st_Nodes (Snapshot (snd (saveLocked sampleEnv enrollingStore)))"
  using reload_snapshot [OF enrollingStore_reachable, of sampleEnv "snd (saveLocked sampleEnv enrollingStore)"
      "snd (saveLocked sampleEnv enrollingStore)" sampleEnv "Default ''marshal''"]
  by (simp add: sampleEnv_def prod_eq_iff)

end
