(* ===== verification/Routing.thy ===== *)
theory Routing
  imports AppState
begin

text \<open>
  Package \<^verbatim>\<open>internal/routing\<close>: the policy that decides which nodes may serve a request, how they
  are ranked, and the decision handed to the proxy and to the consensus runner; and the status page of
  \<^verbatim>\<open>internal/httpapi/routing_policy_status.go\<close>, which explains the same policy to the operator.
\<close>

section \<open>Structures\<close>

definition ManagedHeartbeatFreshnessWindow :: duration where
  "ManagedHeartbeatFreshnessWindow = 2 * minute"
definition BenchmarkPlacementFreshnessWindow :: duration where
  "BenchmarkPlacementFreshnessWindow = 24 * hour"
definition ConsensusDefaultMinParticipants :: int where "ConsensusDefaultMinParticipants = 2"
definition ConsensusDefaultMaxParticipants :: int where "ConsensusDefaultMaxParticipants = 4"
definition ConsensusMaximumParticipants :: int where "ConsensusMaximumParticipants = 8"

record Request =
  rq_Model :: string
  rq_ExecutionMode :: string
  rq_SessionID :: string
  rq_Streaming :: bool
  rq_TaskType :: string

record NodeMetadata =
  nm_NodeID :: string
  nm_ControlLevel :: string
  nm_TrustLevel :: string
  nm_CapabilitySource :: string
  nm_Reasons :: "string list"

record Decision =
  d_ModelAlias :: string
  d_ResolvedModel :: string
  d_SelectedNode :: string
  d_CandidateNodes :: "string list"
  d_CandidateMetadata :: "NodeMetadata list"
  d_FallbackNodes :: "string list"
  d_ExcludedNodes :: "NodeMetadata list"
  d_Strategy :: string
  d_Reasons :: "string list"
  d_ExecutionMode :: string
  d_Affinity :: string
  d_ConsensusRequired :: int
  d_ConsensusLimit :: int

record nodePolicy =
  np_Eligible :: bool
  np_Reasons :: "string list"

record benchmarkPlacementPolicy =
  bp_Eligible :: bool
  bp_Score :: rat
  bp_Reasons :: "string list"

record candidateNode =
  cn_node :: Node
  cn_placement :: benchmarkPlacementPolicy
  cn_metadata :: NodeMetadata

section \<open>Reading a node\<close>

text \<open>\<^verbatim>\<open>Time.Sub\<close> saturates.\<close>

definition time_sub :: "gotime \<Rightarrow> gotime \<Rightarrow> duration" where
  "time_sub a b = max (- (2 ^ 63)) (min (2 ^ 63 - 1) (a - b))"

lemma time_sub_greater: "- (2 ^ 63) \<le> w \<Longrightarrow> w < 2 ^ 63 - 1 \<Longrightarrow> w < time_sub a b \<longleftrightarrow> w < a - b"
  by (auto simp: time_sub_def)

definition controlLevel :: "Node \<Rightarrow> string" where
  "controlLevel n = (if n_ControlLevel n = ControlLevelPassive then ControlLevelPassive else ControlLevelManaged)"

definition trustLevel :: "Node \<Rightarrow> string" where
  "trustLevel n =
    (if n_TrustLevel n \<in> {TrustLevelLANTrusted, TrustLevelLANUnverified, TrustLevelExternal}
     then n_TrustLevel n else TrustLevelLocal)"

definition isConsensusMode :: "string \<Rightarrow> string \<Rightarrow> bool" where
  "isConsensusMode executionMode strategy \<longleftrightarrow>
     Contains executionMode ''consensus'' \<or> Contains strategy ''consensus''"

definition IsConsensusDecision :: "Decision \<Rightarrow> bool" where
  "IsConsensusDecision d = isConsensusMode (d_ExecutionMode d) (d_Strategy d)"

definition hasModel :: "Node \<Rightarrow> string \<Rightarrow> bool" where
  "hasModel n model = list_ex (\<lambda>m. ms_Name m = model) (n_Models n)"

definition nodeApproved :: "Node \<Rightarrow> bool" where
  "nodeApproved n = (if n_ApprovalState n = [] then n_Approved n
                     else n_ApprovalState n = ApprovalStateApproved \<and> n_Approved n)"

definition nodeMetadata :: "Node \<Rightarrow> string list \<Rightarrow> NodeMetadata" where
  "nodeMetadata n reasons =
    \<lparr> nm_NodeID = n_NodeID n, nm_ControlLevel = controlLevel n, nm_TrustLevel = trustLevel n,
      nm_CapabilitySource = n_CapabilitySource n, nm_Reasons = reasons \<rparr>"

definition heartbeatRequired :: "Node \<Rightarrow> bool" where
  "heartbeatRequired n =
    (controlLevel n = ControlLevelManaged \<and> as_bool (field (n_Observed n) ''heartbeat_required'') = Some True)"

datatype freshness = Missing | Stale | Fresh

definition heartbeatFreshness :: "Node \<Rightarrow> gotime \<Rightarrow> freshness" where
  "heartbeatFreshness n now =
    (case n_LastReportedAt n of
       None \<Rightarrow> Missing
     | Some t \<Rightarrow> if t = 0 then Missing
                 else if ManagedHeartbeatFreshnessWindow < time_sub now t then Stale else Fresh)"

definition stringValue :: "gval \<Rightarrow> string" where
  "stringValue v = (case v of GStr s \<Rightarrow> TrimSpace s | _ \<Rightarrow> [])"

definition floatValue :: "gval \<Rightarrow> rat" where
  "floatValue v = (case v of GFloat q \<Rightarrow> q | GInt n \<Rightarrow> of_int n | _ \<Rightarrow> 0)"

definition resultTime :: "gval \<Rightarrow> gotime option" where
  "resultTime v = as_time v"

definition resultSource :: "gobj \<Rightarrow> string" where
  "resultSource result = orElse (stringValue (field result ''source'')) CapabilitySourceSubscriberReported"

definition benchmarkSource :: "Node \<Rightarrow> string" where
  "benchmarkSource n =
    (if n_BenchmarkSource n \<noteq> [] then n_BenchmarkSource n
     else if stringValue (field (n_Observed n) ''benchmark_source'') \<noteq> []
     then stringValue (field (n_Observed n) ''benchmark_source'')
     else if controlLevel n = ControlLevelManaged then CapabilitySourceSubscriberReported
     else BenchmarkSourceNone)"

definition benchmarkResults :: "Node \<Rightarrow> gobj list" where
  "benchmarkResults n = as_maps (field (n_Observed n) ''benchmark_results'')"

text \<open>The loop of \<^verbatim>\<open>latestBenchmarkResult\<close>: the best result so far with its time.\<close>

fun latest_result :: "string \<Rightarrow> (gobj \<times> gotime) option \<Rightarrow> gobj list \<Rightarrow> gobj option" where
  "latest_result model best [] = map_option fst best"
| "latest_result model best (r # rs) =
    (let m = stringValue (field r ''model'') in
     if model \<noteq> [] \<and> m \<noteq> [] \<and> m \<noteq> model then latest_result model best rs
     else let t = (case resultTime (field r ''completed_at'') of None \<Rightarrow> 0 | Some t \<Rightarrow> t) in
       case best of
         None \<Rightarrow> latest_result model (Some (r, t)) rs
       | Some (b, bt) \<Rightarrow> latest_result model (if bt < t then Some (r, t) else Some (b, bt)) rs)"

definition latestBenchmarkResult :: "Node \<Rightarrow> string \<Rightarrow> gobj option" where
  "latestBenchmarkResult n model =
    (let results = benchmarkResults n;
         results = (if results = [] then
                      (case as_map (field (n_Observed n) ''benchmark_last_result'') of
                         Some r \<Rightarrow> [r] | None \<Rightarrow> [])
                    else results)
     in latest_result model None results)"

section \<open>The policy\<close>

definition refuse :: "string list \<Rightarrow> nodePolicy" where
  "refuse reasons = \<lparr> np_Eligible = False, np_Reasons = reasons \<rparr>"

definition classify :: "Node \<Rightarrow> bool \<Rightarrow> gotime \<Rightarrow> nodePolicy" where
  "classify n consensusMode now =
    (if \<not> n_Enabled n \<or> \<not> nodeApproved n then
       refuse ((if \<not> n_Enabled n then [''node_disabled''] else []) @
               (if \<not> nodeApproved n then [''node_not_approved''] else []))
     else if n_Status n = ''disabled'' \<or> n_Status n = ''failed'' then refuse [''node_status_'' @ n_Status n]
     else if heartbeatRequired n \<and> heartbeatFreshness n now = Missing then refuse [''heartbeat_missing'']
     else if heartbeatRequired n \<and> heartbeatFreshness n now = Stale then refuse [''heartbeat_stale'']
     else if trustLevel n = TrustLevelExternal then refuse [''trust_external_excluded'']
     else if consensusMode \<and> controlLevel n = ControlLevelPassive then refuse [''passive_consensus_excluded'']
     else if consensusMode \<and> trustLevel n = TrustLevelLANUnverified
     then refuse [''trust_lan_unverified_consensus_excluded'']
     else \<lparr> np_Eligible = True, np_Reasons =
       (if controlLevel n = ControlLevelManaged then [''managed_control''] else [''passive_single_route_allowed'']) @
       (if trustLevel n = TrustLevelLocal then [''trust_local'']
        else if trustLevel n = TrustLevelLANTrusted then [''trust_lan_trusted'']
        else if trustLevel n = TrustLevelLANUnverified then [''trust_lan_unverified_deprioritized'']
        else []) \<rparr>)"

definition ignore :: "string \<Rightarrow> benchmarkPlacementPolicy" where
  "ignore reason = \<lparr> bp_Eligible = False, bp_Score = 0, bp_Reasons = [reason] \<rparr>"

definition benchmarkPlacement :: "Node \<Rightarrow> string \<Rightarrow> gotime \<Rightarrow> benchmarkPlacementPolicy" where
  "benchmarkPlacement n model now =
    (if controlLevel n \<noteq> ControlLevelManaged then ignore ''benchmark_placement_passive_probe_ignored''
     else if trustLevel n \<notin> {TrustLevelLocal, TrustLevelLANTrusted}
     then ignore ''benchmark_placement_untrusted_ignored''
     else if benchmarkSource n \<noteq> CapabilitySourceSubscriberReported
     then ignore ''benchmark_placement_source_ignored''
     else case latestBenchmarkResult n model of
       None \<Rightarrow> ignore ''benchmark_placement_summary_missing''
     | Some result \<Rightarrow>
        (let status = stringValue (field result ''status'');
             completedAt = (case resultTime (field result ''completed_at'') of
                              Some t \<Rightarrow> Some t
                            | None \<Rightarrow> resultTime (field (n_Observed n) ''benchmark_updated_at''));
             rate0 = floatValue (field result ''tokens_per_second'');
             rate = (if rate0 \<le> 0 then floatValue (field result ''output_tokens_per_second'') else rate0)
         in if resultSource result \<noteq> CapabilitySourceSubscriberReported
            then ignore ''benchmark_placement_source_ignored''
            else if status \<noteq> [] \<and> status \<noteq> ''completed'' \<and> status \<noteq> ''reported''
            then ignore ''benchmark_placement_status_ignored''
            else case completedAt of
              None \<Rightarrow> ignore ''benchmark_placement_freshness_missing''
            | Some t \<Rightarrow>
                if t = 0 then ignore ''benchmark_placement_freshness_missing''
                else if BenchmarkPlacementFreshnessWindow < time_sub now t
                then ignore ''benchmark_placement_summary_stale''
                else if rate \<le> 0 then ignore ''benchmark_placement_rate_missing''
                else \<lparr> bp_Eligible = True, bp_Score = rate,
                       bp_Reasons = [''benchmark_placement_applied'', ''benchmark_placement_fresh''] \<rparr>))"

text \<open>The additions of \<^verbatim>\<open>score\<close> are those of \<^verbatim>\<open>int\<close>; wrapping the sum once is the same as wrapping each
  step.\<close>

definition score :: "Node \<Rightarrow> bool \<Rightarrow> int" where
  "score n consensusMode = i64 (
     (if n_Status n = ''healthy'' then 100 else 0) +
     (if n_OllamaAvailable n then 50 else 0) +
     int (length (n_Models n)) * 5 -
     n_ActiveJobs n * 15 +
     int (length (filter (\<lambda>tag. tag = ''primary-code'' \<or> tag = ''heavy'') (n_Tags n))) * 20 +
     (if controlLevel n = ControlLevelManaged then 15 else - 20) +
     (if trustLevel n = TrustLevelLocal then 20
      else if trustLevel n = TrustLevelLANTrusted then 10
      else if trustLevel n = TrustLevelLANUnverified then - 40
      else - 1000) +
     (if consensusMode \<and> controlLevel n = ControlLevelManaged then 20 else 0))"

definition consensusParticipantBounds :: "int \<Rightarrow> int \<Rightarrow> int \<times> int" where
  "consensusParticipantBounds mn mx =
    (let mn = (if mn < 1 then ConsensusDefaultMinParticipants else mn);
         mn = (if ConsensusMaximumParticipants < mn then ConsensusMaximumParticipants else mn);
         mx = (if mx < 1 then ConsensusDefaultMaxParticipants else mx);
         mx = (if mx < mn then mn else mx);
         mx = (if ConsensusMaximumParticipants < mx then ConsensusMaximumParticipants else mx)
     in (mn, mx))"

section \<open>Selection\<close>

definition configured_node :: "SubscriberConfig \<Rightarrow> Node" where
  "configured_node sub = zeroNode\<lparr> n_NodeID := sub_NodeID sub, n_URL := sub_URL sub, n_Enabled := True,
     n_Approved := True, n_ApprovalState := ApprovalStateApproved, n_ControlLevel := ControlLevelManaged,
     n_TrustLevel := TrustLevelLANTrusted, n_Status := ''configured'' \<rparr>"

definition node_less :: "bool \<Rightarrow> Node \<Rightarrow> Node \<Rightarrow> bool" where
  "node_less consensusMode a b =
    (if score a consensusMode \<noteq> score b consensusMode then score b consensusMode < score a consensusMode
     else n_NodeID a < n_NodeID b)"

definition placement_less :: "candidateNode \<Rightarrow> candidateNode \<Rightarrow> bool" where
  "placement_less a b =
    (let l = cn_placement a; r = cn_placement b in
     if bp_Eligible l \<noteq> bp_Eligible r then bp_Eligible l
     else if bp_Eligible l \<and> bp_Eligible r \<and> bp_Score l \<noteq> bp_Score r then bp_Score r < bp_Score l
     else False)"

text \<open>All nodes that are considered: the stored ones, then the configured subscribers that are not
  among them.\<close>

definition pool :: "Config \<Rightarrow> State \<Rightarrow> Node list" where
  "pool cfg state =
    (let stored = map snd (st_Nodes state) in
     stored @ map configured_node
       (filter (\<lambda>sub. sub_NodeID sub \<notin> n_NodeID ` set stored) (c_Subscribers cfg)))"

text \<open>The inner loop, for one wanted model: the excluded nodes (each reported once) and the
  candidates.\<close>

definition candidate_of :: "bool \<Rightarrow> gotime \<Rightarrow> string \<Rightarrow> Node \<Rightarrow> candidateNode" where
  "candidate_of consensusMode now wanted node =
    (let placement = benchmarkPlacement node wanted now in
     \<lparr> cn_node = node, cn_placement = placement,
       cn_metadata = nodeMetadata node (np_Reasons (classify node consensusMode now) @ bp_Reasons placement) \<rparr>)"

definition offers :: "Node \<Rightarrow> string \<Rightarrow> bool" where
  "offers node wanted \<longleftrightarrow> hasModel node wanted \<or> n_Models node = []"

fun scan_nodes :: "bool \<Rightarrow> gotime \<Rightarrow> string \<Rightarrow> NodeMetadata list \<Rightarrow> candidateNode list \<Rightarrow> Node list
    \<Rightarrow> NodeMetadata list \<times> candidateNode list" where
  "scan_nodes consensusMode now wanted excluded cands [] = (excluded, cands)"
| "scan_nodes consensusMode now wanted excluded cands (node # nodes) =
    (let policy = classify node consensusMode now in
     if \<not> np_Eligible policy then
       scan_nodes consensusMode now wanted
         (if n_NodeID node \<in> nm_NodeID ` set excluded then excluded
          else excluded @ [nodeMetadata node (np_Reasons policy)]) cands nodes
     else scan_nodes consensusMode now wanted excluded
       (if offers node wanted then cands @ [candidate_of consensusMode now wanted node] else cands) nodes)"

text \<open>The outer loop, over the wanted models, stops at the first one that has a candidate.\<close>

fun try_models :: "bool \<Rightarrow> gotime \<Rightarrow> Node list \<Rightarrow> NodeMetadata list \<Rightarrow> string list
    \<Rightarrow> NodeMetadata list \<times> (string \<times> candidateNode list) option" where
  "try_models consensusMode now nodes excluded [] = (excluded, None)"
| "try_models consensusMode now nodes excluded (wanted # rest) =
    (let (excluded', cands) = scan_nodes consensusMode now wanted excluded [] nodes in
     if cands \<noteq> [] then (excluded', Some (wanted, SliceStable placement_less cands))
     else try_models consensusMode now nodes excluded' rest)"

text \<open>What \<^verbatim>\<open>Select\<close> settles before it looks at nodes.\<close>

definition alias_of :: "Config \<Rightarrow> string \<Rightarrow> ModelAlias option" where
  "alias_of cfg model = (case c_ModelAliases cfg of None \<Rightarrow> None | Some m \<Rightarrow> goget m model)"

definition initial_decision :: "Config \<Rightarrow> Request \<Rightarrow> Decision" where
  "initial_decision cfg req =
    (let model = orElse (rq_Model req) (r_DefaultModelAlias (c_Routing cfg));
         d = \<lparr> d_ModelAlias = model, d_ResolvedModel = [], d_SelectedNode = [], d_CandidateNodes = [],
               d_CandidateMetadata = [], d_FallbackNodes = [], d_ExcludedNodes = [],
               d_Strategy = ''weighted_best_available'', d_Reasons = [],
               d_ExecutionMode = rq_ExecutionMode req, d_Affinity = c_Session_DefaultAffinity cfg,
               d_ConsensusRequired = 0, d_ConsensusLimit = 0 \<rparr>;
         d = (case alias_of cfg model of
                None \<Rightarrow> d
              | Some alias \<Rightarrow> d\<lparr> d_Strategy := ma_Strategy alias,
                  d_ExecutionMode := orElse (ma_ExecutionMode alias) (d_ExecutionMode d),
                  d_Affinity := orElse (ma_Affinity alias) (d_Affinity d) \<rparr>);
         d = d\<lparr> d_ExecutionMode := orElse (d_ExecutionMode d) (r_DefaultExecutionMode (c_Routing cfg)) \<rparr>;
         (mn, mx) = (case alias_of cfg model of
                       None \<Rightarrow> (0, 0)
                     | Some alias \<Rightarrow> (ma_MinParticipants alias, ma_MaxParticipants alias));
         (mn, mx) = consensusParticipantBounds mn mx
     in if IsConsensusDecision d then d\<lparr> d_ConsensusRequired := mn, d_ConsensusLimit := mx \<rparr> else d)"

definition wanted_models :: "Config \<Rightarrow> Request \<Rightarrow> string list" where
  "wanted_models cfg req =
    (let model = orElse (rq_Model req) (r_DefaultModelAlias (c_Routing cfg)) in
     case alias_of cfg model of None \<Rightarrow> [model] | Some alias \<Rightarrow> ma_Candidates alias)"

text \<open>What follows the loops, for a decision with its candidates.\<close>

definition conclude :: "bool \<Rightarrow> Decision \<Rightarrow> Decision \<times> bool" where
  "conclude consensusMode d0 =
    (let mn = d_ConsensusRequired d0; mx = d_ConsensusLimit d0;
         d1 = (if consensusMode \<and> mx < int (length (d_CandidateNodes d0)) then
                 d0\<lparr> d_CandidateNodes := take (nat mx) (d_CandidateNodes d0),
                     d_CandidateMetadata := take (nat mx) (d_CandidateMetadata d0),
                     d_Reasons := d_Reasons d0 @ [''consensus_max_participants_applied''] \<rparr>
               else d0)
     in if consensusMode \<and> 0 < mn \<and> int (length (d_CandidateNodes d1)) < mn then
          (d1\<lparr> d_Reasons := d_Reasons d1 @ [''consensus_min_participants_unmet''] \<rparr>, False)
        else
          (d1\<lparr> d_SelectedNode := hd (d_CandidateNodes d1),
               d_FallbackNodes := d_FallbackNodes d1 @ tl (d_CandidateNodes d1),
               d_Reasons := d_Reasons d1 @
                 [''requested_model_available'', ''node_enabled'', ''node_approved'', ''trust_policy_eligible''] @
                 [if consensusMode then ''consensus_policy_applied'' else ''single_route_policy_applied''] @
                 (case d_CandidateMetadata d1 of [] \<Rightarrow> [] | m # _ \<Rightarrow> nm_Reasons m) @
                 (if Contains (d_Strategy d1) ''code'' then [''role_primary_code''] else []) \<rparr>, True))"

definition Select :: "gotime \<Rightarrow> Config \<Rightarrow> State \<Rightarrow> Request \<Rightarrow> Decision \<times> bool" where
  "Select now cfg state req =
    (let d = initial_decision cfg req;
         consensusMode = IsConsensusDecision d;
         nodes = SliceStable (node_less consensusMode) (pool cfg state);
         (excluded, found) = try_models consensusMode now nodes [] (wanted_models cfg req)
     in case found of
          None \<Rightarrow>
            (d\<lparr> d_ExcludedNodes := excluded,
                d_Reasons := [''no_policy_eligible_node''] @
                  (if consensusMode then [''consensus_policy_applied''] else []) \<rparr>, False)
        | Some (wanted, cands) \<Rightarrow>
            conclude consensusMode (d\<lparr> d_ExcludedNodes := excluded, d_ResolvedModel := wanted,
              d_CandidateNodes := map (n_NodeID \<circ> cn_node) cands,
              d_CandidateMetadata := map cn_metadata cands \<rparr>))"

section \<open>The routing policy status page\<close>

record RoutingPolicyWarning =
  rw_NodeID :: string
  rw_Severity :: string
  rw_Scope :: string
  rw_Code :: string
  rw_Message :: string
  rw_ControlLevel :: string
  rw_TrustLevel :: string
  rw_ApprovalState :: string
  rw_CapabilitySource :: string

record RoutingPolicyStatus =
  rs_Window :: string
  rs_Summary :: "(string, int) gomap"
  rs_Warnings :: "RoutingPolicyWarning list"

definition routingStatusControlLevel :: "Node \<Rightarrow> string" where
  "routingStatusControlLevel node =
    (if n_ControlLevel node = ControlLevelPassive then ControlLevelPassive else ControlLevelManaged)"

definition routingStatusTrustLevel :: "Node \<Rightarrow> string" where
  "routingStatusTrustLevel node =
    (if n_TrustLevel node \<in> {TrustLevelLANTrusted, TrustLevelLANUnverified, TrustLevelExternal}
     then n_TrustLevel node else TrustLevelLocal)"

definition routingStatusApprovalState :: "Node \<Rightarrow> string" where
  "routingStatusApprovalState node =
    (if n_ApprovalState node \<noteq> [] then n_ApprovalState node
     else if n_Approved node then ApprovalStateApproved else ApprovalStatePending)"

definition routingStatusApproved :: "Node \<Rightarrow> bool" where
  "routingStatusApproved node \<longleftrightarrow>
     routingStatusApprovalState node = ApprovalStateApproved \<and> n_Approved node"

definition routingStatusHeartbeatRequired :: "Node \<Rightarrow> bool" where
  "routingStatusHeartbeatRequired node \<longleftrightarrow>
     routingStatusControlLevel node = ControlLevelManaged \<and>
     as_bool (field (n_Observed node) ''heartbeat_required'') = Some True"

definition routingStatusHeartbeatFreshness :: "Node \<Rightarrow> gotime \<Rightarrow> freshness" where
  "routingStatusHeartbeatFreshness node now =
    (case n_LastReportedAt node of
       None \<Rightarrow> Missing
     | Some t \<Rightarrow> if t = 0 then Missing
                 else if ManagedHeartbeatFreshnessWindow < time_sub now t then Stale else Fresh)"

definition routingWarningsForNode :: "Node \<Rightarrow> gotime \<Rightarrow> RoutingPolicyWarning list" where
  "routingWarningsForNode node now =
    (let add = (\<lambda>cond severity scope code message. if cond then
           [\<lparr> rw_NodeID = n_NodeID node, rw_Severity = severity, rw_Scope = scope, rw_Code = code,
              rw_Message = message, rw_ControlLevel = routingStatusControlLevel node,
              rw_TrustLevel = routingStatusTrustLevel node,
              rw_ApprovalState = routingStatusApprovalState node,
              rw_CapabilitySource = n_CapabilitySource node \<rparr>] else []);
         required = routingStatusHeartbeatRequired node;
         beat = routingStatusHeartbeatFreshness node now;
         trust = routingStatusTrustLevel node
     in add (\<not> n_Enabled node) ''blocked'' ''routing_and_consensus'' ''node_disabled''
          ''Node is disabled and excluded from routing and consensus.'' @
        add (\<not> routingStatusApproved node) ''blocked'' ''routing_and_consensus'' ''node_not_approved''
          ''Node is not approved and is excluded from routing and consensus until approved.'' @
        add (n_Status node = ''disabled'' \<or> n_Status node = ''failed'') ''blocked'' ''routing_and_consensus''
          (''node_status_'' @ n_Status node)
          ''Node health status excludes it from routing and consensus.'' @
        add (required \<and> beat = Missing) ''blocked'' ''routing_and_consensus'' ''heartbeat_missing''
          ''Managed Node requires heartbeat but has not reported yet.'' @
        add (required \<and> beat = Stale) ''blocked'' ''routing_and_consensus'' ''heartbeat_stale''
          ''Managed Node heartbeat is stale and routing pauses until a fresh report arrives.'' @
        add (trust = TrustLevelExternal) ''blocked'' ''routing_and_consensus'' ''trust_external_excluded''
          ''External trust is excluded by default unless an explicit future policy allows it.'' @
        add (routingStatusControlLevel node = ControlLevelPassive) ''limited'' ''consensus''
          ''passive_consensus_excluded''
          ''Passive Endpoint can be used for approved single-route requests but is excluded from consensus.'' @
        add (trust = TrustLevelLANUnverified) ''limited'' ''routing'' ''trust_lan_unverified_deprioritized''
          ''LAN unverified endpoint remains eligible for approved single-route requests but is de-prioritized.'' @
        add (trust = TrustLevelLANUnverified) ''blocked'' ''consensus'' ''trust_lan_unverified_consensus_excluded''
          ''LAN unverified endpoint is excluded from consensus by default.'')"

text \<open>A counter of a \<^verbatim>\<open>map[string]int\<close> is incremented.\<close>

definition bump :: "string \<Rightarrow> (string, int) gomap \<Rightarrow> (string, int) gomap" where
  "bump k m = goput k (i64 ((case goget m k of None \<Rightarrow> 0 | Some n \<Rightarrow> n) + 1)) m"

definition summarizeRoutingPolicy :: "(string, Node) gomap \<Rightarrow> gotime \<Rightarrow> RoutingPolicyStatus" where
  "summarizeRoutingPolicy nodes now =
    (let ids = SliceStable (<) (map fst nodes);
         warnings = concat (map (\<lambda>i. case goget nodes i of
           None \<Rightarrow> routingWarningsForNode zeroNode now | Some node \<Rightarrow> routingWarningsForNode node now) ids)
     in \<lparr> rs_Window = ''current_node_metadata'',
          rs_Summary = fold (\<lambda>w. bump (rw_Code w) \<circ> bump (rw_Scope w) \<circ> bump (rw_Severity w) \<circ> bump ''warnings'')
            warnings [],
          rs_Warnings = warnings \<rparr>)"

section \<open>Orders\<close>

interpretation nodes: weak_order "node_less c" for c
  by unfold_locales (auto simp: node_less_def split: if_splits)

interpretation placement: weak_order placement_less
  by unfold_locales (auto simp: placement_less_def Let_def split: if_splits)

lemma node_eqv_id: "nodes.eqv c a b \<Longrightarrow> n_NodeID a = n_NodeID b"
  by (auto simp: nodes.eqv_def node_less_def split: if_splits)

section \<open>The policy as a specification\<close>

text \<open>When a node may serve a request, in one formula.\<close>

definition may_serve :: "bool \<Rightarrow> gotime \<Rightarrow> Node \<Rightarrow> bool" where
  "may_serve consensus now n \<longleftrightarrow>
     n_Enabled n \<and> n_Approved n \<and> n_ApprovalState n \<in> {[], ApprovalStateApproved} \<and>
     n_Status n \<notin> {''disabled'', ''failed''} \<and>
     (heartbeatRequired n \<longrightarrow> (\<exists>t. n_LastReportedAt n = Some t \<and> t \<noteq> 0 \<and> now - t \<le> 120 * second)) \<and>
     n_TrustLevel n \<noteq> TrustLevelExternal \<and>
     (consensus \<longrightarrow> n_ControlLevel n \<noteq> ControlLevelPassive \<and> n_TrustLevel n \<noteq> TrustLevelLANUnverified)"

lemma trust_levels_distinct [simp]:
  "TrustLevelLocal \<noteq> TrustLevelExternal" "TrustLevelLocal \<noteq> TrustLevelLANUnverified"
  "TrustLevelLocal \<noteq> TrustLevelLANTrusted" "TrustLevelExternal \<noteq> TrustLevelLANUnverified"
  "TrustLevelExternal \<noteq> TrustLevelLANTrusted" "TrustLevelLANTrusted \<noteq> TrustLevelLANUnverified"
  by (simp_all add: level_defs)

lemmas trust_levels_distinct' [simp] = trust_levels_distinct [symmetric]

lemma trustLevel_eq [simp]:
  "trustLevel n = TrustLevelExternal \<longleftrightarrow> n_TrustLevel n = TrustLevelExternal"
  "trustLevel n = TrustLevelLANUnverified \<longleftrightarrow> n_TrustLevel n = TrustLevelLANUnverified"
  "trustLevel n = TrustLevelLANTrusted \<longleftrightarrow> n_TrustLevel n = TrustLevelLANTrusted"
  by (simp_all add: trustLevel_def)

lemma controlLevel_eq [simp]:
  "controlLevel n = ControlLevelPassive \<longleftrightarrow> n_ControlLevel n = ControlLevelPassive"
  "controlLevel n = ControlLevelManaged \<longleftrightarrow> n_ControlLevel n \<noteq> ControlLevelPassive"
  by (simp_all add: controlLevel_def)

lemma heartbeatFreshness_Fresh:
  "heartbeatFreshness n now \<noteq> Missing \<and> heartbeatFreshness n now \<noteq> Stale \<longleftrightarrow>
     (\<exists>t. n_LastReportedAt n = Some t \<and> t \<noteq> 0 \<and> now - t \<le> 120 * second)"
proof -
  have w: "ManagedHeartbeatFreshnessWindow < time_sub now t \<longleftrightarrow> 120 * second < now - t" for t
    by (subst time_sub_greater) (simp_all add: ManagedHeartbeatFreshnessWindow_def duration_defs)
  show ?thesis by (auto simp: heartbeatFreshness_def w split: option.splits)
qed

lemma classify_eligible: "np_Eligible (classify n c now) \<longleftrightarrow> may_serve c now n"
  using heartbeatFreshness_Fresh [of n now]
  by (auto simp: classify_def may_serve_def refuse_def nodeApproved_def split: if_splits)

lemma classify_reasons: "np_Reasons (classify n c now) \<noteq> []"
  by (simp add: classify_def refuse_def)

section \<open>The loops\<close>

definition candidates_for :: "bool \<Rightarrow> gotime \<Rightarrow> string \<Rightarrow> Node list \<Rightarrow> Node list" where
  "candidates_for c now wanted nodes = filter (\<lambda>n. may_serve c now n \<and> offers n wanted) nodes"

lemma scan_candidates:
  "snd (scan_nodes c now w ex cs nodes) = cs @ map (candidate_of c now w) (candidates_for c now w nodes)"
  by (induction nodes arbitrary: ex cs) (simp_all add: candidates_for_def Let_def classify_eligible)

lemma scan_excluded:
  "set (map nm_NodeID (fst (scan_nodes c now w ex cs nodes))) =
     set (map nm_NodeID ex) \<union> n_NodeID ` {n \<in> set nodes. \<not> may_serve c now n}"
  "distinct (map nm_NodeID ex) \<Longrightarrow> distinct (map nm_NodeID (fst (scan_nodes c now w ex cs nodes)))"
  "list_all (\<lambda>m. nm_Reasons m \<noteq> []) ex \<Longrightarrow>
     list_all (\<lambda>m. nm_Reasons m \<noteq> []) (fst (scan_nodes c now w ex cs nodes))"
  by (induction nodes arbitrary: ex cs)
    (auto simp: Let_def classify_eligible nodeMetadata_def classify_reasons)

definition placed :: "bool \<Rightarrow> gotime \<Rightarrow> string \<Rightarrow> Node list \<Rightarrow> candidateNode list" where
  "placed c now w nodes =
     SliceStable placement_less (map (candidate_of c now w) (candidates_for c now w nodes))"

text \<open>The first wanted model that some node can serve.\<close>

definition first_served :: "bool \<Rightarrow> gotime \<Rightarrow> Node list \<Rightarrow> string list \<Rightarrow> string option" where
  "first_served c now nodes ws = find (\<lambda>w. candidates_for c now w nodes \<noteq> []) ws"

lemma try_models_found:
  "snd (try_models c now nodes ex ws) =
     map_option (\<lambda>w. (w, placed c now w nodes)) (first_served c now nodes ws)"
  unfolding first_served_def
proof (induction ws arbitrary: ex)
  case (Cons w ws)
  then show ?case
    using scan_candidates [of c now w ex "[]" nodes] by (simp add: case_prod_unfold placed_def)
qed simp

lemma try_models_step:
  "fst (try_models c now nodes ex (w # ws)) =
    (if candidates_for c now w nodes \<noteq> [] then fst (scan_nodes c now w ex [] nodes)
     else fst (try_models c now nodes (fst (scan_nodes c now w ex [] nodes)) ws))"
  using scan_candidates [of c now w ex "[]" nodes] by (simp add: case_prod_unfold)

lemma try_models_ids:
  "set (map nm_NodeID (fst (try_models c now nodes ex ws))) =
     set (map nm_NodeID ex) \<union> (if ws = [] then {} else n_NodeID ` {n \<in> set nodes. \<not> may_serve c now n})"
proof (induction ws arbitrary: ex)
  case (Cons w ws)
  show ?case
    unfolding try_models_step
    using Cons.IH [of "fst (scan_nodes c now w ex [] nodes)"] scan_excluded(1) [of c now w ex "[]" nodes]
    by auto
qed simp

lemma try_models_distinct:
  "distinct (map nm_NodeID ex) \<Longrightarrow> distinct (map nm_NodeID (fst (try_models c now nodes ex ws)))"
proof (induction ws arbitrary: ex)
  case (Cons w ws)
  then show ?case unfolding try_models_step using scan_excluded(2) [of ex c now w "[]" nodes] by simp
qed simp

lemma try_models_reasons:
  "list_all (\<lambda>m. nm_Reasons m \<noteq> []) ex \<Longrightarrow>
     list_all (\<lambda>m. nm_Reasons m \<noteq> []) (fst (try_models c now nodes ex ws))"
proof (induction ws arbitrary: ex)
  case (Cons w ws)
  then show ?case unfolding try_models_step using scan_excluded(3) [of ex c now w "[]" nodes] by simp
qed simp

section \<open>Selection, unfolded\<close>

lemma initial_decision_fields [simp]:
  "d_CandidateNodes (initial_decision cfg req) = []" "d_FallbackNodes (initial_decision cfg req) = []"
  "d_SelectedNode (initial_decision cfg req) = []" "d_Reasons (initial_decision cfg req) = []"
  by (simp_all add: initial_decision_def Let_def case_prod_unfold split: option.split)

lemma initial_decision_consensus:
  "IsConsensusDecision (initial_decision cfg req) \<Longrightarrow> \<exists>mn mx.
     (d_ConsensusRequired (initial_decision cfg req), d_ConsensusLimit (initial_decision cfg req)) =
       consensusParticipantBounds mn mx"
  by (auto simp: initial_decision_def Let_def case_prod_unfold IsConsensusDecision_def split: if_splits)

lemma conclude_fields:
  "d_ExecutionMode (fst (conclude c d)) = d_ExecutionMode d" "d_Strategy (fst (conclude c d)) = d_Strategy d"
  "d_ResolvedModel (fst (conclude c d)) = d_ResolvedModel d"
  "d_ExcludedNodes (fst (conclude c d)) = d_ExcludedNodes d"
  "d_ConsensusRequired (fst (conclude c d)) = d_ConsensusRequired d"
  "d_ConsensusLimit (fst (conclude c d)) = d_ConsensusLimit d"
  "d_CandidateNodes (fst (conclude c d)) =
     (if c then take (nat (d_ConsensusLimit d)) (d_CandidateNodes d) else d_CandidateNodes d)"
  by (simp_all add: conclude_def Let_def)

lemma conclude_ok:
  "snd (conclude c d) \<longleftrightarrow>
     \<not> (c \<and> 0 < d_ConsensusRequired d \<and>
        int (min (length (d_CandidateNodes d)) (nat (d_ConsensusLimit d))) < d_ConsensusRequired d)"
  by (simp add: conclude_def Let_def min_def) linarith

lemma conclude_selected:
  "snd (conclude c d) \<Longrightarrow> d_FallbackNodes d = [] \<Longrightarrow>
     d_SelectedNode (fst (conclude c d)) = hd (d_CandidateNodes (fst (conclude c d))) \<and>
     d_FallbackNodes (fst (conclude c d)) = tl (d_CandidateNodes (fst (conclude c d)))"
  unfolding conclude_def Let_def by (auto split: if_splits)

definition consensus_request :: "Config \<Rightarrow> Request \<Rightarrow> bool" where
  "consensus_request cfg req = IsConsensusDecision (initial_decision cfg req)"

definition ranked :: "Config \<Rightarrow> State \<Rightarrow> Request \<Rightarrow> Node list" where
  "ranked cfg st req = SliceStable (node_less (consensus_request cfg req)) (pool cfg st)"

lemma set_ranked [simp]: "set (ranked cfg st req) = set (pool cfg st)"
  by (simp add: ranked_def)

lemma set_candidates: "set (candidates_for c now w nodes) = {n \<in> set nodes. may_serve c now n \<and> offers n w}"
  by (simp add: candidates_for_def)

lemma set_placed: "set (placed c now w nodes) = candidate_of c now w ` set (candidates_for c now w nodes)"
  by (simp add: placed_def)

lemma cn_node_candidate [simp]: "cn_node (candidate_of c now w n) = n"
  by (simp add: candidate_of_def Let_def)

lemma cn_placement_candidate [simp]: "cn_placement (candidate_of c now w n) = benchmarkPlacement n w now"
  by (simp add: candidate_of_def Let_def)

lemma mset_placed_nodes: "mset (map cn_node (placed c now w nodes)) = mset (candidates_for c now w nodes)"
proof -
  have "mset (map cn_node (placed c now w nodes)) =
      mset (map cn_node (map (candidate_of c now w) (candidates_for c now w nodes)))"
    unfolding placed_def mset_map mset_SliceStable ..
  then show ?thesis by (simp add: comp_def)
qed

lemma mset_candidates_ranked:
  "mset (candidates_for c now w (ranked cfg st req)) = mset (candidates_for c now w (pool cfg st))"
  by (simp add: candidates_for_def ranked_def)

lemma candidates_ranked:
  "candidates_for c now w (ranked cfg st req) = [] \<longleftrightarrow> candidates_for c now w (pool cfg st) = []"
  "length (candidates_for c now w (ranked cfg st req)) = length (candidates_for c now w (pool cfg st))"
  using mset_candidates_ranked [of c now w cfg st req] by (metis mset_zero_iff, metis size_mset)

lemma length_placed: "length (placed c now w nodes) = length (candidates_for c now w nodes)"
  by (simp add: placed_def)

lemma first_served_ranked:
  "first_served c now (ranked cfg st req) ws = first_served c now (pool cfg st) ws"
  by (simp add: first_served_def candidates_ranked)

text \<open>The number of participants of a consensus.\<close>

lemma consensus_bounds:
  assumes "consensus_request cfg req"
  shows "1 \<le> d_ConsensusRequired (initial_decision cfg req)"
    and "d_ConsensusRequired (initial_decision cfg req) \<le> d_ConsensusLimit (initial_decision cfg req)"
    and "d_ConsensusLimit (initial_decision cfg req) \<le> 8"
  using initial_decision_consensus [of cfg req] assms
  by (auto simp: consensus_request_def consensusParticipantBounds_def Let_def
      ConsensusDefaultMinParticipants_def ConsensusDefaultMaxParticipants_def
      ConsensusMaximumParticipants_def split: if_splits)

text \<open>The decision starts from \<open>initial_decision\<close>; the rest is decided by the first wanted model that
  some node can serve.\<close>

lemma Select_none:
  assumes "first_served (consensus_request cfg req) now (pool cfg st) (wanted_models cfg req) = None"
  shows "\<not> snd (Select now cfg st req)" "d_CandidateNodes (fst (Select now cfg st req)) = []"
    "d_ExcludedNodes (fst (Select now cfg st req)) =
       fst (try_models (consensus_request cfg req) now (ranked cfg st req) [] (wanted_models cfg req))"
proof -
  have "snd (try_models (consensus_request cfg req) now (ranked cfg st req) [] (wanted_models cfg req)) = None"
    using assms by (simp add: try_models_found first_served_ranked)
  then show "\<not> snd (Select now cfg st req)" "d_CandidateNodes (fst (Select now cfg st req)) = []"
    "d_ExcludedNodes (fst (Select now cfg st req)) =
       fst (try_models (consensus_request cfg req) now (ranked cfg st req) [] (wanted_models cfg req))"
    by (simp_all add: Select_def Let_def case_prod_unfold consensus_request_def ranked_def)
qed

lemma Select_some:
  assumes "first_served (consensus_request cfg req) now (pool cfg st) (wanted_models cfg req) = Some w"
  obtains d0 where "Select now cfg st req = conclude (consensus_request cfg req) d0" "d_ResolvedModel d0 = w"
    "d_CandidateNodes d0 = map (n_NodeID \<circ> cn_node) (placed (consensus_request cfg req) now w (ranked cfg st req))"
    "d_FallbackNodes d0 = []"
    "d_ConsensusRequired d0 = d_ConsensusRequired (initial_decision cfg req)"
    "d_ConsensusLimit d0 = d_ConsensusLimit (initial_decision cfg req)"
    "d_ExcludedNodes d0 =
      fst (try_models (consensus_request cfg req) now (ranked cfg st req) [] (wanted_models cfg req))"
proof -
  have "snd (try_models (consensus_request cfg req) now (ranked cfg st req) [] (wanted_models cfg req)) =
      Some (w, placed (consensus_request cfg req) now w (ranked cfg st req))"
    using assms by (simp add: try_models_found first_served_ranked)
  then show ?thesis
    by (intro that [of "(initial_decision cfg req)\<lparr>
        d_ExcludedNodes := fst (try_models (consensus_request cfg req) now (ranked cfg st req) [] (wanted_models cfg req)),
        d_ResolvedModel := w,
        d_CandidateNodes := map (n_NodeID \<circ> cn_node) (placed (consensus_request cfg req) now w (ranked cfg st req)),
        d_CandidateMetadata := map cn_metadata (placed (consensus_request cfg req) now w (ranked cfg st req)) \<rparr>"])
      (simp_all add: Select_def Let_def case_prod_unfold consensus_request_def ranked_def)
qed

lemma Select_ok:
  assumes "Select now cfg st req = (d, True)"
  shows "first_served (consensus_request cfg req) now (pool cfg st) (wanted_models cfg req) = Some (d_ResolvedModel d)"
    and "d_CandidateNodes d =
          (if consensus_request cfg req then take (nat (d_ConsensusLimit d)) else (\<lambda>x. x))
            (map (n_NodeID \<circ> cn_node)
              (placed (consensus_request cfg req) now (d_ResolvedModel d) (ranked cfg st req)))"
    and "d_SelectedNode d = hd (d_CandidateNodes d)" "d_FallbackNodes d = tl (d_CandidateNodes d)"
    and "consensus_request cfg req \<Longrightarrow> d_ConsensusRequired d \<le> int (length (d_CandidateNodes d))"
    and "d_ConsensusRequired d = d_ConsensusRequired (initial_decision cfg req)"
    and "d_ConsensusLimit d = d_ConsensusLimit (initial_decision cfg req)"
proof -
  let ?c = "consensus_request cfg req"
  obtain w where w: "first_served ?c now (pool cfg st) (wanted_models cfg req) = Some w"
    using assms Select_none(1) [of cfg req now st] by fastforce
  then obtain d0 where d0: "Select now cfg st req = conclude ?c d0" "d_ResolvedModel d0 = w"
    "d_CandidateNodes d0 = map (n_NodeID \<circ> cn_node) (placed ?c now w (ranked cfg st req))"
    "d_FallbackNodes d0 = []"
    "d_ConsensusRequired d0 = d_ConsensusRequired (initial_decision cfg req)"
    "d_ConsensusLimit d0 = d_ConsensusLimit (initial_decision cfg req)"
    by (rule Select_some)
  have c: "snd (conclude ?c d0)" "d = fst (conclude ?c d0)"
    using assms d0(1) by (metis snd_conv, metis fst_conv)
  note sel = conclude_selected [OF c(1) d0(4), folded c(2)]
  note fs = conclude_fields [of ?c d0, folded c(2)]
  show "first_served ?c now (pool cfg st) (wanted_models cfg req) = Some (d_ResolvedModel d)"
    "d_CandidateNodes d = (if ?c then take (nat (d_ConsensusLimit d)) else (\<lambda>x. x))
       (map (n_NodeID \<circ> cn_node) (placed ?c now (d_ResolvedModel d) (ranked cfg st req)))"
    "d_SelectedNode d = hd (d_CandidateNodes d)" "d_FallbackNodes d = tl (d_CandidateNodes d)"
    "d_ConsensusRequired d = d_ConsensusRequired (initial_decision cfg req)"
    "d_ConsensusLimit d = d_ConsensusLimit (initial_decision cfg req)"
    using w d0 fs sel by simp_all
  show "?c \<Longrightarrow> d_ConsensusRequired d \<le> int (length (d_CandidateNodes d))"
    using c(1) consensus_bounds(1) [of cfg req] d0(5) unfolding conclude_ok fs by (simp add: min.commute)
qed

lemma Select_candidates:
  assumes "Select now cfg st req = (d, True)"
  shows "set (d_CandidateNodes d) \<subseteq> n_NodeID ` set (candidates_for (consensus_request cfg req) now (d_ResolvedModel d) (pool cfg st))"
    and "d_CandidateNodes d \<noteq> []"
proof -
  note ok = Select_ok [OF assms]
  have sub: "set (d_CandidateNodes d) \<subseteq>
      set (map (n_NodeID \<circ> cn_node) (placed (consensus_request cfg req) now (d_ResolvedModel d) (ranked cfg st req)))"
    by (subst ok(2)) (auto dest: in_set_takeD)
  then show "set (d_CandidateNodes d) \<subseteq>
      n_NodeID ` set (candidates_for (consensus_request cfg req) now (d_ResolvedModel d) (pool cfg st))"
    by (auto simp: set_placed set_candidates)
  have "candidates_for (consensus_request cfg req) now (d_ResolvedModel d) (pool cfg st) \<noteq> []"
    using ok(1) by (auto simp: first_served_def find_Some_iff)
  then have "placed (consensus_request cfg req) now (d_ResolvedModel d) (ranked cfg st req) \<noteq> []"
    by (simp add: placed_def candidates_ranked)
  moreover have "consensus_request cfg req \<Longrightarrow> 0 < nat (d_ConsensusLimit d)"
    using consensus_bounds [of cfg req] ok(7) by simp
  ultimately show "d_CandidateNodes d \<noteq> []" by (subst ok(2)) auto
qed

lemma pool_ids_distinct:
  assumes "nodes_wf (st_Nodes st)" "distinct (map sub_NodeID (c_Subscribers cfg))"
  shows "distinct (map n_NodeID (pool cfg st))"
proof -
  have "map n_NodeID (map snd (st_Nodes st)) = map fst (st_Nodes st)"
    using assms(1) by (auto simp: nodes_wf_def)
  then have "distinct (map n_NodeID (map snd (st_Nodes st)))"
    using assms(1) by (simp only: nodes_wf_def gokeys_distinct_def)
  moreover have "distinct (map sub_NodeID (filter P (c_Subscribers cfg)))" for P
    using assms(2) by (rule distinct_map_filter)
  ultimately show ?thesis
    by (auto simp: pool_def Let_def configured_node_def comp_def image_iff)
qed

lemma placed_ids_distinct:
  assumes "distinct (map n_NodeID nodes)"
  shows "distinct (map (n_NodeID \<circ> cn_node) (placed c now w nodes))"
proof -
  have "mset (map (n_NodeID \<circ> cn_node) (placed c now w nodes)) = mset (map n_NodeID (candidates_for c now w nodes))"
    using mset_placed_nodes [of c now w nodes] by (metis map_map mset_map)
  moreover have "distinct (map n_NodeID (candidates_for c now w nodes))"
    using assms unfolding candidates_for_def by (rule distinct_map_filter)
  ultimately show ?thesis by (metis mset_eq_imp_distinct_iff)
qed

lemma ranked_ids_distinct:
  "distinct (map n_NodeID (pool cfg st)) \<Longrightarrow> distinct (map n_NodeID (ranked cfg st req))"
  unfolding ranked_def by (metis mset_SliceStable mset_map mset_eq_imp_distinct_iff)

text \<open>The ranking as a specification: a node with a usable benchmark comes before one without, a higher
  benchmark rate before a lower one, then the higher score, then the smaller identifier.\<close>

definition better :: "bool \<Rightarrow> gotime \<Rightarrow> string \<Rightarrow> Node \<Rightarrow> Node \<Rightarrow> bool" where
  "better c now w a b =
    (let pa = benchmarkPlacement a w now; pb = benchmarkPlacement b w now in
     if bp_Eligible pa \<noteq> bp_Eligible pb then bp_Eligible pa
     else if bp_Eligible pa \<and> bp_Score pa \<noteq> bp_Score pb then bp_Score pb < bp_Score pa
     else if score a c \<noteq> score b c then score b c < score a c
     else n_NodeID a < n_NodeID b)"

lemma placed_sorted:
  "sorted_wrt (\<lambda>a b. \<not> better c now w b a)
     (map cn_node (placed c now w (SliceStable (node_less c) nodes)))"
proof -
  let ?nodes = "SliceStable (node_less c) nodes"
  have "sorted_wrt (\<lambda>x y. \<not> node_less c y x) ?nodes"
    using nodes.sort_ordered [of c nodes] by (simp add: nodes.ordered_def)
  then have "sorted_wrt (\<lambda>x y. \<not> node_less c y x) (candidates_for c now w ?nodes)"
    unfolding candidates_for_def by (rule sorted_wrt_filter)
  then have "sorted_wrt (\<lambda>x y. \<not> node_less c (cn_node y) (cn_node x))
      (map (candidate_of c now w) (candidates_for c now w ?nodes))"
    by (simp add: sorted_wrt_map)
  from placement.sort_lexicographic [OF this]
  have "sorted_wrt (\<lambda>x y. \<not> placement_less y x \<and>
      (placement.eqv x y \<longrightarrow> \<not> node_less c (cn_node y) (cn_node x))) (placed c now w ?nodes)"
    by (simp add: placed_def)
  then have "sorted_wrt (\<lambda>x y. \<not> better c now w (cn_node y) (cn_node x)) (placed c now w ?nodes)"
  proof (rule sorted_wrt_mono_rel [rotated])
    fix x y
    assume xy: "x \<in> set (placed c now w ?nodes)" "y \<in> set (placed c now w ?nodes)"
      and lex: "\<not> placement_less y x \<and> (placement.eqv x y \<longrightarrow> \<not> node_less c (cn_node y) (cn_node x))"
    from xy obtain a b where "x = candidate_of c now w a" "y = candidate_of c now w b"
      by (auto simp: set_placed)
    with lex show "\<not> better c now w (cn_node y) (cn_node x)"
      by (auto simp: better_def node_less_def placement_less_def placement.eqv_def Let_def split: if_splits)
  qed
  then show ?thesis by (simp add: sorted_wrt_map)
qed

lemma pool_perm:
  assumes "nodes_wf (st_Nodes st)" "mset (st_Nodes st') = mset (st_Nodes st)"
  shows "SliceStable (node_less c) (pool cfg st') = SliceStable (node_less c) (pool cfg st)"
proof -
  have nodes: "mset (map snd (st_Nodes st')) = mset (map snd (st_Nodes st))"
    using assms(2) by simp
  then have set: "set (map snd (st_Nodes st')) = set (map snd (st_Nodes st))"
    by (metis set_mset_mset)
  have ids: "map n_NodeID (map snd (st_Nodes st)) = map fst (st_Nodes st)"
    using assms(1) by (auto simp: nodes_wf_def)
  then have d: "distinct (map n_NodeID (map snd (st_Nodes st)))"
    using assms(1) by (simp only: nodes_wf_def gokeys_distinct_def)
  have d': "distinct (map snd (st_Nodes st'))" "inj_on n_NodeID (set (map snd (st_Nodes st')))"
    using d nodes set by (metis distinct_map mset_eq_imp_distinct_iff)+
  show ?thesis
    unfolding pool_def Let_def set
  proof (rule nodes.sort_append_perm)
    show "mset (map snd (st_Nodes st')) = mset (map snd (st_Nodes st))" by (rule nodes)
    show "distinct (map snd (st_Nodes st'))" by (rule d'(1))
    show "x = y" if "x \<in> set (map snd (st_Nodes st'))" "y \<in> set (map snd (st_Nodes st'))" "nodes.eqv c x y" for x y
      using that d'(2) node_eqv_id by (auto dest: inj_onD)
  qed
qed

section \<open>Properties\<close>

text \<open>C1. Every candidate of a successful decision, in particular the selected node and every
  fallback, is a known node that is enabled, approved, not failed, not external, reporting within the last
  two minutes if a heartbeat is required of it, and offering the resolved model (or not reporting
  an inventory); for a consensus decision it is also managed and not on an unverified network. The
  selected node is the first candidate, the fallbacks are the others in order, and the resolved
  model is one that was asked for.\<close>

theorem select_sound:
  assumes "Select now cfg st req = (d, True)"
  shows "(\<forall>i \<in> set (d_CandidateNodes d). \<exists>n \<in> set (pool cfg st). n_NodeID n = i \<and>
            may_serve (consensus_request cfg req) now n \<and> offers n (d_ResolvedModel d)) \<and>
         d_CandidateNodes d = d_SelectedNode d # d_FallbackNodes d \<and>
         d_ResolvedModel d \<in> set (wanted_models cfg req)"
proof (intro conjI ballI)
  show "\<exists>n \<in> set (pool cfg st). n_NodeID n = i \<and>
          may_serve (consensus_request cfg req) now n \<and> offers n (d_ResolvedModel d)"
    if "i \<in> set (d_CandidateNodes d)" for i
    using subsetD [OF Select_candidates(1) [OF assms] that] by (auto simp: set_candidates)
  show "d_CandidateNodes d = d_SelectedNode d # d_FallbackNodes d"
    using Select_ok(3,4) [OF assms] Select_candidates(2) [OF assms] by simp
  show "d_ResolvedModel d \<in> set (wanted_models cfg req)"
    using Select_ok(1) [OF assms] by (auto simp: first_served_def find_Some_iff)
qed

lemma Select_iff:
  "snd (Select now cfg st req) \<longleftrightarrow>
     (case first_served (consensus_request cfg req) now (pool cfg st) (wanted_models cfg req) of
        None \<Rightarrow> False
      | Some w \<Rightarrow> (if consensus_request cfg req
          then d_ConsensusRequired (initial_decision cfg req)
             \<le> int (length (candidates_for True now w (pool cfg st)))
          else True))"
proof (cases "first_served (consensus_request cfg req) now (pool cfg st) (wanted_models cfg req)")
  case None
  then show ?thesis using Select_none(1) by simp
next
  case (Some w)
  then obtain d0 where d0: "Select now cfg st req = conclude (consensus_request cfg req) d0"
    "d_CandidateNodes d0 = map (n_NodeID \<circ> cn_node) (placed (consensus_request cfg req) now w (ranked cfg st req))"
    "d_ConsensusRequired d0 = d_ConsensusRequired (initial_decision cfg req)"
    "d_ConsensusLimit d0 = d_ConsensusLimit (initial_decision cfg req)"
    by (rule Select_some)
  have len: "length (d_CandidateNodes d0) = length (candidates_for (consensus_request cfg req) now w (pool cfg st))"
    unfolding d0(2) by (simp add: length_placed candidates_ranked)
  show ?thesis
    using consensus_bounds [of cfg req] unfolding d0(1) conclude_ok d0(3,4) len Some by auto
qed

text \<open>C26. When selection succeeds: exactly when some wanted model is offered by a node that may serve it and,
  for a consensus request, the first such model has enough of these nodes for the required number of
  participants. A later model is not considered, also when it has enough nodes.\<close>

theorem select_complete:
  "snd (Select now cfg st req) \<longleftrightarrow>
     (case first_served (consensus_request cfg req) now (pool cfg st) (wanted_models cfg req) of
        None \<Rightarrow> False
      | Some w \<Rightarrow> (if consensus_request cfg req
          then d_ConsensusRequired (initial_decision cfg req)
             \<le> int (length (candidates_for True now w (pool cfg st)))
          else True))"
  by (rule Select_iff)

text \<open>A consensus decision has at least the required and at most the permitted number of
  participants, the permitted number is at most eight, and the participants are distinct nodes.\<close>

theorem consensus_participants:
  assumes "Select now cfg st req = (d, True)" "consensus_request cfg req"
    and "nodes_wf (st_Nodes st)" "distinct (map sub_NodeID (c_Subscribers cfg))"
  shows "1 \<le> d_ConsensusRequired d \<and> d_ConsensusRequired d \<le> int (length (d_CandidateNodes d)) \<and>
    int (length (d_CandidateNodes d)) \<le> d_ConsensusLimit d \<and> d_ConsensusLimit d \<le> 8 \<and>
    distinct (d_CandidateNodes d)"
proof -
  note ok = Select_ok [OF assms(1)]
  have "distinct (map (n_NodeID \<circ> cn_node)
      (placed (consensus_request cfg req) now (d_ResolvedModel d) (ranked cfg st req)))"
    using assms(3,4) by (intro placed_ids_distinct ranked_ids_distinct pool_ids_distinct)
  then have "distinct (d_CandidateNodes d)"
    by (subst ok(2)) (simp add: assms(2))
  moreover have "int (length (d_CandidateNodes d)) \<le> d_ConsensusLimit d"
    using consensus_bounds [OF assms(2)] ok(7) by (subst ok(2)) (simp add: assms(2))
  ultimately show ?thesis using consensus_bounds [OF assms(2)] ok(5-7) assms(2) by simp
qed

text \<open>The candidates come in the order of the ranking: all nodes that may serve the resolved
  model, best first, cut to the participant limit for a consensus.\<close>

theorem select_ranking:
  assumes "Select now cfg st req = (d, True)"
  shows "\<exists>ns. mset ns = mset (candidates_for (consensus_request cfg req) now (d_ResolvedModel d) (pool cfg st)) \<and>
     sorted_wrt (\<lambda>a b. \<not> better (consensus_request cfg req) now (d_ResolvedModel d) b a) ns \<and>
     d_CandidateNodes d = (if consensus_request cfg req then take (nat (d_ConsensusLimit d)) (map n_NodeID ns)
                           else map n_NodeID ns)"
proof (intro exI conjI)
  let ?ns = "map cn_node (placed (consensus_request cfg req) now (d_ResolvedModel d) (ranked cfg st req))"
  show "mset ?ns = mset (candidates_for (consensus_request cfg req) now (d_ResolvedModel d) (pool cfg st))"
    by (simp only: mset_placed_nodes mset_candidates_ranked)
  show "sorted_wrt (\<lambda>a b. \<not> better (consensus_request cfg req) now (d_ResolvedModel d) b a) ?ns"
    unfolding ranked_def by (rule placed_sorted)
  show "d_CandidateNodes d = (if consensus_request cfg req then take (nat (d_ConsensusLimit d)) (map n_NodeID ?ns)
      else map n_NodeID ?ns)"
    by (subst Select_ok(2) [OF assms]) simp
qed

text \<open>The decision does not depend on the order in which Go visits the map of nodes: any
  permutation of the stored nodes gives the same decision, with the same candidates in the same order.\<close>

theorem select_deterministic:
  assumes "nodes_wf (st_Nodes st)" "mset nodes' = mset (st_Nodes st)"
  shows "Select now cfg (st\<lparr> st_Nodes := nodes' \<rparr>) req = Select now cfg st req"
  using pool_perm [OF assms(1), of "st\<lparr> st_Nodes := nodes' \<rparr>"] assms(2)
  by (simp add: Select_def Let_def)

text \<open>The list of excluded nodes accounts for every node that may not serve the request: each
  identifier of such a node is listed once, with a reason, and nothing else is listed.\<close>

theorem select_excluded:
  assumes "wanted_models cfg req \<noteq> []"
  shows "set (map nm_NodeID (d_ExcludedNodes (fst (Select now cfg st req)))) =
      n_NodeID ` {n \<in> set (pool cfg st). \<not> may_serve (consensus_request cfg req) now n} \<and>
    distinct (map nm_NodeID (d_ExcludedNodes (fst (Select now cfg st req)))) \<and>
    list_all (\<lambda>m. nm_Reasons m \<noteq> []) (d_ExcludedNodes (fst (Select now cfg st req)))"
proof -
  let ?t = "fst (try_models (consensus_request cfg req) now (ranked cfg st req) [] (wanted_models cfg req))"
  have "d_ExcludedNodes (fst (Select now cfg st req)) = ?t"
  proof (cases "first_served (consensus_request cfg req) now (pool cfg st) (wanted_models cfg req)")
    case None
    then show ?thesis by (rule Select_none)
  next
    case (Some w)
    then obtain d0 where "Select now cfg st req = conclude (consensus_request cfg req) d0" "d_ExcludedNodes d0 = ?t"
      by (rule Select_some)
    then show ?thesis by (simp add: conclude_fields)
  qed
  with assms show ?thesis
    using try_models_ids [of "consensus_request cfg req" now "ranked cfg st req" "[]" "wanted_models cfg req"]
    by (simp add: try_models_distinct try_models_reasons)
qed

text \<open>Benchmarks move a node in the ranking only if they can be trusted: the node is managed, local
  or on a trusted network, the result was reported by the subscriber, is less than a day old, and its
  rate is positive.\<close>

theorem benchmark_placement_trusted:
  assumes "bp_Eligible (benchmarkPlacement n model now)"
  shows "n_ControlLevel n \<noteq> ControlLevelPassive \<and>
    n_TrustLevel n \<notin> {TrustLevelExternal, TrustLevelLANUnverified} \<and>
    0 < bp_Score (benchmarkPlacement n model now) \<and>
    (\<exists>r t. latestBenchmarkResult n model = Some r \<and> resultSource r = CapabilitySourceSubscriberReported \<and>
       resultTime (field r ''completed_at'') \<in> {None, Some t} \<and> t \<noteq> 0 \<and> now - t \<le> 24 * hour)"
proof -
  have w: "BenchmarkPlacementFreshnessWindow < time_sub now t \<longleftrightarrow> 24 * hour < now - t" for t
    by (subst time_sub_greater) (simp_all add: BenchmarkPlacementFreshnessWindow_def duration_defs)
  let ?unfold = "benchmarkPlacement n model now"
  have control: "controlLevel n = ControlLevelManaged"
    using assms by (rule contrapos_pp) (simp add: benchmarkPlacement_def ignore_def del: controlLevel_eq)
  have trust: "trustLevel n \<in> {TrustLevelLocal, TrustLevelLANTrusted}"
    using assms by (rule contrapos_pp) (simp add: benchmarkPlacement_def ignore_def)
  have source: "benchmarkSource n = CapabilitySourceSubscriberReported"
    using assms by (rule contrapos_pp) (simp add: benchmarkPlacement_def ignore_def)
  have "(trustLevel n \<noteq> TrustLevelLocal \<and> n_TrustLevel n \<noteq> TrustLevelLANTrusted) = False"
    using trust by auto
  note guards = control this source
  obtain r where r: "latestBenchmarkResult n model = Some r"
    using assms by (cases "latestBenchmarkResult n model") (simp_all add: benchmarkPlacement_def ignore_def guards)
  have rs: "resultSource r = CapabilitySourceSubscriberReported"
    using assms by (rule contrapos_pp) (simp add: benchmarkPlacement_def ignore_def guards r Let_def)
  define done_at where "done_at = (case resultTime (field r ''completed_at'') of Some t \<Rightarrow> Some t
      | None \<Rightarrow> resultTime (field (n_Observed n) ''benchmark_updated_at''))"
  obtain t where t: "done_at = Some t"
    using assms
    by (cases done_at) (simp_all add: benchmarkPlacement_def ignore_def Let_def done_at_def guards r rs split: if_splits)
  have fresh: "t \<noteq> 0" "now - t \<le> 24 * hour" and rate: "0 < bp_Score ?unfold"
    using assms
    by (simp_all add: benchmarkPlacement_def ignore_def Let_def w not_less guards r rs t [unfolded done_at_def]
        split: if_splits)
  have "resultTime (field r ''completed_at'') \<in> {None, Some t}"
    using t by (auto simp: done_at_def split: option.splits)
  moreover have "n_TrustLevel n \<notin> {TrustLevelExternal, TrustLevelLANUnverified}"
    using trust by (auto simp: trustLevel_def split: if_splits)
  ultimately show ?thesis using control r rs fresh rate by auto
qed

lemma status_eqs:
  "routingStatusControlLevel n = controlLevel n" "routingStatusTrustLevel n = trustLevel n"
  "routingStatusHeartbeatRequired n = heartbeatRequired n"
  "routingStatusHeartbeatFreshness n now = heartbeatFreshness n now"
  "routingStatusApproved n = nodeApproved n"
  by (auto simp: routingStatusControlLevel_def controlLevel_def routingStatusTrustLevel_def trustLevel_def
      routingStatusHeartbeatRequired_def heartbeatRequired_def routingStatusHeartbeatFreshness_def
      heartbeatFreshness_def routingStatusApproved_def nodeApproved_def routingStatusApprovalState_def)

lemma ball_append_if:
  "(\<forall>x \<in> set ((if b then [a] else []) @ xs). P x) \<longleftrightarrow> (b \<longrightarrow> P a) \<and> (\<forall>x \<in> set xs. P x)"
  "(\<forall>x \<in> set (if b then [a] else []). P x) \<longleftrightarrow> (b \<longrightarrow> P a)"
  by auto

lemma warnings_scope:
  "(\<forall>w \<in> set (routingWarningsForNode n now). Q (rw_Scope w)) \<longleftrightarrow>
     (\<not> n_Enabled n \<or> \<not> nodeApproved n \<or> n_Status n = ''disabled'' \<or> n_Status n = ''failed'' \<or>
        (heartbeatRequired n \<and> heartbeatFreshness n now \<noteq> Fresh) \<or> trustLevel n = TrustLevelExternal
        \<longrightarrow> Q ''routing_and_consensus'') \<and>
     (controlLevel n = ControlLevelPassive \<or> trustLevel n = TrustLevelLANUnverified \<longrightarrow> Q ''consensus'') \<and>
     (trustLevel n = TrustLevelLANUnverified \<longrightarrow> Q ''routing'')"
proof -
  have fresh: "heartbeatFreshness n now \<noteq> Fresh \<longleftrightarrow>
      heartbeatFreshness n now = Missing \<or> heartbeatFreshness n now = Stale"
    by (cases "heartbeatFreshness n now") simp_all
  show ?thesis
    unfolding routingWarningsForNode_def Let_def ball_append_if status_eqs RoutingPolicyWarning.simps fresh
    by blast
qed

text \<open>The status page tells the operator exactly what routing does: a node may serve single
  requests if and only if the page shows no warning of scope \<^verbatim>\<open>routing_and_consensus\<close> for it, and may take
  part in a consensus if and only if there is also none of scope \<^verbatim>\<open>consensus\<close>.\<close>

theorem status_page_agrees:
  "(np_Eligible (classify n False now) \<longleftrightarrow>
      ''routing_and_consensus'' \<notin> rw_Scope ` set (routingWarningsForNode n now)) \<and>
   (np_Eligible (classify n True now) \<longleftrightarrow>
      rw_Scope ` set (routingWarningsForNode n now) \<inter> {''routing_and_consensus'', ''consensus''} = {})"
proof -
  have image: "''routing_and_consensus'' \<notin> rw_Scope ` A \<longleftrightarrow> (\<forall>w \<in> A. rw_Scope w \<noteq> ''routing_and_consensus'')"
    "rw_Scope ` A \<inter> {''routing_and_consensus'', ''consensus''} = {} \<longleftrightarrow>
      (\<forall>w \<in> A. rw_Scope w \<notin> {''routing_and_consensus'', ''consensus''})" for A
    by (auto simp: image_iff)
  show ?thesis
    unfolding image warnings_scope [where Q = "\<lambda>s. s \<noteq> ''routing_and_consensus''"]
      warnings_scope [where Q = "\<lambda>s. s \<notin> {''routing_and_consensus'', ''consensus''}"]
    by (cases "heartbeatFreshness n now") (auto simp: classify_def refuse_def)
qed

section \<open>Concrete decisions\<close>

definition sampleNode :: "string \<Rightarrow> Node" where
  "sampleNode i = normalizeNode 5 (zeroNode\<lparr> n_NodeID := i, n_Status := ''healthy'', n_Enabled := True,
     n_ApprovalState := ApprovalStateApproved,
     n_Models := [\<lparr> ms_Name = ''llama3.1:8b'', ms_State = [], ms_KeepWarm = False, ms_TokensSec = 0, ms_LoadTimeMS = 0 \<rparr>] \<rparr>)"

definition sampleState :: State where
  "sampleState = (fresh_state sampleEnv (Default ''marshal''))\<lparr>
     st_Nodes := [(''gpu-2'', sampleNode ''gpu-2''), (''gpu-1'', sampleNode ''gpu-1'')] \<rparr>"

definition sampleRequest :: Request where
  "sampleRequest = \<lparr> rq_Model = ''local-consensus'', rq_ExecutionMode = [], rq_SessionID = [],
     rq_Streaming = False, rq_TaskType = [] \<rparr>"

definition measuredNode :: Node where
  "measuredNode = (sampleNode ''gpu-1'')\<lparr> n_BenchmarkSource := CapabilitySourceSubscriberReported,
     n_Observed := [(''benchmark_results'', GMaps [[(''completed_at'', GTime 4), (''tokens_per_second'', GInt 40)]])] \<rparr>"

lemma sampleState_nodes_wf: "nodes_wf (st_Nodes sampleState)"
proof -
  have "node_wf (sampleNode i)" "n_NodeID (sampleNode i) = i" for i
    unfolding sampleNode_def
    by (simp_all add: node.clocked_wf)
      (simp add: normalizeNode_def normalize_times_def normalize_sources_def normalize_approval_def
        normalize_levels_def Let_def)
  then show ?thesis by (simp add: nodes_wf_def sampleState_def gokeys_distinct_def)
qed

lemma sample_selects: "Select 5 (Default ''marshal'') sampleState sampleRequest =
    (fst (Select 5 (Default ''marshal'') sampleState sampleRequest), True)"
proof -
  have "snd (Select 5 (Default ''marshal'') sampleState sampleRequest)" by code_simp
  then show ?thesis by (simp add: prod_eq_iff)
qed

lemma sample_consensus: "consensus_request (Default ''marshal'') sampleRequest"
  by code_simp

theorem select_sound_witness:
  "\<exists>n \<in> set (pool (Default ''marshal'') sampleState).
     n_NodeID n = d_SelectedNode (fst (Select 5 (Default ''marshal'') sampleState sampleRequest)) \<and> may_serve True 5 n"
  using select_sound [OF sample_selects] sample_consensus by (metis list.set_intros(1))

theorem consensus_participants_witness:
  "distinct (d_CandidateNodes (fst (Select 5 (Default ''marshal'') sampleState sampleRequest)))"
  using consensus_participants [OF sample_selects sample_consensus sampleState_nodes_wf]
  by (simp add: Default_def)

theorem select_ranking_witness:
  "\<exists>ns. mset ns = mset (candidates_for True 5 ''llama3.1:8b'' (pool (Default ''marshal'') sampleState)) \<and>
     take 4 (map n_NodeID ns) = [''gpu-1'', ''gpu-2'']"
proof -
  have "d_ResolvedModel (fst (Select 5 (Default ''marshal'') sampleState sampleRequest)) = ''llama3.1:8b''"
    "d_CandidateNodes (fst (Select 5 (Default ''marshal'') sampleState sampleRequest)) = [''gpu-1'', ''gpu-2'']"
    "d_ConsensusLimit (fst (Select 5 (Default ''marshal'') sampleState sampleRequest)) = 4"
    by code_simp+
  with select_ranking [OF sample_selects] sample_consensus show ?thesis by auto
qed

theorem select_deterministic_witness:
  "Select 5 (Default ''marshal'') (sampleState\<lparr> st_Nodes := rev (st_Nodes sampleState) \<rparr>) sampleRequest =
   Select 5 (Default ''marshal'') sampleState sampleRequest"
  by (rule select_deterministic [OF sampleState_nodes_wf]) simp

theorem select_excluded_witness:
  "set (map nm_NodeID (d_ExcludedNodes (fst (Select 5 (Default ''marshal'') sampleState sampleRequest)))) =
     n_NodeID ` {n \<in> set (pool (Default ''marshal'') sampleState). \<not> may_serve True 5 n}"
proof -
  have "wanted_models (Default ''marshal'') sampleRequest \<noteq> []" by code_simp
  from select_excluded [OF this, of 5 sampleState] sample_consensus show ?thesis by simp
qed

theorem benchmark_placement_trusted_witness:
  "0 < bp_Score (benchmarkPlacement measuredNode ''llama3.1:8b'' 5)"
proof -
  have "bp_Eligible (benchmarkPlacement measuredNode ''llama3.1:8b'' 5)" by code_simp
  from benchmark_placement_trusted [OF this] show ?thesis by simp
qed

end
