(* ===== verification/Affinity.thy ===== *)
theory Affinity
  imports Routing
begin

text \<open>
  Package \<^verbatim>\<open>internal/session\<close>, which may replace the node of a decision by the one the session used
  before, and package \<^verbatim>\<open>internal/telemetry\<close>, which turns every event of the program into an entry of
  the audit trail. Both run against the store.
\<close>

section \<open>Session affinity\<close>

definition contains :: "string list \<Rightarrow> string \<Rightarrow> bool" where
  "contains nodes nodeID \<longleftrightarrow> nodeID \<in> set nodes"

definition ApplyAffinity ::
  "env \<Rightarrow> Store \<Rightarrow> string \<Rightarrow> string \<Rightarrow> string \<Rightarrow> string \<Rightarrow> string \<Rightarrow> string list \<Rightarrow> string \<times> Store" where
  "ApplyAffinity e store sessionID affinity decisionNode model requestID eligibleNodes =
    (if sessionID = [] \<or> affinity = ''none'' then (decisionNode, store)
     else
       let node = (case session_of store sessionID of
             None \<Rightarrow> decisionNode
           | Some existing \<Rightarrow>
               if se_NodeID existing \<noteq> [] \<and> affinity \<in> {''soft'', ''strict'', ''task''} then
                 (if affinity \<in> {''strict'', ''task''} \<and> contains eligibleNodes (se_NodeID existing)
                  then se_NodeID existing else decisionNode)
               else decisionNode)
       in (node, snd (UpdateSession e \<lparr> se_SessionID = sessionID, se_AffinityMode = affinity, se_NodeID = node,
             se_Model = model, se_LastRequestID = requestID, se_UpdatedAt = 0 \<rparr> store)))"

section \<open>Telemetry\<close>

text \<open>\<open>send\<close> is the result of the HEC client, \<^term>\<open>None\<close> for no error; it is \<^verbatim>\<open>nil\<close> when no client was
  created. The sink has the configuration it was created with.\<close>

record Sink =
  sk_cfg :: Config
  sk_client :: bool

definition NewSink :: "Config \<Rightarrow> Sink" where
  "NewSink cfg = \<lparr> sk_cfg = cfg, sk_client = h_Enabled (t_SplunkHEC (c_Telemetry cfg)) \<rparr>"

definition stringField :: "gobj \<Rightarrow> string \<Rightarrow> string" where
  "stringField fs key = as_string (field fs key)"

definition eventFields :: "env \<Rightarrow> Sink \<Rightarrow> string \<Rightarrow> gobj \<Rightarrow> gobj" where
  "eventFields e sink eventType fs =
    (let f = goput ''timestamp'' (GStr (format_time (e_now e))) fs;
         f = goput ''event_type'' (GStr eventType) f;
         f = goput ''version'' (GStr (c_Version (sk_cfg sink))) f;
         f = (if has_key f ''privacy_mode'' then f else goput ''privacy_mode'' (GStr ''local_first'') f)
     in godelete ''response'' (godelete ''messages'' (godelete ''prompt'' f)))"

definition auditEvent :: "string \<Rightarrow> string \<Rightarrow> string \<Rightarrow> gobj \<Rightarrow> AuditEvent" where
  "auditEvent ty req message fs =
    \<lparr> ae_Timestamp = 0, ae_Type = ty, ae_RequestID = req, ae_Message = message, ae_Fields = fs \<rparr>"

definition Emit :: "env \<Rightarrow> Sink \<Rightarrow> string option \<Rightarrow> string \<Rightarrow> gobj \<Rightarrow> Store \<Rightarrow> Store" where
  "Emit e sink send eventType fs store =
    (let f = eventFields e sink eventType fs;
         s = AddAudit e (auditEvent eventType (stringField f ''request_id'') eventType f) store
     in case (sk_client sink, send) of
          (True, Some err) \<Rightarrow> AddAudit e (auditEvent ''hec_error'' [] err []) s
        | _ \<Rightarrow> s)"

section \<open>Lemmas\<close>

lemma AddAudit_state [simp]:
  "st_Nodes (s_state (AddAudit e ev s)) = st_Nodes (s_state s)"
  "st_Sessions (s_state (AddAudit e ev s)) = st_Sessions (s_state s)"
  "st_ClientAPIKeys (s_state (AddAudit e ev s)) = st_ClientAPIKeys (s_state s)"
  "st_EnrollmentQueue (s_state (AddAudit e ev s)) = st_EnrollmentQueue (s_state s)"
  "st_Config (s_state (AddAudit e ev s)) = st_Config (s_state s)"
  "st_Audit (s_state (AddAudit e ev s)) = pushAudit (ev\<lparr> ae_Timestamp := e_now e \<rparr>) (st_Audit (s_state s))"
  by (simp_all add: AddAudit_def)

lemma Emit_state [simp]:
  "st_Nodes (s_state (Emit e k send ty f s)) = st_Nodes (s_state s)"
  "st_Sessions (s_state (Emit e k send ty f s)) = st_Sessions (s_state s)"
  "st_ClientAPIKeys (s_state (Emit e k send ty f s)) = st_ClientAPIKeys (s_state s)"
  "st_EnrollmentQueue (s_state (Emit e k send ty f s)) = st_EnrollmentQueue (s_state s)"
  "st_Config (s_state (Emit e k send ty f s)) = st_Config (s_state s)"
  by (simp_all add: Emit_def Let_def split: bool.split option.split)

lemma Emit_wf: "store_wf s \<Longrightarrow> store_wf (Emit e k send ty f s)"
  by (simp add: Emit_def Let_def AddAudit_wf split: bool.split option.split)

lemma UpdateSession_get:
  "se_SessionID v \<noteq> [] \<Longrightarrow> session_of (snd (UpdateSession e v s)) i =
     (if i = se_SessionID v then Some (v\<lparr> se_UpdatedAt := e_now e \<rparr>) else session_of s i)"
  by (simp add: session_of_def UpdateSession_def Let_def)

lemma ApplyAffinity_node:
  "fst (ApplyAffinity e s sid aff node model req elig) =
     (case session_of s sid of
        Some old \<Rightarrow> if sid \<noteq> [] \<and> aff \<in> {''strict'', ''task''} \<and> se_NodeID old \<noteq> [] \<and> se_NodeID old \<in> set elig
                    then se_NodeID old else node
      | None \<Rightarrow> node)"
  by (auto simp: ApplyAffinity_def Let_def contains_def split: option.split)

lemma ApplyAffinity_records:
  "sid \<noteq> [] \<Longrightarrow> aff \<noteq> ''none'' \<Longrightarrow>
     \<exists>v. session_of (snd (ApplyAffinity e s sid aff node model req elig)) sid = Some v \<and>
         se_NodeID v = fst (ApplyAffinity e s sid aff node model req elig) \<and> se_AffinityMode v = aff"
  by (simp add: ApplyAffinity_def Let_def UpdateSession_get)

lemma ApplyAffinity_wf: "store_wf s \<Longrightarrow> store_wf (snd (ApplyAffinity e s sid aff node model req elig))"
  by (simp add: ApplyAffinity_def Let_def UpdateSession_wf)

section \<open>Properties\<close>

text \<open>Affinity never leaves the policy: applied to a successful decision, it returns one of the
  candidates of that decision, whatever node the session used before.\<close>

theorem affinity_stays_eligible:
  assumes "Select now cfg st req = (d, True)"
  shows "fst (ApplyAffinity e s sid aff (d_SelectedNode d) model rid (d_CandidateNodes d)) \<in> set (d_CandidateNodes d)"
  using Select_ok(3) [OF assms] Select_candidates(2) [OF assms]
  by (auto simp: ApplyAffinity_node split: option.split)

text \<open>A strict or task session keeps its node: as long as the node it used last stays among the
  eligible nodes and nothing else writes the session, any sequence of further requests of the
  session, whatever routing proposes, is sent to the same node.\<close>

fun affinity_run :: "string \<Rightarrow> string \<Rightarrow> (env \<times> string \<times> string list) list \<Rightarrow> Store \<Rightarrow> string list \<times> Store" where
  "affinity_run sid aff [] s = ([], s)"
| "affinity_run sid aff ((e, node, elig) # rs) s =
    (let (n, s1) = ApplyAffinity e s sid aff node [] [] elig; (ns, s2) = affinity_run sid aff rs s1
     in (n # ns, s2))"

theorem strict_affinity_sticks:
  assumes "aff \<in> {''strict'', ''task''}" "sid \<noteq> []" "session_of s sid = Some v" "se_NodeID v = n" "n \<noteq> []"
    and "\<forall>(e, node, elig) \<in> set rs. n \<in> set elig"
  shows "fst (affinity_run sid aff rs s) = replicate (length rs) n"
  using assms(3,4,6)
proof (induction rs arbitrary: s v)
  case (Cons r rs)
  obtain e node elig where r: "r = (e, node, elig)" by (metis prod_cases3)
  let ?A = "ApplyAffinity e s sid aff node [] [] elig"
  have n: "fst ?A = n" using Cons.prems assms(1,2,5) r by (simp add: ApplyAffinity_node)
  moreover have "aff \<noteq> ''none''" using assms(1) by auto
  ultimately obtain v' where "session_of (snd ?A) sid = Some v'" "se_NodeID v' = n"
    using ApplyAffinity_records [OF assms(2)] by blast
  with Cons.IH [of "snd ?A" v'] Cons.prems(3) n show ?case
    by (simp add: r case_prod_unfold)
qed simp

text \<open>Whatever an event carries, no prompt, message or response body reaches the audit trail: the
  newest entry has none of these fields and has the type of the event; at most one further entry, for
  a failed HEC delivery, is added with it, and the trail stays within its cap.\<close>

theorem emit_redacts:
  "\<exists>ev errs. st_Audit (s_state (Emit e sink send eventType fs s)) = take 250 (errs @ ev # st_Audit (s_state s)) \<and>
     length errs \<le> 1 \<and> ae_Type ` set errs \<subseteq> {''hec_error''} \<and> ae_Fields ` set errs \<subseteq> {[]} \<and>
     ae_Type ev = eventType \<and> ae_Timestamp ev = e_now e \<and>
     goget (ae_Fields ev) ''prompt'' = None \<and> goget (ae_Fields ev) ''messages'' = None \<and>
     goget (ae_Fields ev) ''response'' = None"
proof -
  let ?f = "eventFields e sink eventType fs"
  let ?ev = "(auditEvent eventType (stringField ?f ''request_id'') eventType ?f)\<lparr> ae_Timestamp := e_now e \<rparr>"
  let ?err = "\<lambda>m. (auditEvent ''hec_error'' [] m [])\<lparr> ae_Timestamp := e_now e \<rparr>"
  have ev: "ae_Type ?ev = eventType" "ae_Timestamp ?ev = e_now e" "goget (ae_Fields ?ev) ''prompt'' = None"
    "goget (ae_Fields ?ev) ''messages'' = None" "goget (ae_Fields ?ev) ''response'' = None"
    by (simp_all add: auditEvent_def eventFields_def Let_def)
  have "st_Audit (s_state (Emit e sink send eventType fs s)) =
      take 250 ((case (sk_client sink, send) of (True, Some m) \<Rightarrow> [?err m] | _ \<Rightarrow> []) @ ?ev # st_Audit (s_state s))"
    by (auto simp: Emit_def Let_def audit.push_eq take_Cons' split: bool.split option.split)
  with ev show ?thesis
    by (intro exI [of _ ?ev] exI [of _ "case (sk_client sink, send) of (True, Some m) \<Rightarrow> [?err m] | _ \<Rightarrow> []"])
      (auto simp: auditEvent_def split: bool.split option.split)
qed

section \<open>Concrete runs\<close>

definition pinnedStore :: Store where
  "pinnedStore = snd (ApplyAffinity sampleEnv sampleStore ''chat-1'' ''strict'' ''gpu-1'' [] [] [''gpu-1''])"

theorem affinity_stays_eligible_witness:
  "fst (ApplyAffinity sampleEnv pinnedStore ''chat-1'' ''strict''
      (d_SelectedNode (fst (Select 5 (Default ''marshal'') sampleState sampleRequest))) [] []
      (d_CandidateNodes (fst (Select 5 (Default ''marshal'') sampleState sampleRequest))))
    \<in> set (d_CandidateNodes (fst (Select 5 (Default ''marshal'') sampleState sampleRequest)))"
  by (rule affinity_stays_eligible [OF sample_selects])

theorem strict_affinity_sticks_witness:
  "fst (affinity_run ''chat-1'' ''strict''
     [(sampleEnv, ''gpu-2'', [''gpu-2'', ''gpu-1'']), (sampleEnv, ''gpu-3'', [''gpu-1'', ''gpu-3''])] pinnedStore)
   = [''gpu-1'', ''gpu-1'']"
proof -
  obtain v where "session_of pinnedStore ''chat-1'' = Some v"
    "se_NodeID v = fst (ApplyAffinity sampleEnv sampleStore ''chat-1'' ''strict'' ''gpu-1'' [] [] [''gpu-1''])"
    using ApplyAffinity_records [of "''chat-1''" "''strict''"] unfolding pinnedStore_def by blast
  moreover have "fst (ApplyAffinity sampleEnv sampleStore ''chat-1'' ''strict'' ''gpu-1'' [] [] [''gpu-1'']) = ''gpu-1''"
    by (auto simp: ApplyAffinity_node split: option.split)
  ultimately show ?thesis
    using strict_affinity_sticks [of "''strict''" "''chat-1''" pinnedStore v "''gpu-1''"
        "[(sampleEnv, ''gpu-2'', [''gpu-2'', ''gpu-1'']), (sampleEnv, ''gpu-3'', [''gpu-1'', ''gpu-3''])]"]
    by simp
qed

end
