(* ===== verification/ConsensusEngine.thy ===== *)
theory ConsensusEngine
  imports GoValue
begin

text \<open>
  Package \<^verbatim>\<open>internal/consensus\<close>: grouping the answers of several nodes by a signature, choosing the
  winning group and the winning answer in it. The JSON decoder (with \<^verbatim>\<open>UseNumber\<close>, reading the first value of
  its input) and the JSON encoder are parameters, as are the validator and the evaluator, which are
  interfaces in the source.
\<close>

section \<open>Signatures\<close>

datatype json =
    JNull
  | JBool bool
  | JNumber string
  | JString string
  | JArray "json list"
  | JObject "(string \<times> json) list"

record codec =
  decode :: "string \<Rightarrow> json option"
  marshal :: "json \<Rightarrow> string option"

record Candidate =
  cd_NodeID :: string
  cd_Body :: string

definition StrategyExactNormalized :: string where "StrategyExactNormalized = ''exact_normalized''"
definition StrategyJSONStructural :: string where "StrategyJSONStructural = ''json_structural''"

definition looksLikeJSON :: "string \<Rightarrow> bool" where
  "looksLikeJSON v \<longleftrightarrow> (HasPrefix v ''{'' \<and> HasSuffix v ''}'') \<or> (HasPrefix v ''['' \<and> HasSuffix v '']'')"

fun Fields_from :: "string \<Rightarrow> string \<Rightarrow> string list" where
  "Fields_from w [] = (if w = [] then [] else [w])"
| "Fields_from w (c # s) =
    (if is_space c then (if w = [] then Fields_from [] s else w # Fields_from [] s)
     else Fields_from (w @ [c]) s)"

definition Fields :: "string \<Rightarrow> string list" where
  "Fields s = Fields_from [] s"

fun Join :: "string \<Rightarrow> string list \<Rightarrow> string" where
  "Join sep [] = []"
| "Join sep [x] = x"
| "Join sep (x # y # ys) = x @ sep @ Join sep (y # ys)"

definition normalizeText :: "string \<Rightarrow> string" where
  "normalizeText v = ToLower (Join '' '' (Fields v))"

definition member_of :: "json \<Rightarrow> string \<Rightarrow> json" where
  "member_of j k = (case j of JObject m \<Rightarrow> (case goget m k of Some v \<Rightarrow> v | None \<Rightarrow> JNull) | _ \<Rightarrow> JNull)"

definition first_choice :: "json \<Rightarrow> json" where
  "first_choice payload =
    (case member_of payload ''choices'' of
       JArray (JObject c # _) \<Rightarrow> JObject c
     | _ \<Rightarrow> JNull)"

definition responseContent :: "codec \<Rightarrow> string \<Rightarrow> string \<Rightarrow> string \<times> bool" where
  "responseContent js body surface =
    (case decode js body of
       Some (JObject m) \<Rightarrow>
        (let payload = JObject m;
             val = (if surface = ''openai_chat_completions''
                    then member_of (member_of (first_choice payload) ''message'') ''content''
                    else if surface = ''openai_completions'' then member_of (first_choice payload) ''text''
                    else if surface = ''ollama_chat'' then member_of (member_of payload ''message'') ''content''
                    else if surface = ''ollama_generate'' then member_of payload ''response''
                    else payload);
             whole = (case marshal js payload of Some c \<Rightarrow> (c, True) | None \<Rightarrow> (body, False))
         in case val of
              JString text \<Rightarrow> (TrimSpace text, looksLikeJSON (TrimSpace text))
            | JNull \<Rightarrow> whole
            | v \<Rightarrow> (case marshal js v of Some c \<Rightarrow> (c, True) | None \<Rightarrow> whole))
     | Some JNull \<Rightarrow> (case marshal js JNull of Some c \<Rightarrow> (c, True) | None \<Rightarrow> (body, False))
     | _ \<Rightarrow> (body, False))"

definition responseSignature :: "codec \<Rightarrow> string \<Rightarrow> string \<Rightarrow> string \<times> string" where
  "responseSignature js body surface =
    (let (content, structured) = responseContent js body surface;
         text = (''text:'' @ normalizeText content, StrategyExactNormalized)
     in if structured then
          (case decode js content of
             Some v \<Rightarrow> (case marshal js v of Some c \<Rightarrow> (''json:'' @ c, StrategyJSONStructural) | None \<Rightarrow> text)
           | None \<Rightarrow> text)
        else text)"

section \<open>The engine\<close>

record Engine =
  en_codec :: codec
  en_Validator :: "(string \<Rightarrow> Candidate \<Rightarrow> bool) option"
  en_Evaluator :: "(string \<Rightarrow> Candidate \<Rightarrow> rat) option"

record candidateScore =
  cs_candidate :: Candidate
  cs_signature :: string
  cs_strategy :: string
  cs_validatorPassed :: bool
  cs_evaluatorScore :: rat
  cs_index :: nat

record agreementGroup =
  ag_members :: "candidateScore list"
  ag_firstIndex :: nat
  ag_strategy :: string
  ag_validatorPassed :: bool
  ag_evaluatorScore :: rat

record Result =
  rr_Winner :: Candidate
  rr_AgreementScore :: rat
  rr_AgreementCount :: nat
  rr_CandidateCount :: nat
  rr_ConsensusReached :: bool
  rr_Disagreement :: bool
  rr_Strategy :: string
  rr_ValidatorPassed :: bool
  rr_EvaluatorScore :: rat

definition betterGroup :: "agreementGroup \<Rightarrow> agreementGroup \<Rightarrow> bool" where
  "betterGroup candidate current =
    (if length (ag_members candidate) \<noteq> length (ag_members current)
     then length (ag_members candidate) > length (ag_members current)
     else if ag_validatorPassed candidate \<noteq> ag_validatorPassed current then ag_validatorPassed candidate
     else if ag_evaluatorScore candidate \<noteq> ag_evaluatorScore current
     then ag_evaluatorScore candidate > ag_evaluatorScore current
     else ag_firstIndex candidate < ag_firstIndex current)"

definition scored :: "Engine \<Rightarrow> string \<Rightarrow> nat \<Rightarrow> Candidate \<Rightarrow> candidateScore" where
  "scored e surface index candidate =
    (let (signature, strategy) = responseSignature (en_codec e) (cd_Body candidate) surface in
     \<lparr> cs_candidate = candidate, cs_signature = signature, cs_strategy = strategy,
       cs_validatorPassed = (case en_Validator e of None \<Rightarrow> False | Some f \<Rightarrow> f surface candidate),
       cs_evaluatorScore = (case en_Evaluator e of None \<Rightarrow> 0 | Some f \<Rightarrow> f surface candidate),
       cs_index = index \<rparr>)"

text \<open>One round of the grouping loop; the groups are listed in the order of their first member, which is the
  slice \<^verbatim>\<open>order\<close> of the source.\<close>

definition add_to_group :: "candidateScore \<Rightarrow> (string, agreementGroup) gomap \<Rightarrow> (string, agreementGroup) gomap" where
  "add_to_group s groups =
    (let group = (case goget groups (cs_signature s) of
           Some g \<Rightarrow> g
         | None \<Rightarrow> \<lparr> ag_members = [], ag_firstIndex = cs_index s, ag_strategy = cs_strategy s,
                     ag_validatorPassed = False, ag_evaluatorScore = 0 \<rparr>)
     in goput (cs_signature s) (group\<lparr> ag_members := ag_members group @ [s],
          ag_validatorPassed := (ag_validatorPassed group \<or> cs_validatorPassed s),
          ag_evaluatorScore := (if ag_evaluatorScore group < cs_evaluatorScore s then cs_evaluatorScore s
                                else ag_evaluatorScore group) \<rparr>) groups)"

definition better_member :: "candidateScore \<Rightarrow> candidateScore \<Rightarrow> bool" where
  "better_member member winner \<longleftrightarrow>
     (cs_validatorPassed member \<and> \<not> cs_validatorPassed winner) \<or>
     (cs_validatorPassed member = cs_validatorPassed winner \<and> cs_evaluatorScore winner < cs_evaluatorScore member)"

definition Evaluate :: "Engine \<Rightarrow> string \<Rightarrow> Candidate list \<Rightarrow> Result" where
  "Evaluate e surface candidates =
    (if candidates = [] then
       \<lparr> rr_Winner = \<lparr> cd_NodeID = [], cd_Body = [] \<rparr>, rr_AgreementScore = 0, rr_AgreementCount = 0,
         rr_CandidateCount = 0, rr_ConsensusReached = False, rr_Disagreement = False, rr_Strategy = [],
         rr_ValidatorPassed = False, rr_EvaluatorScore = 0 \<rparr>
     else
       let groups = fold (\<lambda>(i, c). add_to_group (scored e surface i c)) (enumerate 0 candidates) [];
           ordered = map snd groups;
           winner = foldl (\<lambda>w c. if betterGroup c w then c else w) (hd ordered) (tl ordered);
           member = foldl (\<lambda>w m. if better_member m w then m else w) (hd (ag_members winner)) (tl (ag_members winner))
       in \<lparr> rr_Winner = cs_candidate member,
            rr_AgreementScore = of_nat (length (ag_members winner)) / of_nat (length candidates),
            rr_AgreementCount = length (ag_members winner),
            rr_CandidateCount = length candidates,
            rr_ConsensusReached = (length (ag_members winner) \<ge> 2 \<and> length (ag_members winner) * 2 > length candidates),
            rr_Disagreement = (1 < length groups),
            rr_Strategy = ag_strategy winner,
            rr_ValidatorPassed = cs_validatorPassed member,
            rr_EvaluatorScore = cs_evaluatorScore member \<rparr>)"

section \<open>Groups\<close>

interpretation group: weak_order betterGroup
  by unfold_locales (auto simp: betterGroup_def split: if_splits)

interpretation answer: weak_order better_member
  by unfold_locales (auto simp: better_member_def)

text \<open>What a group is, independently of the loop that builds it.\<close>

definition members_of :: "candidateScore list \<Rightarrow> string \<Rightarrow> candidateScore list" where
  "members_of ss sig = filter (\<lambda>s. cs_signature s = sig) ss"

definition group_of :: "candidateScore list \<Rightarrow> string \<Rightarrow> agreementGroup" where
  "group_of ss sig =
    \<lparr> ag_members = members_of ss sig, ag_firstIndex = cs_index (hd (members_of ss sig)),
      ag_strategy = cs_strategy (hd (members_of ss sig)),
      ag_validatorPassed = list_ex cs_validatorPassed (members_of ss sig),
      ag_evaluatorScore = foldl (\<lambda>a s. if a < cs_evaluatorScore s then cs_evaluatorScore s else a) 0 (members_of ss sig) \<rparr>"

lemma members_of_snoc:
  "members_of (ss @ [s]) sig = (if cs_signature s = sig then members_of ss sig @ [s] else members_of ss sig)"
  by (simp add: members_of_def)

lemma members_of_Nil: "members_of ss sig = [] \<longleftrightarrow> sig \<notin> cs_signature ` set ss"
  by (auto simp: members_of_def filter_empty_conv)

lemma group_of_other: "cs_signature s \<noteq> sig \<Longrightarrow> group_of (ss @ [s]) sig = group_of ss sig"
  by (simp add: group_of_def members_of_snoc)

lemma groups_built:
  "gokeys_distinct (fold add_to_group ss []) \<and>
   (\<forall>sig. goget (fold add_to_group ss []) sig =
      (if sig \<in> cs_signature ` set ss then Some (group_of ss sig) else None))"
proof (induction ss rule: rev_induct)
  case Nil
  show ?case by (simp add: gokeys_distinct_def)
next
  case (snoc s ss)
  let ?g = "fold add_to_group ss []"
  let ?sig = "cs_signature s"
  have IH: "gokeys_distinct ?g"
    "\<And>sig. goget ?g sig = (if sig \<in> cs_signature ` set ss then Some (group_of ss sig) else None)"
    using snoc by auto
  have "goget (add_to_group s ?g) ?sig = Some (group_of (ss @ [s]) ?sig)"
  proof (cases "?sig \<in> cs_signature ` set ss")
    case True
    then have "members_of ss ?sig \<noteq> []" by (simp add: members_of_Nil)
    with True show ?thesis
      by (simp add: add_to_group_def Let_def IH(2) group_of_def members_of_snoc)
  next
    case False
    then have "members_of ss ?sig = []" by (simp add: members_of_Nil)
    with False show ?thesis
      by (simp add: add_to_group_def Let_def IH(2) group_of_def members_of_snoc)
  qed
  moreover have "goget (add_to_group s ?g) sig = goget ?g sig" if "sig \<noteq> ?sig" for sig
    using that by (simp add: add_to_group_def Let_def)
  moreover have "gokeys_distinct (add_to_group s ?g)"
    using IH(1) by (simp add: add_to_group_def Let_def gm.invar_update)
  moreover have "goget (add_to_group s ?g) sig =
      (if sig \<in> cs_signature ` set (ss @ [s]) then Some (group_of (ss @ [s]) sig) else None)" for sig
    using calculation(1,2) by (cases "sig = ?sig") (auto simp: IH(2) group_of_other)
  ultimately show ?case by simp
qed

lemma groups_values:
  "snd ` set (fold add_to_group ss []) = group_of ss ` cs_signature ` set ss"
  "fst ` set (fold add_to_group ss []) = cs_signature ` set ss"
proof -
  have "(k, v) \<in> set (fold add_to_group ss []) \<longleftrightarrow> k \<in> cs_signature ` set ss \<and> v = group_of ss k" for k v
    using groups_built [of ss] by (simp add: goget_set split: if_splits) blast
  then show "snd ` set (fold add_to_group ss []) = group_of ss ` cs_signature ` set ss"
    "fst ` set (fold add_to_group ss []) = cs_signature ` set ss"
    by (force simp: image_iff)+
qed

section \<open>What is evaluated\<close>

definition signature :: "Engine \<Rightarrow> string \<Rightarrow> Candidate \<Rightarrow> string" where
  "signature e surface c = fst (responseSignature (en_codec e) (cd_Body c) surface)"

definition votes :: "Engine \<Rightarrow> string \<Rightarrow> Candidate list \<Rightarrow> string \<Rightarrow> nat" where
  "votes e surface cs sig = length (filter (\<lambda>c. signature e surface c = sig) cs)"

definition scores :: "Engine \<Rightarrow> string \<Rightarrow> Candidate list \<Rightarrow> candidateScore list" where
  "scores e surface cs = map (\<lambda>(i, c). scored e surface i c) (enumerate 0 cs)"

lemma scored_fields [simp]:
  "cs_candidate (scored e surface i c) = c" "cs_signature (scored e surface i c) = signature e surface c"
  by (simp_all add: scored_def signature_def case_prod_unfold Let_def)

lemma scores_candidates: "map cs_candidate (scores e surface cs) = cs"
  by (simp add: scores_def comp_def case_prod_unfold)

lemma scores_signature: "s \<in> set (scores e surface cs) \<Longrightarrow> cs_signature s = signature e surface (cs_candidate s)"
  by (auto simp: scores_def)

lemma members_votes: "length (members_of (scores e surface cs) sig) = votes e surface cs sig"
proof -
  have "members_of (scores e surface cs) sig =
      filter (\<lambda>s. signature e surface (cs_candidate s) = sig) (scores e surface cs)"
    unfolding members_of_def by (rule filter_cong) (simp_all add: scores_signature)
  then have "map cs_candidate (members_of (scores e surface cs) sig) =
      filter (\<lambda>c. signature e surface c = sig) (map cs_candidate (scores e surface cs))"
    by (simp add: filter_map comp_def)
  from arg_cong [OF this, of length] show ?thesis by (simp add: votes_def scores_candidates)
qed

lemma signature_set: "cs_signature ` set (scores e surface cs) = signature e surface ` set cs"
proof -
  have "cs_signature ` set (scores e surface cs) = signature e surface ` cs_candidate ` set (scores e surface cs)"
    unfolding image_image by (rule image_cong) (simp_all add: scores_signature)
  also have "cs_candidate ` set (scores e surface cs) = set cs"
    by (metis scores_candidates set_map)
  finally show ?thesis .
qed

text \<open>The winning group and the winning member of an evaluation.\<close>

lemma Evaluate_winner:
  assumes "cs \<noteq> []"
  obtains sig m where "sig \<in> signature e surface ` set cs"
    and "\<forall>g \<in> group_of (scores e surface cs) ` signature e surface ` set cs.
           \<not> betterGroup g (group_of (scores e surface cs) sig)"
    and "m \<in> set (members_of (scores e surface cs) sig)"
    and "m = answer.scan_min (hd (members_of (scores e surface cs) sig)) (tl (members_of (scores e surface cs) sig))"
    and "Evaluate e surface cs = \<lparr> rr_Winner = cs_candidate m,
      rr_AgreementScore = of_nat (votes e surface cs sig) / of_nat (length cs),
      rr_AgreementCount = votes e surface cs sig, rr_CandidateCount = length cs,
      rr_ConsensusReached = (votes e surface cs sig \<ge> 2 \<and> votes e surface cs sig * 2 > length cs),
      rr_Disagreement = (1 < card (signature e surface ` set cs)),
      rr_Strategy = ag_strategy (group_of (scores e surface cs) sig),
      rr_ValidatorPassed = cs_validatorPassed m, rr_EvaluatorScore = cs_evaluatorScore m \<rparr>"
proof -
  let ?ss = "scores e surface cs"
  let ?groups = "fold add_to_group ?ss []"
  let ?ordered = "map snd ?groups"
  let ?w = "group.scan_min (hd ?ordered) (tl ?ordered)"
  let ?m = "answer.scan_min (hd (ag_members ?w)) (tl (ag_members ?w))"
  have vals: "set ?ordered = group_of ?ss ` signature e surface ` set cs"
    using groups_values(1) [of ?ss] by (simp add: signature_set)
  then have ne: "?ordered \<noteq> []" using assms by auto
  have "?w \<in> set (hd ?ordered # tl ?ordered)" by (rule group.scan_min_in)
  then have "?w \<in> set ?ordered" by (simp only: list.collapse [OF ne])
  then obtain sig where sig: "sig \<in> signature e surface ` set cs" "?w = group_of ?ss sig"
    unfolding vals by auto
  have best: "\<forall>g \<in> group_of ?ss ` signature e surface ` set cs. \<not> betterGroup g ?w"
    using group.scan_min_minimal [of _ "hd ?ordered" "tl ?ordered"]
    unfolding vals [symmetric] list.collapse [OF ne] by blast
  have members: "ag_members ?w = members_of ?ss sig" by (simp add: sig(2) group_of_def)
  have mne: "members_of ?ss sig \<noteq> []" using sig(1) by (simp add: members_of_Nil signature_set)
  have "?m \<in> set (hd (ag_members ?w) # tl (ag_members ?w))" by (rule answer.scan_min_in)
  then have m: "?m \<in> set (members_of ?ss sig)" by (simp only: members list.collapse [OF mne])
  have mbest: "?m = answer.scan_min (hd (members_of ?ss sig)) (tl (members_of ?ss sig))"
    by (simp only: members)
  have "distinct (map fst ?groups)" using groups_built [of ?ss] by (simp add: gokeys_distinct_def)
  then have "length ?groups = card (signature e surface ` set cs)"
    using groups_values(2) [of ?ss] by (metis distinct_card length_map set_map signature_set)
  moreover have "fold (\<lambda>(i, c). add_to_group (scored e surface i c)) (enumerate 0 cs) [] = ?groups"
    by (simp add: scores_def fold_map comp_def case_prod_unfold)
  moreover have "length (ag_members ?w) = votes e surface cs sig" by (simp add: members members_votes)
  ultimately show ?thesis
    using assms
    by (intro that [OF sig(1) best [unfolded sig(2)] m mbest])
      (simp add: Evaluate_def Let_def group.scan_min_def [symmetric] answer.scan_min_def [symmetric] sig(2) [symmetric])
qed

lemma votes_disjoint: "sig \<noteq> sig' \<Longrightarrow> votes e surface cs sig + votes e surface cs sig' \<le> length cs"
  unfolding votes_def by (induction cs) auto

lemma votes_perm: "mset cs' = mset cs \<Longrightarrow> votes e surface cs' sig = votes e surface cs sig"
  unfolding votes_def by (metis mset_filter size_mset)

lemma votes_pos: "0 < votes e surface cs sig \<Longrightarrow> sig \<in> signature e surface ` set cs"
  by (auto simp: votes_def length_greater_0_conv filter_empty_conv)

lemma winner_facts:
  assumes "cs \<noteq> []" "r = Evaluate e surface cs"
  shows "rr_Winner r \<in> set cs"
    and "rr_AgreementCount r = votes e surface cs (signature e surface (rr_Winner r))"
    and "votes e surface cs sig \<le> rr_AgreementCount r"
    and "rr_AgreementScore r = of_nat (rr_AgreementCount r) / of_nat (length cs)"
    and "rr_CandidateCount r = length cs"
    and "rr_ConsensusReached r \<longleftrightarrow> 2 \<le> rr_AgreementCount r \<and> length cs < 2 * rr_AgreementCount r"
    and "rr_Disagreement r \<longleftrightarrow> 1 < card (signature e surface ` set cs)"
proof -
  obtain s m where w: "s \<in> signature e surface ` set cs"
    "\<forall>g \<in> group_of (scores e surface cs) ` signature e surface ` set cs.
       \<not> betterGroup g (group_of (scores e surface cs) s)"
    "m \<in> set (members_of (scores e surface cs) s)"
    and r: "r = \<lparr> rr_Winner = cs_candidate m,
      rr_AgreementScore = of_nat (votes e surface cs s) / of_nat (length cs),
      rr_AgreementCount = votes e surface cs s, rr_CandidateCount = length cs,
      rr_ConsensusReached = (votes e surface cs s \<ge> 2 \<and> votes e surface cs s * 2 > length cs),
      rr_Disagreement = (1 < card (signature e surface ` set cs)),
      rr_Strategy = ag_strategy (group_of (scores e surface cs) s),
      rr_ValidatorPassed = cs_validatorPassed m, rr_EvaluatorScore = cs_evaluatorScore m \<rparr>"
    using Evaluate_winner [OF assms(1), of e surface] unfolding assms(2) by metis
  have m: "m \<in> set (scores e surface cs)" "cs_signature m = s" using w(3) by (auto simp: members_of_def)
  have "cs_candidate m \<in> set cs" using m(1) by (metis imageI scores_candidates set_map)
  moreover have sm: "signature e surface (cs_candidate m) = s" using m scores_signature by metis
  ultimately show "rr_Winner r \<in> set cs"
    "rr_AgreementCount r = votes e surface cs (signature e surface (rr_Winner r))"
    "rr_AgreementScore r = of_nat (rr_AgreementCount r) / of_nat (length cs)" "rr_CandidateCount r = length cs"
    "rr_ConsensusReached r \<longleftrightarrow> 2 \<le> rr_AgreementCount r \<and> length cs < 2 * rr_AgreementCount r"
    "rr_Disagreement r \<longleftrightarrow> 1 < card (signature e surface ` set cs)"
    by (simp_all add: r mult.commute [of _ "2::nat"])
  show "votes e surface cs sig \<le> rr_AgreementCount r"
  proof (cases "votes e surface cs sig = 0")
    case False
    then have "\<not> betterGroup (group_of (scores e surface cs) sig) (group_of (scores e surface cs) s)"
      using bspec [OF w(2) imageI [OF votes_pos [of e surface cs sig]]] by simp
    then show ?thesis by (auto simp: r betterGroup_def group_of_def members_votes split: if_splits)
  qed simp
qed

lemma majority_iff:
  assumes "n = votes e surface cs sig0" "\<And>sig. votes e surface cs sig \<le> n" "b \<longleftrightarrow> 2 \<le> n \<and> length cs < 2 * n"
  shows "b \<longleftrightarrow> (\<exists>sig. 2 \<le> votes e surface cs sig \<and> length cs < 2 * votes e surface cs sig)"
proof
  assume b
  with assms(1,3) show "\<exists>sig. 2 \<le> votes e surface cs sig \<and> length cs < 2 * votes e surface cs sig" by auto
next
  assume "\<exists>sig. 2 \<le> votes e surface cs sig \<and> length cs < 2 * votes e surface cs sig"
  then obtain sig where "2 \<le> votes e surface cs sig" "length cs < 2 * votes e surface cs sig" by blast
  with assms(2) [of sig] assms(3) show b by simp
qed

section \<open>Properties\<close>

text \<open>The winner of an evaluation is one of the answers, the agreement is the number of answers with
  the same signature, no signature has more, the score is its share of all answers, and a
  disagreement is reported exactly when two answers have different signatures.\<close>

theorem evaluate_plurality:
  assumes "cs \<noteq> []"
  shows "let r = Evaluate e surface cs in rr_Winner r \<in> set cs \<and>
    rr_AgreementCount r = votes e surface cs (signature e surface (rr_Winner r)) \<and>
    (\<forall>sig. votes e surface cs sig \<le> rr_AgreementCount r) \<and>
    rr_AgreementScore r = of_nat (rr_AgreementCount r) / of_nat (length cs) \<and>
    rr_CandidateCount r = length cs \<and>
    (rr_Disagreement r \<longleftrightarrow> (\<exists>a \<in> set cs. \<exists>b \<in> set cs. signature e surface a \<noteq> signature e surface b))"
proof -
  have "card (signature e surface ` set cs) \<le> Suc 0 \<longleftrightarrow>
      (\<forall>a \<in> set cs. \<forall>b \<in> set cs. signature e surface a = signature e surface b)"
    by (subst card_le_Suc0_iff_eq) simp_all
  then have "1 < card (signature e surface ` set cs) \<longleftrightarrow>
      (\<exists>a \<in> set cs. \<exists>b \<in> set cs. signature e surface a \<noteq> signature e surface b)"
    by (metis One_nat_def not_le)
  then show ?thesis using winner_facts [OF assms refl] by (simp add: Let_def)
qed

text \<open>C19. Consensus is reached exactly when a strict majority of the answers, and at least two of them,
  have one signature; the winner then has that signature. Neither depends on the order in which the
  answers arrived.\<close>

theorem evaluate_majority:
  assumes "cs \<noteq> []" "mset cs' = mset cs"
  shows "(rr_ConsensusReached (Evaluate e surface cs) \<longleftrightarrow>
      (\<exists>sig. 2 \<le> votes e surface cs sig \<and> length cs < 2 * votes e surface cs sig)) \<and>
    rr_ConsensusReached (Evaluate e surface cs') = rr_ConsensusReached (Evaluate e surface cs) \<and>
    (rr_ConsensusReached (Evaluate e surface cs) \<longrightarrow>
       signature e surface (rr_Winner (Evaluate e surface cs')) = signature e surface (rr_Winner (Evaluate e surface cs)))"
proof -
  have cs': "length cs' = length cs" "cs' \<noteq> []"
    using assms(1) mset_eq_length [OF assms(2)] by auto
  note f = winner_facts [OF assms(1) refl, of e surface] and g = winner_facts [OF cs'(2) refl, of e surface]
  have reached: "rr_ConsensusReached (Evaluate e surface cs) \<longleftrightarrow>
      (\<exists>sig. 2 \<le> votes e surface cs sig \<and> length cs < 2 * votes e surface cs sig)"
    by (rule majority_iff [OF f(2) f(3) f(6)])
  moreover have "rr_ConsensusReached (Evaluate e surface cs') \<longleftrightarrow>
      (\<exists>sig. 2 \<le> votes e surface cs sig \<and> length cs < 2 * votes e surface cs sig)"
    using majority_iff [OF g(2) g(3) g(6)] by (simp only: cs'(1) votes_perm [OF assms(2)])
  moreover have "signature e surface (rr_Winner (Evaluate e surface cs')) = signature e surface (rr_Winner (Evaluate e surface cs))"
    if "rr_ConsensusReached (Evaluate e surface cs)"
  proof (rule ccontr)
    assume "\<not> ?thesis"
    from votes_disjoint [OF this, of e surface cs]
    have "rr_AgreementCount (Evaluate e surface cs') + rr_AgreementCount (Evaluate e surface cs) \<le> length cs"
      using f(2) g(2) votes_perm [OF assms(2), of e surface] by simp
    moreover have "rr_AgreementCount (Evaluate e surface cs) \<le> rr_AgreementCount (Evaluate e surface cs')"
      using g(3) f(2) votes_perm [OF assms(2), of e surface] by metis
    ultimately show False using that f(6) by simp
  qed
  ultimately show ?thesis by blast
qed

lemma scores_nth:
  "i < length cs \<Longrightarrow> scores e surface cs ! i = scored e surface i (cs ! i)" "length (scores e surface cs) = length cs"
  by (simp_all add: scores_def nth_enumerate_eq)

lemma scored_index [simp]: "cs_index (scored e surface i c) = i"
  by (simp add: scored_def case_prod_unfold Let_def)

lemma members_first:
  assumes "sig \<in> signature e surface ` set cs"
  obtains p where "p < length cs" "hd (members_of (scores e surface cs) sig) = scored e surface p (cs ! p)"
    "signature e surface (cs ! p) = sig" "\<forall>j < p. signature e surface (cs ! j) \<noteq> sig"
proof -
  let ?P = "\<lambda>p. p < length cs \<and> signature e surface (cs ! p) = sig"
  have "\<exists>p. ?P p" using assms by (auto simp: in_set_conv_nth)
  then obtain p where p: "p < length cs" "signature e surface (cs ! p) = sig" and before: "\<forall>j < p. \<not> ?P j"
    by (subst (asm) exists_least_iff) auto
  then have least: "\<forall>j < p. signature e surface (cs ! j) \<noteq> sig" by simp
  define A where "A = take p (scores e surface cs)"
  define B where "B = drop (Suc p) (scores e surface cs)"
  have len: "p < length (scores e surface cs)" using p(1) by (simp add: scores_nth)
  have AB: "scores e surface cs = A @ scored e surface p (cs ! p) # B"
    using id_take_nth_drop [OF len] scores_nth(1) [OF p(1)] unfolding A_def B_def by metis
  have "filter (\<lambda>s. cs_signature s = sig) A = []"
    using least p(1) by (fastforce simp: A_def filter_empty_conv in_set_conv_nth scores_nth)
  then have "hd (members_of (scores e surface cs) sig) = scored e surface p (cs ! p)"
    by (simp add: members_of_def AB p(2))
  with p least show ?thesis by (intro that) auto
qed

text \<open>Without a validator and an evaluator, which is how the server runs the engine, ties are broken
  by arrival: the first answer of the largest group is returned, and of several groups of that size the
  one whose first answer came first.\<close>

theorem evaluate_tie_break:
  assumes "cs \<noteq> []" "en_Validator e = None" "en_Evaluator e = None"
  shows "\<exists>us vs. cs = us @ rr_Winner (Evaluate e surface cs) # vs \<and>
    signature e surface (rr_Winner (Evaluate e surface cs)) \<notin> signature e surface ` set us \<and>
    (\<forall>c \<in> set us. votes e surface cs (signature e surface c) < rr_AgreementCount (Evaluate e surface cs))"
proof -
  let ?ss = "scores e surface cs"
  obtain sig m where w: "sig \<in> signature e surface ` set cs"
    "\<forall>g \<in> group_of ?ss ` signature e surface ` set cs. \<not> betterGroup g (group_of ?ss sig)"
    "m = answer.scan_min (hd (members_of ?ss sig)) (tl (members_of ?ss sig))"
    "rr_Winner (Evaluate e surface cs) = cs_candidate m"
    "rr_AgreementCount (Evaluate e surface cs) = votes e surface cs sig"
    using Evaluate_winner [OF assms(1), of e surface] by (metis Result.select_convs(1,3))
  have plain: "cs_validatorPassed (scored e surface i c) = False" "cs_evaluatorScore (scored e surface i c) = 0" for i c
    using assms by (simp_all add: scored_def case_prod_unfold Let_def)
  then have ss: "\<not> cs_validatorPassed s \<and> cs_evaluatorScore s = 0" if "s \<in> set ?ss" for s
    using that by (auto simp: scores_def)
  obtain p where p: "p < length cs" "hd (members_of ?ss sig) = scored e surface p (cs ! p)"
    "signature e surface (cs ! p) = sig" "\<forall>j < p. signature e surface (cs ! j) \<noteq> sig"
    using members_first [OF w(1)] by blast
  have ne: "members_of ?ss sig \<noteq> []" using w(1) by (simp add: members_of_Nil signature_set)
  have "\<forall>s \<in> set (hd (members_of ?ss sig) # tl (members_of ?ss sig)). s \<in> set ?ss"
    unfolding list.collapse [OF ne] by (simp add: members_of_def)
  then have "m = scored e surface p (cs ! p)"
    unfolding w(3) p(2) [symmetric] by (intro answer.scan_min_first) (auto simp: better_member_def ss)
  then have win: "rr_Winner (Evaluate e surface cs) = cs ! p" using w(4) by simp
  have group: "ag_validatorPassed (group_of ?ss x) = False" "ag_evaluatorScore (group_of ?ss x) = 0" for x
  proof -
    show "ag_validatorPassed (group_of ?ss x) = False"
      using ss by (auto simp: group_of_def members_of_def list_ex_iff)
    have "foldl (\<lambda>a s. if a < cs_evaluatorScore s then cs_evaluatorScore s else a) 0 xs = 0"
      if "\<forall>s \<in> set xs. cs_evaluatorScore s = 0" for xs using that by (induction xs) auto
    from this [of "members_of ?ss x"] ss show "ag_evaluatorScore (group_of ?ss x) = 0"
      by (simp add: group_of_def members_of_def)
  qed
  have fewer: "votes e surface cs (signature e surface (cs ! j)) < votes e surface cs sig" if "j < p" for j
  proof -
    let ?x = "signature e surface (cs ! j)"
    have x: "?x \<in> signature e surface ` set cs" using that p(1) by simp
    then obtain q where q: "hd (members_of ?ss ?x) = scored e surface q (cs ! q)"
      "\<forall>i < q. signature e surface (cs ! i) \<noteq> ?x" using members_first [OF x] by blast
    then have "q \<le> j" by (metis not_le)
    then have "ag_firstIndex (group_of ?ss ?x) < ag_firstIndex (group_of ?ss sig)"
      using that q(1) p(2) by (simp add: group_of_def)
    moreover have "\<not> betterGroup (group_of ?ss ?x) (group_of ?ss sig)" using w(2) x by blast
    ultimately show ?thesis
      unfolding betterGroup_def group by (auto simp: group_of_def members_votes split: if_splits)
  qed
  have before: "\<exists>j < p. c = cs ! j" if "c \<in> set (take p cs)" for c
    using that p(1) by (auto simp: in_set_conv_nth)
  show ?thesis
    using p(1,3,4) fewer w(5) before
    by (intro exI [of _ "take p cs"] exI [of _ "drop (Suc p) cs"])
      (auto simp: win id_take_nth_drop [symmetric] dest!: before)
qed

section \<open>A concrete evaluation\<close>

definition plainEngine :: Engine where
  "plainEngine = \<lparr> en_codec = \<lparr> decode = (\<lambda>_. None), marshal = (\<lambda>_. None) \<rparr>, en_Validator = None, en_Evaluator = None \<rparr>"

definition sampleAnswers :: "Candidate list" where
  "sampleAnswers = [\<lparr> cd_NodeID = ''a'', cd_Body = ''No'' \<rparr>, \<lparr> cd_NodeID = ''b'', cd_Body = ''Yes, it is'' \<rparr>,
     \<lparr> cd_NodeID = ''c'', cd_Body = ''yes,  IT is'' \<rparr>]"

theorem evaluate_plurality_witness:
  "rr_Winner (Evaluate plainEngine ''ollama_chat'' sampleAnswers) \<in> set sampleAnswers"
  using evaluate_plurality [of sampleAnswers plainEngine "''ollama_chat''"] by (simp add: sampleAnswers_def Let_def)

theorem evaluate_majority_witness:
  "rr_ConsensusReached (Evaluate plainEngine ''ollama_chat'' (rev sampleAnswers))"
proof -
  have "rr_ConsensusReached (Evaluate plainEngine ''ollama_chat'' sampleAnswers)" by code_simp
  then show ?thesis
    using evaluate_majority [of sampleAnswers "rev sampleAnswers" plainEngine "''ollama_chat''"]
    by (simp add: sampleAnswers_def)
qed

theorem evaluate_tie_break_witness:
  "\<exists>us vs. sampleAnswers = us @ rr_Winner (Evaluate plainEngine ''ollama_chat'' sampleAnswers) # vs"
  using evaluate_tie_break [of sampleAnswers plainEngine "''ollama_chat''"]
  by (auto simp: sampleAnswers_def plainEngine_def)

end
