(* ===== verification/Proxy.thy ===== *)
theory Proxy
  imports Affinity ConsensusEngine
begin

text \<open>
  The forwarding path of \<^verbatim>\<open>internal/httpapi/server.go\<close> (\<^verbatim>\<open>nodeProxyURL\<close>, \<^verbatim>\<open>rewriteModel\<close>,
  \<^verbatim>\<open>copyUpstreamResponse\<close>, \<^verbatim>\<open>forwardWithFallback\<close>, \<^verbatim>\<open>emitRetryIfAvailable\<close>) and \<^verbatim>\<open>error_compat.go\<close>. The
  network is the environment: what each upstream attempt yields, and how much of each write the client
  takes. What the client has received so far is part of the state.
\<close>

section \<open>Error responses\<close>

definition inferenceCompatibilityPath :: "string \<Rightarrow> string" where
  "inferenceCompatibilityPath path =
    (if HasPrefix path ''/v1/'' then ''openai'' else if HasPrefix path ''/api/'' then ''ollama'' else [])"

definition normalizedUpstreamError :: "int \<Rightarrow> string \<times> string" where
  "normalizedUpstreamError st =
    (if st = 400 then (''upstream_invalid_request'', ''Upstream Ollama rejected the request.'')
     else if st = 401 \<or> st = 403 then (''upstream_auth_failed'', ''Upstream Ollama authorization failed.'')
     else if st = 404 then (''upstream_not_found'', ''Requested model or upstream resource was not found.'')
     else if st = 429 then (''upstream_rate_limited'', ''Upstream Ollama is rate limited.'')
     else (''upstream_request_failed'', ''Upstream Ollama returned an error.''))"

definition openAIErrorType :: "int \<Rightarrow> string" where
  "openAIErrorType st =
    (if st = 401 \<or> st = 403 then ''authentication_error''
     else if st = 429 then ''rate_limit_error''
     else if st = 400 \<or> st = 404 then ''invalid_request_error''
     else if 500 \<le> st then ''server_error'' else ''api_error'')"

definition ollamaErrorType :: "int \<Rightarrow> string" where
  "ollamaErrorType st =
    (if 500 \<le> st then ''server_error''
     else if st = 429 then ''rate_limit_error''
     else if st = 401 \<or> st = 403 then ''authentication_error''
     else ''invalid_request_error'')"

definition errorPayload :: "string \<Rightarrow> int \<Rightarrow> string \<Rightarrow> string \<Rightarrow> json" where
  "errorPayload path st code message =
    (if inferenceCompatibilityPath path = ''openai'' then
       JObject [(''error'', JObject [(''message'', JString message), (''type'', JString (openAIErrorType st)),
         (''param'', JNull), (''code'', JString code)])]
     else if inferenceCompatibilityPath path = ''ollama'' then
       JObject [(''error'', JString message), (''type'', JString (ollamaErrorType st)), (''code'', JString code)]
     else JObject [(''error'', JString code), (''message'', JString message)])"

section \<open>The client's side of a response\<close>

text \<open>Headers set so far, the status once it is sent, the bytes the client has received, and the plan of the
  connection: how many bytes each further write takes and the error it reports, if any. An
  empty plan takes everything.\<close>

record Writer =
  wr_header :: "(string \<times> string) list"
  wr_status :: "int option"
  wr_body :: string
  wr_plan :: "(nat \<times> string option) list"

definition Add :: "string \<Rightarrow> string \<Rightarrow> Writer \<Rightarrow> Writer" where
  "Add k v w = w\<lparr> wr_header := wr_header w @ [(k, v)] \<rparr>"

definition SetHeader :: "string \<Rightarrow> string \<Rightarrow> Writer \<Rightarrow> Writer" where
  "SetHeader k v w = w\<lparr> wr_header := filter (\<lambda>p. fst p \<noteq> k) (wr_header w) @ [(k, v)] \<rparr>"

definition WriteHeader :: "int \<Rightarrow> Writer \<Rightarrow> Writer" where
  "WriteHeader st w = (if wr_status w = None then w\<lparr> wr_status := Some st \<rparr> else w)"

definition Write :: "string \<Rightarrow> Writer \<Rightarrow> nat \<times> string option \<times> Writer" where
  "Write data w =
    (case wr_plan w of
       [] \<Rightarrow> (length data, None, w\<lparr> wr_body := wr_body w @ data \<rparr>)
     | (n, err) # plan \<Rightarrow>
        (min n (length data), err, w\<lparr> wr_body := wr_body w @ take n data, wr_plan := plan \<rparr>))"

definition writeInferenceErrorForPath :: "codec \<Rightarrow> string \<Rightarrow> int \<Rightarrow> string \<Rightarrow> string \<Rightarrow> Writer \<Rightarrow> Writer" where
  "writeInferenceErrorForPath js path st code message w =
    (let w = WriteHeader st (SetHeader ''Content-Type'' ''application/json'' w) in
     case marshal js (errorPayload path st code message) of
       None \<Rightarrow> w
     | Some text \<Rightarrow> snd (snd (Write (text @ [CHR 0x0A]) w)))"

section \<open>Upstream attempts\<close>

datatype read_end = More | EOF | ReadFail string

text \<open>The body of a response is the sequence of results its reads yield; after the last one it is at
  its end.\<close>

record Response =
  rp_status :: int
  rp_statusText :: string
  rp_header :: "(string \<times> string) list"
  rp_reads :: "(string \<times> read_end) list"

text \<open>What an attempt meets: the request cannot be built, the transport fails (and the client's context may
  be the reason), or a response, with the state of the context after its body was copied.\<close>

datatype attempt =
    NewRequestError string
  | TransportError string bool
  | Upstream Response bool

datatype proxy_error =
    NoProxyURL string
  | BadRequest string
  | Transport string
  | Cancelled
  | UpstreamStatus string string
  | BodyRead string
  | ClientWrite string
  | ShortWrite

fun Error :: "proxy_error \<Rightarrow> string" where
  "Error (NoProxyURL nodeID) = ''node '' @ nodeID @ '' has no proxy URL''"
| "Error (BadRequest m) = m"
| "Error (Transport m) = m"
| "Error Cancelled = ''context canceled''"
| "Error (UpstreamStatus nodeID text) = nodeID @ '' returned '' @ text"
| "Error (BodyRead m) = m"
| "Error (ClientWrite m) = m"
| "Error ShortWrite = ''short write''"

record copyOutcome =
  co_BytesWritten :: int
  co_ResponseCommitted :: bool
  co_Err :: "proxy_error option"

record proxyOutcome =
  po_SelectedNode :: string
  po_FallbackUsed :: bool
  po_RetryCount :: int
  po_BytesWritten :: int
  po_ResponseCommitted :: bool
  po_PartialOutput :: bool
  po_ClientCancelled :: bool
  po_RetryAfterPartial :: bool
  po_Err :: "proxy_error option"

definition zeroOutcome :: proxyOutcome where
  "zeroOutcome = \<lparr> po_SelectedNode = [], po_FallbackUsed = False, po_RetryCount = 0, po_BytesWritten = 0,
     po_ResponseCommitted = False, po_PartialOutput = False, po_ClientCancelled = False,
     po_RetryAfterPartial = False, po_Err = None \<rparr>"

fun ReadAll :: "string \<Rightarrow> (string \<times> read_end) list \<Rightarrow> string + string" where
  "ReadAll acc [] = Inr acc"
| "ReadAll acc ((chunk, More) # rs) = ReadAll (acc @ chunk) rs"
| "ReadAll acc ((chunk, EOF) # rs) = Inr (acc @ chunk)"
| "ReadAll acc ((chunk, ReadFail err) # rs) = Inl err"

definition copyResponseHeaders :: "Response \<Rightarrow> Writer \<Rightarrow> Writer" where
  "copyResponseHeaders resp w = fold (\<lambda>(k, v). Add k v) (rp_header resp) w"

text \<open>What follows a write of a chunk in the streaming case: the result if the copy is over.\<close>

definition after_chunk :: "int \<Rightarrow> nat \<Rightarrow> nat \<Rightarrow> string option \<Rightarrow> read_end \<Rightarrow> copyOutcome option" where
  "after_chunk bytesWritten written n writeErr err =
    (let result = (\<lambda>e. Some \<lparr> co_BytesWritten = bytesWritten, co_ResponseCommitted = True, co_Err = e \<rparr>) in
     if writeErr \<noteq> None then result (map_option ClientWrite writeErr)
     else if written \<noteq> n then result (Some ShortWrite)
     else case err of EOF \<Rightarrow> result None | ReadFail m \<Rightarrow> result (Some (BodyRead m)) | More \<Rightarrow> None)"

fun stream_loop :: "int \<Rightarrow> (string \<times> read_end) list \<Rightarrow> Writer \<Rightarrow> copyOutcome \<times> Writer" where
  "stream_loop bytes [] w = (\<lparr> co_BytesWritten = bytes, co_ResponseCommitted = True, co_Err = None \<rparr>, w)"
| "stream_loop bytes ((chunk, err) # rs) w =
    (if chunk \<noteq> [] then
       (let (written, writeErr, w1) = Write chunk w; bytes1 = bytes + int written in
        case after_chunk bytes1 written (length chunk) writeErr err of
          Some r \<Rightarrow> (r, w1)
        | None \<Rightarrow> stream_loop bytes1 rs w1)
     else case after_chunk bytes 0 0 None err of
          Some r \<Rightarrow> (r, w)
        | None \<Rightarrow> stream_loop bytes rs w)"

definition copyUpstreamResponse :: "Response \<Rightarrow> bool \<Rightarrow> Writer \<Rightarrow> copyOutcome \<times> Writer" where
  "copyUpstreamResponse resp stream w =
    (let begin = (\<lambda>w. WriteHeader (rp_status resp) (copyResponseHeaders resp w)) in
     if \<not> stream then
       (case ReadAll [] (rp_reads resp) of
          Inl m \<Rightarrow> (\<lparr> co_BytesWritten = 0, co_ResponseCommitted = False, co_Err = Some (BodyRead m) \<rparr>, w)
        | Inr body \<Rightarrow>
            (let (n, err, w1) = Write body (begin w) in
             (\<lparr> co_BytesWritten = int n, co_ResponseCommitted = True,
                co_Err = map_option ClientWrite err \<rparr>, w1)))
     else
       (case rp_reads resp of
          [] \<Rightarrow> (\<lparr> co_BytesWritten = 0, co_ResponseCommitted = True, co_Err = None \<rparr>, begin w)
        | (chunk, err) # rs \<Rightarrow>
           (if chunk = [] \<and> err \<noteq> More then
              (case err of
                 ReadFail m \<Rightarrow> (\<lparr> co_BytesWritten = 0, co_ResponseCommitted = False, co_Err = Some (BodyRead m) \<rparr>, w)
               | _ \<Rightarrow> (\<lparr> co_BytesWritten = 0, co_ResponseCommitted = True, co_Err = None \<rparr>, begin w))
            else
              let (written, writeErr, w1) = Write chunk (begin w) in
              case after_chunk (int written) written (length chunk) writeErr err of
                Some r \<Rightarrow> (r, w1)
              | None \<Rightarrow> stream_loop (int written) rs w1)))"

section \<open>Forwarding\<close>

text \<open>\<^verbatim>\<open>json.Unmarshal\<close> into a map is strict about what follows the first value and reads numbers as
  floats, so it is a decoder of its own. An object gives its members, \<^verbatim>\<open>null\<close> leaves the map \<^verbatim>\<open>nil\<close>,
  every other value is an error.\<close>

record server_codec = codec +
  unmarshal :: "string \<Rightarrow> json option"

datatype payload = NotAMap | NilMap | Members "(string \<times> json) list"

definition payload_of :: "server_codec \<Rightarrow> string \<Rightarrow> payload" where
  "payload_of js body =
    (case unmarshal js body of
       Some (JObject m) \<Rightarrow> Members m | Some JNull \<Rightarrow> NilMap | _ \<Rightarrow> NotAMap)"

text \<open>\<^term>\<open>None\<close> is the panic of an assignment to a \<^verbatim>\<open>nil\<close> map.\<close>

definition rewriteModel :: "server_codec \<Rightarrow> string \<Rightarrow> string \<Rightarrow> string option" where
  "rewriteModel js body model =
    (case payload_of js body of
       NotAMap \<Rightarrow> Some body
     | NilMap \<Rightarrow> if model = [] then Some body else None
     | Members m \<Rightarrow>
         if model = [] then Some body
         else Some (case marshal js (JObject (goput ''model'' (JString model) m)) of
                      None \<Rightarrow> body | Some out \<Rightarrow> out))"

definition nodeProxyURL :: "Config \<Rightarrow> State \<Rightarrow> string \<Rightarrow> string \<Rightarrow> string" where
  "nodeProxyURL cfg state nodeID path =
    (case goget (st_Nodes state) nodeID of
       Some node \<Rightarrow>
         if n_URL node \<noteq> [] then TrimRight CHR ''/'' (n_URL node) @ ''/subscriber/proxy'' @ path
         else TrimRight CHR ''/'' (c_Ollama_URL cfg) @ path
     | None \<Rightarrow>
        (case find (\<lambda>sub. sub_NodeID sub = nodeID) (c_Subscribers cfg) of
           Some sub \<Rightarrow> TrimRight CHR ''/'' (sub_URL sub) @ ''/subscriber/proxy'' @ path
         | None \<Rightarrow>
            let localID = (case goget (st_Nodes state) (st_NodeID state) of
                             Some local \<Rightarrow> n_NodeID local | None \<Rightarrow> []) in
            if nodeID = st_NodeID state \<or> nodeID = localID then c_Ollama_URL cfg @ path else []))"

text \<open>The parts of \<^verbatim>\<open>Server\<close> that forwarding uses, and the environment of a request: the clock, what the
  HEC client answers, and what each attempt meets, by its position, its URL and the body sent.\<close>

record Server =
  sv_cfg :: Config
  sv_tele :: Sink
  sv_json :: server_codec

record net_env =
  ne_env :: env
  ne_hec :: "string option"
  ne_attempt :: "nat \<Rightarrow> string \<Rightarrow> string \<Rightarrow> attempt"

definition emit :: "Server \<Rightarrow> net_env \<Rightarrow> string \<Rightarrow> gobj \<Rightarrow> Store \<Rightarrow> Store" where
  "emit sv ne ty fs = Emit (ne_env ne) (sv_tele sv) (ne_hec ne) ty fs"

definition emitRetryIfAvailable ::
  "Server \<Rightarrow> net_env \<Rightarrow> string \<Rightarrow> bool \<Rightarrow> string list \<Rightarrow> nat \<Rightarrow> string \<Rightarrow> string \<Rightarrow> Store \<Rightarrow> Store" where
  "emitRetryIfAvailable sv ne requestID stream nodes index nodeID reason store =
    (if length nodes \<le> index + 1 then store
     else emit sv ne ''upstream_retry''
       [(''request_id'', GStr requestID), (''previous_node'', GStr nodeID),
        (''next_node'', GStr (nodes ! (index + 1))), (''reason'', GStr reason),
        (''retry_phase'', GStr ''before_first_token''), (''retry_allowed'', GBool True),
        (''partial_output'', GBool False), (''stream'', GBool stream)] store)"

text \<open>One iteration of the loop: it returns, or remembers an error and goes on to the next node.\<close>

datatype step =
    Return proxyOutcome Writer Store
  | Continue proxy_error Writer Store

record request =
  fr_requestID :: string
  fr_path :: string
  fr_body :: string
  fr_stream :: bool

definition attempt_node :: "Server \<Rightarrow> net_env \<Rightarrow> request \<Rightarrow> string list \<Rightarrow> string \<Rightarrow> nat \<Rightarrow> string
    \<Rightarrow> Writer \<Rightarrow> Store \<Rightarrow> step option" where
  "attempt_node sv ne rq nodes model i nodeID w store =
    (let stream = fr_stream rq; rid = fr_requestID rq;
         retry = (\<lambda>reason. emitRetryIfAvailable sv ne rid stream nodes i nodeID reason);
         url = nodeProxyURL (sv_cfg sv) (Snapshot store) nodeID (fr_path rq);
         base = zeroOutcome\<lparr> po_SelectedNode := nodeID, po_FallbackUsed := 0 < i \<rparr>
     in if url = [] then Some (Continue (NoProxyURL nodeID) w (retry ''missing_proxy_url'' store))
        else case rewriteModel (sv_json sv) (fr_body rq) model of
          None \<Rightarrow> None
        | Some sent \<Rightarrow>
        (case ne_attempt ne i url sent of
           NewRequestError m \<Rightarrow> Some (Return (base\<lparr> po_Err := Some (BadRequest m) \<rparr>) w store)
         | TransportError m cancelled \<Rightarrow>
             if cancelled then
               Some (Return (base\<lparr> po_ClientCancelled := True, po_Err := Some Cancelled \<rparr>) w
                 (emit sv ne ''request_cancelled''
                   [(''request_id'', GStr rid), (''selected_node'', GStr nodeID),
                    (''reason'', GStr ''client_cancelled_before_first_token''), (''stream'', GBool stream),
                    (''partial_output'', GBool False), (''retry_allowed'', GBool False)] store))
             else Some (Continue (Transport m) w (retry ''upstream_request_error'' store))
         | Upstream resp cancelled \<Rightarrow>
             if 400 \<le> rp_status resp \<and> rp_status resp < 500 then
               let (code, message) = normalizedUpstreamError (rp_status resp) in
               Some (Return (base\<lparr> po_RetryCount := int i, po_ResponseCommitted := True,
                   po_Err := Some (UpstreamStatus nodeID (rp_statusText resp)) \<rparr>)
                 (writeInferenceErrorForPath (codec.truncate (sv_json sv)) (fr_path rq) (rp_status resp) code message w) store)
             else if rp_status resp < 400 then
               let (result, w1) = copyUpstreamResponse resp stream w;
                   sent = base\<lparr> po_RetryCount := int i, po_BytesWritten := co_BytesWritten result,
                     po_ResponseCommitted := co_ResponseCommitted result \<rparr>;
                   partial = 0 < co_BytesWritten result in
               case co_Err result of
                 None \<Rightarrow> Some (Return sent w1 store)
               | Some err \<Rightarrow>
                  if cancelled then
                    Some (Return (sent\<lparr> po_PartialOutput := partial, po_ClientCancelled := True,
                        po_Err := Some Cancelled \<rparr>) w1
                      (emit sv ne ''request_cancelled''
                        [(''request_id'', GStr rid), (''selected_node'', GStr nodeID),
                         (''reason'', GStr (if partial then ''client_cancelled_after_partial_output''
                                            else ''client_cancelled_before_first_token'')),
                         (''stream'', GBool stream), (''bytes_written'', GInt (co_BytesWritten result)),
                         (''partial_output'', GBool partial), (''retry_allowed'', GBool False)] store))
                  else if partial \<or> co_ResponseCommitted result then
                    Some (Return (sent\<lparr> po_PartialOutput := partial, po_RetryAfterPartial := False,
                        po_Err := Some err \<rparr>) w1
                      (emit sv ne ''response_partial''
                        [(''request_id'', GStr rid), (''selected_node'', GStr nodeID), (''stream'', GBool stream),
                         (''bytes_written'', GInt (co_BytesWritten result)), (''retry_allowed'', GBool False),
                         (''retry_phase'', GStr ''after_partial_output''), (''error_message'', GStr (Error err))] store))
                  else Some (Continue err w1 (retry ''upstream_body_read_error'' store))
             else Some (Continue (UpstreamStatus nodeID (rp_statusText resp)) w (retry ''upstream_status_5xx'' store))))"

fun forward_from :: "Server \<Rightarrow> net_env \<Rightarrow> request \<Rightarrow> string list \<Rightarrow> string \<Rightarrow> nat \<Rightarrow> string list
    \<Rightarrow> proxy_error option \<Rightarrow> Writer \<Rightarrow> Store \<Rightarrow> (proxyOutcome \<times> Writer \<times> Store) option" where
  "forward_from sv ne rq nodes model i [] lastErr w store =
    Some (zeroOutcome\<lparr> po_FallbackUsed := 1 < length nodes, po_Err := lastErr \<rparr>, w, store)"
| "forward_from sv ne rq nodes model i (nodeID # rest) lastErr w store =
    (case attempt_node sv ne rq nodes model i nodeID w store of
       None \<Rightarrow> None
     | Some (Return out w1 s1) \<Rightarrow> Some (out, w1, s1)
     | Some (Continue err w1 s1) \<Rightarrow> forward_from sv ne rq nodes model (Suc i) rest (Some err) w1 s1)"

definition forwardWithFallback :: "Server \<Rightarrow> net_env \<Rightarrow> request \<Rightarrow> Decision \<Rightarrow> Writer \<Rightarrow> Store
    \<Rightarrow> (proxyOutcome \<times> Writer \<times> Store) option" where
  "forwardWithFallback sv ne rq decision w store =
    (let nodes = d_SelectedNode decision # d_FallbackNodes decision in
     forward_from sv ne rq nodes (d_ResolvedModel decision) 0 nodes None w store)"

section \<open>What a copy delivers\<close>

text \<open>What the upstream body holds up to its end or its failure, and whether it ends well.\<close>

fun received :: "(string \<times> read_end) list \<Rightarrow> string" where
  "received [] = []"
| "received ((chunk, err) # rs) = (case err of More \<Rightarrow> chunk @ received rs | _ \<Rightarrow> chunk)"

fun intact :: "(string \<times> read_end) list \<Rightarrow> bool" where
  "intact [] \<longleftrightarrow> True"
| "intact ((chunk, err) # rs) \<longleftrightarrow> (case err of More \<Rightarrow> intact rs | EOF \<Rightarrow> True | ReadFail _ \<Rightarrow> False)"

definition unreadable :: "bool \<Rightarrow> Response \<Rightarrow> bool" where
  "unreadable stream resp \<longleftrightarrow>
    (if stream then (case rp_reads resp of (chunk, ReadFail _) # _ \<Rightarrow> chunk = [] | _ \<Rightarrow> False)
     else \<not> intact (rp_reads resp))"

text \<open>The contract of \<^verbatim>\<open>io.Writer\<close>: a write that takes less than it was given reports an error.\<close>

definition writer_contract :: "nat \<Rightarrow> Writer \<Rightarrow> bool" where
  "writer_contract len w \<longleftrightarrow> list_all (\<lambda>(n, err). err \<noteq> None \<or> len \<le> n) (wr_plan w)"

lemma ReadAll_result: "(intact rs \<and> ReadAll acc rs = Inr (acc @ received rs)) \<or> (\<not> intact rs \<and> (\<exists>m. ReadAll acc rs = Inl m))"
  by (induction acc rs rule: ReadAll.induct) auto

lemma Write_body:
  assumes "Write data w = (n, err, w1)"
  shows "wr_body w1 = wr_body w @ take n data" "n \<le> length data"
    "wr_status w1 = wr_status w" "wr_header w1 = wr_header w"
  using assms by (auto simp: Write_def min_def split: list.splits)

lemma Write_contract:
  "Write data w = (n, None, w1) \<Longrightarrow> length data \<le> len \<Longrightarrow> writer_contract len w \<Longrightarrow> n = length data"
  by (auto simp: Write_def writer_contract_def split: list.splits)

lemma WriteHeader_simps [simp]:
  "wr_body (WriteHeader st w) = wr_body w" "wr_plan (WriteHeader st w) = wr_plan w"
  "wr_status (WriteHeader st w) = (case wr_status w of None \<Rightarrow> Some st | Some v \<Rightarrow> Some v)"
  by (auto simp: WriteHeader_def split: option.split)

lemma fold_Add_simps [simp]:
  "wr_body (fold (\<lambda>(k, v). Add k v) hs w) = wr_body w" "wr_plan (fold (\<lambda>(k, v). Add k v) hs w) = wr_plan w"
  "wr_status (fold (\<lambda>(k, v). Add k v) hs w) = wr_status w"
  "wr_header (fold (\<lambda>(k, v). Add k v) hs w) = wr_header w @ hs"
  by (induction hs arbitrary: w) (auto simp: Add_def)

lemma copyResponseHeaders_simps [simp]:
  "wr_body (copyResponseHeaders r w) = wr_body w" "wr_plan (copyResponseHeaders r w) = wr_plan w"
  "wr_status (copyResponseHeaders r w) = wr_status w"
  "wr_header (copyResponseHeaders r w) = wr_header w @ rp_header r"
  by (simp_all add: copyResponseHeaders_def)

text \<open>What a finished copy of \<open>rs\<close> from the writer \<open>w\<close> on amounts to.\<close>

definition delivered :: "(string \<times> read_end) list \<Rightarrow> int \<Rightarrow> Writer \<Rightarrow> copyOutcome \<Rightarrow> Writer \<Rightarrow> bool" where
  "delivered rs start w r w1 \<longleftrightarrow>
    (\<exists>n \<le> length (received rs). wr_body w1 = wr_body w @ take n (received rs) \<and>
       co_BytesWritten r = start + int n \<and> co_ResponseCommitted r \<and> wr_status w1 = wr_status w \<and>
       wr_header w1 = wr_header w \<and>
       (co_Err r = None \<longrightarrow> n = length (received rs) \<and> intact rs))"

lemma delivered_more:
  assumes "Write chunk w = (length chunk, err, w1)" "delivered rs (start + int (length chunk)) w1 r w2"
  shows "delivered ((chunk, More) # rs) start w r w2"
proof -
  from assms(2) obtain n where n: "n \<le> length (received rs)" "wr_body w2 = wr_body w1 @ take n (received rs)"
    "co_BytesWritten r = start + int (length chunk) + int n" "co_ResponseCommitted r" "wr_status w2 = wr_status w1"
    "wr_header w2 = wr_header w1" "co_Err r = None \<longrightarrow> n = length (received rs) \<and> intact rs"
    by (auto simp: delivered_def)
  show ?thesis
    unfolding delivered_def
    by (rule exI [of _ "length chunk + n"]) (use n Write_body [OF assms(1)] in auto)
qed

lemma after_chunk_done:
  assumes "Write chunk w = (n, werr, w1)" "after_chunk (start + int n) n (length chunk) werr err = Some r"
  shows "delivered ((chunk, err) # rs) start w r w1"
  unfolding delivered_def
  by (rule exI [of _ n])
    (use assms Write_body [OF assms(1)] in
      \<open>auto simp: after_chunk_def Let_def split: if_splits read_end.splits\<close>)

lemma after_chunk_more:
  "after_chunk b n k werr err = None \<Longrightarrow> n = k \<and> err = More \<and> werr = None"
  by (auto simp: after_chunk_def Let_def split: if_splits read_end.splits)

lemma stream_loop_delivers: "stream_loop start rs w = (r, w1) \<Longrightarrow> delivered rs start w r w1"
proof (induction start rs w rule: stream_loop.induct)
  case (1 bytes w)
  then show ?case by (auto simp: delivered_def)
next
  case (2 bytes chunk err rs w)
  show ?case
  proof (cases "chunk = []")
    case True
    then show ?thesis
      using 2 by (cases err) (auto simp: after_chunk_def delivered_def)
  next
    case False
    obtain n werr w' where wr: "Write chunk w = (n, werr, w')" by (cases "Write chunk w") auto
    show ?thesis
    proof (cases "after_chunk (bytes + int n) n (length chunk) werr err")
      case None
      note m = after_chunk_more [OF this]
      with 2(3) wr None False have "stream_loop (bytes + int n) rs w' = (r, w1)" by simp
      then have "delivered rs (bytes + int n) w' r w1"
        using 2(1) [OF False wr [symmetric]] None wr by auto
      then show ?thesis using delivered_more wr m by auto
    next
      case (Some r')
      with 2(3) wr False have "r' = r" "w' = w1" by simp_all
      with after_chunk_done [OF wr Some] show ?thesis by simp
    qed
  qed
qed

lemma begin_simps [simp]:
  "wr_body (WriteHeader st (copyResponseHeaders r w)) = wr_body w"
  "wr_header (WriteHeader st w) = wr_header w"
  by (simp_all add: WriteHeader_def)

text \<open>A copy that does not commit leaves the client untouched; a copy that commits sends the status and
  the headers of this response and a prefix of its body.\<close>

definition opened :: "Response \<Rightarrow> Writer \<Rightarrow> Writer" where
  "opened resp w = WriteHeader (rp_status resp) (copyResponseHeaders resp w)"

lemma copy_unreadable:
  assumes "unreadable stream resp"
  shows "\<exists>m. copyUpstreamResponse resp stream w =
    (\<lparr> co_BytesWritten = 0, co_ResponseCommitted = False, co_Err = Some (BodyRead m) \<rparr>, w)"
  using assms ReadAll_result [of "rp_reads resp" "[]"]
  by (cases stream)
    (auto simp: unreadable_def copyUpstreamResponse_def split: list.splits prod.splits read_end.splits)

lemma copy_whole:
  assumes "intact (rp_reads resp)" "copyUpstreamResponse resp False w = (r, w1)"
  obtains n err where "Write (received (rp_reads resp)) (opened resp w) = (n, err, w1)"
    "r = \<lparr> co_BytesWritten = int n, co_ResponseCommitted = True, co_Err = map_option ClientWrite err \<rparr>"
  using assms ReadAll_result [of "rp_reads resp" "[]"]
  by (auto simp: copyUpstreamResponse_def opened_def split: prod.splits)

lemma copy_stream:
  assumes "\<not> unreadable True resp" "copyUpstreamResponse resp True w = (r, w1)"
  shows "delivered (rp_reads resp) 0 (opened resp w) r w1"
proof (cases "rp_reads resp")
  case Nil
  then show ?thesis
    using assms(2) by (auto simp: copyUpstreamResponse_def opened_def delivered_def)
next
  case (Cons rd rs)
  obtain chunk err where rd: "rd = (chunk, err)" by (cases rd)
  obtain n werr w' where wr: "Write chunk (opened resp w) = (n, werr, w')"
    by (cases "Write chunk (opened resp w)") auto
  show ?thesis
  proof (cases "chunk = [] \<and> err \<noteq> More")
    case True
    then have "err = EOF" using assms(1) Cons rd by (cases err) (auto simp: unreadable_def)
    then show ?thesis
      using True assms(2) Cons rd by (auto simp: copyUpstreamResponse_def opened_def delivered_def)
  next
    case False
    show ?thesis
    proof (cases "after_chunk (int n) n (length chunk) werr err")
      case None
      note m = after_chunk_more [OF this]
      from assms(2) Cons rd False wr None have "stream_loop (int n) rs w' = (r, w1)"
        by (simp add: copyUpstreamResponse_def opened_def)
      then have "delivered rs (0 + int (length chunk)) w' r w1" using stream_loop_delivers m by simp
      then show ?thesis using delivered_more wr m Cons rd by simp
    next
      case (Some r')
      from assms(2) Cons rd False wr Some have "r' = r" "w' = w1"
        by (simp_all add: copyUpstreamResponse_def opened_def)
      with after_chunk_done [OF wr, of 0] Some Cons rd show ?thesis by simp
    qed
  qed
qed

lemma copy_delivers:
  assumes "copyUpstreamResponse resp stream w = (r, w1)" "\<not> unreadable stream resp"
    and "stream \<or> writer_contract (length (received (rp_reads resp))) w"
  shows "delivered (rp_reads resp) 0 (opened resp w) r w1"
proof (cases stream)
  case True
  then show ?thesis using copy_stream assms by simp
next
  case False
  then have i: "intact (rp_reads resp)" using assms(2) by (simp add: unreadable_def)
  have c: "copyUpstreamResponse resp False w = (r, w1)" using assms(1) False by simp
  obtain n err
    where wr: "Write (received (rp_reads resp)) (opened resp w) = (n, err, w1)"
      and r: "r = \<lparr> co_BytesWritten = int n, co_ResponseCommitted = True, co_Err = map_option ClientWrite err \<rparr>"
    by (rule copy_whole [OF i c])
  have "err = None \<Longrightarrow> n = length (received (rp_reads resp))"
    using Write_contract [of _ "opened resp w"] wr assms(3) False by (auto simp: writer_contract_def opened_def)
  then show ?thesis
    unfolding delivered_def using i r Write_body [OF wr] by (intro exI [of _ n]) auto
qed

lemma copy_committed:
  assumes "copyUpstreamResponse resp stream w = (r, w1)"
  shows "co_ResponseCommitted r \<longleftrightarrow> \<not> unreadable stream resp"
proof (cases "unreadable stream resp")
  case True
  then show ?thesis using copy_unreadable [OF True, of w] assms by auto
next
  case False
  show ?thesis
  proof (cases stream)
    case True
    then show ?thesis using assms False copy_stream [of resp w r w1] by (auto simp: delivered_def)
  next
    case f: False
    have i: "intact (rp_reads resp)" and c: "copyUpstreamResponse resp False w = (r, w1)"
      using False f assms by (simp_all add: unreadable_def)
    show ?thesis by (rule copy_whole [OF i c]) (use False in simp)
  qed
qed

section \<open>The loop over the nodes\<close>

lemma AddAudit_NodeID [simp]: "st_NodeID (s_state (AddAudit e ev s)) = st_NodeID (s_state s)"
  by (simp add: AddAudit_def saveLocked_def Let_def)

lemma Emit_NodeID [simp]: "st_NodeID (s_state (Emit e k send ty f s)) = st_NodeID (s_state s)"
  by (simp add: Emit_def Let_def split: bool.split option.split)

lemma Snapshot_nodes:
  "st_Nodes (Snapshot s) = map (\<lambda>(id, node). (id, jsonNode node)) (st_Nodes (s_state s))"
  "st_NodeID (Snapshot s) = st_NodeID (s_state s)"
  by (simp_all add: Snapshot_def cloneState_def jsonState_def)

lemma nodeProxyURL_cong:
  "st_Nodes (s_state s) = st_Nodes (s_state t) \<Longrightarrow> st_NodeID (s_state s) = st_NodeID (s_state t) \<Longrightarrow>
     nodeProxyURL cfg (Snapshot s) = nodeProxyURL cfg (Snapshot t)"
  by (intro ext) (simp only: nodeProxyURL_def Snapshot_nodes)

text \<open>Telemetry writes the audit trail only: it never changes where a node is reached.\<close>

definition same_nodes :: "Store \<Rightarrow> Store \<Rightarrow> bool" where
  "same_nodes s t \<longleftrightarrow> st_Nodes (s_state s) = st_Nodes (s_state t) \<and> st_NodeID (s_state s) = st_NodeID (s_state t)"

lemma same_nodes_emit [simp]:
  "same_nodes s s"
  "same_nodes s (emit sv ne ty f t) = same_nodes s t"
  "same_nodes s (emitRetryIfAvailable sv ne rid stream nodes i nodeID reason t) = same_nodes s t"
  by (simp_all add: same_nodes_def emit_def emitRetryIfAvailable_def)

lemma same_nodes_url: "same_nodes s t \<Longrightarrow> nodeProxyURL cfg (Snapshot t) = nodeProxyURL cfg (Snapshot s)"
  by (rule nodeProxyURL_cong) (simp_all add: same_nodes_def)

text \<open>What attempt \<open>i\<close> meets, \<^term>\<open>None\<close> where the node has no URL or the body cannot be rewritten, and when
  the loop goes on to the next node.\<close>

definition met :: "Server \<Rightarrow> net_env \<Rightarrow> request \<Rightarrow> string \<Rightarrow> Store \<Rightarrow> nat \<Rightarrow> string \<Rightarrow> attempt option" where
  "met sv ne rq model store i nodeID =
    (let url = nodeProxyURL (sv_cfg sv) (Snapshot store) nodeID (fr_path rq) in
     if url = [] then None
     else map_option (ne_attempt ne i url) (rewriteModel (sv_json sv) (fr_body rq) model))"

definition passed_over :: "Server \<Rightarrow> net_env \<Rightarrow> request \<Rightarrow> string \<Rightarrow> Store \<Rightarrow> nat \<Rightarrow> string \<Rightarrow> bool" where
  "passed_over sv ne rq model store i nodeID \<longleftrightarrow>
    nodeProxyURL (sv_cfg sv) (Snapshot store) nodeID (fr_path rq) = [] \<or>
    (case met sv ne rq model store i nodeID of
       Some (TransportError _ cancelled) \<Rightarrow> \<not> cancelled
     | Some (Upstream resp cancelled) \<Rightarrow>
         500 \<le> rp_status resp \<or> (rp_status resp < 400 \<and> unreadable (fr_stream rq) resp \<and> \<not> cancelled)
     | _ \<Rightarrow> False)"

text \<open>What the client holds after the attempt at which the loop returns.\<close>

definition answer :: "Server \<Rightarrow> request \<Rightarrow> attempt \<Rightarrow> Writer \<Rightarrow> Writer" where
  "answer sv rq a w =
    (case a of
       Upstream resp _ \<Rightarrow>
         if 400 \<le> rp_status resp then
           (case normalizedUpstreamError (rp_status resp) of (code, message) \<Rightarrow>
             writeInferenceErrorForPath (codec.truncate (sv_json sv)) (fr_path rq) (rp_status resp) code message w)
         else snd (copyUpstreamResponse resp (fr_stream rq) w)
     | _ \<Rightarrow> w)"

definition reported :: "request \<Rightarrow> nat \<Rightarrow> string \<Rightarrow> attempt \<Rightarrow> Writer \<Rightarrow> proxyOutcome" where
  "reported rq i nodeID a w =
    (let base = zeroOutcome\<lparr> po_SelectedNode := nodeID, po_FallbackUsed := 0 < i \<rparr> in
     case a of
       NewRequestError m \<Rightarrow> base\<lparr> po_Err := Some (BadRequest m) \<rparr>
     | TransportError m _ \<Rightarrow> base\<lparr> po_ClientCancelled := True, po_Err := Some Cancelled \<rparr>
     | Upstream resp cancelled \<Rightarrow>
        if 400 \<le> rp_status resp then
          base\<lparr> po_RetryCount := int i, po_ResponseCommitted := True,
                po_Err := Some (UpstreamStatus nodeID (rp_statusText resp)) \<rparr>
        else
          let r = fst (copyUpstreamResponse resp (fr_stream rq) w);
              failed = co_Err r \<noteq> None in
          base\<lparr> po_RetryCount := int i, po_BytesWritten := co_BytesWritten r,
                po_ResponseCommitted := co_ResponseCommitted r,
                po_PartialOutput := failed \<and> 0 < co_BytesWritten r,
                po_ClientCancelled := failed \<and> cancelled,
                po_Err := (if failed \<and> cancelled then Some Cancelled else co_Err r) \<rparr>)"

lemma attempt_node_passes:
  assumes "passed_over sv ne rq model store i nodeID"
  shows "\<exists>err s. attempt_node sv ne rq nodes model i nodeID w store = Some (Continue err w s) \<and> same_nodes store s"
proof (cases "nodeProxyURL (sv_cfg sv) (Snapshot store) nodeID (fr_path rq) = []")
  case True
  then show ?thesis by (simp add: attempt_node_def)
next
  case False
  with assms obtain sent where sent: "rewriteModel (sv_json sv) (fr_body rq) model = Some sent"
    by (auto simp: passed_over_def met_def Let_def split: option.splits)
  show ?thesis
  proof (cases "ne_attempt ne i (nodeProxyURL (sv_cfg sv) (Snapshot store) nodeID (fr_path rq)) sent")
    case (NewRequestError m)
    then show ?thesis using assms False sent by (simp add: passed_over_def met_def)
  next
    case (TransportError m c)
    then show ?thesis using assms False sent by (simp add: passed_over_def met_def attempt_node_def)
  next
    case (Upstream resp c)
    with assms False sent have
      "500 \<le> rp_status resp \<or> (rp_status resp < 400 \<and> unreadable (fr_stream rq) resp \<and> \<not> c)"
      by (simp add: passed_over_def met_def)
    then show ?thesis
      using Upstream False sent copy_unreadable [of "fr_stream rq" resp w]
      by (auto simp: attempt_node_def)
  qed
qed

lemma attempt_node_returns:
  assumes "\<not> passed_over sv ne rq model store i nodeID" "met sv ne rq model store i nodeID = Some a"
  shows "\<exists>s. attempt_node sv ne rq nodes model i nodeID w store =
    Some (Return (reported rq i nodeID a w) (answer sv rq a w) s) \<and> same_nodes store s"
proof -
  let ?url = "nodeProxyURL (sv_cfg sv) (Snapshot store) nodeID (fr_path rq)"
  from assms(2) obtain sent where u: "?url \<noteq> []"
    and sent: "rewriteModel (sv_json sv) (fr_body rq) model = Some sent" "a = ne_attempt ne i ?url sent"
    by (auto simp: met_def Let_def split: if_splits)
  show ?thesis
  proof (cases a)
    case (NewRequestError m)
    then show ?thesis using u sent by (auto simp: attempt_node_def reported_def answer_def)
  next
    case (TransportError m c)
    then have c using assms u by (simp add: passed_over_def)
    then show ?thesis using TransportError u sent by (auto simp: attempt_node_def reported_def answer_def)
  next
    case (Upstream resp c)
    then have k: "rp_status resp < 500" "rp_status resp < 400 \<Longrightarrow> unreadable (fr_stream rq) resp \<Longrightarrow> c"
      using assms u by (auto simp: passed_over_def)
    obtain r w1 where cp: "copyUpstreamResponse resp (fr_stream rq) w = (r, w1)" by fastforce
    show ?thesis
    proof (cases "400 \<le> rp_status resp")
      case True
      then show ?thesis using Upstream u sent k(1)
        by (auto simp: attempt_node_def reported_def answer_def split: prod.split)
    next
      case False
      then show ?thesis
        using Upstream u sent k cp copy_committed [OF cp]
        by (cases "co_Err r") (auto simp: attempt_node_def reported_def answer_def zeroOutcome_def Let_def)
    qed
  qed
qed

lemma attempt_node_panics:
  "\<not> passed_over sv ne rq model store i nodeID \<Longrightarrow> met sv ne rq model store i nodeID = None \<Longrightarrow>
     attempt_node sv ne rq nodes model i nodeID w store = None"
  by (auto simp: passed_over_def met_def attempt_node_def Let_def split: if_splits)

lemma passed_over_same: "same_nodes s t \<Longrightarrow> passed_over sv ne rq model t = passed_over sv ne rq model s"
  "same_nodes s t \<Longrightarrow> met sv ne rq model t = met sv ne rq model s"
  by (intro ext, simp add: passed_over_def met_def same_nodes_url)+

lemma same_nodes_eq: "same_nodes s t \<Longrightarrow> same_nodes t = same_nodes s"
  by (auto simp: same_nodes_def fun_eq_iff)

text \<open>The whole loop, as a search for the first attempt that settles the request.\<close>

definition settled :: "Server \<Rightarrow> net_env \<Rightarrow> request \<Rightarrow> string \<Rightarrow> Store \<Rightarrow> nat \<Rightarrow> string list \<Rightarrow> (nat \<times> string) option" where
  "settled sv ne rq model store i ns = find (\<lambda>(j, n). \<not> passed_over sv ne rq model store j n) (enumerate i ns)"

definition forwarded :: "Server \<Rightarrow> net_env \<Rightarrow> request \<Rightarrow> string list \<Rightarrow> string \<Rightarrow> nat \<Rightarrow> string list \<Rightarrow> proxy_error option
    \<Rightarrow> Writer \<Rightarrow> Store \<Rightarrow> (proxyOutcome \<times> Writer \<times> Store) option \<Rightarrow> bool" where
  "forwarded sv ne rq nodes model i ns lastErr w store res \<longleftrightarrow>
    (case settled sv ne rq model store i ns of
       None \<Rightarrow> \<exists>err s. res = Some (zeroOutcome\<lparr> po_FallbackUsed := 1 < length nodes, po_Err := err \<rparr>, w, s) \<and>
         same_nodes store s \<and> (err = None \<longleftrightarrow> ns = [] \<and> lastErr = None)
     | Some (j, n) \<Rightarrow>
        (case met sv ne rq model store j n of
           None \<Rightarrow> res = None
         | Some a \<Rightarrow> \<exists>s. res = Some (reported rq j n a w, answer sv rq a w, s) \<and> same_nodes store s))"

lemma forward_from_spec:
  "forwarded sv ne rq nodes model i ns lastErr w store
     (forward_from sv ne rq nodes model i ns lastErr w store)"
proof (induction ns arbitrary: i lastErr store)
  case Nil
  then show ?case by (auto simp: forwarded_def settled_def)
next
  case (Cons n ns)
  show ?case
  proof (cases "passed_over sv ne rq model store i n")
    case True
    then obtain err s where a: "attempt_node sv ne rq nodes model i n w store = Some (Continue err w s)"
      and s: "same_nodes store s" using attempt_node_passes by blast
    have "settled sv ne rq model store i (n # ns) = settled sv ne rq model s (Suc i) ns"
      using True passed_over_same [OF s] by (simp add: settled_def)
    then have "forwarded sv ne rq nodes model i (n # ns) lastErr w store =
        forwarded sv ne rq nodes model (Suc i) ns (Some err) w s"
      by (intro ext) (simp add: forwarded_def passed_over_same [OF s] same_nodes_eq [OF s] cong: option.case_cong)
    with a Cons [of "Suc i" "Some err" s] show ?thesis by simp
  next
    case False
    then have t: "settled sv ne rq model store i (n # ns) = Some (i, n)" by (simp add: settled_def)
    show ?thesis
    proof (cases "met sv ne rq model store i n")
      case None
      then show ?thesis using attempt_node_panics [OF False] t by (simp add: forwarded_def)
    next
      case (Some a)
      obtain s where "attempt_node sv ne rq nodes model i n w store =
          Some (Return (reported rq i n a w) (answer sv rq a w) s)" "same_nodes store s"
        using attempt_node_returns [OF False Some] by blast
      then show ?thesis using t Some by (auto simp: forwarded_def)
    qed
  qed
qed

lemma forward_spec:
  "forwarded sv ne rq (d_SelectedNode d # d_FallbackNodes d) (d_ResolvedModel d) 0
     (d_SelectedNode d # d_FallbackNodes d) None w store (forwardWithFallback sv ne rq d w store)"
  unfolding forwardWithFallback_def Let_def by (rule forward_from_spec)

lemma forward_cases:
  fixes sv ne rq d w store
  defines "first \<equiv> settled sv ne rq (d_ResolvedModel d) store 0 (d_SelectedNode d # d_FallbackNodes d)"
  obtains (exhausted) err s where "first = None" "forwardWithFallback sv ne rq d w store =
      Some (zeroOutcome\<lparr> po_FallbackUsed := d_FallbackNodes d \<noteq> [], po_Err := Some err \<rparr>, w, s)"
  | (panics) i n where "first = Some (i, n)" "met sv ne rq (d_ResolvedModel d) store i n = None"
      "forwardWithFallback sv ne rq d w store = None"
  | (settled) i n a s where "first = Some (i, n)" "met sv ne rq (d_ResolvedModel d) store i n = Some a"
      "forwardWithFallback sv ne rq d w store = Some (reported rq i n a w, answer sv rq a w, s)"
proof (cases first)
  case None
  then show thesis
    using forward_spec [of sv ne rq d w store] exhausted by (auto simp: forwarded_def first_def)
next
  case (Some p)
  obtain i n where p: "p = (i, n)" by (cases p)
  show thesis
    by (cases "met sv ne rq (d_ResolvedModel d) store i n")
      (use Some p forward_spec [of sv ne rq d w store] panics settled in \<open>auto simp: forwarded_def first_def\<close>)
qed

lemma settled_kept:
  "settled sv ne rq model store k ns = Some (i, n) \<Longrightarrow>
     \<not> passed_over sv ne rq model store i n \<and> k \<le> i \<and> i - k < length ns \<and> n = ns ! (i - k) \<and> n \<in> set ns"
  unfolding settled_def by (auto simp: find_Some_iff in_set_enumerate_eq nth_enumerate_eq)

lemma rewriteModel_None:
  "rewriteModel js body model = None \<longleftrightarrow> payload_of js body = NilMap \<and> model \<noteq> []"
  by (auto simp: rewriteModel_def split: payload.split)

lemma met_None:
  "met sv ne rq model store i n = None \<longleftrightarrow>
     nodeProxyURL (sv_cfg sv) (Snapshot store) n (fr_path rq) = [] \<or>
     (payload_of (sv_json sv) (fr_body rq) = NilMap \<and> model \<noteq> [])"
  by (auto simp: met_def Let_def rewriteModel_None)

section \<open>Properties\<close>

text \<open>Forwarding as a whole: the attempts are made in the order of the decision, a node is passed over
  only without an address, on a transport error, on a status of 500 or more, or when its
  answer fails before its first byte, and the first attempt that is not passed over settles the request:
  the outcome and everything the client has received are what this one attempt gives. When
  every node is passed over the client has received nothing and the outcome has the last error.\<close>

theorem forward_settles:
  "case settled sv ne rq (d_ResolvedModel d) store 0 (d_SelectedNode d # d_FallbackNodes d) of
     None \<Rightarrow> \<exists>err s. forwardWithFallback sv ne rq d w store =
       Some (zeroOutcome\<lparr> po_FallbackUsed := d_FallbackNodes d \<noteq> [], po_Err := Some err \<rparr>, w, s)
   | Some (i, n) \<Rightarrow>
      (case met sv ne rq (d_ResolvedModel d) store i n of
         None \<Rightarrow> forwardWithFallback sv ne rq d w store = None
       | Some a \<Rightarrow> \<exists>s. forwardWithFallback sv ne rq d w store = Some (reported rq i n a w, answer sv rq a w, s))"
  by (rule forward_cases [of sv ne rq d store w]) auto

text \<open>C3. No output is ever mixed or repeated: when forwarding reports that no response was committed, the
  client's side is exactly as it was, so the handler may still answer with an error; and the
  outcome then has an error. When it reports a commitment, it names the node of the one attempt that
  wrote, and counts a retry for each node before it.\<close>

theorem forward_commitment:
  assumes "forwardWithFallback sv ne rq d w store = Some (out, w1, s)"
  shows "if po_ResponseCommitted out
         then \<exists>i resp c. i < length (d_SelectedNode d # d_FallbackNodes d) \<and>
           po_SelectedNode out = (d_SelectedNode d # d_FallbackNodes d) ! i \<and> po_RetryCount out = int i \<and>
           met sv ne rq (d_ResolvedModel d) store i (po_SelectedNode out) = Some (Upstream resp c) \<and>
           w1 = answer sv rq (Upstream resp c) w
         else w1 = w \<and> po_Err out \<noteq> None \<and> po_BytesWritten out = 0 \<and> \<not> po_PartialOutput out"
proof (cases rule: forward_cases [of sv ne rq d store w])
  case exhausted
  then show ?thesis using assms by (auto simp: zeroOutcome_def)
next
  case panics
  then show ?thesis using assms by simp
next
  case (settled i n a)
  then have o: "out = reported rq i n a w" "w1 = answer sv rq a w" using assms by auto
  note k = settled_kept [OF settled(1)]
  show ?thesis
  proof (cases a)
    case (Upstream resp c)
    obtain r w2 where cp: "copyUpstreamResponse resp (fr_stream rq) w = (r, w2)" by fastforce
    show ?thesis
      using settled(2) o Upstream k cp copy_committed [OF cp] copy_unreadable [of "fr_stream rq" resp w]
      by (cases "400 \<le> rp_status resp"; cases "unreadable (fr_stream rq) resp")
        (auto simp: reported_def answer_def zeroOutcome_def Let_def)
  qed (use o in \<open>auto simp: reported_def answer_def zeroOutcome_def\<close>)
qed

text \<open>C4. What success means: when forwarding returns without an error, the answer came from one node of the
  decision, with a status below 400, and as long as the client's connection reports its
  short writes (streaming checks them itself) the client has received the status and headers of
  that answer and its whole body, which ended well, and the count of bytes is its length.\<close>

theorem forward_success:
  assumes "forwardWithFallback sv ne rq d w store = Some (out, w1, s)" "po_Err out = None"
  shows "\<exists>i resp c. met sv ne rq (d_ResolvedModel d) store i (po_SelectedNode out) = Some (Upstream resp c) \<and>
    rp_status resp < 400 \<and> po_SelectedNode out \<in> set (d_SelectedNode d # d_FallbackNodes d) \<and>
    (fr_stream rq \<or> writer_contract (length (received (rp_reads resp))) w \<longrightarrow>
       intact (rp_reads resp) \<and> wr_body w1 = wr_body w @ received (rp_reads resp) \<and>
       wr_header w1 = wr_header w @ rp_header resp \<and> po_BytesWritten out = int (length (received (rp_reads resp))) \<and>
       (wr_status w = None \<longrightarrow> wr_status w1 = Some (rp_status resp)))"
proof (cases rule: forward_cases [of sv ne rq d store w])
  case exhausted
  then show ?thesis using assms by auto
next
  case panics
  then show ?thesis using assms by simp
next
  case (settled i n a)
  then have out: "out = reported rq i n a w" "w1 = answer sv rq a w" using assms(1) by auto
  note k = settled_kept [OF settled(1)]
  then have mem: "n \<in> set (d_SelectedNode d # d_FallbackNodes d)" by blast
  show ?thesis
  proof (cases a)
    case (Upstream resp c)
    obtain r w2 where cp: "copyUpstreamResponse resp (fr_stream rq) w = (r, w2)" by fastforce
    have st: "rp_status resp < 400"
      using assms(2) out(1) Upstream by (auto simp: reported_def Let_def split: if_splits)
    then have e: "co_Err r = None" and o: "w1 = w2" "po_SelectedNode out = n" "po_BytesWritten out = co_BytesWritten r"
      using assms(2) out Upstream cp by (auto simp: reported_def answer_def zeroOutcome_def Let_def split: if_splits)
    have u: "\<not> unreadable (fr_stream rq) resp" using e cp copy_unreadable [of "fr_stream rq" resp w] by auto
    show ?thesis
      using copy_delivers [OF cp u] e o st mem settled(2) Upstream
      by (intro exI [of _ i] exI [of _ resp] exI [of _ c]) (auto simp: delivered_def opened_def)
  qed (use out assms(2) in \<open>auto simp: reported_def\<close>)
qed

text \<open>Forwarding always returns, except for one request body: it panics exactly when the body is the
  JSON value \<^verbatim>\<open>null\<close>, a model was resolved and some node of the decision has an address.\<close>

theorem forward_panics:
  "forwardWithFallback sv ne rq d w store = None \<longleftrightarrow>
     payload_of (sv_json sv) (fr_body rq) = NilMap \<and> d_ResolvedModel d \<noteq> [] \<and>
     (\<exists>n \<in> set (d_SelectedNode d # d_FallbackNodes d).
        nodeProxyURL (sv_cfg sv) (Snapshot store) n (fr_path rq) \<noteq> [])"
proof -
  let ?ns = "d_SelectedNode d # d_FallbackNodes d" and ?m = "d_ResolvedModel d"
  let ?url = "\<lambda>n. nodeProxyURL (sv_cfg sv) (Snapshot store) n (fr_path rq)"
  let ?null = "payload_of (sv_json sv) (fr_body rq) = NilMap \<and> ?m \<noteq> []"
  have po: "passed_over sv ne rq ?m store i n \<longleftrightarrow> ?url n = []" if ?null for i n
    using that by (auto simp: passed_over_def met_def Let_def rewriteModel_None [THEN iffD2])
  have all: "settled sv ne rq ?m store 0 ?ns = None \<longleftrightarrow> (\<forall>n \<in> set ?ns. ?url n = [])" if ?null
  proof -
    have "settled sv ne rq ?m store 0 ?ns = None \<longleftrightarrow> (\<forall>p \<in> set (enumerate 0 ?ns). ?url (snd p) = [])"
      by (auto simp: settled_def find_None_iff po [OF that])
    also have "\<dots> \<longleftrightarrow> (\<forall>n \<in> snd ` set (enumerate 0 ?ns). ?url n = [])" by simp
    finally show ?thesis by (simp only: set_map [symmetric] map_snd_enumerate)
  qed
  show ?thesis
  proof (cases rule: forward_cases [of sv ne rq d store w])
    case exhausted
    then show ?thesis using all by auto
  next
    case (panics i n)
    from settled_kept [OF panics(1)] have "?url n \<noteq> []" "n \<in> set ?ns"
      by (auto simp: passed_over_def)
    then show ?thesis using panics(2,3) by (auto simp: met_None)
  next
    case (settled i n a)
    then show ?thesis using met_None [of sv ne rq ?m store i n] settled_kept [OF settled(1)] by auto
  qed
qed

section \<open>A concrete request\<close>

text \<open>Two nodes; the first answers 503, the second streams an answer in two chunks.\<close>

definition proxyStore :: Store where
  "proxyStore = \<lparr> s_state = (fresh_state sampleEnv (Default ''marshal''))\<lparr>
     st_Nodes := [(''a'', zeroNode\<lparr> n_URL := ''http://a/'' \<rparr>), (''b'', zeroNode\<lparr> n_URL := ''http://b'' \<rparr>)] \<rparr>, s_file = NoFile \<rparr>"

definition plainCodec :: server_codec where
  "plainCodec = \<lparr> decode = \<lambda>_. None, marshal = \<lambda>_. Some ''{}'',
     unmarshal = (\<lambda>text. if text = ''null'' then Some JNull else None) \<rparr>"

definition proxyServer :: Server where
  "proxyServer = \<lparr> sv_cfg = Default ''marshal'', sv_tele = NewSink (Default ''marshal''), sv_json = plainCodec \<rparr>"

definition proxyAnswer :: Response where
  "proxyAnswer = \<lparr> rp_status = 200, rp_statusText = ''200 OK'', rp_header = [(''Content-Type'', ''text/plain'')],
     rp_reads = [(''hel'', More), (''lo'', EOF)] \<rparr>"

definition proxyNet :: net_env where
  "proxyNet = \<lparr> ne_env = sampleEnv, ne_hec = None, ne_attempt = (\<lambda>i url sent.
     Upstream (if url = ''http://b/subscriber/proxy/api/chat'' then proxyAnswer
               else proxyAnswer\<lparr> rp_status := 503 \<rparr>) False) \<rparr>"

definition proxyRequest :: request where
  "proxyRequest = \<lparr> fr_requestID = ''req_1'', fr_path = ''/api/chat'', fr_body = ''{}'', fr_stream = True \<rparr>"

definition proxyDecision :: Decision where
  "proxyDecision = \<lparr> d_ModelAlias = [], d_ResolvedModel = ''m'', d_SelectedNode = ''a'', d_CandidateNodes = [''a'', ''b''],
     d_CandidateMetadata = [], d_FallbackNodes = [''b''], d_ExcludedNodes = [], d_Strategy = [], d_Reasons = [],
     d_ExecutionMode = [], d_Affinity = [], d_ConsensusRequired = 0, d_ConsensusLimit = 0 \<rparr>"

definition freshWriter :: Writer where
  "freshWriter = \<lparr> wr_header = [], wr_status = None, wr_body = [], wr_plan = [] \<rparr>"

lemma proxyStore_url:
  "nodeProxyURL cfg (Snapshot proxyStore) ''a'' path = ''http://a/subscriber/proxy'' @ path"
  "nodeProxyURL cfg (Snapshot proxyStore) ''b'' path = ''http://b/subscriber/proxy'' @ path"
  by (simp_all add: nodeProxyURL_def Snapshot_nodes proxyStore_def goget_def jsonNode_def zeroNode_def TrimRight_def)

lemma proxy_met:
  "met proxyServer proxyNet proxyRequest ''m'' proxyStore 0 ''a'' = Some (Upstream (proxyAnswer\<lparr> rp_status := 503 \<rparr>) False)"
  "met proxyServer proxyNet proxyRequest ''m'' proxyStore i ''b'' = Some (Upstream proxyAnswer False)"
  by (simp_all add: met_def proxyStore_url proxyServer_def proxyNet_def proxyRequest_def rewriteModel_def
      payload_of_def plainCodec_def)

lemma proxy_settled: "settled proxyServer proxyNet proxyRequest ''m'' proxyStore 0 [''a'', ''b''] = Some (1, ''b'')"
proof -
  have "passed_over proxyServer proxyNet proxyRequest ''m'' proxyStore 0 ''a''"
    by (simp add: passed_over_def proxy_met)
  moreover have "\<not> passed_over proxyServer proxyNet proxyRequest ''m'' proxyStore 1 ''b''"
    by (simp add: passed_over_def proxy_met proxyStore_url)
      (simp add: proxyAnswer_def unreadable_def)
  ultimately show ?thesis by (simp add: settled_def)
qed

lemma proxy_forwarded:
  "\<exists>s. forwardWithFallback proxyServer proxyNet proxyRequest proxyDecision freshWriter proxyStore =
     Some (reported proxyRequest 1 ''b'' (Upstream proxyAnswer False) freshWriter,
       answer proxyServer proxyRequest (Upstream proxyAnswer False) freshWriter, s)"
  by (rule forward_cases [of proxyServer proxyNet proxyRequest proxyDecision proxyStore freshWriter])
    (use proxy_settled proxy_met in \<open>simp_all add: proxyDecision_def\<close>)

lemma proxy_reported:
  "po_Err (reported proxyRequest 1 ''b'' (Upstream proxyAnswer False) freshWriter) = None"
  "po_SelectedNode (reported proxyRequest 1 ''b'' (Upstream proxyAnswer False) freshWriter) = ''b''"
  "po_ResponseCommitted (reported proxyRequest 1 ''b'' (Upstream proxyAnswer False) freshWriter)"
  by (simp_all add: reported_def proxyAnswer_def proxyRequest_def freshWriter_def copyUpstreamResponse_def Let_def
      WriteHeader_def copyResponseHeaders_def Add_def Write_def after_chunk_def zeroOutcome_def)

text \<open>Witness: the client of this request gets the answer of the second node, byte for byte.\<close>

theorem forward_success_witness:
  "\<exists>out w1 s. forwardWithFallback proxyServer proxyNet proxyRequest proxyDecision freshWriter proxyStore =
     Some (out, w1, s) \<and> po_Err out = None \<and> wr_body w1 = ''hello'' \<and> wr_status w1 = Some 200"
proof -
  obtain s where f: "forwardWithFallback proxyServer proxyNet proxyRequest proxyDecision freshWriter proxyStore =
      Some (reported proxyRequest 1 ''b'' (Upstream proxyAnswer False) freshWriter,
        answer proxyServer proxyRequest (Upstream proxyAnswer False) freshWriter, s)"
    using proxy_forwarded by blast
  have "fr_stream proxyRequest" by (simp add: proxyRequest_def)
  then show ?thesis
    using f forward_success [OF f proxy_reported(1)] proxy_reported proxy_met(2)
    by (auto simp: proxyDecision_def freshWriter_def) (auto simp: proxyAnswer_def)
qed

text \<open>Witness: the same request, committed at its second attempt.\<close>

theorem forward_commitment_witness:
  "\<exists>out w1 s. forwardWithFallback proxyServer proxyNet proxyRequest proxyDecision freshWriter proxyStore =
     Some (out, w1, s) \<and> po_ResponseCommitted out \<and> po_RetryCount out = 1"
proof -
  obtain s where f: "forwardWithFallback proxyServer proxyNet proxyRequest proxyDecision freshWriter proxyStore =
      Some (reported proxyRequest 1 ''b'' (Upstream proxyAnswer False) freshWriter,
        answer proxyServer proxyRequest (Upstream proxyAnswer False) freshWriter, s)"
    using proxy_forwarded by blast
  then show ?thesis
    using forward_commitment [OF f] proxy_reported
    by (auto simp: proxyDecision_def nth_Cons' split: if_splits)
qed

end
