(* ===== verification/ConsensusProxy.thy ===== *)
theory ConsensusProxy
  imports Proxy
begin

text \<open>
  \<^verbatim>\<open>internal/httpapi/consensus.go\<close>: one request sent to several nodes at once, the answers collected in the
  order they arrive until all are there, the client leaves or the time is up, and the
  winner of the consensus engine sent to the client. The network and the interleaving are the
  environment: what each participant's request meets, and the order of the arrivals.
\<close>

section \<open>Fetching one participant\<close>

definition consensusMaxResponseBytes :: nat where "consensusMaxResponseBytes = 8388608"

definition consensusFailureMissingProxyURL :: string where "consensusFailureMissingProxyURL = ''missing_proxy_url''"
definition consensusFailureConnectionError :: string where "consensusFailureConnectionError = ''connection_error''"
definition consensusFailureUpstream4xx :: string where "consensusFailureUpstream4xx = ''upstream_4xx''"
definition consensusFailureUpstream5xx :: string where "consensusFailureUpstream5xx = ''upstream_5xx''"
definition consensusFailureBodyRead :: string where "consensusFailureBodyRead = ''body_read_failure''"
definition consensusFailureResponseSize :: string where "consensusFailureResponseSize = ''response_size_limit''"
definition consensusFailureTimeout :: string where "consensusFailureTimeout = ''timeout''"
definition consensusFailureCancellation :: string where "consensusFailureCancellation = ''cancellation''"

datatype ctx_err = NoErr | DeadlineExceeded | Canceled

datatype consensus_error =
    InsufficientSuccesses
  | ResponseTooLarge
  | WinnerMissing
  | Context ctx_err
  | Participant proxy_error
  | Client string

record consensusParticipantOutcome =
  cp_NodeID :: string
  cp_StatusCode :: int
  cp_Header :: "(string \<times> string) list"
  cp_Body :: string
  cp_DurationMS :: int
  cp_FailureReason :: string
  cp_Err :: "consensus_error option"

record ConsensusParticipantFailure =
  pf_NodeID :: string
  pf_ReasonCode :: string
  pf_StatusCode :: int
  pf_DurationMS :: int

text \<open>What the request of a participant meets, with the state of the fan-out context when the transport
  or the reading of the body fails.\<close>

datatype fetch_event =
    FetchNewRequestError string
  | FetchTransportError string ctx_err
  | FetchUpstream Response ctx_err

text \<open>\<^verbatim>\<open>io.ReadAll\<close> of an \<^verbatim>\<open>io.LimitReader\<close>: the bytes read and the error, if any.\<close>

fun ReadLimited :: "nat \<Rightarrow> string \<Rightarrow> (string \<times> read_end) list \<Rightarrow> string \<times> string option" where
  "ReadLimited limit acc [] = (acc, None)"
| "ReadLimited limit acc ((chunk, err) # rs) =
    (if limit = 0 then (acc, None)
     else if limit < length chunk then (acc @ take limit chunk, None)
     else case err of
            More \<Rightarrow> ReadLimited (limit - length chunk) (acc @ chunk) rs
          | EOF \<Rightarrow> (acc @ chunk, None)
          | ReadFail m \<Rightarrow> (acc @ chunk, Some m))"

definition consensusFailureReasonForContext :: "ctx_err \<Rightarrow> string \<Rightarrow> string" where
  "consensusFailureReasonForContext ctx fallback =
    (case ctx of DeadlineExceeded \<Rightarrow> consensusFailureTimeout | Canceled \<Rightarrow> consensusFailureCancellation
     | NoErr \<Rightarrow> fallback)"

text \<open>The environment of a fan-out: what each participant's request meets, by its position, URL and body,
  how long each took, and how long the collection took.\<close>

record fan_env =
  fe_fetch :: "nat \<Rightarrow> string \<Rightarrow> string \<Rightarrow> fetch_event"
  fe_ms :: "nat \<Rightarrow> int"
  fe_total_ms :: int

text \<open>\<^term>\<open>None\<close> is the panic of \<^verbatim>\<open>rewriteModel\<close>, here in a goroutine of its own.\<close>

definition fetchConsensusParticipant ::
  "Server \<Rightarrow> fan_env \<Rightarrow> Store \<Rightarrow> nat \<Rightarrow> string \<Rightarrow> string \<Rightarrow> string \<Rightarrow> string \<Rightarrow> consensusParticipantOutcome option" where
  "fetchConsensusParticipant sv fe store i nodeID path body model =
    (let outcome = \<lparr> cp_NodeID = nodeID, cp_StatusCode = 0, cp_Header = [], cp_Body = [],
           cp_DurationMS = fe_ms fe i, cp_FailureReason = [], cp_Err = None \<rparr>;
         url = nodeProxyURL (sv_cfg sv) (Snapshot store) nodeID path;
         fail = (\<lambda>o' reason err. Some (o'\<lparr> cp_FailureReason := reason, cp_Err := Some err \<rparr>))
     in if url = [] then fail outcome consensusFailureMissingProxyURL (Participant (NoProxyURL nodeID))
        else case rewriteModel (sv_json sv) body model of
          None \<Rightarrow> None
        | Some sent \<Rightarrow>
         (case fe_fetch fe i url sent of
            FetchNewRequestError m \<Rightarrow> fail outcome consensusFailureConnectionError (Participant (BadRequest m))
          | FetchTransportError m ctx \<Rightarrow>
              fail outcome (consensusFailureReasonForContext ctx consensusFailureConnectionError) (Participant (Transport m))
          | FetchUpstream resp ctx \<Rightarrow>
              let outcome = outcome\<lparr> cp_StatusCode := rp_status resp, cp_Header := rp_header resp \<rparr> in
              if 500 \<le> rp_status resp then
                fail outcome consensusFailureUpstream5xx (Participant (UpstreamStatus nodeID (rp_statusText resp)))
              else if 400 \<le> rp_status resp then
                fail outcome consensusFailureUpstream4xx (Participant (UpstreamStatus nodeID (rp_statusText resp)))
              else
                let (data, err) = ReadLimited (consensusMaxResponseBytes + 1) [] (rp_reads resp);
                    outcome = outcome\<lparr> cp_Body := data \<rparr> in
                case err of
                  Some m \<Rightarrow> fail outcome (consensusFailureReasonForContext ctx consensusFailureBodyRead) (Participant (BodyRead m))
                | None \<Rightarrow>
                    if consensusMaxResponseBytes < length data
                    then fail (outcome\<lparr> cp_Body := [] \<rparr>) consensusFailureResponseSize ResponseTooLarge
                    else Some outcome))"

definition consensusParticipantFailure :: "consensusParticipantOutcome \<Rightarrow> ConsensusParticipantFailure" where
  "consensusParticipantFailure o' =
    \<lparr> pf_NodeID = cp_NodeID o',
      pf_ReasonCode = (if cp_FailureReason o' = [] then consensusFailureConnectionError else cp_FailureReason o'),
      pf_StatusCode = cp_StatusCode o',
      pf_DurationMS = (if cp_DurationMS o' < 0 then 0 else cp_DurationMS o') \<rparr>"

section \<open>The fan-out\<close>

record consensusProxyOutcome =
  cx_Participants :: "string list"
  cx_SuccessfulNodes :: "string list"
  cx_FailedNodes :: "string list"
  cx_ParticipantFailures :: "ConsensusParticipantFailure list"
  cx_FailureReasonCounts :: "(string, int) gomap"
  cx_WinnerNode :: string
  cx_Required :: int
  cx_Limit :: int
  cx_AgreementScore :: rat
  cx_AgreementCount :: int
  cx_ComparisonStrategy :: string
  cx_ConsensusReached :: bool
  cx_Disagreement :: bool
  cx_ValidatorPassed :: bool
  cx_BytesWritten :: int
  cx_ResponseCommitted :: bool
  cx_ClientCancelled :: bool
  cx_TimedOut :: bool
  cx_DurationMS :: int
  cx_Err :: "consensus_error option"

text \<open>What the collecting loop can meet: the result of the participant at a position, or the end of the
  fan-out context, by the client's leaving or by the deadline.\<close>

datatype arrival = Arrived nat | Done bool

record collected =
  cl_responses :: "(string, consensusParticipantOutcome) gomap"
  cl_failures :: "(string, ConsensusParticipantFailure) gomap"
  cl_ClientCancelled :: bool
  cl_TimedOut :: bool

definition receive :: "consensusParticipantOutcome \<Rightarrow> collected \<Rightarrow> collected" where
  "receive response c =
    (if cp_Err response \<noteq> None
     then c\<lparr> cl_failures := goput (cp_NodeID response) (consensusParticipantFailure response) (cl_failures c) \<rparr>
     else c\<lparr> cl_responses := goput (cp_NodeID response) response (cl_responses c) \<rparr>)"

text \<open>The loop over the number of results still missing; \<^term>\<open>None\<close> when the arrivals end while it waits.\<close>

fun collect :: "consensusParticipantOutcome list \<Rightarrow> nat \<Rightarrow> arrival list \<Rightarrow> collected \<Rightarrow> collected option" where
  "collect outs 0 arrivals c = Some c"
| "collect outs (Suc missing) [] c = None"
| "collect outs (Suc missing) (Arrived i # arrivals) c = collect outs missing arrivals (receive (outs ! i) c)"
| "collect outs (Suc missing) (Done cancelled # arrivals) c =
    Some (if cancelled then c\<lparr> cl_ClientCancelled := True \<rparr> else c\<lparr> cl_TimedOut := True \<rparr>)"

text \<open>The loop that sorts the participants into successful and failed ones.\<close>

definition account :: "int \<Rightarrow> collected \<Rightarrow> string \<Rightarrow> consensusProxyOutcome \<Rightarrow> consensusProxyOutcome" where
  "account ms c nodeID o' =
    (case goget (cl_responses c) nodeID of
       Some _ \<Rightarrow> o'\<lparr> cx_SuccessfulNodes := cx_SuccessfulNodes o' @ [nodeID] \<rparr>
     | None \<Rightarrow>
        let unfinished = (if cl_ClientCancelled c then consensusFailureCancellation
                          else if cl_TimedOut c then consensusFailureTimeout
                          else consensusFailureConnectionError);
            failure = (case goget (cl_failures c) nodeID of
                         Some f \<Rightarrow> f
                       | None \<Rightarrow> \<lparr> pf_NodeID = nodeID, pf_ReasonCode = unfinished, pf_StatusCode = 0, pf_DurationMS = ms \<rparr>)
        in o'\<lparr> cx_FailedNodes := cx_FailedNodes o' @ [nodeID],
               cx_ParticipantFailures := cx_ParticipantFailures o' @ [failure],
               cx_FailureReasonCounts := bump (pf_ReasonCode failure) (cx_FailureReasonCounts o') \<rparr>)"

fun Itoa :: "nat \<Rightarrow> string" where
  "Itoa n = (if n < 10 then [digit_char n] else Itoa (n div 10) @ [digit_char (n mod 10)])"

declare Itoa.simps [simp del]

text \<open>\<^verbatim>\<open>%.3f\<close> of a score between 0 and 1.\<close>

definition format_score :: "rat \<Rightarrow> string" where
  "format_score q = (let n = nat \<lfloor>q * 1000 + 1 / 2\<rfloor> in Itoa (n div 1000) @ ''.'' @ digits_w 3 (n mod 1000))"

definition consensusDebugState :: "consensusProxyOutcome \<Rightarrow> string" where
  "consensusDebugState o' = (if cx_ConsensusReached o' then ''reached'' else ''no_majority'')"

definition debug_headers :: "consensusProxyOutcome \<Rightarrow> Writer \<Rightarrow> Writer" where
  "debug_headers o' w =
    SetHeader ''X-Llama-Wrangler-Consensus-Winner'' (cx_WinnerNode o')
    (SetHeader ''X-Llama-Wrangler-Consensus-Agreement'' (format_score (cx_AgreementScore o'))
    (SetHeader ''X-Llama-Wrangler-Consensus-Participants'' (Itoa (length (cx_SuccessfulNodes o')))
    (SetHeader ''X-Llama-Wrangler-Consensus'' (consensusDebugState o') w)))"

definition zeroConsensus :: consensusProxyOutcome where
  "zeroConsensus = \<lparr> cx_Participants = [], cx_SuccessfulNodes = [], cx_FailedNodes = [], cx_ParticipantFailures = [],
     cx_FailureReasonCounts = [], cx_WinnerNode = [], cx_Required = 0, cx_Limit = 0, cx_AgreementScore = 0,
     cx_AgreementCount = 0, cx_ComparisonStrategy = [], cx_ConsensusReached = False, cx_Disagreement = False,
     cx_ValidatorPassed = False, cx_BytesWritten = 0, cx_ResponseCommitted = False, cx_ClientCancelled = False,
     cx_TimedOut = False, cx_DurationMS = 0, cx_Err = None \<rparr>"

text \<open>What follows the collection: the engine, and the winner's answer to the client.\<close>

definition consensusEngine :: "server_codec \<Rightarrow> Engine" where
  "consensusEngine js = \<lparr> en_codec = codec.truncate js, en_Validator = None, en_Evaluator = Some (\<lambda>_ _. 0) \<rparr>"

definition consensusCandidates :: "collected \<Rightarrow> string list \<Rightarrow> Candidate list" where
  "consensusCandidates c participants =
    List.map_filter (\<lambda>n. map_option (\<lambda>r. \<lparr> cd_NodeID = n, cd_Body = cp_Body r \<rparr>) (goget (cl_responses c) n)) participants"

definition answer_winner :: "Result \<Rightarrow> consensusParticipantOutcome \<Rightarrow> bool \<Rightarrow> consensusProxyOutcome \<Rightarrow> Writer
    \<Rightarrow> consensusProxyOutcome \<times> Writer" where
  "answer_winner result winner debug o' w =
    (let o' = o'\<lparr> cx_WinnerNode := cp_NodeID winner, cx_AgreementScore := rr_AgreementScore result,
           cx_AgreementCount := int (rr_AgreementCount result), cx_ComparisonStrategy := rr_Strategy result,
           cx_ConsensusReached := rr_ConsensusReached result, cx_Disagreement := rr_Disagreement result,
           cx_ValidatorPassed := rr_ValidatorPassed result, cx_Err := None \<rparr>;
         w = fold (\<lambda>(k, v). Add k v) (cp_Header winner) w;
         w = (if debug then debug_headers o' w else w);
         (written, err, w) = Write (cp_Body winner) (WriteHeader (cp_StatusCode winner) w)
     in (o'\<lparr> cx_BytesWritten := int written, cx_ResponseCommitted := True,
             cx_Err := map_option Client err \<rparr>, w))"

definition conclude_consensus :: "Server \<Rightarrow> fan_env \<Rightarrow> string \<Rightarrow> bool \<Rightarrow> collected \<Rightarrow> consensusProxyOutcome \<Rightarrow> Writer
    \<Rightarrow> consensusProxyOutcome \<times> Writer" where
  "conclude_consensus sv fe surface debug c o0 w =
    (let o1 = o0\<lparr> cx_ClientCancelled := cl_ClientCancelled c, cx_TimedOut := cl_TimedOut c,
           cx_Err := (if cl_ClientCancelled c then Some (Context Canceled)
                      else if cl_TimedOut c then Some (Context DeadlineExceeded) else None) \<rparr>;
         o2 = (fold (account (fe_total_ms fe) c) (cx_Participants o0) o1)\<lparr> cx_DurationMS := fe_total_ms fe \<rparr>
     in if cl_ClientCancelled c then (o2, w)
        else if int (length (cl_responses c)) < cx_Required o2 then (o2\<lparr> cx_Err := Some InsufficientSuccesses \<rparr>, w)
        else
          let result = Evaluate (consensusEngine (sv_json sv)) surface (consensusCandidates c (cx_Participants o0)) in
          case goget (cl_responses c) (cd_NodeID (rr_Winner result)) of
            None \<Rightarrow> (o2\<lparr> cx_Err := Some WinnerMissing \<rparr>, w)
          | Some winner \<Rightarrow> answer_winner result winner debug o2 w)"

text \<open>The results of all participants; \<^term>\<open>None\<close> if one of the goroutines panics, which ends the program.\<close>

definition fan_out :: "Server \<Rightarrow> fan_env \<Rightarrow> Store \<Rightarrow> string list \<Rightarrow> string \<Rightarrow> string \<Rightarrow> string
    \<Rightarrow> consensusParticipantOutcome list option" where
  "fan_out sv fe store participants path body model =
    those (map (\<lambda>(i, n). fetchConsensusParticipant sv fe store i n path body model) (enumerate 0 participants))"

datatype 'a run = Crashed | Waiting | Finished 'a

definition forwardConsensus :: "Server \<Rightarrow> fan_env \<Rightarrow> arrival list \<Rightarrow> Store \<Rightarrow> string \<Rightarrow> string \<Rightarrow> string \<Rightarrow> Decision \<Rightarrow> bool
    \<Rightarrow> Writer \<Rightarrow> (consensusProxyOutcome \<times> Writer) run" where
  "forwardConsensus sv fe arrivals store path surface body decision debug w =
    (let o0 = zeroConsensus\<lparr> cx_Participants := d_CandidateNodes decision,
           cx_Required := (if d_ConsensusRequired decision < 1 then ConsensusDefaultMinParticipants
                           else d_ConsensusRequired decision),
           cx_Limit := d_ConsensusLimit decision \<rparr>
     in if int (length (cx_Participants o0)) < cx_Required o0
        then Finished (o0\<lparr> cx_Err := Some InsufficientSuccesses \<rparr>, w)
        else case fan_out sv fe store (cx_Participants o0) path body (d_ResolvedModel decision) of
          None \<Rightarrow> Crashed
        | Some outs \<Rightarrow>
         (case collect outs (length (cx_Participants o0)) arrivals
            \<lparr> cl_responses = [], cl_failures = [], cl_ClientCancelled = False, cl_TimedOut = False \<rparr> of
            None \<Rightarrow> Waiting
          | Some c \<Rightarrow> Finished (conclude_consensus sv fe surface debug c o0 w)))"

section \<open>Failures, debugging, telemetry\<close>

definition consensusInferenceFailure :: "consensusProxyOutcome \<Rightarrow> int \<times> string \<times> string" where
  "consensusInferenceFailure o' =
    (let fs = cx_ParticipantFailures o';
         all4xx = list_all (\<lambda>f. pf_ReasonCode f = consensusFailureUpstream4xx \<and> 400 \<le> pf_StatusCode f \<and> pf_StatusCode f < 500) fs
     in if cx_SuccessfulNodes o' = [] \<and> fs \<noteq> [] \<and> all4xx then
          (let st = pf_StatusCode (hd fs); (code, message) = normalizedUpstreamError st in (st, code, message))
        else if cx_TimedOut o' \<or> 0 < (case goget (cx_FailureReasonCounts o') consensusFailureTimeout of None \<Rightarrow> 0 | Some n \<Rightarrow> n) then
          (504, ''consensus_insufficient_successful_participants'',
           ''Consensus timed out before enough Managed Node responses succeeded.'')
        else
          (502, ''consensus_insufficient_successful_participants'',
           ''Consensus did not receive enough successful Managed Node responses.''))"

definition consensusDebugRequested :: "server_codec \<Rightarrow> string \<Rightarrow> string \<Rightarrow> bool" where
  "consensusDebugRequested js header body \<longleftrightarrow>
    EqualFold (TrimSpace header) ''true'' \<or>
    (case payload_of js body of Members m \<Rightarrow> goget m ''debug'' = Some (JBool True) | _ \<Rightarrow> False)"

definition consensusEscalationReason :: "consensusProxyOutcome \<Rightarrow> bool \<Rightarrow> string" where
  "consensusEscalationReason o' recommended =
    (if \<not> recommended then [] else if cx_Err o' \<noteq> None then ''insufficient_successful_participants'' else ''no_majority'')"

text \<open>A list of structures appears in an event by its JSON members.\<close>

definition failure_fields :: "ConsensusParticipantFailure \<Rightarrow> gobj" where
  "failure_fields f = [(''node_id'', GStr (pf_NodeID f)), (''reason_code'', GStr (pf_ReasonCode f))] @
     (if pf_StatusCode f = 0 then [] else [(''status_code'', GInt (pf_StatusCode f))]) @
     [(''duration_ms'', GInt (pf_DurationMS f))]"

definition consensusTelemetry :: "Decision \<Rightarrow> string \<Rightarrow> consensusProxyOutcome \<Rightarrow> gobj" where
  "consensusTelemetry decision requestID o' =
    (let recommended = Contains (d_ExecutionMode decision) ''delta'' \<and> \<not> cx_ConsensusReached o' in
     [(''request_id'', GStr requestID), (''execution_mode'', GStr (d_ExecutionMode decision)),
      (''participants'', GStrs (cx_Participants o')), (''participant_count'', GInt (int (length (cx_Participants o')))),
      (''required_participants'', GInt (cx_Required o')), (''max_participants'', GInt (cx_Limit o')),
      (''successful_participants'', GStrs (cx_SuccessfulNodes o')),
      (''successful_count'', GInt (int (length (cx_SuccessfulNodes o')))),
      (''failed_participants'', GStrs (cx_FailedNodes o')), (''failed_count'', GInt (int (length (cx_FailedNodes o')))),
      (''participant_failures'', GMaps (map failure_fields (cx_ParticipantFailures o'))),
      (''failure_reason_counts'', GCounts (cx_FailureReasonCounts o')),
      (''agreement_score'', GFloat (cx_AgreementScore o')), (''agreement_count'', GInt (cx_AgreementCount o')),
      (''comparison_strategy'', GStr (cx_ComparisonStrategy o')), (''validator_passed'', GBool (cx_ValidatorPassed o')),
      (''winner_node'', GStr (cx_WinnerNode o')), (''consensus_reached'', GBool (cx_ConsensusReached o')),
      (''disagreement_detected'', GBool (cx_Disagreement o')), (''timed_out'', GBool (cx_TimedOut o')),
      (''client_cancelled'', GBool (cx_ClientCancelled o')), (''duration_ms'', GInt (cx_DurationMS o')),
      (''escalation_recommended'', GBool recommended),
      (''escalation_reason'', GStr (consensusEscalationReason o' recommended)),
      (''frontier_used'', GBool False), (''content_recorded'', GBool False)])"

section \<open>The collecting loop\<close>

text \<open>A participant's result as the loop may use it, and the arrivals a fan-out of \<open>n\<close> goroutines can produce:
  each of them sends once.\<close>

definition succeeded :: "consensusParticipantOutcome \<Rightarrow> bool" where
  "succeeded o' \<longleftrightarrow> cp_Err o' = None"

definition arrivals_of :: "nat \<Rightarrow> arrival list \<Rightarrow> bool" where
  "arrivals_of n arrivals \<longleftrightarrow> list_all (\<lambda>a. case a of Arrived i \<Rightarrow> i < n | Done _ \<Rightarrow> True) arrivals \<and>
     distinct (filter (\<lambda>a. case a of Arrived _ \<Rightarrow> True | Done _ \<Rightarrow> False) arrivals)"

definition collected_ok :: "consensusParticipantOutcome list \<Rightarrow> collected \<Rightarrow> bool" where
  "collected_ok outs c \<longleftrightarrow> gokeys_distinct (cl_responses c) \<and>
    (\<forall>n r. goget (cl_responses c) n = Some r \<longrightarrow> r \<in> set outs \<and> cp_NodeID r = n \<and> succeeded r) \<and>
    (\<forall>n f. goget (cl_failures c) n = Some f \<longrightarrow> pf_NodeID f = n)"

lemma receive_ok: "collected_ok outs c \<Longrightarrow> r \<in> set outs \<Longrightarrow> collected_ok outs (receive r c)"
  by (auto simp: collected_ok_def receive_def succeeded_def consensusParticipantFailure_def split: if_splits)

lemma collect_ok:
  "collect outs m arrivals c = Some c' \<Longrightarrow> collected_ok outs c \<Longrightarrow> arrivals_of (length outs) arrivals \<Longrightarrow> collected_ok outs c'"
proof (induction outs m arrivals c rule: collect.induct)
  case (3 outs m i arrivals c)
  then have "i < length outs" "arrivals_of (length outs) arrivals" by (auto simp: arrivals_of_def)
  with 3 show ?case by (simp add: receive_ok)
qed (auto simp: collected_ok_def split: if_splits)

lemma collect_waits:
  "collect outs m arrivals c = None \<longleftrightarrow> length arrivals < m \<and> list_all (\<lambda>a. case a of Arrived _ \<Rightarrow> True | Done _ \<Rightarrow> False) arrivals"
  by (induction outs m arrivals c rule: collect.induct) (auto split: if_splits)

section \<open>The accounting\<close>

lemma account_fold:
  fixes c :: collected and o0 :: consensusProxyOutcome and ms :: int and ns :: "string list"
  defines "ok \<equiv> \<lambda>n. goget (cl_responses c) n \<noteq> None"
  defines "o1 \<equiv> fold (account ms c) ns o0"
  shows "cx_SuccessfulNodes o1 = cx_SuccessfulNodes o0 @ filter ok ns"
    "cx_FailedNodes o1 = cx_FailedNodes o0 @ filter (\<lambda>n. \<not> ok n) ns"
    "length (cx_ParticipantFailures o1) = length (cx_ParticipantFailures o0) + length (filter (\<lambda>n. \<not> ok n) ns)"
    "(\<And>n f. goget (cl_failures c) n = Some f \<Longrightarrow> pf_NodeID f = n) \<Longrightarrow>
       map pf_NodeID (cx_ParticipantFailures o1) = map pf_NodeID (cx_ParticipantFailures o0) @ filter (\<lambda>n. \<not> ok n) ns"
    "cx_Participants o1 = cx_Participants o0" "cx_Required o1 = cx_Required o0" "cx_Limit o1 = cx_Limit o0"
    "cx_ClientCancelled o1 = cx_ClientCancelled o0" "cx_ResponseCommitted o1 = cx_ResponseCommitted o0"
    "cx_Err o1 = cx_Err o0" "cx_TimedOut o1 = cx_TimedOut o0"
  unfolding o1_def ok_def
  by (induction ns arbitrary: o0; simp add: account_def Let_def split: option.split)+

lemma those_enumerate:
  "those (map f xs) = Some ys \<longleftrightarrow> length ys = length xs \<and> (\<forall>i < length xs. f (xs ! i) = Some (ys ! i))"
proof (induction xs arbitrary: ys)
  case Nil
  then show ?case by auto
next
  case (Cons x xs)
  show ?case
  proof (cases ys)
    case Nil
    then show ?thesis by (auto split: option.splits)
  next
    case y: (Cons y zs)
    have "those (map f (x # xs)) = Some ys \<longleftrightarrow> f x = Some y \<and> those (map f xs) = Some zs"
      using y by (auto split: option.splits)
    then show ?thesis using Cons.IH [of zs] y by (auto simp: All_less_Suc2)
  qed
qed

lemma ReadLimited_whole:
  "ReadLimited limit acc rs = (data, None) \<Longrightarrow> length data < length acc + limit \<Longrightarrow> intact rs \<and> data = acc @ received rs"
  by (induction limit acc rs rule: ReadLimited.induct) (auto split: if_splits read_end.splits)

text \<open>What a participant's successful result says of its answer.\<close>

definition answered :: "Response \<Rightarrow> consensusParticipantOutcome \<Rightarrow> bool" where
  "answered resp r \<longleftrightarrow> rp_status resp < 400 \<and> cp_StatusCode r = rp_status resp \<and> cp_Header r = rp_header resp \<and>
     intact (rp_reads resp) \<and> cp_Body r = received (rp_reads resp) \<and> length (received (rp_reads resp)) \<le> consensusMaxResponseBytes"

lemma fetch_result:
  assumes "fetchConsensusParticipant sv fe store i nodeID path body model = Some r"
  shows "cp_NodeID r = nodeID"
    and "succeeded r \<Longrightarrow> \<exists>sent resp ctx.
      fe_fetch fe i (nodeProxyURL (sv_cfg sv) (Snapshot store) nodeID path) sent = FetchUpstream resp ctx \<and> answered resp r"
proof -
  show "cp_NodeID r = nodeID"
    using assms by (auto simp: fetchConsensusParticipant_def Let_def
        split: if_splits option.splits fetch_event.splits prod.splits)
next
  assume "succeeded r"
  let ?url = "nodeProxyURL (sv_cfg sv) (Snapshot store) nodeID path"
  have u: "?url \<noteq> []" using assms \<open>succeeded r\<close>
    by (auto simp: fetchConsensusParticipant_def succeeded_def Let_def)
  then obtain sent where sent: "rewriteModel (sv_json sv) body model = Some sent"
    using assms by (auto simp: fetchConsensusParticipant_def Let_def split: option.splits)
  obtain resp ctx where f: "fe_fetch fe i ?url sent = FetchUpstream resp ctx"
    using assms \<open>succeeded r\<close> u sent
    by (cases "fe_fetch fe i ?url sent") (auto simp: fetchConsensusParticipant_def succeeded_def Let_def)
  obtain data err where rd: "ReadLimited (consensusMaxResponseBytes + 1) [] (rp_reads resp) = (data, err)" by fastforce
  from assms \<open>succeeded r\<close> u sent f rd have "err = None" "length data \<le> consensusMaxResponseBytes" "rp_status resp < 400"
    "cp_StatusCode r = rp_status resp" "cp_Header r = rp_header resp" "cp_Body r = data"
    by (auto simp: fetchConsensusParticipant_def succeeded_def Let_def split: if_splits option.splits)
  with f rd ReadLimited_whole [of "consensusMaxResponseBytes + 1" "[]" "rp_reads resp" data]
  show "\<exists>sent resp ctx. fe_fetch fe i ?url sent = FetchUpstream resp ctx \<and> answered resp r"
    by (auto simp: answered_def)
qed

lemma fan_out_result:
  assumes "fan_out sv fe store ps path body model = Some outs"
  shows "length outs = length ps"
    and "i < length ps \<Longrightarrow> fetchConsensusParticipant sv fe store i (ps ! i) path body model = Some (outs ! i)"
  using assms by (auto simp: fan_out_def those_enumerate nth_enumerate_eq)

lemma fan_out_nodes:
  assumes "fan_out sv fe store ps path body model = Some outs" "r \<in> set outs"
  shows "\<exists>i < length ps. cp_NodeID r = ps ! i \<and> fetchConsensusParticipant sv fe store i (ps ! i) path body model = Some r"
  using assms(2) fan_out_result [OF assms(1)] fetch_result(1) by (fastforce simp: in_set_conv_nth)

section \<open>The conclusion\<close>

definition quorum :: "Decision \<Rightarrow> int" where
  "quorum d = (if d_ConsensusRequired d < 1 then ConsensusDefaultMinParticipants else d_ConsensusRequired d)"

definition initial_outcome :: "Decision \<Rightarrow> consensusProxyOutcome" where
  "initial_outcome d = zeroConsensus\<lparr> cx_Participants := d_CandidateNodes d, cx_Required := quorum d, cx_Limit := d_ConsensusLimit d \<rparr>"

lemma quorum_pos: "1 \<le> quorum d"
  by (simp add: quorum_def ConsensusDefaultMinParticipants_def)

lemma initial_outcome_simps [simp]:
  "cx_Participants (initial_outcome d) = d_CandidateNodes d" "cx_Required (initial_outcome d) = quorum d"
  "cx_SuccessfulNodes (initial_outcome d) = []" "cx_FailedNodes (initial_outcome d) = []" "cx_ParticipantFailures (initial_outcome d) = []"
  "\<not> cx_ResponseCommitted (initial_outcome d)" "cx_WinnerNode (initial_outcome d) = []"
  by (simp_all add: initial_outcome_def zeroConsensus_def)

lemma forwardConsensus_eq:
  "forwardConsensus sv fe arrivals store path surface body d debug w =
    (if int (length (d_CandidateNodes d)) < quorum d
     then Finished ((initial_outcome d)\<lparr> cx_Err := Some InsufficientSuccesses \<rparr>, w)
     else case fan_out sv fe store (d_CandidateNodes d) path body (d_ResolvedModel d) of
       None \<Rightarrow> Crashed
     | Some outs \<Rightarrow>
        (case collect outs (length (d_CandidateNodes d)) arrivals
           \<lparr> cl_responses = [], cl_failures = [], cl_ClientCancelled = False, cl_TimedOut = False \<rparr> of
           None \<Rightarrow> Waiting
         | Some c \<Rightarrow> Finished (conclude_consensus sv fe surface debug c (initial_outcome d) w)))"
  by (simp only: forwardConsensus_def quorum_def [symmetric] initial_outcome_def [symmetric] Let_def
      initial_outcome_simps)

lemma forwardConsensus_cases:
  assumes "forwardConsensus sv fe arrivals store path surface body d debug w = Finished (out, w1)"
    "arrivals_of (length (d_CandidateNodes d)) arrivals"
  obtains (few) "int (length (d_CandidateNodes d)) < quorum d" "out = (initial_outcome d)\<lparr> cx_Err := Some InsufficientSuccesses \<rparr>" "w1 = w"
  | (collected) outs c where "quorum d \<le> int (length (d_CandidateNodes d))"
      "fan_out sv fe store (d_CandidateNodes d) path body (d_ResolvedModel d) = Some outs" "collected_ok outs c"
      "conclude_consensus sv fe surface debug c (initial_outcome d) w = (out, w1)"
proof (cases "int (length (d_CandidateNodes d)) < quorum d")
  case True
  then show thesis
    using assms(1) few by (simp add: forwardConsensus_eq)
next
  case False
  let ?c0 = "\<lparr> cl_responses = [], cl_failures = [], cl_ClientCancelled = False, cl_TimedOut = False \<rparr>"
  from False assms(1) obtain outs c where o: "fan_out sv fe store (d_CandidateNodes d) path body (d_ResolvedModel d) = Some outs"
    "collect outs (length (d_CandidateNodes d)) arrivals ?c0 = Some c"
    "conclude_consensus sv fe surface debug c (initial_outcome d) w = (out, w1)"
    by (auto simp: forwardConsensus_eq split: option.splits)
  have "collected_ok outs ?c0" by (simp add: collected_ok_def gokeys_distinct_def goget_def)
  then have "collected_ok outs c" using collect_ok o assms(2) fan_out_result(1) by metis
  then show thesis using collected False o by force
qed

lemma responses_known:
  assumes "fan_out sv fe store ps path body model = Some outs" "collected_ok outs c" "goget (cl_responses c) n = Some r"
  shows "\<exists>i. i < length ps \<and> ps ! i = n \<and> cp_NodeID r = n \<and> succeeded r \<and>
    fetchConsensusParticipant sv fe store i n path body model = Some r"
  using assms fan_out_nodes [OF assms(1), of r] by (auto simp: collected_ok_def)

lemma responses_count:
  assumes "fan_out sv fe store ps path body model = Some outs" "collected_ok outs c"
  shows "length (cl_responses c) \<le> length (filter (\<lambda>n. goget (cl_responses c) n \<noteq> None) ps)"
proof -
  have "distinct (map fst (cl_responses c))" using assms(2) by (simp add: collected_ok_def gokeys_distinct_def)
  then have "length (cl_responses c) = card (fst ` set (cl_responses c))"
    using distinct_card [of "map fst (cl_responses c)"] by simp
  also have "fst ` set (cl_responses c) \<subseteq> set (filter (\<lambda>n. goget (cl_responses c) n \<noteq> None) ps)"
  proof
    fix n assume "n \<in> fst ` set (cl_responses c)"
    then have "goget (cl_responses c) n \<noteq> None" by (simp add: goget_def map_of_eq_None_iff)
    with responses_known [OF assms, of n] show "n \<in> set (filter (\<lambda>n. goget (cl_responses c) n \<noteq> None) ps)" by auto
  qed
  then have "card (fst ` set (cl_responses c)) \<le> length (filter (\<lambda>n. goget (cl_responses c) n \<noteq> None) ps)"
    by (meson card_length card_mono finite_set le_trans)
  finally show ?thesis .
qed

lemma responses_count_distinct:
  assumes "collected_ok outs c" "distinct ps"
  shows "length (filter (\<lambda>n. goget (cl_responses c) n \<noteq> None) ps) \<le> length (cl_responses c)"
proof -
  have "length (filter (\<lambda>n. goget (cl_responses c) n \<noteq> None) ps) = card (set (filter (\<lambda>n. goget (cl_responses c) n \<noteq> None) ps))"
    using assms(2) by (metis distinct_card distinct_filter)
  also have "\<dots> \<le> card (fst ` set (cl_responses c))"
    by (intro card_mono) (auto simp: goget_def dest: map_of_SomeD intro: rev_image_eqI)
  also have "\<dots> \<le> length (cl_responses c)" by (metis card_image_le card_length finite_set le_trans)
  finally show ?thesis .
qed

lemma candidates_answer:
  "cd \<in> set (consensusCandidates c ps) \<longleftrightarrow>
     (\<exists>n \<in> set ps. \<exists>r. goget (cl_responses c) n = Some r \<and> cd = \<lparr> cd_NodeID = n, cd_Body = cp_Body r \<rparr>)"
  unfolding consensusCandidates_def by (induction ps) (auto simp: map_filter_simps split: option.splits)

lemma debug_headers_simps [simp]:
  "wr_body (debug_headers o' w) = wr_body w" "wr_plan (debug_headers o' w) = wr_plan w"
  "wr_status (debug_headers o' w) = wr_status w"
  by (simp_all add: debug_headers_def SetHeader_def)

lemma answer_winner_facts:
  assumes "answer_winner result winner debug o' w = (out, w1)"
  obtains n err where "n \<le> length (cp_Body winner)" "wr_body w1 = wr_body w @ take n (cp_Body winner)"
    "cx_BytesWritten out = int n" "cx_Err out = map_option Client err" "cx_ResponseCommitted out"
    "cx_WinnerNode out = cp_NodeID winner" "cx_SuccessfulNodes out = cx_SuccessfulNodes o'"
    "cx_FailedNodes out = cx_FailedNodes o'" "cx_ParticipantFailures out = cx_ParticipantFailures o'"
    "cx_ClientCancelled out = cx_ClientCancelled o'"
    "wr_status w = None \<Longrightarrow> wr_status w1 = Some (cp_StatusCode winner)"
    "err = None \<Longrightarrow> writer_contract (length (cp_Body winner)) w \<Longrightarrow> n = length (cp_Body winner)"
proof -
  from assms obtain w2 n err where wr: "Write (cp_Body winner) w2 = (n, err, w1)"
    and w2: "wr_body w2 = wr_body w" "wr_plan w2 = wr_plan w"
      "wr_status w = None \<Longrightarrow> wr_status w2 = Some (cp_StatusCode winner)"
    and out: "cx_BytesWritten out = int n" "cx_Err out = map_option Client err" "cx_ResponseCommitted out"
      "cx_WinnerNode out = cp_NodeID winner" "cx_SuccessfulNodes out = cx_SuccessfulNodes o'"
      "cx_FailedNodes out = cx_FailedNodes o'" "cx_ParticipantFailures out = cx_ParticipantFailures o'"
      "cx_ClientCancelled out = cx_ClientCancelled o'"
    by (auto simp: answer_winner_def Let_def split: prod.splits)
  note b = Write_body [OF wr]
  have "err = None \<Longrightarrow> writer_contract (length (cp_Body winner)) w \<Longrightarrow> n = length (cp_Body winner)"
    using Write_contract [of "cp_Body winner" w2 n w1 "length (cp_Body winner)"] wr w2(2)
    by (simp add: writer_contract_def)
  then show thesis using that [of n err] b w2 out by simp
qed

text \<open>Where the conclusion leads, for a collection that holds results of the fan-out.\<close>

lemma conclude_cases:
  assumes "conclude_consensus sv fe surface debug c (initial_outcome d) w = (out, w1)"
    "fan_out sv fe store (d_CandidateNodes d) path body model = Some outs" "collected_ok outs c"
  obtains (silent) "w1 = w" "\<not> cx_ResponseCommitted out" "cx_Err out \<noteq> None" "cx_Err out \<noteq> Some WinnerMissing"
      "cx_ClientCancelled out = cl_ClientCancelled c" "cl_ClientCancelled c \<or> int (length (cl_responses c)) < quorum d"
      "cx_SuccessfulNodes out = filter (\<lambda>n. goget (cl_responses c) n \<noteq> None) (d_CandidateNodes d)"
      "cx_FailedNodes out = filter (\<lambda>n. goget (cl_responses c) n = None) (d_CandidateNodes d)"
      "map pf_NodeID (cx_ParticipantFailures out) = cx_FailedNodes out"
  | (won) winner n err where "cx_ResponseCommitted out" "\<not> cx_ClientCancelled out" "quorum d \<le> int (length (cl_responses c))"
      "goget (cl_responses c) (cp_NodeID winner) = Some winner" "cx_WinnerNode out = cp_NodeID winner"
      "n \<le> length (cp_Body winner)" "wr_body w1 = wr_body w @ take n (cp_Body winner)"
      "cx_BytesWritten out = int n" "cx_Err out = map_option Client err"
      "wr_status w = None \<Longrightarrow> wr_status w1 = Some (cp_StatusCode winner)"
      "err = None \<Longrightarrow> writer_contract (length (cp_Body winner)) w \<Longrightarrow> n = length (cp_Body winner)"
      "cx_SuccessfulNodes out = filter (\<lambda>n. goget (cl_responses c) n \<noteq> None) (d_CandidateNodes d)"
      "cx_FailedNodes out = filter (\<lambda>n. goget (cl_responses c) n = None) (d_CandidateNodes d)"
      "map pf_NodeID (cx_ParticipantFailures out) = cx_FailedNodes out"
proof -
  let ?cands = "consensusCandidates c (d_CandidateNodes d)"
  let ?res = "Evaluate (consensusEngine (sv_json sv)) surface ?cands"
  define o2 where "o2 = (fold (account (fe_total_ms fe) c) (d_CandidateNodes d) ((initial_outcome d)\<lparr>
       cx_ClientCancelled := cl_ClientCancelled c, cx_TimedOut := cl_TimedOut c,
       cx_Err := (if cl_ClientCancelled c then Some (Context Canceled)
                  else if cl_TimedOut c then Some (Context DeadlineExceeded) else None) \<rparr>))\<lparr> cx_DurationMS := fe_total_ms fe \<rparr>"
  have fs: "\<And>n f. goget (cl_failures c) n = Some f \<Longrightarrow> pf_NodeID f = n" using assms(3) by (simp add: collected_ok_def)
  have o2: "cx_SuccessfulNodes o2 = filter (\<lambda>n. goget (cl_responses c) n \<noteq> None) (d_CandidateNodes d)"
      "cx_FailedNodes o2 = filter (\<lambda>n. goget (cl_responses c) n = None) (d_CandidateNodes d)"
      "map pf_NodeID (cx_ParticipantFailures o2) = cx_FailedNodes o2" "cx_Required o2 = quorum d"
      "\<not> cx_ResponseCommitted o2" "cx_ClientCancelled o2 = cl_ClientCancelled c"
      "cl_ClientCancelled c \<Longrightarrow> cx_Err o2 = Some (Context Canceled)"
    by (simp_all add: o2_def account_fold fs)
  have eq: "(out, w1) = (if cl_ClientCancelled c then (o2, w)
        else if int (length (cl_responses c)) < quorum d then (o2\<lparr> cx_Err := Some InsufficientSuccesses \<rparr>, w)
        else case goget (cl_responses c) (cd_NodeID (rr_Winner ?res)) of
            None \<Rightarrow> (o2\<lparr> cx_Err := Some WinnerMissing \<rparr>, w)
          | Some winner \<Rightarrow> answer_winner ?res winner debug o2 w)"
    using assms(1) [symmetric]
    by (simp only: conclude_consensus_def Let_def initial_outcome_simps(1) o2_def [symmetric] o2(4))
  show thesis
  proof (cases "cl_ClientCancelled c \<or> int (length (cl_responses c)) < quorum d")
    case True
    then show thesis using eq o2 silent by (cases "cl_ClientCancelled c") simp_all
  next
    case False
    then have "cl_responses c \<noteq> []" using quorum_pos [of d] by auto
    then obtain n r where "goget (cl_responses c) n = Some r"
      by (cases "cl_responses c") (force simp: goget_def)+
    with responses_known [OF assms(2,3)] have "?cands \<noteq> []"
      using candidates_answer [of _ c "d_CandidateNodes d"] by (metis empty_iff empty_set nth_mem)
    then have "rr_Winner ?res \<in> set ?cands" by (rule winner_facts(1)) (rule refl)
    then obtain winner where w: "goget (cl_responses c) (cd_NodeID (rr_Winner ?res)) = Some winner"
      unfolding candidates_answer by (elim bexE exE conjE) simp
    then have n: "cd_NodeID (rr_Winner ?res) = cp_NodeID winner" using assms(3) by (simp add: collected_ok_def)
    from eq False w have "answer_winner ?res winner debug o2 w = (out, w1)" by simp
    then show thesis
    proof (rule answer_winner_facts, goal_cases)
      case (1 k err)
      show ?case by (rule won [of winner k err]) (use 1 False n w o2 in simp_all)
    qed
  qed
qed

section \<open>Properties\<close>

text \<open>C10. What a consensus sends to the client: a response is committed only when the client has not left and
  at least the required number of participants succeeded; the winner is one of them, its
  request was answered with a status below 400 and a body that ended well within the size limit,
  and the client has got that status and a prefix of that body, all of it unless an error is reported. When
  nothing is committed the client's side is as it was and the outcome has an error, never that the
  winner is missing; and then, for distinct participants, the client has left or too few succeeded.\<close>

theorem consensus_commits:
  assumes "forwardConsensus sv fe arrivals store path surface body d debug w = Finished (out, w1)"
    "arrivals_of (length (d_CandidateNodes d)) arrivals"
  shows "if cx_ResponseCommitted out then
      \<not> cx_ClientCancelled out \<and> quorum d \<le> int (length (cx_SuccessfulNodes out)) \<and>
      cx_WinnerNode out \<in> set (cx_SuccessfulNodes out) \<and>
      (\<exists>i sent resp ctx n. i < length (d_CandidateNodes d) \<and> d_CandidateNodes d ! i = cx_WinnerNode out \<and>
         fe_fetch fe i (nodeProxyURL (sv_cfg sv) (Snapshot store) (cx_WinnerNode out) path) sent = FetchUpstream resp ctx \<and>
         rp_status resp < 400 \<and> intact (rp_reads resp) \<and> length (received (rp_reads resp)) \<le> consensusMaxResponseBytes \<and>
         wr_body w1 = wr_body w @ take n (received (rp_reads resp)) \<and>
         (wr_status w = None \<longrightarrow> wr_status w1 = Some (rp_status resp)) \<and>
         (cx_Err out = None \<and> writer_contract (length (received (rp_reads resp))) w \<longrightarrow>
            n = length (received (rp_reads resp))))
    else w1 = w \<and> cx_Err out \<noteq> None \<and> cx_Err out \<noteq> Some WinnerMissing \<and>
      (distinct (d_CandidateNodes d) \<longrightarrow> cx_ClientCancelled out \<or> int (length (cx_SuccessfulNodes out)) < quorum d)"
  using assms
proof (cases rule: forwardConsensus_cases)
  case few
  then show ?thesis using quorum_pos [of d] by simp
next
  case (collected outs c)
  from collected(4,2,3) show ?thesis
  proof (cases rule: conclude_cases)
    case silent
    then show ?thesis using responses_count_distinct [OF collected(3), of "d_CandidateNodes d"] by auto
  next
    case (won winner n err)
    obtain i where i: "i < length (d_CandidateNodes d)" "d_CandidateNodes d ! i = cp_NodeID winner" "succeeded winner"
      and f: "fetchConsensusParticipant sv fe store i (cp_NodeID winner) path body (d_ResolvedModel d) = Some winner"
      using responses_known [OF collected(2,3) won(4)] by blast
    obtain sent resp ctx
      where r: "fe_fetch fe i (nodeProxyURL (sv_cfg sv) (Snapshot store) (cp_NodeID winner) path) sent = FetchUpstream resp ctx"
        "answered resp winner" using fetch_result(2) [OF f i(3)] by blast
    have "quorum d \<le> int (length (cx_SuccessfulNodes out))"
      using won(3) responses_count [OF collected(2,3)] unfolding won(12) by linarith
    moreover have "cx_WinnerNode out \<in> set (cx_SuccessfulNodes out)"
      using won(4,5,12) i(1,2) nth_mem [OF i(1)] by simp
    moreover have "cx_Err out = None \<Longrightarrow> err = None" using won(9) by simp
    moreover have "cp_Body winner = received (rp_reads resp)" using r(2) by (simp add: answered_def)
    note bytes = won(7,11) [unfolded this] and status = won(10)
    ultimately show ?thesis
      using won(1,2) r i(1,2) bytes status unfolding answered_def won(5)
      by (simp only: if_True simp_thms) (rule exI [of _ i], rule exI [of _ sent],
        rule exI [of _ resp], rule exI [of _ ctx], rule exI [of _ n], simp)
  qed
qed

text \<open>Nothing is lost in the accounting of a fan-out: every participant is either successful or failed, in
  the order of the decision, each failed one has a failure record of its own, and a
  successful one really answered.\<close>

theorem consensus_accounting:
  assumes "forwardConsensus sv fe arrivals store path surface body d debug w = Finished (out, w1)"
    "arrivals_of (length (d_CandidateNodes d)) arrivals" "quorum d \<le> int (length (d_CandidateNodes d))"
  shows "cx_SuccessfulNodes out = filter (\<lambda>n. n \<in> set (cx_SuccessfulNodes out)) (d_CandidateNodes d) \<and>
    cx_FailedNodes out = filter (\<lambda>n. n \<notin> set (cx_SuccessfulNodes out)) (d_CandidateNodes d) \<and>
    map pf_NodeID (cx_ParticipantFailures out) = cx_FailedNodes out \<and>
    (\<forall>n \<in> set (cx_SuccessfulNodes out). \<exists>i sent resp ctx. rp_status resp < 400 \<and> intact (rp_reads resp) \<and>
       fe_fetch fe i (nodeProxyURL (sv_cfg sv) (Snapshot store) n path) sent = FetchUpstream resp ctx)"
  using assms(1,2)
proof (cases rule: forwardConsensus_cases)
  case few
  then show ?thesis using assms(3) by simp
next
  case (collected outs c)
  have nodes: "cx_SuccessfulNodes out = filter (\<lambda>n. goget (cl_responses c) n \<noteq> None) (d_CandidateNodes d)"
    "cx_FailedNodes out = filter (\<lambda>n. goget (cl_responses c) n = None) (d_CandidateNodes d)"
    "map pf_NodeID (cx_ParticipantFailures out) = cx_FailedNodes out"
    by (rule conclude_cases [OF collected(4,2,3)]; assumption)+
  have "\<exists>i sent resp ctx. rp_status resp < 400 \<and> intact (rp_reads resp) \<and>
       fe_fetch fe i (nodeProxyURL (sv_cfg sv) (Snapshot store) n path) sent = FetchUpstream resp ctx"
    if n: "n \<in> set (cx_SuccessfulNodes out)" for n
  proof -
    obtain r where r: "goget (cl_responses c) n = Some r" using n nodes(1) by auto
    obtain i where f: "fetchConsensusParticipant sv fe store i n path body (d_ResolvedModel d) = Some r" and ok: "succeeded r"
      using responses_known [OF collected(2,3) r] by (elim exE conjE) (rule that)
    obtain sent resp ctx where
      "fe_fetch fe i (nodeProxyURL (sv_cfg sv) (Snapshot store) n path) sent = FetchUpstream resp ctx" "answered resp r"
      using fetch_result(2) [OF f ok] by (elim exE conjE) (rule that)
    then show ?thesis unfolding answered_def by blast
  qed
  with nodes show ?thesis by (auto intro!: filter_cong)
qed

text \<open>C16. A fan-out ends: it waits for ever only if fewer results than participants arrive and neither the
  deadline nor the client's leaving ends it, and it takes the program down exactly when enough
  participants were chosen, the body is the JSON value \<^verbatim>\<open>null\<close>, a model was resolved and some
  participant has an address.\<close>

theorem consensus_ends:
  "(forwardConsensus sv fe arrivals store path surface body d debug w = Crashed \<longleftrightarrow>
      quorum d \<le> int (length (d_CandidateNodes d)) \<and>
      payload_of (sv_json sv) body = NilMap \<and> d_ResolvedModel d \<noteq> [] \<and>
      (\<exists>n \<in> set (d_CandidateNodes d). nodeProxyURL (sv_cfg sv) (Snapshot store) n path \<noteq> [])) \<and>
   (if forwardConsensus sv fe arrivals store path surface body d debug w = Waiting
    then length arrivals < length (d_CandidateNodes d) \<and> Done True \<notin> set arrivals \<and> Done False \<notin> set arrivals
    else True)"
proof -
  have f: "fetchConsensusParticipant sv fe store i n path body m = None \<longleftrightarrow>
      nodeProxyURL (sv_cfg sv) (Snapshot store) n path \<noteq> [] \<and> payload_of (sv_json sv) body = NilMap \<and> m \<noteq> []" for i n m
    using rewriteModel_None [of "sv_json sv" body m]
    by (cases "rewriteModel (sv_json sv) body m")
      (auto simp: fetchConsensusParticipant_def Let_def split: option.splits fetch_event.splits prod.splits)
  have th: "those (map g xs) = None \<longleftrightarrow> (\<exists>x \<in> set xs. g x = None)" for g :: "nat \<times> string \<Rightarrow> 'a option" and xs
    by (induction xs) (auto split: option.splits)
  have "fan_out sv fe store ps path body m = None \<longleftrightarrow>
      (\<exists>n \<in> snd ` set (enumerate 0 ps). nodeProxyURL (sv_cfg sv) (Snapshot store) n path \<noteq> []) \<and>
      payload_of (sv_json sv) body = NilMap \<and> m \<noteq> []" for ps m
    by (simp only: fan_out_def th f case_prod_unfold bex_simps)
  then have fo: "fan_out sv fe store ps path body m = None \<longleftrightarrow>
      (\<exists>n \<in> set ps. nodeProxyURL (sv_cfg sv) (Snapshot store) n path \<noteq> []) \<and>
      payload_of (sv_json sv) body = NilMap \<and> m \<noteq> []" for ps m
    by (simp only: set_map [symmetric] map_snd_enumerate)
  have ended: "list_all (\<lambda>a. case a of Arrived _ \<Rightarrow> True | Done _ \<Rightarrow> False) as \<longleftrightarrow> Done True \<notin> set as \<and> Done False \<notin> set as" for as
  proof (induction as)
    case (Cons a as)
    then show ?case
    proof (cases a)
      case (Done b)
      then show ?thesis by (cases b) simp_all
    qed simp
  qed simp
  let ?ps = "d_CandidateNodes d" and ?c0 = "\<lparr> cl_responses = [], cl_failures = [], cl_ClientCancelled = False, cl_TimedOut = False \<rparr>"
  note fc = forwardConsensus_eq and fo' = fo [of ?ps "d_ResolvedModel d"]
  show ?thesis
  proof (cases "int (length ?ps) < quorum d")
    case True
    then show ?thesis by (simp add: fc)
  next
    case False
    show ?thesis
    proof (cases "fan_out sv fe store ?ps path body (d_ResolvedModel d)")
      case None
      then show ?thesis using False fo' by (simp add: fc)
    next
      case (Some outs)
      then show ?thesis
        using False fo' collect_waits [of outs "length ?ps" arrivals ?c0, unfolded ended]
        by (cases "collect outs (length ?ps) arrivals ?c0") (auto simp: fc)
    qed
  qed
qed

section \<open>A concrete fan-out\<close>

text \<open>Two participants, of which the second answers first, with 503; one success is enough.\<close>

definition consensusDecision :: Decision where
  "consensusDecision = proxyDecision\<lparr> d_ConsensusRequired := 1, d_ConsensusLimit := 4 \<rparr>"

definition fanEnv :: fan_env where
  "fanEnv = \<lparr> fe_fetch = (\<lambda>i url sent. FetchUpstream (if i = 0 then proxyAnswer else proxyAnswer\<lparr> rp_status := 503 \<rparr>) NoErr),
     fe_ms = (\<lambda>_. 3), fe_total_ms = 4 \<rparr>"

abbreviation consensusRun :: "(consensusProxyOutcome \<times> Writer) run" where
  "consensusRun \<equiv> forwardConsensus proxyServer fanEnv [Arrived 1, Arrived 0] proxyStore ''/api/chat'' ''ollama_chat'' ''{}''
     consensusDecision False freshWriter"

lemma consensusRun_finishes: "\<exists>out w1. consensusRun = Finished (out, w1) \<and> cx_SuccessfulNodes out = [''a''] \<and> \<not> cx_ClientCancelled out"
proof -
  have d: "d_CandidateNodes consensusDecision = [''a'', ''b'']" "quorum consensusDecision = 1"
    by (simp_all add: consensusDecision_def proxyDecision_def quorum_def)
  have rd: "ReadLimited (consensusMaxResponseBytes + 1) [] (rp_reads proxyAnswer) = (''hello'', None)"
    by (simp add: proxyAnswer_def consensusMaxResponseBytes_def)
  have a: "fetchConsensusParticipant proxyServer fanEnv proxyStore 0 ''a'' ''/api/chat'' ''{}'' ''m'' =
      Some \<lparr> cp_NodeID = ''a'', cp_StatusCode = 200, cp_Header = rp_header proxyAnswer, cp_Body = ''hello'',
        cp_DurationMS = 3, cp_FailureReason = [], cp_Err = None \<rparr>"
    using rd by (simp add: fetchConsensusParticipant_def proxyStore_url fanEnv_def rewriteModel_def payload_of_def
        proxyServer_def plainCodec_def Let_def consensusMaxResponseBytes_def)
      (simp add: proxyAnswer_def)
  have b: "\<exists>r. fetchConsensusParticipant proxyServer fanEnv proxyStore 1 ''b'' ''/api/chat'' ''{}'' ''m'' = Some r \<and>
      cp_NodeID r = ''b'' \<and> \<not> succeeded r"
    by (simp add: fetchConsensusParticipant_def proxyStore_url fanEnv_def rewriteModel_def payload_of_def
        proxyServer_def plainCodec_def Let_def succeeded_def)
  obtain ra where ra: "fetchConsensusParticipant proxyServer fanEnv proxyStore 0 ''a'' ''/api/chat'' ''{}'' ''m'' = Some ra"
    "cp_NodeID ra = ''a''" "cp_Err ra = None" using a by simp
  obtain rb where rb: "fetchConsensusParticipant proxyServer fanEnv proxyStore 1 ''b'' ''/api/chat'' ''{}'' ''m'' = Some rb"
    "cp_NodeID rb = ''b''" "cp_Err rb \<noteq> None" using b by (auto simp: succeeded_def)
  have m: "d_ResolvedModel consensusDecision = ''m''" by (simp add: consensusDecision_def proxyDecision_def)
  have fo: "fan_out proxyServer fanEnv proxyStore [''a'', ''b''] ''/api/chat'' ''{}'' ''m'' = Some [ra, rb]"
    using ra(1) rb(1) by (simp add: fan_out_def)
  define c where "c = \<lparr> cl_responses = [(''a'', ra)], cl_failures = [(''b'', consensusParticipantFailure rb)],
    cl_ClientCancelled = False, cl_TimedOut = False \<rparr>"
  have ok: "collected_ok [ra, rb] c" "length (cl_responses c) = 1" "\<not> cl_ClientCancelled c"
    using ra rb by (auto simp: collected_ok_def c_def gokeys_distinct_def goget_def succeeded_def
        consensusParticipantFailure_def split: if_splits)
  obtain out w1 where cc: "conclude_consensus proxyServer fanEnv ''ollama_chat'' False c (initial_outcome consensusDecision)
      freshWriter = (out, w1)" by fastforce
  have "cx_SuccessfulNodes out = [''a''] \<and> \<not> cx_ClientCancelled out"
    by (rule conclude_cases [OF cc, unfolded d, OF fo ok(1)]) (use ok in \<open>simp_all add: c_def goget_def\<close>)
  moreover have "consensusRun = Finished (out, w1)"
    using ra rb by (simp add: forwardConsensus_eq d m fo receive_def goput_def numeral_2_eq_2 cc [unfolded c_def])
  ultimately show ?thesis by blast
qed

lemma consensusRun_arrivals: "arrivals_of (length (d_CandidateNodes consensusDecision)) [Arrived 1, Arrived 0]"
  by (simp add: arrivals_of_def consensusDecision_def proxyDecision_def)

text \<open>Witness: this fan-out commits the answer of the one participant that succeeded.\<close>

theorem consensus_commits_witness: "\<exists>out w1. consensusRun = Finished (out, w1) \<and> cx_ResponseCommitted out \<and> cx_WinnerNode out = ''a''"
proof -
  obtain out w1 where r: "consensusRun = Finished (out, w1)" "cx_SuccessfulNodes out = [''a'']" "\<not> cx_ClientCancelled out"
    using consensusRun_finishes by blast
  have "quorum consensusDecision = 1" "distinct (d_CandidateNodes consensusDecision)"
    by (simp_all add: consensusDecision_def proxyDecision_def quorum_def)
  then show ?thesis
    using consensus_commits [OF r(1) consensusRun_arrivals] r by (auto split: if_splits)
qed

text \<open>Witness: its two participants are accounted for.\<close>

theorem consensus_accounting_witness:
  "\<exists>out w1. consensusRun = Finished (out, w1) \<and> map pf_NodeID (cx_ParticipantFailures out) = [''b'']"
proof -
  obtain out w1 where r: "consensusRun = Finished (out, w1)" "cx_SuccessfulNodes out = [''a'']"
    using consensusRun_finishes by blast
  have "quorum consensusDecision \<le> int (length (d_CandidateNodes consensusDecision))"
    by (simp add: consensusDecision_def proxyDecision_def quorum_def)
  then show ?thesis
    using consensus_accounting [OF r(1) consensusRun_arrivals] r
    by (auto simp: consensusDecision_def proxyDecision_def)
qed

end
