(* ===== verification/Queue.thy ===== *)
theory Queue
  imports Config
begin

text \<open>
  \<^verbatim>\<open>internal/httpapi/queue.go\<close>: the scheduler that hands out the execution slots of a Marshal to
  waiting requests by weighted priority or in order of arrival, and the tracker that records the life of
  every request. Each method of the scheduler runs under its mutex and is one atomic step; the two halves
  of \<^verbatim>\<open>acquire\<close>, around its \<^verbatim>\<open>select\<close>, are two steps. A waiter is named by a reference, as the Go code
  compares pointers; \<open>qs_ready\<close> are the waiters whose channel was closed (\<^verbatim>\<open>dispatched\<close>).
\<close>

section \<open>Priorities and policies\<close>

definition queuePriorityHigh :: string where "queuePriorityHigh = ''high''"
definition queuePriorityNormal :: string where "queuePriorityNormal = ''normal''"
definition queuePriorityLow :: string where "queuePriorityLow = ''low''"
definition queueSchedulingWeightedPriority :: string where
  "queueSchedulingWeightedPriority = ''weighted_priority''"
definition queueSchedulingFIFO :: string where "queueSchedulingFIFO = ''fifo''"

lemmas queue_names = queuePriorityHigh_def queuePriorityNormal_def queuePriorityLow_def
  queueSchedulingWeightedPriority_def queueSchedulingFIFO_def

definition normalizeQueuePriority :: "string \<Rightarrow> string" where
  "normalizeQueuePriority priority =
    (let p = ToLower (TrimSpace priority) in
     if p = queuePriorityHigh then queuePriorityHigh
     else if p = queuePriorityLow then queuePriorityLow
     else queuePriorityNormal)"

definition normalizeQueueSchedulingPolicy :: "string \<Rightarrow> string" where
  "normalizeQueueSchedulingPolicy policy =
    (if ToLower (TrimSpace policy) = queueSchedulingFIFO then queueSchedulingFIFO
     else queueSchedulingWeightedPriority)"

definition normalizeQueuePriorityWeights :: "QueuePriorityWeights \<Rightarrow> QueuePriorityWeights" where
  "normalizeQueuePriorityWeights weights = weights\<lparr>
     w_High := positiveOr (w_High weights) 3,
     w_Normal := positiveOr (w_Normal weights) 2,
     w_Low := positiveOr (w_Low weights) 1 \<rparr>"

text \<open>The schedule. The sum of the weights, which is only the capacity that is reserved for the slice, is not modelled, nor is its overflow:
  with weights near the largest integer the program runs out of memory or panics here.\<close>

definition buildQueuePrioritySchedule :: "QueuePriorityWeights \<Rightarrow> string list" where
  "buildQueuePrioritySchedule weights0 =
    (let weights = normalizeQueuePriorityWeights weights0 in
     replicate (nat (w_High weights)) queuePriorityHigh @
     replicate (nat (w_Normal weights)) queuePriorityNormal @
     replicate (nat (w_Low weights)) queuePriorityLow)"

section \<open>The scheduler\<close>

record queueWaiter =
  qw_ref :: nat
  qw_requestID :: string
  qw_priority :: string

record queueScheduler =
  qs_capacity :: int
  qs_active :: int
  qs_policy :: string
  qs_weights :: QueuePriorityWeights
  qs_schedule :: "string list"
  qs_cursor :: nat
  qs_waiting :: "queueWaiter list"
  qs_ready :: "nat list"

fun index_where :: "('a \<Rightarrow> bool) \<Rightarrow> 'a list \<Rightarrow> nat option" where
  "index_where p [] = None"
| "index_where p (x # xs) = (if p x then Some 0 else map_option Suc (index_where p xs))"

text \<open>The loop of \<^verbatim>\<open>nextWaiterIndexLocked\<close>, with the number of tries left; the result is the index and the
  new cursor.\<close>

fun next_loop :: "string list \<Rightarrow> queueWaiter list \<Rightarrow> nat \<Rightarrow> nat \<Rightarrow> nat \<times> nat" where
  "next_loop schedule waiting 0 cursor = (0, cursor)"
| "next_loop schedule waiting (Suc tries) cursor =
    (let priority = schedule ! (cursor mod length schedule);
         cursor' = (cursor + 1) mod length schedule
     in case index_where (\<lambda>w. qw_priority w = priority) waiting of
          Some i \<Rightarrow> (i, cursor')
        | None \<Rightarrow> next_loop schedule waiting tries cursor')"

definition nextWaiterIndexLocked :: "queueScheduler \<Rightarrow> nat \<times> queueScheduler" where
  "nextWaiterIndexLocked s =
    (if qs_policy s = queueSchedulingFIFO \<or> qs_schedule s = [] then (0, s)
     else let (i, cursor) = next_loop (qs_schedule s) (qs_waiting s) (length (qs_schedule s)) (qs_cursor s)
       in (i, s\<lparr> qs_cursor := cursor \<rparr>))"

definition remove_at :: "nat \<Rightarrow> 'a list \<Rightarrow> 'a list" where
  "remove_at i xs = take i xs @ drop (Suc i) xs"

text \<open>One round of the loop of \<^verbatim>\<open>dispatchLocked\<close>: the waiter that is handed a slot.\<close>

definition dispatch_one :: "queueScheduler \<Rightarrow> queueWaiter \<times> queueScheduler" where
  "dispatch_one s =
    (let (index, s1) = nextWaiterIndexLocked s; waiter = qs_waiting s1 ! index
     in (waiter, s1\<lparr> qs_waiting := remove_at index (qs_waiting s1), qs_active := qs_active s1 + 1,
                    qs_ready := qs_ready s1 @ [qw_ref waiter] \<rparr>))"

lemma index_where_Some:
  "index_where p xs = Some i \<Longrightarrow> i < length xs \<and> p (xs ! i) \<and> (\<forall>j < i. \<not> p (xs ! j))"
proof (induction xs arbitrary: i)
  case (Cons x xs)
  then show ?case by (cases i) (auto split: if_splits simp: less_Suc_eq_0_disj)
qed simp

lemma index_where_None: "index_where p xs = None \<longleftrightarrow> (\<forall>x \<in> set xs. \<not> p x)"
  by (induction xs) auto

lemma next_loop_valid: "waiting \<noteq> [] \<Longrightarrow> fst (next_loop schedule waiting n cursor) < length waiting"
  by (induction n arbitrary: cursor) (auto simp: Let_def split: option.split dest: index_where_Some)

lemma nextWaiterIndex_valid: "qs_waiting s \<noteq> [] \<Longrightarrow> fst (nextWaiterIndexLocked s) < length (qs_waiting s)"
  by (simp add: nextWaiterIndexLocked_def case_prod_unfold Let_def next_loop_valid)

lemma nextWaiterIndex_fields [simp]:
  "qs_waiting (snd (nextWaiterIndexLocked s)) = qs_waiting s" "qs_active (snd (nextWaiterIndexLocked s)) = qs_active s"
  "qs_capacity (snd (nextWaiterIndexLocked s)) = qs_capacity s" "qs_policy (snd (nextWaiterIndexLocked s)) = qs_policy s"
  "qs_schedule (snd (nextWaiterIndexLocked s)) = qs_schedule s" "qs_ready (snd (nextWaiterIndexLocked s)) = qs_ready s"
  "qs_weights (snd (nextWaiterIndexLocked s)) = qs_weights s"
  by (simp_all add: nextWaiterIndexLocked_def case_prod_unfold Let_def)

lemma length_remove_at: "i < length xs \<Longrightarrow> length (remove_at i xs) = length xs - 1"
  by (simp add: remove_at_def)

lemma dispatch_one_fields [simp]:
  "qs_active (snd (dispatch_one s)) = qs_active s + 1" "qs_capacity (snd (dispatch_one s)) = qs_capacity s"
  "qs_policy (snd (dispatch_one s)) = qs_policy s" "qs_schedule (snd (dispatch_one s)) = qs_schedule s"
  "qs_weights (snd (dispatch_one s)) = qs_weights s"
  "qs_waiting (snd (dispatch_one s)) = remove_at (fst (nextWaiterIndexLocked s)) (qs_waiting s)"
  "qs_cursor (snd (dispatch_one s)) = qs_cursor (snd (nextWaiterIndexLocked s))"
  "qs_ready (snd (dispatch_one s)) = qs_ready s @ [qw_ref (fst (dispatch_one s))]"
  "fst (dispatch_one s) = qs_waiting s ! fst (nextWaiterIndexLocked s)"
  by (simp_all add: dispatch_one_def case_prod_unfold Let_def)

function dispatchLocked :: "queueScheduler \<Rightarrow> queueScheduler" where
  "dispatchLocked s =
    (if qs_active s < qs_capacity s \<and> qs_waiting s \<noteq> [] then dispatchLocked (snd (dispatch_one s)) else s)"
  by pat_completeness auto
termination
  by (relation "measure (\<lambda>s. length (qs_waiting s))")
    (auto simp: length_remove_at nextWaiterIndex_valid)

declare dispatchLocked.simps [simp del]

definition configure :: "int \<Rightarrow> RoutingConfig \<Rightarrow> queueScheduler \<Rightarrow> queueScheduler" where
  "configure capacity0 routing s =
    (let capacity = (if capacity0 \<le> 0 then 1 else capacity0);
         policy = normalizeQueueSchedulingPolicy (r_QueueSchedulingPolicy routing);
         weights = normalizeQueuePriorityWeights (r_QueuePriorityWeights routing);
         schedule = buildQueuePrioritySchedule weights;
         schedule = (if schedule = [] then [queuePriorityHigh, queuePriorityNormal, queuePriorityLow] else schedule);
         cursor = (if length schedule \<le> qs_cursor s then 0 else qs_cursor s)
     in dispatchLocked (s\<lparr> qs_capacity := capacity, qs_policy := policy, qs_weights := weights,
          qs_schedule := schedule, qs_cursor := cursor \<rparr>))"

definition zeroScheduler :: queueScheduler where
  "zeroScheduler = \<lparr> qs_capacity = 0, qs_active = 0, qs_policy = [],
     qs_weights = \<lparr> w_High = 0, w_Normal = 0, w_Low = 0 \<rparr>, qs_schedule = [], qs_cursor = 0,
     qs_waiting = [], qs_ready = [] \<rparr>"

definition newQueueScheduler :: "int \<Rightarrow> RoutingConfig \<Rightarrow> queueScheduler" where
  "newQueueScheduler capacity routing = configure capacity routing zeroScheduler"

text \<open>\<^verbatim>\<open>acquire\<close> up to its \<^verbatim>\<open>select\<close>: either a slot is granted at once, or the waiter is queued.\<close>

definition acquire_begin :: "nat \<Rightarrow> string \<Rightarrow> string \<Rightarrow> queueScheduler \<Rightarrow> bool \<times> queueScheduler" where
  "acquire_begin ref requestID priority s =
    (if qs_active s < qs_capacity s \<and> qs_waiting s = [] then (True, s\<lparr> qs_active := qs_active s + 1 \<rparr>)
     else (False, s\<lparr> qs_waiting := qs_waiting s @
        [\<lparr> qw_ref = ref, qw_requestID = requestID, qw_priority = normalizeQueuePriority priority \<rparr>] \<rparr>))"

text \<open>The two cases of the \<^verbatim>\<open>select\<close>. The first is possible once the channel is closed; the second
  when the context is done, and it looks at \<^verbatim>\<open>dispatched\<close> again under the mutex.\<close>

definition acquire_ready :: "nat \<Rightarrow> queueScheduler \<Rightarrow> bool option" where
  "acquire_ready ref s = (if ref \<in> set (qs_ready s) then Some True else None)"

definition acquire_done :: "nat \<Rightarrow> queueScheduler \<Rightarrow> bool \<times> queueScheduler" where
  "acquire_done ref s =
    (if ref \<in> set (qs_ready s) then (True, s)
     else (False, s\<lparr> qs_waiting := (case index_where (\<lambda>w. qw_ref w = ref) (qs_waiting s) of
                       Some i \<Rightarrow> remove_at i (qs_waiting s) | None \<Rightarrow> qs_waiting s) \<rparr>))"

definition release :: "queueScheduler \<Rightarrow> queueScheduler" where
  "release s = dispatchLocked (s\<lparr> qs_active := (if 0 < qs_active s then qs_active s - 1 else qs_active s) \<rparr>)"

definition activeDepth :: "queueScheduler \<Rightarrow> int" where
  "activeDepth s = qs_active s"

record QueueSchedulingStatus =
  qss_Policy :: string
  qss_Weights :: QueuePriorityWeights

definition status :: "queueScheduler \<Rightarrow> QueueSchedulingStatus" where
  "status s = \<lparr> qss_Policy = qs_policy s, qss_Weights = qs_weights s \<rparr>"

section \<open>The tracker\<close>

record QueueEntry =
  qe_RequestID :: string
  qe_Priority :: string
  qe_Status :: string
  qe_Surface :: string
  qe_Model :: string
  qe_SessionID :: string
  qe_Stream :: bool
  qe_EnqueuedAt :: gotime
  qe_StartedAt :: gotime
  qe_CompletedAt :: gotime
  qe_QueueDepth :: int
  qe_QueueCap :: int
  qe_RetryAllowed :: bool

record queueTracker =
  qt_capacity :: int
  qt_current :: "(string, QueueEntry) gomap"
  qt_recent :: "QueueEntry list"

record QueueSnapshot =
  qn_MaxDepth :: int
  qn_Active :: int
  qn_Waiting :: int
  qn_Available :: int
  qn_Current :: "QueueEntry list"
  qn_Recent :: "QueueEntry list"
  qn_Priorities :: "string list"
  qn_Scheduling :: QueueSchedulingStatus

definition zeroEntry :: QueueEntry where
  "zeroEntry = \<lparr> qe_RequestID = [], qe_Priority = [], qe_Status = [], qe_Surface = [], qe_Model = [],
     qe_SessionID = [], qe_Stream = False, qe_EnqueuedAt = 0, qe_StartedAt = 0, qe_CompletedAt = 0,
     qe_QueueDepth = 0, qe_QueueCap = 0, qe_RetryAllowed = False \<rparr>"

definition newQueueTracker :: "int \<Rightarrow> queueTracker" where
  "newQueueTracker capacity =
    \<lparr> qt_capacity = (if capacity \<le> 0 then 1 else capacity), qt_current = [], qt_recent = [] \<rparr>"

definition configureTracker :: "int \<Rightarrow> queueTracker \<Rightarrow> queueTracker" where
  "configureTracker capacity0 q =
    (let capacity = (if capacity0 \<le> 0 then 1 else capacity0) in
     q\<lparr> qt_capacity := capacity,
        qt_current := map (\<lambda>(i, entry). (i, entry\<lparr> qe_QueueCap := capacity \<rparr>)) (qt_current q) \<rparr>)"

definition entry_of :: "queueTracker \<Rightarrow> string \<Rightarrow> QueueEntry" where
  "entry_of q requestID = (case goget (qt_current q) requestID of None \<Rightarrow> zeroEntry | Some e \<Rightarrow> e)"

definition enqueue :: "gotime \<Rightarrow> QueueEntry \<Rightarrow> queueTracker \<Rightarrow> QueueEntry \<times> queueTracker" where
  "enqueue now entry0 q =
    (let entry = entry0\<lparr> qe_Priority := normalizeQueuePriority (qe_Priority entry0), qe_Status := ''waiting'',
           qe_EnqueuedAt := now, qe_QueueCap := qt_capacity q \<rparr>
     in (entry, q\<lparr> qt_current := goput (qe_RequestID entry) entry (qt_current q) \<rparr>))"

definition start :: "gotime \<Rightarrow> string \<Rightarrow> int \<Rightarrow> queueTracker \<Rightarrow> QueueEntry \<times> queueTracker" where
  "start now requestID depth q =
    (let entry = (entry_of q requestID)\<lparr> qe_Status := ''active'', qe_StartedAt := now, qe_QueueDepth := depth,
           qe_QueueCap := qt_capacity q, qe_RetryAllowed := True \<rparr>
     in (entry, q\<lparr> qt_current := goput requestID entry (qt_current q) \<rparr>))"

definition update :: "string \<Rightarrow> QueueEntry \<Rightarrow> queueTracker \<Rightarrow> QueueEntry \<times> queueTracker" where
  "update requestID f q =
    (let e = entry_of q requestID;
         entry = e\<lparr>
           qe_Priority := (if qe_Priority f \<noteq> [] then normalizeQueuePriority (qe_Priority f) else qe_Priority e),
           qe_Surface := orElse (qe_Surface f) (qe_Surface e),
           qe_Model := orElse (qe_Model f) (qe_Model e),
           qe_SessionID := orElse (qe_SessionID f) (qe_SessionID e),
           qe_Stream := qe_Stream f \<rparr>
     in (entry, q\<lparr> qt_current := goput requestID entry (qt_current q) \<rparr>))"

definition pushRecent :: "QueueEntry \<Rightarrow> QueueEntry list \<Rightarrow> QueueEntry list" where
  "pushRecent entry recent = (let r = entry # recent in if 50 < length r then take 50 r else r)"

definition finish :: "gotime \<Rightarrow> string \<Rightarrow> string \<Rightarrow> int \<Rightarrow> queueTracker \<Rightarrow> QueueEntry \<times> queueTracker" where
  "finish now requestID st depth q =
    (let e0 = entry_of q requestID;
         e1 = (if qe_RequestID e0 = [] then
                 e0\<lparr> qe_RequestID := requestID, qe_Priority := queuePriorityNormal, qe_EnqueuedAt := now,
                    qe_QueueCap := qt_capacity q \<rparr> else e0);
         entry = e1\<lparr> qe_Status := st, qe_CompletedAt := now, qe_QueueDepth := depth,
                   qe_QueueCap := qt_capacity q \<rparr>
     in (entry, q\<lparr> qt_current := godelete requestID (qt_current q), qt_recent := pushRecent entry (qt_recent q) \<rparr>))"

definition snapshot :: "int \<Rightarrow> QueueSchedulingStatus \<Rightarrow> queueTracker \<Rightarrow> QueueSnapshot" where
  "snapshot depth scheduling q =
    (let current = map snd (qt_current q); available = qt_capacity q - depth in
     \<lparr> qn_MaxDepth = qt_capacity q, qn_Active = depth,
       qn_Waiting = int (length (filter (\<lambda>e. qe_Status e = ''waiting'') current)),
       qn_Available = (if available < 0 then 0 else available),
       qn_Current = current, qn_Recent = qt_recent q,
       qn_Priorities = [queuePriorityHigh, queuePriorityNormal, queuePriorityLow],
       qn_Scheduling = scheduling \<rparr>)"

interpretation recent: capped_log 50 pushRecent
  by unfold_locales (auto simp: pushRecent_def Let_def)

section \<open>The scheduler as a concurrent system\<close>

text \<open>The references that own a slot are tracked beside the scheduler: granted at once or dispatched, and
  not yet released.\<close>

record qsystem =
  qy_sched :: queueScheduler
  qy_held :: "nat set"

definition newly_ready :: "queueScheduler \<Rightarrow> queueScheduler \<Rightarrow> nat set" where
  "newly_ready s s' = set (drop (length (qs_ready s)) (qs_ready s'))"

inductive queue_step :: "qsystem \<Rightarrow> qsystem \<Rightarrow> bool" where
  step_acquire: "acquire_begin r rid prio s = (granted, s') \<Longrightarrow>
    r \<notin> held \<union> set (qs_ready s) \<union> qw_ref ` set (qs_waiting s) \<Longrightarrow>
    queue_step \<lparr> qy_sched = s, qy_held = held \<rparr>
      \<lparr> qy_sched = s', qy_held = (if granted then insert r held else held) \<rparr>"
| step_cancel: "acquire_done r s = (res, s') \<Longrightarrow>
    queue_step \<lparr> qy_sched = s, qy_held = held \<rparr> \<lparr> qy_sched = s', qy_held = held \<rparr>"
| step_release: "release s = s' \<Longrightarrow> r \<in> held \<Longrightarrow>
    queue_step \<lparr> qy_sched = s, qy_held = held \<rparr>
      \<lparr> qy_sched = s', qy_held = (held - {r}) \<union> newly_ready s s' \<rparr>"
| step_configure: "configure capacity routing s = s' \<Longrightarrow>
    queue_step \<lparr> qy_sched = s, qy_held = held \<rparr> \<lparr> qy_sched = s', qy_held = held \<union> newly_ready s s' \<rparr>"

inductive queue_reachable :: "qsystem \<Rightarrow> bool" where
  queue_init: "queue_reachable \<lparr> qy_sched = newQueueScheduler capacity routing, qy_held = {} \<rparr>"
| queue_next: "queue_reachable y \<Longrightarrow> queue_step y y' \<Longrightarrow> queue_reachable y'"

inductive_cases queue_stepE: "queue_step y y'"

section \<open>Dispatching\<close>

lemma mset_remove_at: "i < length xs \<Longrightarrow> mset xs = add_mset (xs ! i) (mset (remove_at i xs))"
  by (metis id_take_nth_drop mset.simps(2) mset_append remove_at_def union_mset_add_mset_right)

lemma set_remove_at: "set (remove_at i xs) \<subseteq> set xs"
  by (auto simp: remove_at_def dest: in_set_takeD in_set_dropD)

lemma next_loop_cursor: "schedule \<noteq> [] \<Longrightarrow> cursor < length schedule \<Longrightarrow>
    snd (next_loop schedule waiting n cursor) < length schedule"
  by (induction n arbitrary: cursor) (auto simp: Let_def split: option.split)

lemma nextWaiterIndex_cursor:
  "qs_cursor s < length (qs_schedule s) \<Longrightarrow> qs_cursor (snd (nextWaiterIndexLocked s)) < length (qs_schedule s)"
  by (cases "qs_schedule s = []") (auto simp: nextWaiterIndexLocked_def case_prod_unfold Let_def next_loop_cursor)

text \<open>What a call of \<^verbatim>\<open>dispatchLocked\<close> does, in one statement: the waiters it dispatched leave the queue, each
  takes one slot, and it stops only when no slot is free or nobody waits.\<close>

definition dispatched_to :: "queueScheduler \<Rightarrow> nat list \<Rightarrow> queueScheduler \<Rightarrow> bool" where
  "dispatched_to s new s' \<longleftrightarrow>
     qs_ready s' = qs_ready s @ new \<and> qs_active s' = qs_active s + int (length new) \<and>
     mset (map qw_ref (qs_waiting s)) = mset new + mset (map qw_ref (qs_waiting s')) \<and>
     set (qs_waiting s') \<subseteq> set (qs_waiting s) \<and>
     (qs_waiting s' \<noteq> [] \<longrightarrow> qs_capacity s \<le> qs_active s') \<and>
     qs_active s' \<le> max (qs_active s) (qs_capacity s) \<and>
     qs_capacity s' = qs_capacity s \<and> qs_policy s' = qs_policy s \<and> qs_schedule s' = qs_schedule s \<and>
     qs_weights s' = qs_weights s \<and>
     (qs_cursor s < length (qs_schedule s) \<longrightarrow> qs_cursor s' < length (qs_schedule s))"

lemma dispatchLocked_spec: "\<exists>new. dispatched_to s new (dispatchLocked s)"
proof (induction s rule: dispatchLocked.induct)
  case (1 s)
  show ?case
  proof (cases "qs_active s < qs_capacity s \<and> qs_waiting s \<noteq> []")
    case True
    let ?t = "snd (dispatch_one s)" and ?i = "fst (nextWaiterIndexLocked s)"
    from 1 [OF True] obtain new where new: "dispatched_to ?t new (dispatchLocked ?t)" by blast
    have i: "?i < length (qs_waiting s)" using True by (simp add: nextWaiterIndex_valid)
    have "mset (map qw_ref (qs_waiting s)) =
        add_mset (qw_ref (qs_waiting s ! ?i)) (mset (map qw_ref (remove_at ?i (qs_waiting s))))"
      using arg_cong [OF mset_remove_at [OF i], of "image_mset qw_ref"] by simp
    moreover have "dispatchLocked s = dispatchLocked ?t"
      using True by (subst dispatchLocked.simps) simp
    ultimately have "dispatched_to s (qw_ref (qs_waiting s ! ?i) # new) (dispatchLocked s)"
      using new True set_remove_at [of ?i "qs_waiting s"] nextWaiterIndex_cursor [of s]
      unfolding dispatched_to_def by auto
    then show ?thesis ..
  next
    case False
    then have "dispatchLocked s = s" by (subst dispatchLocked.simps) (simp only: False if_False)
    with False show ?thesis by (intro exI [of _ "[]"]) (auto simp: dispatched_to_def)
  qed
qed

section \<open>The invariant\<close>

definition sched_wf :: "queueScheduler \<Rightarrow> bool" where
  "sched_wf s \<longleftrightarrow> 0 < qs_capacity s \<and> qs_cursor s < length (qs_schedule s) \<and>
     qs_policy s \<in> {queueSchedulingFIFO, queueSchedulingWeightedPriority} \<and>
     0 < w_High (qs_weights s) \<and> 0 < w_Normal (qs_weights s) \<and> 0 < w_Low (qs_weights s) \<and>
     qs_schedule s = buildQueuePrioritySchedule (qs_weights s) \<and>
     (\<forall>w \<in> set (qs_waiting s). qw_priority w \<in> {queuePriorityHigh, queuePriorityNormal, queuePriorityLow})"

definition queue_inv :: "qsystem \<Rightarrow> bool" where
  "queue_inv y \<longleftrightarrow>
    (let s = qy_sched y; held = qy_held y; refs = map qw_ref (qs_waiting s) in
     sched_wf s \<and> finite held \<and> int (card held) = qs_active s \<and>
     distinct (qs_ready s @ refs) \<and> set refs \<inter> held = {} \<and>
     (qs_waiting s \<noteq> [] \<longrightarrow> qs_capacity s \<le> qs_active s))"

lemma normalizeQueuePriority_range:
  "normalizeQueuePriority p \<in> {queuePriorityHigh, queuePriorityNormal, queuePriorityLow}"
  by (simp add: normalizeQueuePriority_def Let_def)

lemma weights_norm [simp]:
  "0 < w_High (normalizeQueuePriorityWeights w)" "0 < w_Normal (normalizeQueuePriorityWeights w)"
  "0 < w_Low (normalizeQueuePriorityWeights w)"
  by (simp_all add: normalizeQueuePriorityWeights_def)

lemma weights_norm_le [simp]:
  "w_High (normalizeQueuePriorityWeights w) \<le> 0 \<longleftrightarrow> False" "w_Normal (normalizeQueuePriorityWeights w) \<le> 0 \<longleftrightarrow> False"
  "w_Low (normalizeQueuePriorityWeights w) \<le> 0 \<longleftrightarrow> False"
  by (simp_all add: not_le)

lemma weights_wf_id:
  "0 < w_High w \<Longrightarrow> 0 < w_Normal w \<Longrightarrow> 0 < w_Low w \<Longrightarrow> normalizeQueuePriorityWeights w = w"
  by (simp add: normalizeQueuePriorityWeights_def)

interpretation weights: normaliser normalizeQueuePriorityWeights
    "\<lambda>w. 0 < w_High w \<and> 0 < w_Normal w \<and> 0 < w_Low w"
  by unfold_locales (simp_all add: weights_wf_id)

lemma priority_ids:
  "normalizeQueuePriority queuePriorityHigh = queuePriorityHigh"
  "normalizeQueuePriority queuePriorityNormal = queuePriorityNormal"
  "normalizeQueuePriority queuePriorityLow = queuePriorityLow"
  by code_simp+

interpretation priority: normaliser normalizeQueuePriority
    "\<lambda>p. p \<in> {queuePriorityHigh, queuePriorityNormal, queuePriorityLow}"
proof
  show "normalizeQueuePriority p \<in> {queuePriorityHigh, queuePriorityNormal, queuePriorityLow}" for p
    by (rule normalizeQueuePriority_range)
  show "p \<in> {queuePriorityHigh, queuePriorityNormal, queuePriorityLow} \<Longrightarrow> normalizeQueuePriority p = p" for p
    using priority_ids by auto
qed

lemma schedule_nonempty [simp]: "buildQueuePrioritySchedule w \<noteq> []"
  by (simp add: buildQueuePrioritySchedule_def Let_def)

lemma set_schedule:
  "set (buildQueuePrioritySchedule w) = {queuePriorityHigh, queuePriorityNormal, queuePriorityLow}"
  by (auto simp: buildQueuePrioritySchedule_def Let_def)

lemma dispatch_inv:
  assumes "sched_wf s" "finite held" "int (card held) = qs_active s" "distinct (qs_ready s @ map qw_ref (qs_waiting s))"
    and "qw_ref ` set (qs_waiting s) \<inter> held = {}"
  shows "queue_inv \<lparr> qy_sched = dispatchLocked s, qy_held = held \<union> newly_ready s (dispatchLocked s) \<rparr>"
proof -
  let ?s' = "dispatchLocked s"
  obtain new where d: "dispatched_to s new ?s'" using dispatchLocked_spec by blast
  then have m: "mset (qs_ready s @ map qw_ref (qs_waiting s)) = mset (qs_ready ?s' @ map qw_ref (qs_waiting ?s'))"
    and new: "newly_ready s ?s' = set new"
    by (simp_all add: dispatched_to_def newly_ready_def)
  from m assms(4) have dist: "distinct (qs_ready ?s' @ map qw_ref (qs_waiting ?s'))"
    by (metis mset_eq_imp_distinct_iff)
  have "mset (map qw_ref (qs_waiting s)) = mset (new @ map qw_ref (qs_waiting ?s'))"
    using d by (simp add: dispatched_to_def)
  from mset_eq_setD [OF this]
  have "set (map qw_ref (qs_waiting s)) = set new \<union> set (map qw_ref (qs_waiting ?s'))" by simp
  then have disj: "set new \<inter> held = {}" "qw_ref ` set (qs_waiting ?s') \<inter> held = {}"
    using assms(5) by auto
  have dn: "distinct new" "set new \<inter> qw_ref ` set (qs_waiting ?s') = {}"
    using dist d by (auto simp: dispatched_to_def)
  have "card (held \<union> set new) = card held + length new"
    using assms(2) disj(1) dn(1) by (subst card_Un_disjoint) (auto simp: distinct_card)
  then have "int (card (held \<union> set new)) = qs_active ?s'"
    using assms(3) d by (simp add: dispatched_to_def)
  moreover have "sched_wf ?s'"
    using assms(1) d by (auto simp: sched_wf_def dispatched_to_def)
  ultimately show ?thesis
    using assms(2) dist disj dn d
    by (auto simp: queue_inv_def Let_def new dispatched_to_def)
qed

lemma configure_inv:
  assumes "queue_inv \<lparr> qy_sched = s, qy_held = held \<rparr> \<or> s = zeroScheduler \<and> held = {}"
  shows "queue_inv \<lparr> qy_sched = configure c r s, qy_held = held \<union> newly_ready s (configure c r s) \<rparr>"
proof -
  define t where "t = s\<lparr> qs_capacity := (if c \<le> 0 then 1 else c),
      qs_policy := normalizeQueueSchedulingPolicy (r_QueueSchedulingPolicy r),
      qs_weights := normalizeQueuePriorityWeights (r_QueuePriorityWeights r),
      qs_schedule := buildQueuePrioritySchedule (normalizeQueuePriorityWeights (r_QueuePriorityWeights r)),
      qs_cursor := (if length (buildQueuePrioritySchedule (normalizeQueuePriorityWeights (r_QueuePriorityWeights r)))
                       \<le> qs_cursor s then 0 else qs_cursor s) \<rparr>"
  have c: "configure c r s = dispatchLocked t" by (simp add: configure_def Let_def t_def)
  have t: "qs_active t = qs_active s" "qs_waiting t = qs_waiting s" "qs_ready t = qs_ready s"
    by (simp_all add: t_def)
  have "sched_wf t"
    using assms by (auto simp: sched_wf_def t_def queue_inv_def Let_def normalizeQueueSchedulingPolicy_def
        zeroScheduler_def)
  moreover have "finite held" "int (card held) = qs_active t"
    "distinct (qs_ready t @ map qw_ref (qs_waiting t))" "qw_ref ` set (qs_waiting t) \<inter> held = {}"
    using assms by (auto simp: t queue_inv_def Let_def zeroScheduler_def)
  ultimately have "queue_inv \<lparr> qy_sched = dispatchLocked t, qy_held = held \<union> newly_ready t (dispatchLocked t) \<rparr>"
    by (rule dispatch_inv)
  moreover have "newly_ready s x = newly_ready t x" for x by (simp add: newly_ready_def t)
  ultimately show ?thesis unfolding c by simp
qed

lemma remove_ref:
  assumes "index_where (\<lambda>w. qw_ref w = r) ws = Some i" "distinct (map qw_ref ws)"
  shows "r \<notin> qw_ref ` set (remove_at i ws)" "distinct (map qw_ref (remove_at i ws))"
proof -
  from index_where_Some [OF assms(1)] have i: "i < length ws" "qw_ref (ws ! i) = r" by auto
  have "mset (map qw_ref ws) = mset (r # map qw_ref (remove_at i ws))"
    using arg_cong [OF mset_remove_at [OF i(1)], of "image_mset qw_ref"] i(2) by simp
  then have "distinct (r # map qw_ref (remove_at i ws))"
    using assms(2) by (metis mset_eq_imp_distinct_iff)
  then show "r \<notin> qw_ref ` set (remove_at i ws)" "distinct (map qw_ref (remove_at i ws))" by auto
qed

lemma acquire_done_waiting:
  "set (qs_waiting (snd (acquire_done r s))) \<subseteq> set (qs_waiting s)"
  by (auto simp: acquire_done_def split: option.split dest: set_remove_at [THEN subsetD])

lemma queue_step_inv:
  assumes "queue_step y y'" "queue_inv y" shows "queue_inv y'"
  using assms
proof (cases rule: queue_step.cases)
  case (step_acquire r rid prio s granted s' held)
  show ?thesis
  proof (cases "qs_active s < qs_capacity s \<and> qs_waiting s = []")
    case True
    then show ?thesis using step_acquire assms(2)
      by (auto simp: acquire_begin_def queue_inv_def Let_def sched_wf_def)
  next
    case False
    then have "granted = False" "s' = s\<lparr> qs_waiting := qs_waiting s @
        [\<lparr> qw_ref = r, qw_requestID = rid, qw_priority = normalizeQueuePriority prio \<rparr>] \<rparr>"
      using step_acquire(3) by (auto simp: acquire_begin_def)
    moreover have "qs_capacity s \<le> qs_active s"
      using False assms(2) step_acquire(1) by (auto simp: queue_inv_def Let_def)
    ultimately show ?thesis
      using step_acquire assms(2) normalizeQueuePriority_range [of prio]
      by (auto simp: queue_inv_def Let_def sched_wf_def)
  qed
next
  case (step_cancel r s res s' held)
  have inv: "queue_inv \<lparr> qy_sched = s, qy_held = held \<rparr>" using assms(2) step_cancel(1) by simp
  show ?thesis
  proof (cases "r \<in> set (qs_ready s) \<or> index_where (\<lambda>w. qw_ref w = r) (qs_waiting s) = None")
    case True
    then have "s' = s" using step_cancel(3) by (auto simp: acquire_done_def split: if_splits)
    then show ?thesis using inv step_cancel(2) by simp
  next
    case False
    then obtain i where i: "index_where (\<lambda>w. qw_ref w = r) (qs_waiting s) = Some i" by auto
    with False have s': "s' = s\<lparr> qs_waiting := remove_at i (qs_waiting s) \<rparr>"
      using step_cancel(3) by (auto simp: acquire_done_def)
    let ?ws = "remove_at i (qs_waiting s)"
    have "distinct (map qw_ref ?ws)"
      using inv remove_ref(2) [OF i] by (simp add: queue_inv_def Let_def)
    moreover have "qw_ref ` set ?ws \<subseteq> qw_ref ` set (qs_waiting s)"
      by (intro image_mono set_remove_at)
    then have "set (qs_ready s) \<inter> qw_ref ` set ?ws = {}" "qw_ref ` set ?ws \<inter> held = {}"
      using inv by (auto simp: queue_inv_def Let_def)
    moreover have "sched_wf s'" "qs_waiting s \<noteq> []"
      using inv s' set_remove_at [of i "qs_waiting s"] i by (auto simp: queue_inv_def Let_def sched_wf_def)
    ultimately show ?thesis using inv step_cancel(2) s' by (simp add: queue_inv_def Let_def)
  qed
next
  case (step_release s s' r held)
  then have inv: "queue_inv \<lparr> qy_sched = s, qy_held = held \<rparr>" using assms(2) by simp
  let ?t = "s\<lparr> qs_active := qs_active s - 1 \<rparr>"
  have "0 < card held" using inv step_release(4) by (auto simp: queue_inv_def Let_def card_gt_0_iff)
  then have "0 < qs_active s" using inv by (simp add: queue_inv_def Let_def)
  then have s': "s' = dispatchLocked ?t" using step_release(3) by (simp add: release_def)
  have "queue_inv \<lparr> qy_sched = dispatchLocked ?t, qy_held = (held - {r}) \<union> newly_ready ?t (dispatchLocked ?t) \<rparr>"
    using inv step_release(4) \<open>0 < card held\<close>
    by (intro dispatch_inv) (auto simp: queue_inv_def Let_def sched_wf_def card_Diff_singleton)
  moreover have "newly_ready s x = newly_ready ?t x" for x by (simp add: newly_ready_def)
  ultimately show ?thesis using step_release(2) s' by simp
next
  case (step_configure c rt s s' held)
  then show ?thesis using configure_inv [of s held c rt] assms(2) by simp
qed

lemma queue_reachable_inv: "queue_reachable y \<Longrightarrow> queue_inv y"
proof (induction rule: queue_reachable.induct)
  case (queue_init c r)
  have "newly_ready zeroScheduler (configure c r zeroScheduler) = {}"
    using dispatchLocked_spec
    by (simp add: newly_ready_def zeroScheduler_def configure_def Let_def dispatchLocked.simps)
  then show ?case
    using configure_inv [of zeroScheduler "{}" c r] by (simp add: newQueueScheduler_def)
qed (rule queue_step_inv)

lemma configure_dispatch: "\<exists>t. configure c r s = dispatchLocked t \<and> qs_active t = qs_active s"
  unfolding configure_def Let_def by (intro exI conjI) (rule refl, simp)

section \<open>Choosing the next waiter\<close>

lemma next_loop_first:
  "j < fst (next_loop schedule waiting n cursor) \<Longrightarrow>
     qw_priority (waiting ! j) \<noteq> qw_priority (waiting ! fst (next_loop schedule waiting n cursor))"
  by (induction n arbitrary: cursor) (auto simp: Let_def split: option.splits dest!: index_where_Some)

lemma nextWaiterIndex_first:
  "j < fst (nextWaiterIndexLocked s) \<Longrightarrow>
     qw_priority (qs_waiting s ! j) \<noteq> qw_priority (qs_waiting s ! fst (nextWaiterIndexLocked s))"
  using next_loop_first by (auto simp: nextWaiterIndexLocked_def case_prod_unfold Let_def split: if_splits)

lemma slot_ahead:
  assumes "p \<in> set schedule" "cursor < length schedule"
  shows "\<exists>d < length schedule. schedule ! ((cursor + d) mod length schedule) = p"
proof -
  let ?n = "length schedule"
  from assms(1) obtain k where k: "k < ?n" "schedule ! k = p" by (metis in_set_conv_nth)
  have "(cursor + (k + ?n - cursor) mod ?n) mod ?n = k"
    using k(1) assms(2) by (simp add: mod_simps)
  then have "schedule ! ((cursor + (k + ?n - cursor) mod ?n) mod ?n) = p" using k(2) by simp
  moreover have "(k + ?n - cursor) mod ?n < ?n" using k(1) by (intro mod_less_divisor) linarith
  ultimately show ?thesis by (intro exI conjI)
qed

text \<open>The loop finds a waiter at the first slot that has one: if a slot for \<open>p\<close> is \<open>d\<close> ahead and somebody
  of priority \<open>p\<close> waits, then either the first of them is chosen, or the cursor moves closer.\<close>

lemma next_loop_progress:
  assumes "d < n" "schedule ! ((cursor + d) mod length schedule) = p" "schedule \<noteq> []"
    and "index_where (\<lambda>w. qw_priority w = p) waiting = Some k"
  shows "fst (next_loop schedule waiting n cursor) = k \<or>
    (qw_priority (waiting ! fst (next_loop schedule waiting n cursor)) \<noteq> p \<and>
     (\<exists>d' < d. schedule ! ((snd (next_loop schedule waiting n cursor) + d') mod length schedule) = p))"
  using assms(1,2)
proof (induction n arbitrary: cursor d)
  case (Suc n)
  let ?c = "(cursor + 1) mod length schedule"
  let ?q = "schedule ! (cursor mod length schedule)"
  show ?case
  proof (cases "index_where (\<lambda>w. qw_priority w = ?q) waiting")
    case None
    then have "?q \<noteq> p" using assms(4) by auto
    with Suc.prems have "d \<noteq> 0" by (cases d) auto
    then obtain e where e: "d = Suc e" by (cases d) auto
    with Suc.prems have "e < n" "schedule ! ((?c + e) mod length schedule) = p"
      by (simp_all add: mod_simps)
    from Suc.IH [OF this] None e show ?thesis by (auto simp: less_Suc_eq)
  next
    case (Some i)
    then have step: "next_loop schedule waiting (Suc n) cursor = (i, ?c)" by simp
    show ?thesis
    proof (cases "?q = p")
      case True
      with Some assms(4) step show ?thesis by simp
    next
      case False
      with Suc.prems have "d \<noteq> 0" by (cases d) auto
      then obtain e where e: "d = Suc e" by (cases d) auto
      with Suc.prems have "schedule ! ((?c + e) mod length schedule) = p" by (simp add: mod_simps)
      moreover have "qw_priority (waiting ! i) = ?q" using index_where_Some [OF Some] by simp
      ultimately show ?thesis using step e False by auto
    qed
  qed
qed simp

lemma index_where_append:
  "index_where P (xs @ ys) = (case index_where P xs of Some i \<Rightarrow> Some i
     | None \<Rightarrow> map_option (\<lambda>i. i + length xs) (index_where P ys))"
  by (induction xs) (auto simp: option.map_comp option.map_ident comp_def split: option.split)

lemma remove_at_append:
  "j < length xs \<Longrightarrow> remove_at j (xs @ ys) = remove_at j xs @ ys"
  "length xs \<le> j \<Longrightarrow> remove_at j (xs @ ys) = xs @ remove_at (j - length xs) ys"
  by (auto simp: remove_at_def Suc_diff_le)

lemma remove_at_Cons [simp]: "remove_at 0 (y # ys) = ys" "remove_at (Suc j) (y # ys) = y # remove_at j ys"
  by (simp_all add: remove_at_def)

lemma filter_remove_at:
  "j < length xs \<Longrightarrow> length (filter P xs) = length (filter P (remove_at j xs)) + (if P (xs ! j) then 1 else 0)"
  using arg_cong [OF mset_remove_at [of j xs], of "\<lambda>m. size (filter_mset P m)"]
  by (auto simp: mset_filter [symmetric] simp del: mset_filter split: if_splits)

text \<open>A sequence of dispatches, with any requests arriving before each of them.\<close>

fun drain :: "queueWaiter list list \<Rightarrow> queueScheduler \<Rightarrow> queueWaiter list" where
  "drain [] s = []"
| "drain (arrived # rest) s =
    (let s1 = s\<lparr> qs_waiting := qs_waiting s @ arrived \<rparr> in
     if qs_waiting s1 = [] then drain rest s1
     else fst (dispatch_one s1) # drain rest (snd (dispatch_one s1)))"

lemma weighted_next:
  "qs_policy s \<noteq> queueSchedulingFIFO \<Longrightarrow> qs_schedule s \<noteq> [] \<Longrightarrow>
     fst (nextWaiterIndexLocked s) =
       fst (next_loop (qs_schedule s) (qs_waiting s) (length (qs_schedule s)) (qs_cursor s)) \<and>
     qs_cursor (snd (nextWaiterIndexLocked s)) =
       snd (next_loop (qs_schedule s) (qs_waiting s) (length (qs_schedule s)) (qs_cursor s))"
  by (simp add: nextWaiterIndexLocked_def case_prod_unfold Let_def)

lemma drain_serves:
  assumes "qs_policy s \<noteq> queueSchedulingFIFO" "qs_cursor s < length (qs_schedule s)"
    and "qw_priority w \<in> set (qs_schedule s)" "qs_waiting s = us @ w # vs"
    and "d < length (qs_schedule s)"
    and "qs_schedule s ! ((qs_cursor s + d) mod length (qs_schedule s)) = qw_priority w"
    and "length (filter (\<lambda>x. qw_priority x = qw_priority w) us) * length (qs_schedule s) + d < length arrivals"
  shows "w \<in> set (drain arrivals s)"
  using assms
proof (induction arrivals arbitrary: s us vs d)
  case (Cons arr rest)
  let ?p = "\<lambda>x. qw_priority x = qw_priority w" and ?L = "length (qs_schedule s)"
  define s1 where "s1 = s\<lparr> qs_waiting := qs_waiting s @ arr \<rparr>"
  define i where "i = fst (nextWaiterIndexLocked s1)"
  define s2 where "s2 = snd (dispatch_one s1)"
  have s1: "qs_waiting s1 = us @ w # (vs @ arr)" "qs_policy s1 = qs_policy s" "qs_schedule s1 = qs_schedule s"
    "qs_cursor s1 = qs_cursor s" using Cons.prems(4) by (simp_all add: s1_def)
  have sched: "qs_schedule s \<noteq> []" using Cons.prems(2) by auto
  note nxt = weighted_next [of s1, unfolded s1(2,3,4), OF Cons.prems(1) sched, folded i_def]
  have ival: "i < length (qs_waiting s1)" unfolding i_def by (rule nextWaiterIndex_valid) (simp add: s1)
  have out: "drain (arr # rest) s = qs_waiting s1 ! i # drain rest s2"
    by (simp add: Let_def s1_def [symmetric] s1(1) s2_def i_def)
  have s2: "qs_policy s2 = qs_policy s" "qs_schedule s2 = qs_schedule s" "qs_waiting s2 = remove_at i (qs_waiting s1)"
    "qs_cursor s2 = qs_cursor (snd (nextWaiterIndexLocked s1))"
    by (simp_all add: s2_def i_def s1)
  have cur: "qs_cursor s2 < length (qs_schedule s2)"
    using nextWaiterIndex_cursor [of s1] Cons.prems(2) s1 s2 by simp
  obtain k where k: "index_where ?p (qs_waiting s1) = Some k"
    unfolding s1(1) index_where_append by (cases "index_where ?p us") auto
  from next_loop_progress [OF Cons.prems(5,6) sched k] nxt
  consider (hit) "i = k" | (near) d' where "qw_priority (qs_waiting s1 ! i) \<noteq> qw_priority w" "d' < d"
      "qs_schedule s ! ((qs_cursor s2 + d') mod ?L) = qw_priority w"
    using s2(4) by auto
  then show ?case
  proof cases
    case hit
    show ?thesis
    proof (cases "index_where ?p us")
      case None
      then have "k = length us" using k by (simp add: s1(1) index_where_append)
      then show ?thesis using hit out by (simp add: s1(1))
    next
      case (Some j)
      then have j: "j = k" "j < length us" "?p (us ! j)" using k index_where_Some [OF Some]
        by (simp_all add: s1(1) index_where_append)
      have wait: "qs_waiting s2 = remove_at j us @ w # (vs @ arr)"
        using j hit by (simp add: s2(3) s1(1) remove_at_append)
      have fewer: "length (filter ?p us) = Suc (length (filter ?p (remove_at j us)))"
        using filter_remove_at [OF j(2), of ?p] j(3) by simp
      from slot_ahead [of "qw_priority w" "qs_schedule s2" "qs_cursor s2"] cur Cons.prems(3) s2
      obtain e where e: "e < ?L" "qs_schedule s ! ((qs_cursor s2 + e) mod ?L) = qw_priority w" by auto
      have "length (filter ?p (remove_at j us)) * ?L + e < length rest"
        using Cons.prems(7) e(1) fewer by simp
      from Cons.IH [where s = s2 and d = e, OF _ cur _ wait] Cons.prems(1,3) e s2 this
      show ?thesis unfolding out by simp
    qed
  next
    case near
    have ne: "i \<noteq> length us" using near(1) s1(1) by auto
    show ?thesis
    proof (cases "i < length us")
      case True
      then have wait: "qs_waiting s2 = remove_at i us @ w # (vs @ arr)"
        by (simp add: s2(3) s1(1) remove_at_append)
      have "length (filter ?p (remove_at i us)) = length (filter ?p us)"
        using filter_remove_at [OF True, of ?p] near(1) True by (simp add: s1(1) nth_append)
      then have "length (filter ?p (remove_at i us)) * ?L + d' < length rest"
        using Cons.prems(7) near(2) by simp
      from Cons.IH [where s = s2 and d = d', OF _ cur _ wait] Cons.prems(1,3,5) near s2 this
      show ?thesis unfolding out by simp
    next
      case False
      with ne obtain j where j: "i = length us + Suc j" by (metis add_Suc_right less_imp_Suc_add not_less_iff_gr_or_eq)
      have wait: "qs_waiting s2 = us @ w # remove_at j (vs @ arr)"
        unfolding s2(3) s1(1) by (subst remove_at_append(2)) (simp_all add: j)
      have "length (filter ?p us) * ?L + d' < length rest" using Cons.prems(7) near(2) by simp
      from Cons.IH [where s = s2 and d = d', OF _ cur _ wait] Cons.prems(1,3,5) near s2 this
      show ?thesis unfolding out by simp
    qed
  qed
qed simp

section \<open>Properties\<close>

text \<open>C17. The slots are accounted for exactly, however requests arrive, give up, finish and the
  configuration changes concurrently: the number of active slots is the number of requests that own one,
  nobody owns a slot and waits, nobody waits twice, and no slot is idle while somebody waits.\<close>

theorem queue_slots:
  assumes "queue_reachable y"
  shows "int (card (qy_held y)) = qs_active (qy_sched y) \<and>
    distinct (map qw_ref (qs_waiting (qy_sched y))) \<and>
    qw_ref ` set (qs_waiting (qy_sched y)) \<inter> (qy_held y \<union> set (qs_ready (qy_sched y))) = {} \<and>
    (if qs_active (qy_sched y) < qs_capacity (qy_sched y) then qs_waiting (qy_sched y) = [] else True)"
  using queue_reachable_inv [OF assms] by (auto simp: queue_inv_def Let_def)

text \<open>Slots are never handed out beyond the capacity: a step leaves the number of active slots within
  the capacity, or does not increase it (when the capacity was lowered below it).\<close>

theorem queue_capacity:
  assumes "queue_step y y'"
  shows "qs_active (qy_sched y') \<le> qs_capacity (qy_sched y') \<or> qs_active (qy_sched y') \<le> qs_active (qy_sched y)"
proof -
  have d: "qs_active (dispatchLocked t) \<le> max (qs_active t) (qs_capacity t)"
    "qs_capacity (dispatchLocked t) = qs_capacity t" for t
    using dispatchLocked_spec [of t] by (auto simp: dispatched_to_def)
  from assms show ?thesis
  proof (cases rule: queue_step.cases)
    case (step_acquire r rid prio s granted s' held)
    then show ?thesis by (auto simp: acquire_begin_def split: if_splits)
  next
    case (step_cancel r s res s' held)
    then show ?thesis by (auto simp: acquire_done_def split: if_splits)
  next
    case (step_release s s' r held)
    then show ?thesis
      using d [of "s\<lparr> qs_active := (if 0 < qs_active s then qs_active s - 1 else qs_active s) \<rparr>"]
      by (auto simp: release_def split: if_splits)
  next
    case (step_configure c rt s s' held)
    obtain t where "s' = dispatchLocked t" "qs_active t = qs_active s"
      using configure_dispatch [of c rt s] step_configure(3) by blast
    then show ?thesis using d [of t] step_configure(1,2) by auto
  qed
qed

text \<open>C18. Nobody starves: with the weighted policy, a waiting request that has \<open>k\<close> requests of its own
  priority ahead of it is dispatched within \<open>(k + 1)\<close> rounds of the schedule, whatever arrives in the
  meantime.\<close>

theorem no_starvation:
  assumes "sched_wf s" "qs_policy s = queueSchedulingWeightedPriority" "qs_waiting s = us @ w # vs"
    and "k = length (filter (\<lambda>x. qw_priority x = qw_priority w) us)"
    and "(k + 1) * length (qs_schedule s) \<le> length arrivals"
  shows "w \<in> set (drain arrivals s)"
proof -
  have "qs_policy s \<noteq> queueSchedulingFIFO" using assms(2) by (simp add: queue_names)
  moreover have p: "qw_priority w \<in> set (qs_schedule s)" "qs_cursor s < length (qs_schedule s)"
    using assms(1,3) by (auto simp: sched_wf_def set_schedule)
  moreover from slot_ahead [OF p] obtain d where d: "d < length (qs_schedule s)"
    "qs_schedule s ! ((qs_cursor s + d) mod length (qs_schedule s)) = qw_priority w" by blast
  moreover have "length (filter (\<lambda>x. qw_priority x = qw_priority w) us) * length (qs_schedule s) + d < length arrivals"
    using assms(4,5) d(1) by simp
  ultimately show ?thesis using drain_serves assms(3) by blast
qed

text \<open>Requests of one priority are dispatched in their order of arrival, under either policy.\<close>

theorem dispatch_order:
  assumes "qs_waiting s \<noteq> []"
  shows "\<exists>us vs. qs_waiting s = us @ fst (dispatch_one s) # vs \<and> qs_waiting (snd (dispatch_one s)) = us @ vs \<and>
    qw_priority (fst (dispatch_one s)) \<notin> qw_priority ` set us"
proof (intro exI conjI)
  let ?i = "fst (nextWaiterIndexLocked s)"
  have i: "?i < length (qs_waiting s)" using assms by (rule nextWaiterIndex_valid)
  show "qs_waiting s = take ?i (qs_waiting s) @ fst (dispatch_one s) # drop (Suc ?i) (qs_waiting s)"
    using i by (simp add: id_take_nth_drop [symmetric])
  show "qs_waiting (snd (dispatch_one s)) = take ?i (qs_waiting s) @ drop (Suc ?i) (qs_waiting s)"
    by (simp add: remove_at_def)
  show "qw_priority (fst (dispatch_one s)) \<notin> qw_priority ` set (take ?i (qs_waiting s))"
    using nextWaiterIndex_first [of _ s] i by (fastforce simp: in_set_conv_nth image_iff)
qed

lemma count_list_rotate1: "count_list (rotate1 xs) x = count_list xs x"
  by (cases xs) simp_all

lemma drain_follows:
  assumes "qs_policy s \<noteq> queueSchedulingFIFO" "qs_cursor s < length (qs_schedule s)"
    and "\<forall>p \<in> set (qs_schedule s). n \<le> length (filter (\<lambda>w. qw_priority w = p) (qs_waiting s))"
  shows "map qw_priority (drain (replicate n []) s) =
    map (\<lambda>j. qs_schedule s ! ((qs_cursor s + j) mod length (qs_schedule s))) [0..<n]"
  using assms
proof (induction n arbitrary: s)
  case (Suc n)
  let ?sch = "qs_schedule s" and ?L = "length (qs_schedule s)"
  define p where "p = ?sch ! qs_cursor s"
  have L: "?L = Suc (?L - 1)" using Suc.prems(2) by simp
  have "filter (\<lambda>w. qw_priority w = p) (qs_waiting s) \<noteq> []"
    using Suc.prems(2,3) by (auto simp: p_def dest!: bspec [OF _ nth_mem])
  then obtain i where i: "index_where (\<lambda>w. qw_priority w = p) (qs_waiting s) = Some i"
    by (cases "index_where (\<lambda>w. qw_priority w = p) (qs_waiting s)")
      (auto simp: index_where_None filter_empty_conv)
  note ip = index_where_Some [OF i]
  have "next_loop ?sch (qs_waiting s) ?L (qs_cursor s) = (i, (qs_cursor s + 1) mod ?L)"
    using Suc.prems(2) i by (subst L) (simp add: p_def del: Suc_pred)
  then have nx: "fst (nextWaiterIndexLocked s) = i"
    "qs_cursor (snd (nextWaiterIndexLocked s)) = (qs_cursor s + 1) mod ?L"
    using weighted_next [of s] Suc.prems(1,2) by (auto simp: length_greater_0_conv [symmetric] simp del: length_greater_0_conv)
  let ?t = "snd (dispatch_one s)"
  have t: "qs_policy ?t = qs_policy s" "qs_schedule ?t = ?sch" "qs_cursor ?t = (qs_cursor s + 1) mod ?L"
    "qs_waiting ?t = remove_at i (qs_waiting s)" by (simp_all add: nx)
  have cnt: "n \<le> length (filter (\<lambda>w. qw_priority w = q) (remove_at i (qs_waiting s)))" if "q \<in> set ?sch" for q
    using bspec [OF Suc.prems(3) that] filter_remove_at [of i "qs_waiting s" "\<lambda>w. qw_priority w = q"] ip
    by (auto split: if_splits)
  have "(qs_cursor s + 1) mod ?L < ?L" using Suc.prems(2) by (intro mod_less_divisor) linarith
  then have IH: "map qw_priority (drain (replicate n []) ?t) =
      map (\<lambda>j. ?sch ! (((qs_cursor s + 1) mod ?L + j) mod ?L)) [0..<n]"
    using Suc.IH [of ?t] Suc.prems(1,2) cnt unfolding t by simp
  have "qs_waiting s \<noteq> []" using ip by auto
  then have "drain (replicate (Suc n) []) s = fst (dispatch_one s) # drain (replicate n []) ?t"
    by simp
  moreover have "qw_priority (fst (dispatch_one s)) = p" using ip by (simp add: nx)
  ultimately show ?case
    using IH Suc.prems(2) by (simp add: upt_conv_Cons map_Suc_upt [symmetric] p_def mod_simps del: upt_Suc)
qed simp

text \<open>The weights are the shares: while enough requests of every priority wait, the dispatches
  follow the schedule from the cursor on, so that one round serves exactly as many requests of each
  priority as its weight says.\<close>

theorem weighted_shares:
  assumes "sched_wf s" "qs_policy s = queueSchedulingWeightedPriority"
    and "length (qs_schedule s) \<le> length (filter (\<lambda>w. qw_priority w = queuePriorityHigh) (qs_waiting s))"
    and "length (qs_schedule s) \<le> length (filter (\<lambda>w. qw_priority w = queuePriorityNormal) (qs_waiting s))"
    and "length (qs_schedule s) \<le> length (filter (\<lambda>w. qw_priority w = queuePriorityLow) (qs_waiting s))"
  shows "let served = map qw_priority (drain (replicate (length (qs_schedule s)) []) s) in
    served = rotate (qs_cursor s) (qs_schedule s) \<and>
    int (count_list served queuePriorityHigh) = w_High (qs_weights s) \<and>
    int (count_list served queuePriorityNormal) = w_Normal (qs_weights s) \<and>
    int (count_list served queuePriorityLow) = w_Low (qs_weights s)"
proof -
  let ?sch = "qs_schedule s"
  have "qs_policy s \<noteq> queueSchedulingFIFO" using assms(2) by (simp add: queue_names)
  moreover have wf: "qs_cursor s < length ?sch" "?sch = buildQueuePrioritySchedule (qs_weights s)"
    "normalizeQueuePriorityWeights (qs_weights s) = qs_weights s"
    using assms(1) unfolding sched_wf_def by (blast, blast, blast intro: weights_wf_id)
  moreover have "\<forall>p \<in> set ?sch. length ?sch \<le> length (filter (\<lambda>w. qw_priority w = p) (qs_waiting s))"
    using assms(3-5) by (simp add: wf(2) set_schedule)
  ultimately have served: "map qw_priority (drain (replicate (length ?sch) []) s) = rotate (qs_cursor s) ?sch"
    using drain_follows [of s "length ?sch"] by (intro nth_equalityI) (auto simp: nth_rotate)
  have "count_list (rotate n xs) x = count (mset xs) x" for n x and xs :: "string list"
    by (induction n) (simp_all add: count_list_rotate1 count_mset)
  then show ?thesis
    using assms(1) unfolding Let_def served
    by (subst (2 3 4) wf(2)) (simp_all add: buildQueuePrioritySchedule_def wf(3) Let_def queue_names sched_wf_def)
qed

text \<open>The record of a request: it is current from the moment it is enqueued until it finishes, then
  it is the newest of at most fifty recent entries with the final status, and other requests are
  not touched.\<close>

theorem finish_records:
  "let q' = snd (finish now rid st depth q); e = fst (finish now rid st depth q) in
   goget (qt_current q') rid = None \<and>
   (\<forall>r. (if r = rid then True else goget (qt_current q') r = goget (qt_current q) r)) \<and>
   qt_recent q' = take 50 (e # qt_recent q) \<and> length (qt_recent q') \<le> 50 \<and>
   qe_Status e = st \<and> qe_CompletedAt e = now \<and>
   (goget (qt_current (snd (enqueue now entry q))) (qe_RequestID entry) = Some (fst (enqueue now entry q))) \<and>
   qe_Priority (fst (enqueue now entry q)) \<in> {queuePriorityHigh, queuePriorityNormal, queuePriorityLow}"
  using normalizeQueuePriority_range [of "qe_Priority entry"]
  by (simp add: finish_def Let_def enqueue_def recent.push_eq)

section \<open>Concrete runs\<close>

definition sampleSched :: queueScheduler where
  "sampleSched = newQueueScheduler 1 (c_Routing (Default ''marshal''))"

definition sampleWaiter :: "nat \<Rightarrow> string \<Rightarrow> queueWaiter" where
  "sampleWaiter r p = \<lparr> qw_ref = r, qw_requestID = ''req'', qw_priority = p \<rparr>"

definition crowdedSched :: queueScheduler where
  "crowdedSched = sampleSched\<lparr> qs_waiting := map (\<lambda>r. sampleWaiter r queuePriorityHigh) [0..<6] @
     map (\<lambda>r. sampleWaiter r queuePriorityNormal) [6..<12] @ map (\<lambda>r. sampleWaiter r queuePriorityLow) [12..<18] \<rparr>"

lemma sampleSched_eq: "sampleSched = \<lparr> qs_capacity = 1, qs_active = 0, qs_policy = queueSchedulingWeightedPriority,
    qs_weights = \<lparr> w_High = 3, w_Normal = 2, w_Low = 1 \<rparr>,
    qs_schedule = [queuePriorityHigh, queuePriorityHigh, queuePriorityHigh, queuePriorityNormal, queuePriorityNormal, queuePriorityLow],
    qs_cursor = 0, qs_waiting = [], qs_ready = [] \<rparr>"
  by code_simp

lemma sampleSched_wf: "sched_wf sampleSched" "sched_wf crowdedSched"
  by code_simp+

lemma sample_reachable: "queue_reachable \<lparr> qy_sched = sampleSched, qy_held = {} \<rparr>"
  unfolding sampleSched_def by (rule queue_init)

lemma sample_step:
  "queue_step \<lparr> qy_sched = sampleSched, qy_held = {} \<rparr> \<lparr> qy_sched = sampleSched\<lparr> qs_active := 1 \<rparr>, qy_held = {7} \<rparr>"
  using step_acquire [of 7 "''req''" "''high''" sampleSched True "sampleSched\<lparr> qs_active := 1 \<rparr>" "{}"]
  by (simp add: acquire_begin_def sampleSched_eq)

theorem queue_slots_witness: "int (card {7::nat}) = qs_active (sampleSched\<lparr> qs_active := 1 \<rparr>)"
  using queue_slots [OF queue_next [OF sample_reachable sample_step]] by simp

theorem queue_capacity_witness:
  "qs_active (sampleSched\<lparr> qs_active := 1 \<rparr>) \<le> qs_capacity sampleSched \<or> qs_active (sampleSched\<lparr> qs_active := 1 \<rparr>) \<le> 0"
  using queue_capacity [OF sample_step] by (simp add: sampleSched_eq)

theorem no_starvation_witness:
  "sampleWaiter 12 queuePriorityLow \<in> set (drain (replicate 6 [sampleWaiter 99 queuePriorityHigh]) crowdedSched)"
proof -
  let ?us = "map (\<lambda>r. sampleWaiter r queuePriorityHigh) [0..<6] @ map (\<lambda>r. sampleWaiter r queuePriorityNormal) [6..<12]"
  have w: "qs_waiting crowdedSched = ?us @ sampleWaiter 12 queuePriorityLow # map (\<lambda>r. sampleWaiter r queuePriorityLow) [13..<18]"
    by (simp add: crowdedSched_def upt_rec)
  have "filter (\<lambda>x. qw_priority x = qw_priority (sampleWaiter 12 queuePriorityLow)) ?us = []"
    by (simp add: sampleWaiter_def queue_names)
  then show ?thesis
    using no_starvation [OF sampleSched_wf(2) _ w refl, of "replicate 6 [sampleWaiter 99 queuePriorityHigh]"]
    by (simp add: crowdedSched_def sampleSched_eq)
qed

theorem dispatch_order_witness:
  "\<exists>us vs. qs_waiting crowdedSched = us @ fst (dispatch_one crowdedSched) # vs \<and>
     qs_waiting (snd (dispatch_one crowdedSched)) = us @ vs"
  using dispatch_order [of crowdedSched] by (auto simp: crowdedSched_def upt_rec)

theorem weighted_shares_witness:
  "count_list (map qw_priority (drain (replicate 6 []) crowdedSched)) queuePriorityHigh = 3"
proof -
  have "length (filter (\<lambda>w. qw_priority w = queuePriorityHigh) (qs_waiting crowdedSched)) = 6"
    "length (filter (\<lambda>w. qw_priority w = queuePriorityNormal) (qs_waiting crowdedSched)) = 6"
    "length (filter (\<lambda>w. qw_priority w = queuePriorityLow) (qs_waiting crowdedSched)) = 6"
    "length (qs_schedule crowdedSched) = 6" "w_High (qs_weights crowdedSched) = 3"
    "qs_policy crowdedSched = queueSchedulingWeightedPriority"
    by code_simp+
  note facts = this
  from weighted_shares [OF sampleSched_wf(2) facts(6), unfolded facts(1-5), OF order_refl order_refl order_refl]
  have "int (count_list (map qw_priority (drain (replicate 6 []) crowdedSched)) queuePriorityHigh) = 3"
    unfolding Let_def by (elim conjE)
  then show ?thesis by linarith
qed

end
