(* ===== verification/Inference.thy ===== *)
theory Inference
  imports ConsensusProxy Queue
begin

text \<open>
  The handler of the inference routes, \<^verbatim>\<open>marshalProxy\<close> of \<^verbatim>\<open>internal/httpapi/server.go\<close> with its helpers: a
  request is admitted by the queue, routed, pinned by its session, forwarded to one node or to a
  consensus of several, and its slot is given back. This is where the queue, routing, session
  affinity, telemetry, forwarding and consensus meet.
\<close>

section \<open>The request\<close>

definition queueStatusWaiting :: string where "queueStatusWaiting = ''waiting''"
definition queueStatusActive :: string where "queueStatusActive = ''active''"
definition queueStatusCompleted :: string where "queueStatusCompleted = ''completed''"
definition queueStatusFailed :: string where "queueStatusFailed = ''failed''"
definition queueStatusCancelled :: string where "queueStatusCancelled = ''cancelled''"
definition queueStatusRejected :: string where "queueStatusRejected = ''rejected''"
definition queueStatusPartial :: string where "queueStatusPartial = ''partial''"

text \<open>\<^verbatim>\<open>Header.Get\<close> gives the empty string for a header that is not there.\<close>

record http_request =
  hr_path :: string
  hr_header :: "string \<Rightarrow> string"
  hr_body :: string

definition payload_field :: "server_codec \<Rightarrow> string \<Rightarrow> string \<Rightarrow> json" where
  "payload_field js body k = (case payload_of js body of Members m \<Rightarrow> member_of (JObject m) k | _ \<Rightarrow> JNull)"

definition json_string :: "json \<Rightarrow> string option" where
  "json_string j = (case j of JString s \<Rightarrow> Some s | _ \<Rightarrow> None)"

definition parseRequestMeta :: "server_codec \<Rightarrow> http_request \<Rightarrow> string \<times> bool \<times> string" where
  "parseRequestMeta js r =
    (let model = (case json_string (payload_field js (hr_body r) ''model'') of Some s \<Rightarrow> s | None \<Rightarrow> []);
         stream = (payload_field js (hr_body r) ''stream'' = JBool True);
         header = hr_header r ''X-Llama-Wrangler-Session'';
         sessionID = (if header = [] then
             (case json_string (payload_field js (hr_body r) ''session_id'') of Some s \<Rightarrow> s | None \<Rightarrow> header) else header)
     in (model, stream, sessionID))"

definition queuePriorityFromHeader :: "http_request \<Rightarrow> string" where
  "queuePriorityFromHeader r = normalizeQueuePriority (hr_header r ''X-Llama-Wrangler-Priority'')"

definition parseRequestPriority :: "server_codec \<Rightarrow> http_request \<Rightarrow> string" where
  "parseRequestPriority js r =
    (let header = hr_header r ''X-Llama-Wrangler-Priority'' in
     if header \<noteq> [] then normalizeQueuePriority header
     else case json_string (payload_field js (hr_body r) ''priority'') of
            Some p \<Rightarrow> normalizeQueuePriority p
          | None \<Rightarrow> (case json_string (payload_field js (hr_body r) ''queue_priority'') of
               Some p \<Rightarrow> normalizeQueuePriority p
             | None \<Rightarrow> queuePriorityNormal))"

definition writeInferenceError :: "server_codec \<Rightarrow> http_request \<Rightarrow> int \<Rightarrow> string \<Rightarrow> string \<Rightarrow> Writer \<Rightarrow> Writer" where
  "writeInferenceError js r st code message w =
    writeInferenceErrorForPath (codec.truncate js) (hr_path r) st code message w"

section \<open>Admission\<close>

text \<open>What the requests share.\<close>

record shared =
  sh_store :: Store
  sh_sched :: queueScheduler
  sh_meta :: queueTracker

definition updateQueueMetadata :: "string \<Rightarrow> QueueEntry \<Rightarrow> shared \<Rightarrow> shared" where
  "updateQueueMetadata requestID entry sh = sh\<lparr> sh_meta := snd (update requestID entry (sh_meta sh)) \<rparr>"

definition finishQueue :: "gotime \<Rightarrow> string \<Rightarrow> string \<Rightarrow> shared \<Rightarrow> QueueEntry \<times> shared" where
  "finishQueue now requestID st sh =
    (let (entry, meta) = finish now requestID st (activeDepth (sh_sched sh)) (sh_meta sh) in (entry, sh\<lparr> sh_meta := meta \<rparr>))"

definition emit_shared :: "Server \<Rightarrow> net_env \<Rightarrow> string \<Rightarrow> gobj \<Rightarrow> shared \<Rightarrow> shared" where
  "emit_shared sv ne ty fs sh = sh\<lparr> sh_store := emit sv ne ty fs (sh_store sh) \<rparr>"

text \<open>\<^verbatim>\<open>acquireQueue\<close> up to the wait: the entry, and whether a slot was free at once. \<open>ref\<close> is the identity
  of the waiter.\<close>

definition acquireQueue_begin :: "Server \<Rightarrow> net_env \<Rightarrow> nat \<Rightarrow> string \<Rightarrow> QueueEntry \<Rightarrow> shared \<Rightarrow> bool \<times> QueueEntry \<times> shared" where
  "acquireQueue_begin sv ne ref requestID entry0 sh =
    (let (entry, meta) = enqueue (e_now (ne_env ne)) (entry0\<lparr> qe_RequestID := requestID \<rparr>) (sh_meta sh);
         sh = emit_shared sv ne ''queue_state''
           [(''request_id'', GStr requestID), (''status'', GStr queueStatusWaiting),
            (''queue_depth'', GInt (activeDepth (sh_sched sh))), (''queue_capacity'', GInt (qe_QueueCap entry)),
            (''priority'', GStr (qe_Priority entry)), (''surface'', GStr (qe_Surface entry)),
            (''scheduling_policy'', GStr (qss_Policy (status (sh_sched sh))))] (sh\<lparr> sh_meta := meta \<rparr>);
         (granted, sched) = acquire_begin ref requestID (qe_Priority entry) (sh_sched sh)
     in (granted, entry, sh\<lparr> sh_sched := sched \<rparr>))"

text \<open>What follows the wait: \<open>granted\<close> is what \<^verbatim>\<open>acquire\<close> returned, \<open>gone\<close> whether the client has left.\<close>

definition acquireQueue_end :: "Server \<Rightarrow> net_env \<Rightarrow> http_request \<Rightarrow> string \<Rightarrow> string \<Rightarrow> bool \<Rightarrow> bool \<Rightarrow> Writer \<Rightarrow> shared
    \<Rightarrow> bool \<times> Writer \<times> shared" where
  "acquireQueue_end sv ne r requestID policy granted gone w sh =
    (let now = e_now (ne_env ne) in
     if granted then
       let (entry, meta) = start now requestID (activeDepth (sh_sched sh)) (sh_meta sh) in
       (True, w, emit_shared sv ne ''queue_state''
         [(''request_id'', GStr requestID), (''queue_depth'', GInt (activeDepth (sh_sched sh))),
          (''queue_capacity'', GInt (qe_QueueCap entry)), (''status'', GStr queueStatusActive),
          (''priority'', GStr (qe_Priority entry)), (''surface'', GStr (qe_Surface entry)),
          (''scheduling_policy'', GStr policy)] (sh\<lparr> sh_meta := meta \<rparr>))
     else if gone then
       let (entry, sh) = finishQueue now requestID queueStatusCancelled sh in
       (False, w, emit_shared sv ne ''request_cancelled''
         [(''request_id'', GStr requestID), (''reason'', GStr ''client_disconnect_before_queue''),
          (''queue_status'', GStr (qe_Status entry)), (''priority'', GStr (qe_Priority entry)),
          (''scheduling_policy'', GStr policy)] sh)
     else
       let (entry, sh) = finishQueue now requestID queueStatusRejected sh in
       (False, writeInferenceError (sv_json sv) r 429 ''queue_full''
           ''Request queue is full. Try again when active jobs complete.'' w,
        emit_shared sv ne ''error''
         [(''request_id'', GStr requestID), (''error_class'', GStr ''queue_full''),
          (''queue_depth'', GInt (activeDepth (sh_sched sh))), (''queue_capacity'', GInt (qe_QueueCap entry)),
          (''priority'', GStr (qe_Priority entry)), (''retryable'', GBool True),
          (''scheduling_policy'', GStr policy)] sh))"

section \<open>Serving an admitted request\<close>

text \<open>The environment of the handler; \<open>ie_latency\<close> is what the clock measures at the end.\<close>

record infer_env =
  ie_net :: net_env
  ie_fan :: fan_env
  ie_arrivals :: "arrival list"
  ie_latency :: int

text \<open>How the body of the handler ends: it returns with the queue status it has set, it panics in its own
  goroutine, it takes the program down, or it still waits.\<close>

datatype served =
    Served string Writer Store
  | Panics Writer Store
  | Dies
  | Waits

definition metadata_fields :: "NodeMetadata \<Rightarrow> gobj" where
  "metadata_fields m = [(''node_id'', GStr (nm_NodeID m)), (''control_level'', GStr (nm_ControlLevel m)),
     (''trust_level'', GStr (nm_TrustLevel m))] @
     (if nm_CapabilitySource m = [] then [] else [(''capability_source'', GStr (nm_CapabilitySource m))]) @
     (if nm_Reasons m = [] then [] else [(''reasons'', GStrs (nm_Reasons m))])"

definition serve_consensus :: "Server \<Rightarrow> infer_env \<Rightarrow> string \<Rightarrow> string \<Rightarrow> string \<Rightarrow> http_request \<Rightarrow> Decision \<Rightarrow> bool
    \<Rightarrow> Writer \<Rightarrow> Store \<Rightarrow> served" where
  "serve_consensus sv ie path surface requestID r decision stream w store =
    (let ne = ie_net ie; mode = GStr (d_ExecutionMode decision) in
     if stream then
       Served queueStatusFailed
         (writeInferenceError (sv_json sv) r 400 ''consensus_streaming_not_supported''
           ''Streaming consensus is not available in the V1 non-streaming consensus foundation.'' w)
         (emit sv ne ''consensus''
           [(''request_id'', GStr requestID), (''execution_mode'', mode),
            (''participants'', GStrs (d_CandidateNodes decision)),
            (''participant_count'', GInt (int (length (d_CandidateNodes decision)))), (''successful_count'', GInt 0),
            (''failed_count'', GInt 0), (''consensus_reached'', GBool False), (''disagreement_detected'', GBool False),
            (''streaming_rejected'', GBool True), (''frontier_used'', GBool False)] store)
     else case forwardConsensus sv (ie_fan ie) (ie_arrivals ie) store path surface (hr_body r) decision
           (consensusDebugRequested (sv_json sv) (hr_header r ''X-Llama-Wrangler-Debug'') (hr_body r)) w of
       Crashed \<Rightarrow> Dies
     | Waiting \<Rightarrow> Waits
     | Finished (outcome, w) \<Rightarrow>
        (let store = emit sv ne ''consensus'' (consensusTelemetry decision requestID outcome) store;
             counts = [(''participant_count'', GInt (int (length (cx_Participants outcome))))] in
         if cx_Err outcome \<noteq> None then
           (if cx_ClientCancelled outcome then
              Served queueStatusCancelled w (emit sv ne ''request_cancelled''
                ([(''request_id'', GStr requestID), (''reason'', GStr ''client_cancelled_during_consensus''),
                  (''execution_mode'', mode)] @ counts @
                 [(''successful_count'', GInt (int (length (cx_SuccessfulNodes outcome)))),
                  (''partial_output'', GBool False), (''retry_allowed'', GBool False)]) store)
            else if cx_ResponseCommitted outcome then
              Served queueStatusPartial w (emit sv ne ''response_partial''
                [(''request_id'', GStr requestID), (''selected_node'', GStr (cx_WinnerNode outcome)),
                 (''stream'', GBool False), (''bytes_written'', GInt (cx_BytesWritten outcome)),
                 (''partial_output'', GBool (0 < cx_BytesWritten outcome)), (''retry_allowed'', GBool False),
                 (''retry_phase'', GStr ''after_partial_output''), (''execution_mode'', mode)] store)
            else
              let (st, code, message) = consensusInferenceFailure outcome in
              Served queueStatusFailed (writeInferenceError (sv_json sv) r st code message w) store)
         else
           Served queueStatusCompleted w (emit sv ne ''response''
             ([(''request_id'', GStr requestID), (''status'', GStr ''success''),
               (''selected_node'', GStr (cx_WinnerNode outcome)), (''resolved_model'', GStr (d_ResolvedModel decision)),
               (''latency_ms'', GInt (ie_latency ie)), (''fallback_used'', GBool False), (''retry_count'', GInt 0),
               (''bytes_written'', GInt (cx_BytesWritten outcome)), (''frontier_used'', GBool False),
               (''execution_mode'', mode)] @ counts @
              [(''agreement_score'', GFloat (cx_AgreementScore outcome)),
               (''consensus_reached'', GBool (cx_ConsensusReached outcome))]) store)))"

text \<open>What the audit trail holds when \<^verbatim>\<open>forwardWithFallback\<close> panics: the nodes before the first one with an
  address were passed over.\<close>

definition panic_store :: "Server \<Rightarrow> net_env \<Rightarrow> request \<Rightarrow> Decision \<Rightarrow> Store \<Rightarrow> Store" where
  "panic_store sv ne rq decision store =
    (let nodes = d_SelectedNode decision # d_FallbackNodes decision in
     fold (\<lambda>(i, n). emitRetryIfAvailable sv ne (fr_requestID rq) (fr_stream rq) nodes i n ''missing_proxy_url'')
       (enumerate 0 (takeWhile (\<lambda>n. nodeProxyURL (sv_cfg sv) (Snapshot store) n (fr_path rq) = []) nodes)) store)"

definition serve_single :: "Server \<Rightarrow> infer_env \<Rightarrow> string \<Rightarrow> string \<Rightarrow> http_request \<Rightarrow> Decision \<Rightarrow> bool
    \<Rightarrow> Writer \<Rightarrow> Store \<Rightarrow> served" where
  "serve_single sv ie path requestID r decision stream w store =
    (let ne = ie_net ie;
         rq = \<lparr> fr_requestID = requestID, fr_path = path, fr_body = hr_body r, fr_stream = stream \<rparr>
     in case forwardWithFallback sv ne rq decision w store of
       None \<Rightarrow> Panics w (panic_store sv ne rq decision store)
     | Some (outcome, w, store) \<Rightarrow>
        (case po_Err outcome of
           Some err \<Rightarrow>
             (let st = (if po_ClientCancelled outcome then queueStatusCancelled
                        else if po_PartialOutput outcome then queueStatusPartial else queueStatusFailed) in
              if po_ClientCancelled outcome \<or> po_ResponseCommitted outcome then Served st w store
              else Served st
                (writeInferenceError (sv_json sv) r 502 ''upstream_unavailable'' ''Upstream Ollama node is unavailable.'' w)
                (emit sv ne ''error''
                  [(''request_id'', GStr requestID), (''error_class'', GStr ''upstream_unavailable''),
                   (''error_message'', GStr (Error err)), (''retryable'', GBool True),
                   (''fallback_used'', GBool (po_FallbackUsed outcome))] store))
         | None \<Rightarrow>
             Served queueStatusCompleted w (emit sv ne ''response''
               [(''request_id'', GStr requestID), (''status'', GStr ''success''),
                (''selected_node'', GStr (po_SelectedNode outcome)), (''resolved_model'', GStr (d_ResolvedModel decision)),
                (''latency_ms'', GInt (ie_latency ie)), (''fallback_used'', GBool (po_FallbackUsed outcome)),
                (''retry_count'', GInt (po_RetryCount outcome)), (''bytes_written'', GInt (po_BytesWritten outcome)),
                (''frontier_used'', GBool False)] store)))"

text \<open>The request as routing sees it, the node its session pins it to, and the events of a decision.\<close>

definition routing_request :: "Server \<Rightarrow> http_request \<Rightarrow> Request" where
  "routing_request sv r = (case parseRequestMeta (sv_json sv) r of (model, stream, sessionID) \<Rightarrow>
     \<lparr> rq_Model = model, rq_ExecutionMode = [], rq_SessionID = sessionID, rq_Streaming = stream, rq_TaskType = [] \<rparr>)"

definition pinned :: "net_env \<Rightarrow> string \<Rightarrow> Request \<Rightarrow> Decision \<Rightarrow> Store \<Rightarrow> string \<times> Store" where
  "pinned ne requestID req decision store =
    (if IsConsensusDecision decision then (d_SelectedNode decision, store)
     else ApplyAffinity (ne_env ne) store (rq_SessionID req) (d_Affinity decision) (d_SelectedNode decision)
            (d_ResolvedModel decision) requestID (d_CandidateNodes decision))"

definition emit_refusal :: "Server \<Rightarrow> net_env \<Rightarrow> string \<Rightarrow> Request \<Rightarrow> Decision \<Rightarrow> Store \<Rightarrow> Store" where
  "emit_refusal sv ne requestID req decision =
    emit sv ne ''error''
      [(''request_id'', GStr requestID), (''error_class'', GStr ''no_eligible_node''),
       (''model_requested'', GStr (rq_Model req)), (''retryable'', GBool False),
       (''routing_reasons'', GStrs (d_Reasons decision)),
       (''excluded_nodes'', GMaps (map metadata_fields (d_ExcludedNodes decision))),
       (''execution_mode'', GStr (d_ExecutionMode decision))]"

definition emit_decision :: "Server \<Rightarrow> net_env \<Rightarrow> string \<Rightarrow> string \<Rightarrow> Request \<Rightarrow> Decision \<Rightarrow> Store \<Rightarrow> Store" where
  "emit_decision sv ne surface requestID req decision store =
    emit sv ne ''routing_decision''
      [(''request_id'', GStr requestID), (''model_alias'', GStr (d_ModelAlias decision)),
       (''resolved_model'', GStr (d_ResolvedModel decision)), (''selected_node'', GStr (d_SelectedNode decision)),
       (''candidate_nodes'', GStrs (d_CandidateNodes decision)),
       (''candidate_metadata'', GMaps (map metadata_fields (d_CandidateMetadata decision))),
       (''fallback_nodes'', GStrs (d_FallbackNodes decision)),
       (''excluded_nodes'', GMaps (map metadata_fields (d_ExcludedNodes decision))),
       (''routing_strategy'', GStr (d_Strategy decision)), (''routing_reasons'', GStrs (d_Reasons decision)),
       (''execution_mode'', GStr (d_ExecutionMode decision)),
       (''consensus_required'', GInt (d_ConsensusRequired decision)),
       (''consensus_limit'', GInt (d_ConsensusLimit decision))]
    (emit sv ne ''request''
      [(''request_id'', GStr requestID), (''api_surface'', GStr surface), (''model_requested'', GStr (rq_Model req)),
       (''model_alias'', GStr (d_ModelAlias decision)), (''execution_mode'', GStr (d_ExecutionMode decision)),
       (''stream'', GBool (rq_Streaming req)), (''session_id'', GStr (rq_SessionID req))] store)"

definition serve :: "Server \<Rightarrow> infer_env \<Rightarrow> string \<Rightarrow> string \<Rightarrow> string \<Rightarrow> http_request \<Rightarrow> Writer \<Rightarrow> Store \<Rightarrow> served" where
  "serve sv ie path surface requestID r w store =
    (let ne = ie_net ie; req = routing_request sv r;
         (decision, ok) = Select (e_now (ne_env ne)) (sv_cfg sv) (Snapshot store) req
     in if \<not> ok then
          Served queueStatusFailed
            (writeInferenceError (sv_json sv) r 502 ''no_eligible_node''
              ''No eligible Ollama node is available for the requested model.'' w)
            (emit_refusal sv ne requestID req decision store)
        else
          let (node, store) = pinned ne requestID req decision store;
              decision = decision\<lparr> d_SelectedNode := node \<rparr>;
              store = emit_decision sv ne surface requestID req decision store
          in if IsConsensusDecision decision
             then serve_consensus sv ie path surface requestID r decision (rq_Streaming req) w store
             else serve_single sv ie path requestID r decision (rq_Streaming req) w store)"

text \<open>The deferred function: the slot is given back and the record finished, also when the body panics, in
  which case the status is still the initial one.\<close>

definition finish_request :: "Server \<Rightarrow> net_env \<Rightarrow> string \<Rightarrow> string \<Rightarrow> shared \<Rightarrow> shared" where
  "finish_request sv ne requestID st sh0 =
    (let sh = sh0\<lparr> sh_sched := release (sh_sched sh0) \<rparr>;
         (entry, sh) = finishQueue (e_now (ne_env ne)) requestID st sh in
     emit_shared sv ne ''queue_state''
       [(''request_id'', GStr requestID), (''status'', GStr (qe_Status entry)),
        (''queue_depth'', GInt (activeDepth (sh_sched sh))), (''queue_capacity'', GInt (qe_QueueCap entry)),
        (''priority'', GStr (qe_Priority entry)), (''surface'', GStr (qe_Surface entry)),
        (''model_requested'', GStr (qe_Model entry)), (''stream'', GBool (qe_Stream entry)),
        (''scheduling_policy'', GStr (qss_Policy (status (sh_sched sh))))] sh)"

text \<open>The handler from the moment the queue has answered. The other requests run between its steps; here
  the part of the state that it shares is passed through. \<open>policy\<close> is the scheduling policy at the time it
  was enqueued.\<close>

definition marshalProxy :: "Server \<Rightarrow> infer_env \<Rightarrow> string \<Rightarrow> string \<Rightarrow> string \<Rightarrow> http_request \<Rightarrow> string \<Rightarrow> bool \<Rightarrow> bool \<Rightarrow> Writer \<Rightarrow> shared
    \<Rightarrow> (Writer \<times> shared) run" where
  "marshalProxy sv ie path surface requestID r policy granted gone w sh =
    (let ne = ie_net ie;
         (admitted, w, sh) = acquireQueue_end sv ne r requestID policy granted gone w sh
     in if \<not> admitted then Finished (w, sh)
        else
          let (model, stream, sessionID) = parseRequestMeta (sv_json sv) r;
              sh = updateQueueMetadata requestID (zeroEntry\<lparr> qe_Priority := parseRequestPriority (sv_json sv) r,
                     qe_Surface := surface, qe_Model := model, qe_Stream := stream, qe_SessionID := sessionID \<rparr>) sh
          in case serve sv ie path surface requestID r w (sh_store sh) of
               Served st w store \<Rightarrow> Finished (w, finish_request sv ne requestID st (sh\<lparr> sh_store := store \<rparr>))
             | Panics w store \<Rightarrow> Finished (w, finish_request sv ne requestID queueStatusCompleted (sh\<lparr> sh_store := store \<rparr>))
             | Dies \<Rightarrow> Crashed
             | Waits \<Rightarrow> Waiting)"

section \<open>What the client is told\<close>

lemma writeInferenceError_status:
  "wr_status (writeInferenceError js r st code message w) = (case wr_status w of None \<Rightarrow> Some st | Some v \<Rightarrow> Some v)"
proof -
  have "wr_status (snd (snd (Write data w'))) = wr_status w'" for data w'
    using Write_body(3) [of data w'] by (cases "Write data w'") auto
  moreover have "wr_status (SetHeader k v w) = wr_status w" for k v by (simp add: SetHeader_def)
  ultimately show ?thesis
    by (simp add: writeInferenceError_def writeInferenceErrorForPath_def Let_def split: option.split)
qed

text \<open>Forwarding to one node either has sent a status or has left the client alone and reports an error.\<close>

lemma copy_status:
  assumes "copyUpstreamResponse resp stream w = (r, w1)" "co_ResponseCommitted r"
  shows "wr_status w1 \<noteq> None"
proof (cases stream)
  case True
  then show ?thesis using assms copy_committed [OF assms(1)] copy_stream [of resp w r w1]
    by (auto simp: delivered_def opened_def split: option.splits)
next
  case False
  have i: "intact (rp_reads resp)" and c: "copyUpstreamResponse resp False w = (r, w1)"
    using False assms copy_committed [OF assms(1)] by (simp_all add: unreadable_def)
  show ?thesis
    by (rule copy_whole [OF i c]) (use Write_body(3) in \<open>auto simp: opened_def split: option.splits\<close>)
qed

lemma forward_status:
  assumes "forwardWithFallback sv ne rq d w store = Some (out, w1, s)"
  shows "if po_ResponseCommitted out then wr_status w1 \<noteq> None else w1 = w \<and> po_Err out \<noteq> None"
proof (cases rule: forward_cases [of sv ne rq d store w])
  case exhausted
  then show ?thesis using assms by (auto simp: zeroOutcome_def)
next
  case panics
  then show ?thesis using assms by simp
next
  case (settled i n a)
  then have o: "out = reported rq i n a w" "w1 = answer sv rq a w" using assms by auto
  show ?thesis
  proof (cases a)
    case (Upstream resp c)
    obtain r w2 where cp: "copyUpstreamResponse resp (fr_stream rq) w = (r, w2)" by fastforce
    show ?thesis
      using o Upstream cp copy_status [OF cp] copy_committed [OF cp] copy_unreadable [of "fr_stream rq" resp w]
        writeInferenceError_status [of "sv_json sv" "\<lparr> hr_path = fr_path rq, hr_header = undefined, hr_body = [] \<rparr>"]
      by (cases "400 \<le> rp_status resp"; cases "unreadable (fr_stream rq) resp")
        (auto simp: reported_def answer_def zeroOutcome_def Let_def writeInferenceError_def split: option.splits prod.splits)
  qed (use o in \<open>auto simp: reported_def answer_def zeroOutcome_def\<close>)
qed

lemma consensus_status:
  assumes "forwardConsensus sv fe arrivals store path surface body d debug w = Finished (out, w1)" "wr_status w = None"
  shows "if cx_ResponseCommitted out then wr_status w1 \<noteq> None else w1 = w \<and> cx_Err out \<noteq> None"
proof -
  have aw: "cx_ResponseCommitted out \<and> wr_status w1 \<noteq> None"
    if "answer_winner result winner debug o' w = (out, w1)" for result winner o'
    using that by (rule answer_winner_facts) (use assms(2) in simp)
  show ?thesis
  proof (cases "int (length (d_CandidateNodes d)) < quorum d")
    case True
    then show ?thesis using assms(1) by (auto simp: forwardConsensus_eq)
  next
    case False
    with assms(1) obtain c where "conclude_consensus sv fe surface debug c (initial_outcome d) w = (out, w1)"
      by (auto simp: forwardConsensus_eq split: option.splits)
    then show ?thesis
      using aw by (auto simp: conclude_consensus_def Let_def account_fold split: if_splits option.splits)
  qed
qed

lemma serve_single_status:
  assumes "serve_single sv ie path rid r d stream w store = Served st w1 s" "wr_status w = None"
  shows "st = queueStatusCancelled \<or> wr_status w1 \<noteq> None"
proof -
  obtain out w2 s2 where f: "forwardWithFallback sv (ie_net ie)
      \<lparr> fr_requestID = rid, fr_path = path, fr_body = hr_body r, fr_stream = stream \<rparr> d w store = Some (out, w2, s2)"
    using assms(1) by (auto simp: serve_single_def Let_def split: option.splits)
  show ?thesis
    using assms f forward_status [OF f] writeInferenceError_status [of "sv_json sv" r]
    by (auto simp: serve_single_def Let_def split: option.splits if_splits)
qed

lemma serve_consensus_status:
  assumes "serve_consensus sv ie path surface rid r d stream w store = Served st w1 s" "wr_status w = None"
  shows "st = queueStatusCancelled \<or> wr_status w1 \<noteq> None"
proof (cases stream)
  case True
  then show ?thesis
    using assms by (auto simp: serve_consensus_def Let_def writeInferenceError_status)
next
  case False
  with assms(1) obtain out w2 where f: "forwardConsensus sv (ie_fan ie) (ie_arrivals ie) store path surface (hr_body r) d
      (consensusDebugRequested (sv_json sv) (hr_header r ''X-Llama-Wrangler-Debug'') (hr_body r)) w = Finished (out, w2)"
    by (cases "forwardConsensus sv (ie_fan ie) (ie_arrivals ie) store path surface (hr_body r) d
      (consensusDebugRequested (sv_json sv) (hr_header r ''X-Llama-Wrangler-Debug'') (hr_body r)) w")
      (auto simp: serve_consensus_def Let_def)
  show ?thesis
    using assms False f consensus_status [OF f assms(2)] writeInferenceError_status [of "sv_json sv" r]
    by (auto simp: serve_consensus_def Let_def split: if_splits prod.splits)
qed

section \<open>Where requests may go\<close>

text \<open>What two environments must agree on for the outcome to be the same.\<close>

lemma rewire_simps [simp]:
  "emit sv (ne\<lparr> ne_attempt := g \<rparr>) = emit sv ne"
  "emitRetryIfAvailable sv (ne\<lparr> ne_attempt := g \<rparr>) = emitRetryIfAvailable sv ne"
  by (intro ext, simp add: emit_def emitRetryIfAvailable_def)+

lemma rewire_fields:
  "ne_attempt (ne\<lparr> ne_attempt := g \<rparr>) = g" "ne_env (ne\<lparr> ne_attempt := g \<rparr>) = ne_env ne"
  "fe_fetch (fe\<lparr> fe_fetch := h \<rparr>) = h" "fe_ms (fe\<lparr> fe_fetch := h \<rparr>) = fe_ms fe"
  by simp_all

lemma attempt_node_cong:
  assumes "\<And>sent. g i (nodeProxyURL (sv_cfg sv) (Snapshot store) n (fr_path rq)) sent =
      ne_attempt ne i (nodeProxyURL (sv_cfg sv) (Snapshot store) n (fr_path rq)) sent"
  shows "attempt_node sv (ne\<lparr> ne_attempt := g \<rparr>) rq nodes model i n w store = attempt_node sv ne rq nodes model i n w store"
  unfolding attempt_node_def Let_def rewire_simps rewire_fields assms by (rule refl)

lemma attempt_node_same:
  "attempt_node sv ne rq nodes model i n w store = Some (Continue err w1 s) \<Longrightarrow> same_nodes store s"
proof -
  assume a: "attempt_node sv ne rq nodes model i n w store = Some (Continue err w1 s)"
  have "passed_over sv ne rq model store i n"
  proof (rule ccontr)
    assume np: "\<not> passed_over sv ne rq model store i n"
    show False
      using attempt_node_panics [OF np, of nodes w] attempt_node_returns [OF np, of _ nodes w] a
      by (cases "met sv ne rq model store i n") auto
  qed
  then show ?thesis using attempt_node_passes [of sv ne rq model store i n nodes w] a by auto
qed

lemma forward_from_cong:
  assumes "\<And>i n sent. n \<in> set ns \<Longrightarrow> g i (nodeProxyURL (sv_cfg sv) (Snapshot store) n (fr_path rq)) sent =
      ne_attempt ne i (nodeProxyURL (sv_cfg sv) (Snapshot store) n (fr_path rq)) sent"
  shows "forward_from sv (ne\<lparr> ne_attempt := g \<rparr>) rq nodes model i ns err w store =
    forward_from sv ne rq nodes model i ns err w store"
  using assms
proof (induction ns arbitrary: i err w store)
  case (Cons n ns)
  have "attempt_node sv (ne\<lparr> ne_attempt := g \<rparr>) rq nodes model i n w store = attempt_node sv ne rq nodes model i n w store"
    using Cons.prems by (intro attempt_node_cong) simp
  moreover have "forward_from sv (ne\<lparr> ne_attempt := g \<rparr>) rq nodes model (Suc i) ns (Some e) w' s =
      forward_from sv ne rq nodes model (Suc i) ns (Some e) w' s"
    if "attempt_node sv ne rq nodes model i n w store = Some (Continue e w' s)" for e w' s
    using Cons.IH [of s "Suc i" "Some e" w'] Cons.prems same_nodes_url [OF attempt_node_same [OF that]] by simp
  ultimately show ?case by (auto split: option.splits step.splits)
qed simp

lemma fan_out_cong:
  assumes "\<And>i n sent. n \<in> set ps \<Longrightarrow> h i (nodeProxyURL (sv_cfg sv) (Snapshot store) n path) sent =
      fe_fetch fe i (nodeProxyURL (sv_cfg sv) (Snapshot store) n path) sent"
  shows "fan_out sv (fe\<lparr> fe_fetch := h \<rparr>) store ps path body model = fan_out sv fe store ps path body model"
proof -
  have "fetchConsensusParticipant sv (fe\<lparr> fe_fetch := h \<rparr>) store i n path body model =
      fetchConsensusParticipant sv fe store i n path body model" if "n \<in> set ps" for i n
    unfolding fetchConsensusParticipant_def Let_def rewire_fields assms [OF that] by (rule refl)
  then have "map (\<lambda>(i, n). fetchConsensusParticipant sv (fe\<lparr> fe_fetch := h \<rparr>) store i n path body model) (enumerate 0 ps) =
      map (\<lambda>(i, n). fetchConsensusParticipant sv fe store i n path body model) (enumerate 0 ps)"
    by (auto simp: in_set_enumerate_eq)
  then show ?thesis by (simp only: fan_out_def)
qed

lemma forwardConsensus_cong:
  assumes "\<And>i n sent. n \<in> set (d_CandidateNodes d) \<Longrightarrow> h i (nodeProxyURL (sv_cfg sv) (Snapshot store) n path) sent =
      fe_fetch fe i (nodeProxyURL (sv_cfg sv) (Snapshot store) n path) sent"
  shows "forwardConsensus sv (fe\<lparr> fe_fetch := h \<rparr>) arrivals store path surface body d debug w =
    forwardConsensus sv fe arrivals store path surface body d debug w"
proof -
  have "conclude_consensus sv (fe\<lparr> fe_fetch := h \<rparr>) = conclude_consensus sv fe"
    by (intro ext) (simp add: conclude_consensus_def)
  then show ?thesis by (simp only: forwardConsensus_eq fan_out_cong [OF assms])
qed

lemma rewire_infer:
  "ie_net (ie\<lparr> ie_net := ne, ie_fan := fe \<rparr>) = ne" "ie_fan (ie\<lparr> ie_net := ne, ie_fan := fe \<rparr>) = fe"
  "ie_arrivals (ie\<lparr> ie_net := ne, ie_fan := fe \<rparr>) = ie_arrivals ie"
  "ie_latency (ie\<lparr> ie_net := ne, ie_fan := fe \<rparr>) = ie_latency ie"
  by simp_all

lemma serve_single_cong:
  assumes "\<And>i n sent. n \<in> set (d_SelectedNode d # d_FallbackNodes d) \<Longrightarrow>
      g i (nodeProxyURL (sv_cfg sv) (Snapshot store) n path) sent =
      ne_attempt (ie_net ie) i (nodeProxyURL (sv_cfg sv) (Snapshot store) n path) sent"
  shows "serve_single sv (ie\<lparr> ie_net := (ie_net ie)\<lparr> ne_attempt := g \<rparr>, ie_fan := fe \<rparr>) path rid r d stream w store =
    serve_single sv ie path rid r d stream w store"
proof -
  let ?rq = "\<lparr> fr_requestID = rid, fr_path = path, fr_body = hr_body r, fr_stream = stream \<rparr>"
  have f: "forwardWithFallback sv ((ie_net ie)\<lparr> ne_attempt := g \<rparr>) ?rq d w store =
      forwardWithFallback sv (ie_net ie) ?rq d w store"
    unfolding forwardWithFallback_def Let_def by (rule forward_from_cong) (use assms in simp)
  have p: "panic_store sv ((ie_net ie)\<lparr> ne_attempt := g \<rparr>) ?rq d store = panic_store sv (ie_net ie) ?rq d store"
    unfolding panic_store_def Let_def rewire_simps by (rule refl)
  show ?thesis
    unfolding serve_single_def Let_def rewire_infer rewire_simps f p by (rule refl)
qed

lemma serve_consensus_cong:
  assumes "\<And>i n sent. n \<in> set (d_CandidateNodes d) \<Longrightarrow>
      h i (nodeProxyURL (sv_cfg sv) (Snapshot store) n path) sent =
      fe_fetch (ie_fan ie) i (nodeProxyURL (sv_cfg sv) (Snapshot store) n path) sent"
  shows "serve_consensus sv (ie\<lparr> ie_net := (ie_net ie)\<lparr> ne_attempt := g \<rparr>, ie_fan := (ie_fan ie)\<lparr> fe_fetch := h \<rparr> \<rparr>)
      path surface rid r d stream w store = serve_consensus sv ie path surface rid r d stream w store"
proof -
  have c: "forwardConsensus sv ((ie_fan ie)\<lparr> fe_fetch := h \<rparr>) as store path surface body d debug w =
      forwardConsensus sv (ie_fan ie) as store path surface body d debug w" for as body debug
    by (rule forwardConsensus_cong) (rule assms)
  show ?thesis
    unfolding serve_consensus_def Let_def rewire_infer rewire_simps c by (rule refl)
qed

text \<open>The nodes the routing policy admits for a request.\<close>

definition admitted_nodes :: "Server \<Rightarrow> gotime \<Rightarrow> http_request \<Rightarrow> Store \<Rightarrow> string set" where
  "admitted_nodes sv now r store =
    n_NodeID ` {n \<in> set (pool (sv_cfg sv) (Snapshot store)). may_serve (consensus_request (sv_cfg sv) (routing_request sv r)) now n}"

lemma ApplyAffinity_same: "same_nodes store (snd (ApplyAffinity e store sid aff node model rid elig))"
  by (simp add: ApplyAffinity_def same_nodes_def UpdateSession_def Let_def saveLocked_def)

lemma Select_admitted:
  assumes "Select now (sv_cfg sv) (Snapshot store) (routing_request sv r) = (d, True)"
  shows "set (d_CandidateNodes d) \<subseteq> admitted_nodes sv now r store"
    "d_SelectedNode d \<in> set (d_CandidateNodes d)" "set (d_FallbackNodes d) \<subseteq> set (d_CandidateNodes d)"
proof -
  show "set (d_CandidateNodes d) \<subseteq> admitted_nodes sv now r store"
    using Select_candidates(1) [OF assms] by (auto simp: admitted_nodes_def set_candidates)
  show "d_SelectedNode d \<in> set (d_CandidateNodes d)" "set (d_FallbackNodes d) \<subseteq> set (d_CandidateNodes d)"
    using Select_ok(3,4) [OF assms] Select_candidates(2) [OF assms] by (auto dest: list.set_sel(2))
qed

lemma pinned_facts:
  assumes "Select now (sv_cfg sv) (Snapshot store) (routing_request sv r) = (d, True)"
    and "pinned ne rid (routing_request sv r) d store = (node, s)"
  shows "same_nodes store s" "node \<in> set (d_CandidateNodes d)"
proof -
  show "same_nodes store s"
    using assms(2) ApplyAffinity_same by (auto simp: pinned_def split: if_splits) (metis snd_conv)
  have n: "node = d_SelectedNode d \<or> node = fst (ApplyAffinity (ne_env ne) store (rq_SessionID (routing_request sv r))
      (d_Affinity d) (d_SelectedNode d) (d_ResolvedModel d) rid (d_CandidateNodes d))"
    using assms(2) by (auto simp: pinned_def split: if_splits)
  show "node \<in> set (d_CandidateNodes d)"
    using n Select_admitted(2) [OF assms(1)]
    by (auto simp: ApplyAffinity_node split: option.splits if_splits)
qed

lemma IsConsensusDecision_select [simp]: "IsConsensusDecision (d\<lparr> d_SelectedNode := n \<rparr>) = IsConsensusDecision d"
  by (simp add: IsConsensusDecision_def)

lemma emit_decision_same: "same_nodes s (emit_decision sv ne surface rid req d t) = same_nodes s t"
  by (simp add: emit_decision_def)

lemma serve_statuses:
  assumes "serve sv ie path surface rid r w store = Served st w1 s"
  shows "st \<in> {queueStatusCompleted, queueStatusFailed, queueStatusCancelled, queueStatusPartial}"
proof -
  have single: "st \<in> {queueStatusCompleted, queueStatusFailed, queueStatusCancelled, queueStatusPartial}"
    if "serve_single sv ie path rid r d stream w store' = Served st w1 s" for d stream store'
    using that by (auto simp: serve_single_def Let_def split: option.splits if_splits)
  have cons: "st \<in> {queueStatusCompleted, queueStatusFailed, queueStatusCancelled, queueStatusPartial}"
    if "serve_consensus sv ie path surface rid r d stream w store' = Served st w1 s" for d stream store'
    using that by (auto simp: serve_consensus_def Let_def split: run.splits if_splits prod.splits)
  show ?thesis
    using assms single cons by (auto simp: serve_def Let_def split: prod.splits if_splits)
qed

lemma emit_shared_simps [simp]:
  "sh_sched (emit_shared sv ne ty fs sh) = sh_sched sh" "sh_meta (emit_shared sv ne ty fs sh) = sh_meta sh"
  by (simp_all add: emit_shared_def)

lemma updateQueueMetadata_simps [simp]:
  "sh_sched (updateQueueMetadata rid e sh) = sh_sched sh"
  "qt_recent (sh_meta (updateQueueMetadata rid e sh)) = qt_recent (sh_meta sh)"
  by (simp_all add: updateQueueMetadata_def update_def Let_def)

lemma acquireQueue_end_granted:
  "\<exists>sh1. acquireQueue_end sv ne r rid policy True gone w sh = (True, w, sh1) \<and> sh_sched sh1 = sh_sched sh \<and>
     qt_recent (sh_meta sh1) = qt_recent (sh_meta sh)"
  by (simp add: acquireQueue_end_def start_def Let_def)

lemma finishQueue_facts:
  assumes "finishQueue now rid st sh = (e, sh1)"
  shows "sh_sched sh1 = sh_sched sh" "goget (qt_current (sh_meta sh1)) rid = None"
    "qt_recent (sh_meta sh1) = take 50 (e # qt_recent (sh_meta sh))" "qe_Status e = st"
  using assms by (auto simp: finishQueue_def finish_def Let_def recent.push_eq)

lemma finish_request_facts:
  fixes sv ne rid st sh
  defines "sh1 \<equiv> finish_request sv ne rid st sh"
  shows "sh_sched sh1 = release (sh_sched sh)" "goget (qt_current (sh_meta sh1)) rid = None"
    "\<exists>e. qt_recent (sh_meta sh1) = take 50 (e # qt_recent (sh_meta sh)) \<and> qe_Status e = st"
proof -
  obtain e sh2 where f: "finishQueue (e_now (ne_env ne)) rid st (sh\<lparr> sh_sched := release (sh_sched sh) \<rparr>) = (e, sh2)"
    by fastforce
  have e: "sh_sched sh1 = sh_sched sh2" "sh_meta sh1 = sh_meta sh2"
    unfolding sh1_def finish_request_def Let_def by (simp_all add: f)
  note q = finishQueue_facts [OF f]
  show "sh_sched sh1 = release (sh_sched sh)" "goget (qt_current (sh_meta sh1)) rid = None"
    "\<exists>e. qt_recent (sh_meta sh1) = take 50 (e # qt_recent (sh_meta sh)) \<and> qe_Status e = st"
    using e q by auto
qed

section \<open>Properties\<close>

text \<open>C9. Every admitted request is answered: whatever the nodes, the network and the client's connection
  do, a handler that returns has sent the client a status line, unless the client had left and
  the request is recorded as cancelled.\<close>

theorem inference_answers:
  assumes "serve sv ie path surface rid r w store = Served st w1 s" "wr_status w = None"
  shows "st = queueStatusCancelled \<or> wr_status w1 \<noteq> None"
proof -
  obtain d ok where sel: "Select (e_now (ne_env (ie_net ie))) (sv_cfg sv) (Snapshot store) (routing_request sv r) = (d, ok)"
    by fastforce
  obtain node s0 where p: "pinned (ie_net ie) rid (routing_request sv r) d store = (node, s0)" by fastforce
  show ?thesis
  proof (cases ok)
    case False
    then show ?thesis
      using assms sel writeInferenceError_status [of "sv_json sv" r] by (auto simp: serve_def Let_def)
  next
    case True
    then show ?thesis
      using assms sel p serve_consensus_status [OF _ assms(2)] serve_single_status [OF _ assms(2)]
      by (auto simp: serve_def Let_def split: if_splits)
  qed
qed

text \<open>C8. Requests go to admitted nodes only: two networks that behave alike at the addresses of the nodes
  the routing policy admits for a request, and arbitrarily differently everywhere else, give the
  same answer, the same queue status and the same audit trail, in both execution modes and with
  session affinity in between.\<close>

theorem serve_confined:
  assumes "\<And>i n sent. n \<in> admitted_nodes sv (e_now (ne_env (ie_net ie))) r store \<Longrightarrow>
      g i (nodeProxyURL (sv_cfg sv) (Snapshot store) n path) sent =
      ne_attempt (ie_net ie) i (nodeProxyURL (sv_cfg sv) (Snapshot store) n path) sent"
    and "\<And>i n sent. n \<in> admitted_nodes sv (e_now (ne_env (ie_net ie))) r store \<Longrightarrow>
      h i (nodeProxyURL (sv_cfg sv) (Snapshot store) n path) sent =
      fe_fetch (ie_fan ie) i (nodeProxyURL (sv_cfg sv) (Snapshot store) n path) sent"
  shows "serve sv (ie\<lparr> ie_net := (ie_net ie)\<lparr> ne_attempt := g \<rparr>, ie_fan := (ie_fan ie)\<lparr> fe_fetch := h \<rparr> \<rparr>)
      path surface rid r w store = serve sv ie path surface rid r w store"
proof -
  let ?ie = "ie\<lparr> ie_net := (ie_net ie)\<lparr> ne_attempt := g \<rparr>, ie_fan := (ie_fan ie)\<lparr> fe_fetch := h \<rparr> \<rparr>"
  let ?req = "routing_request sv r"
  obtain d ok where sel: "Select (e_now (ne_env (ie_net ie))) (sv_cfg sv) (Snapshot store) ?req = (d, ok)" by fastforce
  obtain node s0 where p: "pinned (ie_net ie) rid ?req d store = (node, s0)" by fastforce
  have p': "pinned (ie_net ?ie) rid ?req d store = (node, s0)" using p by (simp add: pinned_def split: if_split_asm)
  have em: "emit_refusal sv (ie_net ?ie) = emit_refusal sv (ie_net ie)"
    "emit_decision sv (ie_net ?ie) = emit_decision sv (ie_net ie)"
    by (intro ext, simp add: emit_refusal_def emit_decision_def)+
  have sel': "Select (e_now (ne_env (ie_net ?ie))) (sv_cfg sv) (Snapshot store) ?req = (d, ok)" using sel by simp
  show ?thesis
  proof (cases ok)
    case False
    then show ?thesis using sel sel' em by (simp add: serve_def Let_def)
  next
    case True
    let ?d = "d\<lparr> d_SelectedNode := node \<rparr>"
    let ?s = "emit_decision sv (ie_net ie) surface rid ?req ?d s0"
    note a = Select_admitted [OF sel [unfolded eqTrueI [OF True]]] and f = pinned_facts [OF sel [unfolded eqTrueI [OF True]] p]
    have "same_nodes store ?s" using f(1) by (simp add: emit_decision_same)
    note u = same_nodes_url [OF this, of "sv_cfg sv"]
    have "serve_single sv ?ie path rid r ?d stream w ?s = serve_single sv ie path rid r ?d stream w ?s" for stream
      by (rule serve_single_cong) (use assms(1) a f in \<open>auto simp: u\<close>)
    moreover have "serve_consensus sv ?ie path surface rid r ?d stream w ?s = serve_consensus sv ie path surface rid r ?d stream w ?s" for stream
      by (rule serve_consensus_cong) (use assms(2) a in \<open>auto simp: u\<close>)
    ultimately show ?thesis
      using sel sel' p p' em True by (simp add: serve_def Let_def)
  qed
qed

text \<open>C15. The bracket around a request: a handler that finishes has given back the slot it held, exactly
  once and whatever happened in between, panics included, or has not touched the slots at all
  when it was not admitted; the record of the request is no longer current and heads the
  list of recent ones.\<close>

theorem request_bracket:
  assumes "marshalProxy sv ie path surface rid r policy granted gone w sh = Finished (w1, sh1)"
  shows "sh_sched sh1 = (if granted then release (sh_sched sh) else sh_sched sh) \<and>
    goget (qt_current (sh_meta sh1)) rid = None \<and>
    (\<exists>e. qt_recent (sh_meta sh1) = take 50 (e # qt_recent (sh_meta sh)) \<and>
       (if granted then qe_Status e \<in> {queueStatusCompleted, queueStatusFailed, queueStatusCancelled, queueStatusPartial}
        else qe_Status e = (if gone then queueStatusCancelled else queueStatusRejected)))"
proof (cases granted)
  case False
  define st where "st = (if gone then queueStatusCancelled else queueStatusRejected)"
  obtain e sh2 where f: "finishQueue (e_now (ne_env (ie_net ie))) rid st sh = (e, sh2)" by fastforce
  then have "sh_sched sh1 = sh_sched sh2" "sh_meta sh1 = sh_meta sh2"
    using assms False by (auto simp: marshalProxy_def acquireQueue_end_def st_def Let_def split: if_splits)
  then show ?thesis using finishQueue_facts [OF f] False by (auto simp: st_def)
next
  case True
  obtain sh0 where q: "acquireQueue_end sv (ie_net ie) r rid policy True gone w sh = (True, w, sh0)"
    "sh_sched sh0 = sh_sched sh" "qt_recent (sh_meta sh0) = qt_recent (sh_meta sh)"
    using acquireQueue_end_granted by blast
  obtain model stream sid where m: "parseRequestMeta (sv_json sv) r = (model, stream, sid)"
    by (cases "parseRequestMeta (sv_json sv) r")
  define sh2 where "sh2 = updateQueueMetadata rid (zeroEntry\<lparr> qe_Priority := parseRequestPriority (sv_json sv) r,
      qe_Surface := surface, qe_Model := model, qe_Stream := stream, qe_SessionID := sid \<rparr>) sh0"
  have "Finished (w1, sh1) = (case serve sv ie path surface rid r w (sh_store sh2) of
        Served st w store \<Rightarrow> Finished (w, finish_request sv (ie_net ie) rid st (sh2\<lparr> sh_store := store \<rparr>))
      | Panics w store \<Rightarrow> Finished (w, finish_request sv (ie_net ie) rid queueStatusCompleted (sh2\<lparr> sh_store := store \<rparr>))
      | Dies \<Rightarrow> Crashed | Waits \<Rightarrow> Waiting)"
    using assms [symmetric] True unfolding marshalProxy_def Let_def sh2_def by (simp add: q(1) m)
  then obtain st store where "st \<in> {queueStatusCompleted, queueStatusFailed, queueStatusCancelled, queueStatusPartial}"
    "sh1 = finish_request sv (ie_net ie) rid st (sh2\<lparr> sh_store := store \<rparr>)"
    using serve_statuses [of sv ie path surface rid r w "sh_store sh2"] by (auto split: served.splits)
  moreover have "sh_sched sh2 = sh_sched sh" "qt_recent (sh_meta sh2) = qt_recent (sh_meta sh)"
    using q by (simp_all add: sh2_def)
  ultimately show ?thesis
    using True finish_request_facts [of sv "ie_net ie" rid st "sh2\<lparr> sh_store := store \<rparr>"] by auto
qed

section \<open>Concrete requests\<close>

definition inferEnv :: infer_env where
  "inferEnv = \<lparr> ie_net = proxyNet, ie_fan = fanEnv, ie_arrivals = [Arrived 0, Arrived 1], ie_latency = 7 \<rparr>"

definition inferRequest :: http_request where
  "inferRequest = \<lparr> hr_path = ''/api/chat'', hr_header = (\<lambda>_. []), hr_body = ''{}'' \<rparr>"

definition inferShared :: shared where
  "inferShared = \<lparr> sh_store = proxyStore, sh_sched = sampleSched, sh_meta = newQueueTracker 1 \<rparr>"

text \<open>Witness: with no node in the store the client is told so.\<close>

definition bareStore :: Store where
  "bareStore = \<lparr> s_state = (fresh_state sampleEnv (Default ''marshal''))\<lparr> st_Nodes := [] \<rparr>, s_file = NoFile \<rparr>"

lemma bareStore_serve:
  "\<exists>w1 s. serve proxyServer inferEnv ''/api/chat'' ''ollama_chat'' ''req_1'' inferRequest freshWriter bareStore =
     Served queueStatusFailed w1 s"
proof -
  have "pool (sv_cfg proxyServer) (Snapshot bareStore) = []"
    by (simp add: pool_def Snapshot_nodes bareStore_def proxyServer_def Default_def)
  then have "\<not> ok" if "Select now (sv_cfg proxyServer) (Snapshot bareStore) req = (d, ok)" for now req d ok
    using that Select_candidates [of now "sv_cfg proxyServer" "Snapshot bareStore" req d]
    by (cases ok) (auto simp: set_candidates)
  moreover obtain d ok where sel: "Select (e_now (ne_env (ie_net inferEnv))) (sv_cfg proxyServer) (Snapshot bareStore)
      (routing_request proxyServer inferRequest) = (d, ok)" by fastforce
  ultimately have "\<not> ok" by blast
  with sel show ?thesis by (simp add: serve_def Let_def)
qed

theorem inference_answers_witness:
  "\<exists>st w1 s. serve proxyServer inferEnv ''/api/chat'' ''ollama_chat'' ''req_1'' inferRequest freshWriter bareStore =
     Served st w1 s \<and> wr_status w1 \<noteq> None"
proof -
  obtain w1 s where "serve proxyServer inferEnv ''/api/chat'' ''ollama_chat'' ''req_1'' inferRequest freshWriter bareStore =
     Served queueStatusFailed w1 s" using bareStore_serve by blast
  from this inference_answers [OF this] show ?thesis
    by (auto simp: freshWriter_def queueStatusFailed_def queueStatusCancelled_def)
qed

text \<open>A store with one node that the policy admits and one whose approval is pending, a network that answers everywhere, and one
  that answers differently at the second node.\<close>

definition busyStore :: Store where
  "busyStore = \<lparr> s_state = (fresh_state sampleEnv (Default ''marshal''))\<lparr>
     st_Nodes := [(''a'', (sampleNode ''a'')\<lparr> n_URL := ''http://a'' \<rparr>),
       (''x'', (sampleNode ''x'')\<lparr> n_URL := ''http://x'', n_Approved := False, n_ApprovalState := ApprovalStatePending \<rparr>)] \<rparr>, s_file = NoFile \<rparr>"

definition busyEnv :: infer_env where
  "busyEnv = inferEnv\<lparr> ie_net := proxyNet\<lparr> ne_attempt := (\<lambda>i url sent. Upstream proxyAnswer False) \<rparr> \<rparr>"

definition otherAttempt :: "nat \<Rightarrow> string \<Rightarrow> string \<Rightarrow> attempt" where
  "otherAttempt i url sent = (if url = ''http://a/subscriber/proxy/api/chat'' then Upstream proxyAnswer False
     else Upstream (proxyAnswer\<lparr> rp_reads := [(''other'', EOF)] \<rparr>) False)"

lemma busy_evaluated:
  defines "sel \<equiv> Select 5 (sv_cfg proxyServer) (Snapshot busyStore) (routing_request proxyServer inferRequest)"
  shows "snd sel" "d_SelectedNode (fst sel) = ''a''" "d_FallbackNodes (fst sel) = []" "\<not> IsConsensusDecision (fst sel)"
    "rq_SessionID (routing_request proxyServer inferRequest) = []" "rq_Streaming (routing_request proxyServer inferRequest) = False"
    "nodeProxyURL (sv_cfg proxyServer) (Snapshot busyStore) ''a'' ''/api/chat'' = ''http://a/subscriber/proxy/api/chat''"
    "nodeProxyURL (sv_cfg proxyServer) (Snapshot busyStore) ''x'' ''/api/chat'' = ''http://x/subscriber/proxy/api/chat''"
    "map (\<lambda>n. (n_NodeID n, n_Approved n)) (pool (sv_cfg proxyServer) (Snapshot busyStore)) = [(''a'', True), (''x'', False)]"
  unfolding sel_def by code_simp+

lemma busy_admitted: "admitted_nodes proxyServer 5 inferRequest busyStore = {''a''}"
proof -
  note e = busy_evaluated
  let ?sel = "Select 5 (sv_cfg proxyServer) (Snapshot busyStore) (routing_request proxyServer inferRequest)"
  have "?sel = (fst ?sel, True)" using e(1) by (simp add: prod_eq_iff)
  from Select_admitted(1,2) [OF this] e(2) have "''a'' \<in> admitted_nodes proxyServer 5 inferRequest busyStore" by auto
  moreover have "n_NodeID n = ''a''" if "n \<in> set (pool (sv_cfg proxyServer) (Snapshot busyStore))" "n_Approved n" for n
  proof -
    have "(n_NodeID n, n_Approved n) \<in> set [(''a'', True), (''x'', False)]"
      unfolding e(9) [symmetric] using that(1) by auto
    then show ?thesis using that(2) by auto
  qed
  ultimately show ?thesis by (auto simp: admitted_nodes_def may_serve_def)
qed

lemma busy_served:
  "\<exists>w1 s. serve proxyServer busyEnv ''/api/chat'' ''ollama_chat'' ''req_1'' inferRequest freshWriter busyStore =
     Served queueStatusCompleted w1 s \<and> wr_body w1 = ''hello'' \<and> wr_status w1 = Some 200"
proof -
  note e = busy_evaluated
  let ?req = "routing_request proxyServer inferRequest"
  let ?d = "fst (Select 5 (sv_cfg proxyServer) (Snapshot busyStore) ?req)"
  have env: "e_now (ne_env (ie_net busyEnv)) = 5" by (simp add: busyEnv_def inferEnv_def proxyNet_def sampleEnv_def)
  have sel: "Select (e_now (ne_env (ie_net busyEnv))) (sv_cfg proxyServer) (Snapshot busyStore) ?req = (?d, True)"
    using e(1) by (simp add: prod_eq_iff env)
  have pin: "pinned (ie_net busyEnv) ''req_1'' ?req ?d busyStore = (''a'', busyStore)"
    using e(2,4,5) by (simp add: pinned_def ApplyAffinity_def)
  define s where "s = emit_decision proxyServer (ie_net busyEnv) ''ollama_chat'' ''req_1'' ?req (?d\<lparr> d_SelectedNode := ''a'' \<rparr>) busyStore"
  let ?rq = "\<lparr> fr_requestID = ''req_1'', fr_path = ''/api/chat'', fr_body = hr_body inferRequest, fr_stream = False \<rparr>"
  have same: "same_nodes busyStore s" by (simp add: s_def emit_decision_same)
  have url: "nodeProxyURL (sv_cfg proxyServer) (Snapshot s) ''a'' ''/api/chat'' = ''http://a/subscriber/proxy/api/chat''"
    using same_nodes_url [OF same, of "sv_cfg proxyServer"] e(7) by simp
  have met: "met proxyServer (ie_net busyEnv) ?rq m s 0 ''a'' = Some (Upstream proxyAnswer False)" for m
    by (simp add: met_def url) (simp add: proxyServer_def busyEnv_def inferRequest_def rewriteModel_def payload_of_def plainCodec_def)
  have first: "settled proxyServer (ie_net busyEnv) ?rq m s 0 [''a''] = Some (0, ''a'')" for m
    by (simp add: settled_def passed_over_def met url) (simp add: proxyAnswer_def unreadable_def)
  obtain s1 where f: "forwardWithFallback proxyServer (ie_net busyEnv) ?rq (?d\<lparr> d_SelectedNode := ''a'' \<rparr>) freshWriter s =
      Some (reported ?rq 0 ''a'' (Upstream proxyAnswer False) freshWriter, answer proxyServer ?rq (Upstream proxyAnswer False) freshWriter, s1)"
    by (rule forward_cases [of proxyServer "ie_net busyEnv" ?rq "?d\<lparr> d_SelectedNode := ''a'' \<rparr>" s freshWriter])
      (simp_all add: e(3) first met)
  have out: "po_Err (reported ?rq 0 ''a'' (Upstream proxyAnswer False) freshWriter) = None"
    "wr_body (answer proxyServer ?rq (Upstream proxyAnswer False) freshWriter) = ''hello''"
    "wr_status (answer proxyServer ?rq (Upstream proxyAnswer False) freshWriter) = Some 200"
    by (simp_all add: reported_def answer_def proxyAnswer_def freshWriter_def copyUpstreamResponse_def Let_def
      WriteHeader_def copyResponseHeaders_def Add_def Write_def after_chunk_def zeroOutcome_def)
  show ?thesis
    using f out by (simp add: serve_def Let_def sel pin e(6) e(4) [unfolded IsConsensusDecision_def] serve_single_def IsConsensusDecision_def s_def)
qed

text \<open>Witness: the only admitted node answers the request, and the client gets the same from the other network.\<close>

theorem serve_confined_witness:
  "admitted_nodes proxyServer 5 inferRequest busyStore = {''a''} \<and>
   otherAttempt 0 ''http://x/subscriber/proxy/api/chat'' [] \<noteq> ne_attempt (ie_net busyEnv) 0 ''http://x/subscriber/proxy/api/chat'' [] \<and>
   (\<exists>w1 s. serve proxyServer (busyEnv\<lparr> ie_net := (ie_net busyEnv)\<lparr> ne_attempt := otherAttempt \<rparr>,
       ie_fan := (ie_fan busyEnv)\<lparr> fe_fetch := fe_fetch (ie_fan busyEnv) \<rparr> \<rparr>)
       ''/api/chat'' ''ollama_chat'' ''req_1'' inferRequest freshWriter busyStore = Served queueStatusCompleted w1 s \<and>
     wr_body w1 = ''hello'' \<and> wr_status w1 = Some 200)"
proof -
  have now: "e_now (ne_env (ie_net busyEnv)) = 5" by (simp add: busyEnv_def inferEnv_def proxyNet_def sampleEnv_def)
  have alike: "otherAttempt i (nodeProxyURL (sv_cfg proxyServer) (Snapshot busyStore) n ''/api/chat'') sent =
      ne_attempt (ie_net busyEnv) i (nodeProxyURL (sv_cfg proxyServer) (Snapshot busyStore) n ''/api/chat'') sent"
    if "n \<in> admitted_nodes proxyServer (e_now (ne_env (ie_net busyEnv))) inferRequest busyStore" for i n sent
    using that busy_evaluated(7) by (simp add: now busy_admitted otherAttempt_def) (simp add: busyEnv_def)
  have eq: "serve proxyServer (busyEnv\<lparr> ie_net := (ie_net busyEnv)\<lparr> ne_attempt := otherAttempt \<rparr>,
       ie_fan := (ie_fan busyEnv)\<lparr> fe_fetch := fe_fetch (ie_fan busyEnv) \<rparr> \<rparr>)
       ''/api/chat'' ''ollama_chat'' ''req_1'' inferRequest freshWriter busyStore =
     serve proxyServer busyEnv ''/api/chat'' ''ollama_chat'' ''req_1'' inferRequest freshWriter busyStore"
    by (rule serve_confined) (simp_all only: alike)
  have "otherAttempt 0 ''http://x/subscriber/proxy/api/chat'' [] \<noteq> ne_attempt (ie_net busyEnv) 0 ''http://x/subscriber/proxy/api/chat'' []"
    by (simp add: otherAttempt_def busyEnv_def proxyAnswer_def)
  then show ?thesis unfolding eq by (intro conjI busy_admitted busy_served)
qed

text \<open>Witness: a request that is turned away leaves the slots alone.\<close>

theorem request_bracket_witness:
  "\<exists>w1 sh1. marshalProxy proxyServer inferEnv ''/api/chat'' ''ollama_chat'' ''req_1'' inferRequest
     queueSchedulingFIFO False False freshWriter inferShared = Finished (w1, sh1) \<and>
     sh_sched sh1 = sampleSched \<and> goget (qt_current (sh_meta sh1)) ''req_1'' = None"
proof -
  obtain w1 sh1 where "marshalProxy proxyServer inferEnv ''/api/chat'' ''ollama_chat'' ''req_1'' inferRequest
     queueSchedulingFIFO False False freshWriter inferShared = Finished (w1, sh1)"
    by (cases "finishQueue (e_now (ne_env (ie_net inferEnv))) ''req_1'' queueStatusRejected inferShared")
      (auto simp: marshalProxy_def acquireQueue_end_def)
  from this request_bracket [OF this] show ?thesis by (auto simp: inferShared_def)
qed

end
