(* ===== verification/Secrets.thy ===== *)
theory Secrets
  imports GoNet
begin

text \<open>
  Package \<^verbatim>\<open>internal/secrets\<close>: the store of tokens, kept encrypted in a file and optionally in the keychain of
  the operating system. The authenticated cipher (AES-GCM), the base64 and JSON encodings and the
  keychain package are parameters; what the code relies on of them are the named hypotheses
  \<open>cipher_lawful\<close> and \<open>keyring_lawful\<close>. The files are part of the state, and every file operation may fail.
\<close>

section \<open>The parameters\<close>

text \<open>\<^verbatim>\<open>seal\<close> and \<^verbatim>\<open>unseal\<close> take key, nonce, text and associated data. The JSON value \<^verbatim>\<open>null\<close> leaves an
  empty map, as an empty object does.\<close>

record cipher =
  seal :: "string \<Rightarrow> string \<Rightarrow> string \<Rightarrow> string \<Rightarrow> string"
  unseal :: "string \<Rightarrow> string \<Rightarrow> string \<Rightarrow> string \<Rightarrow> string option"
  b64 :: "string \<Rightarrow> string"
  unb64 :: "string \<Rightarrow> string option"
  json_of_map :: "(string, string) gomap \<Rightarrow> string"
  map_of_json :: "string \<Rightarrow> (string, string) gomap option"

text \<open>\<^verbatim>\<open>encoding/json\<close> replaces bytes that are not valid UTF-8, and writes the entries of a map in the order of their keys:
  a map of valid texts is read back with the same values, in whatever order.\<close>

definition map_valid :: "(string, string) gomap \<Rightarrow> bool" where
  "map_valid m \<longleftrightarrow> list_all (\<lambda>(k, v). valid_utf8 k \<and> valid_utf8 v) m"

definition same_map :: "(string, string) gomap \<Rightarrow> (string, string) gomap \<Rightarrow> bool" where
  "same_map m m' \<longleftrightarrow> (\<forall>k. goget m k = goget m' k)"

definition cipher_lawful :: "cipher \<Rightarrow> bool" where
  "cipher_lawful c \<longleftrightarrow>
    (\<forall>key nonce text ad. unseal c key nonce (seal c key nonce text ad) ad = Some text) \<and>
    (\<forall>bytes. unb64 c (TrimSpace (b64 c bytes)) = Some bytes \<and> unb64 c (b64 c bytes) = Some bytes) \<and>
    (\<forall>m. map_valid m \<longrightarrow> (\<exists>m'. map_of_json c (json_of_map c m) = Some m' \<and> same_map m' m))"

datatype ring_result = Found string | NotFound | Broken

record 'r keyring =
  kr_get :: "'r \<Rightarrow> string \<Rightarrow> ring_result"
  kr_set :: "string \<Rightarrow> string \<Rightarrow> 'r \<Rightarrow> bool \<times> 'r"
  kr_delete :: "string \<Rightarrow> 'r \<Rightarrow> ring_result \<times> 'r"

text \<open>A successful \<^verbatim>\<open>Set\<close> is seen by a later \<^verbatim>\<open>Get\<close>, and other entries are left alone; the same for a
  \<^verbatim>\<open>Delete\<close> that does not report a failure.\<close>

definition keyring_lawful :: "'r keyring \<Rightarrow> bool" where
  "keyring_lawful kr \<longleftrightarrow>
    (\<forall>k v r r' k'. kr_set kr k v r = (True, r') \<longrightarrow> kr_get kr r' k' = (if k' = k then Found v else kr_get kr r k')) \<and>
    (\<forall>k r r' res k'. kr_delete kr k r = (res, r') \<and> res \<noteq> Broken \<longrightarrow>
       kr_get kr r' k' = (if k' = k then NotFound else kr_get kr r k'))"

section \<open>State\<close>

definition backendEncryptedFile :: string where "backendEncryptedFile = ''encrypted_file''"
definition backendOSKeychain :: string where "backendOSKeychain = ''os_keychain''"
definition currentFileVersion :: int where "currentFileVersion = 1"
definition osKeychainStatusActive :: string where "osKeychainStatusActive = ''active''"
definition osKeychainStatusDisabled :: string where "osKeychainStatusDisabled = ''disabled''"
definition osKeychainStatusPlanned :: string where "osKeychainStatusPlanned = ''planned''"
definition osKeychainStatusUnavailable :: string where "osKeychainStatusUnavailable = ''unavailable''"

record encryptedFile =
  ef_Version :: int
  ef_Backend :: string
  ef_Nonce :: string
  ef_Ciphertext :: string
  ef_UpdatedAt :: gotime

text \<open>What a read of a file gives: no file, an error, text that is not what it should be, or its contents.\<close>

datatype 'a disk = Missing | Unreadable | Junk | Contents 'a

record osKeychainRuntimeContext =
  rc_Platform :: string
  rc_Runtime :: string
  rc_ServiceMode :: bool
  rc_Warning :: string

record 'r SecretStore =
  sx_keySource :: string
  sx_data :: "(string, string) gomap"
  sx_key :: string
  sx_legacyMigrated :: bool
  sx_activeBackend :: string
  sx_osBackend :: bool
  sx_osStatus :: string
  sx_osMigrated :: int
  sx_osRuntime :: osKeychainRuntimeContext
  sx_ring :: 'r
  sx_file :: "encryptedFile disk"
  sx_keyFile :: "string disk"
  sx_legacy :: "(string, string) gomap disk"

datatype secret_error =
    IOError
  | NotJSON
  | BadVersion int
  | BadBase64
  | BadKey
  | NoncePanic
  | AuthFailed
  | RekeyUnsupported string

text \<open>The environment of an operation: the clock, the random bytes it gets (if it gets them), and the
  outcome of its writes.\<close>

record secret_env =
  xe_now :: gotime
  xe_nonce :: "string option"
  xe_newKey :: "string option"
  xe_write_ok :: bool
  xe_rename_ok :: bool
  xe_remove_ok :: bool

section \<open>The encrypted file\<close>

text \<open>\<^verbatim>\<open>aes.NewCipher\<close> accepts keys of 16, 24 or 32 bytes.\<close>

definition key_ok :: "string \<Rightarrow> bool" where
  "key_ok key \<longleftrightarrow> length key \<in> {16, 24, 32}"

definition decodeKey :: "cipher \<Rightarrow> string \<Rightarrow> secret_error + string" where
  "decodeKey c raw =
    (case unb64 c (TrimSpace raw) of
       None \<Rightarrow> Inl BadBase64
     | Some key \<Rightarrow> if length key \<noteq> 32 then Inl BadKey else Inr key)"

definition marshalEncryptedFileLocked :: "cipher \<Rightarrow> secret_env \<Rightarrow> string \<Rightarrow> (string, string) gomap \<Rightarrow> secret_error + encryptedFile" where
  "marshalEncryptedFileLocked c e key data =
    (if \<not> key_ok key then Inl BadKey
     else case xe_nonce e of
       None \<Rightarrow> Inl IOError
     | Some nonce \<Rightarrow>
        Inr \<lparr> ef_Version = currentFileVersion, ef_Backend = backendEncryptedFile, ef_Nonce = b64 c nonce,
              ef_Ciphertext = b64 c (seal c key nonce (json_of_map c data) backendEncryptedFile),
              ef_UpdatedAt = xe_now e \<rparr>)"

definition saveLocked :: "cipher \<Rightarrow> secret_env \<Rightarrow> 'r SecretStore \<Rightarrow> secret_error option \<times> 'r SecretStore" where
  "saveLocked c e s =
    (case marshalEncryptedFileLocked c e (sx_key s) (sx_data s) of
       Inl err \<Rightarrow> (Some err, s)
     | Inr file \<Rightarrow>
        if \<not> xe_write_ok e \<or> \<not> xe_rename_ok e then (Some IOError, s)
        else (None, s\<lparr> sx_file := Contents file \<rparr>))"

text \<open>\<^verbatim>\<open>gcm.Open\<close> panics on a nonce that is not of 12 bytes.\<close>

definition decrypt :: "cipher \<Rightarrow> string \<Rightarrow> encryptedFile \<Rightarrow> secret_error + (string, string) gomap" where
  "decrypt c key file =
    (if ef_Version file \<noteq> currentFileVersion then Inl (BadVersion (ef_Version file))
     else case unb64 c (ef_Nonce file) of
       None \<Rightarrow> Inl BadBase64
     | Some nonce \<Rightarrow>
      (case unb64 c (ef_Ciphertext file) of
         None \<Rightarrow> Inl BadBase64
       | Some ciphertext \<Rightarrow>
          if \<not> key_ok key then Inl BadKey
          else if length nonce \<noteq> 12 then Inl NoncePanic
          else case unseal c key nonce ciphertext (ef_Backend file) of
            None \<Rightarrow> Inl AuthFailed
          | Some plaintext \<Rightarrow>
             (case map_of_json c plaintext of None \<Rightarrow> Inl NotJSON | Some m \<Rightarrow> Inr m)))"

definition load :: "cipher \<Rightarrow> secret_env \<Rightarrow> 'r SecretStore \<Rightarrow> secret_error option \<times> 'r SecretStore" where
  "load c e s =
    (case sx_file s of
       Contents file \<Rightarrow>
         (case decrypt c (sx_key s) file of Inl err \<Rightarrow> (Some err, s) | Inr m \<Rightarrow> (None, s\<lparr> sx_data := m \<rparr>))
     | Junk \<Rightarrow> (Some NotJSON, s)
     | Unreadable \<Rightarrow> (Some IOError, s)
     | Missing \<Rightarrow>
        (case sx_legacy s of
           Missing \<Rightarrow> (None, s)
         | Unreadable \<Rightarrow> (Some IOError, s)
         | Junk \<Rightarrow> (Some NotJSON, s)
         | Contents m \<Rightarrow>
            (case saveLocked c e (s\<lparr> sx_data := m \<rparr>) of
               (Some err, s) \<Rightarrow> (Some err, s)
             | (None, s) \<Rightarrow>
                if \<not> xe_remove_ok e then (Some IOError, s)
                else (None, s\<lparr> sx_legacy := Missing, sx_legacyMigrated := True \<rparr>))))"

section \<open>The keychain\<close>

definition markOSKeychainUnavailableLocked :: "'r SecretStore \<Rightarrow> 'r SecretStore" where
  "markOSKeychainUnavailableLocked s =
    s\<lparr> sx_activeBackend := backendEncryptedFile, sx_osStatus := osKeychainStatusUnavailable \<rparr>"

definition keychain_active :: "'r SecretStore \<Rightarrow> bool" where
  "keychain_active s \<longleftrightarrow> sx_osBackend s \<and> sx_activeBackend s = backendOSKeychain"

text \<open>The loop of the migration, over the entries in the order the map yields them.\<close>

fun migrate_entries :: "'r keyring \<Rightarrow> (string \<times> string) list \<Rightarrow> 'r SecretStore \<Rightarrow> 'r SecretStore" where
  "migrate_entries kr [] s = s"
| "migrate_entries kr ((key, val) # rest) s =
    (if val = [] then migrate_entries kr rest s
     else case kr_get kr (sx_ring s) key of
       Broken \<Rightarrow> markOSKeychainUnavailableLocked s
     | res \<Rightarrow>
        if (case res of Found existing \<Rightarrow> existing \<noteq> [] | _ \<Rightarrow> False) then migrate_entries kr rest s
        else case kr_set kr key val (sx_ring s) of
          (False, r) \<Rightarrow> markOSKeychainUnavailableLocked (s\<lparr> sx_ring := r \<rparr>)
        | (True, r) \<Rightarrow> migrate_entries kr rest (s\<lparr> sx_ring := r, sx_osMigrated := sx_osMigrated s + 1 \<rparr>))"

definition migrateFallbackToOSKeychain :: "'r keyring \<Rightarrow> 'r SecretStore \<Rightarrow> 'r SecretStore" where
  "migrateFallbackToOSKeychain kr s =
    (if \<not> keychain_active s then s else migrate_entries kr (sx_data s) s)"

section \<open>Opening\<close>

definition truthyEnv :: "(string \<Rightarrow> string) \<Rightarrow> string \<Rightarrow> bool" where
  "truthyEnv getenv key \<longleftrightarrow> ToLower (TrimSpace (getenv key)) \<in> {''1'', ''true'', ''yes'', ''on''}"

definition osKeychainRequested :: "(string \<Rightarrow> string) \<Rightarrow> bool" where
  "osKeychainRequested getenv \<longleftrightarrow>
    ToLower (TrimSpace (getenv ''LLAMA_WRANGLER_SECRET_BACKEND'')) \<in> {backendOSKeychain, ''keychain''}"

definition defaultOSKeychainRuntimeContext :: "(string \<Rightarrow> string) \<Rightarrow> string \<Rightarrow> osKeychainRuntimeContext" where
  "defaultOSKeychainRuntimeContext getenv goos =
    (let serviceMode = truthyEnv getenv ''LLAMA_WRANGLER_SERVICE_MODE'' \<or> getenv ''INVOCATION_ID'' \<noteq> [] \<or>
           getenv ''NOTIFY_SOCKET'' \<noteq> [] \<or> getenv ''LAUNCHD_JOB'' \<noteq> [] \<or>
           EqualFold (getenv ''LAUNCHD_SESSION_TYPE'') ''system''
     in \<lparr> rc_Platform = goos, rc_Runtime = (if serviceMode then ''service_like'' else ''interactive_user''),
          rc_ServiceMode = serviceMode,
          rc_Warning = (if serviceMode then ''Service-like runtimes can use a different OS user or keychain session; verify keychain access before relying on OS keychain storage.'' else []) \<rparr>)"

text \<open>The key, where it comes from, and the key file afterwards.\<close>

definition loadOrCreateKey :: "cipher \<Rightarrow> (string \<Rightarrow> string) \<Rightarrow> secret_env \<Rightarrow> string disk \<Rightarrow> (secret_error + string \<times> string) \<times> string disk" where
  "loadOrCreateKey c getenv e keyFile =
    (let raw = getenv ''LLAMA_WRANGLER_SECRETS_KEY'';
         named = (\<lambda>src r. case decodeKey c r of Inl err \<Rightarrow> Inl err | Inr key \<Rightarrow> Inr (key, src)) in
     if raw \<noteq> [] then (named ''env'' raw, keyFile)
     else case keyFile of
       Contents text \<Rightarrow> (named ''file'' text, keyFile)
     | Junk \<Rightarrow> (Inl BadBase64, keyFile)
     | Unreadable \<Rightarrow> (Inl IOError, keyFile)
     | Missing \<Rightarrow>
        (case xe_newKey e of
           None \<Rightarrow> (Inl IOError, Missing)
         | Some key \<Rightarrow>
            if \<not> xe_write_ok e then (Inl IOError, Missing)
            else (Inr (key, ''file''), Contents (b64 c key))))"

definition Open :: "cipher \<Rightarrow> 'r keyring \<Rightarrow> (string \<Rightarrow> string) \<Rightarrow> string \<Rightarrow> secret_env \<Rightarrow> 'r SecretStore
    \<Rightarrow> (secret_error option) \<times> 'r SecretStore" where
  "Open c kr getenv goos e dir =
    (case loadOrCreateKey c getenv e (sx_keyFile dir) of
       (Inl err, keyFile) \<Rightarrow> (Some err, dir\<lparr> sx_keyFile := keyFile \<rparr>)
     | (Inr (key, src), keyFile) \<Rightarrow>
        (let requested = osKeychainRequested getenv;
             s = dir\<lparr> sx_keyFile := keyFile, sx_keySource := src, sx_data := [], sx_key := key,
               sx_legacyMigrated := False, sx_osMigrated := 0,
               sx_activeBackend := (if requested then backendOSKeychain else backendEncryptedFile),
               sx_osBackend := requested,
               sx_osStatus := (if requested then osKeychainStatusActive else osKeychainStatusDisabled),
               sx_osRuntime := defaultOSKeychainRuntimeContext getenv goos \<rparr>
         in case load c e s of
              (Some err, s) \<Rightarrow> (Some err, s)
            | (None, s) \<Rightarrow> (None, if sx_osBackend s then migrateFallbackToOSKeychain kr s else s)))"

section \<open>The operations\<close>

definition stored :: "'r SecretStore \<Rightarrow> string \<Rightarrow> string" where
  "stored s key = (case goget (sx_data s) key of None \<Rightarrow> [] | Some v \<Rightarrow> v)"

definition Get :: "'r keyring \<Rightarrow> string \<Rightarrow> 'r SecretStore \<Rightarrow> string \<times> 'r SecretStore" where
  "Get kr key s =
    (if keychain_active s then
       (case kr_get kr (sx_ring s) key of
          Found v \<Rightarrow> (v, s)
        | NotFound \<Rightarrow> (stored s key, s)
        | Broken \<Rightarrow> (stored s key, markOSKeychainUnavailableLocked s))
     else (stored s key, s))"

definition Set :: "cipher \<Rightarrow> 'r keyring \<Rightarrow> secret_env \<Rightarrow> string \<Rightarrow> string \<Rightarrow> 'r SecretStore \<Rightarrow> secret_error option \<times> 'r SecretStore" where
  "Set c kr e key val s =
    (if val = [] \<or> val = ''********'' then (None, s)
     else case saveLocked c e (s\<lparr> sx_data := goput key val (sx_data s) \<rparr>) of
       (Some err, s) \<Rightarrow> (Some err, s)
     | (None, s) \<Rightarrow>
        if keychain_active s then
          (case kr_set kr key val (sx_ring s) of
             (True, r) \<Rightarrow> (None, s\<lparr> sx_ring := r \<rparr>)
           | (False, r) \<Rightarrow> (None, markOSKeychainUnavailableLocked (s\<lparr> sx_ring := r \<rparr>)))
        else (None, s))"

definition Delete :: "cipher \<Rightarrow> 'r keyring \<Rightarrow> secret_env \<Rightarrow> string \<Rightarrow> 'r SecretStore \<Rightarrow> secret_error option \<times> 'r SecretStore" where
  "Delete c kr e key s =
    (case saveLocked c e (s\<lparr> sx_data := godelete key (sx_data s) \<rparr>) of
       (Some err, s) \<Rightarrow> (Some err, s)
     | (None, s) \<Rightarrow>
        if keychain_active s then
          (case kr_delete kr key (sx_ring s) of
             (Broken, r) \<Rightarrow> (None, markOSKeychainUnavailableLocked (s\<lparr> sx_ring := r \<rparr>))
           | (_, r) \<Rightarrow> (None, s\<lparr> sx_ring := r \<rparr>))
        else (None, s))"

definition Match :: "'r keyring \<Rightarrow> string \<Rightarrow> string \<Rightarrow> 'r SecretStore \<Rightarrow> bool \<times> 'r SecretStore" where
  "Match kr key candidate s =
    (if candidate = [] then (False, s)
     else case Get kr key s of (v, s) \<Rightarrow> (v \<noteq> [] \<and> v = candidate, s))"

section \<open>Rotating the key\<close>

text \<open>The outcome of each file operation of \<^verbatim>\<open>Rekey\<close>, and what the two restoring writes leave when they fail.\<close>

record rekey_env = secret_env +
  rk_write_key_ok :: bool
  rk_write_file_ok :: bool
  rk_rename_key_ok :: bool
  rk_rename_file_ok :: bool
  rk_restore_key :: "string disk option"
  rk_restore_file :: "encryptedFile disk option"

text \<open>The deferred function, for an attempt that is not committed.\<close>

definition restore :: "rekey_env \<Rightarrow> 'r SecretStore \<Rightarrow> 'r SecretStore \<Rightarrow> 'r SecretStore" where
  "restore e old s =
    s\<lparr> sx_keyFile := (case rk_restore_key e of None \<Rightarrow> sx_keyFile old | Some left \<Rightarrow> left),
       sx_file := (case sx_file old of Missing \<Rightarrow> sx_file s
                   | _ \<Rightarrow> (case rk_restore_file e of None \<Rightarrow> sx_file old | Some left \<Rightarrow> left)),
       sx_key := sx_key old \<rparr>"

definition Rekey :: "cipher \<Rightarrow> rekey_env \<Rightarrow> 'r SecretStore \<Rightarrow> secret_error option \<times> 'r SecretStore" where
  "Rekey c e s =
    (if sx_keySource s \<noteq> ''file'' then (Some (RekeyUnsupported (sx_keySource s)), s)
     else if sx_keyFile s \<in> {Missing, Unreadable} \<or> sx_file s = Unreadable then (Some IOError, s)
     else case xe_newKey e of
       None \<Rightarrow> (Some IOError, s)
     | Some newKey \<Rightarrow>
      (case marshalEncryptedFileLocked c (secret_env.truncate e) newKey (sx_data s) of
         Inl err \<Rightarrow> (Some err, s)
       | Inr file \<Rightarrow>
          if \<not> rk_write_key_ok e \<or> \<not> rk_write_file_ok e then (Some IOError, s)
          else if \<not> rk_rename_key_ok e then (Some IOError, restore e s s)
          else
            let s1 = s\<lparr> sx_keyFile := Contents (b64 c newKey) \<rparr> in
            if \<not> rk_rename_file_ok e then (Some IOError, restore e s s1)
            else (None, s1\<lparr> sx_file := Contents file, sx_key := newKey \<rparr>)))"

section \<open>The status\<close>

record SecretStatus =
  xs_Backend :: string
  xs_Encrypted :: bool
  xs_LegacyMigrated :: bool
  xs_KeySource :: string
  xs_FallbackBackend :: string
  xs_FallbackAvailable :: bool
  xs_RekeySupported :: bool
  xs_RekeyDescription :: string
  xs_BackupRequiredFiles :: "string list"
  xs_BackupDescription :: string
  xs_RestoreDescription :: string
  xs_BackupWarnings :: "string list"
  xs_OSKeychainStatus :: string
  xs_OSKeychainPlan :: string
  xs_OSKeychainNextStep :: string
  xs_OSKeychainMigrated :: int
  xs_OSKeychainPlatform :: string
  xs_OSKeychainRuntime :: string
  xs_OSKeychainService :: bool
  xs_OSKeychainWarning :: string

definition statusLocked :: "'r SecretStore \<Rightarrow> SecretStatus" where
  "statusLocked s =
    (let rekeySupported = (sx_keySource s = ''file'') in
     \<lparr> xs_Backend = sx_activeBackend s, xs_Encrypted = True, xs_LegacyMigrated = sx_legacyMigrated s,
       xs_KeySource = sx_keySource s, xs_FallbackBackend = backendEncryptedFile, xs_FallbackAvailable = True,
       xs_RekeySupported = rekeySupported,
       xs_RekeyDescription = (if rekeySupported then ''Local encrypted fallback key can be rotated.''
         else ''Local rekey is unavailable because the secrets key is supplied externally.''),
       xs_BackupRequiredFiles = (if rekeySupported then [''secrets.enc.json'', ''secrets.key'']
         else [''secrets.enc.json'', ''LLAMA_WRANGLER_SECRETS_KEY'']),
       xs_BackupDescription = (if rekeySupported
         then ''Back up secrets.enc.json and secrets.key together from the Llama Wrangler app-data directory.''
         else ''Back up secrets.enc.json and preserve the external LLAMA_WRANGLER_SECRETS_KEY value separately.''),
       xs_RestoreDescription = (if rekeySupported
         then ''Restore both files together before starting Llama Wrangler on the target machine.''
         else ''Restore secrets.enc.json and provide the same LLAMA_WRANGLER_SECRETS_KEY before starting Llama Wrangler.''),
       xs_BackupWarnings = [''secrets.enc.json cannot be decrypted without its matching key source.'',
         ''Support bundles are diagnostic exports and are not secret backups.''],
       xs_OSKeychainStatus = sx_osStatus s, xs_OSKeychainPlan = ''docs/14_os_keychain_plan.md'',
       xs_OSKeychainNextStep =
         (if sx_osStatus s = osKeychainStatusActive then
            (if rc_ServiceMode (sx_osRuntime s)
             then ''OS keychain is active in a service-like runtime; verify the service user and session can access the same keychain items. Encrypted fallback remains available.''
             else ''Using OS keychain as the active secret backend with encrypted fallback retained.'')
          else if sx_osStatus s = osKeychainStatusUnavailable
          then ''Encrypted fallback is active because the OS keychain backend was unavailable.''
          else if sx_osStatus s = osKeychainStatusPlanned
          then ''Add a minimal optional OS keychain backend while keeping encrypted fallback available.''
          else ''Set LLAMA_WRANGLER_SECRET_BACKEND=os_keychain to opt in to the OS keychain backend; encrypted fallback remains available.''),
       xs_OSKeychainMigrated = sx_osMigrated s, xs_OSKeychainPlatform = rc_Platform (sx_osRuntime s),
       xs_OSKeychainRuntime = rc_Runtime (sx_osRuntime s), xs_OSKeychainService = rc_ServiceMode (sx_osRuntime s),
       xs_OSKeychainWarning = rc_Warning (sx_osRuntime s) \<rparr>)"

section \<open>What a store answers\<close>

text \<open>The interface the rest of the program uses: a candidate matches a name exactly when it is the secret
  kept under it, and nothing matches where no secret is kept.\<close>

locale vault =
  fixes view :: "'s \<Rightarrow> string \<Rightarrow> string" and matches :: "string \<Rightarrow> string \<Rightarrow> 's \<Rightarrow> bool"
  assumes matches_view: "matches k cand s \<longleftrightarrow> cand \<noteq> [] \<and> view s k = cand"
begin

lemma matches_unique: "matches k a s \<Longrightarrow> matches k b s \<Longrightarrow> a = b"
  by (simp add: matches_view)

lemma matches_after: "view s k = v \<Longrightarrow> matches k cand s \<longleftrightarrow> cand = v \<and> v \<noteq> []"
  by (auto simp: matches_view)

end

interpretation secrets: vault "\<lambda>s k. fst (Get kr k s)" "\<lambda>k cand s. fst (Match kr k cand s)" for kr :: "'r keyring"
  by unfold_locales (auto simp: Match_def split: prod.split)

lemma saveLocked_ok:
  assumes "saveLocked c e s = (None, s')"
  shows "\<exists>file. marshalEncryptedFileLocked c e (sx_key s) (sx_data s) = Inr file \<and> s' = s\<lparr> sx_file := Contents file \<rparr>"
  using assms by (auto simp: saveLocked_def split: sum.splits if_splits)

lemma mark_simps [simp]:
  "sx_data (markOSKeychainUnavailableLocked s) = sx_data s" "sx_key (markOSKeychainUnavailableLocked s) = sx_key s"
  "sx_file (markOSKeychainUnavailableLocked s) = sx_file s" "sx_keyFile (markOSKeychainUnavailableLocked s) = sx_keyFile s"
  "sx_keySource (markOSKeychainUnavailableLocked s) = sx_keySource s"
  "\<not> keychain_active (markOSKeychainUnavailableLocked s)"
  by (simp_all add: markOSKeychainUnavailableLocked_def keychain_active_def backendEncryptedFile_def backendOSKeychain_def)

lemma keychain_active_update [simp]:
  "keychain_active (s\<lparr> sx_data := m \<rparr>) = keychain_active s" "keychain_active (s\<lparr> sx_ring := r \<rparr>) = keychain_active s"
  "keychain_active (s\<lparr> sx_file := f \<rparr>) = keychain_active s" "keychain_active (s\<lparr> sx_data := m, sx_file := f \<rparr>) = keychain_active s"
  by (simp_all add: keychain_active_def)

lemma keyring_set:
  "keyring_lawful kr \<Longrightarrow> kr_set kr k v r = (True, r') \<Longrightarrow> kr_get kr r' k' = (if k' = k then Found v else kr_get kr r k')"
  unfolding keyring_lawful_def by blast

lemma keyring_delete:
  "keyring_lawful kr \<Longrightarrow> kr_delete kr k r = (res, r') \<Longrightarrow> res \<noteq> Broken \<Longrightarrow>
     kr_get kr r' k' = (if k' = k then NotFound else kr_get kr r k')"
  unfolding keyring_lawful_def by blast

lemma Set_view:
  assumes "keyring_lawful kr" "Set c kr e k v s = (None, s')" "v \<noteq> []" "v \<noteq> ''********''"
  shows "fst (Get kr k s') = v"
proof -
  obtain s1 where sv: "saveLocked c e (s\<lparr> sx_data := goput k v (sx_data s) \<rparr>) = (None, s1)"
    using assms by (auto simp: Set_def split: prod.splits option.splits if_splits)
  then have d: "stored s1 k = v" "keychain_active s1 = keychain_active s"
    using saveLocked_ok [OF sv] by (auto simp: stored_def)
  obtain ok r where ks: "kr_set kr k v (sx_ring s1) = (ok, r)" by fastforce
  have law: "ok \<Longrightarrow> kr_get kr r k = Found v" using keyring_set [OF assms(1)] ks by simp
  show ?thesis
    using assms(2-4) sv d ks law
    by (auto simp: Set_def Get_def stored_def split: if_splits bool.splits)
qed

lemma Delete_view:
  assumes "keyring_lawful kr" "Delete c kr e k s = (None, s')"
  shows "fst (Get kr k s') = []"
proof -
  obtain s1 where sv: "saveLocked c e (s\<lparr> sx_data := godelete k (sx_data s) \<rparr>) = (None, s1)"
    using assms by (auto simp: Delete_def split: prod.splits option.splits)
  then have d: "stored s1 k = []" "keychain_active s1 = keychain_active s"
    using saveLocked_ok [OF sv] by (auto simp: stored_def)
  obtain res r where ks: "kr_delete kr k (sx_ring s1) = (res, r)" by fastforce
  have law: "res \<noteq> Broken \<Longrightarrow> kr_get kr r k = NotFound" using keyring_delete [OF assms(1) ks] by simp
  show ?thesis
    using assms(2) sv d ks law
    by (auto simp: Delete_def Get_def stored_def split: if_splits ring_result.splits)
qed

section \<open>What is on disk\<close>

text \<open>The files open, with the key the store holds, to the secrets it holds.\<close>

definition file_opens :: "cipher \<Rightarrow> 'r SecretStore \<Rightarrow> bool" where
  "file_opens c s \<longleftrightarrow> (case sx_file s of
     Contents f \<Rightarrow> (case decrypt c (sx_key s) f of Inr m \<Rightarrow> same_map m (sx_data s) | Inl err \<Rightarrow> False) | _ \<Rightarrow> False)"

definition key_filed :: "cipher \<Rightarrow> 'r SecretStore \<Rightarrow> bool" where
  "key_filed c s \<longleftrightarrow> (case sx_keyFile s of Contents t \<Rightarrow> decodeKey c t = Inr (sx_key s) | _ \<Rightarrow> False)"

definition nonce_ok :: "secret_env \<Rightarrow> bool" where
  "nonce_ok e \<longleftrightarrow> (case xe_nonce e of Some n \<Rightarrow> length n = 12 | None \<Rightarrow> True)"

lemma file_opensE:
  assumes "file_opens c s"
  obtains f m where "sx_file s = Contents f" "decrypt c (sx_key s) f = Inr m" "same_map m (sx_data s)"
  using assms by (auto simp: file_opens_def split: disk.splits sum.splits)

lemma marshal_decrypt:
  assumes "cipher_lawful c" "nonce_ok e" "map_valid data" "marshalEncryptedFileLocked c e key data = Inr file"
  shows "\<exists>m. decrypt c key file = Inr m \<and> same_map m data"
proof -
  obtain m where m: "map_of_json c (json_of_map c data) = Some m" "same_map m data"
    using assms(1,3) by (auto simp: cipher_lawful_def)
  have "decrypt c key file = Inr m"
    using assms m(1) by (auto simp: marshalEncryptedFileLocked_def decrypt_def cipher_lawful_def nonce_ok_def
        split: if_splits option.splits)
  with m(2) show ?thesis by blast
qed

lemma saveLocked_opens:
  assumes "cipher_lawful c" "nonce_ok e" "map_valid (sx_data s)" "saveLocked c e s = (None, s')"
  shows "file_opens c s'" "sx_data s' = sx_data s" "sx_key s' = sx_key s" "sx_keyFile s' = sx_keyFile s"
proof -
  obtain x where f: "marshalEncryptedFileLocked c e (sx_key s) (sx_data s) = Inr x" "s' = s\<lparr> sx_file := Contents x \<rparr>"
    using saveLocked_ok [OF assms(4)] by blast
  obtain m where "decrypt c (sx_key s) x = Inr m" "same_map m (sx_data s)" using marshal_decrypt [OF assms(1-3) f(1)] by blast
  then show "file_opens c s'" by (simp add: f(2) file_opens_def)
  show "sx_data s' = sx_data s" "sx_key s' = sx_key s" "sx_keyFile s' = sx_keyFile s" by (simp_all add: f(2))
qed

lemma file_opens_cong:
  "sx_file s = sx_file t \<Longrightarrow> sx_key s = sx_key t \<Longrightarrow> sx_data s = sx_data t \<Longrightarrow> file_opens c s = file_opens c t"
  by (simp only: file_opens_def)

lemma Set_opens:
  assumes "cipher_lawful c" "nonce_ok e" "map_valid (goput k v (sx_data s))" "Set c kr e k v s = (None, s')" "v \<noteq> []" "v \<noteq> ''********''"
  shows "file_opens c s'" "sx_data s' = goput k v (sx_data s)" "sx_key s' = sx_key s" "sx_keyFile s' = sx_keyFile s"
proof -
  obtain s1 where sv: "saveLocked c e (s\<lparr> sx_data := goput k v (sx_data s) \<rparr>) = (None, s1)"
    using assms by (auto simp: Set_def split: prod.splits option.splits if_splits)
  note f = saveLocked_opens [OF assms(1,2) _ sv]
  have "sx_file s' = sx_file s1" "sx_key s' = sx_key s1" "sx_data s' = sx_data s1" "sx_keyFile s' = sx_keyFile s1"
    using assms(4-6) sv by (auto simp: Set_def split: if_splits prod.splits bool.splits)
  with f assms(3) show "file_opens c s'" "sx_data s' = goput k v (sx_data s)" "sx_key s' = sx_key s" "sx_keyFile s' = sx_keyFile s"
    using file_opens_cong [of s' s1 c] by simp_all
qed

lemma load_opens:
  assumes "file_opens c s" "sx_key t = sx_key s" "sx_file t = sx_file s"
  shows "\<exists>m. load c e t = (None, t\<lparr> sx_data := m \<rparr>) \<and> same_map m (sx_data s)"
proof -
  obtain f m where "sx_file s = Contents f" "decrypt c (sx_key s) f = Inr m" "same_map m (sx_data s)"
    using assms(1) by (rule file_opensE)
  with assms(2,3) show ?thesis by (intro exI [of _ m]) (simp add: load_def)
qed

lemma Open_opens:
  assumes "file_opens c s" "key_filed c s" "getenv ''LLAMA_WRANGLER_SECRETS_KEY'' = []" "\<not> osKeychainRequested getenv"
  shows "\<exists>s'. Open c kr getenv goos e s = (None, s') \<and> same_map (sx_data s') (sx_data s) \<and> sx_key s' = sx_key s \<and>
    sx_keySource s' = ''file'' \<and> \<not> keychain_active s'"
proof -
  obtain t where t: "sx_keyFile s = Contents t" "decodeKey c t = Inr (sx_key s)"
    using assms(2) by (auto simp: key_filed_def split: disk.splits)
  then have k: "loadOrCreateKey c getenv e (sx_keyFile s) = (Inr (sx_key s, ''file''), sx_keyFile s)"
    using assms(3) by (simp add: loadOrCreateKey_def)
  define u where "u = s\<lparr> sx_keyFile := sx_keyFile s, sx_keySource := ''file'', sx_data := [], sx_key := sx_key s,
    sx_legacyMigrated := False, sx_osMigrated := 0, sx_activeBackend := backendEncryptedFile, sx_osBackend := False,
    sx_osStatus := osKeychainStatusDisabled, sx_osRuntime := defaultOSKeychainRuntimeContext getenv goos \<rparr>"
  obtain m where m: "load c e u = (None, u\<lparr> sx_data := m \<rparr>)" "same_map m (sx_data s)"
    using load_opens [OF assms(1), of u e] by (auto simp: u_def)
  have "Open c kr getenv goos e s = (None, u\<lparr> sx_data := m \<rparr>)"
    using assms(4) m(1) by (simp add: Open_def k Let_def u_def)
  then show ?thesis using m(2) by (simp add: u_def keychain_active_def)
qed

section \<open>Properties\<close>

text \<open>The secrets answer for exactly what was last written: after a successful \<^verbatim>\<open>Set\<close> the new value and
  nothing else matches the name, and after a successful \<^verbatim>\<open>Delete\<close> nothing does, also when the
  keychain fails in the middle of the operation.\<close>

theorem secret_lifecycle:
  assumes "keyring_lawful kr"
  shows "(Set c kr e k v s = (None, s1) \<and> v \<noteq> [] \<and> v \<noteq> ''********'' \<longrightarrow>
      (\<forall>cand. fst (Match kr k cand s1) \<longleftrightarrow> cand = v)) \<and>
    (Delete c kr e k s = (None, s2) \<longrightarrow> (\<forall>cand. \<not> fst (Match kr k cand s2)))"
  using Set_view [OF assms, of c e k v s s1] Delete_view [OF assms, of c e k s s2]
  by (auto simp: secrets.matches_after)

text \<open>C25. What was set survives a restart that reads the same files: after a \<^verbatim>\<open>Set\<close> that reported no error, on a store whose key is
  in its key file and whose names and values are valid texts, opening the directory again succeeds, and every name then answers with
  what it was set to last. The restart is one without a key in the environment and without the keychain; with the keychain requested an
  older value in it would win, which is the case when writing to it failed.\<close>

theorem secrets_persist:
  assumes "cipher_lawful c" "nonce_ok e" "key_filed c s" "map_valid (goput k v (sx_data s))"
    and "Set c kr e k v s = (None, s')" "v \<noteq> []" "v \<noteq> ''********''"
    and "getenv ''LLAMA_WRANGLER_SECRETS_KEY'' = []" "\<not> osKeychainRequested getenv"
  shows "\<exists>s''. Open c kr' getenv goos e' s' = (None, s'') \<and>
    (\<forall>k'. fst (Get kr' k' s'') = (if k' = k then v else stored s k'))"
proof -
  note f = Set_opens [OF assms(1,2,4-7)]
  have "key_filed c s'" using assms(3) f(3,4) by (simp add: key_filed_def split: disk.splits)
  from Open_opens [OF f(1) this assms(8,9), of kr' goos e'] show ?thesis
    using f(2) by (auto simp: Get_def stored_def same_map_def)
qed

text \<open>C24. Rotating the key, on every path. The secrets in memory stay the same. When no error is reported the data file opens to
  them with the new key, and that key is the one in the key file. When an error is reported the key in memory is the old one, and
  each of the two files is as it was, or, if its restoring write failed as well, what that write left of it; so with restoring writes that succeed
  the directory is exactly as before, and opens as before. (A crash between the two renames is no path of the function.)\<close>

theorem rekey_safe:
  assumes "cipher_lawful c" "nonce_ok (secret_env.truncate e)" "map_valid (sx_data s)" "Rekey c e s = (err, s')"
    and "case xe_newKey e of Some key \<Rightarrow> length key = 32 | None \<Rightarrow> True"
  shows "sx_data s' = sx_data s \<and>
    (if err = None then file_opens c s' \<and> key_filed c s' \<and> xe_newKey e = Some (sx_key s')
     else sx_key s' = sx_key s \<and>
       (sx_keyFile s' = sx_keyFile s \<or> rk_restore_key e = Some (sx_keyFile s')) \<and>
       (sx_file s' = sx_file s \<or> rk_restore_file e = Some (sx_file s')))"
proof (cases "err = None")
  case True
  then obtain newKey f where k: "xe_newKey e = Some newKey"
    and m: "marshalEncryptedFileLocked c (secret_env.truncate e) newKey (sx_data s) = Inr f"
    and s': "s' = s\<lparr> sx_keyFile := Contents (b64 c newKey), sx_file := Contents f, sx_key := newKey \<rparr>"
    using assms(4) by (auto simp: Rekey_def Let_def split: if_splits sum.splits option.splits)
  have "decodeKey c (b64 c newKey) = Inr newKey"
    using assms(1,5) k by (simp add: decodeKey_def cipher_lawful_def)
  moreover obtain d where "decrypt c newKey f = Inr d" "same_map d (sx_data s)" using marshal_decrypt [OF assms(1-3) m] by blast
  ultimately show ?thesis using True by (simp add: s' k file_opens_def key_filed_def)
next
  case False
  have paths: "s' = s \<or> s' = restore e s s \<or> (\<exists>newKey. s' = restore e s (s\<lparr> sx_keyFile := Contents (b64 c newKey) \<rparr>))"
  proof (cases "xe_newKey e")
    case (Some newKey)
    then show ?thesis using False assms(4) by (auto simp: Rekey_def Let_def split: if_splits sum.splits)
  qed (use assms(4) in \<open>auto simp: Rekey_def split: if_splits\<close>)
  have restored: "sx_data (restore e s u) = sx_data u" "sx_key (restore e s u) = sx_key s"
    "sx_keyFile (restore e s u) = sx_keyFile s \<or> rk_restore_key e = Some (sx_keyFile (restore e s u))"
    "sx_file u = sx_file s \<Longrightarrow> sx_file (restore e s u) = sx_file s \<or> rk_restore_file e = Some (sx_file (restore e s u))" for u
    by (auto simp: restore_def split: disk.splits option.splits)
  from paths show ?thesis unfolding if_not_P [OF False]
  proof (elim disjE exE)
    fix newKey
    assume s': "s' = restore e s (s\<lparr> sx_keyFile := Contents (b64 c newKey) \<rparr>)"
    show "sx_data s' = sx_data s \<and> sx_key s' = sx_key s \<and> (sx_keyFile s' = sx_keyFile s \<or> rk_restore_key e = Some (sx_keyFile s')) \<and>
        (sx_file s' = sx_file s \<or> rk_restore_file e = Some (sx_file s'))"
      using restored [of "s\<lparr> sx_keyFile := Contents (b64 c newKey) \<rparr>"] unfolding s' by simp
  qed (use restored [of s] in simp_all)
qed

section \<open>A concrete store\<close>

text \<open>An encoding of maps with a decoder, standing for JSON; the identity as a cipher; and a keychain that is
  a map.\<close>

fun enc_str :: "string \<Rightarrow> string" where
  "enc_str [] = ''0''"
| "enc_str (ch # t) = CHR ''1'' # ch # enc_str t"

fun dec_str :: "string \<Rightarrow> string \<times> string" where
  "dec_str (h # ch # t) = (if h = CHR ''1'' then (let (a, r) = dec_str t in (ch # a, r)) else ([], ch # t))"
| "dec_str t = ([], tl t)"

fun enc_map :: "(string \<times> string) list \<Rightarrow> string" where
  "enc_map [] = ''0''"
| "enc_map ((k, v) # m) = CHR ''1'' # enc_str k @ enc_str v @ enc_map m"

fun dec_map :: "nat \<Rightarrow> string \<Rightarrow> (string \<times> string) list" where
  "dec_map (Suc n) (h # t) =
    (if h = CHR ''1'' then (let (k, r) = dec_str t; (v, r') = dec_str r in (k, v) # dec_map n r') else [])"
| "dec_map _ _ = []"

lemma dec_enc_str: "dec_str (enc_str t @ r) = (t, r)"
  by (induction t) (cases r; simp)+

lemma dec_enc_map: "length m < n \<Longrightarrow> dec_map n (enc_map m) = m"
proof (induction m arbitrary: n)
  case Nil
  then show ?case by (cases n) auto
next
  case (Cons p m)
  obtain k v where p: "p = (k, v)" by (cases p)
  from Cons.prems obtain n' where "n = Suc n'" by (cases n) auto
  with Cons p show ?case by (simp add: dec_enc_str)
qed

lemma length_enc_map: "length m < length (enc_map m)"
  by (induction m rule: enc_map.induct) auto

definition plainCipher :: cipher where
  "plainCipher = \<lparr> seal = (\<lambda>_ _ t _. t), unseal = (\<lambda>_ _ t _. Some t), b64 = (\<lambda>t. ''#'' @ t @ ''#''),
     unb64 = (\<lambda>t. Some (butlast (tl t))), json_of_map = enc_map, map_of_json = (\<lambda>t. Some (dec_map (length t) t)) \<rparr>"

definition mapRing :: "(string, string) gomap keyring" where
  "mapRing = \<lparr> kr_get = (\<lambda>r k. case goget r k of None \<Rightarrow> NotFound | Some v \<Rightarrow> Found v),
     kr_set = (\<lambda>k v r. (True, goput k v r)), kr_delete = (\<lambda>k r. (NotFound, godelete k r)) \<rparr>"

lemma plainCipher_lawful: "cipher_lawful plainCipher"
proof -
  have "TrimSpace (''#'' @ t @ ''#'') = ''#'' @ t @ ''#''" for t
    by (simp add: TrimSpace_def trim_by_def is_space_def)
  then show ?thesis by (simp add: cipher_lawful_def plainCipher_def dec_enc_map length_enc_map same_map_def)
qed

lemma mapRing_lawful: "keyring_lawful mapRing"
  by (auto simp: keyring_lawful_def mapRing_def)

definition sampleKey :: string where "sampleKey = replicate 32 (CHR ''k'')"

definition secretEnv :: secret_env where
  "secretEnv = \<lparr> xe_now = 5, xe_nonce = Some (replicate 12 (CHR ''n'')), xe_newKey = Some (replicate 32 (CHR ''m'')),
     xe_write_ok = True, xe_rename_ok = True, xe_remove_ok = True \<rparr>"

definition sampleSecrets :: "(string, string) gomap SecretStore" where
  "sampleSecrets = \<lparr> sx_keySource = ''file'', sx_data = [(''admin_token'', ''old'')], sx_key = sampleKey,
     sx_legacyMigrated = False, sx_activeBackend = backendOSKeychain, sx_osBackend = True,
     sx_osStatus = osKeychainStatusActive, sx_osMigrated = 0,
     sx_osRuntime = defaultOSKeychainRuntimeContext (\<lambda>_. []) ''linux'', sx_ring = [],
     sx_file = Missing, sx_keyFile = Contents (b64 plainCipher sampleKey), sx_legacy = Missing \<rparr>"

lemma sample_set: "fst (Set plainCipher mapRing secretEnv ''admin_token'' ''new'' sampleSecrets) = None"
  by (simp add: Set_def saveLocked_def marshalEncryptedFileLocked_def key_ok_def sampleSecrets_def sampleKey_def
      secretEnv_def mapRing_def keychain_active_def split: prod.split)

text \<open>Witness: the token that was set matches in this store, the one before it no longer does.\<close>

theorem secret_lifecycle_witness:
  "fst (Match mapRing ''admin_token'' ''new'' (snd (Set plainCipher mapRing secretEnv ''admin_token'' ''new'' sampleSecrets))) \<and>
   \<not> fst (Match mapRing ''admin_token'' ''old'' (snd (Set plainCipher mapRing secretEnv ''admin_token'' ''new'' sampleSecrets)))"
proof -
  obtain s1 where s: "Set plainCipher mapRing secretEnv ''admin_token'' ''new'' sampleSecrets = (None, s1)"
    using sample_set by (metis prod.collapse)
  then show ?thesis
    using secret_lifecycle [OF mapRing_lawful, of plainCipher secretEnv "''admin_token''" "''new''" sampleSecrets s1] by auto
qed

lemma sample_key_filed: "key_filed plainCipher sampleSecrets"
  using plainCipher_lawful by (simp add: key_filed_def sampleSecrets_def decodeKey_def cipher_lawful_def sampleKey_def)

lemma sample_valid: "map_valid (goput ''admin_token'' ''new'' (sx_data sampleSecrets))"
  by code_simp

text \<open>Witness: the new token is there after a restart.\<close>

theorem secrets_persist_witness:
  "\<exists>s''. Open plainCipher mapRing (\<lambda>_. []) ''linux'' secretEnv
     (snd (Set plainCipher mapRing secretEnv ''admin_token'' ''new'' sampleSecrets)) = (None, s'') \<and>
   fst (Get mapRing ''admin_token'' s'') = ''new''"
proof -
  obtain s1 where s: "Set plainCipher mapRing secretEnv ''admin_token'' ''new'' sampleSecrets = (None, s1)"
    using sample_set by (metis prod.collapse)
  have "nonce_ok secretEnv" "\<not> osKeychainRequested (\<lambda>_. [])"
    by (simp_all add: nonce_ok_def secretEnv_def osKeychainRequested_def ToLower_def TrimSpace_def trim_by_def backendOSKeychain_def)
  from secrets_persist [OF plainCipher_lawful this(1) sample_key_filed sample_valid s _ _ _ this(2), of mapRing "''linux''" secretEnv] s
  show ?thesis by auto
qed

definition failingRekey :: rekey_env where
  "failingRekey = secret_env.extend secretEnv \<lparr> rk_write_key_ok = True, rk_write_file_ok = True,
     rk_rename_key_ok = True, rk_rename_file_ok = False, rk_restore_key = None, rk_restore_file = None \<rparr>"

text \<open>Witness: a rotation whose second rename fails leaves key and files as they were, so that the store still opens.\<close>

theorem rekey_safe_witness:
  "let s = snd (Set plainCipher mapRing secretEnv ''admin_token'' ''new'' sampleSecrets); s' = snd (Rekey plainCipher failingRekey s) in
   fst (Rekey plainCipher failingRekey s) = Some IOError \<and> sx_key s' = sampleKey \<and> sx_keyFile s' = sx_keyFile s \<and> file_opens plainCipher s'"
proof -
  obtain s1 where s: "Set plainCipher mapRing secretEnv ''admin_token'' ''new'' sampleSecrets = (None, s1)"
    using sample_set by (metis prod.collapse)
  have n: "nonce_ok secretEnv" by (simp add: nonce_ok_def secretEnv_def)
  note f = Set_opens [OF plainCipher_lawful n sample_valid s, simplified]
  obtain err s2 where r: "Rekey plainCipher failingRekey s1 = (err, s2)" by fastforce
  have t: "secret_env.truncate failingRekey = secretEnv" "xe_newKey failingRekey = Some (replicate 32 (CHR ''m''))"
    "rk_restore_key failingRekey = None" "rk_restore_file failingRekey = None" "\<not> rk_rename_file_ok failingRekey"
    "rk_write_key_ok failingRekey" "rk_write_file_ok failingRekey" "rk_rename_key_ok failingRekey"
    by (simp_all add: failingRekey_def secret_env.defs secretEnv_def)
  have src: "sx_keySource s1 = ''file''" "sx_keyFile s1 = Contents (b64 plainCipher sampleKey)"
    using s f(4) by (auto simp: Set_def saveLocked_def sampleSecrets_def markOSKeychainUnavailableLocked_def split: sum.splits if_splits prod.splits bool.splits)
  obtain x where x: "sx_file s1 = Contents x" using f(1) by (rule file_opensE)
  have "marshalEncryptedFileLocked plainCipher secretEnv (replicate 32 (CHR ''m'')) (sx_data s1) \<noteq> Inl e" for e
    by (simp add: marshalEncryptedFileLocked_def key_ok_def secretEnv_def)
  then have err: "err = Some IOError"
    using r src x t by (auto simp: Rekey_def Let_def split: sum.splits)
  have "map_valid (sx_data s1)" using f(2) sample_valid by (simp add: sampleSecrets_def)
  from rekey_safe [OF plainCipher_lawful _ this r] n t err
  have same: "sx_data s2 = sx_data s1" "sx_key s2 = sx_key s1" "sx_keyFile s2 = sx_keyFile s1" "sx_file s2 = sx_file s1" by auto
  then have "file_opens plainCipher s2" using f(1) file_opens_cong [of s2 s1 plainCipher] by simp
  then show ?thesis using s r err same f(3) by (simp add: sampleSecrets_def)
qed

end
