(* ===== verification/Auth.thy ===== *)
theory Auth
  imports Inference Secrets
begin

text \<open>
  \<^verbatim>\<open>auth_limiter.go\<close>, \<^verbatim>\<open>auth.go\<close> and \<^verbatim>\<open>safety.go\<close> of \<^verbatim>\<open>internal/httpapi\<close>, with the handlers of \<^verbatim>\<open>server.go\<close> that
  manage tokens: who may pass, how failures are limited, and how tokens are created, rotated and
  revoked. The gates stand between the outside and everything else.
\<close>

section \<open>The failure limiter\<close>

record authFailureAttempt =
  fa_Count :: int
  fa_FirstSeen :: gotime
  fa_BlockedUntil :: gotime

record authFailureLimiter =
  al_attempts :: "(string, authFailureAttempt) gomap"
  al_max :: int
  al_window :: duration
  al_cooldown :: duration

definition newAuthFailureLimiter :: "int \<Rightarrow> duration \<Rightarrow> duration \<Rightarrow> authFailureLimiter" where
  "newAuthFailureLimiter mx window cooldown =
    \<lparr> al_attempts = [], al_max = (if mx \<le> 0 then 5 else mx), al_window = (if window \<le> 0 then minute else window),
      al_cooldown = (if cooldown \<le> 0 then 30 * second else cooldown) \<rparr>"

definition authFailureKey :: "string \<Rightarrow> string \<Rightarrow> string" where
  "authFailureKey scope remote =
    (let host = (case SplitHostPort remote of None \<Rightarrow> remote | Some (h, _) \<Rightarrow> h)
     in scope @ '':'' @ (if host = [] then ''unknown'' else host))"

definition registerFailure :: "gotime \<Rightarrow> string \<Rightarrow> string \<Rightarrow> authFailureLimiter \<Rightarrow> (bool \<times> duration) \<times> authFailureLimiter" where
  "registerFailure now scope remote l =
    (let key = authFailureKey scope remote;
         attempt = (case goget (al_attempts l) key of
                      Some a \<Rightarrow> a | None \<Rightarrow> \<lparr> fa_Count = 0, fa_FirstSeen = 0, fa_BlockedUntil = 0 \<rparr>)
     in if fa_BlockedUntil attempt \<noteq> 0 \<and> now < fa_BlockedUntil attempt
        then ((True, time_sub (fa_BlockedUntil attempt) now), l)
        else
          let attempt = (if fa_FirstSeen attempt = 0 \<or> al_window l < time_sub now (fa_FirstSeen attempt)
                         then \<lparr> fa_Count = 0, fa_FirstSeen = now, fa_BlockedUntil = 0 \<rparr> else attempt);
              attempt = attempt\<lparr> fa_Count := i64 (fa_Count attempt + 1) \<rparr>
          in if al_max l \<le> fa_Count attempt then
               ((True, al_cooldown l), l\<lparr> al_attempts :=
                  goput key (attempt\<lparr> fa_BlockedUntil := now + al_cooldown l \<rparr>) (al_attempts l) \<rparr>)
             else ((False, 0), l\<lparr> al_attempts := goput key attempt (al_attempts l) \<rparr>))"

definition reset :: "string \<Rightarrow> string \<Rightarrow> authFailureLimiter \<Rightarrow> authFailureLimiter" where
  "reset scope remote l = l\<lparr> al_attempts := godelete (authFailureKey scope remote) (al_attempts l) \<rparr>"

definition metadata :: "authFailureLimiter \<Rightarrow> gobj" where
  "metadata l = [(''max_failures'', GInt (al_max l)), (''window_seconds'', GInt (al_window l div second)),
     (''cooldown_seconds'', GInt (al_cooldown l div second))]"

text \<open>\<^verbatim>\<open>Duration.Round\<close> to whole seconds, for durations that are not negative.\<close>

definition round_seconds :: "duration \<Rightarrow> int" where
  "round_seconds d = (d + second div 2) div second"

definition setRetryAfter :: "duration \<Rightarrow> Writer \<Rightarrow> Writer" where
  "setRetryAfter retryAfter w =
    SetHeader ''Retry-After'' (Itoa (nat (if round_seconds retryAfter < 1 then 1 else round_seconds retryAfter))) w"

section \<open>Tokens\<close>

definition adminSecretKey :: string where "adminSecretKey = ''admin_token''"
definition apiKeyPrefix :: string where "apiKeyPrefix = ''api_key:''"
definition authScopeAdmin :: string where "authScopeAdmin = ''admin''"
definition authScopeClient :: string where "authScopeClient = ''client''"

text \<open>The random part of a new token is the environment's.\<close>

definition newToken :: "string \<Rightarrow> string \<Rightarrow> string" where
  "newToken prefix random = prefix @ random"

definition tokenHint :: "string \<Rightarrow> string" where
  "tokenHint token =
    (if length token \<le> 8 then token else take 4 token @ ''...'' @ drop (length token - 4) token)"

record auth_request = http_request +
  ar_method :: string
  ar_remote :: string

definition bearerToken :: "auth_request \<Rightarrow> string" where
  "bearerToken r =
    (let auth = hr_header r ''Authorization'' in
     if HasPrefix (ToLower auth) ''bearer '' then TrimSpace (drop 7 auth)
     else hr_header r ''X-Llama-Wrangler-Admin-Token'')"

text \<open>The parts of the server that authentication uses, and the environment of an operation.\<close>

record 'r auth_state =
  at_secrets :: "'r SecretStore"
  at_store :: Store
  at_limiter :: authFailureLimiter

record 'r auth_env =
  ae_env :: env
  ae_secret :: secret_env
  ae_cipher :: cipher
  ae_keyring :: "'r keyring"
  ae_token :: string

definition setSecret :: "'r auth_env \<Rightarrow> string \<Rightarrow> string \<Rightarrow> 'r auth_state \<Rightarrow> secret_error option \<times> 'r auth_state" where
  "setSecret e key val s =
    (case Set (ae_cipher e) (ae_keyring e) (ae_secret e) key val (at_secrets s) of
       (err, x) \<Rightarrow> (err, s\<lparr> at_secrets := x \<rparr>))"

definition getSecret :: "'r auth_env \<Rightarrow> string \<Rightarrow> 'r auth_state \<Rightarrow> string \<times> 'r auth_state" where
  "getSecret e key s =
    (case Get (ae_keyring e) key (at_secrets s) of (v, x) \<Rightarrow> (v, s\<lparr> at_secrets := x \<rparr>))"

definition on_store :: "(Store \<Rightarrow> 'e \<times> Store) \<Rightarrow> 'r auth_state \<Rightarrow> 'e \<times> 'r auth_state" where
  "on_store f s = (case f (at_store s) of (err, t) \<Rightarrow> (err, s\<lparr> at_store := t \<rparr>))"

definition rotateAdminToken :: "'r auth_env \<Rightarrow> 'r auth_state \<Rightarrow> (secret_error + string) \<times> 'r auth_state" where
  "rotateAdminToken e s =
    (let token = newToken ''lw_admin_'' (ae_token e) in
     case setSecret e adminSecretKey token s of
       (Some err, s) \<Rightarrow> (Inl err, s)
     | (None, s) \<Rightarrow> (Inr token, snd (on_store (SetAdminTokenHint (ae_env e) (tokenHint token)) s)))"

definition ensureAdminToken :: "'r auth_env \<Rightarrow> 'r auth_state \<Rightarrow> (secret_error + string) \<times> 'r auth_state" where
  "ensureAdminToken e s =
    (case getSecret e adminSecretKey s of
       (existing, s) \<Rightarrow>
         if existing \<noteq> [] then
           (Inr [], if st_AdminTokenHint (Snapshot (at_store s)) = []
                    then snd (on_store (SetAdminTokenHint (ae_env e) (tokenHint existing)) s) else s)
         else rotateAdminToken e s)"

definition new_client_key :: "string \<Rightarrow> string \<Rightarrow> string \<Rightarrow> ClientAPIKey" where
  "new_client_key kid name hint =
    \<lparr> ck_ID = kid, ck_Name = name, ck_Hint = hint, ck_CreatedAt = 0, ck_LastUsed = 0, ck_Enabled = True \<rparr>"

text \<open>The search of \<^verbatim>\<open>ensureDefaultClientKey\<close> for a default key that still has its secret.\<close>

fun default_key :: "'r auth_env \<Rightarrow> ClientAPIKey list \<Rightarrow> 'r auth_state \<Rightarrow> ClientAPIKey option \<times> 'r auth_state" where
  "default_key e [] s = (None, s)"
| "default_key e (key # keys) s =
    (if ck_Name key = ''local-ide'' \<and> ck_Enabled key then
       (case getSecret e (apiKeyPrefix @ ck_ID key) s of
          (v, s) \<Rightarrow> if v \<noteq> [] then (Some key, s) else default_key e keys s)
     else default_key e keys s)"

datatype auth_failure = SecretFailure secret_error | StoreFailure store_error

definition ensureDefaultClientKey :: "'r auth_env \<Rightarrow> 'r auth_state
    \<Rightarrow> (auth_failure + ClientAPIKey \<times> string) \<times> 'r auth_state" where
  "ensureDefaultClientKey e s =
    (case default_key e (st_ClientAPIKeys (Snapshot (at_store s))) s of
       (Some key, s) \<Rightarrow> (Inr (key, []), s)
     | (None, s) \<Rightarrow>
        (let token = newToken ''lw_client_'' (ae_token e);
             key = new_client_key ''local-ide'' ''local-ide'' (tokenHint token) in
         case setSecret e (apiKeyPrefix @ ck_ID key) token s of
           (Some err, s) \<Rightarrow> (Inl (SecretFailure err), s)
         | (None, s) \<Rightarrow>
            (case on_store (UpsertClientAPIKey (ae_env e) key) s of
               (Some err, s) \<Rightarrow> (Inl (StoreFailure err), s)
             | (None, s) \<Rightarrow> (Inr (key, token), s))))"

section \<open>The gates\<close>

text \<open>A gate lets the request through to its handler, or answers it.\<close>

datatype gate = Pass | Refuse Writer

definition writeJSON :: "codec \<Rightarrow> int \<Rightarrow> json \<Rightarrow> Writer \<Rightarrow> Writer" where
  "writeJSON js st payload w =
    (let w = WriteHeader st (SetHeader ''Content-Type'' ''application/json'' w) in
     case marshal js payload of
       None \<Rightarrow> w
     | Some text \<Rightarrow> snd (snd (Write (text @ [CHR 0x0A]) w)))"

definition validAdminToken :: "'r auth_env \<Rightarrow> auth_request \<Rightarrow> 'r auth_state \<Rightarrow> bool \<times> 'r auth_state" where
  "validAdminToken e r s =
    (case Match (ae_keyring e) adminSecretKey (bearerToken r) (at_secrets s) of (ok, x) \<Rightarrow> (ok, s\<lparr> at_secrets := x \<rparr>))"

definition failed_attempt :: "'r auth_env \<Rightarrow> string \<Rightarrow> auth_request \<Rightarrow> 'r auth_state \<Rightarrow> (bool \<times> duration) \<times> 'r auth_state" where
  "failed_attempt e scope r s =
    (case registerFailure (e_now (ae_env e)) scope (ar_remote r) (at_limiter s) of
       (res, l) \<Rightarrow> (res, s\<lparr> at_limiter := l \<rparr>))"

definition requireAdmin :: "codec \<Rightarrow> 'r auth_env \<Rightarrow> auth_request \<Rightarrow> Writer \<Rightarrow> 'r auth_state \<Rightarrow> gate \<times> 'r auth_state" where
  "requireAdmin js e r w s0 =
    (let state = Snapshot (at_store s0) in
     if ar_method r = ''OPTIONS'' then (Pass, s0)
     else if \<not> st_SetupComplete state \<or> \<not> ui_RequireAuth (c_UI (st_Config state)) then (Pass, s0)
     else case validAdminToken e r s0 of
       (True, s) \<Rightarrow> (Pass, s\<lparr> at_limiter := reset authScopeAdmin (ar_remote r) (at_limiter s) \<rparr>)
     | (False, s) \<Rightarrow>
        (let hint = (''admin_token_hint'', JString (st_AdminTokenHint state));
             required = (\<lambda>s. (Refuse (writeJSON js 401 (JObject
               [(''error'', JString ''admin_auth_required''),
                (''message'', JString ''Enter the local admin token generated during setup.''), hint]) w), s)) in
         if bearerToken r \<noteq> [] then
           (case failed_attempt e authScopeAdmin r s of
              ((True, retryAfter), s) \<Rightarrow>
                (Refuse (writeJSON js 429 (JObject
                   [(''error'', JString ''admin_auth_rate_limited''),
                    (''message'', JString ''Too many invalid admin token attempts. Wait before retrying.''),
                    (''retry_after_seconds'', JNumber (Itoa (nat (round_seconds retryAfter)))), hint])
                   (setRetryAfter retryAfter w)), s)
            | ((False, _), s) \<Rightarrow> required s)
         else required s))"

text \<open>The two loops of \<^verbatim>\<open>validClientAPIKey\<close>. The second runs over the configuration of the snapshot.\<close>

fun match_client_keys :: "'r auth_env \<Rightarrow> ClientAPIKey list \<Rightarrow> string \<Rightarrow> 'r auth_state \<Rightarrow> bool \<times> 'r auth_state" where
  "match_client_keys e [] token s = (False, s)"
| "match_client_keys e (key # keys) token s =
    (if \<not> ck_Enabled key then match_client_keys e keys token s
     else case getSecret e (apiKeyPrefix @ ck_ID key) s of
       (v, s) \<Rightarrow>
         if v \<noteq> [] \<and> v = token
         then (True, s\<lparr> at_store := TouchClientAPIKey (ae_env e) (ck_ID key) (at_store s) \<rparr>)
         else match_client_keys e keys token s)"

definition validClientAPIKey :: "'r auth_env \<Rightarrow> State \<Rightarrow> string \<Rightarrow> 'r auth_state \<Rightarrow> bool \<times> 'r auth_state" where
  "validClientAPIKey e state token s =
    (case match_client_keys e (st_ClientAPIKeys state) token s of
       (True, s) \<Rightarrow> (True, s)
     | (False, s) \<Rightarrow> (list_ex (\<lambda>key. ak_Key key \<noteq> [] \<and> ak_Key key = token) (au_APIKeys (c_Auth (st_Config state))), s))"

definition requireClientAPIKey :: "server_codec \<Rightarrow> 'r auth_env \<Rightarrow> auth_request \<Rightarrow> Writer \<Rightarrow> 'r auth_state \<Rightarrow> gate \<times> 'r auth_state" where
  "requireClientAPIKey js e r w s0 =
    (let state = Snapshot (at_store s0); token = bearerToken r in
     if \<not> st_SetupComplete state \<or> \<not> au_Enabled (c_Auth (st_Config state)) then (Pass, s0)
     else case validClientAPIKey e state token s0 of
       (True, s) \<Rightarrow> (Pass, s\<lparr> at_limiter := reset authScopeClient (ar_remote r) (at_limiter s) \<rparr>)
     | (False, s) \<Rightarrow>
        (let required = (\<lambda>s. (Refuse (writeInferenceError js (http_request.truncate r) 401 ''client_api_key_required''
               ''Provide a Llama Wrangler client API key in the Authorization header.'' w), s)) in
         if token \<noteq> [] then
           (case failed_attempt e authScopeClient r s of
              ((True, retryAfter), s) \<Rightarrow>
                (Refuse (writeInferenceError js (http_request.truncate r) 429 ''client_auth_rate_limited''
                  ''Too many invalid Llama Wrangler client API key attempts. Wait before retrying.''
                  (setRetryAfter retryAfter w)), s)
            | ((False, _), s) \<Rightarrow> required s)
         else required s))"

definition isLoopbackRemote :: "string \<Rightarrow> bool" where
  "isLoopbackRemote remote =
    (let host = (case SplitHostPort remote of None \<Rightarrow> remote | Some (h, _) \<Rightarrow> h)
     in case ParseIP host of None \<Rightarrow> True | Some ip \<Rightarrow> IsLoopback ip)"

section \<open>Managing client keys\<close>

text \<open>The answer of a handler: its status, and the token it reveals, if any.\<close>

record 'r key_result =
  ky_status :: int
  ky_token :: string
  ky_state :: "'r auth_state"
  ky_cfg :: "Config option"

definition answered_with :: "int \<Rightarrow> 'r auth_state \<Rightarrow> 'r key_result" where
  "answered_with st s = \<lparr> ky_status = st, ky_token = [], ky_state = s, ky_cfg = None \<rparr>"

definition emit_auth :: "Sink \<Rightarrow> 'r auth_env \<Rightarrow> string option \<Rightarrow> string \<Rightarrow> gobj \<Rightarrow> 'r auth_state \<Rightarrow> 'r auth_state" where
  "emit_auth sink e hec ty fs s = s\<lparr> at_store := Emit (ae_env e) sink hec ty fs (at_store s) \<rparr>"

definition rotateAdminTokenHandler :: "Sink \<Rightarrow> string option \<Rightarrow> 'r auth_env \<Rightarrow> 'r auth_state \<Rightarrow> 'r key_result" where
  "rotateAdminTokenHandler sink hec e s =
    (case rotateAdminToken e s of
       (Inl err, s) \<Rightarrow> answered_with 500 s
     | (Inr token, s) \<Rightarrow>
        (answered_with 200 (emit_auth sink e hec ''admin_token_rotated''
          [(''admin_token_hint'', GStr (tokenHint token))] s))\<lparr> ky_token := token \<rparr>)"

definition createClientAPIKey :: "Sink \<Rightarrow> string option \<Rightarrow> 'r auth_env \<Rightarrow> string \<Rightarrow> 'r auth_state \<Rightarrow> 'r key_result" where
  "createClientAPIKey sink hec e name0 s =
    (let name = (if TrimSpace name0 = [] then ''local-ide'' else name0);
         token = newToken ''lw_client_'' (ae_token e);
         key = new_client_key (''key_'' @ e_random (ae_env e)) (TrimSpace name) (tokenHint token) in
     case setSecret e (apiKeyPrefix @ ck_ID key) token s of
       (Some err, s) \<Rightarrow> answered_with 500 s
     | (None, s) \<Rightarrow>
      (case on_store (UpsertClientAPIKey (ae_env e) key) s of
         (Some err, s) \<Rightarrow> answered_with 500 s
       | (None, s) \<Rightarrow>
          (let cfg = st_Config (Snapshot (at_store s)); cfg = cfg\<lparr> c_Auth := (c_Auth cfg)\<lparr> au_Enabled := True \<rparr> \<rparr> in
           case on_store (SaveConfig (ae_env e) cfg) s of
             (Some err, s) \<Rightarrow> answered_with 500 s
           | (None, s) \<Rightarrow>
              (answered_with 200 (emit_auth sink e hec ''api_key_created''
                [(''key_id'', GStr (ck_ID key)), (''key_name'', GStr (ck_Name key))] s))
              \<lparr> ky_token := token, ky_cfg := Some cfg \<rparr>)))"

definition clientAPIKeyAction :: "Sink \<Rightarrow> string option \<Rightarrow> 'r auth_env \<Rightarrow> string \<Rightarrow> 'r auth_state \<Rightarrow> 'r key_result" where
  "clientAPIKeyAction sink hec e path s =
    (case Split CHR ''/'' (TrimPrefix path ''/wrangler/auth/api-keys/'') of
       keyID # action # _ \<Rightarrow>
        (case find (\<lambda>k. ck_ID k = keyID) (st_ClientAPIKeys (Snapshot (at_store s))) of
           None \<Rightarrow> answered_with 404 s
         | Some key \<Rightarrow>
            (let fields = [(''key_id'', GStr (ck_ID key)), (''key_name'', GStr (ck_Name key))] in
             if action = ''revoke'' then
               (case Delete (ae_cipher e) (ae_keyring e) (ae_secret e) (apiKeyPrefix @ ck_ID key) (at_secrets s) of
                  (Some err, x) \<Rightarrow> answered_with 500 (s\<lparr> at_secrets := x \<rparr>)
                | (None, x) \<Rightarrow>
                   (case on_store (UpsertClientAPIKey (ae_env e) (key\<lparr> ck_Enabled := False \<rparr>)) (s\<lparr> at_secrets := x \<rparr>) of
                      (Some err, s) \<Rightarrow> answered_with 500 s
                    | (None, s) \<Rightarrow> answered_with 200 (emit_auth sink e hec ''api_key_revoked'' fields s)))
             else if action = ''rotate'' then
               let token = newToken ''lw_client_'' (ae_token e) in
               (case setSecret e (apiKeyPrefix @ ck_ID key) token s of
                  (Some err, s) \<Rightarrow> answered_with 500 s
                | (None, s) \<Rightarrow>
                   (case on_store (UpsertClientAPIKey (ae_env e) (key\<lparr> ck_Hint := tokenHint token, ck_Enabled := True \<rparr>)) s of
                      (Some err, s) \<Rightarrow> answered_with 500 s
                    | (None, s) \<Rightarrow>
                       (answered_with 200 (emit_auth sink e hec ''api_key_rotated'' fields s))\<lparr> ky_token := token \<rparr>))
             else answered_with 404 s))
     | _ \<Rightarrow> answered_with 400 s)"

text \<open>The status and error code of the rekey handler.\<close>

definition rekeySecretsHandler :: "Sink \<Rightarrow> string option \<Rightarrow> 'r auth_env \<Rightarrow> rekey_env \<Rightarrow> 'r auth_state \<Rightarrow> int \<times> string \<times> 'r auth_state" where
  "rekeySecretsHandler sink hec e rk s =
    (case Rekey (ae_cipher e) rk (at_secrets s) of
       (Some (RekeyUnsupported src), x) \<Rightarrow> (409, ''secret_rekey_unsupported'', s\<lparr> at_secrets := x \<rparr>)
     | (Some err, x) \<Rightarrow> (500, ''secret_rekey_failed'', s\<lparr> at_secrets := x \<rparr>)
     | (None, x) \<Rightarrow>
        (200, [], emit_auth sink e hec ''secret_store_rekeyed''
          [(''backend'', GStr (xs_Backend (statusLocked x))), (''key_source'', GStr (xs_KeySource (statusLocked x)))]
          (s\<lparr> at_secrets := x \<rparr>)))"

section \<open>Exposure\<close>

record networkExposure =
  nx_Enabled :: bool
  nx_Warning :: string

definition trim_brackets :: "string \<Rightarrow> string" where
  "trim_brackets s = trim_by (\<lambda>ch. ch = CHR ''['' \<or> ch = CHR '']'') s"

definition listenHost :: "string \<Rightarrow> string" where
  "listenHost listen0 =
    (let listen = TrimSpace listen0 in
     case SplitHostPort listen of
       Some (host, _) \<Rightarrow> trim_brackets host
     | None \<Rightarrow>
        if HasPrefix listen '':'' then []
        else if count_list listen (CHR '':'') = 1 then TrimSpace (fst (Cut (CHR '':'') listen))
        else trim_brackets listen)"

definition lanExposureForListen :: "string \<Rightarrow> networkExposure" where
  "lanExposureForListen listen =
    (let host = listenHost listen; none = \<lparr> nx_Enabled = False, nx_Warning = [] \<rparr> in
     if host = [] then
       \<lparr> nx_Enabled = True, nx_Warning = ''Llama Wrangler is listening on all interfaces. Keep this behind trusted networks and require admin/client tokens before using LAN access.'' \<rparr>
     else if EqualFold host ''localhost'' then none
     else case ParseIP host of
       None \<Rightarrow> \<lparr> nx_Enabled = True, nx_Warning = ''Llama Wrangler is listening on a non-local hostname. Confirm this host only resolves on trusted networks and keep auth enabled.'' \<rparr>
     | Some ip \<Rightarrow>
        if IsLoopback ip then none
        else \<lparr> nx_Enabled = True, nx_Warning = ''Llama Wrangler is reachable beyond localhost. Use this only on trusted LANs with admin and client API-key auth enabled.'' \<rparr>)"

section \<open>The limiter under attack\<close>

text \<open>A client that keeps failing: its answers in order, and the limiter afterwards.\<close>

fun failures :: "string \<Rightarrow> string \<Rightarrow> gotime list \<Rightarrow> authFailureLimiter \<Rightarrow> bool list \<times> authFailureLimiter" where
  "failures scope remote [] l = ([], l)"
| "failures scope remote (t # ts) l =
    (case registerFailure t scope remote l of
       ((blocked, _), l) \<Rightarrow> (case failures scope remote ts l of (bs, l) \<Rightarrow> (blocked # bs, l)))"

lemma registerFailure_limits [simp]:
  "al_max (snd (registerFailure t scope remote l)) = al_max l"
  "al_window (snd (registerFailure t scope remote l)) = al_window l"
  "al_cooldown (snd (registerFailure t scope remote l)) = al_cooldown l"
  by (simp_all add: registerFailure_def Let_def split: option.split)

lemma registerFailure_other [simp]:
  "k \<noteq> authFailureKey scope remote \<Longrightarrow>
     goget (al_attempts (snd (registerFailure t scope remote l))) k = goget (al_attempts l) k"
  by (simp add: registerFailure_def Let_def split: option.split)

text \<open>After \<open>n\<close> failures since \<open>t0\<close>, all in one window.\<close>

definition seen :: "gotime \<Rightarrow> nat \<Rightarrow> int \<Rightarrow> authFailureAttempt \<Rightarrow> bool" where
  "seen t0 n mx a \<longleftrightarrow> fa_FirstSeen a = t0 \<and>
    (if int n < mx then fa_Count a = int n \<and> fa_BlockedUntil a = 0
     else mx \<le> fa_Count a \<and> fa_Count a \<le> int n)"

lemma registerFailure_seen:
  assumes "goget (al_attempts l) (authFailureKey scope remote) = Some a" "seen t0 n (al_max l) a"
    and "t0 \<noteq> 0" "time_sub t t0 \<le> al_window l" "0 < al_max l" "int n < 2 ^ 63 - 1"
  shows "fst (fst (registerFailure t scope remote l)) = (al_max l \<le> int n + 1)"
    and "\<exists>a'. goget (al_attempts (snd (registerFailure t scope remote l))) (authFailureKey scope remote) = Some a' \<and>
           seen t0 (Suc n) (al_max l) a'"
proof -
  have c: "i64 (fa_Count a + 1) = fa_Count a + 1"
    using assms(2,5,6) by (intro i64_id) (auto simp: seen_def split: if_splits)
  show "fst (fst (registerFailure t scope remote l)) = (al_max l \<le> int n + 1)"
    using assms c by (auto simp: registerFailure_def Let_def seen_def split: if_splits)
  show "\<exists>a'. goget (al_attempts (snd (registerFailure t scope remote l))) (authFailureKey scope remote) = Some a' \<and>
           seen t0 (Suc n) (al_max l) a'"
    using assms c by (auto simp: registerFailure_def Let_def seen_def split: if_splits)
qed

lemma failures_Cons:
  "fst (failures scope remote (t # ts) l) =
     fst (fst (registerFailure t scope remote l)) # fst (failures scope remote ts (snd (registerFailure t scope remote l)))"
  "snd (failures scope remote (t # ts) l) = snd (failures scope remote ts (snd (registerFailure t scope remote l)))"
  by (simp_all split: prod.split)

lemma failures_seen:
  assumes "goget (al_attempts l) (authFailureKey scope remote) = Some a" "seen t0 n (al_max l) a"
    and "t0 \<noteq> 0" "list_all (\<lambda>t. time_sub t t0 \<le> al_window l) ts" "0 < al_max l" "int (n + length ts) < 2 ^ 63"
  shows "fst (failures scope remote ts l) = map (\<lambda>i. al_max l \<le> int (n + i) + 1) [0..<length ts]"
  using assms
proof (induction ts arbitrary: l a n)
  case (Cons t ts)
  let ?l = "snd (registerFailure t scope remote l)"
  have b: "fst (fst (registerFailure t scope remote l)) = (al_max l \<le> int n + 1)"
    and ex: "\<exists>a'. goget (al_attempts ?l) (authFailureKey scope remote) = Some a' \<and> seen t0 (Suc n) (al_max l) a'"
    using registerFailure_seen [OF Cons.prems(1-3), of t] Cons.prems by auto
  from ex obtain a' where a': "goget (al_attempts ?l) (authFailureKey scope remote) = Some a'" "seen t0 (Suc n) (al_max ?l) a'"
    by auto
  have "fst (failures scope remote ts ?l) = map (\<lambda>i. al_max l \<le> int (Suc n + i) + 1) [0..<length ts]"
    using Cons.IH [OF a' Cons.prems(3)] Cons.prems by simp
  moreover have "[0..<length (t # ts)] = 0 # map Suc [0..<length ts]"
    by (simp add: upt_conv_Cons map_Suc_upt del: upt_Suc)
  ultimately show ?case
    by (simp only: failures_Cons b list.map map_map comp_def) simp
qed simp

lemma failures_other:
  "k \<noteq> authFailureKey scope remote \<Longrightarrow> goget (al_attempts (snd (failures scope remote ts l))) k = goget (al_attempts l) k"
  by (induction ts arbitrary: l) (simp_all add: failures_Cons del: failures.simps(2))

lemma registerFailure_first:
  assumes "goget (al_attempts l) (authFailureKey scope remote) = None" "t \<noteq> 0" "0 < al_max l"
  shows "fst (fst (registerFailure t scope remote l)) = (al_max l \<le> 1)"
    and "\<exists>a. goget (al_attempts (snd (registerFailure t scope remote l))) (authFailureKey scope remote) = Some a \<and>
           seen t 1 (al_max l) a"
  using assms by (auto simp: registerFailure_def Let_def seen_def i64_id)

section \<open>Gates and keys\<close>

text \<open>A keychain that answers its reads, where it is used at all.\<close>

definition steady :: "'r auth_env \<Rightarrow> 'r auth_state \<Rightarrow> bool" where
  "steady e s \<longleftrightarrow> \<not> keychain_active (at_secrets s) \<or>
    (\<forall>k. kr_get (ae_keyring e) (sx_ring (at_secrets s)) k \<noteq> Broken)"

abbreviation secret_of :: "'r auth_env \<Rightarrow> 'r auth_state \<Rightarrow> string \<Rightarrow> string" where
  "secret_of e s k \<equiv> fst (Get (ae_keyring e) k (at_secrets s))"

lemma getSecret_steady: "steady e s \<Longrightarrow> getSecret e k s = (secret_of e s k, s)"
  by (auto simp: steady_def getSecret_def Get_def split: ring_result.split)

text \<open>An enabled key whose secret is the token.\<close>

definition authenticates :: "'r auth_env \<Rightarrow> 'r auth_state \<Rightarrow> string \<Rightarrow> ClientAPIKey \<Rightarrow> bool" where
  "authenticates e s token key \<longleftrightarrow> ck_Enabled key \<and> token \<noteq> [] \<and> secret_of e s (apiKeyPrefix @ ck_ID key) = token"

lemma match_client_keys_iff:
  "steady e s \<Longrightarrow> fst (match_client_keys e keys token s) \<longleftrightarrow> list_ex (authenticates e s token) keys"
  by (induction keys) (auto simp: getSecret_steady authenticates_def)

lemma Snapshot_auth [simp]:
  "st_ClientAPIKeys (Snapshot t) = st_ClientAPIKeys (s_state t)" "st_SetupComplete (Snapshot t) = st_SetupComplete (s_state t)"
  "c_UI (st_Config (Snapshot t)) = c_UI (st_Config (s_state t))"
  "au_Enabled (c_Auth (st_Config (Snapshot t))) = au_Enabled (c_Auth (st_Config (s_state t)))"
  by (simp_all add: Snapshot_def cloneState_def jsonState_def jsonConfig_def)

lemma Snapshot_config_keys: "\<not> list_ex (\<lambda>key. ak_Key key \<noteq> [] \<and> P key) (au_APIKeys (c_Auth (st_Config (Snapshot t))))"
  by (simp add: Snapshot_def cloneState_def jsonState_def jsonConfig_def list_ex_iff)

lemma validClientAPIKey_iff:
  "steady e s \<Longrightarrow> fst (validClientAPIKey e (Snapshot (at_store s)) token s) \<longleftrightarrow>
     list_ex (authenticates e s token) (st_ClientAPIKeys (s_state (at_store s)))"
  using match_client_keys_iff [of e s "st_ClientAPIKeys (s_state (at_store s))" token]
    Snapshot_config_keys [of "\<lambda>key. ak_Key key = token" "at_store s"]
  by (auto simp: validClientAPIKey_def split: prod.split bool.split)

definition client_guarded :: "'r auth_state \<Rightarrow> bool" where
  "client_guarded s \<longleftrightarrow> st_SetupComplete (s_state (at_store s)) \<and> au_Enabled (c_Auth (st_Config (s_state (at_store s))))"

lemma client_gate_iff:
  assumes "steady e s"
  shows "fst (requireClientAPIKey js e r w s) = Pass \<longleftrightarrow>
    (client_guarded s \<longrightarrow> list_ex (authenticates e s (bearerToken r)) (st_ClientAPIKeys (s_state (at_store s))))"
  using validClientAPIKey_iff [OF assms, of "bearerToken r"]
  by (auto simp: requireClientAPIKey_def client_guarded_def Let_def split: prod.split bool.split)

lemma validAdminToken_iff:
  "fst (validAdminToken e r s) \<longleftrightarrow> bearerToken r \<noteq> [] \<and> secret_of e s adminSecretKey = bearerToken r"
  using secrets.matches_view [of "ae_keyring e" adminSecretKey "bearerToken r" "at_secrets s"]
  by (simp add: validAdminToken_def case_prod_unfold)

lemma validAdminToken_frame:
  "at_store (snd (validAdminToken e r s)) = at_store s" "at_limiter (snd (validAdminToken e r s)) = at_limiter s"
  by (simp_all add: validAdminToken_def case_prod_unfold)

lemma putClientKey_has: "key \<in> set (putClientKey key keys)"
proof -
  have "replace_first (\<lambda>k. ck_ID k = ck_ID key) (\<lambda>_. key) keys = Some ks \<Longrightarrow> key \<in> set ks" for ks
    by (induction keys arbitrary: ks) (auto split: if_splits)
  then show ?thesis by (auto simp: putClientKey_def split: option.split)
qed

lemma Upsert_has:
  assumes "ck_ID key \<noteq> []" "ck_Enabled key"
  shows "\<exists>k \<in> set (st_ClientAPIKeys (s_state (snd (UpsertClientAPIKey e key s)))). ck_ID k = ck_ID key \<and> ck_Enabled k"
proof -
  let ?k = "key\<lparr> ck_CreatedAt := (if ck_CreatedAt key = 0 then e_now e else ck_CreatedAt key), ck_Enabled := True \<rparr>"
  have "st_ClientAPIKeys (s_state (snd (UpsertClientAPIKey e key s))) = putClientKey ?k (st_ClientAPIKeys (s_state s))"
    using assms by (simp add: UpsertClientAPIKey_def Let_def orElse_def)
  then show ?thesis using putClientKey_has [of ?k "st_ClientAPIKeys (s_state s)"] by (metis (no_types) ClientAPIKey.select_convs(1,6)
    ClientAPIKey.surjective ClientAPIKey.update_convs(4,6))
qed

definition keys_path :: "string \<Rightarrow> string \<Rightarrow> string" where
  "keys_path kid action = ''/wrangler/auth/api-keys/'' @ kid @ ''/'' @ action"

lemma Split_two: "c \<notin> set a \<Longrightarrow> c \<notin> set b \<Longrightarrow> Split c (a @ c # b) = [a, b]"
proof -
  have one: "c \<notin> set b \<Longrightarrow> Split c b = [b]" for b :: string by (induction b) auto
  show "c \<notin> set a \<Longrightarrow> c \<notin> set b \<Longrightarrow> Split c (a @ c # b) = [a, b]" by (induction a) (auto simp: one)
qed

lemma keys_path_Split:
  assumes "CHR ''/'' \<notin> set kid" "CHR ''/'' \<notin> set action"
  shows "Split CHR ''/'' (TrimPrefix (keys_path kid action) ''/wrangler/auth/api-keys/'') = [kid, action]"
  using Split_two [OF assms] by (simp add: keys_path_def TrimPrefix_def HasPrefix_def)

lemma find_key: "find (\<lambda>k. ck_ID k = kid) keys = Some key \<Longrightarrow> ck_ID key = kid"
  by (auto simp: find_Some_iff)

lemma revoke_success:
  assumes "CHR ''/'' \<notin> set kid" "ky_status (clientAPIKeyAction sink hec e (keys_path kid ''revoke'') s) = 200"
  shows "Delete (ae_cipher e) (ae_keyring e) (ae_secret e) (apiKeyPrefix @ kid) (at_secrets s) =
    (None, at_secrets (ky_state (clientAPIKeyAction sink hec e (keys_path kid ''revoke'') s)))"
proof -
  have split: "Split CHR ''/'' (TrimPrefix (keys_path kid ''revoke'') ''/wrangler/auth/api-keys/'') = [kid, ''revoke'']"
    using assms(1) by (intro keys_path_Split) auto
  show ?thesis
    using assms(2)
    by (auto simp: clientAPIKeyAction_def split Let_def answered_with_def on_store_def emit_auth_def
        dest: find_key split: option.splits prod.splits)
qed

lemma rotate_success:
  assumes "CHR ''/'' \<notin> set kid" "kid \<noteq> []" "ky_status (clientAPIKeyAction sink hec e (keys_path kid ''rotate'') s) = 200"
  defines "res \<equiv> clientAPIKeyAction sink hec e (keys_path kid ''rotate'') s"
  shows "Set (ae_cipher e) (ae_keyring e) (ae_secret e) (apiKeyPrefix @ kid) (ky_token res) (at_secrets s) =
      (None, at_secrets (ky_state res))"
    and "ky_token res = ''lw_client_'' @ ae_token e"
    and "\<exists>k \<in> set (st_ClientAPIKeys (s_state (at_store (ky_state res)))). ck_ID k = kid \<and> ck_Enabled k"
proof -
  have split: "Split CHR ''/'' (TrimPrefix (keys_path kid ''rotate'') ''/wrangler/auth/api-keys/'') = [kid, ''rotate'']"
    using assms(1) by (intro keys_path_Split) auto
  from assms(3) obtain key x t where
      key: "ck_ID key = kid"
    and set: "Set (ae_cipher e) (ae_keyring e) (ae_secret e) (apiKeyPrefix @ kid) (''lw_client_'' @ ae_token e) (at_secrets s) = (None, x)"
    and up: "UpsertClientAPIKey (ae_env e) (key\<lparr> ck_Hint := tokenHint (''lw_client_'' @ ae_token e), ck_Enabled := True \<rparr>) (at_store s) = (None, t)"
    and res: "ky_token res = ''lw_client_'' @ ae_token e" "at_secrets (ky_state res) = x"
      "st_ClientAPIKeys (s_state (at_store (ky_state res))) = st_ClientAPIKeys (s_state t)"
    unfolding res_def
    by (auto simp: clientAPIKeyAction_def split Let_def answered_with_def on_store_def emit_auth_def setSecret_def newToken_def
        dest: find_key split: option.splits prod.splits)
  show "Set (ae_cipher e) (ae_keyring e) (ae_secret e) (apiKeyPrefix @ kid) (ky_token res) (at_secrets s) =
      (None, at_secrets (ky_state res))" using set res by simp
  show "ky_token res = ''lw_client_'' @ ae_token e" by (rule res)
  show "\<exists>k \<in> set (st_ClientAPIKeys (s_state (at_store (ky_state res)))). ck_ID k = kid \<and> ck_Enabled k"
    using Upsert_has [of "key\<lparr> ck_Hint := tokenHint (''lw_client_'' @ ae_token e), ck_Enabled := True \<rparr>" "ae_env e" "at_store s"]
      up key assms(2) res(3) by simp
qed

text \<open>The configuration the server continues with after creating a client key has lost its subscriber credentials, since
  it comes from a snapshot.\<close>

lemma createClientAPIKey_drops_credentials:
  assumes "ky_cfg (createClientAPIKey sink hec e name s) = Some cfg"
  shows "reg_HeartbeatCredential (c_Registration cfg) = []" "reg_EnrollmentToken (c_Registration cfg) = []"
proof -
  obtain t where "c_Registration cfg = c_Registration (st_Config (Snapshot t))"
    using assms by (auto simp: createClientAPIKey_def answered_with_def Let_def split: prod.splits option.splits)
  then show "reg_HeartbeatCredential (c_Registration cfg) = []" "reg_EnrollmentToken (c_Registration cfg) = []"
    by (simp_all add: Snapshot_def cloneState_def jsonState_def jsonConfig_def)
qed

section \<open>Properties\<close>

text \<open>The budget of failed attempts: from a client with no failures on record, of a run of failures inside one
  window exactly the first \<^verbatim>\<open>max - 1\<close> are answered without a block and every later one is blocked, also
  after the cooldown has passed; other clients and scopes are not affected.\<close>

theorem limiter_budget:
  assumes "goget (al_attempts l) (authFailureKey scope remote) = None" "0 < al_max l" "t0 \<noteq> 0"
    and "list_all (\<lambda>t. time_sub t t0 \<le> al_window l) ts" "int (length ts) < 2 ^ 62"
  shows "fst (failures scope remote (t0 # ts) l) = map (\<lambda>i. al_max l \<le> int i + 1) [0..<length (t0 # ts)] \<and>
    (\<forall>k. if k = authFailureKey scope remote then True
         else goget (al_attempts (snd (failures scope remote (t0 # ts) l))) k = goget (al_attempts l) k)"
proof -
  let ?l = "snd (registerFailure t0 scope remote l)"
  obtain a where a: "goget (al_attempts ?l) (authFailureKey scope remote) = Some a" "seen t0 1 (al_max ?l) a"
    using registerFailure_first [OF assms(1,3,2)] by auto
  have "fst (failures scope remote ts ?l) = map (\<lambda>i. al_max l \<le> int (1 + i) + 1) [0..<length ts]"
    using failures_seen [OF a assms(3), of ts] assms by simp
  moreover have "[0..<length (t0 # ts)] = 0 # map Suc [0..<length ts]"
    by (simp add: upt_conv_Cons map_Suc_upt del: upt_Suc)
  ultimately have "fst (failures scope remote (t0 # ts) l) = map (\<lambda>i. al_max l \<le> int i + 1) [0..<length (t0 # ts)]"
    using registerFailure_first(1) [OF assms(1,3,2)] by (simp only: failures_Cons list.map map_map comp_def) simp
  then show ?thesis using failures_other by (metis (no_types))
qed

text \<open>C5. The admin gate: outside of \<^verbatim>\<open>OPTIONS\<close> requests and of the time before setup or with authentication
  switched off, exactly the holder of the admin token passes, a blocked address included; a pass clears
  the failures of the address, a wrong token counts as one, a missing token does not.\<close>

theorem admin_gate:
  "let s' = snd (requireAdmin js e r w s); st = s_state (at_store s);
       guarded = (ar_method r \<noteq> ''OPTIONS'' \<and> st_SetupComplete st \<and> ui_RequireAuth (c_UI (st_Config st)));
       valid = (bearerToken r \<noteq> [] \<and> secret_of e s adminSecretKey = bearerToken r)
   in (fst (requireAdmin js e r w s) = Pass) = (if guarded then valid else True) \<and>
      at_store s' = at_store s \<and>
      at_limiter s' =
        (if \<not> guarded then at_limiter s
         else if valid then reset authScopeAdmin (ar_remote r) (at_limiter s)
         else if bearerToken r = [] then at_limiter s
         else snd (registerFailure (e_now (ae_env e)) authScopeAdmin (ar_remote r) (at_limiter s)))"
proof -
  obtain ok s1 where v: "validAdminToken e r s = (ok, s1)" by fastforce
  then have s1: "at_store s1 = at_store s" "at_limiter s1 = at_limiter s"
    "ok = (bearerToken r \<noteq> [] \<and> secret_of e s adminSecretKey = bearerToken r)"
    using validAdminToken_iff [of e r s] validAdminToken_frame [of e r s] by auto
  obtain b d l where f: "registerFailure (e_now (ae_env e)) authScopeAdmin (ar_remote r) (at_limiter s) = ((b, d), l)"
    by (metis prod.collapse)
  show ?thesis
    by (cases ok; cases b; cases "bearerToken r = []")
      (use s1 in \<open>simp_all add: requireAdmin_def failed_attempt_def Let_def v f\<close>)
qed

text \<open>C6. The client gate: once setup is complete and client authentication is on, exactly the holders of the secret
  of an enabled client key pass.\<close>

theorem client_gate:
  assumes "steady e s" "client_guarded s"
  shows "fst (requireClientAPIKey js e r w s) = Pass \<longleftrightarrow>
    list_ex (authenticates e s (bearerToken r)) (st_ClientAPIKeys (s_state (at_store s)))"
  using client_gate_iff [OF assms(1)] assms(2) by simp

text \<open>C7. Revoking and rotating a client key take effect at the gate: after a revocation that was answered with
  success no token passes by that key, and after a rotation the only token that does is the one the
  answer carries.\<close>

theorem key_action_effective:
  assumes "keyring_lawful (ae_keyring e)" "ae_keyring e' = ae_keyring e" "CHR ''/'' \<notin> set kid" "kid \<noteq> []"
    and "action = ''revoke'' \<or> action = ''rotate''"
    and "ky_status (clientAPIKeyAction sink hec e (keys_path kid action) s) = 200"
    and "steady e' (ky_state (clientAPIKeyAction sink hec e (keys_path kid action) s))"
    and "client_guarded (ky_state (clientAPIKeyAction sink hec e (keys_path kid action) s))"
  shows "let res = clientAPIKeyAction sink hec e (keys_path kid action) s; s' = ky_state res in
    fst (requireClientAPIKey js e' r w s') = Pass \<longleftrightarrow>
      (action = ''rotate'' \<and> bearerToken r = ky_token res) \<or>
      list_ex (\<lambda>key. ck_ID key \<noteq> kid \<and> authenticates e' s' (bearerToken r) key) (st_ClientAPIKeys (s_state (at_store s')))"
proof -
  define res where "res = clientAPIKeyAction sink hec e (keys_path kid action) s"
  define s' where "s' = ky_state res"
  have gate: "fst (requireClientAPIKey js e' r w s') = Pass \<longleftrightarrow>
      list_ex (authenticates e' s' (bearerToken r)) (st_ClientAPIKeys (s_state (at_store s')))"
    using client_gate_iff [of e' s' js r w] assms(7,8) by (simp add: s'_def res_def)
  have "fst (requireClientAPIKey js e' r w s') = Pass \<longleftrightarrow>
      (action = ''rotate'' \<and> bearerToken r = ky_token res) \<or>
      list_ex (\<lambda>key. ck_ID key \<noteq> kid \<and> authenticates e' s' (bearerToken r) key) (st_ClientAPIKeys (s_state (at_store s')))"
  proof (cases "action = ''revoke''")
    case True
    then have "Delete (ae_cipher e) (ae_keyring e) (ae_secret e) (apiKeyPrefix @ kid) (at_secrets s) = (None, at_secrets s')"
      using revoke_success [OF assms(3)] assms(6) by (simp add: s'_def res_def)
    from Delete_view [OF assms(1) this] have "secret_of e' s' (apiKeyPrefix @ kid) = []" using assms(2) by simp
    then have "ck_ID key \<noteq> kid" if "authenticates e' s' (bearerToken r) key" for key
      using that by (auto simp: authenticates_def)
    moreover have "action \<noteq> ''rotate''" using True by simp
    ultimately show ?thesis unfolding gate list_ex_iff by blast
  next
    case False
    then have rot: "action = ''rotate''" using assms(5) by simp
    note ok = rotate_success [OF assms(3,4) assms(6) [unfolded rot], folded res_def [unfolded rot]]
    have "secret_of e' s' (apiKeyPrefix @ kid) = ky_token res" "ky_token res \<noteq> []"
      using Set_view [OF assms(1)] ok(1,2) assms(2) by (auto simp: s'_def)
    then have "authenticates e' s' (bearerToken r) key \<longleftrightarrow> ck_Enabled key \<and> bearerToken r = ky_token res" if "ck_ID key = kid" for key
      using that by (auto simp: authenticates_def)
    then show ?thesis unfolding gate list_ex_iff using rot ok(3) [folded s'_def] by blast
  qed
  then show ?thesis by (simp add: res_def s'_def Let_def)
qed

section \<open>Concrete runs\<close>

text \<open>Witness: with a budget of three, the third failure within a minute is the first that is blocked.\<close>

theorem limiter_budget_witness:
  "fst (failures ''admin'' ''10.0.0.7:5000'' [second, 2 * second, 3 * second, 50 * second] (newAuthFailureLimiter 3 minute (30 * second))) =
     [False, False, True, True]"
proof -
  have "fst (failures ''admin'' ''10.0.0.7:5000'' (second # [2 * second, 3 * second, 50 * second]) (newAuthFailureLimiter 3 minute (30 * second))) =
      map (\<lambda>i. al_max (newAuthFailureLimiter 3 minute (30 * second)) \<le> int i + 1) [0..<length (second # [2 * second, 3 * second, 50 * second])]"
    by (rule limiter_budget [THEN conjunct1]) (simp_all add: newAuthFailureLimiter_def second_def minute_def time_sub_def)
  then show ?thesis by (simp add: newAuthFailureLimiter_def upt_rec)
qed

definition guardedState :: "(string, string) gomap auth_state" where
  "guardedState = \<lparr> at_secrets = sampleSecrets\<lparr> sx_data := [(''api_key:k1'', ''lw_client_old'')] \<rparr>,
     at_store = sampleStore\<lparr> s_state := (s_state sampleStore)\<lparr> st_SetupComplete := True,
       st_Config := (st_Config (s_state sampleStore))\<lparr> c_Auth := (c_Auth (st_Config (s_state sampleStore)))\<lparr> au_Enabled := True \<rparr> \<rparr>,
       st_ClientAPIKeys := [new_client_key ''k1'' ''ide'' ''hint''] \<rparr> \<rparr>,
     at_limiter = newAuthFailureLimiter 5 minute (30 * second) \<rparr>"

definition authEnv :: "(string, string) gomap auth_env" where
  "authEnv = \<lparr> ae_env = sampleEnv, ae_secret = secretEnv, ae_cipher = plainCipher, ae_keyring = mapRing, ae_token = ''fresh'' \<rparr>"

definition tokenRequest :: "string \<Rightarrow> auth_request" where
  "tokenRequest token = \<lparr> hr_path = ''/v1/chat/completions'',
     hr_header = (\<lambda>k. if k = ''Authorization'' then ''Bearer '' @ token else []), hr_body = [],
     ar_method = ''POST'', ar_remote = ''10.0.0.7:5000'' \<rparr>"

lemma mapRing_steady: "steady (authEnv\<lparr> ae_env := x \<rparr>) s"
  by (simp add: steady_def authEnv_def mapRing_def split: option.split)

lemma guarded_sample: "client_guarded guardedState"
  by (simp add: client_guarded_def guardedState_def)

lemma tokenRequest_token: "bearerToken (tokenRequest ''lw_client_old'') = ''lw_client_old''"
  by code_simp

lemma guarded_keys:
  "st_ClientAPIKeys (s_state (at_store guardedState)) = [new_client_key ''k1'' ''ide'' ''hint'']"
  by (simp add: guardedState_def)

lemma guarded_authenticates:
  "authenticates authEnv guardedState ''lw_client_old'' (new_client_key ''k1'' ''ide'' ''hint'')"
  by (simp add: authenticates_def guardedState_def new_client_key_def Get_def stored_def apiKeyPrefix_def authEnv_def mapRing_def
      sampleSecrets_def goget_def)

text \<open>Witness: the token of the only key passes.\<close>

theorem client_gate_witness:
  "\<exists>js w. fst (requireClientAPIKey js authEnv (tokenRequest ''lw_client_old'') w guardedState) = Pass"
  using client_gate [OF mapRing_steady [of "ae_env authEnv", simplified] guarded_sample, of _ "tokenRequest ''lw_client_old''"]
    guarded_authenticates
  by (simp add: tokenRequest_token guarded_keys)

lemma Emit_SetupComplete [simp]: "st_SetupComplete (s_state (Emit e k send ty f s)) = st_SetupComplete (s_state s)"
  by (simp add: Emit_def AddAudit_def Let_def split: bool.split option.split)

lemma Upsert_frame:
  "fst (UpsertClientAPIKey e key s) = (if e_write_ok e then None else Some WriteError)"
  "st_SetupComplete (s_state (snd (UpsertClientAPIKey e key s))) = st_SetupComplete (s_state s)"
  "st_Config (s_state (snd (UpsertClientAPIKey e key s))) = st_Config (s_state s)"
  by (simp_all add: UpsertClientAPIKey_def Let_def saveLocked_err)

abbreviation revoked :: "(string, string) gomap key_result" where
  "revoked \<equiv> clientAPIKeyAction (NewSink (Default ''marshal'')) None authEnv (keys_path ''k1'' ''revoke'') guardedState"

lemma delete_sample: "fst (Delete plainCipher mapRing secretEnv k (at_secrets guardedState)) = None"
  by (simp add: Delete_def Secrets.saveLocked_def marshalEncryptedFileLocked_def key_ok_def guardedState_def sampleSecrets_def sampleKey_def
      secretEnv_def mapRing_def keychain_active_def split: prod.split)

lemma revoke_sample:
  "ky_status revoked = 200 \<and> client_guarded (ky_state revoked) \<and>
   st_ClientAPIKeys (s_state (at_store (ky_state revoked))) =
     [(new_client_key ''k1'' ''ide'' ''hint'')\<lparr> ck_Enabled := False, ck_CreatedAt := 5 \<rparr>]"
proof -
  obtain x where x: "Delete plainCipher mapRing secretEnv (''api_key:k1'') (at_secrets guardedState) = (None, x)"
    using delete_sample by (metis prod.collapse)
  have split: "Split CHR ''/'' (TrimPrefix (keys_path ''k1'' ''revoke'') ''/wrangler/auth/api-keys/'') = [''k1'', ''revoke'']"
    by (intro keys_path_Split) auto
  let ?key = "\<lparr> ck_ID = ''k1'', ck_Name = ''ide'', ck_Hint = ''hint'', ck_CreatedAt = 0, ck_LastUsed = 0, ck_Enabled = False \<rparr>"
  obtain t where up: "UpsertClientAPIKey sampleEnv ?key (at_store guardedState) = (None, t)"
    using Upsert_frame(1) [of sampleEnv ?key "at_store guardedState"] by (cases "UpsertClientAPIKey sampleEnv ?key (at_store guardedState)")
      (simp add: sampleEnv_def)
  then have t: "t = snd (UpsertClientAPIKey sampleEnv ?key (at_store guardedState))" by simp
  have keys: "st_ClientAPIKeys (s_state t) = [?key\<lparr> ck_CreatedAt := 5 \<rparr>]"
    unfolding t by (simp add: UpsertClientAPIKey_def Let_def guarded_keys orElse_def new_client_key_def putClientKey_def
        containsClientKey_def sampleEnv_def)
  have "st_SetupComplete (s_state t) = st_SetupComplete (s_state (at_store guardedState))"
    "st_Config (s_state t) = st_Config (s_state (at_store guardedState))"
    unfolding t by (simp_all only: Upsert_frame)
  then show ?thesis
    using guarded_sample keys
    by (simp add: clientAPIKeyAction_def split Let_def guarded_keys authEnv_def x apiKeyPrefix_def on_store_def emit_auth_def answered_with_def
        new_client_key_def client_guarded_def up)
qed

text \<open>Witness: the token that passed is refused once its key is revoked.\<close>

theorem key_action_effective_witness:
  "\<exists>js w. fst (requireClientAPIKey js authEnv (tokenRequest ''lw_client_old'') w (ky_state revoked)) \<noteq> Pass"
  using key_action_effective [of authEnv authEnv "''k1''" "''revoke''" "NewSink (Default ''marshal'')" None guardedState
      _ "tokenRequest ''lw_client_old''"] revoke_sample mapRing_lawful mapRing_steady [of "ae_env authEnv" "ky_state revoked", simplified]
  by (simp add: Let_def authEnv_def [THEN arg_cong, of ae_keyring] new_client_key_def)

end
