(* ===== verification/Subscriber.thy ===== *)
theory Subscriber
  imports Auth
begin

text \<open>
  How a managed node proves who it is when it reports to the marshal: the heartbeat credential (\<^verbatim>\<open>server.go\<close> of
  \<^verbatim>\<open>internal/httpapi\<close>), kept among the secrets under a digest of the node's name.
\<close>

text \<open>The environment of the handlers for subscribers: the one of authentication, the digest, and the sink of
  the telemetry with the result of its client.\<close>

record 'r sub_env =
  be_auth :: "'r auth_env"
  be_sha :: "string \<Rightarrow> string"
  be_sink :: Sink
  be_hec :: "string option"

abbreviation be_now :: "'r sub_env \<Rightarrow> gotime" where
  "be_now e \<equiv> e_now (ae_env (be_auth e))"

definition emit_sub :: "'r sub_env \<Rightarrow> string \<Rightarrow> gobj \<Rightarrow> 'r auth_state \<Rightarrow> 'r auth_state" where
  "emit_sub e = emit_auth (be_sink e) (be_auth e) (be_hec e)"

definition subscriberHeartbeatSecretKey :: "(string \<Rightarrow> string) \<Rightarrow> string \<Rightarrow> string" where
  "subscriberHeartbeatSecretKey sha nodeID = ''subscriber_heartbeat:'' @ sha (TrimSpace nodeID)"

definition subscriberHeartbeatToken :: "auth_request \<Rightarrow> string" where
  "subscriberHeartbeatToken r =
    (let token = TrimSpace (hr_header r ''X-Llama-Wrangler-Subscriber-Token'');
         auth = TrimSpace (hr_header r ''Authorization'') in
     if token \<noteq> [] then token
     else if HasPrefix (ToLower auth) ''bearer '' then TrimSpace (drop 7 auth)
     else [])"

text \<open>The error code of a refusal, which is answered with 401; \<^term>\<open>None\<close> lets the request on.\<close>

definition verifySubscriberHeartbeatCredential :: "'r sub_env \<Rightarrow> auth_request \<Rightarrow> Node \<Rightarrow> 'r auth_state
    \<Rightarrow> string option \<times> 'r auth_state" where
  "verifySubscriberHeartbeatCredential e r node s0 =
    (case getSecret (be_auth e) (subscriberHeartbeatSecretKey (be_sha e) (n_NodeID node)) s0 of
       (kept, s) \<Rightarrow>
        (let refused = (\<lambda>reason code. (Some code, emit_sub e ''managed_node_heartbeat_auth_failed''
               [(''node_id'', GStr (n_NodeID node)), (''reason'', GStr reason),
                (''control_level'', GStr (n_ControlLevel node)), (''approval_state'', GStr (n_ApprovalState node))] s)) in
         if kept = [] then
           (if field (n_Observed node) ''heartbeat_auth_method'' = GStr ''shared_secret''
            then refused ''credential_unavailable'' ''subscriber_heartbeat_auth_unavailable''
            else (None, s))
         else
           let provided = subscriberHeartbeatToken r in
           if provided = [] \<or> provided \<noteq> kept
           then refused ''invalid_or_missing_credential'' ''subscriber_heartbeat_auth_required''
           else (None, s)))"

datatype rotate_error = NotManaged | RotateFailed secret_error

definition rotateSubscriberHeartbeatCredential :: "'r sub_env \<Rightarrow> Node \<Rightarrow> string \<Rightarrow> 'r auth_state
    \<Rightarrow> (rotate_error + Node \<times> string) \<times> 'r auth_state" where
  "rotateSubscriberHeartbeatCredential e node source s =
    (if n_ControlLevel node \<noteq> [] \<and> n_ControlLevel node \<noteq> ControlLevelManaged then (Inl NotManaged, s)
     else
       let credential = newToken ''lw_hb_'' (ae_token (be_auth e)) in
       case setSecret (be_auth e) (subscriberHeartbeatSecretKey (be_sha e) (n_NodeID node)) credential s of
         (Some err, s) \<Rightarrow> (Inl (RotateFailed err), s)
       | (None, s) \<Rightarrow>
          (Inr (node\<lparr> n_Observed := fold (\<lambda>(k, v). goput k v)
             [(''heartbeat_auth_method'', GStr ''shared_secret''), (''heartbeat_auth_required'', GBool True),
              (''heartbeat_token_hint'', GStr (tokenHint credential)),
              (''heartbeat_credential_derivation'', GStr ''random_shared_secret_v1''),
              (''heartbeat_credential_provisioned_at'', GTime (be_now e)),
              (''heartbeat_credential_provisioned_by'', GStr source), (''heartbeat_identity_verified'', GBool False),
              (''heartbeat_reprovisioning_required'', GBool True)] (n_Observed node) \<rparr>, credential), s))"

section \<open>Lemmas\<close>

definition credential_of :: "'r sub_env \<Rightarrow> string \<Rightarrow> 'r auth_state \<Rightarrow> string" where
  "credential_of e nodeID s = secret_of (be_auth e) s (subscriberHeartbeatSecretKey (be_sha e) nodeID)"

lemma emit_sub_secrets [simp]: "at_secrets (emit_sub e ty fs s) = at_secrets s"
  by (simp add: emit_sub_def emit_auth_def)

lemma verify_accepts:
  "fst (verifySubscriberHeartbeatCredential e r node s) = None \<longleftrightarrow>
     (if credential_of e (n_NodeID node) s = []
      then field (n_Observed node) ''heartbeat_auth_method'' \<noteq> GStr ''shared_secret''
      else subscriberHeartbeatToken r = credential_of e (n_NodeID node) s)"
  by (auto simp: verifySubscriberHeartbeatCredential_def credential_of_def getSecret_def Let_def split: prod.split)

lemma verify_store:
  "fst (verifySubscriberHeartbeatCredential e r node s) = None \<Longrightarrow>
     at_store (snd (verifySubscriberHeartbeatCredential e r node s)) = at_store s"
  by (auto simp: verifySubscriberHeartbeatCredential_def getSecret_def Let_def split: prod.splits if_splits)

lemma rotate_credential:
  assumes "keyring_lawful (ae_keyring (be_auth e))"
    and "rotateSubscriberHeartbeatCredential e node source s = (Inr (node', credential), s')"
  shows "credential_of e (n_NodeID node') s' = credential" "credential \<noteq> []"
proof -
  have c: "credential = ''lw_hb_'' @ ae_token (be_auth e)" and n: "n_NodeID node' = n_NodeID node"
    and set: "Set (ae_cipher (be_auth e)) (ae_keyring (be_auth e)) (ae_secret (be_auth e))
      (subscriberHeartbeatSecretKey (be_sha e) (n_NodeID node)) credential (at_secrets s) = (None, at_secrets s')"
    using assms(2) by (auto simp: rotateSubscriberHeartbeatCredential_def Let_def newToken_def setSecret_def
        split: if_splits prod.splits option.splits)
  show "credential_of e (n_NodeID node') s' = credential"
    using Set_view [OF assms(1) set] c n by (simp add: credential_of_def)
  show "credential \<noteq> []" using c by simp
qed

text \<open>C13. Who may report for a managed node: a node with a credential on file is heard only with it, a node that was given
  one which is gone from the secrets is not heard at all, and after a rotation the new credential and no other is
  accepted for the node.\<close>

theorem heartbeat_identity:
  assumes "keyring_lawful (ae_keyring (be_auth e))"
    and "rotateSubscriberHeartbeatCredential e node source s = (Inr (node', credential), s')"
  shows "(fst (verifySubscriberHeartbeatCredential e r node s) = None) =
      (if credential_of e (n_NodeID node) s = []
       then field (n_Observed node) ''heartbeat_auth_method'' \<noteq> GStr ''shared_secret''
       else subscriberHeartbeatToken r = credential_of e (n_NodeID node) s) \<and>
    (fst (verifySubscriberHeartbeatCredential e r node' s') = None) = (subscriberHeartbeatToken r = credential)"
  using rotate_credential [OF assms] verify_accepts [of e r node s] verify_accepts [of e r node' s'] by simp

section \<open>A concrete rotation\<close>

definition subEnv :: "(string, string) gomap sub_env" where
  "subEnv = \<lparr> be_auth = authEnv, be_sha = (\<lambda>t. t), be_sink = NewSink (Default ''marshal''), be_hec = None \<rparr>"

lemma set_guarded: "fst (Set plainCipher mapRing secretEnv k v (at_secrets guardedState)) = None"
  by (simp add: Set_def Secrets.saveLocked_def marshalEncryptedFileLocked_def key_ok_def guardedState_def sampleSecrets_def
      sampleKey_def secretEnv_def mapRing_def keychain_active_def split: prod.split)

lemma rotate_sample:
  "\<exists>node' s'. rotateSubscriberHeartbeatCredential subEnv zeroNode ''operator'' guardedState = (Inr (node', ''lw_hb_fresh''), s')"
proof -
  obtain x where "Set plainCipher mapRing secretEnv ''subscriber_heartbeat:'' ''lw_hb_fresh'' (at_secrets guardedState) = (None, x)"
    using set_guarded by (metis prod.collapse)
  then show ?thesis
    by (simp add: rotateSubscriberHeartbeatCredential_def subEnv_def authEnv_def newToken_def zeroNode_def setSecret_def
        subscriberHeartbeatSecretKey_def TrimSpace_def trim_by_def Let_def)
qed

definition reportRequest :: "string \<Rightarrow> auth_request" where
  "reportRequest token = \<lparr> hr_path = ''/subscriber/heartbeat'',
     hr_header = (\<lambda>k. if k = ''X-Llama-Wrangler-Subscriber-Token'' then token else []), hr_body = [],
     ar_method = ''POST'', ar_remote = ''10.0.0.7:5000'' \<rparr>"

text \<open>Witness: the new credential is accepted, another one is not.\<close>

theorem heartbeat_identity_witness:
  "\<exists>node' s'. rotateSubscriberHeartbeatCredential subEnv zeroNode ''operator'' guardedState = (Inr (node', ''lw_hb_fresh''), s') \<and>
     fst (verifySubscriberHeartbeatCredential subEnv (reportRequest ''lw_hb_fresh'') node' s') = None \<and>
     fst (verifySubscriberHeartbeatCredential subEnv (reportRequest ''stolen'') node' s') \<noteq> None"
proof -
  obtain node' s' where r: "rotateSubscriberHeartbeatCredential subEnv zeroNode ''operator'' guardedState = (Inr (node', ''lw_hb_fresh''), s')"
    using rotate_sample by blast
  have t: "subscriberHeartbeatToken (reportRequest ''lw_hb_fresh'') = ''lw_hb_fresh''"
    "subscriberHeartbeatToken (reportRequest ''stolen'') = ''stolen''" by code_simp+
  have k: "keyring_lawful (ae_keyring (be_auth subEnv))" using mapRing_lawful by (simp add: subEnv_def authEnv_def)
  have "fst (verifySubscriberHeartbeatCredential subEnv (reportRequest ''lw_hb_fresh'') node' s') = None"
    "fst (verifySubscriberHeartbeatCredential subEnv (reportRequest ''stolen'') node' s') \<noteq> None"
    using heartbeat_identity [OF k r, of "reportRequest ''lw_hb_fresh''"] heartbeat_identity [OF k r, of "reportRequest ''stolen''"] t
    by simp_all
  with r show ?thesis by blast
qed

end
