(* ===== verification/BenchmarkJobs.thy ===== *)
theory BenchmarkJobs
  imports Subscriber
begin

text \<open>
  \<^verbatim>\<open>benchmark_jobs.go\<close> and \<^verbatim>\<open>benchmark_results.go\<close> of \<^verbatim>\<open>internal/httpapi\<close>: the benchmark jobs of a managed node, kept in its observed
  data as a list of dynamically typed maps, newest first. A subscriber claims a job for a lease, reports on it, and
  delivers its result; the marshal takes back what has run out of time and hands failed jobs out again, a bounded
  number of times.
\<close>

section \<open>Reading a job\<close>

definition maxBenchmarkJobs :: nat where "maxBenchmarkJobs = 8"
definition maxBenchmarkResults :: nat where "maxBenchmarkResults = 8"

definition benchmarkJobInt :: "gval \<Rightarrow> int \<Rightarrow> int" where
  "benchmarkJobInt v fallback = (case v of GInt n \<Rightarrow> n | GFloat q \<Rightarrow> rat_trunc q | _ \<Rightarrow> fallback)"

definition benchmarkJobString :: "gval \<Rightarrow> string" where
  "benchmarkJobString v = TrimSpace (as_string v)"

definition benchmarkJobTime :: "gval \<Rightarrow> gotime option" where
  "benchmarkJobTime v = as_time v"

text \<open>The copies that \<^verbatim>\<open>cloneBenchmarkJob\<close> makes are the values themselves.\<close>

definition benchmarkJobs :: "gval \<Rightarrow> gobj list" where
  "benchmarkJobs existing = as_maps existing"

definition job_list :: "Node \<Rightarrow> gobj list" where
  "job_list node = benchmarkJobs (field (n_Observed node) ''benchmark_jobs'')"

definition benchmarkJobDue :: "gobj \<Rightarrow> gotime \<Rightarrow> bool" where
  "benchmarkJobDue job now \<longleftrightarrow>
    (case benchmarkJobTime (field job ''next_attempt_at'') of None \<Rightarrow> True | Some t \<Rightarrow> t \<le> now)"

definition job_policy :: "string \<Rightarrow> int \<Rightarrow> int \<Rightarrow> int \<Rightarrow> BenchmarkSchedulerConfig" where
  "job_policy policy attempts lease delay = NormalizeBenchmarkSchedulerConfig
     \<lparr> bs_Policy = policy, bs_MaxAttempts = attempts, bs_LeaseTimeoutSeconds = lease, bs_RetryDelaySeconds = delay,
       bs_BackgroundEnabled = False, bs_TickIntervalSeconds = 0 \<rparr>"

definition benchmarkJobLeaseTimeout :: "gobj \<Rightarrow> BenchmarkSchedulerConfig \<Rightarrow> duration" where
  "benchmarkJobLeaseTimeout job p =
    bs_LeaseTimeoutSeconds (job_policy PolicyBoundedRetryTimeout (bs_MaxAttempts p)
      (benchmarkJobInt (field job ''lease_timeout_seconds'') (bs_LeaseTimeoutSeconds p)) (bs_RetryDelaySeconds p)) * second"

definition benchmarkJobRetryDelay :: "gobj \<Rightarrow> BenchmarkSchedulerConfig \<Rightarrow> duration" where
  "benchmarkJobRetryDelay job p =
    bs_RetryDelaySeconds (job_policy PolicyBoundedRetryTimeout (bs_MaxAttempts p) (bs_LeaseTimeoutSeconds p)
      (benchmarkJobInt (field job ''retry_delay_seconds'') (bs_RetryDelaySeconds p))) * second"

section \<open>Changing a job\<close>

definition puts :: "(string \<times> gval) list \<Rightarrow> gobj \<Rightarrow> gobj" where
  "puts kvs job = fold (\<lambda>(k, v). goput k v) kvs job"

text \<open>The steps of \<^verbatim>\<open>ensureBenchmarkJobSchedulerDefaults\<close>.\<close>

definition named_policy :: "BenchmarkSchedulerConfig \<Rightarrow> gobj \<Rightarrow> gobj" where
  "named_policy p job =
    (if benchmarkJobString (field job ''scheduler_policy'') = []
     then goput ''scheduler_policy'' (GStr (bs_Policy p)) job else job)"

definition bounded_limits :: "BenchmarkSchedulerConfig \<Rightarrow> gobj \<Rightarrow> gobj" where
  "bounded_limits p job =
    (let q = job_policy (benchmarkJobString (field job ''scheduler_policy''))
               (benchmarkJobInt (field job ''max_attempts'') (bs_MaxAttempts p))
               (benchmarkJobInt (field job ''lease_timeout_seconds'') (bs_LeaseTimeoutSeconds p))
               (benchmarkJobInt (field job ''retry_delay_seconds'') (bs_RetryDelaySeconds p))
     in puts [(''scheduler_policy'', GStr (bs_Policy q)), (''max_attempts'', GInt (bs_MaxAttempts q)),
          (''lease_timeout_seconds'', GInt (bs_LeaseTimeoutSeconds q)),
          (''retry_delay_seconds'', GInt (bs_RetryDelaySeconds q))] job)"

definition named_state :: "gobj \<Rightarrow> gobj" where
  "named_state job =
    (if benchmarkJobString (field job ''scheduler_state'') = []
     then goput ''scheduler_state'' (GStr (benchmarkJobString (field job ''status''))) job else job)"

definition due_time :: "gotime \<Rightarrow> gobj \<Rightarrow> gobj" where
  "due_time now job =
    (if benchmarkJobTime (field job ''next_attempt_at'') = None \<and> benchmarkJobString (field job ''status'') = ''queued''
     then goput ''next_attempt_at'' (GTime now) job else job)"

definition ensureBenchmarkJobSchedulerDefaults :: "gotime \<Rightarrow> BenchmarkSchedulerConfig \<Rightarrow> gobj \<Rightarrow> gobj" where
  "ensureBenchmarkJobSchedulerDefaults now p0 job =
    (let p = NormalizeBenchmarkSchedulerConfig p0
     in due_time now (named_state (bounded_limits p (named_policy p job))))"

text \<open>Whether the job will be tried again, and the job.\<close>

definition scheduleBenchmarkJobRetry :: "gotime \<Rightarrow> string \<Rightarrow> BenchmarkSchedulerConfig \<Rightarrow> gobj \<Rightarrow> bool \<times> gobj" where
  "scheduleBenchmarkJobRetry now reason p job0 =
    (let job = ensureBenchmarkJobSchedulerDefaults now p job0;
         attempt = benchmarkJobInt (field job ''attempt'') 0;
         maxAttempts = benchmarkJobInt (field job ''max_attempts'') (bs_MaxAttempts p);
         job = puts [(''updated_at'', GTime now), (''scheduler_policy'', GStr PolicyBoundedRetryTimeout)] job
     in if attempt < maxAttempts then
          let job = puts [(''status'', GStr ''failed''), (''scheduler_state'', GStr ''retry_wait''),
                (''scheduler_reason'', GStr reason)] job in
          (True, puts [(''next_attempt_at'', GTime (now + benchmarkJobRetryDelay job p)),
             (''retry_delay_seconds'', GInt (benchmarkJobInt (field job ''retry_delay_seconds'') (bs_RetryDelaySeconds p)))] job)
        else
          (False, godelete ''next_attempt_at'' (puts [(''status'', GStr ''failed''), (''scheduler_state'', GStr ''exhausted''),
             (''scheduler_reason'', GStr ''max_attempts_exhausted''), (''completed_at'', GTime now)] job)))"

record benchmarkSchedulerRun =
  sr_Changed :: bool
  sr_TimedOut :: int
  sr_Retried :: int
  sr_Exhausted :: int

definition noRun :: benchmarkSchedulerRun where
  "noRun = \<lparr> sr_Changed = False, sr_TimedOut = 0, sr_Retried = 0, sr_Exhausted = 0 \<rparr>"

text \<open>The body of the loop of \<^verbatim>\<open>reconcileBenchmarkJobsForNode\<close>, for one job.\<close>

definition with_timeout :: "gotime \<Rightarrow> BenchmarkSchedulerConfig \<Rightarrow> gobj \<Rightarrow> gotime \<times> bool \<times> gobj" where
  "with_timeout now p job =
    (case benchmarkJobTime (field job ''timeout_at'') of
       Some t \<Rightarrow> (t, False, job)
     | None \<Rightarrow>
        (let t = (case benchmarkJobTime (field job ''claimed_at'') of
                    Some c \<Rightarrow> c + benchmarkJobLeaseTimeout job p | None \<Rightarrow> now)
         in (t, True, puts [(''timeout_at'', GTime t), (''lease_timeout_seconds'',
               GInt (benchmarkJobInt (field job ''lease_timeout_seconds'') (bs_LeaseTimeoutSeconds p)))] job)))"

definition reconcile_job :: "gotime \<Rightarrow> string \<Rightarrow> BenchmarkSchedulerConfig \<Rightarrow> benchmarkSchedulerRun \<Rightarrow> gobj
    \<Rightarrow> benchmarkSchedulerRun \<times> gobj" where
  "reconcile_job now reason p run job0 =
    (let status = as_string (field job0 ''status'') in
     if status = ''running'' then
       (let (timeoutAt, changed, job) = with_timeout now p job0;
            run = run\<lparr> sr_Changed := sr_Changed run \<or> changed \<rparr> in
        if timeoutAt \<le> now then
          (let job = puts [(''timed_out_at'', GTime now), (''error_code'', GStr ''benchmark_timeout'')] job;
               run = run\<lparr> sr_TimedOut := sr_TimedOut run + 1, sr_Changed := True \<rparr> in
           case scheduleBenchmarkJobRetry now ''retry_after_timeout'' p job of
             (True, job) \<Rightarrow> (run\<lparr> sr_Retried := sr_Retried run + 1 \<rparr>, job)
           | (False, job) \<Rightarrow> (run\<lparr> sr_Exhausted := sr_Exhausted run + 1 \<rparr>, job))
        else (run, job))
     else if status = ''failed'' then
       (if as_string (field job0 ''scheduler_state'') = ''retry_wait'' \<and> benchmarkJobDue job0 now then
          (run\<lparr> sr_Retried := sr_Retried run + 1, sr_Changed := True \<rparr>,
           puts [(''status'', GStr ''queued''), (''updated_at'', GTime now), (''scheduler_state'', GStr ''queued''),
             (''scheduler_reason'', GStr ''retry_ready''), (''last_reconciled_reason'', GStr reason)] job0)
        else (run, job0))
     else if status = ''queued'' then (run, ensureBenchmarkJobSchedulerDefaults now p job0)
     else (run, job0))"

fun reconcile_jobs :: "gotime \<Rightarrow> string \<Rightarrow> BenchmarkSchedulerConfig \<Rightarrow> benchmarkSchedulerRun \<Rightarrow> gobj list
    \<Rightarrow> benchmarkSchedulerRun \<times> gobj list" where
  "reconcile_jobs now reason p run [] = (run, [])"
| "reconcile_jobs now reason p run (job # jobs) =
    (let (run, job) = reconcile_job now reason p run job; (run, jobs) = reconcile_jobs now reason p run jobs in (run, job # jobs))"

definition observe :: "(string \<times> gval) list \<Rightarrow> Node \<Rightarrow> Node" where
  "observe kvs node = node\<lparr> n_Observed := puts kvs (n_Observed node) \<rparr>"

definition reconcileBenchmarkJobsForNode :: "gotime \<Rightarrow> string \<Rightarrow> BenchmarkSchedulerConfig \<Rightarrow> Node \<Rightarrow> benchmarkSchedulerRun \<times> Node" where
  "reconcileBenchmarkJobsForNode now reason p0 node =
    (let p = NormalizeBenchmarkSchedulerConfig p0; jobs = job_list node in
     if jobs = [] then (noRun, node)
     else
       let (run, jobs) = reconcile_jobs now reason p noRun jobs in
       (run, if sr_Changed run then
               observe [(''benchmark_jobs'', GMaps jobs), (''benchmark_updated_at'', GTime now),
                 (''benchmark_status'', field (hd jobs) ''status''), (''benchmark_id'', field (hd jobs) ''benchmark_id'')] node
             else node))"

definition nextQueuedBenchmarkJob :: "Node \<Rightarrow> gotime \<Rightarrow> gobj option" where
  "nextQueuedBenchmarkJob node now =
    find (\<lambda>job. as_string (field job ''status'') = ''queued'' \<and> benchmarkJobDue job now) (job_list node)"

definition findBenchmarkJob :: "Node \<Rightarrow> string \<Rightarrow> gobj option" where
  "findBenchmarkJob node benchmarkID = find (\<lambda>job. as_string (field job ''benchmark_id'') = benchmarkID) (job_list node)"

definition upsertBenchmarkJob :: "gval \<Rightarrow> gobj \<Rightarrow> gobj list" where
  "upsertBenchmarkJob existing job =
    (let i = as_string (field job ''benchmark_id'') in
     take maxBenchmarkJobs (job # filter (\<lambda>c. \<not> (i \<noteq> [] \<and> as_string (field c ''benchmark_id'') = i)) (benchmarkJobs existing)))"

definition put_job :: "gobj \<Rightarrow> Node \<Rightarrow> Node" where
  "put_job job node = observe [(''benchmark_jobs'', GMaps (upsertBenchmarkJob (field (n_Observed node) ''benchmark_jobs'') job))] node"

section \<open>Cleaning what subscribers send\<close>

definition redaction_markers :: "string list" where
  "redaction_markers = [''lw_hb_'', ''lw_enroll_'', ''lw_admin_'', ''lw_client_'', ''authorization'', ''secret_prompt'',
     ''secret_response'', ''sk-'']"

definition safeBenchmarkString :: "string \<Rightarrow> string" where
  "safeBenchmarkString v =
    (let v = take 160 (TrimSpace v) in
     if list_ex (Contains (ToLower v)) redaction_markers then ''[redacted]'' else v)"

definition safeBenchmarkStatus :: "string \<Rightarrow> string" where
  "safeBenchmarkStatus st =
    (if TrimSpace st \<in> {''queued'', ''running'', ''completed'', ''failed'', ''cancelled'', ''reported'', ''probe_ok'', ''probe_failed''}
     then TrimSpace st else ''reported'')"

definition benchmarkJobStatusAllowed :: "string \<Rightarrow> bool" where
  "benchmarkJobStatusAllowed st \<longleftrightarrow> st \<in> {''queued'', ''running'', ''completed'', ''failed'', ''cancelled''}"

definition defaultString :: "string \<Rightarrow> string \<Rightarrow> string" where
  "defaultString v fallback = (if TrimSpace v = [] then fallback else TrimSpace v)"

definition nonNegativeInt :: "int \<Rightarrow> int" where
  "nonNegativeInt v = (if v < 0 then 0 else v)"

definition nonNegativeFloat :: "rat \<Rightarrow> rat" where
  "nonNegativeFloat v = (if v < 0 then 0 else v)"

definition reference_char :: "char \<Rightarrow> bool" where
  "reference_char c \<longleftrightarrow> is_letter c \<or> is_digit c \<or> c \<in> set ''._-''"

definition safeFixtureReference :: "string \<Rightarrow> string" where
  "safeFixtureReference v = trim_by (\<lambda>c. c \<in> set ''.-_'') (filter reference_char (take 80 (TrimSpace (safeBenchmarkString v))))"

text \<open>The loop of \<^verbatim>\<open>benchmarkModelCandidates\<close>.\<close>

fun model_candidates :: "string list \<Rightarrow> ModelState list \<Rightarrow> string list" where
  "model_candidates out [] = out"
| "model_candidates out (m # ms) =
    (let name = safeBenchmarkString (ms_Name m) in
     if name = [] \<or> name \<in> set out then model_candidates out ms
     else if 8 \<le> length (out @ [name]) then out @ [name]
     else model_candidates (out @ [name]) ms)"

definition benchmarkModelCandidates :: "Node \<Rightarrow> string list" where
  "benchmarkModelCandidates node = model_candidates [] (n_Models node)"

section \<open>Creating a job, and its result\<close>

definition createManagedBenchmarkJob :: "gotime \<Rightarrow> string \<Rightarrow> string \<Rightarrow> gobj \<Rightarrow> BenchmarkSchedulerConfig \<Rightarrow> Node \<Rightarrow> gobj \<times> Node" where
  "createManagedBenchmarkJob now random mode workloadSuite p0 node =
    (let p = NormalizeBenchmarkSchedulerConfig p0;
         benchmarkID = ''bench_'' @ random;
         job = [(''benchmark_id'', GStr benchmarkID), (''node_id'', GStr (n_NodeID node)),
           (''type'', GStr ''managed_node_metadata_benchmark''), (''source'', GStr CapabilitySourceSubscriberReported),
           (''mode'', GStr mode), (''status'', GStr ''queued''), (''requested_at'', GTime now), (''updated_at'', GTime now),
           (''next_attempt_at'', GTime now), (''attempt'', GInt 0), (''max_attempts'', GInt (bs_MaxAttempts p)),
           (''lease_timeout_seconds'', GInt (bs_LeaseTimeoutSeconds p)), (''retry_delay_seconds'', GInt (bs_RetryDelaySeconds p)),
           (''scheduler_policy'', GStr (bs_Policy p)), (''scheduler_state'', GStr ''queued''), (''scheduler_reason'', GStr ''created''),
           (''model_candidates'', GStrs (benchmarkModelCandidates node)), (''workload_suite'', GMap workloadSuite),
           (''result_endpoint'', GStr ''/subscriber/benchmarks''), (''status_endpoint'', GStr ''/subscriber/benchmarks/status'')];
         node = observe [(''benchmark_status'', GStr ''queued''), (''benchmark_id'', GStr benchmarkID), (''benchmark_mode'', GStr mode),
           (''benchmark_policy'', GStr ''managed_subscriber_reported''), (''benchmark_workload_suite'', GMap workloadSuite),
           (''benchmark_updated_at'', GTime now)] (node\<lparr> n_BenchmarkSource := CapabilitySourceSubscriberReported \<rparr>)
     in (job, put_job job node))"

definition result_keys :: "string list" where
  "result_keys = [''model'', ''duration_ms'', ''input_tokens'', ''generated_tokens'', ''tokens_per_second'', ''error_code'', ''suite_id'',
     ''task_count'', ''fixture_manifest_id'', ''runner_mode'']"

definition finish_job :: "gotime \<Rightarrow> gobj \<Rightarrow> gobj \<Rightarrow> gobj" where
  "finish_job now result job =
    (let status0 = as_string (field result ''status'');
         status = (if status0 = [] \<or> status0 = ''reported'' then ''completed'' else status0);
         job = puts [(''status'', GStr status), (''updated_at'', GTime now), (''completed_at'', field result ''completed_at''),
           (''result_status'', GStr status), (''scheduler_state'', GStr ''terminal''), (''scheduler_reason'', GStr ''result_ingested'')] job
     in fold (\<lambda>k job. case goget result k of None \<Rightarrow> job | Some v \<Rightarrow> goput k v job) result_keys job)"

definition completeBenchmarkJobWithResult :: "gotime \<Rightarrow> gobj \<Rightarrow> Node \<Rightarrow> Node" where
  "completeBenchmarkJobWithResult now result node =
    (let benchmarkID = as_string (field result ''benchmark_id'') in
     if benchmarkID = [] then node
     else case findBenchmarkJob node benchmarkID of
       None \<Rightarrow> node
     | Some job \<Rightarrow> put_job (finish_job now result job) node)"

record subscriberBenchmarkResultRequest =
  rr_NodeID :: string
  rr_BenchmarkID :: string
  rr_Model :: string
  rr_Status :: string
  rr_StartedAt :: gotime
  rr_CompletedAt :: gotime
  rr_DurationMS :: int
  rr_InputTokens :: int
  rr_GeneratedTokens :: int
  rr_TokensPerSecond :: rat
  rr_OutputTokensPerSecond :: rat
  rr_PrefillTokensPerSecond :: rat
  rr_ErrorCode :: string
  rr_SuiteID :: string
  rr_TaskCount :: int
  rr_FixtureManifestID :: string
  rr_RunnerMode :: string

definition benchmarkResultMap :: "gotime \<Rightarrow> string \<Rightarrow> subscriberBenchmarkResultRequest \<Rightarrow> string \<Rightarrow> string \<Rightarrow> gobj" where
  "benchmarkResultMap now random body source mode =
    [(''benchmark_id'', GStr (safeBenchmarkString (defaultString (rr_BenchmarkID body) (''bench_'' @ random)))),
     (''source'', GStr source), (''mode'', GStr mode), (''model'', GStr (safeBenchmarkString (rr_Model body))),
     (''status'', GStr (safeBenchmarkStatus (rr_Status body))),
     (''completed_at'', GTime (if rr_CompletedAt body = 0 then now else rr_CompletedAt body)),
     (''duration_ms'', GInt (nonNegativeInt (rr_DurationMS body))), (''input_tokens'', GInt (nonNegativeInt (rr_InputTokens body))),
     (''generated_tokens'', GInt (nonNegativeInt (rr_GeneratedTokens body))),
     (''tokens_per_second'', GFloat (nonNegativeFloat (rr_TokensPerSecond body))),
     (''output_tokens_per_second'', GFloat (nonNegativeFloat (rr_OutputTokensPerSecond body))),
     (''prefill_tokens_per_second'', GFloat (nonNegativeFloat (rr_PrefillTokensPerSecond body)))] @
    (if rr_StartedAt body \<noteq> 0 then [(''started_at'', GTime (rr_StartedAt body))] else []) @
    (if rr_ErrorCode body \<noteq> [] then [(''error_code'', GStr (safeBenchmarkString (rr_ErrorCode body)))] else []) @
    (if safeBenchmarkString (rr_SuiteID body) \<noteq> [] then [(''suite_id'', GStr (safeBenchmarkString (rr_SuiteID body)))] else []) @
    (if 0 < rr_TaskCount body then [(''task_count'', GInt (nonNegativeInt (rr_TaskCount body)))] else []) @
    (if safeFixtureReference (rr_FixtureManifestID body) \<noteq> []
     then [(''fixture_manifest_id'', GStr (safeFixtureReference (rr_FixtureManifestID body)))] else []) @
    (if safeBenchmarkString (rr_RunnerMode body) \<noteq> [] then [(''runner_mode'', GStr (safeBenchmarkString (rr_RunnerMode body)))] else [])"

definition appendBenchmarkResult :: "gval \<Rightarrow> gobj \<Rightarrow> gobj list" where
  "appendBenchmarkResult existing result = take maxBenchmarkResults (result # as_maps existing)"

definition applyBenchmarkResult :: "gotime \<Rightarrow> gobj \<Rightarrow> string \<Rightarrow> Node \<Rightarrow> Node" where
  "applyBenchmarkResult now result source node =
    observe [(''benchmark_status'', field result ''status''), (''benchmark_source'', GStr source),
      (''benchmark_last_result'', GMap result), (''benchmark_updated_at'', GTime now),
      (''benchmark_results'', GMaps (appendBenchmarkResult (field (n_Observed node) ''benchmark_results'') result))]
      (node\<lparr> n_BenchmarkSource := source \<rparr>)"

definition updateModelBenchmarkRate :: "string \<Rightarrow> rat \<Rightarrow> Node \<Rightarrow> Node" where
  "updateModelBenchmarkRate model rate node =
    (if model = [] \<or> rate \<le> 0 then node
     else node\<lparr> n_Models := (case replace_first (\<lambda>m. ms_Name m = model) (\<lambda>m. m\<lparr> ms_TokensSec := rate \<rparr>) (n_Models node) of
       Some ms \<Rightarrow> ms
     | None \<Rightarrow> n_Models node @ [\<lparr> ms_Name = model, ms_State = ''installed'', ms_KeepWarm = False, ms_TokensSec = rate, ms_LoadTimeMS = 0 \<rparr>]) \<rparr>)"

section \<open>The handlers\<close>

record subscriberBenchmarkJobRequest =
  jq_NodeID :: string
  jq_BenchmarkID :: string
  jq_Status :: string
  jq_ErrorCode :: string

text \<open>The status of the answer and the job or result it carries.\<close>

record 'r job_result =
  jr_status :: int
  jr_job :: "gobj option"
  jr_state :: "'r auth_state"

definition job_answer :: "int \<Rightarrow> gobj option \<Rightarrow> 'r auth_state \<Rightarrow> 'r job_result" where
  "job_answer st job s = \<lparr> jr_status = st, jr_job = job, jr_state = s \<rparr>"

definition benchmarkSchedulerConfig :: "'r auth_state \<Rightarrow> BenchmarkSchedulerConfig" where
  "benchmarkSchedulerConfig s =
    NormalizeBenchmarkSchedulerConfig (cap_BenchmarkScheduler (c_Capabilities (st_Config (Snapshot (at_store s)))))"

definition upsert :: "'r sub_env \<Rightarrow> Node \<Rightarrow> 'r auth_state \<Rightarrow> store_error option \<times> 'r auth_state" where
  "upsert e node = on_store (UpsertNode (ae_env (be_auth e)) node)"

definition node_of :: "'r auth_state \<Rightarrow> string \<Rightarrow> Node" where
  "node_of s i = (case goget (st_Nodes (Snapshot (at_store s))) i of None \<Rightarrow> zeroNode | Some n \<Rightarrow> n)"

text \<open>What the handlers of subscribers begin with: the node exists, is managed, and the request has its credential. The other
  outcomes are statuses.\<close>

definition reporting_node :: "'r sub_env \<Rightarrow> auth_request \<Rightarrow> string \<Rightarrow> 'r auth_state \<Rightarrow> (int + Node) \<times> 'r auth_state" where
  "reporting_node e r nodeID s =
    (case goget (st_Nodes (Snapshot (at_store s))) nodeID of
       None \<Rightarrow> (Inl 404, s)
     | Some node \<Rightarrow>
        if n_ControlLevel node \<noteq> [] \<and> n_ControlLevel node \<noteq> ControlLevelManaged then (Inl 400, s)
        else case verifySubscriberHeartbeatCredential e r node s of
          (Some code, s) \<Rightarrow> (Inl 401, s)
        | (None, s) \<Rightarrow> (Inr node, s))"

definition node_event :: "Node \<Rightarrow> gobj" where
  "node_event n = [(''node_id'', GStr (n_NodeID n)), (''control_level'', GStr (n_ControlLevel n)),
     (''trust_level'', GStr (n_TrustLevel n)), (''approval_state'', GStr (n_ApprovalState n))]"

definition claim_job :: "gotime \<Rightarrow> BenchmarkSchedulerConfig \<Rightarrow> gobj \<Rightarrow> gobj" where
  "claim_job now p job0 =
    (let job = puts [(''status'', GStr ''running''), (''attempt'', GInt (i64 (benchmarkJobInt (field job0 ''attempt'') 0 + 1))),
           (''claimed_at'', GTime now), (''updated_at'', GTime now)] job0;
         job = puts [(''timeout_at'', GTime (now + benchmarkJobLeaseTimeout job p)),
           (''scheduler_policy'', GStr PolicyBoundedRetryTimeout), (''scheduler_state'', GStr ''running''),
           (''scheduler_reason'', GStr ''claimed''),
           (''lease_timeout_seconds'', GInt (benchmarkJobInt (field job ''lease_timeout_seconds'') (bs_LeaseTimeoutSeconds p))),
           (''retry_delay_seconds'', GInt (benchmarkJobInt (field job ''retry_delay_seconds'') (bs_RetryDelaySeconds p))),
           (''max_attempts'', GInt (benchmarkJobInt (field job ''max_attempts'') (bs_MaxAttempts p)))] job
     in godelete ''next_attempt_at'' (godelete ''timed_out_at'' (godelete ''failed_at'' (godelete ''completed_at'' job))))"

definition with_reporter :: "'r sub_env \<Rightarrow> auth_request \<Rightarrow> string \<Rightarrow> (Node \<Rightarrow> 'r auth_state \<Rightarrow> 'r job_result) \<Rightarrow> 'r auth_state
    \<Rightarrow> 'r job_result" where
  "with_reporter e r nodeID k s =
    (case reporting_node e r nodeID s of
       (Inl st, s) \<Rightarrow> job_answer st None s
     | (Inr node, s) \<Rightarrow> k node s)"

definition claiming :: "'r sub_env \<Rightarrow> Node \<Rightarrow> 'r auth_state \<Rightarrow> 'r job_result" where
  "claiming e node s =
    (let now = be_now e; p = benchmarkSchedulerConfig s;
         (run, node) = reconcileBenchmarkJobsForNode now ''subscriber_claim'' p node in
     case (if sr_Changed run then upsert e node s else (None, s)) of
       (Some err, s) \<Rightarrow> job_answer 500 None s
     | (None, s) \<Rightarrow>
        (case nextQueuedBenchmarkJob node now of
           None \<Rightarrow> job_answer 200 None s
         | Some job0 \<Rightarrow>
            (let job = claim_job now p job0;
                 node = put_job job (observe [(''benchmark_status'', GStr ''running''), (''benchmark_id'', field job ''benchmark_id''),
                   (''benchmark_updated_at'', GTime now)] node) in
             case upsert e node s of
               (Some err, s) \<Rightarrow> job_answer 500 None s
             | (None, s) \<Rightarrow>
                job_answer 200 (Some job) (emit_sub e ''benchmark_job_claimed''
                  (node_event (node_of s (n_NodeID node)) @ [(''benchmark_id'', field job ''benchmark_id''),
                    (''status'', field job ''status''), (''attempt'', field job ''attempt''),
                    (''max_attempts'', field job ''max_attempts''), (''scheduler'', field job ''scheduler_policy'')]) s))))"

definition subscriberBenchmarkJobClaim :: "'r sub_env \<Rightarrow> auth_request \<Rightarrow> subscriberBenchmarkJobRequest option \<Rightarrow> 'r auth_state
    \<Rightarrow> 'r job_result" where
  "subscriberBenchmarkJobClaim e r body s =
    (case body of
       None \<Rightarrow> job_answer 400 None s
     | Some b \<Rightarrow>
        if TrimSpace (jq_NodeID b) = [] then job_answer 400 None s
        else with_reporter e r (TrimSpace (jq_NodeID b)) (claiming e) s)"

definition report_job :: "gotime \<Rightarrow> BenchmarkSchedulerConfig \<Rightarrow> string \<Rightarrow> string \<Rightarrow> gobj \<Rightarrow> gobj" where
  "report_job now p st errorCode job0 =
    (let job = puts [(''status'', GStr st), (''updated_at'', GTime now)] job0;
         job = (if errorCode \<noteq> [] then goput ''error_code'' (GStr (safeBenchmarkString errorCode)) job else job) in
     if st = ''running'' then
       (let job = puts [(''scheduler_state'', GStr ''running''), (''scheduler_reason'', GStr ''subscriber_status'')] job in
        if benchmarkJobTime (field job ''timeout_at'') = None
        then goput ''timeout_at'' (GTime (now + benchmarkJobLeaseTimeout job p)) job else job)
     else if st = ''failed'' then
       (let job = (if errorCode = [] then goput ''error_code'' (GStr ''subscriber_reported_failed'') job else job) in
        snd (scheduleBenchmarkJobRetry now ''retry_after_failure'' p (goput ''failed_at'' (GTime now) job)))
     else if st = ''cancelled'' \<or> st = ''completed'' then
       puts [(''scheduler_state'', GStr ''terminal''), (''scheduler_reason'', GStr st), (''completed_at'', GTime now)] job
     else job)"

definition reporting :: "'r sub_env \<Rightarrow> string \<Rightarrow> string \<Rightarrow> string \<Rightarrow> Node \<Rightarrow> 'r auth_state \<Rightarrow> 'r job_result" where
  "reporting e benchmarkID st errorCode node s =
    (case findBenchmarkJob node benchmarkID of
       None \<Rightarrow> job_answer 404 None s
     | Some job0 \<Rightarrow>
        (let now = be_now e; p = benchmarkSchedulerConfig s;
             job = report_job now p st errorCode job0;
             node = put_job job (observe [(''benchmark_status'', GStr st), (''benchmark_id'', GStr benchmarkID),
               (''benchmark_updated_at'', GTime now)] node) in
         case upsert e node s of
           (Some err, s) \<Rightarrow> job_answer 500 None s
         | (None, s) \<Rightarrow>
            job_answer 200 (Some job) (emit_sub e ''benchmark_job_status''
              (node_event (node_of s (n_NodeID node)) @ [(''benchmark_id'', GStr benchmarkID), (''status'', GStr st),
                (''error_code'', field job ''error_code''), (''attempt'', field job ''attempt''),
                (''max_attempts'', field job ''max_attempts''), (''scheduler'', field job ''scheduler_policy''),
                (''scheduler_state'', field job ''scheduler_state'')]) s)))"

definition subscriberBenchmarkJobStatus :: "'r sub_env \<Rightarrow> auth_request \<Rightarrow> subscriberBenchmarkJobRequest option \<Rightarrow> 'r auth_state
    \<Rightarrow> 'r job_result" where
  "subscriberBenchmarkJobStatus e r body s =
    (case body of
       None \<Rightarrow> job_answer 400 None s
     | Some b \<Rightarrow>
        (let nodeID = TrimSpace (jq_NodeID b); benchmarkID = safeBenchmarkString (jq_BenchmarkID b);
             st = safeBenchmarkStatus (jq_Status b) in
         if nodeID = [] \<or> benchmarkID = [] then job_answer 400 None s
         else if \<not> benchmarkJobStatusAllowed st then job_answer 400 None s
         else with_reporter e r nodeID (reporting e benchmarkID st (jq_ErrorCode b)) s))"

definition delivering :: "'r sub_env \<Rightarrow> subscriberBenchmarkResultRequest \<Rightarrow> Node \<Rightarrow> 'r auth_state \<Rightarrow> 'r job_result" where
  "delivering e b node s =
    (let now = be_now e;
         result = benchmarkResultMap now (e_random (ae_env (be_auth e))) b CapabilitySourceSubscriberReported ''subscriber_reported'';
         node = completeBenchmarkJobWithResult now result (applyBenchmarkResult now result CapabilitySourceSubscriberReported node);
         node = (if 0 < rr_TokensPerSecond b
                 then updateModelBenchmarkRate (safeBenchmarkString (rr_Model b)) (rr_TokensPerSecond b) node else node) in
     case upsert e node s of
       (Some err, s) \<Rightarrow> job_answer 500 None s
     | (None, s) \<Rightarrow>
        job_answer 200 (Some result) (emit_sub e ''benchmark_result_ingested''
          (node_event (node_of s (n_NodeID node)) @ [(''benchmark_source'', GStr CapabilitySourceSubscriberReported),
            (''benchmark_status'', field result ''status''), (''model'', field result ''model'')]) s))"

definition subscriberBenchmarkResult :: "'r sub_env \<Rightarrow> auth_request \<Rightarrow> subscriberBenchmarkResultRequest option \<Rightarrow> 'r auth_state
    \<Rightarrow> 'r job_result" where
  "subscriberBenchmarkResult e r body s =
    (case body of
       None \<Rightarrow> job_answer 400 None s
     | Some b \<Rightarrow>
        if TrimSpace (rr_NodeID b) = [] then job_answer 400 None s
        else with_reporter e r (TrimSpace (rr_NodeID b)) (delivering e b) s)"

text \<open>The loop of \<^verbatim>\<open>reconcileBenchmarkJobs\<close>, over the nodes of the snapshot.\<close>

fun reconcile_nodes :: "'r sub_env \<Rightarrow> string \<Rightarrow> BenchmarkSchedulerConfig \<Rightarrow> Node list \<Rightarrow> benchmarkSchedulerRun \<Rightarrow> 'r auth_state
    \<Rightarrow> benchmarkSchedulerRun \<times> 'r auth_state" where
  "reconcile_nodes e reason p [] acc s = (acc, s)"
| "reconcile_nodes e reason p (node # nodes) acc s =
    (if n_ControlLevel node \<noteq> [] \<and> n_ControlLevel node \<noteq> ControlLevelManaged then reconcile_nodes e reason p nodes acc s
     else case reconcileBenchmarkJobsForNode (be_now e) reason p node of
       (run, node) \<Rightarrow>
         if \<not> sr_Changed run then reconcile_nodes e reason p nodes acc s
         else case upsert e node s of
           (Some err, s) \<Rightarrow> reconcile_nodes e reason p nodes acc s
         | (None, s) \<Rightarrow>
            reconcile_nodes e reason p nodes
              \<lparr> sr_Changed = True, sr_TimedOut = sr_TimedOut acc + sr_TimedOut run, sr_Retried = sr_Retried acc + sr_Retried run,
                sr_Exhausted = sr_Exhausted acc + sr_Exhausted run \<rparr>
              (emit_sub e ''benchmark_scheduler_reconcile'' [(''node_id'', GStr (n_NodeID node)), (''timed_out'', GInt (sr_TimedOut run)),
                 (''retried'', GInt (sr_Retried run)), (''exhausted'', GInt (sr_Exhausted run)), (''reason'', GStr reason),
                 (''scheduler'', GStr PolicyBoundedRetryTimeout)] s))"

definition reconcileBenchmarkJobs :: "'r sub_env \<Rightarrow> string \<Rightarrow> 'r auth_state \<Rightarrow> benchmarkSchedulerRun \<times> 'r auth_state" where
  "reconcileBenchmarkJobs e reason s =
    reconcile_nodes e reason (benchmarkSchedulerConfig s) (map snd (st_Nodes (Snapshot (at_store s)))) noRun s"

section \<open>The abstract job\<close>

text \<open>What a job is about: whether it is waiting for a subscriber, with one, waiting for another attempt, or closed; the attempts
  made, and how many there may be.\<close>

datatype phase = Open_job | Leased | Backoff | Closed

record abstract_job =
  aj_phase :: phase
  aj_attempt :: int
  aj_max :: int

definition phase_of :: "gobj \<Rightarrow> phase" where
  "phase_of job =
    (let st = as_string (field job ''status'') in
     if st = ''queued'' then Open_job else if st = ''running'' then Leased
     else if st = ''failed'' \<and> as_string (field job ''scheduler_state'') = ''retry_wait'' then Backoff else Closed)"

definition abs_job :: "gobj \<Rightarrow> abstract_job" where
  "abs_job job = \<lparr> aj_phase = phase_of job, aj_attempt = benchmarkJobInt (field job ''attempt'') 0,
     aj_max = benchmarkJobInt (field job ''max_attempts'') 0 \<rparr>"

definition a_claim :: "abstract_job \<Rightarrow> abstract_job" where
  "a_claim a = a\<lparr> aj_phase := Leased, aj_attempt := aj_attempt a + 1 \<rparr>"

definition a_fail :: "abstract_job \<Rightarrow> abstract_job" where
  "a_fail a = a\<lparr> aj_phase := (if aj_attempt a < aj_max a then Backoff else Closed) \<rparr>"

definition a_report :: "string \<Rightarrow> abstract_job \<Rightarrow> abstract_job" where
  "a_report st a =
    (if st = ''queued'' then a\<lparr> aj_phase := Open_job \<rparr>
     else if st = ''running'' then a\<lparr> aj_phase := Leased \<rparr>
     else if st = ''failed'' then a_fail a
     else a\<lparr> aj_phase := Closed \<rparr>)"

text \<open>A job as the program writes it: texts and numbers where they belong. A number that was copied through JSON is a float.\<close>

definition number :: "gval \<Rightarrow> int \<Rightarrow> bool" where
  "number v n \<longleftrightarrow> v = GInt n \<or> v = GFloat (of_int n)"

definition job_ok :: "gobj \<Rightarrow> bool" where
  "job_ok job \<longleftrightarrow>
    (\<exists>st. field job ''status'' = GStr st) \<and>
    (\<exists>ss. field job ''scheduler_state'' = GStr ss) \<and>
    (\<exists>a. number (field job ''attempt'') a \<and> 0 \<le> a \<and> a < 2 ^ 62) \<and>
    (\<exists>m. number (field job ''max_attempts'') m \<and> 1 \<le> m \<and> m \<le> 10)"

lemma number_int: "number v n \<Longrightarrow> benchmarkJobInt v d = n"
  by (auto simp: number_def benchmarkJobInt_def)

lemma benchmarkJobInt_GInt [simp]: "benchmarkJobInt (GInt n) d = n"
  by (simp add: benchmarkJobInt_def)

lemma number_json: "number v n \<Longrightarrow> number (json_val v) n"
  by (auto simp: number_def)

lemma job_ok_json: "job_ok job \<Longrightarrow> job_ok (json_obj job)"
  unfolding job_ok_def field_json_obj using number_json by fastforce

lemma abs_json: "job_ok job \<Longrightarrow> abs_job (json_obj job) = abs_job job"
  unfolding job_ok_def abs_job_def phase_of_def by (auto simp: number_def benchmarkJobInt_def as_string_def)

lemma field_puts: "field (puts kvs job) k = (case map_of (rev kvs) k of None \<Rightarrow> field job k | Some v \<Rightarrow> v)"
  unfolding puts_def
  by (induction kvs arbitrary: job) (auto simp: map_add_def split: option.splits)

lemma job_policy_attempts: "1 \<le> m \<Longrightarrow> m \<le> 10 \<Longrightarrow> bs_MaxAttempts (job_policy pol m l d) = m"
  by (simp add: job_policy_def NormalizeBenchmarkSchedulerConfig_def Let_def boundedInt_id)

text \<open>What an operation does to the four fields that matter decides what it does to the abstract job.\<close>

definition core :: "gobj \<Rightarrow> gval \<times> gval \<times> gval \<times> gval" where
  "core job = (field job ''status'', field job ''scheduler_state'', field job ''attempt'', field job ''max_attempts'')"

lemma core_abs: "core job = core job' \<Longrightarrow> abs_job job = abs_job job' \<and> job_ok job = job_ok job'"
  by (simp add: core_def abs_job_def phase_of_def job_ok_def Let_def)

lemma job_okE:
  assumes "job_ok job"
  obtains st ss a m where "field job ''status'' = GStr st" "field job ''scheduler_state'' = GStr ss"
    "number (field job ''attempt'') a" "0 \<le> a" "a < 2 ^ 62" "number (field job ''max_attempts'') m" "1 \<le> m" "m \<le> 10"
    "abs_job job = \<lparr> aj_phase = phase_of job, aj_attempt = a, aj_max = m \<rparr>"
  using assms unfolding job_ok_def by (auto simp: abs_job_def number_int intro: that)

lemma named_policy_field: "k \<noteq> ''scheduler_policy'' \<Longrightarrow> field (named_policy p job) k = field job k"
  by (simp add: named_policy_def)

lemma bounded_limits_field:
  "field (bounded_limits p job) ''status'' = field job ''status''"
  "field (bounded_limits p job) ''scheduler_state'' = field job ''scheduler_state''"
  "field (bounded_limits p job) ''attempt'' = field job ''attempt''"
  "number (field job ''max_attempts'') m \<Longrightarrow> 1 \<le> m \<Longrightarrow> m \<le> 10 \<Longrightarrow> field (bounded_limits p job) ''max_attempts'' = GInt m"
  by (simp_all add: bounded_limits_def Let_def field_puts number_int job_policy_attempts)

lemma named_state_field:
  "k \<noteq> ''scheduler_state'' \<Longrightarrow> field (named_state job) k = field job k"
  "field (named_state job) ''scheduler_state'' =
    (if benchmarkJobString (field job ''scheduler_state'') = [] then GStr (benchmarkJobString (field job ''status''))
     else field job ''scheduler_state'')"
  by (simp_all add: named_state_def)

lemma due_time_field: "k \<noteq> ''next_attempt_at'' \<Longrightarrow> field (due_time now job) k = field job k"
  by (simp add: due_time_def)

lemma ensure_core:
  assumes "number (field job ''max_attempts'') m" "1 \<le> m" "m \<le> 10"
  shows "core (ensureBenchmarkJobSchedulerDefaults now p job) =
    (field job ''status'',
     if benchmarkJobString (field job ''scheduler_state'') = [] then GStr (benchmarkJobString (field job ''status''))
     else field job ''scheduler_state'',
     field job ''attempt'', GInt m)"
proof -
  have "field (named_policy (NormalizeBenchmarkSchedulerConfig p) job) k = field job k" if "k \<noteq> ''scheduler_policy''" for k
    using that by (rule named_policy_field)
  then show ?thesis
    using assms by (simp add: core_def ensureBenchmarkJobSchedulerDefaults_def Let_def due_time_field named_state_field bounded_limits_field)
qed

lemma TrimSpace_words: "TrimSpace ''retry_wait'' = ''retry_wait''" "TrimSpace ''failed'' = ''failed''"
  by (simp_all add: TrimSpace_def trim_by_def is_space_def)

lemma ensure_abs:
  assumes "job_ok job"
  shows "abs_job (ensureBenchmarkJobSchedulerDefaults now p job) = abs_job job"
    and "job_ok (ensureBenchmarkJobSchedulerDefaults now p job)"
proof -
  obtain st ss a m where f: "field job ''status'' = GStr st" "field job ''scheduler_state'' = GStr ss"
    "number (field job ''attempt'') a" "0 \<le> a" "a < 2 ^ 62" "number (field job ''max_attempts'') m" "1 \<le> m" "m \<le> 10"
    using assms by (rule job_okE)
  note c = ensure_core [OF f(6-8), of now p, unfolded core_def prod.inject]
  show "abs_job (ensureBenchmarkJobSchedulerDefaults now p job) = abs_job job"
    using c f by (auto simp: abs_job_def phase_of_def Let_def as_string_def benchmarkJobString_def number_int
        TrimSpace_words)
  show "job_ok (ensureBenchmarkJobSchedulerDefaults now p job)"
    using c f by (auto simp: job_ok_def number_def)
qed

lemma retry_core:
  assumes "number (field job ''max_attempts'') m" "1 \<le> m" "m \<le> 10" "number (field job ''attempt'') a"
  shows "fst (scheduleBenchmarkJobRetry now reason p job) = (a < m)"
    and "core (snd (scheduleBenchmarkJobRetry now reason p job)) =
      (GStr ''failed'', GStr (if a < m then ''retry_wait'' else ''exhausted''), field job ''attempt'', GInt m)"
proof -
  note c = ensure_core [OF assms(1-3), of now p, unfolded core_def prod.inject]
  show "fst (scheduleBenchmarkJobRetry now reason p job) = (a < m)"
    using c assms(4) by (simp add: scheduleBenchmarkJobRetry_def Let_def number_int)
  show "core (snd (scheduleBenchmarkJobRetry now reason p job)) =
      (GStr ''failed'', GStr (if a < m then ''retry_wait'' else ''exhausted''), field job ''attempt'', GInt m)"
    using c assms(4)
    by (auto simp: scheduleBenchmarkJobRetry_def Let_def number_int core_def field_puts)
qed

lemma retry_abs:
  assumes "job_ok job"
  shows "abs_job (snd (scheduleBenchmarkJobRetry now reason p job)) = a_fail (abs_job job)"
    and "job_ok (snd (scheduleBenchmarkJobRetry now reason p job))"
    and "fst (scheduleBenchmarkJobRetry now reason p job) = (aj_attempt (abs_job job) < aj_max (abs_job job))"
proof -
  obtain st ss a m where f: "field job ''status'' = GStr st" "field job ''scheduler_state'' = GStr ss"
    "number (field job ''attempt'') a" "0 \<le> a" "a < 2 ^ 62" "number (field job ''max_attempts'') m" "1 \<le> m" "m \<le> 10"
    "abs_job job = \<lparr> aj_phase = phase_of job, aj_attempt = a, aj_max = m \<rparr>"
    using assms by (rule job_okE)
  note c = retry_core(2) [OF f(6-8,3), of now reason p, unfolded core_def prod.inject]
  show "abs_job (snd (scheduleBenchmarkJobRetry now reason p job)) = a_fail (abs_job job)"
    using c f by (simp add: abs_job_def phase_of_def Let_def as_string_def a_fail_def number_int)
  show "job_ok (snd (scheduleBenchmarkJobRetry now reason p job))"
    using c f by (auto simp: job_ok_def number_def)
  show "fst (scheduleBenchmarkJobRetry now reason p job) = (aj_attempt (abs_job job) < aj_max (abs_job job))"
    using retry_core(1) [OF f(6-8,3)] f(9) by simp
qed

lemma claim_core:
  assumes "number (field job ''max_attempts'') m" "number (field job ''attempt'') a" "0 \<le> a" "a < 2 ^ 62"
  shows "core (claim_job now p job) = (GStr ''running'', GStr ''running'', GInt (a + 1), GInt m)"
proof -
  have "i64 (a + 1) = a + 1" using assms(3,4) by (intro i64_id) simp_all
  then show ?thesis using assms(1,2) by (simp add: core_def claim_job_def Let_def field_puts number_int)
qed

lemma claim_abs:
  assumes "job_ok job"
  shows "abs_job (claim_job now p job) = a_claim (abs_job job)"
    and "aj_attempt (abs_job job) + 1 < 2 ^ 62 \<Longrightarrow> job_ok (claim_job now p job)"
proof -
  obtain st ss a m where f: "number (field job ''attempt'') a" "0 \<le> a" "a < 2 ^ 62" "number (field job ''max_attempts'') m"
      "1 \<le> m" "m \<le> 10" "abs_job job = \<lparr> aj_phase = phase_of job, aj_attempt = a, aj_max = m \<rparr>"
    using assms by (rule job_okE)
  note c = claim_core [OF f(4,1-3), of now p, unfolded core_def prod.inject]
  show "abs_job (claim_job now p job) = a_claim (abs_job job)"
    using c f(7) by (simp add: abs_job_def phase_of_def Let_def as_string_def a_claim_def)
  show "job_ok (claim_job now p job)" if "aj_attempt (abs_job job) + 1 < 2 ^ 62"
    using c f that by (simp add: job_ok_def number_def)
qed

lemma with_timeout_core: "with_timeout now p job = (t, changed, job') \<Longrightarrow> core job' = core job"
  by (auto simp: with_timeout_def Let_def core_def field_puts split: option.splits)

definition expired :: "gotime \<Rightarrow> BenchmarkSchedulerConfig \<Rightarrow> gobj \<Rightarrow> bool" where
  "expired now p job \<longleftrightarrow> fst (with_timeout now p job) \<le> now"

definition a_reconcile :: "bool \<Rightarrow> bool \<Rightarrow> abstract_job \<Rightarrow> abstract_job" where
  "a_reconcile late due a =
    (if aj_phase a = Leased \<and> late then a_fail a
     else if aj_phase a = Backoff \<and> due then a\<lparr> aj_phase := Open_job \<rparr>
     else a)"

lemma phase_running [simp]: "as_string (field job ''status'') = ''running'' \<Longrightarrow> phase_of job = Leased"
  and phase_queued [simp]: "as_string (field job ''status'') = ''queued'' \<Longrightarrow> phase_of job = Open_job"
  by (simp_all add: phase_of_def Let_def)

lemma phase_leased: "phase_of job = Leased \<longleftrightarrow> as_string (field job ''status'') = ''running''"
  by (simp add: phase_of_def Let_def)

lemma phase_failed: "as_string (field job ''status'') = ''failed'' \<Longrightarrow>
    phase_of job = (if as_string (field job ''scheduler_state'') = ''retry_wait'' then Backoff else Closed)"
  by (simp add: phase_of_def Let_def)

lemma phase_other:
  "as_string (field job ''status'') \<noteq> ''running'' \<Longrightarrow> as_string (field job ''status'') \<noteq> ''queued'' \<Longrightarrow>
   as_string (field job ''status'') \<noteq> ''failed'' \<Longrightarrow> phase_of job = Closed"
  by (simp add: phase_of_def Let_def)

text \<open>The four ways through the reconciliation of a job.\<close>

lemma reconcile_job_cases:
  obtains (late) t c job' where "as_string (field job ''status'') = ''running''" "with_timeout now p job = (t, c, job')" "t \<le> now"
      "snd (reconcile_job now reason p run job) = snd (scheduleBenchmarkJobRetry now ''retry_after_timeout'' p
         (puts [(''timed_out_at'', GTime now), (''error_code'', GStr ''benchmark_timeout'')] job'))"
      "sr_Changed (fst (reconcile_job now reason p run job))"
  | (leased) t c job' where "as_string (field job ''status'') = ''running''" "with_timeout now p job = (t, c, job')" "now < t"
      "reconcile_job now reason p run job = (run\<lparr> sr_Changed := sr_Changed run \<or> c \<rparr>, job')"
  | (again) "as_string (field job ''status'') = ''failed''" "as_string (field job ''scheduler_state'') = ''retry_wait''"
      "benchmarkJobDue job now" "sr_Changed (fst (reconcile_job now reason p run job))"
      "snd (reconcile_job now reason p run job) = puts [(''status'', GStr ''queued''), (''updated_at'', GTime now),
         (''scheduler_state'', GStr ''queued''), (''scheduler_reason'', GStr ''retry_ready''), (''last_reconciled_reason'', GStr reason)] job"
  | (queued) "as_string (field job ''status'') = ''queued''"
      "reconcile_job now reason p run job = (run, ensureBenchmarkJobSchedulerDefaults now p job)"
  | (rest) "as_string (field job ''status'') \<noteq> ''running''" "as_string (field job ''status'') \<noteq> ''queued''"
      "\<not> (as_string (field job ''status'') = ''failed'' \<and> as_string (field job ''scheduler_state'') = ''retry_wait'' \<and> benchmarkJobDue job now)"
      "reconcile_job now reason p run job = (run, job)"
proof -
  obtain t c job' where w: "with_timeout now p job = (t, c, job')" by (cases "with_timeout now p job")
  consider "as_string (field job ''status'') = ''running''" "t \<le> now" | "as_string (field job ''status'') = ''running''" "now < t"
    | "as_string (field job ''status'') = ''failed''" "as_string (field job ''scheduler_state'') = ''retry_wait''" "benchmarkJobDue job now"
    | "as_string (field job ''status'') = ''queued''"
    | "as_string (field job ''status'') \<noteq> ''running''" "as_string (field job ''status'') \<noteq> ''queued''"
      "\<not> (as_string (field job ''status'') = ''failed'' \<and> as_string (field job ''scheduler_state'') = ''retry_wait'' \<and> benchmarkJobDue job now)"
    by force
  then show ?thesis
  proof cases
    case 1
    then show ?thesis using w by (intro late) (auto simp: reconcile_job_def Let_def split: prod.split bool.split)
  next
    case 2
    then show ?thesis using w by (intro leased) (auto simp: reconcile_job_def Let_def)
  next
    case 3
    then show ?thesis by (intro again) (auto simp: reconcile_job_def Let_def)
  next
    case 4
    then show ?thesis by (intro queued) (auto simp: reconcile_job_def Let_def)
  next
    case 5
    then show ?thesis by (intro rest) (auto simp: reconcile_job_def Let_def)
  qed
qed

lemma core_timed_out: "core (puts [(''timed_out_at'', v), (''error_code'', w)] job) = core job"
  by (simp add: core_def field_puts)

lemma core_status: "as_string (field job ''status'') = as_string (fst (core job))"
  by (simp add: core_def)

lemma reconcile_abs:
  assumes "job_ok job"
  shows "abs_job (snd (reconcile_job now reason p run job)) =
      a_reconcile (expired now p job) (benchmarkJobDue job now) (abs_job job)"
    and "job_ok (snd (reconcile_job now reason p run job))"
proof -
  have "abs_job (snd (reconcile_job now reason p run job)) =
      a_reconcile (expired now p job) (benchmarkJobDue job now) (abs_job job) \<and> job_ok (snd (reconcile_job now reason p run job))"
  proof (cases rule: reconcile_job_cases [of job now p reason run])
    case (late t c job')
    let ?j = "puts [(''timed_out_at'', GTime now), (''error_code'', GStr ''benchmark_timeout'')] job'"
    have "abs_job ?j = abs_job job" "job_ok ?j = job_ok job"
      using core_abs [of ?j job] with_timeout_core [OF late(2)] core_timed_out by simp_all
    then show ?thesis
      using late retry_abs [of ?j now "''retry_after_timeout''" p] assms by (simp add: a_reconcile_def expired_def abs_job_def)
  next
    case (leased t c job')
    then show ?thesis
      using core_abs [OF with_timeout_core [OF leased(2)]] assms by (simp add: a_reconcile_def expired_def) (simp add: abs_job_def)
  next
    case again
    then show ?thesis
      using assms by (auto simp: a_reconcile_def abs_job_def phase_failed field_puts as_string_def job_ok_def)
  next
    case queued
    then show ?thesis
      using ensure_abs [OF assms, of now p] by (simp add: a_reconcile_def) (simp add: abs_job_def)
  next
    case rest
    then show ?thesis
      using assms by (cases "as_string (field job ''status'') = ''failed''")
        (auto simp: a_reconcile_def abs_job_def phase_failed phase_other)
  qed
  then show "abs_job (snd (reconcile_job now reason p run job)) =
      a_reconcile (expired now p job) (benchmarkJobDue job now) (abs_job job)" "job_ok (snd (reconcile_job now reason p run job))"
    by simp_all
qed

lemma report_abs:
  assumes "job_ok job" "benchmarkJobStatusAllowed st"
  shows "abs_job (report_job now p st errorCode job) = a_report st (abs_job job)"
    and "job_ok (report_job now p st errorCode job)"
proof -
  obtain st0 ss a m where f: "field job ''status'' = GStr st0" "field job ''scheduler_state'' = GStr ss"
    "number (field job ''attempt'') a" "0 \<le> a" "a < 2 ^ 62" "number (field job ''max_attempts'') m" "1 \<le> m" "m \<le> 10"
    "abs_job job = \<lparr> aj_phase = phase_of job, aj_attempt = a, aj_max = m \<rparr>"
    using assms(1) by (rule job_okE)
  have failed: "abs_job (report_job now p ''failed'' errorCode job) = a_fail (abs_job job) \<and> job_ok (report_job now p ''failed'' errorCode job)"
  proof -
    obtain j where j: "report_job now p ''failed'' errorCode job = snd (scheduleBenchmarkJobRetry now ''retry_after_failure'' p j)"
        "core j = (GStr ''failed'', field job ''scheduler_state'', field job ''attempt'', field job ''max_attempts'')"
      by (rule that, unfold report_job_def Let_def, simp only: if_False if_True list.inject char.inject simp_thms refl)
        (simp_all add: core_def field_puts)
    then have c: "field j ''status'' = GStr ''failed''" "field j ''scheduler_state'' = GStr ss"
      "field j ''attempt'' = field job ''attempt''" "field j ''max_attempts'' = field job ''max_attempts''"
      using f(2) by (simp_all add: core_def)
    then have "job_ok j" using f by (auto simp: job_ok_def)
    moreover have "a_fail (abs_job j) = a_fail (abs_job job)" using c by (simp add: abs_job_def a_fail_def)
    ultimately show ?thesis using retry_abs j(1) by simp
  qed
  have "core (report_job now p st errorCode job) =
     (GStr st, if st = ''running'' then GStr ''running'' else if st = ''queued'' then field job ''scheduler_state'' else GStr ''terminal'',
      field job ''attempt'', field job ''max_attempts'')" if "st \<noteq> ''failed''"
    using that assms(2) by (auto simp: report_job_def Let_def core_def field_puts benchmarkJobStatusAllowed_def)
  then have other: "abs_job (report_job now p st errorCode job) = a_report st (abs_job job) \<and> job_ok (report_job now p st errorCode job)"
    if "st \<noteq> ''failed''"
    using that f assms by (auto simp: core_def abs_job_def a_report_def phase_of_def Let_def as_string_def job_ok_def benchmarkJobStatusAllowed_def)
  show "abs_job (report_job now p st errorCode job) = a_report st (abs_job job)" "job_ok (report_job now p st errorCode job)"
    using failed other by (cases "st = ''failed''"; simp add: a_report_def)+
qed

definition a_finish :: "string \<Rightarrow> abstract_job \<Rightarrow> abstract_job" where
  "a_finish st a = a\<lparr> aj_phase := (if st = ''queued'' then Open_job else if st = ''running'' then Leased else Closed) \<rparr>"

lemma copy_keys_field:
  "k \<notin> set keys \<Longrightarrow> field (fold (\<lambda>k job. case goget result k of None \<Rightarrow> job | Some v \<Rightarrow> goput k v job) keys job) k = field job k"
  by (induction keys arbitrary: job) (auto split: option.split)

lemma finish_fields:
  fixes result :: gobj
  defines "st0 \<equiv> as_string (field result ''status'')"
  shows "field (finish_job now result job) ''status'' = GStr (if st0 = [] \<or> st0 = ''reported'' then ''completed'' else st0)"
    "field (finish_job now result job) ''scheduler_state'' = GStr ''terminal''"
    "field (finish_job now result job) ''attempt'' = field job ''attempt''"
    "field (finish_job now result job) ''max_attempts'' = field job ''max_attempts''"
  unfolding st0_def
  by (simp_all add: finish_job_def Let_def copy_keys_field result_keys_def field_puts del: fold.simps)

lemma as_string_GStr [simp]: "as_string (GStr x) = x"
  by (simp add: as_string_def)

lemma finish_abs:
  assumes "job_ok job"
  shows "abs_job (finish_job now result job) = a_finish (as_string (field result ''status'')) (abs_job job)"
    and "job_ok (finish_job now result job)"
  using assms
  by (simp_all add: abs_job_def a_finish_def phase_of_def Let_def job_ok_def finish_fields)

lemma created_job:
  "abs_job (fst (createManagedBenchmarkJob now random mode suite p node)) =
     \<lparr> aj_phase = Open_job, aj_attempt = 0, aj_max = bs_MaxAttempts (NormalizeBenchmarkSchedulerConfig p) \<rparr>"
  "job_ok (fst (createManagedBenchmarkJob now random mode suite p node))"
proof -
  have b: "1 \<le> bs_MaxAttempts (NormalizeBenchmarkSchedulerConfig p)" "bs_MaxAttempts (NormalizeBenchmarkSchedulerConfig p) \<le> 10"
    using scheduler.norm_wf [of p] by (simp_all add: scheduler_wf_def)
  show "abs_job (fst (createManagedBenchmarkJob now random mode suite p node)) =
     \<lparr> aj_phase = Open_job, aj_attempt = 0, aj_max = bs_MaxAttempts (NormalizeBenchmarkSchedulerConfig p) \<rparr>"
    by (simp add: createManagedBenchmarkJob_def Let_def abs_job_def phase_of_def field_def goget_def as_string_def)
  show "job_ok (fst (createManagedBenchmarkJob now random mode suite p node))"
    using b by (simp add: createManagedBenchmarkJob_def Let_def job_ok_def field_def goget_def number_def)
qed

section \<open>The life of a job\<close>

text \<open>The steps of a job: a copy through JSON (every snapshot is one), a claim, the reconciliation, a report and a result of the
  subscriber. A report or a result that puts a job back to \<^verbatim>\<open>queued\<close> is a step of its own.\<close>

datatype job_event =
    Copied
  | Claimed gotime BenchmarkSchedulerConfig
  | Reconciled gotime string BenchmarkSchedulerConfig
  | Reported gotime BenchmarkSchedulerConfig string string
  | Finished_with gotime gobj

fun job_step :: "job_event \<Rightarrow> gobj \<Rightarrow> gobj" where
  "job_step Copied job = json_obj job"
| "job_step (Claimed now p) job = claim_job now p job"
| "job_step (Reconciled now reason p) job = snd (reconcile_job now reason p noRun job)"
| "job_step (Reported now p st errorCode) job = report_job now p st errorCode job"
| "job_step (Finished_with now result) job = finish_job now result job"

text \<open>When a step is possible: only queued jobs that are due are claimed, and only the allowed statuses are reported.\<close>

fun enabled :: "job_event \<Rightarrow> gobj \<Rightarrow> bool" where
  "enabled (Claimed now p) job \<longleftrightarrow> as_string (field job ''status'') = ''queued'' \<and> benchmarkJobDue job now"
| "enabled (Reported now p st errorCode) job \<longleftrightarrow> benchmarkJobStatusAllowed st"
| "enabled _ job \<longleftrightarrow> True"

fun reopens :: "job_event \<Rightarrow> bool" where
  "reopens (Reported now p st errorCode) \<longleftrightarrow> st = ''queued''"
| "reopens (Finished_with now result) \<longleftrightarrow> as_string (field result ''status'') = ''queued''"
| "reopens _ \<longleftrightarrow> False"

fun is_claim :: "job_event \<Rightarrow> bool" where
  "is_claim (Claimed now p) \<longleftrightarrow> True"
| "is_claim _ \<longleftrightarrow> False"

fun history :: "gobj \<Rightarrow> job_event list \<Rightarrow> bool" where
  "history job [] \<longleftrightarrow> True"
| "history job (ev # evs) \<longleftrightarrow> enabled ev job \<and> history (job_step ev job) evs"

fun abstract_step :: "job_event \<Rightarrow> gobj \<Rightarrow> abstract_job \<Rightarrow> abstract_job" where
  "abstract_step Copied job a = a"
| "abstract_step (Claimed now p) job a = a_claim a"
| "abstract_step (Reconciled now reason p) job a = a_reconcile (expired now p job) (benchmarkJobDue job now) a"
| "abstract_step (Reported now p st errorCode) job a = a_report st a"
| "abstract_step (Finished_with now result) job a = a_finish (as_string (field result ''status'')) a"

lemma step_refines:
  assumes "job_ok job" "enabled ev job"
  shows "abs_job (job_step ev job) = abstract_step ev job (abs_job job)"
  using assms abs_json claim_abs(1) reconcile_abs(1) report_abs(1) finish_abs(1) by (cases ev) simp_all

text \<open>The attempts of a job stay within its bound, and while it can still be claimed, below it.\<close>

definition in_budget :: "abstract_job \<Rightarrow> bool" where
  "in_budget a \<longleftrightarrow> 0 \<le> aj_attempt a \<and> aj_attempt a \<le> aj_max a \<and> aj_max a \<le> 10 \<and>
    (aj_phase a = Open_job \<or> aj_phase a = Backoff \<longrightarrow> aj_attempt a < aj_max a)"

lemma budget_step:
  assumes "job_ok job" "enabled ev job" "\<not> reopens ev" "in_budget (abs_job job)"
  shows "in_budget (abs_job (job_step ev job))" "job_ok (job_step ev job)"
    "aj_attempt (abs_job (job_step ev job)) = aj_attempt (abs_job job) + (if is_claim ev then 1 else 0)"
    "aj_max (abs_job (job_step ev job)) = aj_max (abs_job job)"
proof -
  have claim: "aj_attempt (abs_job job) < aj_max (abs_job job)" if "is_claim ev"
    using that assms(2,4) by (cases ev) (simp_all add: in_budget_def abs_job_def)
  show "in_budget (abs_job (job_step ev job))"
    using assms claim unfolding step_refines [OF assms(1,2)]
    by (cases ev) (auto simp: in_budget_def a_claim_def a_reconcile_def a_report_def a_finish_def a_fail_def benchmarkJobStatusAllowed_def)
  have "aj_attempt (abs_job job) + 1 < 2 ^ 62" if "is_claim ev" using claim [OF that] assms(4) by (simp add: in_budget_def)
  then show "job_ok (job_step ev job)"
    using assms(1,2) job_ok_json claim_abs(2) reconcile_abs(2) report_abs(2) finish_abs(2) by (cases ev) simp_all
  show "aj_attempt (abs_job (job_step ev job)) = aj_attempt (abs_job job) + (if is_claim ev then 1 else 0)"
    "aj_max (abs_job (job_step ev job)) = aj_max (abs_job job)"
    unfolding step_refines [OF assms(1,2)]
    by (cases ev; simp add: a_claim_def a_reconcile_def a_report_def a_finish_def a_fail_def)+
qed

lemma history_budget:
  assumes "history job evs" "list_all (\<lambda>ev. \<not> reopens ev) evs" "job_ok job" "in_budget (abs_job job)"
  shows "aj_attempt (abs_job job) + int (length (filter is_claim evs)) \<le> aj_max (abs_job job)"
    and "in_budget (abs_job (fold job_step evs job))" "job_ok (fold job_step evs job)"
proof -
  have "aj_attempt (abs_job job) + int (length (filter is_claim evs)) \<le> aj_max (abs_job job) \<and>
      in_budget (abs_job (fold job_step evs job)) \<and> job_ok (fold job_step evs job)"
    using assms
  proof (induction evs arbitrary: job)
    case Nil
    then show ?case by (simp add: in_budget_def)
  next
    case (Cons ev evs)
    have e: "enabled ev job" "\<not> reopens ev" "history (job_step ev job) evs" "list_all (\<lambda>ev. \<not> reopens ev) evs"
      using Cons.prems by simp_all
    note b = budget_step [OF Cons.prems(3) e(1,2) Cons.prems(4)]
    from Cons.IH [OF e(3,4) b(2) b(1)] b(3,4) show ?case by (cases "is_claim ev") simp_all
  qed
  then show "aj_attempt (abs_job job) + int (length (filter is_claim evs)) \<le> aj_max (abs_job job)"
    "in_budget (abs_job (fold job_step evs job))" "job_ok (fold job_step evs job)" by simp_all
qed

section \<open>The handlers make histories\<close>

abbreviation stored_jobs :: "'r auth_state \<Rightarrow> string \<Rightarrow> gobj list" where
  "stored_jobs s i \<equiv> job_list (node_of s i)"

text \<open>Every job of the second list comes from one of the first by a history with at most \<open>n\<close> claims.\<close>

definition evolves :: "nat \<Rightarrow> gobj list \<Rightarrow> gobj list \<Rightarrow> bool" where
  "evolves n jobs jobs' \<longleftrightarrow>
    (\<forall>job' \<in> set jobs'. \<exists>job \<in> set jobs. \<exists>evs. history job evs \<and> length (filter is_claim evs) \<le> n \<and> job' = fold job_step evs job)"

lemma history_append: "history job (evs @ evs') \<longleftrightarrow> history job evs \<and> history (fold job_step evs job) evs'"
  by (induction evs arbitrary: job) simp_all

lemma evolves_refl [simp]: "evolves n jobs jobs"
  unfolding evolves_def by (intro ballI bexI exI [of _ "[]"]) simp_all

lemma evolves_trans: "evolves m xs ys \<Longrightarrow> evolves n ys zs \<Longrightarrow> evolves (m + n) xs zs"
  unfolding evolves_def
proof (intro ballI)
  fix z
  assume xy: "\<forall>y \<in> set ys. \<exists>x \<in> set xs. \<exists>evs. history x evs \<and> length (filter is_claim evs) \<le> m \<and> y = fold job_step evs x"
    and yz: "\<forall>z \<in> set zs. \<exists>y \<in> set ys. \<exists>evs. history y evs \<and> length (filter is_claim evs) \<le> n \<and> z = fold job_step evs y"
    and "z \<in> set zs"
  then obtain y evs' where y: "y \<in> set ys" "history y evs'" "length (filter is_claim evs') \<le> n" "z = fold job_step evs' y" by blast
  with xy obtain x evs where "x \<in> set xs" "history x evs" "length (filter is_claim evs) \<le> m" "y = fold job_step evs x" by blast
  with y show "\<exists>x \<in> set xs. \<exists>evs. history x evs \<and> length (filter is_claim evs) \<le> m + n \<and> z = fold job_step evs x"
    by (intro bexI [of _ x] exI [of _ "evs @ evs'"]) (simp_all add: history_append)
qed

lemma evolves_map:
  assumes "\<And>job. job \<in> set jobs \<Longrightarrow> enabled (ev job) job \<and> \<not> is_claim (ev job)"
  shows "evolves n jobs (map (\<lambda>job. job_step (ev job) job) jobs)"
  unfolding evolves_def
proof
  fix job'
  assume "job' \<in> set (map (\<lambda>job. job_step (ev job) job) jobs)"
  then obtain job where "job \<in> set jobs" "job' = job_step (ev job) job" by auto
  with assms [of job] show "\<exists>job \<in> set jobs. \<exists>evs. history job evs \<and> length (filter is_claim evs) \<le> n \<and> job' = fold job_step evs job"
    by (intro bexI [of _ job] exI [of _ "[ev job]"]) simp_all
qed

lemma evolves_copy: "evolves 0 jobs (map json_obj jobs)"
  using evolves_map [of jobs "\<lambda>_. Copied" 0] by simp

lemma evolves_put:
  assumes "job \<in> set jobs" "enabled ev job"
  shows "evolves (if is_claim ev then 1 else 0) jobs (take n (job_step ev job # filter P jobs))"
  unfolding evolves_def
proof
  fix job'
  assume "job' \<in> set (take n (job_step ev job # filter P jobs))"
  then have "job' = job_step ev job \<or> job' \<in> set jobs" by (auto dest: in_set_takeD)
  then show "\<exists>j \<in> set jobs. \<exists>evs. history j evs \<and> length (filter is_claim evs) \<le> (if is_claim ev then 1 else 0) \<and> job' = fold job_step evs j"
  proof
    assume "job' = job_step ev job"
    with assms show ?thesis by (intro bexI [of _ job] exI [of _ "[ev]"]) simp_all
  next
    assume "job' \<in> set jobs"
    then show ?thesis by (intro bexI [of _ job'] exI [of _ "[]"]) simp_all
  qed
qed

lemma prepareNode_Observed: "n_Observed (prepareNode e n) = n_Observed n"
  by (simp add: prepareNode_def normalizeNode_def normalize_times_def normalize_sources_def normalize_approval_def
      normalize_levels_def Let_def)

lemma node_of_upsert:
  assumes "upsert e node s = (err, s')" "n_NodeID node \<noteq> []"
  shows "node_of s' i = (if i = n_NodeID node then jsonNode (prepareNode (ae_env (be_auth e)) node) else node_of s i)"
proof -
  have "n_NodeID (prepareNode (ae_env (be_auth e)) node) = n_NodeID node"
    using assms(2) by (simp add: prepareNode_def normalizeNode_def normalize_times_def normalize_sources_def normalize_approval_def
        normalize_levels_def Let_def orElse_def)
  moreover have "s' = s\<lparr> at_store := snd (UpsertNode (ae_env (be_auth e)) node (at_store s)) \<rparr>"
    using assms(1) by (auto simp: upsert_def on_store_def split: prod.splits)
  ultimately show ?thesis
    by (simp add: node_of_def UpsertNode_def putNode_def Snapshot_def cloneState_def jsonState_def goget_map_snd)
qed

lemma node_of_emit [simp]: "node_of (emit_sub e ty fs s) i = node_of s i"
  by (simp add: node_of_def emit_sub_def emit_auth_def Snapshot_def cloneState_def jsonState_def)

lemma node_of_secrets [simp]: "node_of (s\<lparr> at_secrets := x \<rparr>) i = node_of s i"
  by (simp add: node_of_def)

lemma node_of_reporting: "node_of (snd (reporting_node e r nodeID s)) i = node_of s i"
proof -
  have "node_of (snd (verifySubscriberHeartbeatCredential e r node s)) i = node_of s i" for node
    by (simp add: verifySubscriberHeartbeatCredential_def getSecret_def Let_def case_prod_unfold)
  then show ?thesis
    by (simp add: reporting_node_def case_prod_unfold split: option.split)
qed

lemma reporting_node_Inr:
  assumes "reporting_node e r nodeID s = (Inr node, s1)"
  shows "goget (st_Nodes (Snapshot (at_store s))) nodeID = Some node" "node_of s1 i = node_of s i"
    "fst (verifySubscriberHeartbeatCredential e r node s) = None"
  using assms node_of_reporting [of e r nodeID s i]
  by (auto simp: reporting_node_def split: option.splits if_splits prod.splits)

text \<open>The jobs of a node that was just read from a snapshot and written back.\<close>

definition job_field :: "Node \<Rightarrow> gval" where
  "job_field node = field (n_Observed node) ''benchmark_jobs''"

lemma jobs_written: "job_field node = GMaps jobs \<Longrightarrow> job_list (jsonNode (prepareNode e node)) = map json_obj jobs"
proof -
  assume "job_field node = GMaps jobs"
  then have "field (n_Observed (jsonNode (prepareNode e node))) ''benchmark_jobs'' = json_val (GMaps jobs)"
    by (simp add: jsonNode_def prepareNode_Observed job_field_def del: json_val.simps)
  then show ?thesis by (simp only: job_list_def benchmarkJobs_def as_maps_json_GMaps)
qed

lemma jobs_untouched: "job_field node = json_val v \<Longrightarrow> job_list (jsonNode (prepareNode e node)) = job_list node"
  by (simp add: job_list_def job_field_def benchmarkJobs_def jsonNode_def prepareNode_Observed)

lemma observe_job_field:
  "job_field (observe kvs node) = (case map_of (rev kvs) ''benchmark_jobs'' of None \<Rightarrow> job_field node | Some v \<Rightarrow> v)"
  by (simp add: job_field_def observe_def field_puts split: option.split)

lemma observe_NodeID [simp]: "n_NodeID (observe kvs node) = n_NodeID node"
  by (simp add: observe_def)

lemma job_list_job_field: "job_list node = benchmarkJobs (job_field node)"
  by (simp add: job_list_def job_field_def)

lemma put_job_field: "job_field (put_job job node) = GMaps (upsertBenchmarkJob (job_field node) job)"
  by (simp add: put_job_def observe_job_field) (simp add: job_field_def)

lemma put_job_NodeID [simp]: "n_NodeID (put_job job node) = n_NodeID node"
  by (simp add: put_job_def)

text \<open>Writing a node back after one of its jobs made a step.\<close>

lemma put_step_evolves:
  assumes "upsert e (put_job (job_step ev job) node) s = (err, s')" "n_NodeID node \<noteq> []" "job \<in> set (job_list node)" "enabled ev job"
  shows "evolves (if is_claim ev then 1 else 0) (job_list node) (stored_jobs s' (n_NodeID node))"
    and "i \<noteq> n_NodeID node \<Longrightarrow> node_of s' i = node_of s i"
proof -
  note n = node_of_upsert [OF assms(1)]
  obtain P where u: "upsertBenchmarkJob (job_field node) (job_step ev job) = take maxBenchmarkJobs (job_step ev job # filter P (job_list node))"
    by (simp add: upsertBenchmarkJob_def Let_def job_list_job_field)
  have "stored_jobs s' (n_NodeID node) = map json_obj (upsertBenchmarkJob (job_field node) (job_step ev job))"
    using n assms(2) jobs_written [OF put_job_field] by simp
  then show "evolves (if is_claim ev then 1 else 0) (job_list node) (stored_jobs s' (n_NodeID node))"
    using evolves_trans [OF evolves_put [OF assms(3,4)] evolves_copy] by (simp add: u)
  show "i \<noteq> n_NodeID node \<Longrightarrow> node_of s' i = node_of s i" using n assms(2) by simp
qed

lemma reconcile_job_run: "snd (reconcile_job now reason p run job) = snd (reconcile_job now reason p noRun job)"
  by (simp add: reconcile_job_def Let_def case_prod_unfold split: bool.split)

lemma reconcile_jobs_map: "snd (reconcile_jobs now reason p run jobs) = map (\<lambda>job. snd (reconcile_job now reason p noRun job)) jobs"
proof (induction jobs arbitrary: run)
  case (Cons job jobs)
  show ?case
    using reconcile_job_run [of now reason p run job] Cons.IH [of "fst (reconcile_job now reason p run job)"]
    by (simp add: case_prod_unfold Let_def)
qed simp

lemma reconciled_field:
  assumes "reconcileBenchmarkJobsForNode now reason p node = (run, node')"
  shows "n_NodeID node' = n_NodeID node"
    and "if sr_Changed run then job_field node' = GMaps (map (\<lambda>job. snd (reconcile_job now reason (NormalizeBenchmarkSchedulerConfig p) noRun job)) (job_list node))
         else node' = node"
  using assms reconcile_jobs_map [of now reason "NormalizeBenchmarkSchedulerConfig p" noRun "job_list node"]
  by (auto simp: reconcileBenchmarkJobsForNode_def Let_def observe_job_field noRun_def split: if_splits prod.splits)

lemma reconciled_evolves:
  assumes "reconcileBenchmarkJobsForNode now reason p node = (run, node')"
  shows "evolves 0 (job_list node) (job_list node')"
  using reconciled_field(2) [OF assms]
    evolves_map [of "job_list node" "\<lambda>_. Reconciled now reason (NormalizeBenchmarkSchedulerConfig p)" 0]
  by (auto simp: job_list_job_field benchmarkJobs_def as_maps_def split: if_splits)

text \<open>The node that reports, in a store that is well-formed.\<close>

lemma reporting_node_jobs:
  assumes "reporting_node e r nodeID s = (Inr node, s1)" "nodeID \<noteq> []" "store_wf (at_store s)"
  shows "n_NodeID node = nodeID" "node_of s nodeID = node" "job_field node = json_val (job_field node)"
proof -
  note g = reporting_node_Inr(1) [OF assms(1)]
  have "content_wf (Snapshot (at_store s))"
    using assms(3) by (simp add: Snapshot_def cloneState_def jsonState_wf store_wf_def state_wf_def)
  then show "n_NodeID node = nodeID"
    using goget_in_set [OF g] by (auto simp: content_wf_def nodes_wf_def)
  show "node_of s nodeID = node" using g by (simp add: node_of_def)
  obtain n0 where "node = jsonNode n0"
    using g by (auto simp: Snapshot_def cloneState_def jsonState_def goget_map_snd)
  then show "job_field node = json_val (job_field node)"
    by (simp add: job_field_def jsonNode_def)
qed

lemma job_answer_state [simp]: "jr_state (job_answer st job s) = s"
  by (simp add: job_answer_def)

lemma claiming_evolves:
  assumes "n_NodeID node \<noteq> []" "node_of s (n_NodeID node) = node" "job_field node = json_val (job_field node)"
  shows "evolves 1 (stored_jobs s i) (stored_jobs (jr_state (claiming e node s)) i)"
proof -
  let ?now = "be_now e" and ?p = "benchmarkSchedulerConfig s"
  obtain run node' where rc: "reconcileBenchmarkJobsForNode ?now ''subscriber_claim'' ?p node = (run, node')" by fastforce
  obtain err s2 where s2: "(if sr_Changed run then upsert e node' s else (None, s)) = (err, s2)" by fastforce
  have id': "n_NodeID node' = n_NodeID node" by (rule reconciled_field(1) [OF rc])
  have ev0: "evolves 0 (job_list node) (job_list node')" by (rule reconciled_evolves [OF rc])
  have ev2: "evolves 0 (stored_jobs s i) (stored_jobs s2 i)"
  proof (cases "sr_Changed run")
    case True
    then have up: "upsert e node' s = (err, s2)" using s2 by simp
    have jf: "job_field node' = GMaps (job_list node')"
      using reconciled_field(2) [OF rc] True by (simp add: job_list_job_field benchmarkJobs_def as_maps_def)
    show ?thesis
    proof (cases "i = n_NodeID node")
      case True
      then have "stored_jobs s2 i = map json_obj (job_list node')"
        using node_of_upsert [OF up, of i] id' assms(1) jobs_written [OF jf] by simp
      then show ?thesis using evolves_trans [OF ev0 evolves_copy] True assms(2) by simp
    next
      case False
      then show ?thesis using node_of_upsert [OF up, of i] id' assms(1) by simp
    qed
  next
    case False
    then show ?thesis using s2 by simp
  qed
  show ?thesis
  proof (cases "err = None \<and> (\<exists>job. nextQueuedBenchmarkJob node' ?now = Some job)")
    case False
    then have "jr_state (claiming e node s) = s2"
      using rc s2 by (auto simp: claiming_def Let_def split: option.splits)
    then show ?thesis using evolves_trans [OF ev2 evolves_refl [of 1]] by simp
  next
    case True
    then obtain job where job: "nextQueuedBenchmarkJob node' ?now = Some job" and err: "err = None" by blast
    let ?kvs = "[(''benchmark_status'', GStr ''running''), (''benchmark_id'', field (claim_job ?now ?p job) ''benchmark_id''),
      (''benchmark_updated_at'', GTime ?now)]"
    obtain err3 s3 where up: "upsert e (put_job (job_step (Claimed ?now ?p) job) (observe ?kvs node')) s2 = (err3, s3)" by fastforce
    have st: "node_of (jr_state (claiming e node s)) i = node_of s3 i"
      using rc s2 up job err by (simp add: claiming_def Let_def split: option.split)
    have jl: "job_list (observe ?kvs node') = job_list node'"
      by (simp add: job_list_job_field observe_job_field)
    have en: "job \<in> set (job_list node')" "enabled (Claimed ?now ?p) job"
      using job by (auto simp: nextQueuedBenchmarkJob_def find_Some_iff)
    note put = put_step_evolves [OF up, unfolded jl observe_NodeID, OF _ en]
    show ?thesis
    proof (cases "i = n_NodeID node")
      case True
      then show ?thesis using evolves_trans [OF ev0 put(1)] id' assms(1,2) st by simp
    next
      case False
      then show ?thesis using put(2) [of i] id' assms(1) st evolves_trans [OF ev2 evolves_refl [of 1]] by simp
    qed
  qed
qed

lemma with_reporter_evolves:
  assumes "store_wf (at_store s)" "nodeID \<noteq> []"
    and "\<And>node s1. n_NodeID node \<noteq> [] \<Longrightarrow> node_of s1 (n_NodeID node) = node \<Longrightarrow> job_field node = json_val (job_field node) \<Longrightarrow>
      evolves n (stored_jobs s1 i) (stored_jobs (jr_state (k node s1)) i)"
  shows "evolves n (stored_jobs s i) (stored_jobs (jr_state (with_reporter e r nodeID k s)) i)"
proof -
  obtain res s1 where r: "reporting_node e r nodeID s = (res, s1)" by fastforce
  have s1: "node_of s1 j = node_of s j" for j using node_of_reporting [of e r nodeID s j] r by simp
  show ?thesis
  proof (cases res)
    case (Inl st)
    then show ?thesis using r s1 by (simp add: with_reporter_def)
  next
    case (Inr node)
    with r reporting_node_jobs [of e r nodeID s node s1] assms(1,2) s1 assms(3) [of node s1]
    show ?thesis by (simp add: with_reporter_def)
  qed
qed

lemma claim_evolves:
  assumes "store_wf (at_store s)"
  shows "evolves 1 (stored_jobs s i) (stored_jobs (jr_state (subscriberBenchmarkJobClaim e r body s)) i)"
  using with_reporter_evolves [OF assms _ claiming_evolves]
  by (auto simp: subscriberBenchmarkJobClaim_def split: option.split)

lemma put_result_evolves:
  assumes "upsert e (put_job (job_step ev job) node') s = (err, s')" "n_NodeID node' = n_NodeID node" "job_list node' = job_list node"
    and "n_NodeID node \<noteq> []" "node_of s (n_NodeID node) = node" "job \<in> set (job_list node)" "enabled ev job"
  shows "evolves 1 (stored_jobs s i) (stored_jobs s' i)"
proof (cases "i = n_NodeID node")
  case True
  have "evolves (if is_claim ev then 1 else 0) (job_list node) (stored_jobs s' (n_NodeID node))"
    using put_step_evolves(1) [OF assms(1)] assms(2-4,6,7) by simp
  from evolves_trans [OF this evolves_refl [of "if is_claim ev then 0 else 1"]]
  show ?thesis using True assms(5) by (simp split: if_splits)
next
  case False
  then show ?thesis using put_step_evolves(2) [OF assms(1), of i] assms(2-4,6,7) by simp
qed

lemma reporting_evolves:
  assumes "n_NodeID node \<noteq> []" "node_of s (n_NodeID node) = node" "benchmarkJobStatusAllowed st"
  shows "evolves 1 (stored_jobs s i) (stored_jobs (jr_state (reporting e benchmarkID st errorCode node s)) i)"
proof (cases "findBenchmarkJob node benchmarkID")
  case (Some job)
  let ?now = "be_now e" and ?p = "benchmarkSchedulerConfig s"
  let ?node = "observe [(''benchmark_status'', GStr st), (''benchmark_id'', GStr benchmarkID), (''benchmark_updated_at'', GTime ?now)] node"
  obtain err s' where up: "upsert e (put_job (job_step (Reported ?now ?p st errorCode) job) ?node) s = (err, s')" by fastforce
  have "job \<in> set (job_list node)" using Some by (auto simp: findBenchmarkJob_def find_Some_iff)
  then have "evolves 1 (stored_jobs s i) (stored_jobs s' i)"
    using assms by (intro put_result_evolves [OF up]) (simp_all add: job_list_job_field observe_job_field)
  moreover have "node_of (jr_state (reporting e benchmarkID st errorCode node s)) i = node_of s' i"
    using Some up by (simp add: reporting_def Let_def split: option.split)
  ultimately show ?thesis by simp
qed (simp add: reporting_def)

lemma updateRate_jobs [simp]:
  "n_NodeID (updateModelBenchmarkRate model rate node) = n_NodeID node" "n_Observed (updateModelBenchmarkRate model rate node) = n_Observed node"
  by (simp_all add: updateModelBenchmarkRate_def)

lemma applyResult_jobs [simp]:
  "n_NodeID (applyBenchmarkResult now result source node) = n_NodeID node"
  "job_field (applyBenchmarkResult now result source node) = job_field node"
  by (simp_all add: applyBenchmarkResult_def observe_job_field) (simp add: job_field_def)

text \<open>Only the observed data decide about the jobs a written node has.\<close>

lemma upsert_jobs:
  assumes "upsert e node s = (err, s')" "n_NodeID node \<noteq> []"
  shows "stored_jobs s' i = (if i = n_NodeID node then benchmarkJobs (json_val (job_field node)) else stored_jobs s i)"
  using node_of_upsert [OF assms, of i] by (simp add: job_list_def job_field_def jsonNode_def prepareNode_Observed)

lemma delivering_evolves:
  assumes "n_NodeID node \<noteq> []" "node_of s (n_NodeID node) = node" "job_field node = json_val (job_field node)"
  shows "evolves 1 (stored_jobs s i) (stored_jobs (jr_state (delivering e b node s)) i)"
proof -
  let ?now = "be_now e"
  define result where "result = benchmarkResultMap ?now (e_random (ae_env (be_auth e))) b CapabilitySourceSubscriberReported ''subscriber_reported''"
  define node1 where "node1 = applyBenchmarkResult ?now result CapabilitySourceSubscriberReported node"
  define node2 where "node2 = completeBenchmarkJobWithResult ?now result node1"
  define node3 where "node3 = (if 0 < rr_TokensPerSecond b
    then updateModelBenchmarkRate (safeBenchmarkString (rr_Model b)) (rr_TokensPerSecond b) node2 else node2)"
  obtain err s' where up: "upsert e node3 s = (err, s')" by fastforce
  have n1: "n_NodeID node1 = n_NodeID node" "job_list node1 = job_list node" "job_field node1 = job_field node"
    by (simp_all add: node1_def job_list_job_field)
  have n2: "n_NodeID node2 = n_NodeID node"
    using n1 by (simp add: node2_def completeBenchmarkJobWithResult_def Let_def split: option.split)
  have n3: "n_NodeID node3 = n_NodeID node" "job_field node3 = job_field node2" using n2 by (simp_all add: node3_def job_field_def)
  have st: "node_of (jr_state (delivering e b node s)) i = node_of s' i"
    using up unfolding delivering_def Let_def node3_def node2_def node1_def result_def by (simp split: option.split)
  have jobs: "stored_jobs s' i = (if i = n_NodeID node then benchmarkJobs (json_val (job_field node2)) else stored_jobs s i)"
    using upsert_jobs [OF up, of i] n3 assms(1) by simp
  show ?thesis
  proof (cases "\<exists>job. as_string (field result ''benchmark_id'') \<noteq> [] \<and> findBenchmarkJob node1 (as_string (field result ''benchmark_id'')) = Some job")
    case True
    then obtain job where job: "findBenchmarkJob node1 (as_string (field result ''benchmark_id'')) = Some job"
      and node2: "node2 = put_job (job_step (Finished_with ?now result) job) node1"
      by (auto simp: node2_def completeBenchmarkJobWithResult_def Let_def)
    obtain err4 s4 where up4: "upsert e node2 s = (err4, s4)" by fastforce
    have "job \<in> set (job_list node)" using job n1 by (auto simp: findBenchmarkJob_def find_Some_iff)
    then have "evolves 1 (stored_jobs s i) (stored_jobs s4 i)"
      using assms n1 by (intro put_result_evolves [OF up4 [unfolded node2]]) simp_all
    moreover have "stored_jobs s4 i = stored_jobs s' i"
      using jobs upsert_jobs [OF up4, of i] n2 assms(1) by simp
    ultimately show ?thesis using st by simp
  next
    case False
    then have "node2 = node1" by (auto simp: node2_def completeBenchmarkJobWithResult_def Let_def split: option.split)
    then have "stored_jobs s' i = stored_jobs s i"
      using jobs n1 assms(2,3) by (simp add: job_list_job_field)
    then show ?thesis using st by simp
  qed
qed

lemma status_evolves:
  assumes "store_wf (at_store s)"
  shows "evolves 1 (stored_jobs s i) (stored_jobs (jr_state (subscriberBenchmarkJobStatus e r body s)) i)"
  using with_reporter_evolves [OF assms _ reporting_evolves]
  by (auto simp: subscriberBenchmarkJobStatus_def Let_def split: option.split)

lemma result_evolves:
  assumes "store_wf (at_store s)"
  shows "evolves 1 (stored_jobs s i) (stored_jobs (jr_state (subscriberBenchmarkResult e r body s)) i)"
  using with_reporter_evolves [OF assms _ delivering_evolves]
  by (auto simp: subscriberBenchmarkResult_def split: option.split)

lemma reconcile_nodes_evolves:
  assumes "list_all (\<lambda>n. n_NodeID n \<noteq> [] \<and> node_of s (n_NodeID n) = n) nodes" "distinct (map n_NodeID nodes)"
  shows "evolves 0 (stored_jobs s i) (stored_jobs (snd (reconcile_nodes e reason p nodes run s)) i)"
  using assms
proof (induction nodes arbitrary: run s)
  case (Cons node nodes)
  obtain run1 node' where rc: "reconcileBenchmarkJobsForNode (be_now e) reason p node = (run1, node')" by fastforce
  obtain err s1 where up: "upsert e node' s = (err, s1)" by fastforce
  have id': "n_NodeID node' = n_NodeID node" by (rule reconciled_field(1) [OF rc])
  have node: "n_NodeID node \<noteq> []" "node_of s (n_NodeID node) = node" "n_NodeID node \<notin> set (map n_NodeID nodes)"
    and rest: "list_all (\<lambda>n. n_NodeID n \<noteq> [] \<and> node_of s (n_NodeID n) = n) nodes" "distinct (map n_NodeID nodes)"
    using Cons.prems by simp_all
  note after = node_of_upsert [OF up, unfolded id', OF node(1)]
  have nodes1: "list_all (\<lambda>n. n_NodeID n \<noteq> [] \<and> node_of s1 (n_NodeID n) = n) nodes"
    unfolding list_all_iff
  proof
    fix n
    assume n: "n \<in> set nodes"
    then have "n_NodeID n \<noteq> n_NodeID node" using node(3) by (metis image_eqI set_map)
    then show "n_NodeID n \<noteq> [] \<and> node_of s1 (n_NodeID n) = n"
      using after [of "n_NodeID n"] n rest(1) by (simp add: list_all_iff)
  qed
  have step: "evolves 0 (stored_jobs s i) (stored_jobs s1 i)" if "sr_Changed run1"
  proof -
    have "job_field node' = GMaps (job_list node')"
      using reconciled_field(2) [OF rc] that by (simp add: job_list_job_field benchmarkJobs_def as_maps_def)
    then have "stored_jobs s1 i = (if i = n_NodeID node then map json_obj (job_list node') else stored_jobs s i)"
      by (simp add: after jobs_written)
    then show ?thesis
      using evolves_trans [OF reconciled_evolves [OF rc] evolves_copy] node(2) by simp
  qed
  have "evolves 0 (stored_jobs s1 i) (stored_jobs (snd (reconcile_nodes e reason p nodes r s1)) i)"
    "evolves 0 (stored_jobs s i) (stored_jobs (snd (reconcile_nodes e reason p nodes r s)) i)"
    "evolves 0 (stored_jobs s1 i) (stored_jobs (snd (reconcile_nodes e reason p nodes r (emit_sub e ty fs s1))) i)" for r ty fs
    by (rule Cons.IH [OF nodes1 rest(2)], rule Cons.IH [OF rest])
      (use Cons.IH [of "emit_sub e ty fs s1" r] nodes1 rest(2) in simp)
  note ih = this
  show ?case
  proof (cases "n_ControlLevel node \<noteq> [] \<and> n_ControlLevel node \<noteq> ControlLevelManaged \<or> \<not> sr_Changed run1")
    case True
    then show ?thesis using ih(2) by (auto simp: rc)
  next
    case False
    then show ?thesis
      using ih(2) evolves_trans [OF step ih(1)] evolves_trans [OF step ih(3)] by (cases err) (simp_all add: rc up)
  qed
qed simp

lemma nodes_wf_snapshot: "store_wf (at_store s) \<Longrightarrow> nodes_wf (st_Nodes (Snapshot (at_store s)))"
  by (simp add: Snapshot_def cloneState_def content_wf_def jsonState_wf [unfolded content_wf_def] store_wf_def state_wf_def)

lemma snapshot_nodes:
  assumes "store_wf (at_store s)" "goget (st_Nodes (s_state (at_store s))) [] = None"
  shows "list_all (\<lambda>n. n_NodeID n \<noteq> [] \<and> node_of s (n_NodeID n) = n) (map snd (st_Nodes (Snapshot (at_store s))))"
    and "distinct (map n_NodeID (map snd (st_Nodes (Snapshot (at_store s)))))"
proof -
  let ?m = "st_Nodes (Snapshot (at_store s))"
  note wf = nodes_wf_snapshot [OF assms(1)]
  then have ids: "map n_NodeID (map snd ?m) = map fst ?m" by (auto simp: nodes_wf_def)
  have none: "goget ?m [] = None" using assms(2) by (simp add: Snapshot_def cloneState_def jsonState_def goget_map_snd)
  show "list_all (\<lambda>n. n_NodeID n \<noteq> [] \<and> node_of s (n_NodeID n) = n) (map snd ?m)"
    unfolding list_all_iff
  proof
    fix n
    assume "n \<in> set (map snd ?m)"
    then obtain k where k: "(k, n) \<in> set ?m" by auto
    then have "n_NodeID n = k" "goget ?m k = Some n" using wf goget_set [of ?m k n] by (auto simp: nodes_wf_def)
    with none show "n_NodeID n \<noteq> [] \<and> node_of s (n_NodeID n) = n" by (auto simp: node_of_def)
  qed
  show "distinct (map n_NodeID (map snd ?m))" unfolding ids using wf by (simp add: nodes_wf_def gokeys_distinct_def)
qed

lemma reconcile_evolves:
  assumes "store_wf (at_store s)" "goget (st_Nodes (s_state (at_store s))) [] = None"
  shows "evolves 0 (stored_jobs s i) (stored_jobs (snd (reconcileBenchmarkJobs e reason s)) i)"
  unfolding reconcileBenchmarkJobs_def by (rule reconcile_nodes_evolves [OF snapshot_nodes [OF assms]])

text \<open>Whatever a handler does, the jobs a node then has come from jobs it had before, by histories with at most one claim: the
  histories of the bound below are those of the handlers.\<close>

lemma handlers_make_histories:
  assumes "store_wf (at_store s)"
    and "s' = jr_state (subscriberBenchmarkJobClaim e r body s) \<or> s' = jr_state (subscriberBenchmarkJobStatus e r body s) \<or>
      s' = jr_state (subscriberBenchmarkResult e r result_body s) \<or>
      goget (st_Nodes (s_state (at_store s))) [] = None \<and> s' = snd (reconcileBenchmarkJobs e reason s)"
  shows "evolves 1 (stored_jobs s i) (stored_jobs s' i)"
  using assms(2) claim_evolves [OF assms(1)] status_evolves [OF assms(1)] result_evolves [OF assms(1)]
    evolves_trans [OF reconcile_evolves [OF assms(1)] evolves_refl [of 1]] by auto

section \<open>Leases\<close>

lemma retry_status: "field (snd (scheduleBenchmarkJobRetry now reason p job)) ''status'' = GStr ''failed''"
  by (simp add: scheduleBenchmarkJobRetry_def Let_def field_puts)

lemma ensure_status: "field (ensureBenchmarkJobSchedulerDefaults now p job) ''status'' = field job ''status''"
  by (simp add: ensureBenchmarkJobSchedulerDefaults_def Let_def due_time_field named_state_field bounded_limits_field named_policy_field)

definition lease_runs :: "gotime \<Rightarrow> gobj \<Rightarrow> bool" where
  "lease_runs now job \<longleftrightarrow> (case benchmarkJobTime (field job ''timeout_at'') of None \<Rightarrow> False | Some t \<Rightarrow> now < t)"

lemma with_timeout_field:
  assumes "with_timeout now p job = (t, c, job')"
  shows "benchmarkJobTime (field job' ''timeout_at'') = Some t" "\<not> c \<Longrightarrow> job' = job"
  using assms by (auto simp: with_timeout_def Let_def field_puts benchmarkJobTime_def as_time_def split: option.splits)

lemma reconcile_job_lease:
  "as_string (field (snd (reconcile_job now reason p run job)) ''status'') = ''running'' \<Longrightarrow>
     lease_runs now (snd (reconcile_job now reason p run job))"
  by (cases rule: reconcile_job_cases [of job now p reason run])
    (auto simp: retry_status ensure_status field_puts lease_runs_def dest: with_timeout_field(1))

lemma reconcile_job_count:
  "sr_TimedOut (fst (reconcile_job now reason p run job)) =
     sr_TimedOut run + (if phase_of job = Leased \<and> expired now p job then 1 else 0)"
proof (cases "as_string (field job ''status'') = ''running''")
  case True
  then show ?thesis
    by (simp add: reconcile_job_def Let_def expired_def case_prod_unfold split: bool.split)
next
  case False
  then have "phase_of job \<noteq> Leased" by (simp add: phase_of_def Let_def)
  moreover have "sr_TimedOut (fst (reconcile_job now reason p run job)) = sr_TimedOut run"
    unfolding reconcile_job_def Let_def if_not_P [OF False] by simp
  ultimately show ?thesis by simp
qed

lemma reconcile_job_unchanged:
  assumes "\<not> sr_Changed (fst (reconcile_job now reason p run job))"
  shows "\<not> sr_Changed run \<and> (as_string (field job ''status'') = ''running'' \<longrightarrow> lease_runs now job)"
proof (cases rule: reconcile_job_cases [of job now p reason run])
  case (leased t c job')
  then have "\<not> sr_Changed run" "\<not> c" using assms by simp_all
  with with_timeout_field [OF leased(2)] leased(3) show ?thesis by (simp add: lease_runs_def)
qed (use assms in simp_all)

lemma reconcile_jobs_count:
  "sr_TimedOut (fst (reconcile_jobs now reason p run jobs)) =
     sr_TimedOut run + int (length (filter (\<lambda>job. phase_of job = Leased \<and> expired now p job) jobs))"
  by (induction jobs arbitrary: run) (simp_all add: case_prod_unfold Let_def reconcile_job_count)

lemma reconcile_jobs_unchanged:
  assumes "\<not> sr_Changed (fst (reconcile_jobs now reason p run jobs))"
  shows "\<not> sr_Changed run \<and> list_all (\<lambda>job. as_string (field job ''status'') = ''running'' \<longrightarrow> lease_runs now job) jobs"
  using assms
proof (induction jobs arbitrary: run)
  case (Cons job jobs)
  from Cons.IH [of "fst (reconcile_job now reason p run job)"] Cons.prems
    reconcile_job_unchanged [of now reason p run job]
  show ?case by (simp add: case_prod_unfold Let_def)
qed simp

lemma reporting_store:
  assumes "reporting_node e r nodeID s = (Inr node, s1)"
  shows "at_store s1 = at_store s"
  using assms
  by (auto simp: reporting_node_def verifySubscriberHeartbeatCredential_def getSecret_def Let_def split: option.splits if_splits prod.splits)

section \<open>Properties\<close>

text \<open>C12. Bounds. A job the coordinator creates is handed to subscribers at most as often as the scheduler's policy allows, never
  more than ten times, through any interleaving of claims, lease expiries, reports and results, as long as no
  subscriber reports it as queued again: such a report reopens the job without looking at its attempts.\<close>

theorem attempts_bounded:
  assumes "history (fst (createManagedBenchmarkJob now random mode suite p node)) evs" "list_all (\<lambda>ev. \<not> reopens ev) evs"
  shows "int (length (filter is_claim evs)) \<le> bs_MaxAttempts (NormalizeBenchmarkSchedulerConfig p) \<and>
    bs_MaxAttempts (NormalizeBenchmarkSchedulerConfig p) \<le> 10"
proof -
  let ?job = "fst (createManagedBenchmarkJob now random mode suite p node)"
  have b: "1 \<le> bs_MaxAttempts (NormalizeBenchmarkSchedulerConfig p)" "bs_MaxAttempts (NormalizeBenchmarkSchedulerConfig p) \<le> 10"
    using scheduler.norm_wf [of p] by (simp_all add: scheduler_wf_def)
  then have "in_budget (abs_job ?job)" by (simp add: created_job(1) in_budget_def)
  from history_budget(1) [OF assms created_job(2) this] b(2) show ?thesis by (simp add: created_job(1))
qed

text \<open>Safety. After the reconciliation of a node, whatever its jobs looked like, every job it still holds as running has a lease
  that has not run out, and exactly the running jobs whose lease had run out are counted as timed out.\<close>

theorem leases_enforced:
  shows "list_all (\<lambda>job. phase_of job = Leased \<longrightarrow> lease_runs now job)
      (job_list (snd (reconcileBenchmarkJobsForNode now reason p node))) \<and>
    sr_TimedOut (fst (reconcileBenchmarkJobsForNode now reason p node)) =
      int (length (filter (\<lambda>job. phase_of job = Leased \<and> expired now (NormalizeBenchmarkSchedulerConfig p) job) (job_list node)))"
proof -
  let ?p = "NormalizeBenchmarkSchedulerConfig p"
  obtain run node' where r: "reconcileBenchmarkJobsForNode now reason p node = (run, node')" by fastforce
  have run: "job_list node \<noteq> [] \<Longrightarrow> run = fst (reconcile_jobs now reason ?p noRun (job_list node))"
    and none: "job_list node = [] \<Longrightarrow> run = noRun"
    using r by (simp_all add: reconcileBenchmarkJobsForNode_def Let_def case_prod_unfold)
  have "list_all (\<lambda>job. as_string (field job ''status'') = ''running'' \<longrightarrow> lease_runs now job) (job_list node')"
  proof (cases "sr_Changed run")
    case True
    then show ?thesis
      using reconciled_field(2) [OF r] reconcile_job_lease [of now reason ?p noRun]
      by (simp add: job_list_job_field benchmarkJobs_def as_maps_def list_all_iff)
  next
    case False
    then have "node' = node" using reconciled_field(2) [OF r] by simp
    with False run reconcile_jobs_unchanged [of now reason ?p noRun "job_list node"] show ?thesis
      by (cases "job_list node") auto
  qed
  moreover have "sr_TimedOut run = int (length (filter (\<lambda>job. phase_of job = Leased \<and> expired now ?p job) (job_list node)))"
    using run none reconcile_jobs_count [of now reason ?p noRun "job_list node"] by (cases "job_list node = []") (simp_all add: noRun_def)
  ultimately show ?thesis by (simp add: r phase_leased)
qed

section \<open>A concrete job\<close>

definition jobEnv :: "(string, string) gomap sub_env" where
  "jobEnv = \<lparr> be_auth = authEnv, be_sha = (\<lambda>t. t), be_sink = NewSink (Default ''marshal''), be_hec = None \<rparr>"

definition sampleJob :: gobj where
  "sampleJob = [(''benchmark_id'', GStr ''b1''), (''status'', GStr ''queued''), (''attempt'', GInt 2), (''max_attempts'', GInt 3),
     (''scheduler_state'', GStr ''queued'')]"

definition jobState :: "(string, string) gomap auth_state" where
  "jobState = guardedState\<lparr> at_store := snd (UpsertNode sampleEnv
     (zeroNode\<lparr> n_NodeID := ''gpu-1'', n_Observed := [(''benchmark_jobs'', GMaps [sampleJob])] \<rparr>) sampleStore) \<rparr>"

definition jobRequest :: "subscriberBenchmarkJobRequest option" where
  "jobRequest = Some \<lparr> jq_NodeID = ''gpu-1'', jq_BenchmarkID = [], jq_Status = [], jq_ErrorCode = [] \<rparr>"

lemma sample_evaluated:
  "store_wf (at_store jobState)" "stored_jobs jobState ''gpu-1'' = [json_obj sampleJob]" "job_ok sampleJob"
  "\<exists>s1. reporting_node jobEnv (reportRequest []) ''gpu-1'' jobState = (Inr (node_of jobState ''gpu-1''), s1)"
  "\<not> sr_Changed (fst (reconcileBenchmarkJobsForNode 5 ''subscriber_claim'' (benchmarkSchedulerConfig jobState) (node_of jobState ''gpu-1'')))"
  "nextQueuedBenchmarkJob (snd (reconcileBenchmarkJobsForNode 5 ''subscriber_claim'' (benchmarkSchedulerConfig jobState) (node_of jobState ''gpu-1''))) 5 = Some (json_obj sampleJob)"
proof -
  show "store_wf (at_store jobState)"
    using UpsertNode_wf [of sampleEnv sampleStore] reachable_wf [OF sampleStore_reachable] by (simp add: jobState_def sampleEnv_def)
  show "stored_jobs jobState ''gpu-1'' = [json_obj sampleJob]" by code_simp
  show "job_ok sampleJob" by (simp add: job_ok_def sampleJob_def field_def goget_def number_def)
  have "\<not> isl (fst (reporting_node jobEnv (reportRequest []) ''gpu-1'' jobState))" by code_simp
  then obtain n s1 where r: "reporting_node jobEnv (reportRequest []) ''gpu-1'' jobState = (Inr n, s1)"
    by (metis isl_def old.sum.exhaust prod.collapse)
  with reporting_node_Inr(1) [OF r] show "\<exists>s1. reporting_node jobEnv (reportRequest []) ''gpu-1'' jobState = (Inr (node_of jobState ''gpu-1''), s1)"
    by (simp add: node_of_def)
  show "\<not> sr_Changed (fst (reconcileBenchmarkJobsForNode 5 ''subscriber_claim'' (benchmarkSchedulerConfig jobState) (node_of jobState ''gpu-1'')))" by code_simp
  show "nextQueuedBenchmarkJob (snd (reconcileBenchmarkJobsForNode 5 ''subscriber_claim'' (benchmarkSchedulerConfig jobState) (node_of jobState ''gpu-1''))) 5 = Some (json_obj sampleJob)" by code_simp
qed

text \<open>Witness: a job with one attempt is claimed, fails, and can not be claimed again.\<close>

definition onePolicy :: BenchmarkSchedulerConfig where
  "onePolicy = (cap_BenchmarkScheduler (c_Capabilities (Default ''marshal'')))\<lparr> bs_MaxAttempts := 1 \<rparr>"

theorem attempts_bounded_witness:
  "let job = fst (createManagedBenchmarkJob 5 ''b1'' ''auto'' [] onePolicy zeroNode);
       evs = [Claimed 6 onePolicy, Reported 7 onePolicy ''failed'' [], Reconciled 9 ''tick'' onePolicy] in
   history job evs \<and> int (length (filter is_claim evs)) \<le> bs_MaxAttempts (NormalizeBenchmarkSchedulerConfig onePolicy) \<and>
   phase_of (fold job_step evs job) = Closed"
proof -
  let ?job = "fst (createManagedBenchmarkJob 5 ''b1'' ''auto'' [] onePolicy zeroNode)"
  let ?evs = "[Claimed 6 onePolicy, Reported 7 onePolicy ''failed'' [], Reconciled 9 ''tick'' onePolicy]"
  have h: "history ?job ?evs" by code_simp
  have "phase_of (fold job_step ?evs ?job) = Closed" by code_simp
  with attempts_bounded [OF h] h show ?thesis by simp
qed

text \<open>Witness: a job whose lease ended at 6 is timed out at 9, one whose lease runs to 20 keeps it.\<close>

definition leased_job :: "gotime \<Rightarrow> gobj" where
  "leased_job t = [(''status'', GStr ''running''), (''attempt'', GInt 1), (''max_attempts'', GInt 3), (''timeout_at'', GTime t)]"

definition leasedNode :: Node where
  "leasedNode = zeroNode\<lparr> n_NodeID := ''gpu-1'', n_Observed := [(''benchmark_jobs'', GMaps [leased_job 6, leased_job 20])] \<rparr>"

theorem leases_enforced_witness:
  "sr_TimedOut (fst (reconcileBenchmarkJobsForNode 9 ''tick'' onePolicy leasedNode)) = 1 \<and>
   list_all (\<lambda>job. if phase_of job = Leased then lease_runs 9 job else True)
     (job_list (snd (reconcileBenchmarkJobsForNode 9 ''tick'' onePolicy leasedNode))) \<and>
   map phase_of (job_list (snd (reconcileBenchmarkJobsForNode 9 ''tick'' onePolicy leasedNode))) = [Backoff, Leased]"
proof -
  have "length (filter (\<lambda>job. phase_of job = Leased \<and> expired 9 (NormalizeBenchmarkSchedulerConfig onePolicy) job) (job_list leasedNode)) = 1"
    by code_simp
  moreover have "map phase_of (job_list (snd (reconcileBenchmarkJobsForNode 9 ''tick'' onePolicy leasedNode))) = [Backoff, Leased]" by code_simp
  ultimately show ?thesis
    using leases_enforced [of 9 "''tick''" onePolicy leasedNode] by (simp add: list_all_iff)
qed

end
