(* ===== verification/ModelLifecycle.thy ===== *)
theory ModelLifecycle
  imports BenchmarkJobs
begin

text \<open>
  \<^verbatim>\<open>model_lifecycle_status.go\<close>, \<^verbatim>\<open>model_lifecycle_actions.go\<close> and \<^verbatim>\<open>model_lifecycle_action_history.go\<close> of \<^verbatim>\<open>internal/httpapi\<close>: the models
  a node reports and their states, the keep-warm actions an operator queues for a managed node and a subscriber claims
  and reports on, who may receive such an action, and the pages that summarise both.
\<close>

section \<open>The models of a node\<close>

definition normalizeModelLifecycleState :: "string \<Rightarrow> string" where
  "normalizeModelLifecycleState state =
    (let s = ToLower (TrimSpace state) in
     if s \<in> {''installed'', ''loading'', ''loaded'', ''warm'', ''busy'', ''unloaded'', ''evicted'', ''failed''} then s
     else if s = [] then ''installed'' else ''unknown'')"

definition clean_model :: "string \<Rightarrow> ModelState \<Rightarrow> ModelState" where
  "clean_model name m =
    \<lparr> ms_Name = name, ms_State = normalizeModelLifecycleState (ms_State m), ms_KeepWarm = ms_KeepWarm m,
      ms_TokensSec = (if 0 < ms_TokensSec m \<and> ms_TokensSec m \<le> 1000000 then ms_TokensSec m else 0),
      ms_LoadTimeMS = (if 0 < ms_LoadTimeMS m \<and> ms_LoadTimeMS m \<le> 3600000 then ms_LoadTimeMS m else 0) \<rparr>"

text \<open>The loop of \<^verbatim>\<open>sanitizeModelStates\<close>, with the names seen so far in lower case.\<close>

fun clean_models :: "string list \<Rightarrow> ModelState list \<Rightarrow> ModelState list" where
  "clean_models names [] = []"
| "clean_models names (m # ms) =
    (let name = safeBenchmarkString (ms_Name m) in
     if name = [] then clean_models names ms
     else if ToLower name \<in> set names then clean_models names ms
     else clean_model name m # clean_models (ToLower name # names) ms)"

definition model_less :: "ModelState \<Rightarrow> ModelState \<Rightarrow> bool" where
  "model_less a b \<longleftrightarrow> ToLower (ms_Name a) < ToLower (ms_Name b)"

definition sanitizeModelStates :: "ModelState list \<Rightarrow> ModelState list" where
  "sanitizeModelStates models = SliceStable model_less (clean_models [] models)"

definition add_count :: "string \<Rightarrow> int \<Rightarrow> (string, int) gomap \<Rightarrow> (string, int) gomap" where
  "add_count k n m = goput k (i64 ((case goget m k of None \<Rightarrow> 0 | Some x \<Rightarrow> x) + n)) m"

definition count_of :: "(string, int) gomap \<Rightarrow> string \<Rightarrow> int" where
  "count_of m k = (case goget m k of None \<Rightarrow> 0 | Some x \<Rightarrow> x)"

definition count_model :: "ModelState \<Rightarrow> (string, int) gomap \<Rightarrow> (string, int) gomap" where
  "count_model m summary =
    (let state = normalizeModelLifecycleState (ms_State m);
         summary = add_count state 1 summary;
         summary = (if state = ''warm'' \<or> state = ''loaded'' \<or> state = ''busy'' then add_count ''loaded'' 1 summary else summary)
     in if ms_KeepWarm m then add_count ''keep_warm'' 1 summary else summary)"

definition modelLifecycleSummaryForModels :: "ModelState list \<Rightarrow> (string, int) gomap" where
  "modelLifecycleSummaryForModels models = fold count_model models []"

definition SourceSubscriberReported :: string where "SourceSubscriberReported = ''subscriber_reported''"
definition SourceMarshalObserved :: string where "SourceMarshalObserved = ''marshal_observed''"
definition ModeRich :: string where "ModeRich = ''rich_lifecycle_metadata''"
definition ModeInventoryOnly :: string where "ModeInventoryOnly = ''inventory_only''"

definition applyModelLifecycleObserved :: "string \<Rightarrow> string \<Rightarrow> gotime \<Rightarrow> Node \<Rightarrow> Node" where
  "applyModelLifecycleObserved source mode now node =
    (let summary = modelLifecycleSummaryForModels (n_Models node) in
     observe [(''model_lifecycle_source'', GStr source), (''model_lifecycle_mode'', GStr mode),
       (''model_lifecycle_updated_at'', GTime now), (''model_lifecycle_summary'', GCounts summary),
       (''model_count'', GInt (int (length (n_Models node)))), (''warm_model_count'', GInt (count_of summary ''warm'')),
       (''keep_warm_count'', GInt (count_of summary ''keep_warm'')), (''warm_state_supported'', GBool (n_WarmStateSupported node))] node)"

section \<open>The list of actions\<close>

definition maxModelLifecycleActions :: nat where "maxModelLifecycleActions = 8"

definition modelLifecycleActions :: "gval \<Rightarrow> gobj list" where
  "modelLifecycleActions existing = benchmarkJobs existing"

definition action_list :: "Node \<Rightarrow> gobj list" where
  "action_list node = modelLifecycleActions (field (n_Observed node) ''model_lifecycle_actions'')"

definition upsertModelLifecycleAction :: "gval \<Rightarrow> gobj \<Rightarrow> gobj list" where
  "upsertModelLifecycleAction existing action =
    (let i = benchmarkJobString (field action ''action_id'') in
     take maxModelLifecycleActions (action #
       filter (\<lambda>c. \<not> (i \<noteq> [] \<and> benchmarkJobString (field c ''action_id'') = i)) (modelLifecycleActions existing)))"

definition nextQueuedModelLifecycleAction :: "Node \<Rightarrow> gobj option" where
  "nextQueuedModelLifecycleAction node = find (\<lambda>a. benchmarkJobString (field a ''status'') = ''queued'') (action_list node)"

definition findModelLifecycleAction :: "Node \<Rightarrow> string \<Rightarrow> gobj option" where
  "findModelLifecycleAction node actionID = find (\<lambda>a. benchmarkJobString (field a ''action_id'') = actionID) (action_list node)"

text \<open>The last four lines of each handler that touches an action: the status of the node and the action in front of the list.\<close>

definition put_action :: "string \<Rightarrow> gval \<Rightarrow> gotime \<Rightarrow> gobj \<Rightarrow> Node \<Rightarrow> Node" where
  "put_action st actionID now action node =
    (let node = observe [(''model_lifecycle_action_status'', GStr st), (''model_lifecycle_action_id'', actionID),
           (''model_lifecycle_action_updated_at'', GTime now)] node in
     observe [(''model_lifecycle_actions'', GMaps (upsertModelLifecycleAction (field (n_Observed node) ''model_lifecycle_actions'') action))]
       node)"

section \<open>Who may receive an action\<close>

record modelLifecycleActionPolicy =
  lp_Eligible :: bool
  lp_ControlLevel :: string
  lp_TrustLevel :: string
  lp_ApprovalState :: string
  lp_ReasonCodes :: "string list"
  lp_Message :: string

definition addModelLifecycleActionPolicyReason :: "string \<Rightarrow> string \<Rightarrow> modelLifecycleActionPolicy \<Rightarrow> modelLifecycleActionPolicy" where
  "addModelLifecycleActionPolicyReason reason message p =
    p\<lparr> lp_ReasonCodes := lp_ReasonCodes p @ [reason], lp_Message := (if lp_Message p = [] then message else lp_Message p) \<rparr>"

definition reason_if :: "bool \<Rightarrow> string \<Rightarrow> string \<Rightarrow> modelLifecycleActionPolicy \<Rightarrow> modelLifecycleActionPolicy" where
  "reason_if b reason message p = (if b then addModelLifecycleActionPolicyReason reason message p else p)"

definition modelLifecycleActionApprovalState :: "Node \<Rightarrow> string" where
  "modelLifecycleActionApprovalState node =
    (if n_ApprovalState node \<noteq> [] then n_ApprovalState node
     else if n_Approved node then ApprovalStateApproved else ApprovalStatePending)"

definition modelLifecycleActionBasePolicyForNode :: "Node \<Rightarrow> modelLifecycleActionPolicy" where
  "modelLifecycleActionBasePolicyForNode node =
    (let control = routingStatusControlLevel node; approval = modelLifecycleActionApprovalState node;
         p = \<lparr> lp_Eligible = False, lp_ControlLevel = control, lp_TrustLevel = n_TrustLevel node, lp_ApprovalState = approval,
               lp_ReasonCodes = [], lp_Message = [] \<rparr>;
         p = reason_if (control \<noteq> ControlLevelManaged) ''passive_no_model_management_control''
               ''Passive Endpoints are inventory-only and cannot receive model lifecycle actions.'' p;
         p = reason_if (approval \<noteq> ApprovalStateApproved \<or> \<not> n_Approved node) ''node_not_approved''
               ''Managed Node must be approved before model lifecycle actions are queued.'' p;
         p = reason_if (\<not> n_Enabled node) ''node_disabled''
               ''Managed Node must be enabled before model lifecycle actions are queued.'' p;
         p = reason_if (n_Status node \<noteq> [] \<and> n_Status node \<noteq> ''healthy'') ''node_not_healthy''
               ''Managed Node must be healthy before model lifecycle actions are queued.'' p;
         p = reason_if (\<not> n_ManagementSupported node) ''model_management_not_reported''
               ''Managed Node must report model-management support through subscriber metadata before actions are queued.'' p
     in reason_if (\<not> n_WarmStateSupported node) ''warm_state_not_reported''
          ''Managed Node must report warm-state support through subscriber metadata before keep-warm actions are queued.'' p)"

definition finalizeModelLifecycleActionPolicy :: "modelLifecycleActionPolicy \<Rightarrow> modelLifecycleActionPolicy" where
  "finalizeModelLifecycleActionPolicy p =
    (if lp_ReasonCodes p = [] then
       p\<lparr> lp_Eligible := True, lp_ReasonCodes := [''managed_subscriber_model_action_allowed''],
          lp_Message := ''Managed Node can receive metadata-only subscriber model lifecycle actions.'' \<rparr>
     else p)"

definition modelLifecycleNodeHasModel :: "Node \<Rightarrow> string \<Rightarrow> bool" where
  "modelLifecycleNodeHasModel node modelName =
    list_ex (\<lambda>m. ToLower (ms_Name m) = ToLower (safeBenchmarkString modelName)) (sanitizeModelStates (n_Models node))"

definition modelLifecycleActionPolicyForNode :: "Node \<Rightarrow> string \<Rightarrow> modelLifecycleActionPolicy" where
  "modelLifecycleActionPolicyForNode node modelName0 =
    (let modelName = safeBenchmarkString modelName0; p = modelLifecycleActionBasePolicyForNode node in
     finalizeModelLifecycleActionPolicy
       (if modelName = [] then addModelLifecycleActionPolicyReason ''model_name_required'' ''A safe model name is required.'' p
        else if \<not> modelLifecycleNodeHasModel node modelName then
          addModelLifecycleActionPolicyReason ''model_not_found''
            ''The model must be present in subscriber-reported model inventory before a keep-warm action is queued.'' p
        else p))"

record modelKeepWarmActionRequest =
  kw_ModelName :: string
  kw_Model :: string
  kw_KeepWarm :: bool

definition createModelKeepWarmAction :: "string \<Rightarrow> gotime \<Rightarrow> modelKeepWarmActionRequest \<Rightarrow> Node
    \<Rightarrow> gobj option \<times> modelLifecycleActionPolicy \<times> Node" where
  "createModelKeepWarmAction random now req node =
    (let modelName = safeBenchmarkString (defaultString (kw_ModelName req) (kw_Model req));
         policy = modelLifecycleActionPolicyForNode node modelName in
     if \<not> lp_Eligible policy then (None, policy, node)
     else
       let actionID = GStr (''model_action_'' @ random);
           action = [(''action_id'', actionID), (''action_type'', GStr ''keep_warm''),
             (''policy'', GStr ''managed_subscriber_model_action_v1''), (''node_id'', GStr (n_NodeID node)), (''model'', GStr modelName),
             (''desired_keep_warm'', GBool (kw_KeepWarm req)), (''status'', GStr ''queued''), (''requested_at'', GTime now),
             (''updated_at'', GTime now), (''claim_endpoint'', GStr ''/subscriber/model-actions/claim''),
             (''status_endpoint'', GStr ''/subscriber/model-actions/status'')]
       in (Some action, policy, put_action ''queued'' actionID now action node))"

section \<open>Claims and reports of subscribers\<close>

definition safeModelLifecycleActionStatus :: "string \<Rightarrow> string" where
  "safeModelLifecycleActionStatus st =
    (if TrimSpace st \<in> {''queued'', ''running'', ''completed'', ''failed'', ''cancelled''} then TrimSpace st else [])"

definition error_code_char :: "char \<Rightarrow> bool" where
  "error_code_char c \<longleftrightarrow> is_letter c \<and> lower_char c = c \<or> is_digit c \<or> c \<in> set ''_-.''"

definition safeModelLifecycleActionErrorCode :: "string \<Rightarrow> string" where
  "safeModelLifecycleActionErrorCode v =
    (let v = ToLower (TrimSpace (safeBenchmarkString v)) in
     if v = [] then []
     else if v = ''[redacted]'' then ''redacted_error_code''
     else if 64 < length v then ''invalid_error_code''
     else if \<not> list_all error_code_char v then ''invalid_error_code''
     else v)"

record subscriberModelActionRequest =
  sm_NodeID :: string
  sm_ActionID :: string
  sm_Status :: string
  sm_ErrorCode :: string
  sm_ModelName :: string
  sm_Model :: string
  sm_KeepWarm :: "bool option"
  sm_ActionType :: string

definition claim_action :: "gotime \<Rightarrow> gobj \<Rightarrow> gobj" where
  "claim_action now = puts [(''status'', GStr ''running''), (''claimed_at'', GTime now), (''updated_at'', GTime now)]"

definition claiming_action :: "'r sub_env \<Rightarrow> Node \<Rightarrow> 'r auth_state \<Rightarrow> 'r job_result" where
  "claiming_action e node s =
    (case nextQueuedModelLifecycleAction node of
       None \<Rightarrow> job_answer 200 None s
     | Some action0 \<Rightarrow>
        (let now = be_now e; action = claim_action now action0;
             node = put_action ''running'' (field action ''action_id'') now action node in
         case upsert e node s of
           (Some err, s) \<Rightarrow> job_answer 500 None s
         | (None, s) \<Rightarrow>
            job_answer 200 (Some action) (emit_sub e ''model_lifecycle_action_claimed''
              (node_event node @ [(''action_id'', field action ''action_id''), (''action_type'', field action ''action_type''),
                (''model'', field action ''model'')]) s)))"

definition subscriberModelActionClaim :: "'r sub_env \<Rightarrow> auth_request \<Rightarrow> subscriberModelActionRequest option \<Rightarrow> 'r auth_state
    \<Rightarrow> 'r job_result" where
  "subscriberModelActionClaim e r body s =
    (case body of
       None \<Rightarrow> job_answer 400 None s
     | Some b \<Rightarrow>
        if TrimSpace (sm_NodeID b) = [] then job_answer 400 None s
        else with_reporter e r (TrimSpace (sm_NodeID b)) (claiming_action e) s)"

definition warm_up :: "bool \<Rightarrow> ModelState \<Rightarrow> ModelState" where
  "warm_up desired m =
    m\<lparr> ms_KeepWarm := desired, ms_State := (if desired \<and> ms_State m = ''installed'' then ''warm'' else ms_State m) \<rparr>"

definition applyCompletedModelLifecycleAction :: "gobj \<Rightarrow> gotime \<Rightarrow> Node \<Rightarrow> Node" where
  "applyCompletedModelLifecycleAction action now node =
    (if benchmarkJobString (field action ''action_type'') \<noteq> ''keep_warm'' then node
     else
       let modelName = safeBenchmarkString (benchmarkJobString (field action ''model'')) in
       case as_bool (field action ''desired_keep_warm'') of
         None \<Rightarrow> node
       | Some desired \<Rightarrow>
          if modelName = [] then node
          else applyModelLifecycleObserved SourceSubscriberReported ModeRich now
            (node\<lparr> n_Models := (case replace_first (\<lambda>m. EqualFold (ms_Name m) modelName) (warm_up desired) (n_Models node) of
               None \<Rightarrow> n_Models node | Some ms \<Rightarrow> ms) \<rparr>))"

definition report_action :: "gotime \<Rightarrow> string \<Rightarrow> string \<Rightarrow> gobj \<Rightarrow> gobj" where
  "report_action now st errorCode action0 =
    (let action = puts [(''status'', GStr st), (''updated_at'', GTime now)] action0;
         action = (if errorCode \<noteq> [] then goput ''error_code'' (GStr (safeModelLifecycleActionErrorCode errorCode)) action else action)
     in if st = ''completed'' \<or> st = ''cancelled'' then goput ''completed_at'' (GTime now) action
        else if st = ''failed'' then
          (let action = goput ''failed_at'' (GTime now) action in
           if errorCode = [] then goput ''error_code'' (GStr ''subscriber_reported_failed'') action else action)
        else action)"

definition reporting_action :: "'r sub_env \<Rightarrow> string \<Rightarrow> string \<Rightarrow> string \<Rightarrow> Node \<Rightarrow> 'r auth_state \<Rightarrow> 'r job_result" where
  "reporting_action e actionID st errorCode node s =
    (case findModelLifecycleAction node actionID of
       None \<Rightarrow> job_answer 404 None s
     | Some action0 \<Rightarrow>
        (let now = be_now e; action = report_action now st errorCode action0;
             node = (if st = ''completed'' then applyCompletedModelLifecycleAction action now node else node);
             node = put_action st (GStr actionID) now action node in
         case upsert e node s of
           (Some err, s) \<Rightarrow> job_answer 500 None s
         | (None, s) \<Rightarrow>
            job_answer 200 (Some action) (emit_sub e ''model_lifecycle_action_status''
              (node_event (node_of s (n_NodeID node)) @ [(''action_id'', GStr actionID), (''action_type'', field action ''action_type''),
                (''model'', field action ''model''), (''status'', GStr st), (''error_code'', field action ''error_code'')]) s)))"

definition subscriberModelActionStatus :: "'r sub_env \<Rightarrow> auth_request \<Rightarrow> subscriberModelActionRequest option \<Rightarrow> 'r auth_state
    \<Rightarrow> 'r job_result" where
  "subscriberModelActionStatus e r body s =
    (case body of
       None \<Rightarrow> job_answer 400 None s
     | Some b \<Rightarrow>
        (let nodeID = TrimSpace (sm_NodeID b); actionID = safeBenchmarkString (sm_ActionID b);
             st = safeModelLifecycleActionStatus (sm_Status b) in
         if nodeID = [] \<or> actionID = [] then job_answer 400 None s
         else if st = [] then job_answer 400 None s
         else with_reporter e r nodeID (reporting_action e actionID st (sm_ErrorCode b)) s))"

section \<open>The page of models\<close>

record ModelLifecycleNode =
  ln_NodeID :: string
  ln_ControlLevel :: string
  ln_TrustLevel :: string
  ln_Source :: string
  ln_Mode :: string
  ln_WarmStateSupported :: bool
  ln_ManagementSupported :: bool
  ln_ModelInventorySource :: string
  ln_ModelCount :: int
  ln_WarmCount :: int
  ln_LoadedCount :: int
  ln_LoadingCount :: int
  ln_InstalledCount :: int
  ln_KeepWarmCount :: int
  ln_FailedCount :: int
  ln_ActionCount :: int
  ln_PendingActionCount :: int
  ln_LastActionStatus :: string
  ln_UpdatedAt :: string
  ln_Message :: string
  ln_ReasonCodes :: "string list"
  ln_Models :: "ModelState list"

record ModelLifecycleStatus =
  ls_Window :: string
  ls_Summary :: "(string, int) gomap"
  ls_Nodes :: "ModelLifecycleNode list"

text \<open>\<^verbatim>\<open>Format(time.RFC3339)\<close>: the time without its fraction.\<close>

definition format_seconds :: "gotime \<Rightarrow> string" where
  "format_seconds t = format_time (t div second * second)"

definition is_pending :: "gobj \<Rightarrow> bool" where
  "is_pending action \<longleftrightarrow> benchmarkJobString (field action ''status'') \<in> {''queued'', ''running''}"

definition modelLifecycleActionSummary :: "Node \<Rightarrow> int \<times> int \<times> string" where
  "modelLifecycleActionSummary node =
    (let actions = action_list node in
     (int (length actions), int (length (filter is_pending actions)),
      case actions of [] \<Rightarrow> [] | a # _ \<Rightarrow> benchmarkJobString (field a ''status'')))"

text \<open>\<^verbatim>\<open>modelLifecycleModels\<close> copies the five fields of each model and so is the identity here.\<close>

definition modelLifecycleForNode :: "Node \<Rightarrow> ModelLifecycleNode" where
  "modelLifecycleForNode node =
    (let control = routingStatusControlLevel node; passive = (control = ControlLevelPassive);
         models = sanitizeModelStates (n_Models node); summary = modelLifecycleSummaryForModels models;
         (actionCount, pendingActionCount, lastActionStatus) = modelLifecycleActionSummary node;
         item = \<lparr> ln_NodeID = n_NodeID node, ln_ControlLevel = control, ln_TrustLevel = n_TrustLevel node,
           ln_Source = (if passive then SourceMarshalObserved else SourceSubscriberReported),
           ln_Mode = (if passive then ModeInventoryOnly else ModeRich),
           ln_WarmStateSupported = (n_WarmStateSupported node \<and> \<not> passive),
           ln_ManagementSupported = (n_ManagementSupported node \<and> \<not> passive),
           ln_ModelInventorySource = n_ModelInventorySource node,
           ln_ModelCount = int (length models), ln_WarmCount = count_of summary ''warm'', ln_LoadedCount = count_of summary ''loaded'',
           ln_LoadingCount = count_of summary ''loading'', ln_InstalledCount = count_of summary ''installed'',
           ln_KeepWarmCount = count_of summary ''keep_warm'', ln_FailedCount = count_of summary ''failed'',
           ln_ActionCount = actionCount, ln_PendingActionCount = pendingActionCount, ln_LastActionStatus = lastActionStatus,
           ln_UpdatedAt = [],
           ln_Message = (if passive
             then ''Passive Endpoint model inventory is marshal-observed from /api/tags; warm-state and local model control are unavailable.''
             else ''Managed Node reports model lifecycle and warm-state metadata through subscriber heartbeat.''),
           ln_ReasonCodes = (if passive then [''passive_inventory_only'', ''warm_state_unavailable'', ''model_management_unavailable'']
             else [''managed_lifecycle_subscriber_reported'']),
           ln_Models = models \<rparr>;
         item = (if passive then item\<lparr> ln_WarmCount := 0, ln_LoadingCount := 0, ln_KeepWarmCount := 0 \<rparr> else item)
     in case (if passive then None else n_LastReportedAt node) of
          Some t \<Rightarrow> item\<lparr> ln_UpdatedAt := format_seconds t \<rparr>
        | None \<Rightarrow> (case n_LastObservedAt node of
            Some t \<Rightarrow> item\<lparr> ln_UpdatedAt := format_seconds t \<rparr>
          | None \<Rightarrow> item))"

definition count_lifecycle_node :: "ModelLifecycleNode \<Rightarrow> (string, int) gomap \<Rightarrow> (string, int) gomap" where
  "count_lifecycle_node item summary =
    (let summary = fold (\<lambda>(k, n). add_count k n)
           [(''nodes'', 1), (''models'', ln_ModelCount item), (''warm_models'', ln_WarmCount item), (''loaded_models'', ln_LoadedCount item),
            (''loading_models'', ln_LoadingCount item), (''installed_models'', ln_InstalledCount item),
            (''keep_warm_models'', ln_KeepWarmCount item), (''failed_models'', ln_FailedCount item),
            (''model_lifecycle_actions'', ln_ActionCount item), (''pending_model_lifecycle_actions'', ln_PendingActionCount item)] summary;
         summary = (if ln_ControlLevel item = ControlLevelPassive then add_count ''passive_inventory_only_nodes'' 1 summary else summary)
     in if ln_WarmStateSupported item then add_count ''warm_state_supported_nodes'' 1 summary else summary)"

text \<open>The nodes of a map by their keys in order.\<close>

definition nodes_by_id :: "(string, Node) gomap \<Rightarrow> Node list" where
  "nodes_by_id nodes = map (\<lambda>i. case goget nodes i of None \<Rightarrow> zeroNode | Some n \<Rightarrow> n) (SliceStable (<) (map fst nodes))"

definition summarizeModelLifecycle :: "(string, Node) gomap \<Rightarrow> ModelLifecycleStatus" where
  "summarizeModelLifecycle nodes =
    (let items = map modelLifecycleForNode (nodes_by_id nodes) in
     \<lparr> ls_Window = ''current_model_lifecycle'', ls_Summary = fold count_lifecycle_node items [], ls_Nodes = items \<rparr>)"

definition modelLifecycleStatus :: "'r auth_state \<Rightarrow> ModelLifecycleStatus" where
  "modelLifecycleStatus s = summarizeModelLifecycle (st_Nodes (Snapshot (at_store s)))"

section \<open>The page of policies\<close>

record ModelLifecycleActionPolicyNode =
  pn_NodeID :: string
  pn_ControlLevel :: string
  pn_TrustLevel :: string
  pn_ApprovalState :: string
  pn_Source :: string
  pn_Mode :: string
  pn_Eligible :: bool
  pn_SupportedActions :: "string list"
  pn_ReasonCodes :: "string list"
  pn_Message :: string
  pn_ModelCount :: int
  pn_ActionCount :: int
  pn_PendingActionCount :: int
  pn_LastActionStatus :: string

record ModelLifecycleActionPolicyStatus =
  ps_Window :: string
  ps_Summary :: "(string, int) gomap"
  ps_Nodes :: "ModelLifecycleActionPolicyNode list"

definition modelLifecycleActionPolicyForStatus :: "Node \<Rightarrow> ModelLifecycleActionPolicyNode" where
  "modelLifecycleActionPolicyForStatus node =
    (let p = modelLifecycleActionBasePolicyForNode node; models = sanitizeModelStates (n_Models node);
         p = (if models = [] \<and> lp_ReasonCodes p = [] then
                addModelLifecycleActionPolicyReason ''model_inventory_empty''
                  ''Managed Node must report at least one safe model before keep-warm actions can be queued.'' p
              else p);
         p = finalizeModelLifecycleActionPolicy p;
         (actionCount, pendingActionCount, lastActionStatus) = modelLifecycleActionSummary node;
         passive = (lp_ControlLevel p = ControlLevelPassive)
     in \<lparr> pn_NodeID = n_NodeID node, pn_ControlLevel = lp_ControlLevel p, pn_TrustLevel = lp_TrustLevel p,
          pn_ApprovalState = lp_ApprovalState p,
          pn_Source = (if passive then SourceMarshalObserved else SourceSubscriberReported),
          pn_Mode = (if passive then ModeInventoryOnly else ''subscriber_claimed_model_actions''), pn_Eligible = lp_Eligible p,
          pn_SupportedActions = (if lp_Eligible p then [''keep_warm''] else []), pn_ReasonCodes = lp_ReasonCodes p,
          pn_Message = lp_Message p, pn_ModelCount = int (length models), pn_ActionCount = actionCount,
          pn_PendingActionCount = pendingActionCount, pn_LastActionStatus = lastActionStatus \<rparr>)"

definition count_policy_node :: "ModelLifecycleActionPolicyNode \<Rightarrow> (string, int) gomap \<Rightarrow> (string, int) gomap" where
  "count_policy_node item summary =
    (let summary = fold (\<lambda>(k, n). add_count k n)
           [(''nodes'', 1), (''models'', pn_ModelCount item), (''model_lifecycle_actions'', pn_ActionCount item),
            (''pending_model_lifecycle_actions'', pn_PendingActionCount item),
            (if pn_Eligible item then ''eligible_nodes'' else ''blocked_nodes'', 1)] summary
     in if pn_ControlLevel item = ControlLevelPassive then add_count ''passive_inventory_only_nodes'' 1 summary else summary)"

definition summarizeModelLifecycleActionPolicies :: "(string, Node) gomap \<Rightarrow> ModelLifecycleActionPolicyStatus" where
  "summarizeModelLifecycleActionPolicies nodes =
    (let items = map modelLifecycleActionPolicyForStatus (nodes_by_id nodes) in
     \<lparr> ps_Window = ''current_model_lifecycle_action_policy'', ps_Summary = fold count_policy_node items [], ps_Nodes = items \<rparr>)"

definition modelLifecycleActionPolicyStatus :: "'r auth_state \<Rightarrow> ModelLifecycleActionPolicyStatus" where
  "modelLifecycleActionPolicyStatus s = summarizeModelLifecycleActionPolicies (st_Nodes (Snapshot (at_store s)))"

section \<open>The page of recent actions\<close>

record ModelLifecycleActionHistoryFilter =
  hf_Status :: string
  hf_NodeID :: string
  hf_Limit :: int

record ModelLifecycleActionHistoryItem =
  hi_ActionID :: string
  hi_ActionType :: string
  hi_Policy :: string
  hi_NodeID :: string
  hi_ControlLevel :: string
  hi_TrustLevel :: string
  hi_ApprovalState :: string
  hi_Model :: string
  hi_DesiredKeepWarm :: bool
  hi_Status :: string
  hi_RequestedAt :: string
  hi_ClaimedAt :: string
  hi_UpdatedAt :: string
  hi_CompletedAt :: string
  hi_FailedAt :: string
  hi_ErrorCode :: string

record ModelLifecycleActionHistoryStatus =
  hs_Window :: string
  hs_Retention :: string
  hs_MaxActionsPerNode :: int
  hs_Filters :: ModelLifecycleActionHistoryFilter
  hs_Summary :: "(string, int) gomap"
  hs_TotalMatches :: int
  hs_Count :: int
  hs_Actions :: "ModelLifecycleActionHistoryItem list"

definition modelLifecycleActionHistoryDefaultLimit :: int where "modelLifecycleActionHistoryDefaultLimit = 20"
definition modelLifecycleActionHistoryMaxLimit :: int where "modelLifecycleActionHistoryMaxLimit = 50"

text \<open>\<^verbatim>\<open>strconv.Atoi\<close>: an optional sign, at least one digit, nothing else, and within 64 bits.\<close>

definition Atoi :: "string \<Rightarrow> int option" where
  "Atoi s =
    (let (neg, ds) = (case s of c # r \<Rightarrow> if c = CHR ''-'' then (True, r) else if c = CHR ''+'' then (False, r) else (False, s)
           | [] \<Rightarrow> (False, []));
         n = (if neg then - int (dec_val 0 ds) else int (dec_val 0 ds))
     in if ds = [] \<or> \<not> list_all is_digit ds \<or> n < - (2 ^ 63) \<or> 2 ^ 63 \<le> n then None else Some n)"

text \<open>The parameters of the query are a function, with \<open>[]\<close> for one that is not given.\<close>

definition modelLifecycleActionHistoryFilterFromRequest :: "(string \<Rightarrow> string) \<Rightarrow> ModelLifecycleActionHistoryFilter option" where
  "modelLifecycleActionHistoryFilterFromRequest query =
    (let f = \<lparr> hf_Status = TrimSpace (query ''status''), hf_NodeID = safeBenchmarkString (query ''node_id''),
           hf_Limit = modelLifecycleActionHistoryDefaultLimit \<rparr> in
     if hf_Status f \<noteq> [] \<and> safeModelLifecycleActionStatus (hf_Status f) = [] then None
     else
       let v = TrimSpace (query ''limit'') in
       if v = [] then Some f
       else case Atoi v of
         None \<Rightarrow> None
       | Some limit \<Rightarrow> if limit < 1 \<or> modelLifecycleActionHistoryMaxLimit < limit then None else Some (f\<lparr> hf_Limit := limit \<rparr>))"

definition normalizeModelLifecycleActionHistoryFilter :: "ModelLifecycleActionHistoryFilter \<Rightarrow> ModelLifecycleActionHistoryFilter" where
  "normalizeModelLifecycleActionHistoryFilter f =
    f\<lparr> hf_Status := safeModelLifecycleActionStatus (hf_Status f), hf_NodeID := safeBenchmarkString (hf_NodeID f),
       hf_Limit := (if hf_Limit f < 1 \<or> modelLifecycleActionHistoryMaxLimit < hf_Limit f
         then modelLifecycleActionHistoryDefaultLimit else hf_Limit f) \<rparr>"

definition modelLifecycleActionTimeString :: "gval \<Rightarrow> string" where
  "modelLifecycleActionTimeString v = (case benchmarkJobTime v of None \<Rightarrow> [] | Some t \<Rightarrow> format_seconds t)"

definition modelLifecycleActionHistoryItem :: "Node \<Rightarrow> gobj \<Rightarrow> ModelLifecycleActionHistoryItem" where
  "modelLifecycleActionHistoryItem node action =
    (let st = safeModelLifecycleActionStatus (benchmarkJobString (field action ''status'')) in
     \<lparr> hi_ActionID = safeBenchmarkString (benchmarkJobString (field action ''action_id'')),
       hi_ActionType = (if benchmarkJobString (field action ''action_type'') = ''keep_warm'' then ''keep_warm'' else ''unknown''),
       hi_Policy = (if benchmarkJobString (field action ''policy'') = ''managed_subscriber_model_action_v1''
         then ''managed_subscriber_model_action_v1'' else ''legacy_managed_model_action''),
       hi_NodeID = safeBenchmarkString (n_NodeID node), hi_ControlLevel = ControlLevelManaged, hi_TrustLevel = n_TrustLevel node,
       hi_ApprovalState = modelLifecycleActionApprovalState node,
       hi_Model = safeBenchmarkString (benchmarkJobString (field action ''model'')),
       hi_DesiredKeepWarm = (as_bool (field action ''desired_keep_warm'') = Some True),
       hi_Status = (if st = [] then ''unknown'' else st),
       hi_RequestedAt = modelLifecycleActionTimeString (field action ''requested_at''),
       hi_ClaimedAt = modelLifecycleActionTimeString (field action ''claimed_at''),
       hi_UpdatedAt = modelLifecycleActionTimeString (field action ''updated_at''),
       hi_CompletedAt = modelLifecycleActionTimeString (field action ''completed_at''),
       hi_FailedAt = modelLifecycleActionTimeString (field action ''failed_at''),
       hi_ErrorCode = safeModelLifecycleActionErrorCode (benchmarkJobString (field action ''error_code'')) \<rparr>)"

fun first_time :: "string list \<Rightarrow> gotime" where
  "first_time [] = 0"
| "first_time (v # vs) = (case parse_time v of Some t \<Rightarrow> t | None \<Rightarrow> first_time vs)"

definition modelLifecycleActionSortTime :: "ModelLifecycleActionHistoryItem \<Rightarrow> gotime" where
  "modelLifecycleActionSortTime item =
    first_time [hi_UpdatedAt item, hi_CompletedAt item, hi_FailedAt item, hi_ClaimedAt item, hi_RequestedAt item]"

definition newer_action :: "ModelLifecycleActionHistoryItem \<Rightarrow> ModelLifecycleActionHistoryItem \<Rightarrow> bool" where
  "newer_action a b \<longleftrightarrow>
    (if modelLifecycleActionSortTime a = modelLifecycleActionSortTime b then hi_ActionID b < hi_ActionID a
     else modelLifecycleActionSortTime b < modelLifecycleActionSortTime a)"

definition matching_actions :: "ModelLifecycleActionHistoryFilter \<Rightarrow> Node \<Rightarrow> ModelLifecycleActionHistoryItem list" where
  "matching_actions f node =
    (if routingStatusControlLevel node \<noteq> ControlLevelManaged then []
     else if hf_NodeID f \<noteq> [] \<and> n_NodeID node \<noteq> hf_NodeID f then []
     else filter (\<lambda>item. hf_Status f = [] \<or> hi_Status item = hf_Status f) (map (modelLifecycleActionHistoryItem node) (action_list node)))"

definition count_action :: "ModelLifecycleActionHistoryItem \<Rightarrow> (string, int) gomap \<Rightarrow> (string, int) gomap" where
  "count_action item summary =
    (let summary = add_count (hi_Status item) 1 (add_count ''actions'' 1 summary) in
     if hi_ErrorCode item \<noteq> [] then add_count ''with_error_code'' 1 summary else summary)"

text \<open>\<^verbatim>\<open>sort.Slice\<close> leaves open the order of actions with the same time and identifier; here they stay in the order of the nodes.\<close>

definition summarizeModelLifecycleActionHistory :: "(string, Node) gomap \<Rightarrow> ModelLifecycleActionHistoryFilter
    \<Rightarrow> ModelLifecycleActionHistoryStatus" where
  "summarizeModelLifecycleActionHistory nodes f =
    (let items = concat (map (matching_actions f \<circ> snd) nodes);
         shown = take (nat (hf_Limit f)) (SliceStable newer_action items)
     in \<lparr> hs_Window = ''recent_model_lifecycle_actions'', hs_Retention = ''bounded_node_state_recent_actions'',
          hs_MaxActionsPerNode = int maxModelLifecycleActions, hs_Filters = f, hs_Summary = fold count_action items [],
          hs_TotalMatches = int (length items), hs_Count = int (length shown), hs_Actions = shown \<rparr>)"

definition modelLifecycleActionHistory :: "(string \<Rightarrow> string) \<Rightarrow> 'r auth_state \<Rightarrow> ModelLifecycleActionHistoryStatus option" where
  "modelLifecycleActionHistory query s =
    map_option (\<lambda>f. summarizeModelLifecycleActionHistory (st_Nodes (Snapshot (at_store s)))
      (normalizeModelLifecycleActionHistoryFilter f)) (modelLifecycleActionHistoryFilterFromRequest query)"

section \<open>Clean inventories\<close>

definition model_states :: "string set" where
  "model_states = {''installed'', ''loading'', ''loaded'', ''warm'', ''busy'', ''unloaded'', ''evicted'', ''failed'', ''unknown''}"

definition clear_text :: "string \<Rightarrow> bool" where
  "clear_text t \<longleftrightarrow> length t \<le> 160 \<and> \<not> list_ex (Contains (ToLower t)) redaction_markers"

definition model_ok :: "ModelState \<Rightarrow> bool" where
  "model_ok m \<longleftrightarrow> ms_Name m \<noteq> [] \<and> clear_text (ms_Name m) \<and> ms_State m \<in> model_states \<and>
     0 \<le> ms_TokensSec m \<and> ms_TokensSec m \<le> 1000000 \<and> 0 \<le> ms_LoadTimeMS m \<and> ms_LoadTimeMS m \<le> 3600000"

lemma redacted_clear: "clear_text ''[redacted]''"
  by code_simp

lemma safe_clear [simp]: "clear_text (safeBenchmarkString v)"
  using redacted_clear by (auto simp: safeBenchmarkString_def Let_def clear_text_def)

lemma normalized_state: "normalizeModelLifecycleState v \<in> model_states"
  by (simp add: normalizeModelLifecycleState_def model_states_def Let_def)

interpretation states: normaliser normalizeModelLifecycleState "\<lambda>v. v \<in> model_states"
proof
  show "normalizeModelLifecycleState v \<in> model_states" for v by (rule normalized_state)
  have "list_all (\<lambda>v. normalizeModelLifecycleState v = v)
    [''installed'', ''loading'', ''loaded'', ''warm'', ''busy'', ''unloaded'', ''evicted'', ''failed'', ''unknown'']" by code_simp
  then show "v \<in> model_states \<Longrightarrow> normalizeModelLifecycleState v = v" for v
    by (auto simp: model_states_def)
qed

abbreviation name_key :: "ModelState \<Rightarrow> string" where
  "name_key m \<equiv> ToLower (ms_Name m)"

abbreviation cleaned :: "ModelState \<Rightarrow> ModelState" where
  "cleaned m \<equiv> clean_model (safeBenchmarkString (ms_Name m)) m"

lemma clean_model_name [simp]: "ms_Name (clean_model name m) = name"
  by (simp add: clean_model_def)

lemma ToLower_eq_Nil: "ToLower v = [] \<longleftrightarrow> v = []"
  by (simp add: ToLower_def)

lemma clean_models_ok: "list_all model_ok (clean_models names ms)"
  by (induction names ms rule: clean_models.induct) (auto simp: Let_def model_ok_def clean_model_def normalized_state)

lemma clean_models_keys: "distinct (map name_key (clean_models names ms)) \<and> set names \<inter> name_key ` set (clean_models names ms) = {}"
  by (induction names ms rule: clean_models.induct) (auto simp: Let_def)

lemma find_clean_models:
  "find (\<lambda>m. name_key m = k) (clean_models names ms) =
    (if k = [] \<or> k \<in> set names then None else map_option cleaned (find (\<lambda>m. ToLower (safeBenchmarkString (ms_Name m)) = k) ms))"
  by (induction names ms rule: clean_models.induct) (auto simp: Let_def ToLower_eq_Nil)

interpretation models: weak_order model_less
  by unfold_locales (auto simp: model_less_def)

text \<open>Sorting keeps what is found by a key that no two elements share.\<close>

lemma find_unique:
  assumes "x \<in> set xs" "P x" "\<And>y. y \<in> set xs \<Longrightarrow> P y \<Longrightarrow> y = x"
  shows "find P xs = Some x"
proof -
  have "find P xs \<noteq> None" using assms(1,2) by (auto simp: find_None_iff)
  then obtain y where y: "find P xs = Some y" by blast
  then have "y \<in> set xs" "P y" by (auto simp: find_Some_iff)
  then show ?thesis using assms(3) y by blast
qed

lemma find_by_key_permuted:
  assumes "distinct (map f xs)" "mset ys = mset xs"
  shows "find (\<lambda>x. f x = k) ys = find (\<lambda>x. f x = k) xs"
proof -
  have s: "set ys = set xs" using assms(2) by (metis set_mset_mset)
  have inj: "inj_on f (set xs)" using assms(1) by (simp add: distinct_map)
  show ?thesis
  proof (cases "k \<in> f ` set xs")
    case True
    then obtain x where x: "x \<in> set xs" "f x = k" by blast
    have only: "y = x" if "y \<in> set xs" "f y = k" for y using inj_onD [OF inj _ that(1) x(1)] that(2) x(2) by simp
    have "find (\<lambda>x. f x = k) ys = Some x" "find (\<lambda>x. f x = k) xs = Some x"
      by (rule find_unique; (unfold s)?; (rule x | erule (1) only))+
    then show ?thesis by simp
  next
    case False
    then have "find (\<lambda>x. f x = k) ys = None" "find (\<lambda>x. f x = k) xs = None" using s by (auto simp: find_None_iff)
    then show ?thesis by simp
  qed
qed

lemma sanitized_strict: "sorted_wrt (\<lambda>a b. name_key a < name_key b) (sanitizeModelStates ms)"
proof -
  have d: "distinct (map name_key (sanitizeModelStates ms))"
    using clean_models_keys [of "[]" ms] unfolding sanitizeModelStates_def
    by (metis mset_SliceStable mset_eq_imp_distinct_iff mset_map)
  have "sorted_wrt (\<lambda>a b. \<not> model_less b a) (sanitizeModelStates ms)"
    using models.sort_ordered unfolding models.ordered_def sanitizeModelStates_def by blast
  then have "sorted (map name_key (sanitizeModelStates ms))"
    by (simp add: model_less_def sorted_map not_less)
  with d show ?thesis
    by (simp add: sorted_wrt_map [symmetric, of "(<)" name_key] strict_sorted_iff)
qed

lemma sanitized_ok: "list_all model_ok (sanitizeModelStates ms)"
  using clean_models_ok [of "[]" ms] by (simp add: sanitizeModelStates_def list_all_iff)

lemma find_sanitized:
  "find (\<lambda>m. name_key m = k) (sanitizeModelStates ms) =
    (if k = [] then None else map_option cleaned (find (\<lambda>m. ToLower (safeBenchmarkString (ms_Name m)) = k) ms))"
proof -
  have "find (\<lambda>m. name_key m = k) (sanitizeModelStates ms) = find (\<lambda>m. name_key m = k) (clean_models [] ms)"
    using clean_models_keys [of "[]" ms] by (intro find_by_key_permuted) (simp_all add: sanitizeModelStates_def)
  then show ?thesis by (simp add: find_clean_models)
qed

text \<open>C14. Type. Whatever models a node reports, the inventory the program works with is well-formed: every
  entry has a name that is not empty, not too long and free of anything that looks like a credential, a state of the known vocabulary,
  and figures within their bounds; the names are in order and differ in more than case; and for every name the first report counts.\<close>

theorem inventory_type:
  "list_all model_ok (sanitizeModelStates ms) \<and>
   sorted_wrt (\<lambda>a b. ToLower (ms_Name a) < ToLower (ms_Name b)) (sanitizeModelStates ms) \<and>
   find (\<lambda>m. ToLower (ms_Name m) = k) (sanitizeModelStates ms) =
     (if k = [] then None
      else map_option (\<lambda>m. clean_model (safeBenchmarkString (ms_Name m)) m) (find (\<lambda>m. ToLower (safeBenchmarkString (ms_Name m)) = k) ms))"
  using sanitized_ok sanitized_strict find_sanitized by simp

section \<open>Counting models\<close>

lemma add_count_get: "goget (add_count k n m) j = (if j = k then Some (i64 (count_of m k + n)) else goget m j)"
  by (simp add: add_count_def count_of_def)

lemma count_of_add: "count_of (add_count k n m) j = (if j = k then i64 (count_of m k + n) else count_of m j)"
  by (simp add: count_of_def add_count_get)

abbreviation in_state :: "string \<Rightarrow> ModelState \<Rightarrow> bool" where
  "in_state st m \<equiv> normalizeModelLifecycleState (ms_State m) = st"

definition loaded_weight :: "ModelState \<Rightarrow> int" where
  "loaded_weight m = (if in_state ''loaded'' m then 2 else if in_state ''warm'' m \<or> in_state ''busy'' m then 1 else 0)"

lemma count_model_loaded:
  assumes "0 \<le> count_of summary ''loaded''" "count_of summary ''loaded'' + 2 < 2 ^ 63"
  shows "count_of (count_model m summary) ''loaded'' = count_of summary ''loaded'' + loaded_weight m"
  using assms by (simp add: count_model_def Let_def count_of_add loaded_weight_def i64_id)

lemma loaded_weight_bounds: "0 \<le> loaded_weight m" "loaded_weight m \<le> 2"
  by (simp_all add: loaded_weight_def)

lemma fold_count_loaded:
  assumes "0 \<le> count_of summary ''loaded''" "count_of summary ''loaded'' + 2 * int (length models) < 2 ^ 63"
  shows "count_of (fold count_model models summary) ''loaded'' = count_of summary ''loaded'' + sum_list (map loaded_weight models)"
  using assms
proof (induction models arbitrary: summary)
  case (Cons m models)
  have c: "count_of (count_model m summary) ''loaded'' = count_of summary ''loaded'' + loaded_weight m"
    using Cons.prems by (intro count_model_loaded) simp_all
  have "count_of (fold count_model models (count_model m summary)) ''loaded'' =
      count_of (count_model m summary) ''loaded'' + sum_list (map loaded_weight models)"
    using Cons.prems loaded_weight_bounds [of m] by (intro Cons.IH) (simp_all add: c)
  then show ?case by (simp add: c)
qed simp

lemma sum_loaded_weight:
  "sum_list (map loaded_weight models) = int (length (filter (in_state ''warm'') models)) + int (length (filter (in_state ''busy'') models)) +
     2 * int (length (filter (in_state ''loaded'') models))"
  by (induction models) (simp_all add: loaded_weight_def)

text \<open>The count of loaded models on the lifecycle page: a warm or a busy model counts once, and a model whose state is loaded counts
  twice, once for its state and once as one of the three kinds of loaded models.\<close>

theorem loaded_count:
  assumes "int (length (n_Models node)) < 2 ^ 62"
  shows "ln_LoadedCount (modelLifecycleForNode node) =
    (let count = \<lambda>st. int (length (filter (\<lambda>m. ms_State m = st) (sanitizeModelStates (n_Models node)))) in
     count ''warm'' + count ''busy'' + 2 * count ''loaded'')"
proof -
  let ?ms = "sanitizeModelStates (n_Models node)"
  have "length (clean_models names ms) \<le> length ms" for names ms
    by (induction ms arbitrary: names) (simp_all add: Let_def le_SucI)
  then have "int (length ?ms) < 2 ^ 62" using assms by (simp add: sanitizeModelStates_def) (meson le_less_trans of_nat_mono)
  then have "count_of (modelLifecycleSummaryForModels ?ms) ''loaded'' = sum_list (map loaded_weight ?ms)"
    using fold_count_loaded [of "[]" ?ms] by (simp add: modelLifecycleSummaryForModels_def count_of_def)
  moreover have "normalizeModelLifecycleState (ms_State m) = ms_State m" if "m \<in> set ?ms" for m
    using that sanitized_ok [of "n_Models node"] states.norm_id by (simp add: list_all_iff model_ok_def)
  then have "filter (in_state st) ?ms = filter (\<lambda>m. ms_State m = st) ?ms" for st by (intro filter_cong) simp_all
  moreover have "ln_LoadedCount (modelLifecycleForNode node) = count_of (modelLifecycleSummaryForModels ?ms) ''loaded''"
    by (simp add: modelLifecycleForNode_def Let_def case_prod_unfold split: option.split)
  ultimately show ?thesis by (simp add: sum_loaded_weight)
qed

section \<open>Who may receive an action\<close>

definition may_receive :: "Node \<Rightarrow> bool" where
  "may_receive node \<longleftrightarrow> n_ControlLevel node \<noteq> ControlLevelPassive \<and> modelLifecycleActionApprovalState node = ApprovalStateApproved \<and>
     n_Approved node \<and> n_Enabled node \<and> (n_Status node = [] \<or> n_Status node = ''healthy'') \<and>
     n_ManagementSupported node \<and> n_WarmStateSupported node"

lemma reason_if_codes: "lp_ReasonCodes (reason_if b r m p) = [] \<longleftrightarrow> \<not> b \<and> lp_ReasonCodes p = []"
  by (simp add: reason_if_def addModelLifecycleActionPolicyReason_def)

lemma reason_if_eligible [simp]: "lp_Eligible (reason_if b r m p) = lp_Eligible p"
  by (simp add: reason_if_def addModelLifecycleActionPolicyReason_def)

lemma add_reason [simp]: "lp_Eligible (addModelLifecycleActionPolicyReason r m p) = lp_Eligible p"
  "lp_ReasonCodes (addModelLifecycleActionPolicyReason r m p) \<noteq> []"
  by (simp_all add: addModelLifecycleActionPolicyReason_def)

lemma managed_not_passive [simp]: "ControlLevelPassive \<noteq> ControlLevelManaged"
  by (simp add: ControlLevelPassive_def ControlLevelManaged_def)

lemma base_policy:
  "lp_ReasonCodes (modelLifecycleActionBasePolicyForNode node) = [] \<longleftrightarrow> may_receive node"
  "\<not> lp_Eligible (modelLifecycleActionBasePolicyForNode node)"
  by (auto simp: modelLifecycleActionBasePolicyForNode_def Let_def reason_if_codes may_receive_def routingStatusControlLevel_def)

lemma finalize_eligible: "lp_Eligible (finalizeModelLifecycleActionPolicy p) \<longleftrightarrow> lp_Eligible p \<or> lp_ReasonCodes p = []"
  by (simp add: finalizeModelLifecycleActionPolicy_def)

lemma policy_eligible:
  "lp_Eligible (modelLifecycleActionPolicyForNode node name) \<longleftrightarrow>
     may_receive node \<and> safeBenchmarkString name \<noteq> [] \<and> modelLifecycleNodeHasModel node (safeBenchmarkString name)"
  by (simp add: modelLifecycleActionPolicyForNode_def Let_def finalize_eligible base_policy)

lemma page_eligible: "pn_Eligible (modelLifecycleActionPolicyForStatus node) \<longleftrightarrow> may_receive node \<and> sanitizeModelStates (n_Models node) \<noteq> []"
  by (auto simp: modelLifecycleActionPolicyForStatus_def Let_def case_prod_unfold finalize_eligible base_policy)

lemma safe_redacted: "safeBenchmarkString ''[redacted]'' = ''[redacted]''" "TrimSpace ''[redacted]'' = ''[redacted]''"
  by code_simp+

text \<open>A text that was not cut is not changed by cleaning it again.\<close>

lemma safe_stable:
  assumes "length (TrimSpace v) \<le> 160"
  shows "safeBenchmarkString (safeBenchmarkString v) = safeBenchmarkString v" "TrimSpace (safeBenchmarkString v) = safeBenchmarkString v"
  using assms safe_redacted by (auto simp: safeBenchmarkString_def Let_def)

lemma sanitized_name:
  assumes "m \<in> set (sanitizeModelStates ms)"
  obtains m0 where "m0 \<in> set ms" "ms_Name m = safeBenchmarkString (ms_Name m0)" "ms_Name m \<noteq> []"
proof -
  have "\<exists>m0 \<in> set ms. ms_Name m = safeBenchmarkString (ms_Name m0)" if "m \<in> set (clean_models names ms)" for names
    using that by (induction names ms rule: clean_models.induct) (auto simp: Let_def split: if_splits)
  moreover have "m \<in> set (clean_models [] ms)" using assms by (simp add: sanitizeModelStates_def)
  moreover have "ms_Name m \<noteq> []" using sanitized_ok [of ms] assms by (simp add: list_all_iff model_ok_def)
  ultimately show thesis using that by blast
qed

lemma create_Some:
  "fst (createModelKeepWarmAction random now req node) \<noteq> None \<longleftrightarrow>
     lp_Eligible (modelLifecycleActionPolicyForNode node (safeBenchmarkString (defaultString (kw_ModelName req) (kw_Model req))))"
  by (simp add: createModelKeepWarmAction_def Let_def)

text \<open>Equivalence. The policy page tells the operator what queueing an action does: a node is shown as eligible exactly when some keep-warm
  request for it is accepted, and then every model of its inventory can be requested; as long as no reported name is longer than what is kept of it.\<close>

theorem action_page_agrees:
  assumes "list_all (\<lambda>m. length (TrimSpace (ms_Name m)) \<le> 160) (n_Models node)"
  shows "(\<exists>req. fst (createModelKeepWarmAction random now req node) \<noteq> None) = pn_Eligible (modelLifecycleActionPolicyForStatus node) \<and>
    list_all (\<lambda>m. (fst (createModelKeepWarmAction random now \<lparr> kw_ModelName = ms_Name m, kw_Model = [], kw_KeepWarm = warm \<rparr> node) \<noteq> None) =
       pn_Eligible (modelLifecycleActionPolicyForStatus node)) (sanitizeModelStates (n_Models node))"
proof -
  let ?ms = "sanitizeModelStates (n_Models node)"
  let ?req = "\<lambda>m. \<lparr> kw_ModelName = ms_Name m, kw_Model = [], kw_KeepWarm = warm \<rparr>"
  have each: "fst (createModelKeepWarmAction random now (?req m) node) \<noteq> None \<longleftrightarrow> may_receive node" if m: "m \<in> set ?ms" for m
  proof -
    obtain m0 where m0: "m0 \<in> set (n_Models node)" "ms_Name m = safeBenchmarkString (ms_Name m0)" "ms_Name m \<noteq> []"
      using m by (rule sanitized_name)
    have "length (TrimSpace (ms_Name m0)) \<le> 160" using assms m0(1) by (simp add: list_all_iff)
    note st = safe_stable [OF this, folded m0(2)]
    have "modelLifecycleNodeHasModel node (ms_Name m)" using m st by (auto simp: modelLifecycleNodeHasModel_def list_ex_iff)
    then show ?thesis unfolding create_Some policy_eligible using st m0(3) by (simp add: defaultString_def)
  qed
  have "pn_Eligible (modelLifecycleActionPolicyForStatus node)" if "fst (createModelKeepWarmAction random now req node) \<noteq> None" for req
    using that unfolding create_Some policy_eligible page_eligible by (auto simp: modelLifecycleNodeHasModel_def)
  moreover have "\<exists>req. fst (createModelKeepWarmAction random now req node) \<noteq> None" if el: "pn_Eligible (modelLifecycleActionPolicyForStatus node)"
  proof -
    from el have "?ms \<noteq> []" "may_receive node" by (simp_all add: page_eligible)
    then have "fst (createModelKeepWarmAction random now (?req (hd ?ms)) node) \<noteq> None" using each [of "hd ?ms"] by simp
    then show ?thesis by blast
  qed
  moreover have "list_all (\<lambda>m. (fst (createModelKeepWarmAction random now (?req m) node) \<noteq> None) =
      pn_Eligible (modelLifecycleActionPolicyForStatus node)) ?ms"
    unfolding list_all_iff page_eligible using each by auto
  ultimately show ?thesis by blast
qed

section \<open>Actions in the store\<close>

lemma as_maps_json_fixed: "c \<in> set (as_maps (json_val v)) \<Longrightarrow> json_obj c = c"
proof (cases v)
  case (GList vs)
  assume "c \<in> set (as_maps (json_val v))"
  then obtain w where "json_val w = GMap c" using GList by (auto simp: as_maps_def List.map_filter_def as_map_def split: gval.splits)
  then have "json_val (GMap c) = GMap c" by (metis json_val_idem)
  then show ?thesis by (simp add: json_GMap del: json_val.simps)
next
  case (GMaps ms)
  assume "c \<in> set (as_maps (json_val v))"
  then obtain m where "c = json_obj m" unfolding GMaps as_maps_json_GMaps by auto
  then show ?thesis by simp
qed (auto simp: as_maps_def List.map_filter_def as_map_def)

lemma maps_written:
  assumes "field (n_Observed node) k = GMaps ms"
  shows "as_maps (field (n_Observed (jsonNode (prepareNode e node))) k) = map json_obj ms"
proof -
  have "field (n_Observed (jsonNode (prepareNode e node))) k = json_val (GMaps ms)"
    using assms by (simp add: jsonNode_def prepareNode_Observed del: json_val.simps)
  then show ?thesis by (simp only: as_maps_json_GMaps)
qed

lemma put_action_fields [simp]:
  "n_NodeID (put_action st i now action node) = n_NodeID node"
  "n_Models (put_action st i now action node) = n_Models node"
  "field (n_Observed (put_action st i now action node)) ''model_lifecycle_actions'' =
     GMaps (upsertModelLifecycleAction (field (n_Observed node) ''model_lifecycle_actions'') action)"
  by (simp_all add: put_action_def observe_def field_puts Let_def)

lemma node_from_store:
  assumes "reporting_node e r nodeID s = (Inr node, s1)"
  obtains n0 where "node = jsonNode n0"
  using reporting_node_Inr(1) [OF assms] by (auto simp: Snapshot_def cloneState_def jsonState_def goget_map_snd)

lemma stored_actions_fixed:
  assumes "reporting_node e r nodeID s = (Inr node, s1)" "c \<in> set (action_list node)"
  shows "json_obj c = c"
proof -
  obtain n0 where "node = jsonNode n0" using assms(1) by (rule node_from_store)
  then show ?thesis
    using assms(2) as_maps_json_fixed by (simp add: action_list_def modelLifecycleActions_def benchmarkJobs_def jsonNode_def)
qed

lemma stored_after_put:
  assumes "upsert e (put_action st i now action node) s = (err, s')" "n_NodeID node \<noteq> []"
  shows "node_of s' (n_NodeID node) = jsonNode (prepareNode (ae_env (be_auth e)) (put_action st i now action node))"
    and "action_list (node_of s' (n_NodeID node)) =
      map json_obj (upsertModelLifecycleAction (field (n_Observed node) ''model_lifecycle_actions'') action)"
proof -
  show n: "node_of s' (n_NodeID node) = jsonNode (prepareNode (ae_env (be_auth e)) (put_action st i now action node))"
    using node_of_upsert [OF assms(1), of "n_NodeID node"] assms(2) by simp
  show "action_list (node_of s' (n_NodeID node)) =
      map json_obj (upsertModelLifecycleAction (field (n_Observed node) ''model_lifecycle_actions'') action)"
    unfolding n action_list_def modelLifecycleActions_def benchmarkJobs_def by (rule maps_written) simp
qed


abbreviation action_id :: "gobj \<Rightarrow> string" where
  "action_id a \<equiv> benchmarkJobString (field a ''action_id'')"

abbreviation action_status :: "gobj \<Rightarrow> string" where
  "action_status a \<equiv> benchmarkJobString (field a ''status'')"

lemma claim_action_fields: "action_id (claim_action now a) = action_id a" "field (claim_action now a) ''status'' = GStr ''running''"
  by (simp_all add: claim_action_def field_puts)

lemma TrimSpace_running: "TrimSpace ''running'' = ''running''" by code_simp

lemma claim_SomeE:
  assumes "jr_job (subscriberModelActionClaim e r (Some b) s) = Some action"
  obtains node s1 action0 s2 where "reporting_node e r (TrimSpace (sm_NodeID b)) s = (Inr node, s1)" "TrimSpace (sm_NodeID b) \<noteq> []"
    "nextQueuedModelLifecycleAction node = Some action0" "action = claim_action (be_now e) action0"
    "upsert e (put_action ''running'' (field action ''action_id'') (be_now e) action node) s1 = (None, s2)"
    "node_of (jr_state (subscriberModelActionClaim e r (Some b) s)) = node_of s2"
proof -
  let ?i = "TrimSpace (sm_NodeID b)"
  have i: "?i \<noteq> []" and w: "subscriberModelActionClaim e r (Some b) s = with_reporter e r ?i (claiming_action e) s"
    using assms by (auto simp: subscriberModelActionClaim_def job_answer_def split: if_splits)
  obtain node s1 where n: "reporting_node e r ?i s = (Inr node, s1)"
    using assms unfolding w with_reporter_def by (cases "reporting_node e r ?i s"; cases "fst (reporting_node e r ?i s)") (auto simp: job_answer_def)
  then have c: "subscriberModelActionClaim e r (Some b) s = claiming_action e node s1" by (simp add: w with_reporter_def)
  then obtain action0 where a0: "nextQueuedModelLifecycleAction node = Some action0"
    using assms by (cases "nextQueuedModelLifecycleAction node") (auto simp: claiming_action_def job_answer_def)
  let ?action = "claim_action (be_now e) action0"
  let ?node = "put_action ''running'' (field ?action ''action_id'') (be_now e) ?action node"
  obtain err s2 where u: "upsert e ?node s1 = (err, s2)" by fastforce
  have "err = None" using assms unfolding c by (cases err) (simp_all add: claiming_action_def a0 u Let_def job_answer_def)
  then have st: "claiming_action e node s1 = job_answer 200 (Some ?action) (emit_sub e ''model_lifecycle_action_claimed''
      (node_event ?node @ [(''action_id'', field ?action ''action_id''), (''action_type'', field ?action ''action_type''),
        (''model'', field ?action ''model'')]) s2)"
    by (simp add: claiming_action_def a0 u Let_def)
  have "action = ?action" using assms unfolding c st by (simp add: job_answer_def)
  moreover have "node_of (jr_state (claiming_action e node s1)) = node_of s2" unfolding st by (simp add: fun_eq_iff)
  ultimately show thesis using that n i a0 u \<open>err = None\<close> c by simp
qed

lemma claimed_not_queued:
  assumes "jr_job (subscriberModelActionClaim e r (Some b) s) = Some action" "store_wf (at_store s)" "action_id action \<noteq> []"
    and "c \<in> set (action_list (node_of (jr_state (subscriberModelActionClaim e r (Some b) s)) (TrimSpace (sm_NodeID b))))"
    and "action_id c = action_id action"
  shows "action_status c = ''running''"
proof -
  obtain node s1 action0 s2 where h: "reporting_node e r (TrimSpace (sm_NodeID b)) s = (Inr node, s1)" "TrimSpace (sm_NodeID b) \<noteq> []"
    "nextQueuedModelLifecycleAction node = Some action0" "action = claim_action (be_now e) action0"
    "upsert e (put_action ''running'' (field action ''action_id'') (be_now e) action node) s1 = (None, s2)"
    "node_of (jr_state (subscriberModelActionClaim e r (Some b) s)) = node_of s2"
    using assms(1) by (rule claim_SomeE)
  have i: "n_NodeID node = TrimSpace (sm_NodeID b)" by (rule reporting_node_jobs(1) [OF h(1,2) assms(2)])
  have "action0 \<in> set (action_list node)" using h(3) by (auto simp: nextQueuedModelLifecycleAction_def find_Some_iff)
  note fixed = stored_actions_fixed [OF h(1)]
  have id_json: "action_id (json_obj action) = action_id action"
    using arg_cong [OF fixed [OF \<open>action0 \<in> _\<close>], of "\<lambda>a. field a ''action_id''"] by (simp add: h(4) claim_action_def field_puts)
  have "c \<in> json_obj ` set (upsertModelLifecycleAction (field (n_Observed node) ''model_lifecycle_actions'') action)"
    using assms(4) stored_after_put(2) [OF h(5)] h(2) i unfolding h(6) by simp
  then obtain c0 where c0: "c = json_obj c0" "c0 = action \<or> c0 \<in> set (action_list node) \<and> action_id c0 \<noteq> action_id action"
    using assms(3) by (auto simp: upsertModelLifecycleAction_def Let_def action_list_def dest!: in_set_takeD)
  show ?thesis
  proof (cases "c0 = action")
    case True
    then show ?thesis by (simp add: c0(1) h(4) claim_action_fields benchmarkJobString_def TrimSpace_running)
  next
    case False
    then have "c = c0" "action_id c0 \<noteq> action_id action" using c0 fixed by auto
    with assms(5) show ?thesis by simp
  qed
qed

lemma emit_sub_wf: "store_wf (at_store s) \<Longrightarrow> store_wf (at_store (emit_sub e ty fs s))"
  by (simp add: emit_sub_def emit_auth_def Emit_wf)

lemma upsert_wf:
  assumes "upsert e node s = (err, s')" "store_wf (at_store s)" "be_now e \<noteq> 0"
  shows "store_wf (at_store s')"
  using assms UpsertNode_wf [of "ae_env (be_auth e)" "at_store s" node]
  by (auto simp: upsert_def on_store_def split: prod.splits)

lemma reporting_node_wf: "store_wf (at_store s) \<Longrightarrow> store_wf (at_store (snd (reporting_node e r i s)))"
  by (simp add: reporting_node_def verifySubscriberHeartbeatCredential_def getSecret_def Let_def case_prod_unfold emit_sub_wf split: option.split)

lemma claim_wf:
  assumes "store_wf (at_store s)" "be_now e \<noteq> 0"
  shows "store_wf (at_store (jr_state (subscriberModelActionClaim e r (Some b) s)))"
proof -
  have "store_wf (at_store (jr_state (claiming_action e node s1)))" if "store_wf (at_store s1)" for node s1
    using that assms(2) by (auto simp: claiming_action_def Let_def emit_sub_wf upsert_wf split: option.split prod.split)
  then have "store_wf (at_store (jr_state (with_reporter e r i (claiming_action e) s)))" for i
    using reporting_node_wf [OF assms(1), of e r i] by (auto simp: with_reporter_def split: prod.split sum.split)
  then show ?thesis using assms(1) by (simp add: subscriberModelActionClaim_def)
qed

lemma next_queued: "nextQueuedModelLifecycleAction node = Some a \<Longrightarrow> a \<in> set (action_list node) \<and> action_status a = ''queued''"
  by (auto simp: nextQueuedModelLifecycleAction_def find_Some_iff)

text \<open>Safety. An action is handed to one subscriber: a claim returns an action that was queued, and after it a second claim for the
  same node, whoever makes it and whenever, returns another action or none.\<close>

theorem action_claimed_once:
  assumes "store_wf (at_store s)" "be_now e \<noteq> 0"
    and "jr_job (subscriberModelActionClaim e r (Some b) s) = Some action" "action_id action \<noteq> []"
    and "TrimSpace (sm_NodeID b') = TrimSpace (sm_NodeID b)"
  shows "action_id action \<in> action_id ` {a \<in> set (action_list (node_of s (TrimSpace (sm_NodeID b)))). action_status a = ''queued''} \<and>
    map_option action_id (jr_job (subscriberModelActionClaim e' r' (Some b') (jr_state (subscriberModelActionClaim e r (Some b) s)))) \<noteq>
      Some (action_id action)"
proof
  let ?i = "TrimSpace (sm_NodeID b)" and ?s' = "jr_state (subscriberModelActionClaim e r (Some b) s)"
  obtain node s1 action0 s2 where h: "reporting_node e r ?i s = (Inr node, s1)" "?i \<noteq> []"
    "nextQueuedModelLifecycleAction node = Some action0" "action = claim_action (be_now e) action0"
    using assms(3) by (rule claim_SomeE)
  note queued = next_queued [OF h(3)]
  show "action_id action \<in> action_id ` {a \<in> set (action_list (node_of s ?i)). action_status a = ''queued''}"
    using queued reporting_node_jobs(2) [OF h(1,2) assms(1)] by (auto simp: h(4) claim_action_fields)
  show "map_option action_id (jr_job (subscriberModelActionClaim e' r' (Some b') ?s')) \<noteq> Some (action_id action)"
  proof
    assume "map_option action_id (jr_job (subscriberModelActionClaim e' r' (Some b') ?s')) = Some (action_id action)"
    then obtain action' where a': "jr_job (subscriberModelActionClaim e' r' (Some b') ?s') = Some action'" "action_id action' = action_id action"
      by auto
    obtain node' s1' a0 where k: "reporting_node e' r' ?i ?s' = (Inr node', s1')" "nextQueuedModelLifecycleAction node' = Some a0"
        "action' = claim_action (be_now e') a0"
      using claim_SomeE [OF a'(1)] assms(5) by metis
    have "node_of ?s' ?i = node'"
      by (rule reporting_node_jobs(2) [OF k(1) h(2) claim_wf [OF assms(1,2)]])
    then show False
      using claimed_not_queued [OF assms(3,1,4), of a0] next_queued [OF k(2)] a'(2) by (simp add: k(3) claim_action_fields)
  qed
qed

section \<open>The effect of a completed action\<close>

lemma replace_first_find: "replace_first P f xs = None \<longleftrightarrow> find P xs = None"
  by (induction xs) auto

lemma find_replaced:
  assumes "replace_first P f xs = Some ys" "\<And>x. P (f x) = P x"
  shows "find P ys = map_option f (find P xs)"
  using assms by (induction xs arbitrary: ys) (auto split: if_splits)

lemma warm_up_name [simp]: "ms_Name (warm_up d m) = ms_Name m"
  by (simp add: warm_up_def)

lemma applied_models:
  assumes "benchmarkJobString (field action ''action_type'') = ''keep_warm''" "as_bool (field action ''desired_keep_warm'') = Some d"
    and "name = safeBenchmarkString (benchmarkJobString (field action ''model''))" "name \<noteq> []"
  shows "find (\<lambda>m. EqualFold (ms_Name m) name) (n_Models (applyCompletedModelLifecycleAction action now node)) =
    map_option (warm_up d) (find (\<lambda>m. EqualFold (ms_Name m) name) (n_Models node))"
proof -
  have m: "n_Models (applyCompletedModelLifecycleAction action now node) =
      (case replace_first (\<lambda>m. EqualFold (ms_Name m) name) (warm_up d) (n_Models node) of None \<Rightarrow> n_Models node | Some ms \<Rightarrow> ms)"
    using assms by (simp add: applyCompletedModelLifecycleAction_def Let_def applyModelLifecycleObserved_def observe_def)
  show ?thesis
  proof (cases "replace_first (\<lambda>m. EqualFold (ms_Name m) name) (warm_up d) (n_Models node)")
    case None
    then have "find (\<lambda>m. EqualFold (ms_Name m) name) (n_Models node) = None" by (simp add: replace_first_find)
    then show ?thesis by (simp add: m None)
  next
    case (Some ms)
    then show ?thesis using find_replaced [OF Some] m by simp
  qed
qed

lemma prepareNode_Models: "n_Models (prepareNode e n) = n_Models n"
  by (simp add: prepareNode_def normalizeNode_def normalize_times_def normalize_sources_def normalize_approval_def
      normalize_levels_def Let_def)

lemma report_action_field: "k \<notin> {''status'', ''updated_at'', ''error_code'', ''completed_at'', ''failed_at''} \<Longrightarrow>
    field (report_action now st errorCode a) k = field a k"
  by (simp add: report_action_def Let_def field_puts)

text \<open>A completed keep-warm action takes effect: once the report that it was completed is accepted, the first model of the node with
  the name of the action, in any case, has the wish of the operator as its flag (and is warm if it was only installed), and nothing else of it changed.\<close>

theorem keep_warm_applied:
  assumes "store_wf (at_store s)" "jr_status (subscriberModelActionStatus e r (Some b) s) = 200"
    and "safeModelLifecycleActionStatus (sm_Status b) = ''completed''" "i = TrimSpace (sm_NodeID b)"
    and "findModelLifecycleAction (node_of s i) (safeBenchmarkString (sm_ActionID b)) = Some a"
    and "benchmarkJobString (field a ''action_type'') = ''keep_warm''" "as_bool (field a ''desired_keep_warm'') = Some d"
    and "name = safeBenchmarkString (benchmarkJobString (field a ''model''))" "name \<noteq> []"
  shows "find (\<lambda>m. EqualFold (ms_Name m) name) (n_Models (node_of (jr_state (subscriberModelActionStatus e r (Some b) s)) i)) =
    map_option (warm_up d) (find (\<lambda>m. EqualFold (ms_Name m) name) (n_Models (node_of s i)))"
proof -
  let ?aid = "safeBenchmarkString (sm_ActionID b)"
  have i: "i \<noteq> []" and w: "subscriberModelActionStatus e r (Some b) s = with_reporter e r i (reporting_action e ?aid ''completed'' (sm_ErrorCode b)) s"
    using assms(2-4) by (auto simp: subscriberModelActionStatus_def Let_def job_answer_def split: if_splits)
  obtain node s1 where n: "reporting_node e r i s = (Inr node, s1)"
  proof (cases "reporting_node e r i s")
    case (Pair res s1)
    have "res \<noteq> Inl st" for st
      using assms(2) Pair unfolding w with_reporter_def
      by (auto simp: reporting_node_def job_answer_def split: option.splits if_splits prod.splits)
    then show thesis using that Pair by (cases res) auto
  qed
  then have c: "subscriberModelActionStatus e r (Some b) s = reporting_action e ?aid ''completed'' (sm_ErrorCode b) node s1"
    by (simp add: w with_reporter_def)
  note nd = reporting_node_jobs(1,2) [OF n i assms(1)]
  let ?action = "report_action (be_now e) ''completed'' (sm_ErrorCode b) a"
  let ?node = "put_action ''completed'' (GStr ?aid) (be_now e) ?action (applyCompletedModelLifecycleAction ?action (be_now e) node)"
  obtain err s2 where u: "upsert e ?node s1 = (err, s2)" by fastforce
  have id': "n_NodeID ?node = i"
    using nd(1) by (simp add: applyCompletedModelLifecycleAction_def applyModelLifecycleObserved_def observe_def Let_def split: option.split)
  have "node_of (jr_state (reporting_action e ?aid ''completed'' (sm_ErrorCode b) node s1)) i = node_of s2 i"
    using assms(5) nd(2) by (simp add: reporting_action_def Let_def u split: option.split)
  then have "n_Models (node_of (jr_state (subscriberModelActionStatus e r (Some b) s)) i) = n_Models ?node"
    using node_of_upsert [OF u, of i] id' i by (simp add: c jsonNode_def prepareNode_Models)
  then show ?thesis
    using applied_models [of ?action d name "be_now e" node] assms(6-9) nd(2) by (simp add: report_action_field)
qed

section \<open>A concrete action\<close>

definition warmNode :: Node where
  "warmNode = zeroNode\<lparr> n_NodeID := ''gpu-1'', n_Approved := True, n_Enabled := True, n_ApprovalState := ApprovalStateApproved,
     n_ManagementSupported := True, n_WarmStateSupported := True,
     n_Models := [\<lparr> ms_Name = ''Llama3'', ms_State = ''installed'', ms_KeepWarm = False, ms_TokensSec = 0, ms_LoadTimeMS = 0 \<rparr>] \<rparr>"

definition keepWarm :: modelKeepWarmActionRequest where
  "keepWarm = \<lparr> kw_ModelName = '' llama3 '', kw_Model = [], kw_KeepWarm = True \<rparr>"

definition actionState :: "(string, string) gomap auth_state" where
  "actionState = guardedState\<lparr> at_store := snd (UpsertNode sampleEnv (snd (snd (createModelKeepWarmAction ''01'' 5 keepWarm warmNode))) sampleStore) \<rparr>"

definition actionRequest :: "string \<Rightarrow> subscriberModelActionRequest" where
  "actionRequest st = \<lparr> sm_NodeID = ''gpu-1'', sm_ActionID = ''model_action_01'', sm_Status = st, sm_ErrorCode = [], sm_ModelName = [],
     sm_Model = [], sm_KeepWarm = None, sm_ActionType = [] \<rparr>"

lemma upsert_ok: "e_write_ok (ae_env (be_auth e)) \<Longrightarrow> fst (upsert e node s) = None"
  by (simp add: upsert_def on_store_def UpsertNode_def AppState.saveLocked_def Let_def case_prod_unfold)

lemma claim_answers:
  assumes "reporting_node e r i s = (Inr node, s1)" "TrimSpace (sm_NodeID b) = i" "i \<noteq> []"
    and "nextQueuedModelLifecycleAction node = Some a0" "e_write_ok (ae_env (be_auth e))"
  shows "jr_job (subscriberModelActionClaim e r (Some b) s) = Some (claim_action (be_now e) a0)"
  using assms upsert_ok [OF assms(5)]
  by (simp add: subscriberModelActionClaim_def with_reporter_def claiming_action_def Let_def case_prod_unfold job_answer_def)

lemma status_answers:
  assumes "reporting_node e r i s = (Inr node, s1)" "TrimSpace (sm_NodeID b) = i" "i \<noteq> []" "safeBenchmarkString (sm_ActionID b) \<noteq> []"
    and "safeModelLifecycleActionStatus (sm_Status b) \<noteq> []"
    and "findModelLifecycleAction node (safeBenchmarkString (sm_ActionID b)) = Some a0" "e_write_ok (ae_env (be_auth e))"
  shows "jr_status (subscriberModelActionStatus e r (Some b) s) = 200"
  using assms upsert_ok [OF assms(7)]
  by (simp add: subscriberModelActionStatus_def with_reporter_def reporting_action_def Let_def case_prod_unfold job_answer_def)

lemma action_sample:
  "store_wf (at_store actionState)"
  "\<exists>s1. reporting_node jobEnv (reportRequest []) ''gpu-1'' actionState = (Inr (node_of actionState ''gpu-1''), s1)"
  "map_option (\<lambda>a. (action_id a, benchmarkJobString (field a ''action_type''), safeBenchmarkString (benchmarkJobString (field a ''model'')), as_bool (field a ''desired_keep_warm'')))
     (findModelLifecycleAction (node_of actionState ''gpu-1'') ''model_action_01'') = Some (''model_action_01'', ''keep_warm'', ''llama3'', Some True)"
  "map_option action_id (nextQueuedModelLifecycleAction (node_of actionState ''gpu-1'')) = Some ''model_action_01''"
proof -
  show "store_wf (at_store actionState)"
    using UpsertNode_wf [of sampleEnv sampleStore] reachable_wf [OF sampleStore_reachable] by (simp add: actionState_def sampleEnv_def)
  have "\<not> isl (fst (reporting_node jobEnv (reportRequest []) ''gpu-1'' actionState))" by code_simp
  then obtain n s1 where r: "reporting_node jobEnv (reportRequest []) ''gpu-1'' actionState = (Inr n, s1)"
    by (metis isl_def old.sum.exhaust prod.collapse)
  with reporting_node_Inr(1) [OF r] show "\<exists>s1. reporting_node jobEnv (reportRequest []) ''gpu-1'' actionState = (Inr (node_of actionState ''gpu-1''), s1)"
    by (simp add: node_of_def)
qed code_simp+

text \<open>Witness: of two claims the first gets the only queued action and the second none.\<close>

theorem action_claimed_once_witness:
  "let s' = jr_state (subscriberModelActionClaim jobEnv (reportRequest []) (Some (actionRequest [])) actionState) in
   map_option action_id (jr_job (subscriberModelActionClaim jobEnv (reportRequest []) (Some (actionRequest [])) actionState)) = Some ''model_action_01'' \<and>
   map_option action_id (jr_job (subscriberModelActionClaim jobEnv (reportRequest []) (Some (actionRequest [])) s')) \<noteq> Some ''model_action_01''"
proof -
  let ?b = "actionRequest []"
  obtain s1 where r: "reporting_node jobEnv (reportRequest []) ''gpu-1'' actionState = (Inr (node_of actionState ''gpu-1''), s1)"
    using action_sample(2) by blast
  have i: "TrimSpace (sm_NodeID ?b) = ''gpu-1''" and ok: "e_write_ok (ae_env (be_auth jobEnv))" and now: "be_now jobEnv \<noteq> 0" by code_simp+
  obtain a0 where a0: "nextQueuedModelLifecycleAction (node_of actionState ''gpu-1'') = Some a0" "action_id a0 = ''model_action_01''"
    using action_sample(4) by auto
  have first: "jr_job (subscriberModelActionClaim jobEnv (reportRequest []) (Some ?b) actionState) = Some (claim_action (be_now jobEnv) a0)"
    by (rule claim_answers [OF r i _ a0(1) ok]) simp
  from action_claimed_once [OF action_sample(1) now first _ refl, of jobEnv "reportRequest []"] a0(2) first
  show ?thesis by (simp add: Let_def claim_action_fields)
qed

text \<open>Witness: the model is kept warm after the report.\<close>

theorem keep_warm_applied_witness:
  "map_option (\<lambda>m. (ms_Name m, ms_State m, ms_KeepWarm m)) (find (\<lambda>m. EqualFold (ms_Name m) ''llama3'')
     (n_Models (node_of (jr_state (subscriberModelActionStatus jobEnv (reportRequest []) (Some (actionRequest ''completed'')) actionState)) ''gpu-1''))) =
   Some (''Llama3'', ''warm'', True)"
proof -
  let ?b = "actionRequest ''completed''"
  obtain s1 where r: "reporting_node jobEnv (reportRequest []) ''gpu-1'' actionState = (Inr (node_of actionState ''gpu-1''), s1)"
    using action_sample(2) by blast
  have i: "TrimSpace (sm_NodeID ?b) = ''gpu-1''" and st: "safeModelLifecycleActionStatus (sm_Status ?b) = ''completed''"
    and aid: "safeBenchmarkString (sm_ActionID ?b) = ''model_action_01''" and ok: "e_write_ok (ae_env (be_auth jobEnv))" by code_simp+
  obtain a where a: "findModelLifecycleAction (node_of actionState ''gpu-1'') ''model_action_01'' = Some a"
    "benchmarkJobString (field a ''action_type'') = ''keep_warm''" "as_bool (field a ''desired_keep_warm'') = Some True"
    "''llama3'' = safeBenchmarkString (benchmarkJobString (field a ''model''))"
    using action_sample(3) by auto
  have "jr_status (subscriberModelActionStatus jobEnv (reportRequest []) (Some ?b) actionState) = 200"
    by (rule status_answers [OF r i _ _ _ _ ok]) (simp_all add: aid st a(1))
  note kw = keep_warm_applied [OF action_sample(1) this st i [symmetric], unfolded aid, OF a, simplified]
  have "map_option (\<lambda>m. (ms_Name m, ms_State m, ms_KeepWarm m)) (map_option (warm_up True)
      (find (\<lambda>m. EqualFold (ms_Name m) ''llama3'') (n_Models (node_of actionState ''gpu-1'')))) = Some (''Llama3'', ''warm'', True)"
    by code_simp
  then show ?thesis unfolding kw .
qed

text \<open>Witness: the node of the sample is eligible and its one model can be requested.\<close>

theorem action_page_agrees_witness:
  "pn_Eligible (modelLifecycleActionPolicyForStatus warmNode) \<and> (\<exists>req. fst (createModelKeepWarmAction ''01'' 5 req warmNode) \<noteq> None)"
proof -
  have "list_all (\<lambda>m. length (TrimSpace (ms_Name m)) \<le> 160) (n_Models warmNode)"
    "pn_Eligible (modelLifecycleActionPolicyForStatus warmNode)" by code_simp+
  with action_page_agrees [of warmNode "''01''" 5 True] show ?thesis by blast
qed

text \<open>Witness: one loaded model is counted as two.\<close>

theorem loaded_count_witness:
  "ln_ModelCount (modelLifecycleForNode (warmNode\<lparr> n_Models := map (ms_State_update (\<lambda>_. ''loaded'')) (n_Models warmNode) \<rparr>)) = 1 \<and>
   ln_LoadedCount (modelLifecycleForNode (warmNode\<lparr> n_Models := map (ms_State_update (\<lambda>_. ''loaded'')) (n_Models warmNode) \<rparr>)) = 2"
proof -
  let ?node = "warmNode\<lparr> n_Models := map (ms_State_update (\<lambda>_. ''loaded'')) (n_Models warmNode) \<rparr>"
  have "int (length (n_Models ?node)) < 2 ^ 62" by (simp add: warmNode_def)
  moreover have "(let count = \<lambda>st. int (length (filter (\<lambda>m. ms_State m = st) (sanitizeModelStates (n_Models ?node)))) in
     count ''warm'' + count ''busy'' + 2 * count ''loaded'') = 2" by code_simp
  moreover have "ln_ModelCount (modelLifecycleForNode ?node) = 1" by code_simp
  ultimately show ?thesis using loaded_count [of ?node] by simp
qed

end
