(* ===== verification/BenchmarkScheduler.thy ===== *)
theory BenchmarkScheduler
  imports ModelLifecycle
begin

text \<open>
  Around the benchmark jobs: which nodes may be given one and whose results count for placement (\<^verbatim>\<open>benchmark_policy_status.go\<close>), what a
  job may measure (\<^verbatim>\<open>benchmark_suites.go\<close>), the page of the scheduler (\<^verbatim>\<open>benchmark_scheduler_status.go\<close>), the background loop that
  reconciles the jobs (\<^verbatim>\<open>benchmark_scheduler_background.go\<close>), and the operator's handlers for both (\<^verbatim>\<open>server.go\<close>).
\<close>

section \<open>Which nodes may be benchmarked\<close>

record BenchmarkPolicyNode =
  bn_NodeID :: string
  bn_ControlLevel :: string
  bn_TrustLevel :: string
  bn_ApprovalState :: string
  bn_BenchmarkSource :: string
  bn_Eligible :: bool
  bn_Mode :: string
  bn_ReasonCodes :: "string list"
  bn_Message :: string
  bn_PlacementEligible :: bool
  bn_PlacementWindow :: string
  bn_PlacementReasonCodes :: "string list"
  bn_PlacementMessage :: string

record BenchmarkPolicyStatus =
  bps_Window :: string
  bps_Summary :: "(string, int) gomap"
  bps_Nodes :: "BenchmarkPolicyNode list"

text \<open>This package has its own \<^verbatim>\<open>benchmarkSource\<close>, beside the one of the package \<^verbatim>\<open>routing\<close>.\<close>

definition policyBenchmarkSource :: "Node \<Rightarrow> string" where
  "policyBenchmarkSource node =
    (if n_BenchmarkSource node \<noteq> [] then n_BenchmarkSource node
     else if routingStatusControlLevel node = ControlLevelPassive then BenchmarkSourceNone
     else CapabilitySourceSubscriberReported)"

definition benchmarkPolicyString :: "gval \<Rightarrow> string" where
  "benchmarkPolicyString v = (case v of GStr s \<Rightarrow> TrimSpace s | _ \<Rightarrow> [])"

definition benchmarkPolicyFloat :: "gval \<Rightarrow> rat" where
  "benchmarkPolicyFloat v = (case v of GFloat q \<Rightarrow> q | GInt n \<Rightarrow> of_int n | _ \<Rightarrow> 0)"

definition benchmarkPolicyTime :: "gval \<Rightarrow> gotime option" where
  "benchmarkPolicyTime v = as_time v"

text \<open>The loop of \<^verbatim>\<open>latestBenchmarkPolicyResult\<close>: the best result so far with its time.\<close>

fun latest_policy_result :: "(gobj \<times> gotime) option \<Rightarrow> gobj list \<Rightarrow> gobj option" where
  "latest_policy_result best [] = map_option fst best"
| "latest_policy_result best (r # rs) =
    (let t = (case benchmarkPolicyTime (field r ''completed_at'') of None \<Rightarrow> 0 | Some t \<Rightarrow> t) in
     case best of
       None \<Rightarrow> latest_policy_result (Some (r, t)) rs
     | Some (b, bt) \<Rightarrow> latest_policy_result (if bt < t then Some (r, t) else best) rs)"

definition latestBenchmarkPolicyResult :: "Node \<Rightarrow> gobj option" where
  "latestBenchmarkPolicyResult node =
    (let results = as_maps (field (n_Observed node) ''benchmark_results'');
         results = (if results = [] then
             (case as_map (field (n_Observed node) ''benchmark_last_result'') of None \<Rightarrow> [] | Some r \<Rightarrow> [r]) else results)
     in latest_policy_result None results)"

definition benchmarkPlacementPolicyForNode :: "Node \<Rightarrow> gotime \<Rightarrow> bool \<times> string list \<times> string" where
  "benchmarkPlacementPolicyForNode node now =
    (if routingStatusControlLevel node \<noteq> ControlLevelManaged then
       (False, [''benchmark_placement_passive_probe_ignored''],
        ''Passive Endpoint probe metadata is not used for local-control benchmark placement.'')
     else if routingStatusTrustLevel node \<notin> {TrustLevelLocal, TrustLevelLANTrusted} then
       (False, [''benchmark_placement_untrusted_ignored''], ''Benchmark placement waits for local or LAN trusted node trust.'')
     else if policyBenchmarkSource node \<noteq> CapabilitySourceSubscriberReported then
       (False, [''benchmark_placement_source_ignored''], ''Benchmark placement requires subscriber-reported Managed Node summaries.'')
     else case latestBenchmarkPolicyResult node of
       None \<Rightarrow> (False, [''benchmark_placement_summary_missing''],
         ''No subscriber-reported benchmark summary is available for placement yet.'')
     | Some result \<Rightarrow>
        (let status = benchmarkPolicyString (field result ''status'');
             completedAt = (case benchmarkPolicyTime (field result ''completed_at'') of
                 Some t \<Rightarrow> Some t | None \<Rightarrow> benchmarkPolicyTime (field (n_Observed node) ''benchmark_updated_at''));
             rate = benchmarkPolicyFloat (field result ''tokens_per_second'');
             rate = (if rate \<le> 0 then benchmarkPolicyFloat (field result ''output_tokens_per_second'') else rate)
         in if benchmarkPolicyString (field result ''source'') \<noteq> CapabilitySourceSubscriberReported then
              (False, [''benchmark_placement_source_ignored''], ''Only subscriber-reported summaries can drive Managed Node placement.'')
            else if status \<noteq> [] \<and> status \<noteq> ''completed'' \<and> status \<noteq> ''reported'' then
              (False, [''benchmark_placement_status_ignored''], ''Only completed or reported benchmark summaries can drive placement.'')
            else case completedAt of
              None \<Rightarrow> (False, [''benchmark_placement_freshness_missing''], ''Benchmark summary is missing freshness metadata.'')
            | Some t \<Rightarrow>
               if t = 0 then
                 (False, [''benchmark_placement_freshness_missing''], ''Benchmark summary is missing freshness metadata.'')
               else if BenchmarkPlacementFreshnessWindow < time_sub now t then
                 (False, [''benchmark_placement_summary_stale''], ''Benchmark summary is stale and ignored for placement.'')
               else if rate \<le> 0 then
                 (False, [''benchmark_placement_rate_missing''], ''Benchmark summary is missing token-rate metadata.'')
               else (True, [''benchmark_placement_applied'', ''benchmark_placement_fresh''],
                 ''Fresh trusted subscriber-reported benchmark summary can influence routing placement.'')))"

definition benchmarkPolicyForNode :: "Node \<Rightarrow> gotime \<Rightarrow> BenchmarkPolicyNode" where
  "benchmarkPolicyForNode node now =
    (let (placementEligible, placementReasons, placementMessage) = benchmarkPlacementPolicyForNode node now;
         item = \<lparr> bn_NodeID = n_NodeID node, bn_ControlLevel = routingStatusControlLevel node,
           bn_TrustLevel = routingStatusTrustLevel node, bn_ApprovalState = routingStatusApprovalState node,
           bn_BenchmarkSource = policyBenchmarkSource node, bn_Eligible = False, bn_Mode = [], bn_ReasonCodes = [], bn_Message = [],
           bn_PlacementEligible = placementEligible, bn_PlacementWindow = ''24h0m0s'',
           bn_PlacementReasonCodes = placementReasons, bn_PlacementMessage = placementMessage \<rparr> in
     if bn_ControlLevel item = ControlLevelPassive then
       item\<lparr> bn_Mode := ''marshal_observed_probe_only'', bn_ReasonCodes := [''passive_no_local_benchmark_control''],
         bn_Message := ''Passive Endpoint benchmarks are limited to future marshal-observed probes; local benchmark control is unavailable.'' \<rparr>
     else
       let reasons = (if \<not> n_Enabled node then [''node_disabled''] else []) @
             (if \<not> routingStatusApproved node then [''node_not_approved''] else []) @
             (if n_Status node = ''disabled'' \<or> n_Status node = ''failed'' then [''node_status_'' @ n_Status node] else []) in
       if reasons \<noteq> [] then
         item\<lparr> bn_Mode := ''subscriber_reported'', bn_ReasonCodes := reasons,
           bn_Message := ''Managed Node must be approved, enabled, and healthy before queuing subscriber-reported benchmarks.'' \<rparr>
       else
         item\<lparr> bn_Mode := ''subscriber_reported'', bn_Eligible := True, bn_ReasonCodes := [''managed_subscriber_benchmark_allowed''],
           bn_Message := ''Managed Node can queue subscriber-reported benchmark work.'' \<rparr>)"

definition count_benchmark_node :: "BenchmarkPolicyNode \<Rightarrow> (string, int) gomap \<Rightarrow> (string, int) gomap" where
  "count_benchmark_node item =
    fold (\<lambda>k. add_count k 1)
      ([''nodes'', if bn_Eligible item then ''eligible'' else ''ineligible'',
        if bn_PlacementEligible item then ''placement_eligible'' else ''placement_limited'', bn_Mode item] @
       bn_ReasonCodes item @ bn_PlacementReasonCodes item)"

definition summarizeBenchmarkPolicy :: "(string, Node) gomap \<Rightarrow> gotime \<Rightarrow> BenchmarkPolicyStatus" where
  "summarizeBenchmarkPolicy nodes now =
    (let items = map (\<lambda>node. benchmarkPolicyForNode node now) (nodes_by_id nodes) in
     \<lparr> bps_Window = ''current_node_metadata'', bps_Summary = fold count_benchmark_node items [], bps_Nodes = items \<rparr>)"

section \<open>Workload suites\<close>

definition defaultBenchmarkWorkloadSuiteID :: string where "defaultBenchmarkWorkloadSuiteID = ''synthetic_smoke_v1''"
definition localFixtureWorkloadSuiteID :: string where "localFixtureWorkloadSuiteID = ''operator_local_fixtures_v1''"

record BenchmarkWorkloadTask =
  wt_ID :: string
  wt_Category :: string
  wt_InputSource :: string
  wt_OutputPolicy :: string
  wt_ExpectedMetrics :: "string list"

record BenchmarkWorkloadSuite =
  ws_ID :: string
  ws_DisplayName :: string
  ws_Source :: string
  ws_InputPolicy :: string
  ws_FixturePolicy :: string
  ws_LocalOnly :: bool
  ws_TaskCount :: int
  ws_Tasks :: "BenchmarkWorkloadTask list"
  ws_ResultMetrics :: "string list"
  ws_Warnings :: "string list"

record benchmarkJobRequest =
  wq_SuiteID :: string
  wq_FixtureManifestID :: string
  wq_FixtureID :: string
  wq_FixturePath :: string

definition synthetic_task :: "string \<Rightarrow> string \<Rightarrow> string list \<Rightarrow> BenchmarkWorkloadTask" where
  "synthetic_task i category metrics = \<lparr> wt_ID = i, wt_Category = category, wt_InputSource = ''subscriber_builtin_synthetic'',
     wt_OutputPolicy = ''discard_response_body'', wt_ExpectedMetrics = metrics \<rparr>"

definition benchmarkWorkloadSuites :: "BenchmarkWorkloadSuite list" where
  "benchmarkWorkloadSuites =
    (let metrics = [''duration_ms'', ''input_tokens'', ''generated_tokens'', ''tokens_per_second''];
         short = [''duration_ms'', ''generated_tokens'', ''tokens_per_second''];
         results = metrics @ [''output_tokens_per_second'', ''prefill_tokens_per_second'', ''error_code''] in
     map (\<lambda>suite. suite\<lparr> ws_TaskCount := int (length (ws_Tasks suite)) \<rparr>)
      [\<lparr> ws_ID = defaultBenchmarkWorkloadSuiteID, ws_DisplayName = ''Synthetic Smoke'', ws_Source = ''builtin_synthetic'',
         ws_InputPolicy = ''subscriber_builtin_id_only'', ws_FixturePolicy = ''none'', ws_LocalOnly = True, ws_TaskCount = 0,
         ws_Tasks = [synthetic_task ''short_chat'' ''chat'' metrics, synthetic_task ''json_shape'' ''structured_output'' short,
           synthetic_task ''tiny_summary'' ''summarization'' metrics],
         ws_ResultMetrics = results,
         ws_Warnings = [''Prompt and response bodies are owned by the subscriber runner and are not returned to the marshal.''] \<rparr>,
       \<lparr> ws_ID = ''synthetic_code_v1'', ws_DisplayName = ''Synthetic Code'', ws_Source = ''builtin_synthetic'',
         ws_InputPolicy = ''subscriber_builtin_id_only'', ws_FixturePolicy = ''none'', ws_LocalOnly = True, ws_TaskCount = 0,
         ws_Tasks = [synthetic_task ''code_explain'' ''code'' metrics, synthetic_task ''code_transform'' ''code'' short],
         ws_ResultMetrics = results,
         ws_Warnings = [''Synthetic task text is selected by suite/task ID on the subscriber; the marshal does not persist it.''] \<rparr>,
       \<lparr> ws_ID = localFixtureWorkloadSuiteID, ws_DisplayName = ''Local Fixture Manifest'', ws_Source = ''operator_local_fixture'',
         ws_InputPolicy = ''subscriber_local_fixture_only'', ws_FixturePolicy = ''fixture_manifest_id_required'', ws_LocalOnly = True,
         ws_TaskCount = 0,
         ws_Tasks = [\<lparr> wt_ID = ''fixture_manifest'', wt_Category = ''operator_fixture'',
           wt_InputSource = ''subscriber_local_fixture_manifest'', wt_OutputPolicy = ''discard_response_body'',
           wt_ExpectedMetrics = metrics @ [''error_code''] \<rparr>],
         ws_ResultMetrics = results,
         ws_Warnings = [''Only a fixture manifest ID or basename hint may pass through the marshal; fixture contents stay local to the subscriber/operator host.''] \<rparr>])"

definition benchmarkWorkloadSuiteByID :: "string \<Rightarrow> BenchmarkWorkloadSuite option" where
  "benchmarkWorkloadSuiteByID i0 =
    (let i = safeBenchmarkString i0; i = (if i = [] then defaultBenchmarkWorkloadSuiteID else i) in
     find (\<lambda>suite. ws_ID suite = i) benchmarkWorkloadSuites)"

definition benchmarkWorkloadTaskIDs :: "BenchmarkWorkloadSuite \<Rightarrow> string list" where
  "benchmarkWorkloadTaskIDs suite = SliceStable (<) (filter (\<lambda>i. i \<noteq> []) (map wt_ID (ws_Tasks suite)))"

text \<open>\<^verbatim>\<open>filepath.Base\<close> on a system whose separator is a slash.\<close>

definition filepath_Base :: "string \<Rightarrow> string" where
  "filepath_Base path =
    (if path = [] then ''.''
     else let p = TrimRight (CHR ''/'') path; b = rev (takeWhile (\<lambda>c. c \<noteq> CHR ''/'') (rev p)) in
       if b = [] then ''/'' else b)"

definition benchmarkWorkloadSuiteJobMetadata :: "benchmarkJobRequest \<Rightarrow> string + gobj" where
  "benchmarkWorkloadSuiteJobMetadata req =
    (case benchmarkWorkloadSuiteByID (wq_SuiteID req) of
       None \<Rightarrow> Inl ''unknown_benchmark_workload_suite''
     | Some suite \<Rightarrow>
        (let metadata = [(''suite_id'', GStr (ws_ID suite)), (''display_name'', GStr (ws_DisplayName suite)), (''source'', GStr (ws_Source suite)),
               (''input_policy'', GStr (ws_InputPolicy suite)), (''fixture_policy'', GStr (ws_FixturePolicy suite)),
               (''local_only'', GBool (ws_LocalOnly suite)), (''task_count'', GInt (ws_TaskCount suite)),
               (''task_ids'', GStrs (benchmarkWorkloadTaskIDs suite)), (''result_metrics'', GStrs (ws_ResultMetrics suite))] in
         if ws_ID suite \<noteq> localFixtureWorkloadSuiteID then Inr metadata
         else
           let hint = safeFixtureReference (filepath_Base (TrimSpace (wq_FixturePath req)));
               manifestID = safeFixtureReference (defaultString (wq_FixtureManifestID req) (wq_FixtureID req));
               manifestID = (if manifestID = [] then hint else manifestID) in
           if manifestID = [] \<or> manifestID = ''.'' \<or> manifestID = ''/'' then Inl ''local_fixture_manifest_id_required''
           else Inr (metadata @ [(''fixture_manifest_id'', GStr manifestID)] @
             (if hint \<noteq> [] \<and> hint \<noteq> ''.'' then [(''fixture_reference_hint'', GStr hint)] else []))))"

section \<open>The page of the scheduler\<close>

record BenchmarkSchedulerPolicyLimits =
  bl_MaxAttemptsMin :: int
  bl_MaxAttemptsMax :: int
  bl_LeaseTimeoutSecondsMin :: int
  bl_LeaseTimeoutSecondsMax :: int
  bl_RetryDelaySecondsMin :: int
  bl_RetryDelaySecondsMax :: int
  bl_TickIntervalSecondsMin :: int
  bl_TickIntervalSecondsMax :: int

record BenchmarkSchedulerBackgroundStatus =
  bb_Enabled :: bool
  bb_TickIntervalSeconds :: int
  bb_LastTickAt :: string
  bb_NextTickAt :: string
  bb_LastReason :: string
  bb_LastChanged :: bool
  bb_LastTimedOut :: int
  bb_LastRetried :: int
  bb_LastExhausted :: int

record BenchmarkSchedulerAuditEntry =
  ba_RecordedAt :: string
  ba_Trigger :: string
  ba_Reason :: string
  ba_Policy :: string
  ba_BackgroundEnabled :: bool
  ba_TickIntervalSeconds :: int
  ba_Changed :: bool
  ba_TimedOut :: int
  ba_Retried :: int
  ba_Exhausted :: int

record BenchmarkSchedulerHistoryStatus =
  bh_Window :: string
  bh_Retention :: string
  bh_MaxEntries :: int
  bh_Count :: int
  bh_Summary :: "(string, int) gomap"
  bh_Entries :: "BenchmarkSchedulerAuditEntry list"

record BenchmarkSchedulerJob =
  sj_NodeID :: string
  sj_BenchmarkID :: string
  sj_Status :: string
  sj_SchedulerState :: string
  sj_SchedulerReason :: string
  sj_Attempt :: int
  sj_MaxAttempts :: int
  sj_LeaseTimeoutSeconds :: int
  sj_RetryDelaySeconds :: int
  sj_WorkloadSuiteID :: string
  sj_WorkloadSource :: string
  sj_NextAttemptAt :: string
  sj_TimeoutAt :: string
  sj_UpdatedAt :: string

record BenchmarkSchedulerStatus =
  ss_Window :: string
  ss_Policy :: string
  ss_Config :: BenchmarkSchedulerConfig
  ss_Limits :: BenchmarkSchedulerPolicyLimits
  ss_Background :: BenchmarkSchedulerBackgroundStatus
  ss_History :: BenchmarkSchedulerHistoryStatus
  ss_Summary :: "(string, int) gomap"
  ss_Jobs :: "BenchmarkSchedulerJob list"

definition benchmarkSchedulerPolicyLimits :: BenchmarkSchedulerPolicyLimits where
  "benchmarkSchedulerPolicyLimits =
    \<lparr> bl_MaxAttemptsMin = 1, bl_MaxAttemptsMax = 10, bl_LeaseTimeoutSecondsMin = 30, bl_LeaseTimeoutSecondsMax = 3600,
      bl_RetryDelaySecondsMin = 5, bl_RetryDelaySecondsMax = 1800, bl_TickIntervalSecondsMin = 10, bl_TickIntervalSecondsMax = 3600 \<rparr>"

definition benchmarkSchedulerJobStatus :: "string \<Rightarrow> gotime \<Rightarrow> BenchmarkSchedulerConfig \<Rightarrow> gobj \<Rightarrow> BenchmarkSchedulerJob" where
  "benchmarkSchedulerJobStatus nodeID now p job0 =
    (let job = ensureBenchmarkJobSchedulerDefaults now p job0;
         text = (\<lambda>k. benchmarkJobString (field job k));
         stamp = (\<lambda>k. modelLifecycleActionTimeString (field job k));
         suite = (case as_map (field job ''workload_suite'') of None \<Rightarrow> [] | Some m \<Rightarrow> m)
     in \<lparr> sj_NodeID = nodeID, sj_BenchmarkID = text ''benchmark_id'', sj_Status = text ''status'',
          sj_SchedulerState = text ''scheduler_state'', sj_SchedulerReason = text ''scheduler_reason'',
          sj_Attempt = benchmarkJobInt (field job ''attempt'') 0,
          sj_MaxAttempts = benchmarkJobInt (field job ''max_attempts'') (bs_MaxAttempts p),
          sj_LeaseTimeoutSeconds = benchmarkJobInt (field job ''lease_timeout_seconds'') (bs_LeaseTimeoutSeconds p),
          sj_RetryDelaySeconds = benchmarkJobInt (field job ''retry_delay_seconds'') (bs_RetryDelaySeconds p),
          sj_WorkloadSuiteID = benchmarkJobString (field suite ''suite_id''), sj_WorkloadSource = benchmarkJobString (field suite ''source''),
          sj_NextAttemptAt = stamp ''next_attempt_at'', sj_TimeoutAt = stamp ''timeout_at'', sj_UpdatedAt = stamp ''updated_at'' \<rparr>)"

definition count_scheduler_job :: "gotime \<Rightarrow> gobj \<Rightarrow> BenchmarkSchedulerJob \<Rightarrow> (string, int) gomap \<Rightarrow> (string, int) gomap" where
  "count_scheduler_job now job item =
    fold (\<lambda>k. add_count k 1)
      ([''jobs'', sj_Status item, sj_SchedulerState item] @
       (if sj_Status item = ''queued'' \<and> benchmarkJobDue job now then [''claimable''] else []) @
       (if sj_Status item = ''running'' then
          (case benchmarkJobTime (field job ''timeout_at'') of Some t \<Rightarrow> if t \<le> now then [''timeout_due''] else [] | None \<Rightarrow> []) else []) @
       (if sj_SchedulerState item = ''retry_wait'' then [''retry_wait''] else []) @
       (if sj_SchedulerState item = ''exhausted'' then [''exhausted''] else []))"

text \<open>The jobs on the page, with the identifier of their node and as the defaults left them.\<close>

definition page_jobs :: "gotime \<Rightarrow> BenchmarkSchedulerConfig \<Rightarrow> (string, Node) gomap \<Rightarrow> (string \<times> gobj) list" where
  "page_jobs now p nodes =
    concat (map (\<lambda>node. if n_ControlLevel node \<noteq> [] \<and> n_ControlLevel node \<noteq> ControlLevelManaged then []
        else map (\<lambda>job. (n_NodeID node, ensureBenchmarkJobSchedulerDefaults now p job)) (job_list node)) (nodes_by_id nodes))"

definition summarizeBenchmarkScheduler :: "(string, Node) gomap \<Rightarrow> gotime \<Rightarrow> BenchmarkSchedulerConfig \<Rightarrow> BenchmarkSchedulerStatus" where
  "summarizeBenchmarkScheduler nodes now p0 =
    (let p = NormalizeBenchmarkSchedulerConfig p0;
         jobs = map (\<lambda>(i, job). (job, benchmarkSchedulerJobStatus i now p job)) (page_jobs now p nodes)
     in \<lparr> ss_Window = ''current_benchmark_jobs'', ss_Policy = bs_Policy p, ss_Config = p, ss_Limits = benchmarkSchedulerPolicyLimits,
          ss_Background = \<lparr> bb_Enabled = bs_BackgroundEnabled p, bb_TickIntervalSeconds = bs_TickIntervalSeconds p, bb_LastTickAt = [],
            bb_NextTickAt = [], bb_LastReason = [], bb_LastChanged = False, bb_LastTimedOut = 0, bb_LastRetried = 0, bb_LastExhausted = 0 \<rparr>,
          ss_History = \<lparr> bh_Window = [], bh_Retention = [], bh_MaxEntries = 0, bh_Count = 0, bh_Summary = [], bh_Entries = [] \<rparr>,
          ss_Summary = fold (\<lambda>(job, item). count_scheduler_job now job item) jobs [], ss_Jobs = map snd jobs \<rparr>)"

section \<open>The background loop\<close>

definition benchmarkSchedulerAuditMaxEntries :: nat where "benchmarkSchedulerAuditMaxEntries = 24"

record benchmarkSchedulerBackground =
  bg_lastTickAt :: gotime
  bg_nextTickAt :: gotime
  bg_lastReason :: string
  bg_lastRun :: benchmarkSchedulerRun
  bg_history :: "BenchmarkSchedulerAuditEntry list"

definition newBenchmarkSchedulerBackground :: benchmarkSchedulerBackground where
  "newBenchmarkSchedulerBackground = \<lparr> bg_lastTickAt = 0, bg_nextTickAt = 0, bg_lastReason = [], bg_lastRun = noRun, bg_history = [] \<rparr>"

abbreviation tick_interval :: "BenchmarkSchedulerConfig \<Rightarrow> duration" where
  "tick_interval p \<equiv> bs_TickIntervalSeconds (NormalizeBenchmarkSchedulerConfig p) * second"

definition resetPlan :: "gotime \<Rightarrow> BenchmarkSchedulerConfig \<Rightarrow> benchmarkSchedulerBackground \<Rightarrow> benchmarkSchedulerBackground" where
  "resetPlan now p b =
    (if \<not> bs_BackgroundEnabled (NormalizeBenchmarkSchedulerConfig p) then b\<lparr> bg_nextTickAt := 0 \<rparr>
     else b\<lparr> bg_nextTickAt := now + tick_interval p \<rparr>)"

definition due :: "gotime \<Rightarrow> BenchmarkSchedulerConfig \<Rightarrow> benchmarkSchedulerBackground \<Rightarrow> bool \<times> benchmarkSchedulerBackground" where
  "due now p b =
    (if \<not> bs_BackgroundEnabled (NormalizeBenchmarkSchedulerConfig p) then (False, b\<lparr> bg_nextTickAt := 0 \<rparr>)
     else if bg_nextTickAt b = 0 then (False, b\<lparr> bg_nextTickAt := now + tick_interval p \<rparr>)
     else (bg_nextTickAt b \<le> now, b))"

definition safeBenchmarkSchedulerAuditTrigger :: "string \<Rightarrow> string" where
  "safeBenchmarkSchedulerAuditTrigger trigger = (if trigger = ''background'' \<or> trigger = ''operator'' then trigger else ''internal'')"

definition safeBenchmarkSchedulerAuditReason :: "string \<Rightarrow> string" where
  "safeBenchmarkSchedulerAuditReason reason =
    (if reason = ''background_tick'' \<or> reason = ''operator_reconcile'' then reason else ''internal_reconcile'')"

definition audit_entry :: "gotime \<Rightarrow> string \<Rightarrow> string \<Rightarrow> BenchmarkSchedulerConfig \<Rightarrow> benchmarkSchedulerRun \<Rightarrow> BenchmarkSchedulerAuditEntry" where
  "audit_entry now trigger reason p run =
    \<lparr> ba_RecordedAt = format_seconds now, ba_Trigger = safeBenchmarkSchedulerAuditTrigger trigger,
      ba_Reason = safeBenchmarkSchedulerAuditReason reason, ba_Policy = bs_Policy p, ba_BackgroundEnabled = bs_BackgroundEnabled p,
      ba_TickIntervalSeconds = bs_TickIntervalSeconds p, ba_Changed = sr_Changed run, ba_TimedOut = sr_TimedOut run,
      ba_Retried = sr_Retried run, ba_Exhausted = sr_Exhausted run \<rparr>"

definition push_entry :: "BenchmarkSchedulerAuditEntry \<Rightarrow> BenchmarkSchedulerAuditEntry list \<Rightarrow> BenchmarkSchedulerAuditEntry list" where
  "push_entry entry entries =
    (if benchmarkSchedulerAuditMaxEntries < length (entry # entries) then take benchmarkSchedulerAuditMaxEntries (entry # entries)
     else entry # entries)"

definition appendAuditLocked :: "gotime \<Rightarrow> string \<Rightarrow> string \<Rightarrow> BenchmarkSchedulerConfig \<Rightarrow> benchmarkSchedulerRun
    \<Rightarrow> benchmarkSchedulerBackground \<Rightarrow> benchmarkSchedulerBackground" where
  "appendAuditLocked now trigger reason p run b = b\<lparr> bg_history := push_entry (audit_entry now trigger reason p run) (bg_history b) \<rparr>"

definition record_run :: "gotime \<Rightarrow> BenchmarkSchedulerConfig \<Rightarrow> string \<Rightarrow> benchmarkSchedulerRun
    \<Rightarrow> benchmarkSchedulerBackground \<Rightarrow> benchmarkSchedulerBackground" where
  "record_run now p reason run b =
    appendAuditLocked now ''background'' reason (NormalizeBenchmarkSchedulerConfig p) run
      (b\<lparr> bg_lastTickAt := now, bg_nextTickAt := now + tick_interval p, bg_lastReason := reason, bg_lastRun := run \<rparr>)"

definition recordAudit :: "gotime \<Rightarrow> string \<Rightarrow> string \<Rightarrow> BenchmarkSchedulerConfig \<Rightarrow> benchmarkSchedulerRun
    \<Rightarrow> benchmarkSchedulerBackground \<Rightarrow> benchmarkSchedulerBackground" where
  "recordAudit now trigger reason p = appendAuditLocked now trigger reason (NormalizeBenchmarkSchedulerConfig p)"

text \<open>A tick, at the time of its environment: whether it ran, and the two states after it.\<close>

definition runBenchmarkSchedulerBackgroundTick :: "'r sub_env \<Rightarrow> bool \<Rightarrow> benchmarkSchedulerBackground \<Rightarrow> 'r auth_state
    \<Rightarrow> bool \<times> benchmarkSchedulerBackground \<times> 'r auth_state" where
  "runBenchmarkSchedulerBackgroundTick e force b s =
    (let now = be_now e; p = benchmarkSchedulerConfig s in
     if \<not> bs_BackgroundEnabled p then (False, resetPlan now p b, s)
     else
       let (ready, b) = (if force then (True, b) else due now p b) in
       if \<not> ready then (False, b, s)
       else case reconcileBenchmarkJobs e ''background_tick'' s of
         (run, s) \<Rightarrow>
           (True, record_run now p ''background_tick'' run b, emit_sub e ''benchmark_scheduler_background_tick''
             [(''changed'', GBool (sr_Changed run)), (''timed_out'', GInt (sr_TimedOut run)), (''retried'', GInt (sr_Retried run)),
              (''exhausted'', GInt (sr_Exhausted run)), (''scheduler'', GStr (bs_Policy p)),
              (''background_enabled'', GBool (bs_BackgroundEnabled p)),
              (''tick_interval_seconds'', GInt (bs_TickIntervalSeconds p))] s))"

text \<open>The loop of \<^verbatim>\<open>runBenchmarkSchedulerBackground\<close> on a list of ticks; it collects the times of those that ran.\<close>

fun background_ticks :: "'r sub_env list \<Rightarrow> benchmarkSchedulerBackground \<Rightarrow> 'r auth_state
    \<Rightarrow> gotime list \<times> benchmarkSchedulerBackground \<times> 'r auth_state" where
  "background_ticks [] b s = ([], b, s)"
| "background_ticks (e # es) b s =
    (case runBenchmarkSchedulerBackgroundTick e False b s of
       (fired, b, s) \<Rightarrow>
         (case background_ticks es b s of
            (later, b, s) \<Rightarrow> (if fired then be_now e # later else later, b, s)))"

definition runBenchmarkSchedulerBackground :: "gotime \<Rightarrow> 'r sub_env list \<Rightarrow> benchmarkSchedulerBackground \<Rightarrow> 'r auth_state
    \<Rightarrow> gotime list \<times> benchmarkSchedulerBackground \<times> 'r auth_state" where
  "runBenchmarkSchedulerBackground t0 es b s = background_ticks es (resetPlan t0 (benchmarkSchedulerConfig s) b) s"

section \<open>Status and operator handlers\<close>

definition benchmarkSchedulerBackgroundStatusAt :: "gotime \<Rightarrow> BenchmarkSchedulerConfig \<Rightarrow> benchmarkSchedulerBackground
    \<Rightarrow> BenchmarkSchedulerBackgroundStatus" where
  "benchmarkSchedulerBackgroundStatusAt now p0 b =
    (let p = NormalizeBenchmarkSchedulerConfig p0; enabled = bs_BackgroundEnabled p;
         next = (if enabled \<and> bg_nextTickAt b = 0 then now + bs_TickIntervalSeconds p * second else bg_nextTickAt b)
     in \<lparr> bb_Enabled = enabled, bb_TickIntervalSeconds = bs_TickIntervalSeconds p,
          bb_LastTickAt = (if bg_lastTickAt b \<noteq> 0 then format_seconds (bg_lastTickAt b) else []),
          bb_NextTickAt = (if enabled \<and> next \<noteq> 0 then format_seconds next else []), bb_LastReason = bg_lastReason b,
          bb_LastChanged = sr_Changed (bg_lastRun b), bb_LastTimedOut = sr_TimedOut (bg_lastRun b),
          bb_LastRetried = sr_Retried (bg_lastRun b), bb_LastExhausted = sr_Exhausted (bg_lastRun b) \<rparr>)"

definition count_entry :: "BenchmarkSchedulerAuditEntry \<Rightarrow> (string, int) gomap \<Rightarrow> (string, int) gomap" where
  "count_entry entry summary =
    (let summary = add_count (ba_Trigger entry) 1 summary;
         summary = (if ba_Changed entry then add_count ''changed_runs'' 1 summary else summary)
     in add_count ''exhausted'' (ba_Exhausted entry) (add_count ''retried'' (ba_Retried entry) (add_count ''timed_out'' (ba_TimedOut entry) summary)))"

definition benchmarkSchedulerHistoryStatus :: "benchmarkSchedulerBackground \<Rightarrow> BenchmarkSchedulerHistoryStatus" where
  "benchmarkSchedulerHistoryStatus b =
    \<lparr> bh_Window = ''recent_reconciliations'', bh_Retention = ''process_local_reset_on_restart'',
      bh_MaxEntries = int benchmarkSchedulerAuditMaxEntries, bh_Count = int (length (bg_history b)),
      bh_Summary = fold count_entry (bg_history b) [], bh_Entries = bg_history b \<rparr>"

definition benchmarkSchedulerStatusAt :: "gotime \<Rightarrow> benchmarkSchedulerBackground \<Rightarrow> 'r auth_state \<Rightarrow> BenchmarkSchedulerStatus" where
  "benchmarkSchedulerStatusAt now b s =
    (let p = benchmarkSchedulerConfig s in
     (summarizeBenchmarkScheduler (st_Nodes (Snapshot (at_store s))) now p)
       \<lparr> ss_Background := benchmarkSchedulerBackgroundStatusAt now p b, ss_History := benchmarkSchedulerHistoryStatus b \<rparr>)"

definition benchmarkSchedulerReconcile :: "'r sub_env \<Rightarrow> benchmarkSchedulerBackground \<Rightarrow> 'r auth_state
    \<Rightarrow> (benchmarkSchedulerRun \<times> BenchmarkSchedulerStatus) \<times> benchmarkSchedulerBackground \<times> 'r auth_state" where
  "benchmarkSchedulerReconcile e b s =
    (let now = be_now e; p = benchmarkSchedulerConfig s in
     case reconcileBenchmarkJobs e ''operator_reconcile'' s of
       (run, s) \<Rightarrow>
        (let b = recordAudit now ''operator'' ''operator_reconcile'' p run b in
         ((run, benchmarkSchedulerStatusAt now b s), b, emit_sub e ''benchmark_scheduler_manual_reconcile''
            [(''changed'', GBool (sr_Changed run)), (''timed_out'', GInt (sr_TimedOut run)), (''retried'', GInt (sr_Retried run)),
             (''exhausted'', GInt (sr_Exhausted run)), (''scheduler'', GStr PolicyBoundedRetryTimeout)] s)))"

record schedulerPolicyRequest =
  sp_Policy :: "string option"
  sp_MaxAttempts :: "int option"
  sp_LeaseTimeoutSeconds :: "int option"
  sp_RetryDelaySeconds :: "int option"
  sp_BackgroundEnabled :: "bool option"
  sp_TickIntervalSeconds :: "int option"

abbreviation given :: "'a option \<Rightarrow> 'a \<Rightarrow> 'a" where
  "given v old \<equiv> (case v of None \<Rightarrow> old | Some x \<Rightarrow> x)"

definition putBenchmarkSchedulerPolicy :: "'r sub_env \<Rightarrow> schedulerPolicyRequest option \<Rightarrow> benchmarkSchedulerBackground \<Rightarrow> 'r auth_state
    \<Rightarrow> int \<times> benchmarkSchedulerBackground \<times> 'r auth_state" where
  "putBenchmarkSchedulerPolicy e body b s =
    (case body of
       None \<Rightarrow> (400, b, s)
     | Some q \<Rightarrow>
        (let old = benchmarkSchedulerConfig s;
             p = NormalizeBenchmarkSchedulerConfig (old\<lparr> bs_Policy := given (sp_Policy q) (bs_Policy old),
               bs_MaxAttempts := given (sp_MaxAttempts q) (bs_MaxAttempts old),
               bs_LeaseTimeoutSeconds := given (sp_LeaseTimeoutSeconds q) (bs_LeaseTimeoutSeconds old),
               bs_RetryDelaySeconds := given (sp_RetryDelaySeconds q) (bs_RetryDelaySeconds old),
               bs_BackgroundEnabled := given (sp_BackgroundEnabled q) (bs_BackgroundEnabled old),
               bs_TickIntervalSeconds := given (sp_TickIntervalSeconds q) (bs_TickIntervalSeconds old) \<rparr>);
             cfg = st_Config (Snapshot (at_store s));
             cfg = cfg\<lparr> c_Capabilities := (c_Capabilities cfg)\<lparr> cap_BenchmarkScheduler := p \<rparr> \<rparr> in
         case on_store (SaveConfig (ae_env (be_auth e)) cfg) s of
           (Some err, s) \<Rightarrow> (500, b, s)
         | (None, s) \<Rightarrow>
            (200, resetPlan (be_now e) p b, emit_sub e ''benchmark_scheduler_policy_updated''
              [(''scheduler'', GStr (bs_Policy p)), (''max_attempts'', GInt (bs_MaxAttempts p)),
               (''lease_timeout_seconds'', GInt (bs_LeaseTimeoutSeconds p)), (''retry_delay_seconds'', GInt (bs_RetryDelaySeconds p)),
               (''background_enabled'', GBool (bs_BackgroundEnabled p)),
               (''tick_interval_seconds'', GInt (bs_TickIntervalSeconds p))] s)))"

section \<open>The page of placement and routing\<close>

lemma policy_values:
  "benchmarkPolicyString v = stringValue v" "benchmarkPolicyFloat v = floatValue v" "benchmarkPolicyTime v = resultTime v"
  by (simp_all add: benchmarkPolicyString_def stringValue_def benchmarkPolicyFloat_def floatValue_def benchmarkPolicyTime_def resultTime_def)

lemma latest_policy: "latest_policy_result best rs = latest_result [] best rs"
  by (induction rs arbitrary: best) (simp_all add: Let_def policy_values split: option.split prod.split)

lemma latestBenchmarkPolicyResult_eq: "latestBenchmarkPolicyResult node = latestBenchmarkResult node []"
  by (simp add: latestBenchmarkPolicyResult_def latestBenchmarkResult_def benchmarkResults_def latest_policy Let_def split: option.split)

lemma policy_levels: "routingStatusControlLevel n = controlLevel n" "routingStatusTrustLevel n = trustLevel n"
  by (simp_all add: routingStatusControlLevel_def controlLevel_def routingStatusTrustLevel_def trustLevel_def)

text \<open>Equivalence. What the benchmark page says about placement is what routing does for a request that names no model, with the same
  reasons, as long as the node records the source of its benchmarks and its latest result has a source.\<close>

theorem placement_page_agrees:
  assumes "n_BenchmarkSource node \<noteq> []" "\<And>r. latestBenchmarkResult node [] = Some r \<Longrightarrow> stringValue (field r ''source'') \<noteq> []"
  shows "(bn_PlacementEligible (benchmarkPolicyForNode node now), bn_PlacementReasonCodes (benchmarkPolicyForNode node now)) =
    (bp_Eligible (benchmarkPlacement node [] now), bp_Reasons (benchmarkPlacement node [] now))"
proof -
  have src: "policyBenchmarkSource node = benchmarkSource node"
    using assms(1) by (simp add: policyBenchmarkSource_def benchmarkSource_def)
  have res: "stringValue (field r ''source'') = resultSource r" if "latestBenchmarkResult node [] = Some r" for r
    using assms(2) [OF that] by (simp add: resultSource_def orElse_def)
  have "(bn_PlacementEligible (benchmarkPolicyForNode node now), bn_PlacementReasonCodes (benchmarkPolicyForNode node now)) =
      (fst (benchmarkPlacementPolicyForNode node now), fst (snd (benchmarkPlacementPolicyForNode node now)))"
    by (simp add: benchmarkPolicyForNode_def Let_def case_prod_unfold)
  also have "\<dots> = (bp_Eligible (benchmarkPlacement node [] now), bp_Reasons (benchmarkPlacement node [] now))"
  proof (cases "latestBenchmarkResult node []")
    case None
    then show ?thesis
      by (simp add: benchmarkPlacementPolicyForNode_def benchmarkPlacement_def policy_levels latestBenchmarkPolicyResult_eq src ignore_def)
  next
    case (Some r)
    then show ?thesis
      unfolding benchmarkPlacementPolicyForNode_def benchmarkPlacement_def policy_levels latestBenchmarkPolicyResult_eq src Some
        option.case Let_def policy_values res [OF Some]
      by (simp add: ignore_def split: option.split)
  qed
  finally show ?thesis .
qed

section \<open>The cadence of the background loop\<close>

lemma upsert_config: "upsert e node s = (err, s') \<Longrightarrow> benchmarkSchedulerConfig s' = benchmarkSchedulerConfig s"
  by (auto simp: upsert_def on_store_def benchmarkSchedulerConfig_def UpsertNode_def putNode_def Snapshot_def cloneState_def jsonState_def
      AppState.saveLocked_def Let_def split: prod.splits if_splits)

lemma emit_sub_config [simp]: "benchmarkSchedulerConfig (emit_sub e ty fs s) = benchmarkSchedulerConfig s"
  by (simp add: benchmarkSchedulerConfig_def emit_sub_def emit_auth_def Snapshot_def cloneState_def jsonState_def)

lemma reconcile_nodes_config: "benchmarkSchedulerConfig (snd (reconcile_nodes e reason p nodes acc s)) = benchmarkSchedulerConfig s"
proof (induction nodes arbitrary: acc s)
  case (Cons node nodes)
  obtain run node' where rc: "reconcileBenchmarkJobsForNode (be_now e) reason p node = (run, node')" by fastforce
  obtain err s1 where up: "upsert e node' s = (err, s1)" by fastforce
  show ?case using Cons.IH upsert_config [OF up] by (cases err) (simp_all add: rc up)
qed simp

lemma tick_config: "benchmarkSchedulerConfig (snd (snd (runBenchmarkSchedulerBackgroundTick e f b s))) = benchmarkSchedulerConfig s"
  by (simp add: runBenchmarkSchedulerBackgroundTick_def Let_def reconcileBenchmarkJobs_def case_prod_unfold reconcile_nodes_config)

lemma tick_plan:
  assumes "bs_BackgroundEnabled (benchmarkSchedulerConfig s)" "bg_nextTickAt b \<noteq> 0"
  shows "fst (runBenchmarkSchedulerBackgroundTick e False b s) = (bg_nextTickAt b \<le> be_now e)"
    and "bg_nextTickAt (fst (snd (runBenchmarkSchedulerBackgroundTick e False b s))) =
      (if bg_nextTickAt b \<le> be_now e then be_now e + tick_interval (benchmarkSchedulerConfig s) else bg_nextTickAt b)"
proof -
  have n: "NormalizeBenchmarkSchedulerConfig (benchmarkSchedulerConfig s) = benchmarkSchedulerConfig s"
    by (simp add: benchmarkSchedulerConfig_def scheduler.norm_idem)
  show "fst (runBenchmarkSchedulerBackgroundTick e False b s) = (bg_nextTickAt b \<le> be_now e)"
    using assms by (simp add: runBenchmarkSchedulerBackgroundTick_def Let_def due_def n case_prod_unfold)
  show "bg_nextTickAt (fst (snd (runBenchmarkSchedulerBackgroundTick e False b s))) =
      (if bg_nextTickAt b \<le> be_now e then be_now e + tick_interval (benchmarkSchedulerConfig s) else bg_nextTickAt b)"
    using assms by (simp add: runBenchmarkSchedulerBackgroundTick_def Let_def due_def n case_prod_unfold record_run_def appendAuditLocked_def)
qed

lemma interval_pos: "0 < tick_interval p"
  using scheduler.norm_wf [of p] by (simp add: scheduler_wf_def second_def)

text \<open>From a run at \<open>a\<close> and a last tick at \<open>t\<close>.\<close>

lemma ticks_cadence:
  assumes "bs_BackgroundEnabled (benchmarkSchedulerConfig s)" "d = tick_interval (benchmarkSchedulerConfig s)"
    and "bg_nextTickAt b = a + d" "0 \<le> a" "t < a + d"
    and "successively (\<lambda>x y. x \<le> y \<and> y \<le> x + g) (t # map (\<lambda>e. be_now e) es)"
  shows "successively (\<lambda>x y. x + d \<le> y \<and> y < x + d + g) (a # fst (background_ticks es b s)) \<and>
    last (t # map (\<lambda>e. be_now e) es) < last (a # fst (background_ticks es b s)) + d"
  using assms
proof (induction es arbitrary: a b s t)
  case Nil
  then show ?case by simp
next
  case (Cons e es)
  let ?u = "be_now e"
  obtain fired b' s' where tick: "runBenchmarkSchedulerBackgroundTick e False b s = (fired, b', s')" by (metis prod_cases3)
  obtain later b'' s'' where rest: "background_ticks es b' s' = (later, b'', s'')" by (metis prod_cases3)
  have "0 < d" using interval_pos Cons.prems(2) by simp
  then have "bg_nextTickAt b \<noteq> 0" using Cons.prems(3,4) by simp
  note plan = tick_plan [OF Cons.prems(1) this, of e, unfolded tick fst_conv snd_conv Cons.prems(3), folded Cons.prems(2)]
  have cfg: "benchmarkSchedulerConfig s' = benchmarkSchedulerConfig s" using tick_config [of e False b s] tick by simp
  have u: "t \<le> ?u" "?u \<le> t + g" and ts: "successively (\<lambda>x y. x \<le> y \<and> y \<le> x + g) (?u # map (\<lambda>e. be_now e) es)"
    using Cons.prems(6) by (cases es; simp)+
  have en: "bs_BackgroundEnabled (benchmarkSchedulerConfig s')" "d = tick_interval (benchmarkSchedulerConfig s')"
    using Cons.prems(1,2) cfg by simp_all
  show ?case
  proof (cases "a + d \<le> ?u")
    case True
    have "0 \<le> ?u" "?u < ?u + d" "bg_nextTickAt b' = ?u + d" using True Cons.prems(4) \<open>0 < d\<close> plan(2) by simp_all
    note ih = Cons.IH [OF en this(3,1,2) ts, unfolded rest fst_conv]
    have "?u < a + d + g" using Cons.prems(5) u(2) by simp
    with ih True show ?thesis by (simp add: tick rest plan(1))
  next
    case False
    have "bg_nextTickAt b' = a + d" "?u < a + d" using False plan(2) by simp_all
    note ih = Cons.IH [OF en this(1) Cons.prems(4) this(2) ts, unfolded rest fst_conv]
    with False show ?thesis by (simp add: tick rest plan(1))
  qed
qed

text \<open>Liveness. The background loop keeps its pace: with ticks that are at most \<open>g\<close> apart (one second in the program) every run follows the
  one before it, and the first one the start, after at least the configured interval and less than \<open>g\<close> later than that; and when the ticks stop, no run was due.\<close>

theorem background_cadence:
  assumes "bs_BackgroundEnabled (benchmarkSchedulerConfig s)" "0 \<le> t0"
    and "successively (\<lambda>x y. x \<le> y \<and> y \<le> x + g) (t0 # map (\<lambda>e. be_now e) es)"
    and "d = bs_TickIntervalSeconds (benchmarkSchedulerConfig s) * second"
  shows "successively (\<lambda>x y. x + d \<le> y \<and> y < x + d + g) (t0 # fst (runBenchmarkSchedulerBackground t0 es b s)) \<and>
    last (t0 # map (\<lambda>e. be_now e) es) < last (t0 # fst (runBenchmarkSchedulerBackground t0 es b s)) + d"
proof -
  let ?p = "benchmarkSchedulerConfig s"
  have n: "NormalizeBenchmarkSchedulerConfig ?p = ?p" by (simp add: benchmarkSchedulerConfig_def scheduler.norm_idem)
  have "bg_nextTickAt (resetPlan t0 ?p b) = t0 + d" using assms(1,4) by (simp add: resetPlan_def n)
  moreover have "t0 < t0 + d" using interval_pos [of ?p] assms(4) n by simp
  ultimately show ?thesis
    unfolding runBenchmarkSchedulerBackground_def using assms(1-4) n by (intro ticks_cadence) simp_all
qed

interpretation entries: capped_log benchmarkSchedulerAuditMaxEntries push_entry
  by unfold_locales (simp add: push_entry_def)

text \<open>What the marshal passes on of a fixture: whatever path or identifier an operator sends, the reference in the job consists of at most
  eighty letters, digits, points, dashes and underscores, so that no path leaves the marshal.\<close>

definition reference_ok :: "gval \<Rightarrow> bool" where
  "reference_ok v = (case v of GStr t \<Rightarrow> t \<noteq> [] \<and> length t \<le> 80 \<and> list_all reference_char t | _ \<Rightarrow> False)"

lemma reference_chars: "list_all reference_char (safeFixtureReference v)" "length (safeFixtureReference v) \<le> 80"
proof -
  let ?t = "filter reference_char (take 80 (TrimSpace (safeBenchmarkString v)))"
  have sub: "set (trim_by P x) \<subseteq> set x" for P and x :: string
    by (auto simp: trim_by_def dest!: set_dropWhileD)
  show "list_all reference_char (safeFixtureReference v)"
    using sub [of "\<lambda>c. c \<in> set ''.-_''" ?t] by (auto simp: safeFixtureReference_def list_all_iff)
  have "length ?t \<le> 80" by (rule order_trans [OF length_filter_le]) simp
  then show "length (safeFixtureReference v) \<le> 80"
    unfolding safeFixtureReference_def using length_trim_by_le [of "\<lambda>c. c \<in> set ''.-_''" ?t] by linarith
qed

lemma fixture_references:
  assumes "benchmarkWorkloadSuiteJobMetadata req = Inr md" "k \<in> {''fixture_manifest_id'', ''fixture_reference_hint''}" "goget md k = Some v"
  shows "reference_ok v"
proof -
  have ok: "reference_ok (GStr (safeFixtureReference t))" if "safeFixtureReference t \<noteq> []" for t
    using that reference_chars by (simp add: reference_ok_def)
  show ?thesis
    using assms ok
    by (auto simp: benchmarkWorkloadSuiteJobMetadata_def Let_def goget_def split: option.splits if_splits)
qed

section \<open>Concrete runs\<close>

text \<open>Witness: a measured node is placed by its benchmark, on the page and in routing.\<close>

definition reportedNode :: Node where
  "reportedNode = measuredNode\<lparr> n_Observed := [(''benchmark_results'', GMaps [[(''source'', GStr CapabilitySourceSubscriberReported),
     (''completed_at'', GTime 4), (''tokens_per_second'', GInt 40)]])] \<rparr>"

theorem placement_page_agrees_witness:
  "bn_PlacementEligible (benchmarkPolicyForNode reportedNode 5) \<and> bp_Eligible (benchmarkPlacement reportedNode [] 5)"
proof -
  have "n_BenchmarkSource reportedNode \<noteq> []" "bp_Eligible (benchmarkPlacement reportedNode [] 5)" by code_simp+
  moreover have "case latestBenchmarkResult reportedNode [] of None \<Rightarrow> True | Some r \<Rightarrow> stringValue (field r ''source'') \<noteq> []" by code_simp
  ultimately show ?thesis using placement_page_agrees [of reportedNode 5] by (auto split: option.splits)
qed

text \<open>A result without a source places the node in routing; the page does not say so.\<close>

lemma placement_page_differs:
  "bp_Eligible (benchmarkPlacement measuredNode [] 5)" "\<not> bn_PlacementEligible (benchmarkPolicyForNode measuredNode 5)"
  by code_simp+

text \<open>Witness: with ticks every two minutes an interval of thirty seconds runs at every tick.\<close>

definition tickEnv :: "gotime \<Rightarrow> (string, string) gomap sub_env" where
  "tickEnv t = jobEnv\<lparr> be_auth := authEnv\<lparr> ae_env := sampleEnv\<lparr> e_now := t \<rparr> \<rparr> \<rparr>"

definition tickState :: "(string, string) gomap auth_state" where
  "tickState = guardedState\<lparr> at_store := sampleStore\<lparr> s_state := (s_state sampleStore)\<lparr> st_Config := (st_Config (s_state sampleStore))
     \<lparr> c_Capabilities := (c_Capabilities (st_Config (s_state sampleStore)))\<lparr> cap_BenchmarkScheduler :=
       (cap_BenchmarkScheduler (c_Capabilities (st_Config (s_state sampleStore))))\<lparr> bs_BackgroundEnabled := True,
         bs_TickIntervalSeconds := 30 \<rparr> \<rparr> \<rparr> \<rparr> \<rparr> \<rparr>"

theorem background_cadence_witness:
  "\<exists>t. fst (runBenchmarkSchedulerBackground 0 [tickEnv (40 * second)] newBenchmarkSchedulerBackground tickState) = [t] \<and> 30 * second \<le> t"
proof -
  let ?runs = "fst (runBenchmarkSchedulerBackground 0 [tickEnv (40 * second)] newBenchmarkSchedulerBackground tickState)"
  have p: "bs_BackgroundEnabled (benchmarkSchedulerConfig tickState)" "bs_TickIntervalSeconds (benchmarkSchedulerConfig tickState) = 30"
    by code_simp+
  have "be_now (tickEnv (40 * second)) = 40 * second" by (simp add: tickEnv_def)
  then have "successively (\<lambda>x y. x + 30 * second \<le> y \<and> y < x + 30 * second + 40 * second) (0 # ?runs) \<and>
      last (0 # map (\<lambda>e. be_now e) [tickEnv (40 * second)]) < last (0 # ?runs) + 30 * second"
    by (intro background_cadence) (simp_all add: p second_def)
  then have run: "successively (\<lambda>x y. x + 30 * second \<le> y \<and> y < x + 30 * second + 40 * second) (0 # ?runs)"
    and last: "10 * second < last (0 # ?runs)" by (simp_all add: tickEnv_def second_def)
  have "length ?runs \<le> 1" by (simp add: runBenchmarkSchedulerBackground_def case_prod_unfold)
  moreover have "?runs \<noteq> []" using last by (auto simp: second_def)
  ultimately obtain t where "?runs = [t]" by (cases ?runs) auto
  with run show ?thesis by auto
qed

end
