(* ===== verification/NodeHandlers.thy ===== *)
theory NodeHandlers
  imports BenchmarkScheduler
begin

text \<open>
  The handlers of \<^verbatim>\<open>server.go\<close> that bring nodes into the fleet and look after them: enrollment tokens, the enrollment and the heartbeat of a
  subscriber, nodes added by hand, passive endpoints, and the operator's actions on a node. What a handler answers is its status; the
  bodies it decodes come as records, \<^term>\<open>None\<close> for one that does not decode. What other machines answer is a parameter.
\<close>

section \<open>Endpoints\<close>

definition normalizeEndpointURL :: "string \<Rightarrow> string + string" where
  "normalizeEndpointURL raw0 =
    (let raw = TrimSpace (TrimRight (CHR ''/'') raw0) in
     if raw = [] then Inl ''endpoint_url is required''
     else case url_Parse raw of
       None \<Rightarrow> Inl ''endpoint_url must be an absolute HTTP or HTTPS URL''
     | Some u \<Rightarrow>
        if url_Scheme u = [] \<or> url_Host u = [] then Inl ''endpoint_url must be an absolute HTTP or HTTPS URL''
        else if url_Scheme u \<noteq> ''http'' \<and> url_Scheme u \<noteq> ''https'' then Inl ''endpoint_url must use http or https''
        else if url_User u then Inl ''endpoint_url must not include credentials''
        else Inr (url_String (u\<lparr> url_Path := TrimRight (CHR ''/'') (url_Path u) \<rparr>)))"

definition validTrustLevel :: "string \<Rightarrow> bool" where
  "validTrustLevel level \<longleftrightarrow> level \<in> {TrustLevelLocal, TrustLevelLANTrusted, TrustLevelLANUnverified, TrustLevelExternal}"

text \<open>An address that may be left out.\<close>

definition optional_endpoint :: "string \<Rightarrow> string + string" where
  "optional_endpoint raw = (if raw = [] then Inr [] else normalizeEndpointURL raw)"

text \<open>\<^verbatim>\<open>fetchPassiveEndpointModels\<close> on the names that \<^verbatim>\<open>/api/tags\<close> gave, or the text of the error; and
  \<^verbatim>\<open>fetchSubscriberCapabilities\<close> on the node that was decoded.\<close>

definition installed_model :: "string \<Rightarrow> ModelState" where
  "installed_model name = \<lparr> ms_Name = name, ms_State = ''installed'', ms_KeepWarm = False, ms_TokensSec = 0, ms_LoadTimeMS = 0 \<rparr>"

definition fetchPassiveEndpointModels :: "string + string list \<Rightarrow> string + ModelState list" where
  "fetchPassiveEndpointModels tags =
    (case tags of Inl err \<Rightarrow> Inl err
     | Inr names \<Rightarrow> Inr (sanitizeModelStates (map installed_model (filter (\<lambda>name. name \<noteq> []) names))))"

definition fetchSubscriberCapabilities :: "string + Node \<Rightarrow> string + Node" where
  "fetchSubscriberCapabilities reply =
    (case reply of Inl err \<Rightarrow> Inl err | Inr node \<Rightarrow> Inr (node\<lparr> n_Models := sanitizeModelStates (n_Models node) \<rparr>))"

section \<open>Enrollment\<close>

definition enrollmentTokenHash :: "(string \<Rightarrow> string) \<Rightarrow> string \<Rightarrow> string" where
  "enrollmentTokenHash sha token = sha token"

text \<open>The keyed digest, in its text form, is a parameter.\<close>

definition deriveSubscriberHeartbeatCredential :: "(string \<Rightarrow> string \<Rightarrow> string) \<Rightarrow> string \<Rightarrow> string \<Rightarrow> string" where
  "deriveSubscriberHeartbeatCredential mac enrollmentToken nodeID =
    ''lw_hb_'' @ mac (TrimSpace enrollmentToken) (''llama-wrangler.subscriber-heartbeat.v1:'' @ TrimSpace nodeID)"

record enrollmentTokenRequest =
  tq_NodeID :: string
  tq_SubscriberURL :: string
  tq_Hostname :: string
  tq_TrustLevel :: string
  tq_TTLMinutes :: int

record 'r node_result =
  nr_status :: int
  nr_token :: string
  nr_state :: "'r auth_state"

definition node_answer :: "int \<Rightarrow> string \<Rightarrow> 'r auth_state \<Rightarrow> 'r node_result" where
  "node_answer st token s = \<lparr> nr_status = st, nr_token = token, nr_state = s \<rparr>"

definition createEnrollmentToken :: "'r sub_env \<Rightarrow> enrollmentTokenRequest option \<Rightarrow> 'r auth_state \<Rightarrow> 'r node_result" where
  "createEnrollmentToken e body s =
    (case body of
       None \<Rightarrow> node_answer 400 [] s
     | Some q \<Rightarrow>
        (let trust = orElse (TrimSpace (tq_TrustLevel q)) TrustLevelLANUnverified in
         if \<not> validTrustLevel trust then node_answer 400 [] s
         else case (if TrimSpace (tq_SubscriberURL q) = [] then Inr [] else normalizeEndpointURL (tq_SubscriberURL q)) of
           Inl err \<Rightarrow> node_answer 400 [] s
         | Inr url \<Rightarrow>
            (let ttl0 = i64 (tq_TTLMinutes q * minute); ttl = (if ttl0 \<le> 0 \<or> 24 * hour < ttl0 then 15 * minute else ttl0);
                 token = newToken ''lw_enroll_'' (ae_token (be_auth e)); now = be_now e in
             case AddEnrollmentRequest (ae_env (be_auth e)) \<lparr> er_NodeID = TrimSpace (tq_NodeID q), er_URL = url,
                 er_Hostname = TrimSpace (tq_Hostname q), er_ControlLevel = ControlLevelManaged, er_TrustLevel = trust,
                 er_CapabilitySource = CapabilitySourceSubscriberReported, er_ApprovalState = ApprovalStatePending,
                 er_TokenHash = enrollmentTokenHash (be_sha e) token, er_TokenHint = tokenHint token, er_CreatedAt = now,
                 er_ExpiresAt = now + ttl, er_RegisteredAt = 0 \<rparr> (at_store s) of
               (req, Some err, t) \<Rightarrow> node_answer 500 [] (s\<lparr> at_store := t \<rparr>)
             | (req, None, t) \<Rightarrow>
                node_answer 200 token (emit_sub e ''enrollment_token_created''
                  [(''node_id'', GStr (er_NodeID req)), (''control_level'', GStr (er_ControlLevel req)),
                   (''trust_level'', GStr (er_TrustLevel req)), (''expires_at'', GTime (er_ExpiresAt req))] (s\<lparr> at_store := t \<rparr>)))))"

record subscriberReport =
  sb_NodeID :: string
  sb_DisplayName :: string
  sb_SubscriberURL :: string
  sb_URL :: string
  sb_Hostname :: string
  sb_Platform :: string
  sb_Arch :: string
  sb_Status :: string
  sb_OllamaAvailable :: bool
  sb_OllamaURL :: string
  sb_OllamaVersion :: string
  sb_Models :: "ModelState list option"
  sb_Tags :: "string list option"

definition reported_url :: "subscriberReport \<Rightarrow> string" where
  "reported_url b = orElse (TrimSpace (sb_SubscriberURL b)) (TrimSpace (sb_URL b))"

definition enrolling_node :: "gotime \<Rightarrow> string \<Rightarrow> subscriberReport \<Rightarrow> Node" where
  "enrolling_node now url b =
    applyModelLifecycleObserved SourceSubscriberReported ModeRich now (zeroNode\<lparr>
      n_NodeID := TrimSpace (sb_NodeID b), n_DisplayName := TrimSpace (sb_DisplayName b), n_URL := url, n_Role := ''subscriber'',
      n_ControlLevel := ControlLevelManaged, n_CapabilitySource := CapabilitySourceSubscriberReported,
      n_ApprovalState := ApprovalStatePending, n_HealthSource := HealthSourceSubscriberReported,
      n_ModelInventorySource := ModelInventorySourceSubscriberReported, n_BenchmarkSource := CapabilitySourceSubscriberReported,
      n_WarmStateSupported := True, n_ManagementSupported := True, n_TelemetryLevel := TelemetryLevelRichMetadata,
      n_Hostname := TrimSpace (sb_Hostname b), n_Platform := TrimSpace (sb_Platform b), n_Arch := TrimSpace (sb_Arch b),
      n_Status := orElse (TrimSpace (sb_Status b)) ''registered'', n_Enabled := True, n_Approved := False,
      n_OllamaAvailable := sb_OllamaAvailable b, n_OllamaURL := TrimSpace (sb_OllamaURL b),
      n_OllamaVersion := TrimSpace (sb_OllamaVersion b),
      n_Models := sanitizeModelStates (case sb_Models b of None \<Rightarrow> [] | Some ms \<Rightarrow> ms),
      n_Tags := (case sb_Tags b of None \<Rightarrow> [] | Some ts \<Rightarrow> ts), n_LastSeen := now, n_LastReportedAt := Some now,
      n_Observed := [(''enrollment_status'', GStr ''registered_pending_approval''), (''heartbeat_required'', GBool True),
        (''heartbeat_state'', GStr ''fresh'')] \<rparr>)"

text \<open>The second half of the handler gives the registered node its credential.\<close>

definition identified :: "string \<Rightarrow> Node \<Rightarrow> Node" where
  "identified credential = observe [(''heartbeat_auth_method'', GStr ''shared_secret''), (''heartbeat_auth_required'', GBool True),
     (''heartbeat_token_hint'', GStr (tokenHint credential)),
     (''heartbeat_credential_derivation'', GStr ''hmac_sha256_enrollment_token_node_id_v1'')]"

definition give_credential :: "'r sub_env \<Rightarrow> string \<Rightarrow> Node \<Rightarrow> 'r auth_state \<Rightarrow> 'r node_result" where
  "give_credential e credential node s =
    (case setSecret (be_auth e) (subscriberHeartbeatSecretKey (be_sha e) (n_NodeID node)) credential s of
       (Some err, s) \<Rightarrow> node_answer 500 [] s
     | (None, s) \<Rightarrow>
        (case upsert e (identified credential node) s of
           (Some err, s) \<Rightarrow> node_answer 500 [] s
         | (None, s) \<Rightarrow>
            (let node = node_of s (n_NodeID node) in
             node_answer 200 [] (emit_sub e ''managed_node_registered''
               (node_event node @ [(''capability_source'', GStr (n_CapabilitySource node)), (''heartbeat_auth'', GStr ''shared_secret'')]) s))))"

definition subscriberEnroll :: "'r sub_env \<Rightarrow> (string \<Rightarrow> string \<Rightarrow> string) \<Rightarrow> (string \<times> subscriberReport) option \<Rightarrow> 'r auth_state
    \<Rightarrow> 'r node_result" where
  "subscriberEnroll e mac body s =
    (case body of
       None \<Rightarrow> node_answer 400 [] s
     | Some (token0, b) \<Rightarrow>
        (let token = TrimSpace token0 in
         if token = [] then node_answer 401 [] s
         else case optional_endpoint (reported_url b) of
           Inl err \<Rightarrow> node_answer 400 [] s
         | Inr url \<Rightarrow>
            (case RegisterEnrollmentNode (ae_env (be_auth e)) (enrollmentTokenHash (be_sha e) token) (enrolling_node (be_now e) url b)
                 (zeroRequest\<lparr> er_Hostname := TrimSpace (sb_Hostname b) \<rparr>) (be_now e) (at_store s) of
               (Inl err, t) \<Rightarrow> node_answer 401 [] (s\<lparr> at_store := t \<rparr>)
             | (Inr req, t) \<Rightarrow>
                (let s = s\<lparr> at_store := t \<rparr>; node = node_of s (er_NodeID req) in
                 give_credential e (deriveSubscriberHeartbeatCredential mac token (n_NodeID node)) node s))))"

section \<open>Heartbeats\<close>

record subscriberBeat = subscriberReport +
  sb_ActiveJobs :: int
  sb_QueueDepth :: int
  sb_MemoryTotalGB :: rat
  sb_MemoryAvailGB :: rat

definition reported_text :: "string \<Rightarrow> string \<Rightarrow> string" where
  "reported_text new old = (if new \<noteq> [] then TrimSpace new else old)"

definition beating_node :: "gotime \<Rightarrow> string \<Rightarrow> subscriberBeat \<Rightarrow> Node \<Rightarrow> Node" where
  "beating_node now url b node =
    applyModelLifecycleObserved SourceSubscriberReported ModeRich now
      (observe [(''heartbeat_required'', GBool True), (''heartbeat_state'', GStr ''fresh''), (''heartbeat_at'', GTime now)] (node\<lparr>
        n_URL := orElse url (n_URL node), n_DisplayName := reported_text (sb_DisplayName b) (n_DisplayName node),
        n_Hostname := reported_text (sb_Hostname b) (n_Hostname node), n_Platform := reported_text (sb_Platform b) (n_Platform node),
        n_Arch := reported_text (sb_Arch b) (n_Arch node),
        n_Status := (if sb_Status b \<noteq> [] then TrimSpace (sb_Status b)
          else if n_Status node = [] \<or> n_Status node = ''registered'' \<or> n_Status node = ''stale'' then ''healthy'' else n_Status node),
        n_Role := ''subscriber'', n_ControlLevel := ControlLevelManaged, n_CapabilitySource := CapabilitySourceSubscriberReported,
        n_HealthSource := HealthSourceSubscriberReported, n_ModelInventorySource := ModelInventorySourceSubscriberReported,
        n_BenchmarkSource := CapabilitySourceSubscriberReported, n_WarmStateSupported := True, n_ManagementSupported := True,
        n_TelemetryLevel := TelemetryLevelRichMetadata, n_OllamaAvailable := sb_OllamaAvailable b,
        n_OllamaURL := reported_text (sb_OllamaURL b) (n_OllamaURL node),
        n_OllamaVersion := reported_text (sb_OllamaVersion b) (n_OllamaVersion node),
        n_Models := (case sb_Models b of None \<Rightarrow> n_Models node | Some ms \<Rightarrow> sanitizeModelStates ms),
        n_Tags := (case sb_Tags b of None \<Rightarrow> n_Tags node | Some ts \<Rightarrow> ts),
        n_ActiveJobs := sb_ActiveJobs b, n_QueueDepth := sb_QueueDepth b,
        n_MemoryTotalGB := (if 0 < sb_MemoryTotalGB b then sb_MemoryTotalGB b else n_MemoryTotalGB node),
        n_MemoryAvailGB := (if 0 < sb_MemoryAvailGB b then sb_MemoryAvailGB b else n_MemoryAvailGB node),
        n_LastSeen := now, n_LastReportedAt := Some now \<rparr>))"

definition with_identity :: "bool \<Rightarrow> Node \<Rightarrow> Node" where
  "with_identity known node =
    (if known then
       observe [(''heartbeat_auth_method'', GStr ''shared_secret''), (''heartbeat_auth_required'', GBool True),
         (''heartbeat_identity_verified'', GBool True), (''heartbeat_reprovisioning_required'', GBool False)] node
     else if field (n_Observed node) ''heartbeat_auth_method'' = GNil then
       observe [(''heartbeat_auth_method'', GStr ''legacy_unverified''), (''heartbeat_identity_verified'', GBool False)] node
     else node)"

definition beating :: "'r sub_env \<Rightarrow> subscriberBeat \<Rightarrow> Node \<Rightarrow> 'r auth_state \<Rightarrow> 'r job_result" where
  "beating e b node s =
    (case optional_endpoint (reported_url (subscriberReport.truncate b)) of
       Inl err \<Rightarrow> job_answer 400 None s
     | Inr url \<Rightarrow>
        (case getSecret (be_auth e) (subscriberHeartbeatSecretKey (be_sha e) (n_NodeID node)) s of
           (kept, s) \<Rightarrow>
            (let node = with_identity (kept \<noteq> []) (beating_node (be_now e) url b node) in
             case upsert e node s of
               (Some err, s) \<Rightarrow> job_answer 500 None s
             | (None, s) \<Rightarrow>
                (let node = node_of s (n_NodeID node) in
                 job_answer 200 None (emit_sub e ''managed_node_heartbeat''
                   (node_event node @ [(''status'', GStr (n_Status node)), (''model_count'', GInt (int (length (n_Models node)))),
                     (''warm_model_count'', field (n_Observed node) ''warm_model_count''),
                     (''keep_warm_count'', field (n_Observed node) ''keep_warm_count''), (''active_jobs'', GInt (n_ActiveJobs node)),
                     (''queue_depth'', GInt (n_QueueDepth node)), (''capability_source'', GStr (n_CapabilitySource node)),
                     (''heartbeat_auth'', field (n_Observed node) ''heartbeat_auth_method'')]) s)))))"

definition subscriberHeartbeat :: "'r sub_env \<Rightarrow> auth_request \<Rightarrow> subscriberBeat option \<Rightarrow> 'r auth_state \<Rightarrow> 'r job_result" where
  "subscriberHeartbeat e r body s =
    (case body of
       None \<Rightarrow> job_answer 400 None s
     | Some b \<Rightarrow>
        if TrimSpace (sb_NodeID b) = [] then job_answer 400 None s
        else with_reporter e r (TrimSpace (sb_NodeID b)) (beating e b) s)"

section \<open>Nodes added by the operator\<close>

definition managed_pending :: "Node \<Rightarrow> Node" where
  "managed_pending node = node\<lparr> n_Role := ''subscriber'', n_Enabled := True, n_Approved := False, n_ApprovalState := ApprovalStatePending,
     n_ControlLevel := ControlLevelManaged, n_CapabilitySource := CapabilitySourceSubscriberReported,
     n_HealthSource := HealthSourceSubscriberReported, n_ModelInventorySource := ModelInventorySourceSubscriberReported,
     n_BenchmarkSource := CapabilitySourceSubscriberReported, n_WarmStateSupported := True, n_ManagementSupported := True,
     n_TelemetryLevel := TelemetryLevelRichMetadata \<rparr>"

definition unreachable_node :: "gotime \<Rightarrow> string \<Rightarrow> string \<Rightarrow> string \<Rightarrow> string \<Rightarrow> Node" where
  "unreachable_node now random url nodeID err =
    (let node = applyModelLifecycleObserved SourceSubscriberReported ModeRich now (managed_pending (zeroNode\<lparr> n_NodeID := nodeID,
           n_DisplayName := nodeID, n_URL := url, n_Status := ''degraded'', n_LastSeen := now,
           n_Observed := [(''manual_add'', GBool True), (''manual_add_pending_approval'', GBool True),
             (''enrollment_warning'', GStr (''Capabilities could not be fetched: '' @ err))] \<rparr>)) in
     if n_NodeID node = [] then node\<lparr> n_NodeID := ''manual_'' @ random, n_DisplayName := ''manual_'' @ random \<rparr> else node)"

definition reached_node :: "gotime \<Rightarrow> string \<Rightarrow> string \<Rightarrow> Node \<Rightarrow> Node" where
  "reached_node now url nodeID node =
    applyModelLifecycleObserved SourceSubscriberReported ModeRich now
      (observe [(''manual_add'', GBool True), (''manual_add_pending_approval'', GBool True)]
        (managed_pending (node\<lparr> n_NodeID := orElse nodeID (n_NodeID node), n_URL := url,
          n_Models := sanitizeModelStates (n_Models node), n_Status := orElse (n_Status node) ''healthy'' \<rparr>)))"

definition store_new_node :: "'r sub_env \<Rightarrow> (Node \<Rightarrow> gobj) \<Rightarrow> Node \<Rightarrow> 'r auth_state \<Rightarrow> 'r node_result" where
  "store_new_node e event node s =
    (case upsert e node s of
       (Some err, s) \<Rightarrow> node_answer 500 [] s
     | (None, s) \<Rightarrow> node_answer 200 [] (emit_sub e ''node_enrollment'' (event (node_of s (n_NodeID node))) s))"

definition manualAddNode :: "'r sub_env \<Rightarrow> (string \<Rightarrow> string + Node) \<Rightarrow> (string \<times> string) option \<Rightarrow> 'r auth_state \<Rightarrow> 'r node_result" where
  "manualAddNode e capabilities body s =
    (case body of
       None \<Rightarrow> node_answer 400 [] s
     | Some (nodeID, url0) \<Rightarrow>
        (case normalizeEndpointURL url0 of
           Inl err \<Rightarrow> node_answer 400 [] s
         | Inr url \<Rightarrow>
            store_new_node e (\<lambda>n. [(''node_id'', GStr (n_NodeID n)), (''status'', GStr (n_Status n)),
                (''control_level'', GStr (n_ControlLevel n)), (''trust_level'', GStr (n_TrustLevel n)),
                (''approval_state'', GStr (n_ApprovalState n)), (''capability_source'', GStr (n_CapabilitySource n)),
                (''manual_add'', GBool True)])
              (case fetchSubscriberCapabilities (capabilities url) of
                 Inl err \<Rightarrow> unreachable_node (be_now e) (e_random (ae_env (be_auth e))) url nodeID err
               | Inr node \<Rightarrow> reached_node (be_now e) url nodeID node) s))"

record passiveRequest =
  pq_NodeID :: string
  pq_DisplayName :: string
  pq_EndpointURL :: string
  pq_TrustLevel :: string

definition passive_node :: "gotime \<Rightarrow> string \<Rightarrow> string \<Rightarrow> string \<Rightarrow> passiveRequest \<Rightarrow> ModelState list \<Rightarrow> Node" where
  "passive_node now random url trust q models =
    (let nodeID = orElse (TrimSpace (pq_NodeID q)) (''passive_'' @ random) in
     applyModelLifecycleObserved SourceMarshalObserved ModeInventoryOnly now (zeroNode\<lparr> n_NodeID := nodeID,
       n_DisplayName := orElse (TrimSpace (pq_DisplayName q)) nodeID, n_URL := url, n_Role := ''passive'',
       n_ControlLevel := ControlLevelPassive, n_TrustLevel := trust, n_CapabilitySource := CapabilitySourceMarshalObserved,
       n_ApprovalState := ApprovalStatePending, n_HealthSource := HealthSourceMarshalObserved,
       n_ModelInventorySource := ModelInventorySourceMarshalObserved, n_BenchmarkSource := BenchmarkSourceNone,
       n_TelemetryLevel := TelemetryLevelMarshalObservedMetadata, n_Models := models, n_Status := ''healthy'', n_Enabled := True,
       n_Approved := False, n_OllamaAvailable := True, n_LastSeen := now, n_LastObservedAt := Some now,
       n_Observed := [(''validation'', GStr ''api_tags''), (''model_count'', GInt (int (length models))),
         (''limitations'', GStr ''passive_endpoint''), (''validation_status'', GStr ''ok'')] \<rparr>))"

definition passiveAddNode :: "'r sub_env \<Rightarrow> (string \<Rightarrow> string + string list) \<Rightarrow> passiveRequest option \<Rightarrow> 'r auth_state \<Rightarrow> 'r node_result" where
  "passiveAddNode e tags body s =
    (case body of
       None \<Rightarrow> node_answer 400 [] s
     | Some q \<Rightarrow>
        (case normalizeEndpointURL (pq_EndpointURL q) of
           Inl err \<Rightarrow> node_answer 400 [] s
         | Inr url \<Rightarrow>
            if \<not> validTrustLevel (TrimSpace (pq_TrustLevel q)) then node_answer 400 [] s
            else case fetchPassiveEndpointModels (tags url) of
              Inl err \<Rightarrow> node_answer 502 [] s
            | Inr models \<Rightarrow>
               store_new_node e (\<lambda>n. [(''node_id'', GStr (n_NodeID n)), (''status'', GStr (n_Status n)),
                   (''control_level'', GStr (n_ControlLevel n)), (''trust_level'', GStr (n_TrustLevel n)),
                   (''capability_source'', GStr (n_CapabilitySource n))])
                 (passive_node (be_now e) (e_random (ae_env (be_auth e))) url (TrimSpace (pq_TrustLevel q)) q models) s))"

section \<open>The probe of a passive endpoint\<close>

definition friendlyProbeErrorCode :: "string \<Rightarrow> string" where
  "friendlyProbeErrorCode err =
    (let text = ToLower err in
     if Contains text ''timeout'' \<or> Contains text ''deadline'' then ''timeout''
     else if Contains text ''connection refused'' then ''connection_refused'' else ''api_tags_unavailable'')"

text \<open>The probe took the time \<open>elapsed\<close>; the clock shows its end.\<close>

definition runPassiveBenchmarkProbe :: "gotime \<Rightarrow> string \<Rightarrow> duration \<Rightarrow> string + string list \<Rightarrow> Node \<Rightarrow> Node \<times> gobj" where
  "runPassiveBenchmarkProbe now random elapsed tags node =
    (let fetched = fetchPassiveEndpointModels tags;
         models = (case fetched of Inl err \<Rightarrow> [] | Inr ms \<Rightarrow> ms);
         result = [(''benchmark_id'', GStr (''probe_'' @ random)), (''source'', GStr CapabilitySourceMarshalObserved),
           (''mode'', GStr ''marshal_observed_api_tags''), (''status'', GStr ''probe_ok''), (''started_at'', GTime (now - elapsed)),
           (''completed_at'', GTime now), (''duration_ms'', GInt (elapsed div 1000000)), (''model_count'', GInt (int (length models)))];
         (result, node) = (case fetched of
             Inl err \<Rightarrow> (puts [(''status'', GStr ''probe_failed''),
               (''error_code'', GStr (safeBenchmarkString (friendlyProbeErrorCode err)))] result, node)
           | Inr ms \<Rightarrow> (result, node\<lparr> n_Models := ms, n_OllamaAvailable := True, n_Status := ''healthy'' \<rparr>))
     in (applyBenchmarkResult now result CapabilitySourceMarshalObserved (node\<lparr> n_LastObservedAt := Some now \<rparr>), result))"

section \<open>Actions on a node\<close>

text \<open>The body of a request, as each action decodes it; \<^term>\<open>None\<close> where it does not decode.\<close>

record nodePatch =
  pt_DisplayName :: string
  pt_MaxJobs :: int
  pt_Tags :: "string list option"

record action_body =
  ab_benchmark :: "benchmarkJobRequest option"
  ab_keep_warm :: "modelKeepWarmActionRequest option"
  ab_trust :: "string option"
  ab_patch :: nodePatch

definition approved_node :: "Node \<Rightarrow> Node" where
  "approved_node node = node\<lparr> n_ApprovalState := ApprovalStateApproved, n_Approved := True, n_Enabled := True,
     n_Status := (if n_Status node \<in> {[], ''disabled'', ''revoked'', ''rejected''} then ''healthy'' else n_Status node) \<rparr>"

definition revoked_node :: "Node \<Rightarrow> Node" where
  "revoked_node node = node\<lparr> n_ApprovalState := ApprovalStateRevoked, n_Approved := False, n_Enabled := False, n_Status := ''disabled'' \<rparr>"

definition patched_node :: "nodePatch \<Rightarrow> Node \<Rightarrow> Node" where
  "patched_node patch node = node\<lparr> n_DisplayName := orElse (pt_DisplayName patch) (n_DisplayName node),
     n_MaxJobs := (if 0 < pt_MaxJobs patch then pt_MaxJobs patch else n_MaxJobs node),
     n_Tags := (case pt_Tags patch of None \<Rightarrow> n_Tags node | Some ts \<Rightarrow> ts) \<rparr>"

definition benchmark_action :: "'r sub_env \<Rightarrow> benchmarkJobRequest option \<Rightarrow> Node \<Rightarrow> 'r auth_state \<Rightarrow> 'r node_result" where
  "benchmark_action e body node s =
    (case body of
       None \<Rightarrow> node_answer 400 [] s
     | Some req \<Rightarrow>
        (let policy = benchmarkPolicyForNode node (be_now e);
             event = [(''node_id'', GStr (n_NodeID node)), (''control_level'', GStr (bn_ControlLevel policy)),
               (''trust_level'', GStr (bn_TrustLevel policy)), (''approval_state'', GStr (bn_ApprovalState policy))] in
         if \<not> bn_Eligible policy then
           node_answer 400 [] (emit_sub e ''benchmark_policy_rejected'' (event @ [(''benchmark_source'', GStr (bn_BenchmarkSource policy)),
             (''mode'', GStr (bn_Mode policy)), (''reason_codes'', GStrs (bn_ReasonCodes policy))]) s)
         else case benchmarkWorkloadSuiteJobMetadata req of
           Inl reason \<Rightarrow> node_answer 400 [] s
         | Inr suite \<Rightarrow>
            (case createManagedBenchmarkJob (be_now e) (e_random (ae_env (be_auth e))) (bn_Mode policy) suite (benchmarkSchedulerConfig s) node of
               (job, node) \<Rightarrow>
                (let s = emit_sub e ''benchmark_policy_queued'' (event @ [(''benchmark_source'', GStr CapabilitySourceSubscriberReported),
                       (''benchmark_id'', field job ''benchmark_id''), (''mode'', GStr (bn_Mode policy)),
                       (''workload_suite'', field suite ''suite_id''), (''workload_source'', field suite ''source''),
                       (''reason_codes'', GStrs (bn_ReasonCodes policy))]) s in
                 case upsert e node s of
                   (Some err, s) \<Rightarrow> node_answer 500 [] s
                 | (None, s) \<Rightarrow> node_answer 200 [] s))))"

definition probe_action :: "'r sub_env \<Rightarrow> duration \<Rightarrow> (string \<Rightarrow> string + string list) \<Rightarrow> Node \<Rightarrow> 'r auth_state \<Rightarrow> 'r node_result" where
  "probe_action e elapsed tags node s =
    (if routingStatusControlLevel node \<noteq> ControlLevelPassive then node_answer 400 [] s
     else case runPassiveBenchmarkProbe (be_now e) (e_random (ae_env (be_auth e))) elapsed (tags (n_URL node)) node of
       (node, result) \<Rightarrow>
        (case upsert e node s of
           (Some err, s) \<Rightarrow> node_answer 500 [] s
         | (None, s) \<Rightarrow>
            node_answer 200 [] (emit_sub e ''benchmark_probe_completed'' (node_event (node_of s (n_NodeID node)) @
              [(''benchmark_source'', GStr CapabilitySourceMarshalObserved), (''benchmark_status'', field result ''status''),
               (''model_count'', field result ''model_count'')]) s)))"

definition keep_warm_action :: "'r sub_env \<Rightarrow> modelKeepWarmActionRequest option \<Rightarrow> Node \<Rightarrow> 'r auth_state \<Rightarrow> 'r node_result" where
  "keep_warm_action e body node s =
    (case body of
       None \<Rightarrow> node_answer 400 [] s
     | Some req \<Rightarrow>
        (case createModelKeepWarmAction (e_random (ae_env (be_auth e))) (be_now e) req node of
           (None, policy, node) \<Rightarrow>
             node_answer 400 [] (emit_sub e ''model_lifecycle_action_rejected'' [(''node_id'', GStr (n_NodeID node)),
               (''control_level'', GStr (lp_ControlLevel policy)), (''trust_level'', GStr (lp_TrustLevel policy)),
               (''approval_state'', GStr (lp_ApprovalState policy)), (''action_type'', GStr ''keep_warm''),
               (''reason_codes'', GStrs (lp_ReasonCodes policy))] s)
         | (Some action, policy, node) \<Rightarrow>
            (case upsert e node s of
               (Some err, s) \<Rightarrow> node_answer 500 [] s
             | (None, s) \<Rightarrow>
                node_answer 200 [] (emit_sub e ''model_lifecycle_action_queued'' (node_event (node_of s (n_NodeID node)) @
                  [(''action_id'', field action ''action_id''), (''action_type'', field action ''action_type''),
                   (''model'', field action ''model''), (''desired_keep_warm'', field action ''desired_keep_warm'')]) s))))"

definition credential_action :: "'r sub_env \<Rightarrow> Node \<Rightarrow> 'r auth_state \<Rightarrow> 'r node_result" where
  "credential_action e node s =
    (if n_ControlLevel node \<noteq> [] \<and> n_ControlLevel node \<noteq> ControlLevelManaged then node_answer 400 [] s
     else case rotateSubscriberHeartbeatCredential e node ''admin_rotation'' s of
       (Inl err, s) \<Rightarrow> node_answer 500 [] s
     | (Inr (node, credential), s) \<Rightarrow>
        (case upsert e node s of
           (Some err, s) \<Rightarrow> node_answer 500 [] s
         | (None, s) \<Rightarrow>
            node_answer 200 credential (emit_sub e ''managed_node_heartbeat_credential_rotated''
              (node_event (node_of s (n_NodeID node)) @ [(''token_hint'', GStr (tokenHint credential))]) s)))"

text \<open>The end of the handler: the outcome of the write is ignored.\<close>

definition changed_node :: "'r sub_env \<Rightarrow> string \<Rightarrow> Node \<Rightarrow> 'r auth_state \<Rightarrow> 'r node_result" where
  "changed_node e act node s =
    (let s = snd (upsert e node s); node = node_of s (n_NodeID node);
         s = (if act = ''approve'' \<or> act = ''revoke'' then
                emit_sub e ''node_approval'' (node_event node @ [(''status'', GStr (n_Status node))])
                  (s\<lparr> at_store := SetEnrollmentApproval (ae_env (be_auth e)) (n_NodeID node) (n_ApprovalState node) (at_store s) \<rparr>)
              else s);
         s = (if act = ''trust'' then emit_sub e ''node_trust_updated'' (node_event node) s else s)
     in node_answer 200 [] s)"

definition nodeAction :: "'r sub_env \<Rightarrow> duration \<Rightarrow> (string \<Rightarrow> string + string list) \<Rightarrow> string \<Rightarrow> action_body \<Rightarrow> 'r auth_state
    \<Rightarrow> 'r node_result" where
  "nodeAction e elapsed tags path body s =
    (let parts = Split (CHR ''/'') (TrimPrefix path ''/wrangler/nodes/'') in
     if length parts < 2 then node_answer 400 [] s
     else case goget (st_Nodes (Snapshot (at_store s))) (parts ! 0) of
       None \<Rightarrow> node_answer 404 [] s
     | Some node \<Rightarrow>
        (let act = parts ! 1 in
         if act = ''approve'' then changed_node e act (approved_node node) s
         else if act = ''benchmark'' then benchmark_action e (ab_benchmark body) node s
         else if act = ''benchmark-probe'' then probe_action e elapsed tags node s
         else if act = ''model-actions'' then
           (if length parts \<noteq> 3 \<or> parts ! 2 \<noteq> ''keep-warm'' then node_answer 404 [] s
            else keep_warm_action e (ab_keep_warm body) node s)
         else if act = ''heartbeat-credential'' then
           (if length parts \<noteq> 3 \<or> parts ! 2 \<noteq> ''rotate'' then node_answer 404 [] s else credential_action e node s)
         else if act = ''disable'' then changed_node e act (node\<lparr> n_Enabled := False, n_Status := ''disabled'' \<rparr>) s
         else if act = ''enable'' then changed_node e act (node\<lparr> n_Enabled := True, n_Status := ''healthy'' \<rparr>) s
         else if act = ''revoke'' then changed_node e act (revoked_node node) s
         else if act = ''trust'' then
           (case ab_trust body of
              None \<Rightarrow> node_answer 400 [] s
            | Some level \<Rightarrow>
               if \<not> validTrustLevel (TrimSpace level) then node_answer 400 [] s
               else changed_node e act (observe [(''trust_updated_at'', GTime (be_now e))] (node\<lparr> n_TrustLevel := TrimSpace level \<rparr>)) s)
         else if act = ''overrides'' then changed_node e act (patched_node (ab_patch body) node) s
         else node_answer 404 [] s))"

section \<open>What a subscriber cannot change\<close>

text \<open>What the operator decides about a node: its approval, whether it is enabled, and its trust level.\<close>

definition authority :: "Node \<Rightarrow> string \<times> bool \<times> bool \<times> string" where
  "authority n = (n_ApprovalState n, n_Approved n, n_Enabled n, n_TrustLevel n)"

definition decided :: "Node \<Rightarrow> bool" where
  "decided n \<longleftrightarrow> n_TrustLevel n \<noteq> [] \<and> (n_Approved n \<longleftrightarrow> n_ApprovalState n = ApprovalStateApproved) \<and>
     n_ApprovalState n \<in> {ApprovalStatePending, ApprovalStateApproved, ApprovalStateRejected, ApprovalStateRevoked}"

lemma decided_wf: "node_wf n \<Longrightarrow> decided n"
  using node_wf_D(2,3,4) [of n] by (simp add: decided_def)

lemma decided_cong: "authority n = authority m \<Longrightarrow> decided n = decided m"
  by (simp add: decided_def authority_def)

lemma approval_nonempty: "ApprovalStateRejected \<noteq> []" "ApprovalStateRevoked \<noteq> []"
  by (simp_all add: level_defs)

lemma normalize_approval_settled: "decided n \<Longrightarrow> authority (normalize_approval n) = authority n"
  by (auto simp: decided_def authority_def normalize_approval_def Let_def approval_nonempty)

lemma authority_later:
  "authority (jsonNode n) = authority n" "authority (normalize_times now n) = authority n" "authority (normalize_sources n) = authority n"
  by (simp_all add: authority_def jsonNode_def normalize_times_def normalize_sources_def Let_def)

lemma authority_prepared:
  assumes "decided n" shows "authority (jsonNode (prepareNode e n)) = authority n"
proof -
  let ?n = "n\<lparr> n_NodeID := orElse (n_NodeID n) (''node_'' @ e_random e), n_Status := orElse (n_Status n) ''unknown'',
     n_LastSeen := (if n_LastSeen n \<noteq> 0 then n_LastSeen n else e_now e) \<rparr>"
  have n: "authority (normalize_levels ?n) = authority n"
    using assms by (simp add: authority_def normalize_levels_def Let_def decided_def)
  have "authority (normalize_approval (normalize_levels ?n)) = authority n"
    using normalize_approval_settled [of "normalize_levels ?n"] decided_cong [OF n] assms n by simp
  then show ?thesis by (simp add: prepareNode_def normalizeNode_def authority_later)
qed

definition node_keeps :: "(Node \<Rightarrow> Node) \<Rightarrow> bool" where
  "node_keeps f \<longleftrightarrow> (\<forall>n. authority (f n) = authority n \<and> n_NodeID (f n) = n_NodeID n)"

lemma keeps_D: "node_keeps f \<Longrightarrow> authority (f n) = authority n" "node_keeps f \<Longrightarrow> n_NodeID (f n) = n_NodeID n"
  by (simp_all add: node_keeps_def)

named_theorems keeping

lemma keeps_observe [keeping]: "node_keeps (observe kvs)"
  by (simp add: node_keeps_def observe_def authority_def)

lemma keeps_lifecycle [keeping]: "node_keeps (applyModelLifecycleObserved source mode now)"
  by (simp add: node_keeps_def applyModelLifecycleObserved_def observe_def authority_def Let_def)

lemma keeps_job [keeping]: "node_keeps (put_job job)"
  by (simp add: node_keeps_def put_job_def observe_def authority_def Let_def)

lemma keeps_action [keeping]: "node_keeps (put_action st i now action)"
  by (simp add: node_keeps_def put_action_def observe_def authority_def Let_def)

lemma keeps_result [keeping]: "node_keeps (applyBenchmarkResult now result source)"
  by (simp add: node_keeps_def applyBenchmarkResult_def observe_def authority_def)

lemma keeps_rate [keeping]: "node_keeps (updateModelBenchmarkRate model rate)"
  by (simp add: node_keeps_def updateModelBenchmarkRate_def authority_def)

lemma keeps_complete [keeping]: "node_keeps (completeBenchmarkJobWithResult now result)"
  by (simp add: node_keeps_def completeBenchmarkJobWithResult_def put_job_def observe_def authority_def Let_def split: option.split)

lemma keeps_models: "authority (n\<lparr> n_Models := ms \<rparr>) = authority n"
  by (simp add: authority_def)

lemma keeps_completed_action [keeping]: "node_keeps (applyCompletedModelLifecycleAction action now)"
  unfolding node_keeps_def applyCompletedModelLifecycleAction_def
  by (simp add: Let_def keeps_D [OF keeps_lifecycle] keeps_models split: option.split)

lemma keeps_beat [keeping]: "node_keeps (beating_node now url b)"
  unfolding node_keeps_def beating_node_def
  by (simp add: keeps_D [OF keeps_lifecycle] keeps_D [OF keeps_observe]) (simp add: authority_def)

lemma keeps_identity [keeping]: "node_keeps (with_identity known)"
  by (simp add: node_keeps_def with_identity_def observe_def authority_def)

lemma keeps_reconciled [keeping]: "node_keeps (\<lambda>n. snd (reconcileBenchmarkJobsForNode now reason p n))"
  by (simp add: node_keeps_def reconcileBenchmarkJobsForNode_def observe_def authority_def Let_def case_prod_unfold)

lemmas kept = keeping [THEN keeps_D(1)] keeping [THEN keeps_D(2)]

text \<open>From one state to another, at most the node \<open>i\<close> changed, and no decision of the operator.\<close>

definition touches :: "string \<Rightarrow> 'r auth_state \<Rightarrow> 'r auth_state \<Rightarrow> bool" where
  "touches i s s' \<longleftrightarrow> (\<forall>j. authority (node_of s' j) = authority (node_of s j) \<and> (j \<noteq> i \<longrightarrow> node_of s' j = node_of s j))"

lemma touches_same: "(\<And>j. node_of s' j = node_of s j) \<Longrightarrow> touches i s s'"
  by (simp add: touches_def)

lemma touches_trans: "touches i s s' \<Longrightarrow> touches i s' s'' \<Longrightarrow> touches i s s''"
  by (simp add: touches_def)

lemma touches_D: "touches i s s' \<Longrightarrow> authority (node_of s' j) = authority (node_of s j)"
  by (simp add: touches_def)

lemma touches_emit [simp]: "touches i s (emit_sub e ty fs s') = touches i s s'"
  by (simp add: touches_def)

lemma touches_secrets [simp]: "touches i s (s'\<lparr> at_secrets := x \<rparr>) = touches i s s'"
  by (simp add: touches_def)

lemma upsert_touches:
  assumes "upsert e node s = (err, s')" "n_NodeID node = i" "i \<noteq> []" "authority node = authority (node_of s i)"
    and "decided (node_of s i)"
  shows "touches i s s'"
proof -
  have "authority (jsonNode (prepareNode (ae_env (be_auth e)) node)) = authority (node_of s i)"
    using authority_prepared [of node] decided_cong [OF assms(4)] assms(4,5) by simp
  then show ?thesis using node_of_upsert [OF assms(1)] assms(2,3) by (auto simp: touches_def)
qed

text \<open>The work that a handler does for the node that reports.\<close>

locale subscriber_work =
  fixes e :: "'r sub_env" and work :: "Node \<Rightarrow> 'r auth_state \<Rightarrow> 'r job_result"
  assumes confined: "n_NodeID node \<noteq> [] \<Longrightarrow> node_of s (n_NodeID node) = node \<Longrightarrow> decided node \<Longrightarrow>
      touches (n_NodeID node) s (jr_state (work node s))"
    and keeps_store: "be_now e \<noteq> 0 \<Longrightarrow> store_wf (at_store s) \<Longrightarrow> store_wf (at_store (jr_state (work node s)))"
begin

lemma reported:
  assumes "store_wf (at_store s)" "i \<noteq> []"
  shows "touches i s (jr_state (with_reporter e r i work s))"
    "node_of (jr_state (with_reporter e r i work s)) j \<noteq> node_of s j \<Longrightarrow>
       fst (verifySubscriberHeartbeatCredential e r (node_of s i) s) = None"
proof -
  obtain res s1 where r: "reporting_node e r i s = (res, s1)" by fastforce
  have s1: "node_of s1 j = node_of s j" for j using node_of_reporting [of e r i s j] r by simp
  show "touches i s (jr_state (with_reporter e r i work s))"
  proof (cases res)
    case (Inl st)
    then show ?thesis using r s1 by (simp add: with_reporter_def touches_same)
  next
    case (Inr node)
    have g: "goget (st_Nodes (Snapshot (at_store s))) i = Some node" using reporting_node_Inr(1) r Inr by blast
    obtain n0 where n0: "goget (st_Nodes (s_state (at_store s))) i = Some n0" "node = jsonNode n0"
      using g by (auto simp: Snapshot_def cloneState_def jsonState_def goget_map_snd)
    have node: "n_NodeID node = i" "decided node" using store_wf_node [OF assms(1) n0(1)] n0(2) decided_wf [of node] by auto
    have "node_of s i = node" using g by (simp add: node_of_def)
    then have "touches i s1 (jr_state (work node s1))" using confined [of node s1] node assms(2) s1 by simp
    then show ?thesis using r Inr s1 by (simp add: with_reporter_def touches_def)
  qed
  show "fst (verifySubscriberHeartbeatCredential e r (node_of s i) s) = None"
    if "node_of (jr_state (with_reporter e r i work s)) j \<noteq> node_of s j"
  proof (cases res)
    case (Inl st)
    then show ?thesis using r s1 that by (simp add: with_reporter_def)
  next
    case (Inr node)
    then show ?thesis using reporting_node_Inr(1,3) [of e r i s node s1] r by (simp add: node_of_def)
  qed
qed

lemma reported_wf:
  assumes "be_now e \<noteq> 0" "store_wf (at_store s)"
  shows "store_wf (at_store (jr_state (with_reporter e r i work s)))"
  using reporting_node_wf [OF assms(2), of e r i] keeps_store [OF assms(1)] by (auto simp: with_reporter_def split: prod.split sum.split)

end

text \<open>Every kind of work ends with one node written back and an event.\<close>

lemma written_back:
  fixes s :: "'r auth_state"
  assumes "n_NodeID node = i" "i \<noteq> []" "authority node = authority (node_of s i)" "decided (node_of s i)"
  shows "touches i s (jr_state (case upsert e node s of (Some err, s) \<Rightarrow> job_answer 500 None s
     | (None, s) \<Rightarrow> job_answer st job (emit_sub e ty (fs s) s)))"
  using upsert_touches [OF _ assms] by (auto split: prod.split option.split)

lemma written_wf:
  fixes s :: "'r auth_state"
  assumes "be_now e \<noteq> 0" "store_wf (at_store s)"
  shows "store_wf (at_store (jr_state (case upsert e node s of (Some err, s) \<Rightarrow> job_answer 500 None s
     | (None, s) \<Rightarrow> job_answer st job (emit_sub e ty (fs s) s))))"
  using upsert_wf [OF _ assms(2,1)] by (auto simp: emit_sub_wf split: prod.split option.split)

lemma getSecret_state:
  obtains v x where "getSecret a k s = (v, s\<lparr> at_secrets := x \<rparr>)"
  by (cases "Get (ae_keyring a) k (at_secrets s)") (auto simp: getSecret_def)

interpretation claim_action: subscriber_work e "claiming_action e" for e
proof
  show "touches (n_NodeID node) s (jr_state (claiming_action e node s))"
    if "n_NodeID node \<noteq> []" "node_of s (n_NodeID node) = node" "decided node" for node and s :: "'a auth_state"
    unfolding claiming_action_def Let_def
    using that by (auto simp: touches_same kept intro!: written_back split: option.split)
  show "store_wf (at_store (jr_state (claiming_action e node s)))" if "be_now e \<noteq> 0" "store_wf (at_store s)" for node and s :: "'a auth_state"
    unfolding claiming_action_def Let_def using that written_wf [OF that] by (auto split: option.split)
qed

interpretation report_action: subscriber_work e "reporting_action e i st code" for e i st code
proof
  show "touches (n_NodeID node) s (jr_state (reporting_action e i st code node s))"
    if "n_NodeID node \<noteq> []" "node_of s (n_NodeID node) = node" "decided node" for node and s :: "'a auth_state"
    unfolding reporting_action_def Let_def
    using that by (auto simp: touches_same kept intro!: written_back split: option.split)
  show "store_wf (at_store (jr_state (reporting_action e i st code node s)))" if "be_now e \<noteq> 0" "store_wf (at_store s)"
    for node and s :: "'a auth_state"
    unfolding reporting_action_def Let_def using that written_wf [OF that] by (auto split: option.split)
qed

interpretation report_job: subscriber_work e "reporting e i st code" for e i st code
proof
  show "touches (n_NodeID node) s (jr_state (reporting e i st code node s))"
    if "n_NodeID node \<noteq> []" "node_of s (n_NodeID node) = node" "decided node" for node and s :: "'a auth_state"
    unfolding reporting_def Let_def
    using that by (auto simp: touches_same kept intro!: written_back split: option.split)
  show "store_wf (at_store (jr_state (reporting e i st code node s)))" if "be_now e \<noteq> 0" "store_wf (at_store s)"
    for node and s :: "'a auth_state"
    unfolding reporting_def Let_def using that written_wf [OF that] by (auto split: option.split)
qed

interpretation deliver: subscriber_work e "delivering e b" for e b
proof
  show "touches (n_NodeID node) s (jr_state (delivering e b node s))"
    if "n_NodeID node \<noteq> []" "node_of s (n_NodeID node) = node" "decided node" for node and s :: "'a auth_state"
    unfolding delivering_def Let_def using that by (intro written_back) (simp_all add: kept)
  show "store_wf (at_store (jr_state (delivering e b node s)))" if "be_now e \<noteq> 0" "store_wf (at_store s)"
    for node and s :: "'a auth_state"
    unfolding delivering_def Let_def using written_wf [OF that] by simp
qed

interpretation beat: subscriber_work e "beating e b" for e b
proof
  show "touches (n_NodeID node) s (jr_state (beating e b node s))"
    if "n_NodeID node \<noteq> []" "node_of s (n_NodeID node) = node" "decided node" for node and s :: "'a auth_state"
  proof (cases "optional_endpoint (reported_url (subscriberReport.truncate b))")
    case (Inr url)
    obtain v x where g: "getSecret (be_auth e) (subscriberHeartbeatSecretKey (be_sha e) (n_NodeID node)) s = (v, s\<lparr> at_secrets := x \<rparr>)"
      by (rule getSecret_state)
    have lift: "touches (n_NodeID node) s s'" if "touches (n_NodeID node) (s\<lparr> at_secrets := x \<rparr>) s'" for s'
      using that by (simp add: touches_def)
    show ?thesis unfolding beating_def Inr sum.case g case_prod_conv Let_def
      by (rule lift, rule written_back) (simp_all add: kept that)
  qed (simp add: beating_def touches_same)
  show "store_wf (at_store (jr_state (beating e b node s)))" if "be_now e \<noteq> 0" "store_wf (at_store s)"
    for node and s :: "'a auth_state"
  proof (cases "optional_endpoint (reported_url (subscriberReport.truncate b))")
    case (Inr url)
    obtain v x where g: "getSecret (be_auth e) (subscriberHeartbeatSecretKey (be_sha e) (n_NodeID node)) s = (v, s\<lparr> at_secrets := x \<rparr>)"
      by (rule getSecret_state)
    have "store_wf (at_store (s\<lparr> at_secrets := x \<rparr>))" using that(2) by simp
    then show ?thesis unfolding beating_def Inr sum.case g case_prod_conv Let_def by (rule written_wf [OF that(1)])
  qed (simp add: beating_def that)
qed

interpretation claim_job: subscriber_work e "claiming e" for e
proof
  show "touches (n_NodeID node) s (jr_state (claiming e node s))"
    if "n_NodeID node \<noteq> []" "node_of s (n_NodeID node) = node" "decided node" for node and s :: "'a auth_state"
  proof -
    obtain run node' where rc: "reconcileBenchmarkJobsForNode (be_now e) ''subscriber_claim'' (benchmarkSchedulerConfig s) node = (run, node')"
      by fastforce
    have node': "authority node' = authority node" "n_NodeID node' = n_NodeID node"
      using keeps_D [OF keeps_reconciled, of "be_now e" "''subscriber_claim''" "benchmarkSchedulerConfig s" node] rc by simp_all
    obtain err s2 where s2: "(if sr_Changed run then upsert e node' s else (None, s)) = (err, s2)" by fastforce
    have t2: "touches (n_NodeID node) s s2"
      using s2 upsert_touches [of e node' s err s2 "n_NodeID node"] node' that by (auto simp: touches_same split: if_splits)
    have a2: "authority (node_of s2 (n_NodeID node)) = authority node" using touches_D [OF t2] that(2) by simp
    have set2: "decided (node_of s2 (n_NodeID node))" using decided_cong [OF a2] that(3) by simp
    have "touches (n_NodeID node) s2 (jr_state (claiming e node s))"
      unfolding claiming_def rc Let_def case_prod_conv s2
      by (auto simp: touches_same kept node' a2 set2 that(1) intro!: written_back split: option.split)
    with t2 show ?thesis by (rule touches_trans)
  qed
  show "store_wf (at_store (jr_state (claiming e node s)))" if "be_now e \<noteq> 0" "store_wf (at_store s)"
    for node and s :: "'a auth_state"
  proof -
    obtain run node' where rc: "reconcileBenchmarkJobsForNode (be_now e) ''subscriber_claim'' (benchmarkSchedulerConfig s) node = (run, node')"
      by fastforce
    obtain err s2 where s2: "(if sr_Changed run then upsert e node' s else (None, s)) = (err, s2)" by fastforce
    have "store_wf (at_store s2)" using s2 that upsert_wf [of e node' s err s2] by (auto split: if_splits)
    note written_wf [OF that(1) this]
    then show ?thesis unfolding claiming_def rc Let_def case_prod_conv s2 using \<open>store_wf (at_store s2)\<close> by (auto split: option.split)
  qed
qed

text \<open>The requests of an enrolled subscriber that continue its work, each with its body. Enrollment, which makes a node from a token and may
  replace an existing one, is a request of its own (\<open>subscriberEnroll\<close>, see below) and not among them.\<close>

datatype subscriber_call =
    Beat "subscriberBeat option"
  | JobClaim "subscriberBenchmarkJobRequest option"
  | JobStatus "subscriberBenchmarkJobRequest option"
  | JobResult "subscriberBenchmarkResultRequest option"
  | ActionClaim "subscriberModelActionRequest option"
  | ActionStatus "subscriberModelActionRequest option"

fun subscriber_calls :: "'r sub_env \<Rightarrow> auth_request \<Rightarrow> subscriber_call \<Rightarrow> 'r auth_state \<Rightarrow> 'r auth_state" where
  "subscriber_calls e r (Beat b) s = jr_state (subscriberHeartbeat e r b s)"
| "subscriber_calls e r (JobClaim b) s = jr_state (subscriberBenchmarkJobClaim e r b s)"
| "subscriber_calls e r (JobStatus b) s = jr_state (subscriberBenchmarkJobStatus e r b s)"
| "subscriber_calls e r (JobResult b) s = jr_state (subscriberBenchmarkResult e r b s)"
| "subscriber_calls e r (ActionClaim b) s = jr_state (subscriberModelActionClaim e r b s)"
| "subscriber_calls e r (ActionStatus b) s = jr_state (subscriberModelActionStatus e r b s)"

text \<open>For whom a request is, the empty string for one whose body does not decode.\<close>

fun caller :: "subscriber_call \<Rightarrow> string" where
  "caller (Beat b) = (case b of None \<Rightarrow> [] | Some b \<Rightarrow> TrimSpace (sb_NodeID b))"
| "caller (JobClaim b) = (case b of None \<Rightarrow> [] | Some b \<Rightarrow> TrimSpace (jq_NodeID b))"
| "caller (JobStatus b) = (case b of None \<Rightarrow> [] | Some b \<Rightarrow> TrimSpace (jq_NodeID b))"
| "caller (JobResult b) = (case b of None \<Rightarrow> [] | Some b \<Rightarrow> TrimSpace (rr_NodeID b))"
| "caller (ActionClaim b) = (case b of None \<Rightarrow> [] | Some b \<Rightarrow> TrimSpace (sm_NodeID b))"
| "caller (ActionStatus b) = (case b of None \<Rightarrow> [] | Some b \<Rightarrow> TrimSpace (sm_NodeID b))"

lemmas subscriber_handlers = subscriberHeartbeat_def subscriberBenchmarkJobClaim_def subscriberBenchmarkJobStatus_def
  subscriberBenchmarkResult_def subscriberModelActionClaim_def subscriberModelActionStatus_def

lemmas works = claim_action.subscriber_work_axioms report_action.subscriber_work_axioms report_job.subscriber_work_axioms
  deliver.subscriber_work_axioms beat.subscriber_work_axioms claim_job.subscriber_work_axioms

lemma call_cases:
  obtains (refused) "subscriber_calls e r call s = s"
  | (worked) k where "subscriber_work e k" "caller call \<noteq> []" "subscriber_calls e r call s = jr_state (with_reporter e r (caller call) k s)"
proof (cases "subscriber_calls e r call s = s")
  case False
  have "\<exists>k. subscriber_work e k \<and> caller call \<noteq> [] \<and> subscriber_calls e r call s = jr_state (with_reporter e r (caller call) k s)"
    using False by (cases call)
      (auto simp: subscriber_handlers Let_def split: option.splits if_splits, (rule exI, rule conjI, rule works, rule refl)+)
  then show ?thesis using that by blast
qed

lemma call_touches: "store_wf (at_store s) \<Longrightarrow> touches (caller call) s (subscriber_calls e r call s)"
  by (rule call_cases [of e r call s]) (simp_all add: touches_same subscriber_work.reported)

lemma call_wf: "store_wf (at_store s) \<Longrightarrow> be_now e \<noteq> 0 \<Longrightarrow> store_wf (at_store (subscriber_calls e r call s))"
  by (rule call_cases [of e r call s]) (simp_all add: subscriber_work.reported_wf)

lemma call_identity:
  assumes "store_wf (at_store s)" "node_of (subscriber_calls e r call s) j \<noteq> node_of s j"
  shows "fst (verifySubscriberHeartbeatCredential e r (node_of s (caller call)) s) = None"
  using assms subscriber_work.reported(2) [OF _ assms(1)] by (rule_tac call_cases [of e r call s]) auto

text \<open>C22. What a subscriber can do with its work: no heartbeat, claim, report or result of benchmarks and no claim or report of model actions,
  whatever it says and whatever writes fail, changes a decision of the operator about any node (approval, enabling, trust); a node
  changes only by such a request for itself that has its credential; and the store stays well-formed. (Enrollment with a valid
  token is another request: it replaces the node that it names.)\<close>

theorem subscriber_confined:
  assumes "store_wf (at_store s)" "be_now e \<noteq> 0"
  shows "store_wf (at_store (subscriber_calls e r call s)) \<and>
    authority (node_of (subscriber_calls e r call s) i) = authority (node_of s i) \<and>
    (node_of (subscriber_calls e r call s) i \<noteq> node_of s i \<longrightarrow>
       i = caller call \<and> fst (verifySubscriberHeartbeatCredential e r (node_of s i) s) = None)"
proof (intro conjI impI)
  show "authority (node_of (subscriber_calls e r call s) i) = authority (node_of s i)"
    using call_touches [OF assms(1), of call e r] by (simp add: touches_def)
  assume changed: "node_of (subscriber_calls e r call s) i \<noteq> node_of s i"
  show "i = caller call" using changed call_touches [OF assms(1), of call e r] by (auto simp: touches_def)
  with call_identity [OF assms(1) changed] show "fst (verifySubscriberHeartbeatCredential e r (node_of s i) s) = None" by simp
qed (rule call_wf [OF assms])

section \<open>Enrollment admits and identifies\<close>

lemma enroll_200:
  assumes "nr_status (subscriberEnroll e mac (Some (token, b)) s) = 200"
  obtains url req t where
    "RegisterEnrollmentNode (ae_env (be_auth e)) (enrollmentTokenHash (be_sha e) (TrimSpace token)) (enrolling_node (be_now e) url b)
       (zeroRequest\<lparr> er_Hostname := TrimSpace (sb_Hostname b) \<rparr>) (be_now e) (at_store s) = (Inr req, t)"
    "subscriberEnroll e mac (Some (token, b)) s =
       give_credential e (deriveSubscriberHeartbeatCredential mac (TrimSpace token) (n_NodeID (node_of (s\<lparr> at_store := t \<rparr>) (er_NodeID req))))
         (node_of (s\<lparr> at_store := t \<rparr>) (er_NodeID req)) (s\<lparr> at_store := t \<rparr>)"
  using assms unfolding subscriberEnroll_def Let_def
  by (auto simp: node_answer_def intro: that split: prod.splits sum.splits if_splits)

lemma decided_normalized: "decided (normalizeNode now n)"
  unfolding decided_def normalizeNode_def using normalize_approval_fields(1) [of "normalize_levels n"] by (simp del: insert_iff)

lemma normalizeNode_NodeID: "n_NodeID (normalizeNode now n) = n_NodeID n"
  by (simp add: normalizeNode_def normalize_times_def normalize_sources_def normalize_approval_def normalize_levels_def Let_def)

lemma keeps_identified [keeping]: "node_keeps (identified credential)"
  by (simp add: identified_def keeps_observe)

lemma given_credential:
  assumes "nr_status (give_credential e credential node s) = 200" "n_NodeID node = i" "i \<noteq> []" "node_of s i = node" "decided node"
  defines "s' \<equiv> nr_state (give_credential e credential node s)"
  shows "touches i s s'" "n_NodeID (node_of s' i) = i"
    "keyring_lawful (ae_keyring (be_auth e)) \<Longrightarrow> credential \<noteq> [] \<Longrightarrow> credential \<noteq> ''********'' \<Longrightarrow> credential_of e i s' = credential"
proof -
  obtain x where set: "Set (ae_cipher (be_auth e)) (ae_keyring (be_auth e)) (ae_secret (be_auth e))
      (subscriberHeartbeatSecretKey (be_sha e) i) credential (at_secrets s) = (None, x)"
    using assms(1,2) by (auto simp: give_credential_def setSecret_def node_answer_def split: prod.splits option.splits)
  obtain s3 where up: "upsert e (identified credential node) (s\<lparr> at_secrets := x \<rparr>) = (None, s3)"
    using assms(1,2) set by (auto simp: give_credential_def setSecret_def node_answer_def split: prod.splits option.splits)
  have fin: "node_of s' j = node_of s3 j" "at_secrets s' = at_secrets s3" for j
    unfolding s'_def give_credential_def using set up assms(2) by (simp_all add: setSecret_def node_answer_def Let_def)
  have "touches i (s\<lparr> at_secrets := x \<rparr>) s3"
    by (rule upsert_touches [OF up]) (simp_all add: assms kept keeps_D [OF keeps_identified])
  then show "touches i s s'" by (simp add: touches_def fin(1))
  show "n_NodeID (node_of s' i) = i"
    using node_of_upsert [OF up, of i] assms(2,3) fin(1)
    by (simp add: keeps_D [OF keeps_identified] prepareNode_def normalizeNode_NodeID)
  have "at_secrets s3 = x" using up by (auto simp: upsert_def on_store_def split: prod.splits)
  then show "keyring_lawful (ae_keyring (be_auth e)) \<Longrightarrow> credential \<noteq> [] \<Longrightarrow> credential \<noteq> ''********'' \<Longrightarrow> credential_of e i s' = credential"
    using Set_view [OF _ set] fin(2) by (simp add: credential_of_def)
qed

lemma registered_node:
  assumes "RegisterEnrollmentNode e h node req now (at_store s) = (Inr q, t)" "n_NodeID node \<noteq> []"
  shows "er_NodeID q = n_NodeID node" "j \<noteq> n_NodeID node \<Longrightarrow> node_of (s\<lparr> at_store := t \<rparr>) j = node_of s j"
    "n_NodeID (node_of (s\<lparr> at_store := t \<rparr>) (n_NodeID node)) = n_NodeID node"
    "decided (node_of (s\<lparr> at_store := t \<rparr>) (n_NodeID node))"
    "n_ApprovalState (node_of (s\<lparr> at_store := t \<rparr>) (n_NodeID node)) = ApprovalStatePending"
proof -
  obtain q0 where q: "q = enrolled_request now req (enrolled_node (e_now e) q0 req node) q0"
      and nodes: "st_Nodes (s_state t) = goput (n_NodeID (enrolled_node (e_now e) q0 req node)) (enrolled_node (e_now e) q0 req node)
        (st_Nodes (s_state (at_store s)))"
    using assms(1) unfolding register_cases Let_def by (auto split: option.splits if_splits)
  have i: "n_NodeID (enrolled_node (e_now e) q0 req node) = n_NodeID node"
    using assms(2) by (simp add: enrolled_node_def normalizeNode_NodeID)
  have n: "node_of (s\<lparr> at_store := t \<rparr>) j =
      (if j = n_NodeID node then jsonNode (enrolled_node (e_now e) q0 req node) else node_of s j)" for j
    using nodes i by (simp add: node_of_def Snapshot_def cloneState_def jsonState_def goget_map_snd)
  show "er_NodeID q = n_NodeID node" using q i by simp
  show "j \<noteq> n_NodeID node \<Longrightarrow> node_of (s\<lparr> at_store := t \<rparr>) j = node_of s j" by (simp add: n)
  show "n_NodeID (node_of (s\<lparr> at_store := t \<rparr>) (n_NodeID node)) = n_NodeID node" using i by (simp add: n)
  have "decided (enrolled_node (e_now e) q0 req node)" by (simp add: enrolled_node_def decided_normalized)
  then show "decided (node_of (s\<lparr> at_store := t \<rparr>) (n_NodeID node))"
    using decided_cong [OF authority_later(1)] by (simp add: n)
  show "n_ApprovalState (node_of (s\<lparr> at_store := t \<rparr>) (n_NodeID node)) = ApprovalStatePending"
    using enrolled_node_fields(2) by (simp add: n jsonNode_def)
qed

lemma enrolling_node_NodeID [simp]: "n_NodeID (enrolling_node now url b) = TrimSpace (sb_NodeID b)"
  by (simp add: enrolling_node_def kept)

lemma enrolled:
  assumes "nr_status (subscriberEnroll e mac (Some (token, b)) s) = 200" "TrimSpace (sb_NodeID b) = i" "i \<noteq> []"
  defines "s' \<equiv> nr_state (subscriberEnroll e mac (Some (token, b)) s)"
  shows "n_NodeID (node_of s' i) = i" "n_ApprovalState (node_of s' i) = ApprovalStatePending" "\<not> n_Approved (node_of s' i)"
    "j \<noteq> i \<Longrightarrow> node_of s' j = node_of s j"
    "keyring_lawful (ae_keyring (be_auth e)) \<Longrightarrow> credential_of e i s' = deriveSubscriberHeartbeatCredential mac (TrimSpace token) i"
proof -
  obtain url req t where reg: "RegisterEnrollmentNode (ae_env (be_auth e)) (enrollmentTokenHash (be_sha e) (TrimSpace token))
       (enrolling_node (be_now e) url b) (zeroRequest\<lparr> er_Hostname := TrimSpace (sb_Hostname b) \<rparr>) (be_now e) (at_store s) = (Inr req, t)"
    and ends: "subscriberEnroll e mac (Some (token, b)) s =
       give_credential e (deriveSubscriberHeartbeatCredential mac (TrimSpace token) (n_NodeID (node_of (s\<lparr> at_store := t \<rparr>) (er_NodeID req))))
         (node_of (s\<lparr> at_store := t \<rparr>) (er_NodeID req)) (s\<lparr> at_store := t \<rparr>)"
    using assms(1) by (rule enroll_200)
  let ?n = "node_of (s\<lparr> at_store := t \<rparr>) i"
  note r = registered_node [OF reg, unfolded enrolling_node_NodeID assms(2), OF assms(3)]
  note g = given_credential [OF _ r(3) assms(3) refl r(4), of e "deriveSubscriberHeartbeatCredential mac (TrimSpace token) i"]
  have s': "subscriberEnroll e mac (Some (token, b)) s =
      give_credential e (deriveSubscriberHeartbeatCredential mac (TrimSpace token) i) ?n (s\<lparr> at_store := t \<rparr>)"
    using ends r(1,3) by simp
  have auth: "authority (node_of s' i) = authority ?n" using touches_D [OF g(1)] assms(1) unfolding s'_def s' by simp
  then show "n_ApprovalState (node_of s' i) = ApprovalStatePending" using r(5) by (simp add: authority_def)
  then show "\<not> n_Approved (node_of s' i)" using decided_cong [OF auth] r(4) by (simp add: decided_def)
  show "j \<noteq> i \<Longrightarrow> node_of s' j = node_of s j" using g(1) r(2) [of j] assms(1) unfolding s'_def s' by (simp add: touches_def)
  show "n_NodeID (node_of s' i) = i" using g(2) assms(1) unfolding s'_def s' by simp
  show "keyring_lawful (ae_keyring (be_auth e)) \<Longrightarrow> credential_of e i s' = deriveSubscriberHeartbeatCredential mac (TrimSpace token) i"
    using g(3) assms(1) unfolding s'_def s' by (simp add: deriveSubscriberHeartbeatCredential_def)
qed

text \<open>C23. A subscriber that enrolled is known by its credential: when \<^verbatim>\<open>subscriberEnroll\<close> answers 200, the node is in the store, pending
  and not approved; no other node changed; and from then on a request for the node is let through exactly with the
  credential derived from the token and the node's name, which the subscriber can derive itself.\<close>

theorem enrolled_is_heard:
  assumes "keyring_lawful (ae_keyring (be_auth e))" "nr_status (subscriberEnroll e mac (Some (token, b)) s) = 200"
    and "TrimSpace (sb_NodeID b) = i" "i \<noteq> []"
  shows "let s' = nr_state (subscriberEnroll e mac (Some (token, b)) s) in
    n_NodeID (node_of s' i) = i \<and> n_ApprovalState (node_of s' i) = ApprovalStatePending \<and> \<not> n_Approved (node_of s' i) \<and>
    (j \<noteq> i \<longrightarrow> node_of s' j = node_of s j) \<and>
    (fst (verifySubscriberHeartbeatCredential e r (node_of s' i) s') = None) =
      (subscriberHeartbeatToken r = deriveSubscriberHeartbeatCredential mac (TrimSpace token) i)"
  using enrolled [OF assms(2-4)] assms(1) by (simp add: Let_def verify_accepts deriveSubscriberHeartbeatCredential_def)

section \<open>What the operator decides\<close>

lemma node_answer_state [simp]: "nr_state (node_answer st token s) = s" "nr_status (node_answer st token s) = st"
  by (simp_all add: node_answer_def)

lemma node_of_approval [simp]: "node_of (s\<lparr> at_store := SetEnrollmentApproval e i st (at_store s) \<rparr>) j = node_of s j"
  by (auto simp: SetEnrollmentApproval_def node_of_def Snapshot_def cloneState_def jsonState_def goget_map_snd split: option.split)

lemma changed_node_of:
  assumes "n_NodeID node = i" "i \<noteq> []"
  shows "node_of (nr_state (changed_node e act node s)) j = (if j = i then jsonNode (prepareNode (ae_env (be_auth e)) node) else node_of s j)"
proof -
  obtain err s1 where up: "upsert e node s = (err, s1)" by fastforce
  have "node_of (nr_state (changed_node e act node s)) j = node_of s1 j" by (simp add: changed_node_def Let_def up)
  then show ?thesis using node_of_upsert [OF up, of j] assms by simp
qed

lemma written_node:
  fixes s :: "'r auth_state"
  assumes "n_NodeID node = i" "i \<noteq> []" "authority node = authority (node_of s i)" "decided (node_of s i)"
  shows "touches i s (nr_state (case upsert e node s of (Some err, s) \<Rightarrow> node_answer 500 [] s
     | (None, s) \<Rightarrow> node_answer st token (emit_sub e ty (fs s) s)))"
  using upsert_touches [OF _ assms] by (auto split: prod.split option.split)

lemma keeps_benchmark [keeping]: "node_keeps (\<lambda>n. snd (createManagedBenchmarkJob now random mode suite p n))"
  by (simp add: node_keeps_def createManagedBenchmarkJob_def put_job_def observe_def authority_def Let_def)

lemma keeps_keep_warm [keeping]: "node_keeps (\<lambda>n. snd (snd (createModelKeepWarmAction random now req n)))"
  by (simp add: node_keeps_def createModelKeepWarmAction_def put_action_def observe_def authority_def Let_def)

lemma keeps_probe [keeping]: "node_keeps (\<lambda>n. fst (runPassiveBenchmarkProbe now random elapsed found n))"
  by (simp add: node_keeps_def runPassiveBenchmarkProbe_def applyBenchmarkResult_def observe_def authority_def Let_def
      split: sum.split prod.split)

lemma probe_touches:
  assumes "n_NodeID node = i" "i \<noteq> []" "node_of s i = node" "decided node"
  shows "touches i s (nr_state (probe_action e elapsed found node s))"
proof -
  obtain n result where p: "runPassiveBenchmarkProbe (be_now e) (e_random (ae_env (be_auth e))) elapsed (found (n_URL node)) node = (n, result)"
    by fastforce
  have "authority n = authority node" "n_NodeID n = i"
    using keeps_D [OF keeps_probe, of "be_now e" "e_random (ae_env (be_auth e))" elapsed "found (n_URL node)" node] p assms(1) by simp_all
  then show ?thesis unfolding probe_action_def p case_prod_conv
    using assms written_node [of n i s] by (simp add: touches_same)
qed

lemma keep_warm_touches:
  assumes "n_NodeID node = i" "i \<noteq> []" "node_of s i = node" "decided node"
  shows "touches i s (nr_state (keep_warm_action e body node s))"
proof (cases body)
  case (Some req)
  obtain a pol n where p: "createModelKeepWarmAction (e_random (ae_env (be_auth e))) (be_now e) req node = (a, pol, n)" by (metis prod.exhaust)
  have "authority n = authority node" "n_NodeID n = i"
    using keeps_D [OF keeps_keep_warm, of "e_random (ae_env (be_auth e))" "be_now e" req node] p assms(1) by simp_all
  then show ?thesis unfolding keep_warm_action_def Some option.case p
    using assms written_node [of n i s] by (cases a) (simp_all add: touches_same)
qed (simp add: keep_warm_action_def touches_same)

lemma benchmark_touches:
  assumes "n_NodeID node = i" "i \<noteq> []" "node_of s i = node" "decided node"
  shows "touches i s (nr_state (benchmark_action e body node s))"
proof -
  have "touches i s (nr_state (case upsert e (snd (createManagedBenchmarkJob now random mode suite p node)) (emit_sub e ty fs s) of
      (Some err, s) \<Rightarrow> node_answer 500 [] s | (None, s) \<Rightarrow> node_answer 200 [] s))" for now random mode suite p ty fs
    using upsert_touches [of e "snd (createManagedBenchmarkJob now random mode suite p node)" "emit_sub e ty fs s" _ _ i]
      keeps_D [OF keeps_benchmark, of now random mode suite p node] assms
    by (auto simp: touches_def split: prod.split option.split)
  then show ?thesis
    by (auto simp: benchmark_action_def Let_def touches_same case_prod_unfold split: option.split sum.split)
qed

lemma rotated_node:
  "rotateSubscriberHeartbeatCredential e node source s = (Inr (n, credential), s') \<Longrightarrow>
     authority n = authority node \<and> n_NodeID n = n_NodeID node \<and> (\<exists>x. s' = s\<lparr> at_secrets := x \<rparr>)"
  "rotateSubscriberHeartbeatCredential e node source s = (Inl err, s') \<Longrightarrow> node_of s' j = node_of s j"
  by (auto simp: rotateSubscriberHeartbeatCredential_def setSecret_def authority_def Let_def split: if_splits prod.splits option.splits)

lemma credential_touches:
  assumes "n_NodeID node = i" "i \<noteq> []" "node_of s i = node" "decided node"
  shows "touches i s (nr_state (credential_action e node s))"
proof (cases "rotateSubscriberHeartbeatCredential e node ''admin_rotation'' s")
  case (Pair res s1)
  show ?thesis
  proof (cases res)
    case (Inl err)
    then have "touches i s s1" using rotated_node(2) Pair by (blast intro: touches_same)
    then show ?thesis using Pair Inl by (simp add: credential_action_def touches_same)
  next
    case (Inr nc)
    then obtain n c where nc: "nc = (n, c)" by fastforce
    then obtain x where n: "authority n = authority node" "n_NodeID n = n_NodeID node" "s1 = s\<lparr> at_secrets := x \<rparr>"
      using rotated_node(1) Pair Inr by blast
    have "touches i s s'" if "touches i s1 s'" for s' using that n(3) by (simp add: touches_def)
    then show ?thesis unfolding credential_action_def Pair case_prod_conv Inr nc
      using written_node [of n i s1] n assms by (simp add: touches_same)
  qed
qed

text \<open>What an action of the operator makes of the authority of the node it names.\<close>

definition decision :: "string \<Rightarrow> string option \<Rightarrow> Node \<Rightarrow> string \<times> bool \<times> bool \<times> string" where
  "decision act level n =
    (if act = ''approve'' then (ApprovalStateApproved, True, True, n_TrustLevel n)
     else if act = ''revoke'' then (ApprovalStateRevoked, False, False, n_TrustLevel n)
     else if act = ''enable'' then (n_ApprovalState n, n_Approved n, True, n_TrustLevel n)
     else if act = ''disable'' then (n_ApprovalState n, n_Approved n, False, n_TrustLevel n)
     else case level of None \<Rightarrow> authority n
       | Some l \<Rightarrow> if act = ''trust'' \<and> validTrustLevel (TrimSpace l) then (n_ApprovalState n, n_Approved n, n_Enabled n, TrimSpace l)
                  else authority n)"

lemma valid_trust_nonempty: "validTrustLevel l \<Longrightarrow> l \<noteq> []"
  by (auto simp: validTrustLevel_def level_defs)

definition touches_but :: "string \<Rightarrow> (string \<times> bool \<times> bool \<times> string) \<Rightarrow> 'r auth_state \<Rightarrow> 'r auth_state \<Rightarrow> bool" where
  "touches_but i a s s' \<longleftrightarrow> authority (node_of s' i) = a \<and> (\<forall>j. j \<noteq> i \<longrightarrow> node_of s' j = node_of s j)"

lemma touches_but_same: "touches i s s' \<Longrightarrow> touches_but i (authority (node_of s i)) s s'"
  by (simp add: touches_def touches_but_def)

lemma touches_but_refl: "touches_but i (authority (node_of s i)) s s"
  by (simp add: touches_but_def)

lemma changed_touches:
  assumes "n_NodeID node = i" "i \<noteq> []" "decided node"
  shows "touches_but i (authority node) s (nr_state (changed_node e act node s))"
  by (simp add: touches_but_def changed_node_of [OF assms(1,2)] authority_prepared [OF assms(3)])

lemma decided_changes:
  assumes "decided node"
  shows "decided (approved_node node)" "decided (revoked_node node)" "decided (node\<lparr> n_Enabled := b, n_Status := st \<rparr>)"
    "l \<noteq> [] \<Longrightarrow> decided (observe kvs (node\<lparr> n_TrustLevel := l \<rparr>))" "decided (patched_node pt node)"
  using assms by (simp_all add: decided_def approved_node_def revoked_node_def observe_def patched_node_def)

lemma authority_changes:
  "authority (approved_node n) = (ApprovalStateApproved, True, True, n_TrustLevel n)"
  "authority (revoked_node n) = (ApprovalStateRevoked, False, False, n_TrustLevel n)"
  "authority (n\<lparr> n_Enabled := b, n_Status := st \<rparr>) = (n_ApprovalState n, n_Approved n, b, n_TrustLevel n)"
  "authority (observe kvs (n\<lparr> n_TrustLevel := l \<rparr>)) = (n_ApprovalState n, n_Approved n, n_Enabled n, l)"
  "authority (patched_node pt n) = authority n"
  by (simp_all add: authority_def approved_node_def revoked_node_def observe_def patched_node_def)

lemma NodeID_changes [simp]: "n_NodeID (approved_node n) = n_NodeID n" "n_NodeID (revoked_node n) = n_NodeID n" "n_NodeID (patched_node pt n) = n_NodeID n"
  by (simp_all add: approved_node_def revoked_node_def patched_node_def)

lemma nodeAction_touches:
  assumes parts: "Split (CHR ''/'') (TrimPrefix path ''/wrangler/nodes/'') = i # act # rest" and "i \<noteq> []"
    and g: "goget (st_Nodes (Snapshot (at_store s))) i = Some node" and "n_NodeID node = i" "decided node"
  shows "touches_but i (decision act (ab_trust body) node) s (nr_state (nodeAction e elapsed found path body s))"
proof -
  have node: "node_of s i = node" using g by (simp add: node_of_def)
  have same: "touches_but i (authority node) s s" using touches_but_refl [of i s] node by simp
  have work: "touches_but i (authority node) s s'" if "touches i s s'" for s' using touches_but_same [OF that] node by simp
  note works = benchmark_touches [OF assms(4,2) node assms(5), THEN work] probe_touches [OF assms(4,2) node assms(5), THEN work]
    keep_warm_touches [OF assms(4,2) node assms(5), THEN work] credential_touches [OF assms(4,2) node assms(5), THEN work]
  have c: "touches_but i a s (nr_state (changed_node e act n s))" if "n_NodeID n = i" "decided n" "authority n = a" for n a act
    using changed_touches [OF that(1) assms(2) that(2)] that(3) by simp
  have trust: "touches_but i (n_ApprovalState node, n_Approved node, n_Enabled node, l) s
      (nr_state (changed_node e ''trust'' (observe kvs (node\<lparr> n_TrustLevel := l \<rparr>)) s))" if "l \<noteq> []" for l kvs
    using decided_changes(4) [OF assms(5) that] assms(4) by (intro c) (simp_all add: authority_changes)
  show ?thesis
    unfolding nodeAction_def parts Let_def
    by (simp add: g decision_def same works c authority_changes decided_changes assms(4,5) trust valid_trust_nonempty split: option.split)
qed

lemma nodeAction_authority:
  assumes "store_wf (at_store s)" "Split (CHR ''/'') (TrimPrefix path ''/wrangler/nodes/'') = i # act # rest" "i \<noteq> []"
    and "goget (st_Nodes (Snapshot (at_store s))) i = Some node"
  shows "touches_but i (decision act (ab_trust body) node) s (nr_state (nodeAction e elapsed found path body s))"
proof -
  obtain n0 where n0: "goget (st_Nodes (s_state (at_store s))) i = Some n0" "node = jsonNode n0"
    using assms(4) by (auto simp: Snapshot_def cloneState_def jsonState_def goget_map_snd)
  have "n_NodeID node = i" "decided node" using store_wf_node [OF assms(1) n0(1)] n0(2) decided_wf [of node] by auto
  then show ?thesis by (rule nodeAction_touches [OF assms(2,3,4)])
qed

text \<open>Only the operator decides about a node: after a request to \<^verbatim>\<open>nodeAction\<close>, whatever its path and body and whether or not the
  state file could be written, the authority of the node it names is what the action stands for (approve, revoke, enable,
  disable, trust with a valid level; every other action leaves it), and no other node has changed.\<close>

theorem operator_decides:
  assumes "store_wf (at_store s)" "Split (CHR ''/'') (TrimPrefix path ''/wrangler/nodes/'') = i # act # rest" "i \<noteq> []"
    and "goget (st_Nodes (Snapshot (at_store s))) i = Some node"
  shows "let s' = nr_state (nodeAction e elapsed found path body s) in
    authority (node_of s' i) = decision act (ab_trust body) node \<and> (j \<noteq> i \<longrightarrow> node_of s' j = node_of s j)"
  using nodeAction_authority [OF assms] by (simp add: touches_but_def Let_def)

section \<open>Corners of the handlers\<close>

text \<open>A node added by hand has the trust level that the machine reports of itself, if it reports one.\<close>

lemma manual_trust:
  assumes "n_TrustLevel reply \<noteq> []"
  shows "n_TrustLevel (jsonNode (prepareNode e (reached_node now url i reply))) = n_TrustLevel reply"
proof -
  have "decided (reached_node now url i reply)" "n_TrustLevel (reached_node now url i reply) = n_TrustLevel reply"
    using assms by (simp_all add: reached_node_def decided_def applyModelLifecycleObserved_def observe_def managed_pending_def Let_def)
  then show ?thesis using authority_prepared [of "reached_node now url i reply" e] by (simp add: authority_def)
qed

text \<open>A question mark without a query survives the cleaning of an endpoint.\<close>

lemma endpoint_keeps_question_mark: "normalizeEndpointURL ''http://10.0.0.7:11434?'' = Inr ''http://10.0.0.7:11434?''"
  by code_simp

text \<open>When the state can not be written, a valid token is refused and yet used up, and the node is in the store.\<close>

lemma unwritten_enrollment:
  assumes "TrimSpace token \<noteq> []" "optional_endpoint (reported_url b) = Inr url" "\<not> e_write_ok (ae_env (be_auth e))"
    and "token_index (be_sha e (TrimSpace token)) (st_EnrollmentQueue (s_state (at_store s))) = Some i"
    and "be_now e \<le> er_ExpiresAt (st_EnrollmentQueue (s_state (at_store s)) ! i)" "i < length (st_EnrollmentQueue (s_state (at_store s)))"
  shows "nr_status (subscriberEnroll e mac (Some (token, b)) s) = 401"
    "er_TokenHash (st_EnrollmentQueue (s_state (at_store (nr_state (subscriberEnroll e mac (Some (token, b)) s)))) ! i) = []"
  using assms by (simp_all add: subscriberEnroll_def Let_def register_cases enrollmentTokenHash_def)

section \<open>Nodes that are not approved\<close>

definition barred :: "'r auth_state \<Rightarrow> string \<Rightarrow> bool" where
  "barred s i \<longleftrightarrow> store_wf (at_store s) \<and> decided (node_of s i) \<and> \<not> n_Approved (node_of s i)"

text \<open>Requests of subscribers, one after the other, each with its own clock, secrets and outcome of the write.\<close>

definition run_calls :: "('r sub_env \<times> auth_request \<times> subscriber_call) list \<Rightarrow> 'r auth_state \<Rightarrow> 'r auth_state" where
  "run_calls calls = fold (\<lambda>(e, r, call). subscriber_calls e r call) calls"

lemma barred_call:
  assumes "barred s i" "be_now e \<noteq> 0" shows "barred (subscriber_calls e r call s) i"
proof -
  have a: "authority (node_of (subscriber_calls e r call s) i) = authority (node_of s i)"
    using assms(1) by (intro touches_D [OF call_touches]) (simp add: barred_def)
  then show ?thesis using assms call_wf [of s e r call] decided_cong [OF a] by (simp add: barred_def authority_def)
qed

lemma barred_calls: "barred s i \<Longrightarrow> list_all (\<lambda>(e, r, call). be_now e \<noteq> 0) calls \<Longrightarrow> barred (run_calls calls s) i"
  by (induction calls arbitrary: s) (auto simp: run_calls_def barred_call)

lemma barred_node:
  assumes "barred s i"
  shows "goget (st_Nodes (Snapshot (at_store s))) i = Some (node_of s i)" "nodes_wf (st_Nodes (Snapshot (at_store s)))"
proof -
  have "n_TrustLevel (node_of s i) \<noteq> []" using assms by (simp add: barred_def decided_def)
  then show "goget (st_Nodes (Snapshot (at_store s))) i = Some (node_of s i)"
    by (auto simp: node_of_def zeroNode_def split: option.splits)
  have "content_wf (Snapshot (at_store s))"
    using assms by (simp add: barred_def Snapshot_def cloneState_def jsonState_wf store_wf_def state_wf_def)
  then show "nodes_wf (st_Nodes (Snapshot (at_store s)))" by (simp add: content_wf_def)
qed

lemma enroll_wf:
  assumes "store_wf (at_store s)" "be_now e \<noteq> 0"
  shows "store_wf (at_store (nr_state (subscriberEnroll e mac body s)))"
proof -
  have reg: "store_wf t" if "RegisterEnrollmentNode (ae_env (be_auth e)) h node req now (at_store s) = (res, t)" for h node req now res t
    using RegisterEnrollmentNode_wf [OF assms(2,1), of h node req now] that by simp
  have "store_wf (at_store (nr_state (give_credential e c node s1)))" if "store_wf (at_store s1)" for c node and s1 :: "'a auth_state"
  proof -
    obtain err x where s2: "setSecret (be_auth e) (subscriberHeartbeatSecretKey (be_sha e) (n_NodeID node)) c s1 = (err, s1\<lparr> at_secrets := x \<rparr>)"
      by (auto simp: setSecret_def case_prod_unfold)
    then show ?thesis using that upsert_wf [of e "identified c node" "s1\<lparr> at_secrets := x \<rparr>"] assms(2)
      by (auto simp: give_credential_def Let_def emit_sub_wf split: option.split prod.split)
  qed
  then show ?thesis using assms(1)
    by (auto simp: subscriberEnroll_def Let_def dest: reg split: option.split prod.split sum.split)
qed

lemma changed_wf:
  assumes "store_wf (at_store s)" "be_now e \<noteq> 0" "n_NodeID node = i" "i \<noteq> []" "decided node"
  shows "store_wf (at_store (nr_state (changed_node e act node s)))"
proof -
  obtain err s1 where up: "upsert e node s = (err, s1)" by fastforce
  note w = upsert_wf [OF up assms(1,2)]
  have "authority (node_of s1 i) = authority node"
    using node_of_upsert [OF up, of i] authority_prepared [OF assms(5)] assms(3,4) by simp
  from decided_cong [OF this] assms(5) have "n_ApprovalState (node_of s1 i) \<noteq> []" by (auto simp: decided_def approval_nonempty)
  from SetEnrollmentApproval_wf [OF this w] show ?thesis using w assms(3) by (simp add: changed_node_def Let_def up emit_sub_wf)
qed

lemma enrolled_barred:
  assumes "store_wf (at_store s)" "be_now e \<noteq> 0" "nr_status (subscriberEnroll e mac (Some (token, b)) s) = 200"
    and "TrimSpace (sb_NodeID b) = i" "i \<noteq> []"
  shows "barred (nr_state (subscriberEnroll e mac (Some (token, b)) s)) i"
proof -
  let ?s = "nr_state (subscriberEnroll e mac (Some (token, b)) s)"
  have wf: "store_wf (at_store ?s)" by (rule enroll_wf [OF assms(1,2)])
  have n: "n_NodeID (node_of ?s i) = i" "\<not> n_Approved (node_of ?s i)" using enrolled [OF assms(3-5)] by simp_all
  have "goget (st_Nodes (Snapshot (at_store ?s))) i = Some (node_of ?s i)"
    using n(1) assms(5) by (auto simp: node_of_def zeroNode_def split: option.splits)
  then obtain n0 where n0: "goget (st_Nodes (s_state (at_store ?s))) i = Some n0" "node_of ?s i = jsonNode n0"
    by (auto simp: Snapshot_def cloneState_def jsonState_def goget_map_snd)
  then show ?thesis using store_wf_node [OF wf n0(1)] decided_wf [of "jsonNode n0"] wf n(2) by (simp add: barred_def)
qed

lemma revoked_barred:
  assumes "store_wf (at_store s)" "be_now e \<noteq> 0"
    and "Split (CHR ''/'') (TrimPrefix path ''/wrangler/nodes/'') = [i, ''revoke'']" "i \<noteq> []"
    and "goget (st_Nodes (Snapshot (at_store s))) i = Some node"
  shows "barred (nr_state (nodeAction e elapsed found path body s)) i"
proof -
  obtain n0 where n0: "goget (st_Nodes (s_state (at_store s))) i = Some n0" "node = jsonNode n0"
    using assms(5) by (auto simp: Snapshot_def cloneState_def jsonState_def goget_map_snd)
  have node: "n_NodeID node = i" "decided node" using store_wf_node [OF assms(1) n0(1)] n0(2) decided_wf [of node] by auto
  have run: "nodeAction e elapsed found path body s = changed_node e ''revoke'' (revoked_node node) s"
    by (simp add: nodeAction_def assms(3,5))
  have a: "authority (node_of (nr_state (changed_node e ''revoke'' (revoked_node node) s)) i) = authority (revoked_node node)"
    using changed_touches [of "revoked_node node" i s e] decided_changes(2) [OF node(2)] node(1) assms(4) by (simp add: touches_but_def)
  then show ?thesis unfolding run barred_def
    using changed_wf [OF assms(1,2) _ assms(4) decided_changes(2) [OF node(2)]] node(1) decided_cong [OF a] decided_changes(2) [OF node(2)] by (simp add: authority_def revoked_node_def)
qed

section \<open>A concrete node\<close>

text \<open>Witness: a subscriber that claims a job changes its node and not what the operator decided.\<close>

theorem subscriber_confined_witness:
  "store_wf (at_store jobState) \<and> be_now jobEnv \<noteq> 0 \<and>
   authority (node_of (subscriber_calls jobEnv (reportRequest []) (JobClaim jobRequest) jobState) ''gpu-1'') = authority (node_of jobState ''gpu-1'') \<and>
   node_of (subscriber_calls jobEnv (reportRequest []) (JobClaim jobRequest) jobState) ''gpu-2'' = node_of jobState ''gpu-2''"
proof -
  have now: "be_now jobEnv \<noteq> 0" and other: "''gpu-2'' \<noteq> caller (JobClaim jobRequest)" by code_simp+
  from subscriber_confined [OF sample_evaluated(1) now, of "reportRequest []" "JobClaim jobRequest"] other sample_evaluated(1) now
  show ?thesis by blast
qed

definition enrollState :: "(string, string) gomap auth_state" where
  "enrollState = guardedState\<lparr> at_store := enrollingStore \<rparr>"

definition newSubscriber :: subscriberReport where
  "newSubscriber = \<lparr> sb_NodeID = '' gpu-7 '', sb_DisplayName = [], sb_SubscriberURL = [], sb_URL = ''http://10.0.0.7:11435/'', sb_Hostname = [],
     sb_Platform = ''linux'', sb_Arch = ''amd64'', sb_Status = [], sb_OllamaAvailable = True, sb_OllamaURL = [], sb_OllamaVersion = [],
     sb_Models = None, sb_Tags = None \<rparr>"

lemma enrollment_answers:
  assumes "TrimSpace token \<noteq> []" "optional_endpoint (reported_url b) = Inr url" "\<And>k v. fst (setSecret (be_auth e) k v s) = None"
    and "e_write_ok (ae_env (be_auth e))" "token_index (be_sha e (TrimSpace token)) (st_EnrollmentQueue (s_state (at_store s))) = Some i"
    and "be_now e \<le> er_ExpiresAt (st_EnrollmentQueue (s_state (at_store s)) ! i)"
  shows "nr_status (subscriberEnroll e mac (Some (token, b)) s) = 200"
proof -
  obtain req t where reg: "RegisterEnrollmentNode (ae_env (be_auth e)) (enrollmentTokenHash (be_sha e) (TrimSpace token)) (enrolling_node (be_now e) url b)
       (zeroRequest\<lparr> er_Hostname := TrimSpace (sb_Hostname b) \<rparr>) (be_now e) (at_store s) = (Inr req, t)"
    using assms(4-6) by (auto simp: register_cases Let_def enrollmentTokenHash_def)
  have set: "fst (setSecret (be_auth e) k v (s\<lparr> at_store := t \<rparr>)) = None" for k v
    using assms(3) [of k v] by (simp add: setSecret_def case_prod_unfold)
  have "nr_status (give_credential e credential node (s\<lparr> at_store := t \<rparr>)) = 200" for credential node
    using set [of "subscriberHeartbeatSecretKey (be_sha e) (n_NodeID node)" credential] upsert_ok [OF assms(4)]
    by (simp add: give_credential_def case_prod_unfold Let_def)
  then show ?thesis using assms(1,2) reg by (simp add: subscriberEnroll_def Let_def)
qed

lemma enroll_sample: "nr_status (subscriberEnroll jobEnv (\<lambda>key text. key) (Some (''h1'', newSubscriber)) enrollState) = 200"
proof -
  obtain q where q: "st_EnrollmentQueue (s_state enrollingStore) = [q]" "er_TokenHash q = ''h1''" "er_ExpiresAt q = 9"
    using enrollingStore_queue by auto
  have set: "fst (setSecret (be_auth jobEnv) k v enrollState) = None" for k v
    using set_guarded [of k v] by (simp add: setSecret_def enrollState_def jobEnv_def authEnv_def case_prod_unfold)
  have url: "optional_endpoint (reported_url newSubscriber) = Inr ''http://10.0.0.7:11435''" and tk: "TrimSpace ''h1'' = ''h1''"
    and ok: "e_write_ok (ae_env (be_auth jobEnv))" and now: "be_now jobEnv = 5" and sha: "be_sha jobEnv ''h1'' = ''h1''" by code_simp+
  have "token_index (be_sha jobEnv (TrimSpace ''h1'')) (st_EnrollmentQueue (s_state (at_store enrollState))) = Some 0"
    by (simp add: enrollState_def q tk sha)
  from enrollment_answers [OF _ url set ok this] show ?thesis by (simp add: tk now enrollState_def q)
qed

text \<open>Witness: the derived credential is accepted for the new node and another is not.\<close>

theorem enrolled_is_heard_witness:
  "let s' = nr_state (subscriberEnroll jobEnv (\<lambda>key text. key) (Some (''h1'', newSubscriber)) enrollState) in
   n_ApprovalState (node_of s' ''gpu-7'') = ApprovalStatePending \<and>
   fst (verifySubscriberHeartbeatCredential jobEnv (reportRequest ''lw_hb_h1'') (node_of s' ''gpu-7'') s') = None \<and>
   fst (verifySubscriberHeartbeatCredential jobEnv (reportRequest ''stolen'') (node_of s' ''gpu-7'') s') \<noteq> None"
proof -
  have t: "subscriberHeartbeatToken (reportRequest ''lw_hb_h1'') = ''lw_hb_h1''" "subscriberHeartbeatToken (reportRequest ''stolen'') = ''stolen''"
    "deriveSubscriberHeartbeatCredential (\<lambda>key text. key) (TrimSpace ''h1'') ''gpu-7'' = ''lw_hb_h1''"
    and i: "TrimSpace (sb_NodeID newSubscriber) = ''gpu-7''" by code_simp+
  have k: "keyring_lawful (ae_keyring (be_auth jobEnv))" using mapRing_lawful by (simp add: jobEnv_def authEnv_def)
  show ?thesis
    using enrolled_is_heard [OF k enroll_sample i, where r = "reportRequest ''lw_hb_h1''"]
      enrolled_is_heard [OF k enroll_sample i, where r = "reportRequest ''stolen''"] t by (simp add: Let_def)
qed

text \<open>Witness: the node of the sample is revoked, and the other ones are as before.\<close>

theorem operator_decides_witness:
  "authority (node_of (nr_state (nodeAction jobEnv 0 (\<lambda>_. Inr []) ''/wrangler/nodes/gpu-1/revoke''
     \<lparr> ab_benchmark = None, ab_keep_warm = None, ab_trust = None, ab_patch = \<lparr> pt_DisplayName = [], pt_MaxJobs = 0, pt_Tags = None \<rparr> \<rparr>
     actionState)) ''gpu-1'') = (ApprovalStateRevoked, False, False, n_TrustLevel (node_of actionState ''gpu-1''))"
proof -
  have p: "Split (CHR ''/'') (TrimPrefix ''/wrangler/nodes/gpu-1/revoke'' ''/wrangler/nodes/'') = [''gpu-1'', ''revoke'']" by code_simp
  have "goget (st_Nodes (Snapshot (at_store actionState))) ''gpu-1'' \<noteq> None" by code_simp
  then have "goget (st_Nodes (Snapshot (at_store actionState))) ''gpu-1'' = Some (node_of actionState ''gpu-1'')"
    by (auto simp: node_of_def)
  from operator_decides [OF action_sample(1) p _ this] show ?thesis by (simp add: Let_def decision_def)
qed

end
