(* ===== verification/SetupHandlers.thy ===== *)
theory SetupHandlers
  imports NodeHandlers
begin

text \<open>
  The server as a whole (\<^verbatim>\<open>server.go\<close> of \<^verbatim>\<open>internal/httpapi\<close>): how it is assembled from its files when it starts, the handlers of
  setup and configuration, and the page the user interface starts from; with the parts they call: the scan of the local machine
  (\<^verbatim>\<open>detect/detect.go\<close>) and the client of Splunk (\<^verbatim>\<open>hec/client.go\<close>). What the machine and the network answer is a parameter.
\<close>

section \<open>The client of Splunk\<close>

record Payload =
  py_Time :: gotime
  py_Source :: string
  py_Sourcetype :: string
  py_Index :: string
  py_Event :: gobj

definition sourcetype :: "string \<Rightarrow> string \<Rightarrow> string" where
  "sourcetype prefix0 eventType =
    (let prefix = orElse prefix0 ''llama_wrangler'' in prefix @ '':'' @ TrimPrefix eventType (prefix @ '':''))"

text \<open>The network gets the address, the token and the payload, and gives a status with its text, or an error; \<open>enc\<close> is the outcome of
  the encoding of the payload.\<close>

definition Send :: "(Payload \<Rightarrow> string option) \<Rightarrow> (string \<Rightarrow> string \<Rightarrow> Payload \<Rightarrow> string + int \<times> string) \<Rightarrow> gotime \<Rightarrow> SplunkHECConfig
    \<Rightarrow> string \<Rightarrow> gobj \<Rightarrow> string option" where
  "Send enc net now cfg eventType event =
    (if \<not> h_Enabled cfg then None
     else if h_URL cfg = [] \<or> h_Token cfg = [] then Some ''splunk HEC is enabled but URL or token is missing''
     else
       let payload = \<lparr> py_Time = now, py_Source = h_Source cfg, py_Sourcetype = sourcetype (h_Prefix cfg) eventType,
             py_Index = h_Index cfg, py_Event = event \<rparr> in
       case enc payload of
         Some err \<Rightarrow> Some err
       | None \<Rightarrow>
          (case net (h_URL cfg) (''Splunk '' @ h_Token cfg) payload of
             Inl err \<Rightarrow> Some err
           | Inr (code, text) \<Rightarrow> if code < 200 \<or> 300 \<le> code then Some (''splunk HEC returned '' @ text) else None))"

definition friendlyHECError :: "string \<Rightarrow> string" where
  "friendlyHECError text =
    (if Contains text ''403'' then
       ''Splunk rejected the HEC token. Check that the token is enabled and allowed to write to the selected index.''
     else if Contains text ''connection refused'' then
       ''Could not reach Splunk HEC. Check the URL and confirm the HEC receiver is enabled.''
     else ''Splunk HEC test failed. Check the URL, token, SSL settings, and index permissions.'')"

section \<open>The local machine\<close>

record machine =
  mc_hostname :: string
  mc_GOOS :: string
  mc_GOARCH :: string
  mc_sysctl :: "string option"
  mc_cpuinfo :: "string option"
  mc_tags :: "string + string list"

definition inferTags :: "string \<Rightarrow> string \<Rightarrow> string list" where
  "inferTags goos goarch =
    [''local'', ''consensus-participant''] @ (if goarch = ''arm64'' then [''apple-silicon'', ''light-chat''] else []) @
    (if goos = ''windows'' \<or> goos = ''linux'' then [''general''] else [])"

definition commandOutput :: "string option \<Rightarrow> string" where
  "commandOutput out = (case out of None \<Rightarrow> [] | Some text \<Rightarrow> TrimSpace text)"

definition firstCPUModel :: "string option \<Rightarrow> string" where
  "firstCPUModel file =
    (case file of
       None \<Rightarrow> []
     | Some text \<Rightarrow>
        (case find (\<lambda>line. HasPrefix line ''model name'' \<and> CHR '':'' \<in> set line) (Split (CHR 0x0A) text) of
           None \<Rightarrow> []
         | Some line \<Rightarrow> TrimSpace (snd (Cut (CHR '':'') line))))"

definition detectOllama :: "string + string list \<Rightarrow> ModelState list \<times> bool" where
  "detectOllama tags = (case tags of Inl err \<Rightarrow> ([], False) | Inr names \<Rightarrow> (map installed_model names, True))"

definition local_name :: "Config \<Rightarrow> string \<Rightarrow> string" where
  "local_name cfg hostname =
    (let i = nc_NodeID (c_Node cfg) in
     if i = [] \<or> i = ''local'' then orElse (map (\<lambda>c. if c = CHR ''.'' then CHR ''-'' else c) (ToLower hostname)) ''local'' else i)"

definition Local :: "gotime \<Rightarrow> machine \<Rightarrow> Config \<Rightarrow> Node" where
  "Local now m cfg =
    (case detectOllama (mc_tags m) of
       (models, available) \<Rightarrow>
         zeroNode\<lparr> n_NodeID := local_name cfg (mc_hostname m), n_Hostname := mc_hostname m, n_Platform := mc_GOOS m, n_Arch := mc_GOARCH m,
           n_Role := sv_Mode (c_Server cfg), n_OllamaURL := c_Ollama_URL cfg, n_Tags := inferTags (mc_GOOS m) (mc_GOARCH m),
           n_Status := (if available then ''healthy'' else ''degraded''), n_Enabled := True, n_Approved := True,
           n_MaxJobs := l_MaxConcurrentJobs (c_Limits cfg), n_LastSeen := now,
           n_DisplayName := orElse (nc_DisplayName (c_Node cfg)) (mc_hostname m),
           n_CPU := (if mc_GOOS m = ''linux'' then firstCPUModel (mc_cpuinfo m) else commandOutput (mc_sysctl m)),
           n_OllamaAvailable := available, n_Models := models \<rparr>)"

section \<open>The server\<close>

record 'r server =
  srv_cfg :: Config
  srv_auth :: "'r auth_state"
  srv_tele :: Sink
  srv_queue :: queueScheduler
  srv_meta :: queueTracker
  srv_timeout :: duration
  srv_background :: benchmarkSchedulerBackground
  srv_recovery :: string

definition emit_srv :: "'r sub_env \<Rightarrow> string \<Rightarrow> gobj \<Rightarrow> 'r server \<Rightarrow> 'r server" where
  "emit_srv e ty fs s = s\<lparr> srv_auth := emit_auth (srv_tele s) (be_auth e) (be_hec e) ty fs (srv_auth s) \<rparr>"

definition on_auth :: "('r auth_state \<Rightarrow> 'a \<times> 'r auth_state) \<Rightarrow> 'r server \<Rightarrow> 'a \<times> 'r server" where
  "on_auth f s = (case f (srv_auth s) of (x, a) \<Rightarrow> (x, s\<lparr> srv_auth := a \<rparr>))"

definition stored_config :: "'r server \<Rightarrow> Config" where
  "stored_config s = st_Config (Snapshot (at_store (srv_auth s)))"

definition save_config :: "'r sub_env \<Rightarrow> Config \<Rightarrow> 'r server \<Rightarrow> store_error option \<times> 'r server" where
  "save_config e cfg = on_auth (on_store (SaveConfig (ae_env (be_auth e)) cfg))"

definition mergeRuntimeSecretConfig :: "Config \<Rightarrow> Config \<Rightarrow> Config" where
  "mergeRuntimeSecretConfig kept runtimeCfg =
    (let r = c_Registration runtimeCfg; k = c_Registration kept in
     kept\<lparr> c_Registration := \<lparr> reg_MarshalURL = orElse (reg_MarshalURL r) (reg_MarshalURL k),
         reg_IntervalSeconds = orElseInt (reg_IntervalSeconds r) (reg_IntervalSeconds k),
         reg_EnrollmentToken = orElse (reg_EnrollmentToken r) (reg_EnrollmentToken k),
         reg_HeartbeatCredential = orElse (reg_HeartbeatCredential r) (reg_HeartbeatCredential k),
         reg_HeartbeatCredentialEnv = orElse (reg_HeartbeatCredentialEnv r) (reg_HeartbeatCredentialEnv k) \<rparr>,
       c_Capabilities := (c_Capabilities kept)\<lparr> cap_BenchmarkRunner :=
         NormalizeBenchmarkRunnerConfig (cap_BenchmarkRunner (c_Capabilities runtimeCfg)) \<rparr> \<rparr>)"

definition guarded_config :: "Config \<Rightarrow> Config" where
  "guarded_config cfg = cfg\<lparr> c_UI := (c_UI cfg)\<lparr> ui_RequireAuth := True \<rparr>, c_Auth := (c_Auth cfg)\<lparr> au_Enabled := True \<rparr> \<rparr>"

datatype start_error = StoreFailed store_error | SecretsFailed secret_error | KeyFailed auth_failure

text \<open>A server on the opened files, before it has looked at its tokens.\<close>

definition new_server :: "Config \<Rightarrow> Store \<Rightarrow> 'r SecretStore \<Rightarrow> 'r server" where
  "new_server cfg store secs =
    (let depth = max 1 (r_QueueMaxDepth (c_Routing cfg)) in
     \<lparr> srv_cfg = cfg, srv_auth = \<lparr> at_secrets = secs, at_store = store, at_limiter = newAuthFailureLimiter 5 minute (30 * second) \<rparr>,
       srv_tele = NewSink cfg, srv_queue = newQueueScheduler depth (c_Routing cfg), srv_meta = newQueueTracker depth,
       srv_timeout = Timeout (c_Routing cfg), srv_background = newBenchmarkSchedulerBackground, srv_recovery = [] \<rparr>)"

text \<open>What a server that was set up before does on its start: both gates are closed again, and there is a key for clients.\<close>

definition restore_gates :: "'r sub_env \<Rightarrow> Config \<Rightarrow> 'r server \<Rightarrow> start_error + 'r server" where
  "restore_gates e cfg0 s =
    (if \<not> st_SetupComplete (Snapshot (at_store (srv_auth s))) then Inr s
     else
       let cfg = guarded_config cfg0 in
       case save_config e cfg s of
         (Some err, s) \<Rightarrow> Inl (StoreFailed err)
       | (None, s) \<Rightarrow>
          (case on_auth (ensureDefaultClientKey (be_auth e)) (s\<lparr> srv_cfg := cfg \<rparr>) of
             (Inl err, s) \<Rightarrow> Inl (KeyFailed err)
           | (Inr key, s) \<Rightarrow> Inr s))"

definition NewServer :: "'r sub_env \<Rightarrow> (string \<Rightarrow> string) \<Rightarrow> machine \<Rightarrow> Config \<Rightarrow> Store \<Rightarrow> 'r SecretStore \<Rightarrow> start_error + 'r server" where
  "NewServer e getenv m runtimeCfg file dir =
    (let a = be_auth e in
     case AppState.load (ae_env a) runtimeCfg file of
       (Some err, store) \<Rightarrow> Inl (StoreFailed err)
     | (None, store) \<Rightarrow>
        (let cfg = mergeRuntimeSecretConfig (st_Config (Snapshot store)) runtimeCfg in
         case Open (ae_cipher a) (ae_keyring a) getenv (mc_GOOS m) (ae_secret a) dir of
           (Some err, secs) \<Rightarrow> Inl (SecretsFailed err)
         | (None, secs) \<Rightarrow>
            (let h = t_SplunkHEC (c_Telemetry cfg);
                 (token, secs) = (if h_Token h = [] then Get (ae_keyring a) ''splunk_hec_token'' secs else (h_Token h, secs));
                 cfg = cfg\<lparr> c_Telemetry := (c_Telemetry cfg)\<lparr> t_SplunkHEC := h\<lparr> h_Token := token \<rparr> \<rparr> \<rparr> in
             case on_auth (ensureAdminToken a) (new_server cfg store secs) of
               (Inl err, s) \<Rightarrow> Inl (SecretsFailed err)
             | (Inr recovery, s) \<Rightarrow>
                (case restore_gates e cfg (s\<lparr> srv_recovery := recovery \<rparr>) of
                   Inl err \<Rightarrow> Inl err
                 | Inr s \<Rightarrow> Inr (snd (on_auth (upsert e (Local (be_now e) m (srv_cfg s))) s))))))"

section \<open>Setup\<close>

text \<open>The answer of a handler: its status, and the tokens it reveals, of a client and of the operator.\<close>

record 'r setup_result =
  ur_status :: int
  ur_token :: string
  ur_admin :: string
  ur_server :: "'r server"

definition setup_answer :: "int \<Rightarrow> string \<Rightarrow> 'r server \<Rightarrow> 'r setup_result" where
  "setup_answer st token s = \<lparr> ur_status = st, ur_token = token, ur_admin = [], ur_server = s \<rparr>"

definition setupStart :: "'r sub_env \<Rightarrow> 'r server \<Rightarrow> 'r setup_result" where
  "setupStart e s = setup_answer 200 [] (emit_srv e ''setup_event'' [(''step'', GStr ''start'')] s)"

definition scanLocal :: "'r sub_env \<Rightarrow> machine \<Rightarrow> Config \<Rightarrow> 'r server \<Rightarrow> 'r setup_result" where
  "scanLocal e m scanner s =
    (let node = Local (be_now e) m scanner; s = snd (on_auth (upsert e node) s) in
     setup_answer 200 [] (emit_srv e ''node_capability_update'' [(''node_id'', GStr (n_NodeID node)), (''status'', GStr (n_Status node)),
       (''ollama_available'', GBool (n_OllamaAvailable node))] s))"

definition recommended :: "Config \<Rightarrow> Config" where
  "recommended cfg = cfg\<lparr> c_ModelAliases := (case c_ModelAliases cfg of None \<Rightarrow> c_ModelAliases (Default (sv_Mode (c_Server cfg))) | Some m \<Rightarrow> Some m),
     c_Frontier := (c_Frontier cfg)\<lparr> f_Enabled := False, f_LocalOnly := True \<rparr>,
     c_Telemetry := (c_Telemetry cfg)\<lparr> t_LoggingLevel := ''metadata_only'', t_StorePayloads := False \<rparr>,
     c_Session_DefaultAffinity := ''soft'' \<rparr>"

definition applyRecommended :: "'r sub_env \<Rightarrow> 'r server \<Rightarrow> 'r setup_result" where
  "applyRecommended e s =
    (let cfg = recommended (stored_config s) in
     setup_answer 200 [] ((snd (save_config e cfg s))\<lparr> srv_cfg := cfg \<rparr>))"

definition setupComplete :: "'r sub_env \<Rightarrow> 'r server \<Rightarrow> 'r setup_result" where
  "setupComplete e s =
    (let cfg = guarded_config (stored_config s); s = (snd (save_config e cfg s))\<lparr> srv_cfg := cfg \<rparr> in
     case on_auth (ensureDefaultClientKey (be_auth e)) s of
       (Inl err, s) \<Rightarrow> setup_answer 500 [] s
     | (Inr (key, token), s) \<Rightarrow>
        (let s = emit_srv e ''setup_event'' [(''step'', GStr ''complete'')]
               (snd (on_auth (on_store (SetSetupComplete (ae_env (be_auth e)) True)) s));
             (admin, s) = on_auth (getSecret (be_auth e) adminSecretKey) s;
             (again, s) = on_auth (getSecret (be_auth e) adminSecretKey) s in
         (setup_answer 200 token s)\<lparr> ur_admin := admin \<rparr>))"

section \<open>Configuration\<close>

text \<open>A configuration that arrives as JSON has no secrets: their fields are not read.\<close>

definition putConfig :: "'r sub_env \<Rightarrow> Config option \<Rightarrow> 'r server \<Rightarrow> 'r setup_result" where
  "putConfig e body s =
    (case body of
       None \<Rightarrow> setup_answer 400 [] s
     | Some b \<Rightarrow>
        (let cfg = jsonConfig b;
             cfg = cfg\<lparr> c_Server := \<lparr> sv_Mode = orElse (sv_Mode (c_Server cfg)) (sv_Mode (c_Server (srv_cfg s))),
               sv_Listen = orElse (sv_Listen (c_Server cfg)) (sv_Listen (c_Server (srv_cfg s))) \<rparr> \<rparr> in
         case save_config e cfg s of
           (Some err, s) \<Rightarrow> setup_answer 500 [] s
         | (None, s) \<Rightarrow> setup_answer 200 [] (s\<lparr> srv_cfg := cfg \<rparr>)))"

definition putAliases :: "'r sub_env \<Rightarrow> (string, ModelAlias) gomap option option \<Rightarrow> 'r server \<Rightarrow> 'r setup_result" where
  "putAliases e body s =
    (case body of
       None \<Rightarrow> setup_answer 400 [] s
     | Some aliases \<Rightarrow>
        (let cfg = (stored_config s)\<lparr> c_ModelAliases := aliases \<rparr> in
         setup_answer 200 [] ((snd (save_config e cfg s))\<lparr> srv_cfg := cfg \<rparr>)))"


definition mask :: "string \<Rightarrow> string" where
  "mask v = (if v \<noteq> [] then ''********'' else v)"

definition sanitizeConfig :: "Config \<Rightarrow> Config" where
  "sanitizeConfig cfg = cfg\<lparr>
     c_Auth := (c_Auth cfg)\<lparr> au_APIKeys := map (\<lambda>k. k\<lparr> ak_Key := mask (ak_Key k) \<rparr>) (au_APIKeys (c_Auth cfg)) \<rparr>,
     c_Telemetry := (c_Telemetry cfg)\<lparr> t_SplunkHEC := (t_SplunkHEC (c_Telemetry cfg))\<lparr> h_Token := mask (h_Token (t_SplunkHEC (c_Telemetry cfg))) \<rparr> \<rparr> \<rparr>"

definition getConfig :: "'r server \<Rightarrow> Config" where
  "getConfig s = sanitizeConfig (stored_config s)"

record splunkHECRequest =
  sq_Enabled :: bool
  sq_URL :: string
  sq_Token :: string
  sq_TokenEnv :: string
  sq_Index :: string
  sq_Source :: string
  sq_VerifySSL :: bool
  sq_Prefix :: string

definition given_token :: "splunkHECRequest \<Rightarrow> bool" where
  "given_token q \<longleftrightarrow> sq_Token q \<noteq> [] \<and> sq_Token q \<noteq> ''********''"

definition toConfig :: "splunkHECRequest \<Rightarrow> SplunkHECConfig \<Rightarrow> SplunkHECConfig" where
  "toConfig q base = \<lparr> h_Enabled = sq_Enabled q, h_URL = sq_URL q, h_Token = (if given_token q then sq_Token q else h_Token base),
     h_TokenEnv = sq_TokenEnv q, h_Index = orElse (sq_Index q) ''llama_wrangler'', h_Source = orElse (sq_Source q) ''llama-wrangler'',
     h_VerifySSL = sq_VerifySSL q, h_Prefix = orElse (sq_Prefix q) ''llama_wrangler'' \<rparr>"

definition hec_of :: "Config \<Rightarrow> SplunkHECConfig" where
  "hec_of cfg = t_SplunkHEC (c_Telemetry cfg)"


definition testHEC :: "'r sub_env \<Rightarrow> (Payload \<Rightarrow> string option) \<Rightarrow> (string \<Rightarrow> string \<Rightarrow> Payload \<Rightarrow> string + int \<times> string)
    \<Rightarrow> splunkHECRequest option \<Rightarrow> 'r server \<Rightarrow> string option \<times> 'r setup_result" where
  "testHEC e enc net body s =
    (let cfg = (case body of None \<Rightarrow> hec_of (srv_cfg s) | Some q \<Rightarrow> if sq_URL q \<noteq> [] then toConfig q (hec_of (srv_cfg s)) else hec_of (srv_cfg s));
         (token, s) = (if h_Token cfg = [] then on_auth (getSecret (be_auth e) ''splunk_hec_token'') s else (h_Token cfg, s)) in
     case Send enc net (be_now e) (cfg\<lparr> h_Token := token \<rparr>) ''config''
         [(''event_type'', GStr ''config''), (''status'', GStr ''test''), (''timestamp'', GStr (format_time (be_now e)))] of
       Some err \<Rightarrow> (Some (friendlyHECError err), setup_answer 502 [] s)
     | None \<Rightarrow> (None, setup_answer 200 [] s))"

definition splunkHECStatus :: "'r sub_env \<Rightarrow> 'r server \<Rightarrow> gobj \<times> 'r server" where
  "splunkHECStatus e s =
    (let hec = hec_of (srv_cfg s); (kept, s) = on_auth (getSecret (be_auth e) ''splunk_hec_token'') s in
     ([(''enabled'', GBool (h_Enabled hec)), (''url'', GStr (h_URL hec)), (''index'', GStr (h_Index hec)), (''source'', GStr (h_Source hec)),
       (''verify_ssl'', GBool (h_VerifySSL hec)), (''has_token'', GBool (kept \<noteq> [] \<or> h_Token hec \<noteq> [])), (''sourcetype'', GStr (h_Prefix hec)),
       (''last_status'', GStr ''available_in_audit''), (''tls_verification_disabled'', GBool (\<not> h_VerifySSL hec)),
       (''tls_warning'', GStr (if h_VerifySSL hec then []
          else ''TLS certificate verification is disabled. Use this only for trusted self-signed Splunk lab certificates.''))], s))"

section \<open>Models\<close>

definition add_owner :: "string \<Rightarrow> string \<Rightarrow> (string, string list) gomap \<Rightarrow> (string, string list) gomap" where
  "add_owner name i m = goput name ((case goget m name of None \<Rightarrow> [] | Some is \<Rightarrow> is) @ [i]) m"

definition models :: "'r server \<Rightarrow> (string, string list) gomap" where
  "models s = fold (\<lambda>node. fold (\<lambda>m. add_owner (ms_Name m) (n_NodeID node)) (n_Models node))
     (map snd (st_Nodes (Snapshot (at_store (srv_auth s))))) []"

definition alias_names :: "Config \<Rightarrow> string list" where
  "alias_names cfg = (case c_ModelAliases cfg of None \<Rightarrow> [] | Some m \<Rightarrow> map fst m)"

definition openAIModels :: "'r server \<Rightarrow> string list" where
  "openAIModels s = alias_names (srv_cfg s)"

definition apiTags :: "'r server \<Rightarrow> string list" where
  "apiTags s = fold (\<lambda>name names. if name \<in> set names then names else names @ [name])
     (concat (map (map ms_Name \<circ> n_Models) (map snd (st_Nodes (Snapshot (at_store (srv_auth s))))))) (alias_names (srv_cfg s))"

section \<open>The first page\<close>

definition sanitizeEnrollmentQueue :: "EnrollmentRequest list \<Rightarrow> EnrollmentRequest list" where
  "sanitizeEnrollmentQueue = map (\<lambda>q. q\<lparr> er_TokenHash := [] \<rparr>)"

text \<open>The page is refused for a while, refused with or without the recovery token, or shown. Of the some 25 parts of the page these are the two that
  are cleaned, the configuration and the enrollment queue; the others are not modelled.\<close>

datatype boot_answer = Limited duration | Locked "string option" | Page Config "EnrollmentRequest list"

definition bootstrap :: "'r sub_env \<Rightarrow> auth_request \<Rightarrow> 'r server \<Rightarrow> boot_answer \<times> 'r server" where
  "bootstrap e r s =
    (let state = Snapshot (at_store (srv_auth s));
         locked = (Locked (if srv_recovery s \<noteq> [] \<and> isLoopbackRemote (ar_remote r) then Some (srv_recovery s) else None));
         show = (\<lambda>s. (Page (sanitizeConfig (st_Config state)) (sanitizeEnrollmentQueue (st_EnrollmentQueue state)),
           s\<lparr> srv_auth := (srv_auth s)\<lparr> at_limiter := reset authScopeAdmin (ar_remote r) (at_limiter (srv_auth s)) \<rparr> \<rparr>)) in
     if st_SetupComplete state \<and> ui_RequireAuth (c_UI (st_Config state)) then
       (case on_auth (validAdminToken (be_auth e) r) s of
          (True, s) \<Rightarrow> show s
        | (False, s) \<Rightarrow>
           if bearerToken r \<noteq> [] then
             (case on_auth (failed_attempt (be_auth e) authScopeAdmin r) s of
                ((True, retryAfter), s) \<Rightarrow> (Limited retryAfter, s)
              | ((False, _), s) \<Rightarrow> (locked, s))
           else (locked, s))
     else show s)"

section \<open>Gates\<close>

definition admin_guarded :: "'r auth_state \<Rightarrow> bool" where
  "admin_guarded s \<longleftrightarrow> st_SetupComplete (s_state (at_store s)) \<and> ui_RequireAuth (c_UI (st_Config (s_state (at_store s))))"

lemma admin_gate_iff:
  "fst (requireAdmin js e r w s) = Pass \<longleftrightarrow>
    (admin_guarded s \<and> ar_method r \<noteq> ''OPTIONS'' \<longrightarrow> bearerToken r \<noteq> [] \<and> secret_of e s adminSecretKey = bearerToken r)"
  using validAdminToken_iff [of e r s]
  by (auto simp: requireAdmin_def admin_guarded_def Let_def split: prod.split bool.split)

text \<open>A keychain whose reads never fail.\<close>

definition reads_answered :: "'r auth_env \<Rightarrow> bool" where
  "reads_answered e \<longleftrightarrow> (\<forall>x k. kr_get (ae_keyring e) x k \<noteq> Broken)"

lemma reads_steady: "reads_answered e \<Longrightarrow> steady e s"
  by (simp add: reads_answered_def steady_def)

text \<open>Both gates are closed, and the client gate has a token that opens it: \<open>token\<close>, unless that is empty.\<close>

definition gates_closed :: "'r auth_env \<Rightarrow> string \<Rightarrow> 'r auth_state \<Rightarrow> bool" where
  "gates_closed e token s \<longleftrightarrow> admin_guarded s \<and> client_guarded s \<and>
    (\<exists>t. t \<noteq> [] \<and> (token = [] \<or> t = token) \<and> list_ex (authenticates e s t) (st_ClientAPIKeys (s_state (at_store s))))"

lemma default_key_found:
  assumes "reads_answered e"
  shows "snd (default_key e keys s) = s \<and>
    (\<forall>key. fst (default_key e keys s) = Some key \<longrightarrow> key \<in> set keys \<and> (\<exists>t. t \<noteq> [] \<and> authenticates e s t key))"
  by (induction keys) (auto simp: getSecret_steady [OF reads_steady [OF assms]] authenticates_def)

lemma setSecret_store [simp]: "at_store (snd (setSecret e k v s)) = at_store s"
  by (simp add: setSecret_def case_prod_unfold)

lemma setSecret_view:
  "keyring_lawful (ae_keyring e) \<Longrightarrow> fst (setSecret e k v s) = None \<Longrightarrow> v \<noteq> [] \<Longrightarrow> v \<noteq> ''********'' \<Longrightarrow>
     secret_of e (snd (setSecret e k v s)) k = v"
  using Set_view [of "ae_keyring e" "ae_cipher e" "ae_secret e" k v "at_secrets s"]
  by (cases "Set (ae_cipher e) (ae_keyring e) (ae_secret e) k v (at_secrets s)") (simp add: setSecret_def)

lemma new_default_key:
  assumes "default_key e (st_ClientAPIKeys (s_state (at_store s))) s = (None, s)" "ensureDefaultClientKey e s = (Inr (key, token), s')"
  defines "k \<equiv> new_client_key ''local-ide'' ''local-ide'' (tokenHint (newToken ''lw_client_'' (ae_token e)))"
    and "s1 \<equiv> snd (setSecret e (''api_key:local-ide'') (newToken ''lw_client_'' (ae_token e)) s)"
  shows "token = newToken ''lw_client_'' (ae_token e)" "fst (setSecret e (''api_key:local-ide'') token s) = None"
    "s' = s1\<lparr> at_store := snd (UpsertClientAPIKey (ae_env e) k (at_store s1)) \<rparr>"
proof -
  have pre: "apiKeyPrefix @ ck_ID k = ''api_key:local-ide''" by (simp add: k_def new_client_key_def apiKeyPrefix_def)
  obtain err where set: "setSecret e (''api_key:local-ide'') (newToken ''lw_client_'' (ae_token e)) s = (err, s1)"
    unfolding s1_def by (metis prod.collapse)
  have run: "(case err of Some x \<Rightarrow> (Inl (SecretFailure x), s1)
      | None \<Rightarrow> (case on_store (UpsertClientAPIKey (ae_env e) k) s1 of
           (Some x, t) \<Rightarrow> (Inl (StoreFailure x), t) | (None, t) \<Rightarrow> (Inr (k, newToken ''lw_client_'' (ae_token e)), t))) = (Inr (key, token), s')"
    using assms(2) unfolding ensureDefaultClientKey_def Snapshot_auth assms(1) Let_def
      k_def [symmetric] pre by (simp add: set split: option.split_asm)
  then have err: "err = None" by (cases err) simp_all
  obtain err2 where up: "on_store (UpsertClientAPIKey (ae_env e) k) s1 = (err2, s1\<lparr> at_store := snd (UpsertClientAPIKey (ae_env e) k (at_store s1)) \<rparr>)"
    by (simp add: on_store_def case_prod_unfold)
  have "err2 = None" using run unfolding err up by (cases err2) simp_all
  then show "token = newToken ''lw_client_'' (ae_token e)" "s' = s1\<lparr> at_store := snd (UpsertClientAPIKey (ae_env e) k (at_store s1)) \<rparr>"
    using run unfolding err up by auto
  then show "fst (setSecret e (''api_key:local-ide'') token s) = None" by (simp add: set err)
qed

lemma ensureDefaultClientKey_ok:
  assumes "keyring_lawful (ae_keyring e)" "reads_answered e" "ensureDefaultClientKey e s = (Inr (key, token), s')"
  shows "(\<exists>t. t \<noteq> [] \<and> (token = [] \<or> t = token) \<and> list_ex (authenticates e s' t) (st_ClientAPIKeys (s_state (at_store s')))) \<and>
    st_Config (s_state (at_store s')) = st_Config (s_state (at_store s)) \<and>
    st_SetupComplete (s_state (at_store s')) = st_SetupComplete (s_state (at_store s))"
proof (cases "fst (default_key e (st_ClientAPIKeys (s_state (at_store s))) s)")
  case (Some k)
  note found = default_key_found [OF assms(2), of "st_ClientAPIKeys (s_state (at_store s))" s]
  then have d: "default_key e (st_ClientAPIKeys (s_state (at_store s))) s = (Some k, s)" using Some by (metis prod.collapse)
  then have "s' = s" "token = []" using assms(3) by (simp_all add: ensureDefaultClientKey_def)
  moreover have "k \<in> set (st_ClientAPIKeys (s_state (at_store s))) \<and> (\<exists>t. t \<noteq> [] \<and> authenticates e s t k)" using found Some by simp
  ultimately show ?thesis by (simp add: list_ex_iff) blast
next
  case None
  define k where "k = new_client_key ''local-ide'' ''local-ide'' (tokenHint (newToken ''lw_client_'' (ae_token e)))"
  define s1 where "s1 = snd (setSecret e (''api_key:local-ide'') (newToken ''lw_client_'' (ae_token e)) s)"
  have d: "default_key e (st_ClientAPIKeys (s_state (at_store s))) s = (None, s)"
    using None default_key_found [OF assms(2), of "st_ClientAPIKeys (s_state (at_store s))" s] by (metis prod.collapse)
  note new = new_default_key [OF d assms(3), folded k_def, folded s1_def]
  have t: "token \<noteq> []" "token \<noteq> ''********''" using new(1) by (simp_all add: newToken_def)
  have sec: "secret_of e s1 (''api_key:local-ide'') = token"
    using setSecret_view [OF assms(1) new(2) t] new(1) by (simp add: s1_def)
  obtain k' where k': "k' \<in> set (st_ClientAPIKeys (s_state (at_store s')))" "ck_ID k' = ''local-ide''" "ck_Enabled k'"
    using Upsert_has [of k "ae_env e" "at_store s1"] by (auto simp: new(3) k_def new_client_key_def)
  have "authenticates e s' token k'"
    using sec t k' by (simp add: authenticates_def apiKeyPrefix_def new(3))
  moreover have "st_Config (s_state (at_store s')) = st_Config (s_state (at_store s))"
    "st_SetupComplete (s_state (at_store s')) = st_SetupComplete (s_state (at_store s))"
    by (simp_all add: new(3) Upsert_frame s1_def)
  ultimately show ?thesis using k'(1) t(1) unfolding list_ex_iff by blast
qed

lemma Normalize_gates [simp]:
  "ui_RequireAuth (c_UI (Normalize cfg)) = ui_RequireAuth (c_UI cfg)" "au_Enabled (c_Auth (Normalize cfg)) = au_Enabled (c_Auth cfg)"
  by (simp_all add: Normalize_def Let_def)

lemma authenticates_secrets: "at_secrets s = at_secrets s' \<Longrightarrow> authenticates e s = authenticates e s'"
  by (simp add: authenticates_def fun_eq_iff)

lemma SaveConfig_gates [simp]:
  "st_Config (s_state (snd (SaveConfig e cfg t))) = Normalize cfg"
  "st_SetupComplete (s_state (snd (SaveConfig e cfg t))) = st_SetupComplete (s_state t)"
  by (simp_all add: SaveConfig_def)

lemma SetSetupComplete_gates [simp]:
  "st_Config (s_state (snd (SetSetupComplete e b t))) = st_Config (s_state t)"
  "st_ClientAPIKeys (s_state (snd (SetSetupComplete e b t))) = st_ClientAPIKeys (s_state t)"
  "st_SetupComplete (s_state (snd (SetSetupComplete e b t))) = b"
  by (simp_all add: SetSetupComplete_def)

lemma guarded_config_gates [simp]: "ui_RequireAuth (c_UI (guarded_config cfg))" "au_Enabled (c_Auth (guarded_config cfg))"
  by (simp_all add: guarded_config_def)

lemma on_auth_eq: "on_auth f s = (fst (f (srv_auth s)), s\<lparr> srv_auth := snd (f (srv_auth s)) \<rparr>)"
  by (simp add: on_auth_def case_prod_unfold)

lemma on_store_eq: "on_store f s = (fst (f (at_store s)), s\<lparr> at_store := snd (f (at_store s)) \<rparr>)"
  by (simp add: on_store_def case_prod_unfold)

lemma save_config_eq:
  "save_config e cfg s = (fst (SaveConfig (ae_env (be_auth e)) cfg (at_store (srv_auth s))),
     s\<lparr> srv_auth := (srv_auth s)\<lparr> at_store := snd (SaveConfig (ae_env (be_auth e)) cfg (at_store (srv_auth s))) \<rparr> \<rparr>)"
  by (simp add: save_config_def on_auth_eq on_store_eq)

lemmas server_eq = on_auth_eq on_store_eq save_config_eq

text \<open>C27. Completing the setup: when the server answers that setup is complete, both gates are closed in the state it continues with, also if no file could be
  written; the operator token of the answer is the one the admin gate asks for, and the client gate can be opened: by the
  client token of the answer, or, if that is empty, by the one of a key that was there before.\<close>

theorem setup_closes_gates:
  assumes "keyring_lawful (ae_keyring (be_auth e))" "reads_answered (be_auth e)" "ur_status (setupComplete e s) = 200"
  shows "let s' = srv_auth (ur_server (setupComplete e s)) in
    gates_closed (be_auth e) (ur_token (setupComplete e s)) s' \<and> ur_admin (setupComplete e s) = secret_of (be_auth e) s' adminSecretKey"
proof -
  let ?a = "be_auth e" and ?cfg = "guarded_config (stored_config s)"
  define s0 where "s0 = (srv_auth s)\<lparr> at_store := snd (SaveConfig (ae_env ?a) ?cfg (at_store (srv_auth s))) \<rparr>"
  obtain r s1 where r: "ensureDefaultClientKey ?a s0 = (r, s1)" by (metis prod.collapse)
  note getSecret [simp] = getSecret_steady [OF reads_steady [OF assms(2)]]
  have ran: "on_auth (ensureDefaultClientKey ?a) ((snd (save_config e ?cfg s))\<lparr> srv_cfg := ?cfg \<rparr>) = (r, s\<lparr> srv_cfg := ?cfg, srv_auth := s1 \<rparr>)"
    by (simp add: server_eq s0_def [symmetric] r)
  obtain key token where ok: "r = Inr (key, token)"
    using assms(3) unfolding setupComplete_def Let_def ran by (cases r) (auto simp: setup_answer_def)
  note key = ensureDefaultClientKey_ok [OF assms(1,2) r [unfolded ok]]
  define s2 where "s2 = emit_auth (srv_tele s) ?a (be_hec e) ''setup_event'' [(''step'', GStr ''complete'')]
      (s1\<lparr> at_store := snd (SetSetupComplete (ae_env ?a) True (at_store s1)) \<rparr>)"
  have res: "setupComplete e s = (setup_answer 200 token (s\<lparr> srv_cfg := ?cfg, srv_auth := s2 \<rparr>))\<lparr> ur_admin := secret_of ?a s2 adminSecretKey \<rparr>"
    unfolding setupComplete_def Let_def ran ok by (simp add: server_eq emit_srv_def s2_def [symmetric])
  have "at_secrets s2 = at_secrets s1" "st_Config (s_state (at_store s2)) = st_Config (s_state (at_store s1))"
    "st_ClientAPIKeys (s_state (at_store s2)) = st_ClientAPIKeys (s_state (at_store s1))" "st_SetupComplete (s_state (at_store s2))"
    by (simp_all add: s2_def emit_auth_def)
  moreover have "st_Config (s_state (at_store s1)) = Normalize ?cfg" using key by (simp add: s0_def)
  ultimately show ?thesis
    using key by (simp add: res setup_answer_def gates_closed_def admin_guarded_def client_guarded_def authenticates_secrets [of s2 s1])
qed

lemma restore_gates_ok:
  assumes "keyring_lawful (ae_keyring (be_auth e))" "reads_answered (be_auth e)" "restore_gates e cfg s = Inr s'"
    and complete: "st_SetupComplete (s_state (at_store (srv_auth s)))"
  shows "gates_closed (be_auth e) [] (srv_auth s') \<and> srv_cfg s' = guarded_config cfg"
proof -
  let ?a = "be_auth e" and ?cfg = "guarded_config cfg"
  define s0 where "s0 = (srv_auth s)\<lparr> at_store := snd (SaveConfig (ae_env ?a) ?cfg (at_store (srv_auth s))) \<rparr>"
  obtain r s1 where r: "ensureDefaultClientKey ?a s0 = (r, s1)" by (metis prod.collapse)
  obtain err where sv: "save_config e ?cfg s = (err, s\<lparr> srv_auth := s0 \<rparr>)" by (simp add: save_config_eq s0_def)
  have ran: "on_auth (ensureDefaultClientKey ?a) (s\<lparr> srv_auth := s0, srv_cfg := ?cfg \<rparr>) = (r, s\<lparr> srv_cfg := ?cfg, srv_auth := s1 \<rparr>)"
    by (simp add: on_auth_eq r)
  have run: "(case err of Some err \<Rightarrow> Inl (StoreFailed err)
      | None \<Rightarrow> (case r of Inl err \<Rightarrow> Inl (KeyFailed err) | Inr k \<Rightarrow> Inr (s\<lparr> srv_cfg := ?cfg, srv_auth := s1 \<rparr>))) = Inr s'"
    using assms(3) complete unfolding restore_gates_def Let_def sv by (cases err) (simp_all add: ran)
  then obtain k where ok: "r = Inr k" "s' = s\<lparr> srv_cfg := ?cfg, srv_auth := s1 \<rparr>"
    by (auto split: option.splits sum.splits)
  obtain key token where k: "k = (key, token)" by fastforce
  note key = ensureDefaultClientKey_ok [OF assms(1,2) r [unfolded ok k]]
  have "st_Config (s_state (at_store s0)) = Normalize ?cfg" "st_SetupComplete (s_state (at_store s0))"
    using complete by (simp_all add: s0_def)
  then show ?thesis using key by (auto simp: ok gates_closed_def admin_guarded_def client_guarded_def)
qed

lemma upsert_frame:
  "at_secrets (snd (upsert e node s)) = at_secrets s"
  "st_Config (s_state (at_store (snd (upsert e node s)))) = st_Config (s_state (at_store s))"
  "st_ClientAPIKeys (s_state (at_store (snd (upsert e node s)))) = st_ClientAPIKeys (s_state (at_store s))"
  "st_SetupComplete (s_state (at_store (snd (upsert e node s)))) = st_SetupComplete (s_state (at_store s))"
  by (simp_all add: upsert_def on_store_eq UpsertNode_def putNode_def Let_def)

lemma gates_closed_upsert: "gates_closed a t s \<Longrightarrow> gates_closed a t (snd (upsert e node s))"
  using authenticates_secrets [OF upsert_frame(1), of a e node s]
  by (simp add: gates_closed_def admin_guarded_def client_guarded_def upsert_frame)

text \<open>Reading a state file, with whatever migration it needs, and the look at the operator's token keep what the file says of the setup.\<close>

lemma load_keeps_setup:
  assumes "AppState.load e cfg file = (None, store)" "s_file file = StateFile st"
  shows "st_SetupComplete (s_state store) = st_SetupComplete st"
proof -
  obtain res st1 where m: "migrateLocked (e_now e) st = (res, st1)" by fastforce
  have "st_SetupComplete (snd (migrateLocked (e_now e) st)) = st_SetupComplete st"
    by (simp add: migrateLocked_def migration_0_1_def migration_1_2_def Let_def)
  then have same: "st_SetupComplete st1 = st_SetupComplete st" by (simp add: m)
  obtain migrated where r: "res = Inr migrated" using assms by (cases res) (simp_all add: AppState.load_def m)
  have adopt: "st_SetupComplete (adoptConfig (Normalize cfg) st1) = st_SetupComplete st" by (simp add: adoptConfig_def Let_def same)
  have saved: "st_SetupComplete (s_state (snd (AppState.saveLocked en t))) = st_SetupComplete (s_state t)" for en t
    by (simp add: AppState.saveLocked_def Let_def)
  let ?s = "file\<lparr> s_state := adoptConfig (Normalize cfg) st1 \<rparr>"
  have "(if migrated \<or> st_ConfigVersion st1 = 0 \<or> st_Role st1 = [] then AppState.saveLocked e ?s else (None, ?s)) = (None, store)"
    using assms by (simp add: AppState.load_def m r Let_def)
  then have "store = ?s \<or> store = snd (AppState.saveLocked e ?s)" by (metis snd_conv)
  then show ?thesis using saved [of e ?s] adopt by auto
qed

lemma admin_keeps_setup:
  "st_SetupComplete (s_state (at_store (snd (ensureAdminToken e s)))) = st_SetupComplete (s_state (at_store s))"
proof -
  have hint: "st_SetupComplete (s_state (snd (SetAdminTokenHint en h t))) = st_SetupComplete (s_state t)" for en h t
    by (simp add: SetAdminTokenHint_def AppState.saveLocked_def Let_def)
  have get: "at_store (snd (getSecret e k a)) = at_store a" and set: "at_store (snd (setSecret e k v a)) = at_store a" for k v a
    by (simp_all add: getSecret_def setSecret_def case_prod_unfold Let_def)
  obtain v s1 where g: "getSecret e adminSecretKey s = (v, s1)" by fastforce
  obtain err s2 where w: "setSecret e adminSecretKey (newToken ''lw_admin_'' (ae_token e)) s1 = (err, s2)" by fastforce
  have "at_store s1 = at_store s" "at_store s2 = at_store s1"
    using get [of adminSecretKey s] set [of adminSecretKey "newToken ''lw_admin_'' (ae_token e)" s1] g w by simp_all
  then show ?thesis
    by (cases err) (simp_all add: ensureAdminToken_def rotateAdminToken_def g w Let_def on_store_eq hint)
qed

lemma NewServer_restores:
  assumes "NewServer e getenv m cfg file dir = Inr s" "s_file file = StateFile st"
  shows "\<exists>c s0 s1. restore_gates e c s0 = Inr s1 \<and> s = snd (on_auth (upsert e (Local (be_now e) m (srv_cfg s1))) s1) \<and>
    st_SetupComplete (s_state (at_store (srv_auth s0))) = st_SetupComplete st"
proof -
  let ?a = "be_auth e"
  obtain store where store: "AppState.load (ae_env ?a) cfg file = (None, store)"
    using assms unfolding NewServer_def Let_def by (cases "AppState.load (ae_env ?a) cfg file") (auto split: option.splits)
  obtain secs where secs: "Open (ae_cipher ?a) (ae_keyring ?a) getenv (mc_GOOS m) (ae_secret ?a) dir = (None, secs)"
    using assms unfolding NewServer_def Let_def store prod.case option.case
    by (cases "Open (ae_cipher ?a) (ae_keyring ?a) getenv (mc_GOOS m) (ae_secret ?a) dir") (auto split: option.splits)
  let ?cfg = "mergeRuntimeSecretConfig (st_Config (Snapshot store)) cfg"
  obtain token secs' where token: "(if h_Token (t_SplunkHEC (c_Telemetry ?cfg)) = [] then Get (ae_keyring ?a) ''splunk_hec_token'' secs
      else (h_Token (t_SplunkHEC (c_Telemetry ?cfg)), secs)) = (token, secs')"
    by (metis prod.collapse)
  define c where "c = ?cfg\<lparr> c_Telemetry := (c_Telemetry ?cfg)\<lparr> t_SplunkHEC := (t_SplunkHEC (c_Telemetry ?cfg))\<lparr> h_Token := token \<rparr> \<rparr> \<rparr>"
  define s0 where "s0 = new_server c store secs'"
  obtain r a where admin: "ensureAdminToken ?a (srv_auth s0) = (r, a)" by fastforce
  have run: "(case r of Inl err \<Rightarrow> Inl (SecretsFailed err)
      | Inr recovery \<Rightarrow> (case restore_gates e c (s0\<lparr> srv_auth := a, srv_recovery := recovery \<rparr>) of Inl err \<Rightarrow> Inl err
        | Inr s \<Rightarrow> Inr (s\<lparr> srv_auth := snd (upsert e (Local (be_now e) m (srv_cfg s)) (srv_auth s)) \<rparr>))) = Inr s"
    using assms(1) unfolding NewServer_def Let_def store secs token prod.case option.case c_def [symmetric] s0_def [symmetric] on_auth_eq admin
      fst_conv snd_conv .
  then obtain recovery s1 where ok: "restore_gates e c (s0\<lparr> srv_auth := a, srv_recovery := recovery \<rparr>) = Inr s1"
      "s = snd (on_auth (upsert e (Local (be_now e) m (srv_cfg s1))) s1)"
    by (auto simp: on_auth_eq split: sum.splits)
  have "st_SetupComplete (s_state (at_store a)) = st_SetupComplete st"
    using admin_keeps_setup [of ?a "srv_auth s0"] load_keeps_setup [OF store assms(2)] admin by (simp add: s0_def new_server_def Let_def)
  with ok show ?thesis
    by (intro exI [of _ c] exI [of _ "s0\<lparr> srv_auth := a, srv_recovery := recovery \<rparr>"] exI [of _ s1]) simp
qed

text \<open>C28. A restart never opens a gate: a server that starts on a state file which says that setup is complete, of whatever schema version and
  with whatever configuration the file and the command line have, still says so, has both gates closed, and there is a client token that
  opens the client gate. (A file that can not be read or migrated, or a write that fails, gives no server.)\<close>

theorem restart_guards:
  assumes "keyring_lawful (ae_keyring (be_auth e))" "reads_answered (be_auth e)"
    and "s_file file = StateFile st" "st_SetupComplete st" "NewServer e getenv m cfg file dir = Inr s"
  shows "st_SetupComplete (s_state (at_store (srv_auth s))) \<and> gates_closed (be_auth e) [] (srv_auth s) \<and>
    ui_RequireAuth (c_UI (srv_cfg s)) \<and> au_Enabled (c_Auth (srv_cfg s))"
proof -
  obtain c s0 s1 where r: "restore_gates e c s0 = Inr s1" and s: "s = snd (on_auth (upsert e (Local (be_now e) m (srv_cfg s1))) s1)"
    and "st_SetupComplete (s_state (at_store (srv_auth s0))) = st_SetupComplete st"
    using NewServer_restores [OF assms(5,3)] by blast
  then have "st_SetupComplete (s_state (at_store (srv_auth s0)))" using assms(4) by simp
  note closed = restore_gates_ok [OF assms(1,2) r this]
  then show ?thesis
    using gates_closed_upsert [of "be_auth e" "[]" "srv_auth s1" e]
    by (simp add: s on_auth_eq upsert_frame guarded_config_def) (simp add: gates_closed_def admin_guarded_def)
qed

lemma stored_config_blank [simp]:
  "h_Token (hec_of (stored_config s)) = []" "reg_HeartbeatCredential (c_Registration (stored_config s)) = []"
  "ak \<in> set (au_APIKeys (c_Auth (stored_config s))) \<Longrightarrow> ak_Key ak = []"
  by (auto simp: stored_config_def hec_of_def Snapshot_def cloneState_def jsonState_def jsonConfig_def)





lemma sanitize_blank:
  assumes "h_Token (hec_of cfg) = []" "list_all (\<lambda>key. ak_Key key = []) (au_APIKeys (c_Auth cfg))"
  shows "h_Token (hec_of (sanitizeConfig cfg)) = [] \<and> list_all (\<lambda>key. ak_Key key = []) (au_APIKeys (c_Auth (sanitizeConfig cfg)))"
  using assms by (simp add: sanitizeConfig_def hec_of_def mask_def list_all_iff)

lemma sanitizeEnrollmentQueue_blank: "list_all (\<lambda>q. er_TokenHash q = []) (sanitizeEnrollmentQueue qs)"
  by (simp add: sanitizeEnrollmentQueue_def list_all_iff)

text \<open>To whom the first page is shown. Once setup is complete and the page is guarded, the page itself is only shown to the holder of the operator
  token; the recovery token is only in an answer to an address that counts as local. In the two parts of the page that are modelled
  there is no token of Splunk, no key of a client and no digest of an enrollment token.\<close>

lemma bootstrap_discloses:
  "case fst (bootstrap e r s) of
     Page cfg queue \<Rightarrow>
       (if admin_guarded (srv_auth s) then bearerToken r \<noteq> [] \<and> secret_of (be_auth e) (srv_auth s) adminSecretKey = bearerToken r else True) \<and>
       h_Token (hec_of cfg) = [] \<and> list_all (\<lambda>key. ak_Key key = []) (au_APIKeys (c_Auth cfg)) \<and> list_all (\<lambda>q. er_TokenHash q = []) queue
   | Locked (Some token) \<Rightarrow> token = srv_recovery s \<and> admin_guarded (srv_auth s) \<and> isLoopbackRemote (ar_remote r)
   | _ \<Rightarrow> admin_guarded (srv_auth s)"
proof -
  let ?cfg = "st_Config (Snapshot (at_store (srv_auth s)))"
  have "list_all (\<lambda>key. ak_Key key = []) (au_APIKeys (c_Auth ?cfg))"
    using stored_config_blank(3) [of _ s] by (auto simp: stored_config_def list_all_iff)
  then have blank: "h_Token (hec_of (sanitizeConfig ?cfg)) = []" "list_all (\<lambda>key. ak_Key key = []) (au_APIKeys (c_Auth (sanitizeConfig ?cfg)))"
    using sanitize_blank [of ?cfg] stored_config_blank(1) [of s] by (simp_all add: stored_config_def)
  obtain ok a where v: "on_auth (validAdminToken (be_auth e) r) s = (ok, a)" by (metis prod.collapse)
  then have ok: "ok = (bearerToken r \<noteq> [] \<and> secret_of (be_auth e) (srv_auth s) adminSecretKey = bearerToken r)"
    using validAdminToken_iff [of "be_auth e" r "srv_auth s"] by (auto simp: on_auth_eq)
  obtain b d a' where f: "on_auth (failed_attempt (be_auth e) authScopeAdmin r) a = ((b, d), a')" by (metis prod.collapse)
  have rec: "srv_recovery a = srv_recovery s" "srv_recovery a' = srv_recovery s" using v f by (auto simp: on_auth_eq)
  show ?thesis
  proof (cases "admin_guarded (srv_auth s)")
    case False
    then have "fst (bootstrap e r s) = Page (sanitizeConfig ?cfg) (sanitizeEnrollmentQueue (st_EnrollmentQueue (Snapshot (at_store (srv_auth s)))))"
      by (auto simp: bootstrap_def Let_def admin_guarded_def)
    then show ?thesis using blank False by (simp add: sanitizeEnrollmentQueue_blank)
  next
    case guarded: True
    show ?thesis
    proof (cases ok)
      case True
      then have "fst (bootstrap e r s) = Page (sanitizeConfig ?cfg) (sanitizeEnrollmentQueue (st_EnrollmentQueue (Snapshot (at_store (srv_auth s)))))"
        using guarded v by (simp add: bootstrap_def Let_def admin_guarded_def)
      then show ?thesis using blank ok True by (simp add: sanitizeEnrollmentQueue_blank)
    next
      case False
      then have v: "on_auth (validAdminToken (be_auth e) r) s = (False, a)" using v by simp
      have "fst (bootstrap e r s) \<in> {Limited d, Locked None} \<or>
          fst (bootstrap e r s) = Locked (Some (srv_recovery s)) \<and> isLoopbackRemote (ar_remote r)"
        using guarded by (cases b) (simp_all add: bootstrap_def Let_def v f rec admin_guarded_def)
      then show ?thesis using guarded by auto
    qed
  qed
qed

text \<open>An address with a zone, as a neighbour on the same link has, is not an address for \<^verbatim>\<open>net.ParseIP\<close>, and counts as local.\<close>

lemma zone_counts_as_local: "isLoopbackRemote ''[fe80::1%eth0]:5000''"
  by code_simp

text \<open>Every handler that continues with the configuration of a snapshot loses the credential of the subscriber.\<close>

lemma snapshot_drops_credential:
  "reg_HeartbeatCredential (c_Registration (srv_cfg (ur_server (putAliases e (Some aliases) s)))) = []"
  "reg_HeartbeatCredential (c_Registration (srv_cfg (ur_server (applyRecommended e s)))) = []"
  by (simp_all add: putAliases_def applyRecommended_def recommended_def setup_answer_def Let_def)

section \<open>Concrete runs\<close>

lemma ensureDefaultClientKey_answers:
  assumes "reads_answered e" "e_write_ok (ae_env e)" "fst (setSecret e (''api_key:local-ide'') (newToken ''lw_client_'' (ae_token e)) s) = None"
  shows "\<exists>k. fst (ensureDefaultClientKey e s) = Inr k"
proof (cases "fst (default_key e (st_ClientAPIKeys (s_state (at_store s))) s)")
  case (Some k)
  then have "default_key e (st_ClientAPIKeys (s_state (at_store s))) s = (Some k, s)"
    using default_key_found [OF assms(1)] by (metis prod.collapse)
  then show ?thesis by (simp add: ensureDefaultClientKey_def)
next
  case None
  define tk where "tk = newToken ''lw_client_'' (ae_token e)"
  have d: "default_key e (st_ClientAPIKeys (s_state (at_store s))) s = (None, s)"
    using None default_key_found [OF assms(1)] by (metis prod.collapse)
  obtain s1 where set: "setSecret e (''api_key:local-ide'') tk s = (None, s1)" using assms(3) by (metis prod.collapse tk_def)
  define k where "k = new_client_key ''local-ide'' ''local-ide'' (tokenHint tk)"
  have pre: "apiKeyPrefix @ ck_ID k = ''api_key:local-ide''" by (simp add: k_def new_client_key_def apiKeyPrefix_def)
  obtain s2 where "on_store (UpsertClientAPIKey (ae_env e) k) s1 = (None, s2)" using assms(2) by (simp add: on_store_eq Upsert_frame)
  then show ?thesis by (simp add: ensureDefaultClientKey_def d Let_def tk_def [symmetric] k_def [symmetric] pre set)
qed

lemma subEnv_reads: "reads_answered (be_auth subEnv)" and subEnv_lawful: "keyring_lawful (ae_keyring (be_auth subEnv))"
  using mapRing_lawful by (simp_all add: reads_answered_def subEnv_def authEnv_def mapRing_def split: option.split)

definition setupServer :: "(string, string) gomap server" where
  "setupServer = (new_server (Default ''marshal'') sampleStore sampleSecrets)\<lparr> srv_auth := guardedState \<rparr>"

lemma setup_sample: "ur_status (setupComplete subEnv setupServer) = 200"
proof -
  let ?a = "be_auth subEnv" and ?cfg = "guarded_config (stored_config setupServer)"
  define s0 where "s0 = guardedState\<lparr> at_store := snd (SaveConfig (ae_env ?a) ?cfg (at_store guardedState)) \<rparr>"
  have "fst (setSecret ?a (''api_key:local-ide'') (newToken ''lw_client_'' (ae_token ?a)) s0) = None"
    using set_guarded by (simp add: setSecret_def s0_def subEnv_def authEnv_def case_prod_unfold)
  then obtain k s1 where k: "ensureDefaultClientKey ?a s0 = (Inr k, s1)"
    using ensureDefaultClientKey_answers [OF subEnv_reads, of s0] by (auto simp: subEnv_def authEnv_def sampleEnv_def prod_eq_iff)
  have "on_auth (ensureDefaultClientKey ?a) ((snd (save_config subEnv ?cfg setupServer))\<lparr> srv_cfg := ?cfg \<rparr>) =
      (Inr k, setupServer\<lparr> srv_cfg := ?cfg, srv_auth := s1 \<rparr>)"
    using k by (simp add: on_auth_eq save_config_eq s0_def setupServer_def)
  then show ?thesis
    by (cases k) (simp add: setupComplete_def Let_def setup_answer_def case_prod_unfold)
qed

text \<open>Witness: the setup of this server closes its gates.\<close>

theorem setup_closes_gates_witness:
  "gates_closed (be_auth subEnv) (ur_token (setupComplete subEnv setupServer)) (srv_auth (ur_server (setupComplete subEnv setupServer)))"
  using setup_closes_gates [OF subEnv_lawful subEnv_reads setup_sample] by (simp add: Let_def)




text \<open>The rest of the start, on files that could be read: it succeeds if secrets can be set and the state can be written.\<close>

abbreviation sample_set_ok :: "(string, string) gomap SecretStore \<Rightarrow> bool" where
  "sample_set_ok x \<equiv> sx_key x = sampleKey"

lemma sample_Set:
  "sample_set_ok x \<Longrightarrow> fst (Set plainCipher mapRing secretEnv k v x) = None \<and> sample_set_ok (snd (Set plainCipher mapRing secretEnv k v x))"
  by (simp add: Set_def Secrets.saveLocked_def marshalEncryptedFileLocked_def key_ok_def sampleKey_def secretEnv_def mapRing_def
      split: prod.split)

lemma sample_setSecret:
  "sample_set_ok (at_secrets a) \<Longrightarrow> fst (setSecret authEnv k v a) = None \<and> sample_set_ok (at_secrets (snd (setSecret authEnv k v a)))"
  using sample_Set [of "at_secrets a" k v] by (simp add: setSecret_def authEnv_def case_prod_unfold)

lemma sample_admin:
  assumes "sample_set_ok (at_secrets a)"
  shows "(\<exists>t. fst (ensureAdminToken authEnv a) = Inr t) \<and> sample_set_ok (at_secrets (snd (ensureAdminToken authEnv a))) \<and>
    st_SetupComplete (s_state (at_store (snd (ensureAdminToken authEnv a)))) = st_SetupComplete (s_state (at_store a))"
proof -
  have [simp]: "getSecret authEnv k b = (secret_of authEnv b k, b)" for k b
    using getSecret_steady [OF reads_steady [OF subEnv_reads]] by (simp add: subEnv_def)
  have hint: "st_SetupComplete (s_state (snd (SetAdminTokenHint x h t))) = st_SetupComplete (s_state t)" for x h t
    by (simp add: SetAdminTokenHint_def)
  obtain a1 where set: "setSecret authEnv adminSecretKey (newToken ''lw_admin_'' (ae_token authEnv)) a = (None, a1)" "sample_set_ok (at_secrets a1)"
    "at_store a1 = at_store a"
    using sample_setSecret [OF assms] setSecret_store by (metis prod.collapse)
  show ?thesis
    by (cases "secret_of authEnv a adminSecretKey = []")
      (use assms set in \<open>simp_all add: ensureAdminToken_def rotateAdminToken_def Let_def on_store_eq hint\<close>)
qed

definition completeFile :: Store where
  "completeFile = \<lparr> s_state = s_state sampleStore,
     s_file = StateFile ((fresh_state sampleEnv (Default ''marshal''))\<lparr> st_SetupComplete := True \<rparr>) \<rparr>"

definition sampleMachine :: machine where
  "sampleMachine = \<lparr> mc_hostname = ''herd.local'', mc_GOOS = ''linux'', mc_GOARCH = ''arm64'', mc_sysctl = None, mc_cpuinfo = None,
     mc_tags = Inl ''refused'' \<rparr>"

lemma sample_restore:
  assumes "sample_set_ok (at_secrets (srv_auth s))" "st_SetupComplete (s_state (at_store (srv_auth s)))"
  shows "\<exists>s'. restore_gates subEnv cfg s = Inr s' \<and> st_SetupComplete (s_state (at_store (srv_auth s')))"
proof -
  let ?a = "be_auth subEnv" and ?cfg = "guarded_config cfg"
  define s0 where "s0 = (srv_auth s)\<lparr> at_store := snd (SaveConfig (ae_env ?a) ?cfg (at_store (srv_auth s))) \<rparr>"
  have sv: "save_config subEnv ?cfg s = (None, s\<lparr> srv_auth := s0 \<rparr>)"
    by (simp add: save_config_eq s0_def SaveConfig_def saveLocked_err subEnv_def authEnv_def sampleEnv_def)
  have "fst (setSecret ?a (''api_key:local-ide'') (newToken ''lw_client_'' (ae_token ?a)) s0) = None"
    using sample_setSecret [of s0] assms(1) by (simp add: s0_def subEnv_def)
  then obtain k s1 where k: "ensureDefaultClientKey ?a s0 = (Inr k, s1)"
    using ensureDefaultClientKey_answers [OF subEnv_reads, of s0] by (auto simp: subEnv_def authEnv_def sampleEnv_def prod_eq_iff)
  have "st_SetupComplete (s_state (at_store s1))"
    using ensureDefaultClientKey_ok [OF subEnv_lawful subEnv_reads, of s0 "fst k" "snd k" s1] k assms(2) by (simp add: s0_def)
  then show ?thesis using assms(2) by (simp add: restore_gates_def Let_def sv on_auth_eq k)
qed

lemma start_sample:
  "\<exists>s. NewServer subEnv (\<lambda>_. []) sampleMachine (Default ''marshal'') completeFile sampleSecrets = Inr s \<and>
     st_SetupComplete (s_state (at_store (srv_auth s)))"
proof -
  obtain store where store: "AppState.load (ae_env (be_auth subEnv)) (Default ''marshal'') completeFile = (None, store)"
    "st_SetupComplete (s_state store)"
    by (simp add: AppState.load_def completeFile_def migrateLocked_def fresh_state_def CurrentSchemaVersion_def adoptConfig_def Let_def
        Default_def)
  have key: "loadOrCreateKey plainCipher (\<lambda>_. []) secretEnv (sx_keyFile sampleSecrets) = (Inr (sampleKey, ''file''), sx_keyFile sampleSecrets)"
    using sample_key_filed by (simp add: loadOrCreateKey_def key_filed_def sampleSecrets_def)
  have "\<not> osKeychainRequested (\<lambda>_. [])"
    by (simp add: osKeychainRequested_def ToLower_def TrimSpace_def trim_by_def backendOSKeychain_def)
  then obtain secs where secs: "Open plainCipher mapRing (\<lambda>_. []) ''linux'' secretEnv sampleSecrets = (None, secs)" "sample_set_ok secs"
    by (simp add: Open_def key Let_def Secrets.load_def) (simp add: sampleSecrets_def)
  let ?c = "mergeRuntimeSecretConfig (st_Config (Snapshot store)) (Default ''marshal'')"
  have get: "sample_set_ok x \<Longrightarrow> sample_set_ok (snd (Get mapRing k x))" for k x by (simp add: Get_def mapRing_def split: option.split)
  obtain token secs' where token: "(if h_Token (t_SplunkHEC (c_Telemetry ?c)) = [] then Get mapRing ''splunk_hec_token'' secs
      else (h_Token (t_SplunkHEC (c_Telemetry ?c)), secs)) = (token, secs')" "sample_set_ok secs'"
    using secs(2) get [of secs] by (cases "h_Token (t_SplunkHEC (c_Telemetry ?c)) = []"; metis prod.collapse)
  define cfg where "cfg = ?c\<lparr> c_Telemetry := (c_Telemetry ?c)\<lparr> t_SplunkHEC := (t_SplunkHEC (c_Telemetry ?c))\<lparr> h_Token := token \<rparr> \<rparr> \<rparr>"
  define s0 where "s0 = new_server cfg store secs'"
  have s0: "sample_set_ok (at_secrets (srv_auth s0))" "st_SetupComplete (s_state (at_store (srv_auth s0)))"
    using store token by (simp_all add: s0_def new_server_def Let_def)
  obtain t a where admin: "on_auth (ensureAdminToken authEnv) s0 = (Inr t, s0\<lparr> srv_auth := a \<rparr>)" "sample_set_ok (at_secrets a)"
    "st_SetupComplete (s_state (at_store a))"
    using sample_admin [OF s0(1)] s0(2) by (auto simp: on_auth_eq)
  obtain s where s: "restore_gates subEnv cfg (s0\<lparr> srv_auth := a, srv_recovery := t \<rparr>) = Inr s"
    "st_SetupComplete (s_state (at_store (srv_auth s)))"
    using sample_restore [of "s0\<lparr> srv_auth := a, srv_recovery := t \<rparr>" cfg] admin(2,3) by auto
  have env: "be_auth subEnv = authEnv" "ae_cipher authEnv = plainCipher" "ae_keyring authEnv = mapRing" "ae_secret authEnv = secretEnv"
    "mc_GOOS sampleMachine = ''linux''" by (simp_all add: subEnv_def authEnv_def sampleMachine_def)
  have "NewServer subEnv (\<lambda>_. []) sampleMachine (Default ''marshal'') completeFile sampleSecrets =
      Inr (snd (on_auth (upsert subEnv (Local (be_now subEnv) sampleMachine (srv_cfg s))) s))"
    unfolding NewServer_def Let_def env store(1) [unfolded env] secs(1) prod.case option.case token(1) cfg_def [symmetric]
      s0_def [symmetric] admin(1) sum.case s(1) by simp
  then show ?thesis using s(2) by (simp add: on_auth_eq upsert_frame)
qed

text \<open>Witness: a server starts on this file, and its gates are closed.\<close>

theorem restart_guards_witness:
  "\<exists>s. NewServer subEnv (\<lambda>_. []) sampleMachine (Default ''marshal'') completeFile sampleSecrets = Inr s \<and>
     st_SetupComplete (s_state (at_store (srv_auth s))) \<and> gates_closed (be_auth subEnv) [] (srv_auth s)"
proof -
  obtain s where s: "NewServer subEnv (\<lambda>_. []) sampleMachine (Default ''marshal'') completeFile sampleSecrets = Inr s"
    using start_sample by blast
  obtain st where st: "s_file completeFile = StateFile st" "st_SetupComplete st"
    by (simp add: completeFile_def)
  from restart_guards [OF subEnv_lawful subEnv_reads st s] s show ?thesis by blast
qed

end
