(* ===== verification/Routes.thy ===== *)
theory Routes
  imports SetupHandlers
begin

text \<open>
  The routes of the server (\<^verbatim>\<open>routes\<close> in \<^verbatim>\<open>server.go\<close>), the wrapper around them (\<^verbatim>\<open>ui.go\<close>), and what the multiplexer of the standard library
  does with them: which handler, behind which gate, a method and a path lead to. At the end, the route that hands requests on to the local
  Ollama, with the client of it (\<^verbatim>\<open>ollama/client.go\<close>).
\<close>

section \<open>The table\<close>

datatype guard = Everyone | Admin | ClientKey

record route =
  rt_method :: string
  rt_pattern :: string
  rt_guard :: guard
  rt_handler :: string

definition on :: "string \<Rightarrow> string \<Rightarrow> guard \<Rightarrow> string \<Rightarrow> route" where
  "on method pattern g handler = \<lparr> rt_method = method, rt_pattern = pattern, rt_guard = g, rt_handler = handler \<rparr>"

definition routes :: "route list" where
  "routes =
    [on ''GET'' ''/healthz'' Everyone ''healthz'',
     on ''GET'' ''/ui'' Everyone ''redirectUI'',
     on ''GET'' ''/ui/'' Everyone ''ui'',
     on ''GET'' ''/wrangler/ui/bootstrap'' Everyone ''bootstrap'',
     on ''GET'' ''/wrangler/ui/status'' Everyone ''bootstrap'',
     on ''POST'' ''/wrangler/setup/start'' Admin ''setupStart'',
     on ''POST'' ''/wrangler/setup/scan-local'' Admin ''scanLocal'',
     on ''POST'' ''/wrangler/setup/detect-ollama'' Admin ''scanLocal'',
     on ''POST'' ''/wrangler/setup/discover-peers'' Admin ''discoverPeers'',
     on ''POST'' ''/wrangler/setup/apply-recommended'' Admin ''applyRecommended'',
     on ''POST'' ''/wrangler/setup/test-ollama'' Admin ''testOllama'',
     on ''POST'' ''/wrangler/setup/test-hec'' Admin ''testHEC'',
     on ''POST'' ''/wrangler/setup/complete'' Admin ''setupComplete'',
     on ''GET'' ''/wrangler/config'' Admin ''getConfig'',
     on ''PUT'' ''/wrangler/config'' Admin ''putConfig'',
     on ''POST'' ''/wrangler/config/export'' Admin ''exportConfig'',
     on ''POST'' ''/wrangler/support-bundle/export'' Admin ''exportSupportBundle'',
     on ''GET'' ''/wrangler/nodes'' Admin ''nodes'',
     on ''POST'' ''/wrangler/enrollment-tokens'' Admin ''createEnrollmentToken'',
     on ''POST'' ''/wrangler/nodes/manual-add'' Admin ''manualAddNode'',
     on ''POST'' ''/wrangler/nodes/passive-add'' Admin ''passiveAddNode'',
     on ''GET'' ''/wrangler/benchmarks/workload-suites'' Admin ''benchmarkWorkloadSuitesHandler'',
     on ''GET'' ''/wrangler/benchmarks/runner/guidance'' Admin ''benchmarkRunnerGuidanceHandler'',
     on ''GET'' ''/wrangler/benchmarks/scheduler/policy'' Admin ''benchmarkSchedulerPolicy'',
     on ''PUT'' ''/wrangler/benchmarks/scheduler/policy'' Admin ''putBenchmarkSchedulerPolicy'',
     on ''GET'' ''/wrangler/benchmarks/scheduler/history'' Admin ''benchmarkSchedulerHistory'',
     on ''POST'' ''/wrangler/benchmarks/scheduler/reconcile'' Admin ''benchmarkSchedulerReconcile'',
     on ''POST'' ''/wrangler/nodes/'' Admin ''nodeAction'',
     on ''GET'' ''/wrangler/models'' Admin ''models'',
     on ''GET'' ''/wrangler/models/lifecycle'' Admin ''modelLifecycle'',
     on ''GET'' ''/wrangler/models/lifecycle/action-policies'' Admin ''modelLifecycleActionPolicies'',
     on ''GET'' ''/wrangler/models/lifecycle/action-history'' Admin ''modelLifecycleActionHistory'',
     on ''GET'' ''/wrangler/aliases'' Admin ''aliases'',
     on ''PUT'' ''/wrangler/aliases'' Admin ''putAliases'',
     on ''GET'' ''/wrangler/routing/policies'' Admin ''routingPolicies'',
     on ''PUT'' ''/wrangler/routing/policies'' Admin ''putRoutingPolicies'',
     on ''GET'' ''/wrangler/client-presets'' Admin ''clientPresets'',
     on ''GET'' ''/wrangler/auth/status'' Admin ''authStatus'',
     on ''POST'' ''/wrangler/auth/admin-token/rotate'' Admin ''rotateAdminTokenHandler'',
     on ''POST'' ''/wrangler/auth/api-keys'' Admin ''createClientAPIKey'',
     on ''POST'' ''/wrangler/auth/api-keys/'' Admin ''clientAPIKeyAction'',
     on ''POST'' ''/wrangler/secrets/rekey'' Admin ''rekeySecretsHandler'',
     on ''GET'' ''/wrangler/telemetry/status'' Admin ''telemetryStatus'',
     on ''PUT'' ''/wrangler/telemetry/splunk-hec'' Admin ''putSplunkHEC'',
     on ''POST'' ''/wrangler/telemetry/test-hec'' Admin ''testHEC'',
     on ''GET'' ''/wrangler/audit/recent'' Admin ''audit'',
     on ''GET'' ''/wrangler/metrics'' Admin ''metrics'',
     on ''GET'' ''/subscriber/capabilities'' Everyone ''subscriberCapabilities'',
     on ''POST'' ''/subscriber/enroll'' Everyone ''subscriberEnroll'',
     on ''POST'' ''/subscriber/heartbeat'' Everyone ''subscriberHeartbeat'',
     on ''POST'' ''/subscriber/model-actions/claim'' Everyone ''subscriberModelActionClaim'',
     on ''POST'' ''/subscriber/model-actions/status'' Everyone ''subscriberModelActionStatus'',
     on ''POST'' ''/subscriber/benchmarks/claim'' Everyone ''subscriberBenchmarkJobClaim'',
     on ''POST'' ''/subscriber/benchmarks/status'' Everyone ''subscriberBenchmarkJobStatus'',
     on ''POST'' ''/subscriber/benchmarks'' Everyone ''subscriberBenchmarkResult'',
     on ''POST'' ''/subscriber/proxy/'' Everyone ''subscriberProxy'',
     on ''GET'' ''/v1/models'' ClientKey ''openAIModels'',
     on ''POST'' ''/v1/chat/completions'' ClientKey ''marshalProxy openai_chat_completions'',
     on ''POST'' ''/v1/completions'' ClientKey ''marshalProxy openai_completions'',
     on ''POST'' ''/v1/embeddings'' ClientKey ''marshalProxy openai_embeddings'',
     on ''GET'' ''/api/tags'' ClientKey ''apiTags'',
     on ''POST'' ''/api/chat'' ClientKey ''marshalProxy ollama_chat'',
     on ''POST'' ''/api/generate'' ClientKey ''marshalProxy ollama_generate'']"

section \<open>The multiplexer\<close>

text \<open>A path is compared segment by segment, after its escapes are read; a pattern that ends in a slash stands for everything below it.
  A path that is not in its canonical form is redirected to it.\<close>

definition hex_digit :: "char \<Rightarrow> nat option" where
  "hex_digit c =
    (let n = of_char c :: nat in
     if 48 \<le> n \<and> n \<le> 57 then Some (n - 48) else if 65 \<le> n \<and> n \<le> 70 then Some (n - 55) else if 97 \<le> n \<and> n \<le> 102 then Some (n - 87)
     else None)"

fun unescape :: "string \<Rightarrow> string option" where
  "unescape [] = Some []"
| "unescape (c # cs) =
    (if c = CHR ''%'' then
       (case cs of
          h # l # rest \<Rightarrow>
            (case (hex_digit h, hex_digit l) of
               (Some a, Some b) \<Rightarrow> map_option (Cons (char_of (16 * a + b))) (unescape rest)
             | _ \<Rightarrow> None)
        | _ \<Rightarrow> None)
     else map_option (Cons c) (unescape cs))"

definition pathUnescape :: "string \<Rightarrow> string" where
  "pathUnescape p = (case unescape p of Some q \<Rightarrow> q | None \<Rightarrow> p)"

definition segments :: "string \<Rightarrow> string list" where
  "segments path = map pathUnescape (Split CHR ''/'' path)"

definition canonical :: "string \<Rightarrow> bool" where
  "canonical path \<longleftrightarrow>
    (case Split CHR ''/'' path of
       [] # rest \<Rightarrow> rest \<noteq> [] \<and> list_all (\<lambda>x. x \<noteq> [] \<and> x \<noteq> ''.'' \<and> x \<noteq> ''..'') (butlast rest) \<and> last rest \<noteq> ''.'' \<and> last rest \<noteq> ''..''
     | _ \<Rightarrow> False)"

definition pattern_segments :: "route \<Rightarrow> string list" where
  "pattern_segments t = Split CHR ''/'' (rt_pattern t)"

definition subtree :: "route \<Rightarrow> bool" where
  "subtree t \<longleftrightarrow> last (rt_pattern t) = CHR ''/''"

definition takes_method :: "string \<Rightarrow> route \<Rightarrow> bool" where
  "takes_method m t \<longleftrightarrow> rt_method t = m \<or> rt_method t = ''GET'' \<and> m = ''HEAD''"

definition exact :: "string list \<Rightarrow> route \<Rightarrow> bool" where
  "exact segs t \<longleftrightarrow> \<not> subtree t \<and> pattern_segments t = segs"

definition below :: "string list \<Rightarrow> route \<Rightarrow> bool" where
  "below segs t \<longleftrightarrow> subtree t \<and> (let p = butlast (pattern_segments t) in length p < length segs \<and> take (length p) segs = p)"

text \<open>The most specific pattern wins: the exact one, then the longest subtree.\<close>

definition match_route :: "string \<Rightarrow> string list \<Rightarrow> route option" where
  "match_route m segs =
    (case find (\<lambda>t. takes_method m t \<and> exact segs t) routes of
       Some t \<Rightarrow> Some t
     | None \<Rightarrow> find (\<lambda>t. takes_method m t \<and> below segs t) routes)"

datatype dispatched = Preflight | Redirect | NotFound404 | NotAllowed405 | Handler route

definition mux :: "string \<Rightarrow> string \<Rightarrow> dispatched" where
  "mux m path =
    (let segs = segments path; found = match_route m segs;
         exact_here = (\<lambda>segs t. exact segs t \<or> subtree t \<and> pattern_segments t = segs) in
     if \<not> (case found of Some t \<Rightarrow> exact_here segs t | None \<Rightarrow> False) \<and> (path = [] \<or> last path \<noteq> CHR ''/'') \<and>
        (case match_route m (segs @ [[]]) of Some t \<Rightarrow> exact_here (segs @ [[]]) t | None \<Rightarrow> False) then Redirect
     else if m \<noteq> ''CONNECT'' \<and> \<not> canonical path then Redirect
     else case found of
       Some t \<Rightarrow> Handler t
     | None \<Rightarrow> if list_ex (\<lambda>t. exact segs t \<or> below segs t) routes then NotAllowed405 else NotFound404)"

definition withCORS :: "string \<Rightarrow> string \<Rightarrow> dispatched" where
  "withCORS m path = (if m = ''OPTIONS'' then Preflight else mux m path)"

section \<open>Requests\<close>

definition gate_of :: "server_codec \<Rightarrow> 'r auth_env \<Rightarrow> auth_request \<Rightarrow> Writer \<Rightarrow> guard \<Rightarrow> 'r auth_state \<Rightarrow> gate \<times> 'r auth_state" where
  "gate_of js e r w g s =
    (case g of Everyone \<Rightarrow> (Pass, s) | Admin \<Rightarrow> requireAdmin (codec.truncate js) e r w s | ClientKey \<Rightarrow> requireClientAPIKey js e r w s)"

text \<open>The handler that a request reaches, if it reaches one.\<close>

definition reaches :: "server_codec \<Rightarrow> 'r auth_env \<Rightarrow> auth_request \<Rightarrow> Writer \<Rightarrow> 'r auth_state \<Rightarrow> route option" where
  "reaches js e r w s =
    (case withCORS (ar_method r) (hr_path r) of
       Handler t \<Rightarrow> if fst (gate_of js e r w (rt_guard t) s) = Pass then Some t else None
     | _ \<Rightarrow> None)"

section \<open>The table is in order\<close>

lemma match_route_set: "match_route m segs = Some t \<Longrightarrow> t \<in> set routes \<and> takes_method m t \<and> (exact segs t \<or> below segs t)"
  by (auto simp: match_route_def find_Some_iff split: option.splits)

lemma mux_Handler: "mux m path = Handler t \<Longrightarrow> match_route m (segments path) = Some t"
  by (auto simp: mux_def Let_def split: if_splits option.splits)

text \<open>No two routes are the same, none is hidden by another, and every route of an area is behind the gate of the area.\<close>

definition area_guard :: "route \<Rightarrow> bool" where
  "area_guard t \<longleftrightarrow>
    (case pattern_segments t of
       [] # area # rest \<Rightarrow> (subtree t \<longrightarrow> rest \<noteq> []) \<and>
         (if area = ''wrangler'' then rt_guard t = (if rt_handler t = ''bootstrap'' then Everyone else Admin)
          else if area = ''v1'' \<or> area = ''api'' then rt_guard t = ClientKey
          else area = ''healthz'' \<or> area = ''ui'' \<or> area = ''subscriber'')
     | _ \<Rightarrow> False)"

lemma areas: "list_all area_guard routes"
  by code_simp

text \<open>Every route is served by its own handler: none of the patterns of the table is hidden by another one.\<close>

theorem no_route_hidden: "list_all (\<lambda>t. withCORS (rt_method t) (rt_pattern t) = Handler t) routes"
  by code_simp

lemma reaches_match:
  assumes "reaches js e r w s = Some t"
  shows "t \<in> set routes" "exact (segments (hr_path r)) t \<or> below (segments (hr_path r)) t"
    "fst (gate_of js e r w (rt_guard t) s) = Pass" "ar_method r \<noteq> ''OPTIONS''"
proof -
  have h: "withCORS (ar_method r) (hr_path r) = Handler t" "fst (gate_of js e r w (rt_guard t) s) = Pass"
    using assms by (auto simp: reaches_def split: dispatched.splits if_splits)
  then have m: "ar_method r \<noteq> ''OPTIONS''" "mux (ar_method r) (hr_path r) = Handler t" by (auto simp: withCORS_def split: if_splits)
  show "t \<in> set routes" "exact (segments (hr_path r)) t \<or> below (segments (hr_path r)) t"
    using match_route_set [OF mux_Handler [OF m(2)]] by auto
  show "fst (gate_of js e r w (rt_guard t) s) = Pass" "ar_method r \<noteq> ''OPTIONS''" by (rule h m)+
qed

text \<open>A route leads to the area its pattern names.\<close>

lemma area_of_path:
  assumes "exact segs t \<or> below segs t" "area_guard t"
  shows "\<exists>rest. segs = [] # pattern_segments t ! 1 # rest"
proof -
  obtain area rest where p: "pattern_segments t = [] # area # rest" "subtree t \<Longrightarrow> rest \<noteq> []"
    using assms(2) by (auto simp: area_guard_def split: list.splits)
  show ?thesis
  proof (cases "exact segs t")
    case True
    then have "segs = [] # area # rest" using p(1) by (simp add: exact_def)
    then show ?thesis by (simp add: p(1))
  next
    case False
    then have b: "subtree t" "take (length (butlast (pattern_segments t))) segs = butlast (pattern_segments t)"
      using assms(1) by (simp_all add: below_def Let_def)
    then obtain mid where "butlast (pattern_segments t) = [] # area # mid" using p by (cases rest) auto
    then show ?thesis using b(2) p(1) by (metis append_Cons append_take_drop_id nth_Cons_0 nth_Cons_Suc One_nat_def)
  qed
qed

text \<open>C31. Where a stranger gets: once both gates are closed, a request with neither the operator token nor the secret of an enabled client
  key reaches only the health check, the files of the user interface, the first page with a guard of its own, and the routes of
  subscribers. In particular it reaches nothing below \<^verbatim>\<open>/v1\<close> and \<^verbatim>\<open>/api\<close> and no other page of the operator, whatever its method and
  however its path is written.\<close>

theorem stranger_kept_out:
  assumes "steady e s" "admin_guarded s" "client_guarded s" "secret_of e s adminSecretKey \<noteq> bearerToken r \<or> bearerToken r = []"
    "\<not> list_ex (authenticates e s (bearerToken r)) (st_ClientAPIKeys (s_state (at_store s)))" "reaches js e r w s = Some t"
  shows "rt_guard t = Everyone \<and>
    (rt_handler t = ''bootstrap'' \<or> (\<exists>area rest. segments (hr_path r) = [] # area # rest \<and> area \<in> {''healthz'', ''ui'', ''subscriber''}))"
proof -
  note t = reaches_match [OF assms(6)]
  have guard: "area_guard t" using areas t(1) by (simp add: list_all_iff)
  have "rt_guard t \<noteq> Admin" "rt_guard t \<noteq> ClientKey"
    using t(3,4) assms(2-5) client_gate_iff [OF assms(1), of js r w] admin_gate_iff [of "codec.truncate js" e r w s]
    by (auto simp: gate_of_def)
  then have everyone: "rt_guard t = Everyone" by (cases "rt_guard t") simp_all
  obtain rest where "segments (hr_path r) = [] # pattern_segments t ! 1 # rest" using area_of_path [OF t(2) guard] by blast
  with guard everyone show ?thesis by (auto simp: area_guard_def split: list.splits if_splits)
qed

section \<open>The local Ollama\<close>

text \<open>The network gets method, address and body, and gives a response or an error.\<close>

type_synonym ollama_net = "string \<Rightarrow> string \<Rightarrow> string \<Rightarrow> string + Response"

definition ollama_base :: "string \<Rightarrow> string" where
  "ollama_base url = TrimRight (CHR ''/'') (orElse url ''http://localhost:11434'')"

definition Health :: "ollama_net \<Rightarrow> string \<Rightarrow> string option" where
  "Health net base =
    (case net ''GET'' (base @ ''/api/tags'') [] of
       Inl err \<Rightarrow> Some err
     | Inr resp \<Rightarrow> if 400 \<le> rp_status resp then Some (''ollama returned '' @ rp_statusText resp) else None)"

text \<open>The decoder reads the names of the models from the body.\<close>

definition Tags :: "(string \<Rightarrow> string + string list) \<Rightarrow> ollama_net \<Rightarrow> string \<Rightarrow> string + string list" where
  "Tags dec net base =
    (case net ''GET'' (base @ ''/api/tags'') [] of
       Inl err \<Rightarrow> Inl err
     | Inr resp \<Rightarrow>
        if 400 \<le> rp_status resp then Inl (''ollama returned '' @ rp_statusText resp)
        else case ReadAll [] (rp_reads resp) of Inl err \<Rightarrow> Inl err | Inr text \<Rightarrow> dec text)"

definition ollama_Proxy :: "ollama_net \<Rightarrow> string \<Rightarrow> string \<Rightarrow> string \<Rightarrow> string + Response" where
  "ollama_Proxy net base path body = net ''POST'' (base @ path) body"

text \<open>The copy of the body is the loop of \<^verbatim>\<open>io.Copy\<close>.\<close>

definition CopyResponse :: "Response \<Rightarrow> Writer \<Rightarrow> Writer" where
  "CopyResponse resp w = snd (stream_loop 0 (rp_reads resp) (WriteHeader (rp_status resp) (copyResponseHeaders resp w)))"

definition testOllama :: "codec \<Rightarrow> ollama_net \<Rightarrow> string \<Rightarrow> Writer \<Rightarrow> Writer" where
  "testOllama js net url w =
    (case Health net (ollama_base url) of
       Some err \<Rightarrow> writeJSON js 502 (JObject [(''status'', JString ''failed''),
         (''message'', JString (''Could not reach Ollama at '' @ url @ ''. Start Ollama, then click Retry.'')), (''error'', JString err)]) w
     | None \<Rightarrow> writeJSON js 200 (JObject [(''status'', JString ''ok'')]) w)"

definition subscriberProxy :: "codec \<Rightarrow> ollama_net \<Rightarrow> string \<Rightarrow> auth_request \<Rightarrow> Writer \<Rightarrow> Writer" where
  "subscriberProxy js net url r w =
    (let targetPath = TrimPrefix (pathUnescape (hr_path r)) ''/subscriber/proxy'' in
     if targetPath = [] \<or> targetPath = ''/'' then writeJSON js 400 (JObject [(''error'', JString ''proxy target path required'')]) w
     else case ollama_Proxy net (ollama_base url) targetPath (hr_body r) of
       Inl err \<Rightarrow> writeJSON js 502 (JObject [(''error'', JString err), (''message'', JString (''Could not reach Ollama at '' @ url @ ''.''))]) w
     | Inr resp \<Rightarrow> CopyResponse resp w)"

lemma open_route: "withCORS ''POST'' ''/subscriber/proxy/api/generate'' = Handler (on ''POST'' ''/subscriber/proxy/'' Everyone ''subscriberProxy'')"
  by code_simp

lemma open_path: "TrimPrefix (pathUnescape ''/subscriber/proxy/api/generate'') ''/subscriber/proxy'' = ''/api/generate''"
  by code_simp

text \<open>The subscriber proxy is open: whatever the gates, a request to \<^verbatim>\<open>/subscriber/proxy/api/generate\<close> with any header and any state of
  the server reaches the handler, which sends its body to the local Ollama and copies the answer back. So the client gate in
  front of the inference interface does not keep anyone from the models of the machine the server runs on.\<close>

theorem proxy_is_open:
  "let r' = r\<lparr> ar_method := ''POST'', hr_path := ''/subscriber/proxy/api/generate'' \<rparr> in
   map_option rt_handler (reaches js e r' w s) = Some ''subscriberProxy'' \<and>
   (case net ''POST'' (ollama_base url @ ''/api/generate'') (hr_body r) of
      Inr resp \<Rightarrow> subscriberProxy (codec.truncate js) net url r' w = CopyResponse resp w
    | Inl err \<Rightarrow> True)"
  by (simp add: reaches_def open_route gate_of_def on_def subscriberProxy_def open_path ollama_Proxy_def Let_def split: sum.split)

section \<open>A concrete request\<close>

definition strangerRequest :: auth_request where
  "strangerRequest = \<lparr> hr_path = ''/healthz'', hr_header = (\<lambda>_. []), hr_body = [], ar_method = ''GET'', ar_remote = ''10.0.0.7:5000'' \<rparr>"

definition closedState :: "(string, string) gomap auth_state" where
  "closedState = guardedState\<lparr> at_store := (at_store guardedState)\<lparr> s_state := (s_state (at_store guardedState))\<lparr>
     st_Config := guarded_config (st_Config (s_state (at_store guardedState))) \<rparr> \<rparr> \<rparr>"

lemma health_route: "withCORS ''GET'' ''/healthz'' = Handler (on ''GET'' ''/healthz'' Everyone ''healthz'')"
  by code_simp

lemma no_token: "bearerToken strangerRequest = []"
  by code_simp

text \<open>Witness: a stranger can ask for the health of the server.\<close>

theorem stranger_kept_out_witness:
  "\<exists>js w t. reaches js authEnv strangerRequest w closedState = Some t \<and> rt_guard t = Everyone"
proof -
  have "reaches js authEnv strangerRequest w closedState = Some (on ''GET'' ''/healthz'' Everyone ''healthz'')" for js w
    by (simp add: reaches_def strangerRequest_def health_route) (simp add: gate_of_def on_def)
  moreover have "admin_guarded closedState" "client_guarded closedState"
    by (simp_all add: admin_guarded_def client_guarded_def closedState_def guarded_config_def guardedState_def)
  ultimately show ?thesis
    using stranger_kept_out [of authEnv closedState strangerRequest] mapRing_steady [of "ae_env authEnv" closedState, simplified]
    by (auto simp: no_token authenticates_def list_ex_iff)
qed

end
