(* ===== verification/BenchmarkRunner.thy ===== *)
theory BenchmarkRunner
  imports SetupHandlers
begin

text \<open>
  The benchmark runner of a subscriber (\<^verbatim>\<open>benchmark_runner_loop.go\<close> and \<^verbatim>\<open>benchmark_runner_synthetic.go\<close> of \<^verbatim>\<open>internal/httpapi\<close>): it claims jobs at its
  marshal, reports that it has started, makes up or measures a result, and delivers it. The marshal and the local Ollama are
  reached over the network, which is a parameter with a state of its own; the properties at the end put the handlers of the
  marshal itself in its place.
\<close>

section \<open>The network\<close>

text \<open>Both calls get the address and the body and answer with a status and a text, or not at all; a call to the marshal also carries the
  credential. \<open>rn_object\<close> and \<open>rn_generate\<close> decode the text, and \<open>rn_elapsed\<close> is the time the tasks of a job take.\<close>

record benchmarkRunnerOllamaGenerateResponse =
  gr_PromptEvalCount :: int
  gr_PromptEvalDuration :: int
  gr_EvalCount :: int
  gr_EvalDuration :: int

record 'w runner_net =
  rn_post :: "string \<Rightarrow> string \<Rightarrow> gobj \<Rightarrow> 'w \<Rightarrow> (string + int \<times> string) \<times> 'w"
  rn_ollama :: "string \<Rightarrow> gobj \<Rightarrow> 'w \<Rightarrow> (string + int \<times> string) \<times> 'w"
  rn_object :: "string \<Rightarrow> gobj option"
  rn_generate :: "string \<Rightarrow> benchmarkRunnerOllamaGenerateResponse option"
  rn_elapsed :: duration

definition benchmarkRunnerMaxResponseBodyBytes :: nat where "benchmarkRunnerMaxResponseBodyBytes = 1048576"

text \<open>An answer without a body leaves the target as it was, empty.\<close>

definition benchmarkRunnerPost :: "'w runner_net \<Rightarrow> string \<Rightarrow> string \<Rightarrow> gobj \<Rightarrow> 'w \<Rightarrow> gobj option \<times> 'w" where
  "benchmarkRunnerPost net url credential body w =
    (case rn_post net url credential (json_obj body) w of
       (Inl err, w) \<Rightarrow> (None, w)
     | (Inr (code, text0), w) \<Rightarrow>
        (let text = take benchmarkRunnerMaxResponseBodyBytes text0 in
         if code < 200 \<or> 300 \<le> code then (None, w)
         else if text = [] then (Some [], w)
         else (rn_object net text, w)))"

section \<open>Reading a job\<close>

definition benchmarkRunnerSyntheticModel :: string where "benchmarkRunnerSyntheticModel = ''synthetic-dry-run''"
definition benchmarkRunnerResultModeDryRun :: string where "benchmarkRunnerResultModeDryRun = ''subscriber_local_dry_run''"
definition benchmarkRunnerResultModeSynthetic :: string where "benchmarkRunnerResultModeSynthetic = ''subscriber_local_synthetic_builtin''"

definition benchmarkRunnerWorkloadMetadata :: "gobj \<Rightarrow> string \<times> int \<times> string" where
  "benchmarkRunnerWorkloadMetadata job =
    (let (suiteID, taskCount, fixtureManifestID) =
       (case field job ''workload_suite'' of
          GMap workload \<Rightarrow>
            (let value = safeBenchmarkString (benchmarkJobString (field workload ''suite_id'')) in
             (if value \<noteq> [] then value else defaultBenchmarkWorkloadSuiteID, benchmarkJobInt (field workload ''task_count'') 1,
              safeFixtureReference (benchmarkJobString (field workload ''fixture_manifest_id''))))
        | _ \<Rightarrow> (defaultBenchmarkWorkloadSuiteID, 1, []));
       taskCount = (if taskCount \<le> 0 then 1 else taskCount);
       taskCount = (if 50 < taskCount then 50 else taskCount) in
     (suiteID, taskCount, fixtureManifestID))"

definition first_model :: "string list \<Rightarrow> string option" where
  "first_model names = find (\<lambda>name. name \<noteq> []) (map safeBenchmarkString names)"

definition benchmarkRunnerModel :: "gobj \<Rightarrow> string" where
  "benchmarkRunnerModel job =
    (case (case field job ''model_candidates'' of
        GList vs \<Rightarrow> first_model (map benchmarkJobString vs) | GStrs names \<Rightarrow> first_model names | _ \<Rightarrow> None) of
       Some name \<Rightarrow> name | None \<Rightarrow> benchmarkRunnerSyntheticModel)"

definition benchmarkRunnerTaskIDsFromJob :: "gobj \<Rightarrow> string list" where
  "benchmarkRunnerTaskIDsFromJob job =
    (case field job ''workload_suite'' of
       GMap workload \<Rightarrow>
         filter (\<lambda>i. i \<noteq> []) (map safeBenchmarkString
           (case field workload ''task_ids'' of GStrs ids \<Rightarrow> ids | GList vs \<Rightarrow> map benchmarkJobString vs | _ \<Rightarrow> []))
     | _ \<Rightarrow> [])"

section \<open>Results\<close>

record benchmarkRunnerSyntheticTask =
  tk_ID :: string
  tk_Prompt :: string

definition benchmarkRunnerBuiltInSyntheticTasks :: "string \<Rightarrow> benchmarkRunnerSyntheticTask list" where
  "benchmarkRunnerBuiltInSyntheticTasks suiteID =
    (if suiteID = defaultBenchmarkWorkloadSuiteID then
       [\<lparr> tk_ID = ''short_chat'', tk_Prompt = ''Reply in one short sentence: local benchmark ready.'' \<rparr>,
        \<lparr> tk_ID = ''json_shape'', tk_Prompt = ''Return a compact JSON object with keys status and count. Use count 3.'' \<rparr>,
        \<lparr> tk_ID = ''tiny_summary'', tk_Prompt = ''Summarize this sentence in five words or fewer: Llama Wrangler routes local model work across trusted managed nodes.'' \<rparr>]
     else if suiteID = ''synthetic_code_v1'' then
       [\<lparr> tk_ID = ''code_explain'', tk_Prompt = ''In two sentences, explain what a bounded retry loop does in a queue worker.'' \<rparr>,
        \<lparr> tk_ID = ''code_transform'', tk_Prompt = ''Rewrite this JavaScript as concise TypeScript without changing behavior: function add(a,b){return a+b}'' \<rparr>]
     else [])"

definition benchmarkRunnerSyntheticTasksForJob :: "string \<Rightarrow> gobj \<Rightarrow> benchmarkRunnerSyntheticTask list" where
  "benchmarkRunnerSyntheticTasksForJob suiteID job =
    (let allowed = benchmarkRunnerTaskIDsFromJob job in
     filter (\<lambda>task. allowed = [] \<or> tk_ID task \<in> set allowed) (benchmarkRunnerBuiltInSyntheticTasks suiteID))"

definition boundedBenchmarkRunnerTokenCount :: "int \<Rightarrow> int" where
  "boundedBenchmarkRunnerTokenCount v = (if v < 0 then 0 else if 1000000 < v then 1000000 else v)"

definition nonNegativeInt64 :: "int \<Rightarrow> int" where
  "nonNegativeInt64 v = (if v < 0 then 0 else v)"

definition ratePerSecond :: "int \<Rightarrow> int \<Rightarrow> int \<Rightarrow> rat" where
  "ratePerSecond tokens durationNS fallbackDurationMS =
    (if tokens \<le> 0 then 0
     else
       let seconds = rat_of_int durationNS / rat_of_int second;
           seconds = (if seconds \<le> 0 \<and> 0 < fallbackDurationMS then rat_of_int fallbackDurationMS / 1000 else seconds) in
       if seconds \<le> 0 then 0 else rat_of_int tokens / seconds)"

text \<open>A duration in milliseconds, truncated towards zero.\<close>

definition Milliseconds :: "duration \<Rightarrow> int" where
  "Milliseconds d = (if 0 \<le> d then d div 1000000 else - (- d div 1000000))"

definition benchmarkRunnerFailedResult :: "gotime \<Rightarrow> duration \<Rightarrow> string \<Rightarrow> string \<Rightarrow> string \<Rightarrow> string \<Rightarrow> string \<Rightarrow> int \<Rightarrow> string \<Rightarrow> string \<Rightarrow> gobj" where
  "benchmarkRunnerFailedResult started elapsed nodeID benchmarkID model suiteID fixtureManifestID taskCount errorCode runnerMode =
    [(''node_id'', GStr nodeID), (''benchmark_id'', GStr benchmarkID), (''model'', GStr (safeBenchmarkString model)),
     (''status'', GStr ''failed''), (''started_at'', GTime started), (''completed_at'', GTime (started + elapsed)),
     (''duration_ms'', GInt (Milliseconds elapsed)), (''input_tokens'', GInt 0), (''generated_tokens'', GInt 0),
     (''tokens_per_second'', GInt 0), (''suite_id'', GStr (safeBenchmarkString suiteID)),
     (''task_count'', GInt (if taskCount \<le> 0 then 1 else taskCount)), (''runner_mode'', GStr (safeBenchmarkString runnerMode)),
     (''error_code'', GStr (safeBenchmarkString errorCode))] @
    (if fixtureManifestID \<noteq> [] then [(''fixture_manifest_id'', GStr fixtureManifestID)] else [])"

definition benchmarkRunnerDryRunResult :: "gotime \<Rightarrow> string \<Rightarrow> string \<Rightarrow> string \<Rightarrow> string \<Rightarrow> int \<Rightarrow> gobj \<Rightarrow> gobj" where
  "benchmarkRunnerDryRunResult now nodeID benchmarkID suiteID fixtureManifestID taskCount0 job =
    (let taskCount = (if taskCount0 \<le> 0 then 1 else taskCount0); durationMS = 100 + taskCount * 75;
         generatedTokens = taskCount * 24; tokensPerSecond = rat_of_int generatedTokens / (rat_of_int durationMS / 1000) in
     [(''node_id'', GStr nodeID), (''benchmark_id'', GStr benchmarkID), (''model'', GStr (benchmarkRunnerModel job)),
      (''status'', GStr ''completed''), (''started_at'', GTime (now - durationMS * 1000000)), (''completed_at'', GTime now),
      (''duration_ms'', GInt durationMS), (''input_tokens'', GInt (taskCount * 16)), (''generated_tokens'', GInt generatedTokens),
      (''tokens_per_second'', GFloat tokensPerSecond), (''output_tokens_per_second'', GFloat tokensPerSecond),
      (''suite_id'', GStr (safeBenchmarkString suiteID)), (''task_count'', GInt taskCount),
      (''runner_mode'', GStr benchmarkRunnerResultModeDryRun)] @
     (if fixtureManifestID \<noteq> [] then [(''fixture_manifest_id'', GStr fixtureManifestID)] else []))"

section \<open>Synthetic tasks\<close>

definition runBenchmarkRunnerSyntheticTask :: "'w runner_net \<Rightarrow> string \<Rightarrow> string \<Rightarrow> benchmarkRunnerSyntheticTask \<Rightarrow> 'w
    \<Rightarrow> benchmarkRunnerOllamaGenerateResponse option \<times> 'w" where
  "runBenchmarkRunnerSyntheticTask net url model task w =
    (let ollamaURL = TrimRight (CHR ''/'') (TrimSpace url) in
     if ollamaURL = [] then (None, w)
     else case rn_ollama net (ollamaURL @ ''/api/generate'')
         [(''model'', GStr (safeBenchmarkString model)), (''prompt'', GStr (tk_Prompt task)), (''stream'', GBool False),
          (''options'', GMap [(''num_predict'', GInt 64)])] w of
       (Inl err, w) \<Rightarrow> (None, w)
     | (Inr (code, text), w) \<Rightarrow>
        if code < 200 \<or> 300 \<le> code then (None, w)
        else (rn_generate net (take benchmarkRunnerMaxResponseBodyBytes text), w))"

text \<open>The totals of the loop over the tasks, 64-bit numbers.\<close>

record runner_totals =
  rs_input :: int
  rs_generated :: int
  rs_output_ns :: int
  rs_prefill_ns :: int

definition add_task :: "benchmarkRunnerOllamaGenerateResponse \<Rightarrow> runner_totals \<Rightarrow> runner_totals" where
  "add_task g t = \<lparr> rs_input = i64 (rs_input t + boundedBenchmarkRunnerTokenCount (gr_PromptEvalCount g)),
     rs_generated = i64 (rs_generated t + boundedBenchmarkRunnerTokenCount (gr_EvalCount g)),
     rs_output_ns = i64 (rs_output_ns t + nonNegativeInt64 (gr_EvalDuration g)),
     rs_prefill_ns = i64 (rs_prefill_ns t + nonNegativeInt64 (gr_PromptEvalDuration g)) \<rparr>"

fun run_tasks :: "'w runner_net \<Rightarrow> string \<Rightarrow> string \<Rightarrow> benchmarkRunnerSyntheticTask list \<Rightarrow> runner_totals \<Rightarrow> 'w \<Rightarrow> runner_totals option \<times> 'w" where
  "run_tasks net url model [] t w = (Some t, w)"
| "run_tasks net url model (task # tasks) t w =
    (case runBenchmarkRunnerSyntheticTask net url model task w of
       (None, w) \<Rightarrow> (None, w)
     | (Some g, w) \<Rightarrow> run_tasks net url model tasks (add_task g t) w)"

definition noTotals :: runner_totals where
  "noTotals = \<lparr> rs_input = 0, rs_generated = 0, rs_output_ns = 0, rs_prefill_ns = 0 \<rparr>"

text \<open>The result of tasks that were all answered.\<close>

definition measured_result :: "gotime \<Rightarrow> duration \<Rightarrow> string \<Rightarrow> string \<Rightarrow> string \<Rightarrow> string \<Rightarrow> nat \<Rightarrow> runner_totals \<Rightarrow> gobj" where
  "measured_result started elapsed nodeID benchmarkID model suiteID n t =
    (let durationMS = max 0 (Milliseconds elapsed);
         outputTokensPerSecond = ratePerSecond (rs_generated t) (rs_output_ns t) durationMS;
         prefillTokensPerSecond = ratePerSecond (rs_input t) (rs_prefill_ns t) durationMS;
         tokensPerSecond = (if outputTokensPerSecond = 0 then ratePerSecond (rs_generated t) (i64 (durationMS * 1000000)) durationMS
           else outputTokensPerSecond) in
     [(''node_id'', GStr nodeID), (''benchmark_id'', GStr benchmarkID), (''model'', GStr (safeBenchmarkString model)),
      (''status'', GStr ''completed''), (''started_at'', GTime started), (''completed_at'', GTime (started + elapsed)),
      (''duration_ms'', GInt durationMS), (''input_tokens'', GInt (rs_input t)), (''generated_tokens'', GInt (rs_generated t)),
      (''tokens_per_second'', GFloat tokensPerSecond), (''output_tokens_per_second'', GFloat outputTokensPerSecond),
      (''prefill_tokens_per_second'', GFloat prefillTokensPerSecond), (''suite_id'', GStr (safeBenchmarkString suiteID)),
      (''task_count'', GInt (int n)), (''runner_mode'', GStr benchmarkRunnerResultModeSynthetic)])"

definition benchmarkRunnerSyntheticResult :: "'w runner_net \<Rightarrow> gotime \<Rightarrow> string \<Rightarrow> string \<Rightarrow> string \<Rightarrow> string \<Rightarrow> string \<Rightarrow> int \<Rightarrow> gobj \<Rightarrow> 'w
    \<Rightarrow> gobj \<times> 'w" where
  "benchmarkRunnerSyntheticResult net started url nodeID benchmarkID suiteID fixtureManifestID taskCount job w =
    (let model = benchmarkRunnerModel job; elapsed = rn_elapsed net;
         failed = (\<lambda>tc code. benchmarkRunnerFailedResult started elapsed nodeID benchmarkID model suiteID fixtureManifestID tc code
           benchmarkRunnerResultModeSynthetic);
         tasks = benchmarkRunnerSyntheticTasksForJob suiteID job in
     if suiteID = localFixtureWorkloadSuiteID then (failed taskCount ''runner_fixture_execution_not_enabled'', w)
     else if tasks = [] then (failed taskCount ''runner_unsupported_suite'', w)
     else case run_tasks net url model tasks noTotals w of
       (None, w) \<Rightarrow> (failed (int (length tasks)) ''runner_ollama_request_failed'', w)
     | (Some t, w) \<Rightarrow> (measured_result started elapsed nodeID benchmarkID model suiteID (length tasks) t, w))"

section \<open>The loop\<close>

record benchmarkRunnerRun =
  bn_Status :: string
  bn_ErrorCode :: string
  bn_Claimed :: int
  bn_Completed :: int
  bn_Failed :: int
  bn_NoJob :: bool
  bn_BenchmarkID :: string
  bn_SuiteID :: string
  bn_TaskCount :: int

definition run_of :: "string \<Rightarrow> string \<Rightarrow> benchmarkRunnerRun" where
  "run_of st code = \<lparr> bn_Status = st, bn_ErrorCode = code, bn_Claimed = 0, bn_Completed = 0, bn_Failed = 0, bn_NoJob = False,
     bn_BenchmarkID = [], bn_SuiteID = [], bn_TaskCount = 0 \<rparr>"

definition benchmarkRunnerResult :: "'w runner_net \<Rightarrow> gotime \<Rightarrow> Config \<Rightarrow> string \<Rightarrow> string \<Rightarrow> string \<Rightarrow> string \<Rightarrow> int \<Rightarrow> gobj \<Rightarrow> BenchmarkRunnerConfig \<Rightarrow> 'w
    \<Rightarrow> gobj \<times> 'w" where
  "benchmarkRunnerResult net now cfg nodeID benchmarkID suiteID fixtureManifestID taskCount job rc w =
    (if br_Mode rc = ModeSyntheticBuiltin
     then benchmarkRunnerSyntheticResult net now (c_Ollama_URL cfg) nodeID benchmarkID suiteID fixtureManifestID taskCount job w
     else (benchmarkRunnerDryRunResult now nodeID benchmarkID suiteID fixtureManifestID taskCount job, w))"

text \<open>What a claim was answered with: a status and a job. The fields of the answer have types, so an answer with other values is not
  decoded.\<close>

definition claim_answer :: "gobj \<Rightarrow> (string \<times> gobj option) option" where
  "claim_answer m =
    (case (case field m ''status'' of GStr st \<Rightarrow> Some st | GNil \<Rightarrow> Some [] | _ \<Rightarrow> None,
           case field m ''job'' of GMap job \<Rightarrow> Some (Some job) | GNil \<Rightarrow> Some None | _ \<Rightarrow> None) of
       (Some st, Some job) \<Rightarrow> Some (st, job)
     | _ \<Rightarrow> None)"

definition runSubscriberBenchmarkRunnerJob :: "'w runner_net \<Rightarrow> gotime \<Rightarrow> Config \<Rightarrow> string \<Rightarrow> string \<Rightarrow> string \<Rightarrow> BenchmarkRunnerConfig \<Rightarrow> 'w
    \<Rightarrow> (benchmarkRunnerRun \<times> bool) \<times> 'w" where
  "runSubscriberBenchmarkRunnerJob net now cfg marshalURL credential nodeID rc w =
    (let failed = (\<lambda>code. (run_of ''failed'' code)\<lparr> bn_Failed := 1 \<rparr>) in
     case benchmarkRunnerPost net (marshalURL @ ''/subscriber/benchmarks/claim'') credential [(''node_id'', GStr nodeID)] w of
       (reply, w) \<Rightarrow>
     case Option.bind reply claim_answer of
       None \<Rightarrow> ((failed ''runner_claim_failed'', False), w)
     | Some (st, claimed) \<Rightarrow>
     if st = ''no_job'' then (((run_of ''no_job'' [])\<lparr> bn_NoJob := True \<rparr>, False), w)
     else case claimed of
       None \<Rightarrow> ((failed ''runner_malformed_claim'', False), w)
     | Some job \<Rightarrow>
     let benchmarkID = benchmarkJobString (field job ''benchmark_id'') in
     if st \<noteq> ''job_claimed'' \<or> benchmarkID = [] then ((failed ''runner_malformed_claim'', False), w)
     else
       let (suiteID, taskCount, fixtureManifestID) = benchmarkRunnerWorkloadMetadata job;
           named = (\<lambda>run. run\<lparr> bn_BenchmarkID := benchmarkID, bn_SuiteID := suiteID, bn_TaskCount := taskCount \<rparr>) in
     case benchmarkRunnerPost net (marshalURL @ ''/subscriber/benchmarks/status'') credential
         [(''node_id'', GStr nodeID), (''benchmark_id'', GStr benchmarkID), (''status'', GStr ''running'')] w of
       (None, w) \<Rightarrow> ((named (failed ''runner_status_update_failed''), False), w)
     | (Some _, w) \<Rightarrow>
     case benchmarkRunnerResult net now cfg nodeID benchmarkID suiteID fixtureManifestID taskCount job rc w of
       (resultBody, w) \<Rightarrow>
     case benchmarkRunnerPost net (marshalURL @ ''/subscriber/benchmarks'') credential resultBody w of
       (None, w) \<Rightarrow> ((named (failed ''runner_result_report_failed''), False), w)
     | (Some _, w) \<Rightarrow>
       if benchmarkJobString (field resultBody ''status'') = ''failed''
       then ((named ((failed (safeBenchmarkString (benchmarkJobString (field resultBody ''error_code''))))\<lparr> bn_Claimed := 1 \<rparr>), True), w)
       else ((named ((run_of ''completed'' [])\<lparr> bn_Claimed := 1, bn_Completed := 1 \<rparr>), True), w))"

text \<open>The loop of a tick, with the number of jobs that may still be claimed.\<close>

fun claim_jobs :: "('w \<Rightarrow> (benchmarkRunnerRun \<times> bool) \<times> 'w) \<Rightarrow> nat \<Rightarrow> benchmarkRunnerRun \<Rightarrow> 'w \<Rightarrow> benchmarkRunnerRun \<times> 'w" where
  "claim_jobs next 0 run w = (run, w)"
| "claim_jobs next (Suc n) run w =
    (case next w of
       ((claimed, shouldContinue), w) \<Rightarrow>
     let skipped = (bn_Status run = ''skipped'');
         named = run\<lparr> bn_Claimed := bn_Claimed run + bn_Claimed claimed, bn_Completed := bn_Completed run + bn_Completed claimed,
           bn_BenchmarkID := bn_BenchmarkID claimed, bn_SuiteID := bn_SuiteID claimed, bn_TaskCount := bn_TaskCount claimed \<rparr> in
     if bn_NoJob claimed then (run\<lparr> bn_NoJob := True, bn_Status := (if skipped then ''no_job'' else bn_Status run) \<rparr>, w)
     else if bn_ErrorCode claimed \<noteq> [] then
       (named\<lparr> bn_ErrorCode := bn_ErrorCode claimed, bn_Failed := bn_Failed run + bn_Failed claimed,
          bn_Status := (if skipped then ''failed'' else bn_Status run) \<rparr>, w)
     else if \<not> shouldContinue then (named\<lparr> bn_Status := ''completed'' \<rparr>, w)
     else claim_jobs next n (named\<lparr> bn_Status := ''completed'' \<rparr>) w)"

definition emitBenchmarkRunnerRun :: "'r sub_env \<Rightarrow> benchmarkRunnerRun \<Rightarrow> BenchmarkRunnerConfig \<Rightarrow> 'r server \<Rightarrow> 'r server" where
  "emitBenchmarkRunnerRun e run rc =
    emit_srv e ''subscriber_benchmark_runner_tick''
      [(''mode'', GStr (br_Mode rc)), (''enabled'', GBool (br_Enabled rc)), (''result_body_policy'', GStr (br_ResultBodyPolicy rc)),
       (''status'', GStr (bn_Status run)), (''error_code'', GStr (bn_ErrorCode run)), (''claimed'', GInt (bn_Claimed run)),
       (''completed'', GInt (bn_Completed run)), (''failed'', GInt (bn_Failed run)), (''no_job'', GBool (bn_NoJob run)),
       (''benchmark_id'', GStr (safeBenchmarkString (bn_BenchmarkID run))), (''suite_id'', GStr (safeBenchmarkString (bn_SuiteID run))),
       (''task_count'', GInt (bn_TaskCount run)), (''poll_interval_seconds'', GInt (br_PollIntervalSeconds rc)),
       (''max_jobs_per_tick'', GInt (br_MaxJobsPerTick rc))]"

definition benchmarkRunnerConfig :: "'r server \<Rightarrow> BenchmarkRunnerConfig" where
  "benchmarkRunnerConfig s = NormalizeBenchmarkRunnerConfig (cap_BenchmarkRunner (c_Capabilities (srv_cfg s)))"

definition marshal_url :: "Config \<Rightarrow> string" where
  "marshal_url cfg = TrimRight (CHR ''/'') (TrimSpace (reg_MarshalURL (c_Registration cfg)))"

text \<open>Why a tick claims nothing, if it does not.\<close>

definition runner_obstacle :: "Config \<Rightarrow> BenchmarkRunnerConfig \<Rightarrow> string option" where
  "runner_obstacle cfg rc =
    (if \<not> br_Enabled rc then Some ''runner_disabled''
     else if sv_Mode (c_Server cfg) \<noteq> ''subscriber'' then Some ''runner_requires_subscriber_mode''
     else if TrimSpace (nc_NodeID (c_Node cfg)) = [] then Some ''runner_missing_node_id''
     else if marshal_url cfg = [] then Some ''runner_missing_marshal_url''
     else if TrimSpace (reg_HeartbeatCredential (c_Registration cfg)) = [] then Some ''runner_missing_heartbeat_credential''
     else None)"

definition runSubscriberBenchmarkRunnerOnce :: "'r sub_env \<Rightarrow> 'w runner_net \<Rightarrow> BenchmarkRunnerConfig \<Rightarrow> 'r server \<Rightarrow> 'w
    \<Rightarrow> benchmarkRunnerRun \<times> 'r server \<times> 'w" where
  "runSubscriberBenchmarkRunnerOnce e net rc0 s w =
    (let rc = NormalizeBenchmarkRunnerConfig rc0; cfg = srv_cfg s in
     case runner_obstacle cfg rc of
       Some code \<Rightarrow> (run_of ''skipped'' code, emitBenchmarkRunnerRun e (run_of ''skipped'' code) rc s, w)
     | None \<Rightarrow>
        (case claim_jobs (runSubscriberBenchmarkRunnerJob net (be_now e) cfg (marshal_url cfg)
             (TrimSpace (reg_HeartbeatCredential (c_Registration cfg))) (TrimSpace (nc_NodeID (c_Node cfg))) rc)
             (nat (br_MaxJobsPerTick rc)) (run_of ''skipped'' []) w of
           (run, w) \<Rightarrow> (run, emitBenchmarkRunnerRun e run rc s, w)))"

text \<open>The ticks of the runner until the server stops, one for each element of the list: what the clock and the random source say then.\<close>

fun runSubscriberBenchmarkRunner :: "'r sub_env list \<Rightarrow> 'w runner_net \<Rightarrow> 'r server \<Rightarrow> 'w \<Rightarrow> 'r server \<times> 'w" where
  "runSubscriberBenchmarkRunner [] net s w = (s, w)"
| "runSubscriberBenchmarkRunner (e # es) net s w =
    (if br_Enabled (benchmarkRunnerConfig s) then
       (case runSubscriberBenchmarkRunnerOnce e net (benchmarkRunnerConfig s) s w of
          (run, s, w) \<Rightarrow> runSubscriberBenchmarkRunner es net s w)
     else runSubscriberBenchmarkRunner es net s w)"

section \<open>Bounds of a result\<close>

lemma token_bounds: "0 \<le> boundedBenchmarkRunnerTokenCount v" "boundedBenchmarkRunnerTokenCount v \<le> 1000000"
  by (simp_all add: boundedBenchmarkRunnerTokenCount_def)

lemma ratePerSecond_nonneg: "0 \<le> ratePerSecond tokens ns ms"
  by (auto simp: ratePerSecond_def Let_def intro!: divide_nonneg_nonneg)

lemma builtin_length: "length (benchmarkRunnerBuiltInSyntheticTasks suiteID) \<le> 3"
  by (simp add: benchmarkRunnerBuiltInSyntheticTasks_def)

lemma tasks_length: "length (benchmarkRunnerSyntheticTasksForJob suiteID job) \<le> 3"
  unfolding benchmarkRunnerSyntheticTasksForJob_def Let_def using builtin_length by (rule order_trans [OF length_filter_le])

definition totals_within :: "nat \<Rightarrow> runner_totals \<Rightarrow> bool" where
  "totals_within n t \<longleftrightarrow> 0 \<le> rs_input t \<and> rs_input t \<le> 1000000 * int n \<and> 0 \<le> rs_generated t \<and> rs_generated t \<le> 1000000 * int n"

lemma add_task_within:
  assumes "totals_within n t" "n \<le> 10"
  shows "totals_within (Suc n) (add_task g t)"
  using assms token_bounds [of "gr_PromptEvalCount g"] token_bounds [of "gr_EvalCount g"]
  by (auto simp: totals_within_def add_task_def i64_id)

lemma run_tasks_within:
  "fst (run_tasks net url model tasks t w) = Some t' \<Longrightarrow> totals_within n t \<Longrightarrow> n + length tasks \<le> 10 \<Longrightarrow>
     totals_within (n + length tasks) t'"
proof (induction tasks arbitrary: n t w)
  case (Cons task tasks)
  obtain g w1 where g: "runBenchmarkRunnerSyntheticTask net url model task w = (Some g, w1)"
    "fst (run_tasks net url model tasks (add_task g t) w1) = Some t'"
    using Cons.prems(1) by (auto split: prod.splits option.splits)
  have "totals_within (Suc n + length tasks) t'"
    by (rule Cons.IH [OF g(2) add_task_within]) (use Cons.prems in simp_all)
  then show ?case by simp
qed simp

text \<open>The numbers of a result, as the marshal reads them.\<close>

definition result_number :: "gobj \<Rightarrow> string \<Rightarrow> rat" where
  "result_number m k = (case field m k of GInt n \<Rightarrow> rat_of_int n | GFloat q \<Rightarrow> q | _ \<Rightarrow> 0)"

definition metric_fields :: "string list" where
  "metric_fields = [''node_id'', ''benchmark_id'', ''model'', ''status'', ''started_at'', ''completed_at'', ''duration_ms'', ''input_tokens'',
     ''generated_tokens'', ''tokens_per_second'', ''output_tokens_per_second'', ''prefill_tokens_per_second'', ''suite_id'', ''task_count'',
     ''runner_mode'', ''error_code'', ''fixture_manifest_id'']"

definition result_bounded :: "gobj \<Rightarrow> bool" where
  "result_bounded m \<longleftrightarrow>
    set (map fst m) \<subseteq> set metric_fields \<and>
    1 \<le> result_number m ''task_count'' \<and> result_number m ''task_count'' \<le> 50 \<and>
    0 \<le> result_number m ''input_tokens'' \<and> result_number m ''input_tokens'' \<le> 1000000 * result_number m ''task_count'' \<and>
    0 \<le> result_number m ''generated_tokens'' \<and> result_number m ''generated_tokens'' \<le> 1000000 * result_number m ''task_count'' \<and>
    0 \<le> result_number m ''tokens_per_second'' \<and> 0 \<le> result_number m ''output_tokens_per_second'' \<and>
    0 \<le> result_number m ''prefill_tokens_per_second''"

lemma failed_bounded:
  "tc \<le> 50 \<Longrightarrow> result_bounded (benchmarkRunnerFailedResult started elapsed nodeID benchmarkID model suiteID fixtureManifestID tc code mode)"
  by (simp add: result_bounded_def benchmarkRunnerFailedResult_def result_number_def metric_fields_def field_def goget_def)

lemma dry_run_bounded:
  "tc \<le> 50 \<Longrightarrow> result_bounded (benchmarkRunnerDryRunResult now nodeID benchmarkID suiteID fixtureManifestID tc job)"
  by (simp add: result_bounded_def benchmarkRunnerDryRunResult_def result_number_def metric_fields_def field_def goget_def Let_def)

lemma synthetic_bounded:
  assumes "tc \<le> 50"
  shows "result_bounded (fst (benchmarkRunnerSyntheticResult net started url nodeID benchmarkID suiteID fixtureManifestID tc job w))"
proof -
  let ?tasks = "benchmarkRunnerSyntheticTasksForJob suiteID job"
  note n = tasks_length [of suiteID job]
  show ?thesis
  proof (cases "suiteID = localFixtureWorkloadSuiteID \<or> ?tasks = [] \<or> fst (run_tasks net url (benchmarkRunnerModel job) ?tasks noTotals w) = None")
    case True
    then show ?thesis
      using assms n by (cases "run_tasks net url (benchmarkRunnerModel job) ?tasks noTotals w")
        (auto simp: benchmarkRunnerSyntheticResult_def Let_def failed_bounded)
  next
    case False
    then obtain t w' where r: "run_tasks net url (benchmarkRunnerModel job) ?tasks noTotals w = (Some t, w')"
      by (metis option.exhaust prod.collapse)
    have "totals_within (length ?tasks) t"
      using run_tasks_within [of net url "benchmarkRunnerModel job" ?tasks noTotals w t 0] r n
      by (simp add: totals_within_def noTotals_def)
    moreover have "1 \<le> length ?tasks" using False by (cases ?tasks) auto
    ultimately show ?thesis
      using False r n
      by (simp add: benchmarkRunnerSyntheticResult_def Let_def)
        (simp add: measured_result_def Let_def result_bounded_def result_number_def metric_fields_def field_def goget_def ratePerSecond_nonneg totals_within_def)
  qed
qed

lemma workload_count:
  "1 \<le> fst (snd (benchmarkRunnerWorkloadMetadata job))" "fst (snd (benchmarkRunnerWorkloadMetadata job)) \<le> 50"
  by (auto simp: benchmarkRunnerWorkloadMetadata_def Let_def case_prod_unfold split: gval.split)

text \<open>C34. What a runner delivers is bounded, whatever the marshal and the local Ollama answer: the result it posts names nothing
  but metrics, covers between one and fifty tasks, has at most a million tokens of each kind for a task, none of its counts
  has wrapped around, and its rates are not negative.\<close>

theorem runner_result_bounded:
  "case benchmarkRunnerWorkloadMetadata job of
     (suiteID, taskCount, fixtureManifestID) \<Rightarrow>
       result_bounded (fst (benchmarkRunnerResult net now cfg nodeID benchmarkID suiteID fixtureManifestID taskCount job rc w))"
  using workload_count(2) [of job]
  by (cases "benchmarkRunnerWorkloadMetadata job") (simp add: benchmarkRunnerResult_def synthetic_bounded dry_run_bounded)

section \<open>The account of a tick\<close>

text \<open>The run of one job claims at most one, and every claimed job is completed or failed.\<close>

definition job_run_ok :: "benchmarkRunnerRun \<times> bool \<Rightarrow> bool" where
  "job_run_ok r \<longleftrightarrow> (case r of (run, cont) \<Rightarrow>
     if bn_NoJob run then bn_ErrorCode run = [] \<and> bn_Claimed run = 0 \<and> bn_Completed run = 0 \<and> bn_Failed run = 0
     else if bn_ErrorCode run = [] then bn_Claimed run = 1 \<and> bn_Completed run = 1 \<and> bn_Failed run = 0
     else (bn_Claimed run = 0 \<or> bn_Claimed run = 1) \<and> bn_Completed run = 0 \<and> bn_Failed run = 1)"

lemma runner_words [simp]:
  "safeBenchmarkString ''runner_fixture_execution_not_enabled'' = ''runner_fixture_execution_not_enabled''"
  "safeBenchmarkString ''runner_unsupported_suite'' = ''runner_unsupported_suite''"
  "safeBenchmarkString ''runner_ollama_request_failed'' = ''runner_ollama_request_failed''"
  "benchmarkJobString (GStr ''failed'') = ''failed''" "benchmarkJobString (GStr ''completed'') = ''completed''"
  "benchmarkJobString (GStr ''runner_fixture_execution_not_enabled'') = ''runner_fixture_execution_not_enabled''"
  "benchmarkJobString (GStr ''runner_unsupported_suite'') = ''runner_unsupported_suite''"
  "benchmarkJobString (GStr ''runner_ollama_request_failed'') = ''runner_ollama_request_failed''"
  by code_simp+

text \<open>A result is made up, measured, or a failure with one of three codes.\<close>

lemma result_cases:
  obtains "fst (benchmarkRunnerResult net now cfg nodeID benchmarkID suiteID fixtureManifestID taskCount job rc w) =
      benchmarkRunnerDryRunResult now nodeID benchmarkID suiteID fixtureManifestID taskCount job"
  | n t where "fst (benchmarkRunnerResult net now cfg nodeID benchmarkID suiteID fixtureManifestID taskCount job rc w) =
      measured_result now (rn_elapsed net) nodeID benchmarkID (benchmarkRunnerModel job) suiteID n t"
  | tc code where "fst (benchmarkRunnerResult net now cfg nodeID benchmarkID suiteID fixtureManifestID taskCount job rc w) =
      benchmarkRunnerFailedResult now (rn_elapsed net) nodeID benchmarkID (benchmarkRunnerModel job) suiteID fixtureManifestID tc code
        benchmarkRunnerResultModeSynthetic"
    "code \<in> {''runner_fixture_execution_not_enabled'', ''runner_unsupported_suite'', ''runner_ollama_request_failed''}"
proof -
  let ?tasks = "benchmarkRunnerSyntheticTasksForJob suiteID job"
  obtain t w' where r: "run_tasks net (c_Ollama_URL cfg) (benchmarkRunnerModel job) ?tasks noTotals w = (t, w')" by fastforce
  show thesis
  proof (cases "br_Mode rc = ModeSyntheticBuiltin")
    case False
    then show thesis by (intro that(1)) (simp add: benchmarkRunnerResult_def)
  next
    case mode: True
    consider "suiteID = localFixtureWorkloadSuiteID" | "suiteID \<noteq> localFixtureWorkloadSuiteID" "?tasks = []"
      | "suiteID \<noteq> localFixtureWorkloadSuiteID" "?tasks \<noteq> []" by blast
    then show thesis
    proof cases
      case 1
      with mode show thesis by (intro that(3) [of taskCount "''runner_fixture_execution_not_enabled''"]) (simp_all add: benchmarkRunnerResult_def benchmarkRunnerSyntheticResult_def Let_def)
    next
      case 2
      with mode show thesis by (intro that(3) [of taskCount "''runner_unsupported_suite''"]) (simp_all add: benchmarkRunnerResult_def benchmarkRunnerSyntheticResult_def Let_def)
    next
      case 3
      with mode r show thesis
        by (cases t) (auto simp: benchmarkRunnerResult_def benchmarkRunnerSyntheticResult_def Let_def intro: that(2)
            that(3) [of "int (length ?tasks)" "''runner_ollama_request_failed''"])
    qed
  qed
qed

text \<open>A result has failed with a code, or is completed.\<close>

definition result_status :: "gobj \<Rightarrow> bool" where
  "result_status m \<longleftrightarrow> field m ''status'' = GStr ''completed'' \<or>
    field m ''status'' = GStr ''failed'' \<and> safeBenchmarkString (benchmarkJobString (field m ''error_code'')) \<noteq> []"

lemma result_fields:
  fixes net :: "'w runner_net"
  defines "m \<equiv> \<lambda>now cfg nodeID benchmarkID suiteID fixtureManifestID taskCount job rc w.
    fst (benchmarkRunnerResult net now cfg nodeID benchmarkID suiteID fixtureManifestID taskCount job rc w)"
  shows "result_status (m now cfg nodeID benchmarkID suiteID fixtureManifestID taskCount job rc w)"
    "field (m now cfg nodeID benchmarkID suiteID fixtureManifestID taskCount job rc w) ''benchmark_id'' = GStr benchmarkID"
    "field (m now cfg nodeID benchmarkID suiteID fixtureManifestID taskCount job rc w) ''node_id'' = GStr nodeID"
  unfolding m_def
  by (cases rule: result_cases [of net now cfg nodeID benchmarkID suiteID fixtureManifestID taskCount job rc w];
      auto simp: result_status_def measured_result_def Let_def benchmarkRunnerDryRunResult_def benchmarkRunnerFailedResult_def field_def goget_def)+

text \<open>The ways a job can go: it ends before its status is reported, or the report or the delivery fails, or the result is delivered.\<close>

lemma job_cases:
  fixes net :: "'w runner_net"
  assumes "runSubscriberBenchmarkRunnerJob net now cfg base cred nodeID rc w = (r, w')"
  obtains run where "r = (run, False)" "bn_NoJob run" "bn_ErrorCode run = []" "bn_Claimed run = 0" "bn_Completed run = 0" "bn_Failed run = 0"
  | run where "r = (run, False)" "\<not> bn_NoJob run" "bn_ErrorCode run \<noteq> []" "bn_Claimed run = 0" "bn_Completed run = 0" "bn_Failed run = 1"
  | run i suiteID fx tc job m0 w1 w2 m w3 m2 where "r = (run, True)" "\<not> bn_NoJob run" "bn_BenchmarkID run = i" "i \<noteq> []"
      "benchmarkRunnerPost net (base @ ''/subscriber/benchmarks/status'') cred
         [(''node_id'', GStr nodeID), (''benchmark_id'', GStr i), (''status'', GStr ''running'')] w1 = (Some m0, w2)"
      "benchmarkRunnerResult net now cfg nodeID i suiteID fx tc job rc w2 = (m, w3)"
      "benchmarkRunnerPost net (base @ ''/subscriber/benchmarks'') cred m w3 = (Some m2, w')"
      "w1 = snd (benchmarkRunnerPost net (base @ ''/subscriber/benchmarks/claim'') cred [(''node_id'', GStr nodeID)] w)"
      "if field m ''status'' = GStr ''failed'' then bn_ErrorCode run \<noteq> [] \<and> bn_Claimed run = 1 \<and> bn_Completed run = 0 \<and> bn_Failed run = 1
       else field m ''status'' = GStr ''completed'' \<and> bn_ErrorCode run = [] \<and> bn_Claimed run = 1 \<and> bn_Completed run = 1 \<and> bn_Failed run = 0"
proof -
  obtain reply w1 where c: "benchmarkRunnerPost net (base @ ''/subscriber/benchmarks/claim'') cred [(''node_id'', GStr nodeID)] w = (reply, w1)"
    by fastforce
  note run = assms [unfolded runSubscriberBenchmarkRunnerJob_def Let_def c prod.case]
  show thesis
  proof (cases "Option.bind reply claim_answer")
    case None
    then show thesis using run by (intro that(2) [of "fst r"]) (auto simp: run_of_def)
  next
    case (Some a)
    obtain st claimed where a: "a = (st, claimed)" by fastforce
    show thesis
    proof (cases "st = ''no_job''")
      case True
      then show thesis using run Some a by (intro that(1) [of "fst r"]) (auto simp: run_of_def)
    next
      case no: False
      show thesis
      proof (cases claimed)
        case None
        then show thesis using run Some a no by (intro that(2) [of "fst r"]) (auto simp: run_of_def)
      next
        case (Some job)
        define i where "i = benchmarkJobString (field job ''benchmark_id'')"
        note run = run [unfolded \<open>Option.bind reply claim_answer = Some a\<close> a option.case prod.case Some if_not_P [OF no] i_def [symmetric]]
        show thesis
        proof (cases "st \<noteq> ''job_claimed'' \<or> i = []")
          case True
          then show thesis using run by (intro that(2) [of "fst r"]) (auto simp: run_of_def)
        next
          case ok: False
          obtain suiteID tc fx where md: "benchmarkRunnerWorkloadMetadata job = (suiteID, tc, fx)" by (metis prod_cases3)
          obtain m0 w2 where s: "benchmarkRunnerPost net (base @ ''/subscriber/benchmarks/status'') cred
              [(''node_id'', GStr nodeID), (''benchmark_id'', GStr i), (''status'', GStr ''running'')] w1 = (m0, w2)" by fastforce
          obtain m w3 where res: "benchmarkRunnerResult net now cfg nodeID i suiteID fx tc job rc w2 = (m, w3)" by fastforce
          obtain m2 w4 where d: "benchmarkRunnerPost net (base @ ''/subscriber/benchmarks'') cred m w3 = (m2, w4)" by fastforce
          note run = run [unfolded if_not_P [OF ok] md prod.case s]
          have st: "result_status m" using result_fields(1) [of net now cfg nodeID i suiteID fx tc job rc w2] res by simp
          show thesis
          proof (cases "m0 = None \<or> m2 = None")
            case True
            then show thesis using run res d by (intro that(2) [of "fst r"]) (auto simp: run_of_def split: option.splits)
          next
            case False
            then obtain x y where xy: "m0 = Some x" "m2 = Some y" by auto
            note run = run [unfolded xy option.case res prod.case d]
            show thesis
              using run st ok s [unfolded xy] res d [unfolded xy] c
              by (intro that(3) [of "fst r" i w1 x w2 suiteID fx tc job m w3 y])
                (auto simp: run_of_def result_status_def split: if_splits)
          qed
        qed
      qed
    qed
  qed
qed

lemma job_run:
  "job_run_ok (fst (runSubscriberBenchmarkRunnerJob net now cfg base cred nodeID rc w))"
proof -
  obtain r w' where j: "runSubscriberBenchmarkRunnerJob net now cfg base cred nodeID rc w = (r, w')" by fastforce
  show ?thesis unfolding j fst_conv by (cases rule: job_cases [OF j]) (auto simp: job_run_ok_def split: if_splits)
qed

text \<open>The account of a tick, after some of the jobs it may claim.\<close>

definition account_ok :: "nat \<Rightarrow> benchmarkRunnerRun \<Rightarrow> bool" where
  "account_ok n run \<longleftrightarrow> 0 \<le> bn_Completed run \<and> bn_Completed run \<le> bn_Claimed run \<and>
    bn_Claimed run \<le> bn_Completed run + bn_Failed run \<and> bn_Completed run + bn_Failed run \<le> int n \<and>
    bn_Failed run = (if bn_ErrorCode run = [] then 0 else 1) \<and> (bn_Status run = ''completed'') = (0 < bn_Completed run)"

lemma claim_jobs_account:
  assumes "\<And>w. job_run_ok (fst (next w))" "account_ok k run" "bn_ErrorCode run = []" "bn_Status run \<in> {''skipped'', ''completed''}"
  shows "account_ok (k + n) (fst (claim_jobs next n run w)) \<and>
    (bn_Status (fst (claim_jobs next n run w)) = ''skipped'' \<longrightarrow> n = 0 \<and> bn_Status run = ''skipped'')"
  using assms(2-)
proof (induction n arbitrary: k run w)
  case (Suc n)
  obtain claimed cont w' where nx: "next w = ((claimed, cont), w')" by (metis prod.collapse)
  have ok: "job_run_ok (claimed, cont)" using assms(1) [of w] nx by simp
  define named where "named = run\<lparr> bn_Claimed := bn_Claimed run + bn_Claimed claimed, bn_Completed := bn_Completed run + bn_Completed claimed,
    bn_BenchmarkID := bn_BenchmarkID claimed, bn_SuiteID := bn_SuiteID claimed, bn_TaskCount := bn_TaskCount claimed \<rparr>"
  show ?case
  proof (cases "bn_NoJob claimed \<or> bn_ErrorCode claimed \<noteq> []")
    case True
    then have "fst (claim_jobs next (Suc n) run w) =
        (if bn_NoJob claimed then run\<lparr> bn_NoJob := True, bn_Status := (if bn_Status run = ''skipped'' then ''no_job'' else bn_Status run) \<rparr>
         else named\<lparr> bn_ErrorCode := bn_ErrorCode claimed, bn_Failed := bn_Failed run + bn_Failed claimed,
           bn_Status := (if bn_Status run = ''skipped'' then ''failed'' else bn_Status run) \<rparr>)"
      using nx by (auto simp: Let_def named_def)
    then show ?thesis
      using True ok Suc.prems by (cases "bn_NoJob claimed") (auto simp: account_ok_def job_run_ok_def named_def)
  next
    case False
    then have c: "bn_Claimed claimed = 1" "bn_Completed claimed = 1" "bn_Failed claimed = 0" using ok by (simp_all add: job_run_ok_def)
    have acc: "account_ok (Suc k) (named\<lparr> bn_Status := ''completed'' \<rparr>)" using Suc.prems c by (auto simp: account_ok_def named_def)
    have "account_ok (Suc k + n) (named\<lparr> bn_Status := ''completed'' \<rparr>)" using acc by (simp add: account_ok_def)
    moreover note Suc.IH [OF acc, of w'] Suc.prems(2)
    ultimately show ?thesis using False nx
      by (cases cont) (simp_all add: Let_def named_def [symmetric], simp_all add: named_def)
  qed
qed simp

text \<open>The account of a tick: it claims at most as many jobs as its configuration allows, and never more than five; every claimed job is
  counted once, as completed or as failed, at most one has failed, and a tick with no job completed does not call itself completed. If the
  runner is switched off, has no marshal or has no credential, the tick does not touch the network and says why.\<close>

theorem runner_account:
  "let run = fst (runSubscriberBenchmarkRunnerOnce e net rc s w); limit = br_MaxJobsPerTick (NormalizeBenchmarkRunnerConfig rc) in
   limit \<le> 5 \<and>
   (case runner_obstacle (srv_cfg s) (NormalizeBenchmarkRunnerConfig rc) of
      Some code \<Rightarrow> run = run_of ''skipped'' code \<and> snd (snd (runSubscriberBenchmarkRunnerOnce e net rc s w)) = w
    | None \<Rightarrow> account_ok (nat limit) run \<and> bn_Status run \<noteq> ''skipped'')"
proof -
  let ?rc = "NormalizeBenchmarkRunnerConfig rc" and ?cfg = "srv_cfg s"
  let ?next = "runSubscriberBenchmarkRunnerJob net (be_now e) ?cfg (marshal_url ?cfg) (TrimSpace (reg_HeartbeatCredential (c_Registration ?cfg)))
    (TrimSpace (nc_NodeID (c_Node ?cfg))) ?rc"
  have lim: "1 \<le> br_MaxJobsPerTick ?rc" "br_MaxJobsPerTick ?rc \<le> 5"
    by (simp_all add: NormalizeBenchmarkRunnerConfig_def Let_def boundedInt_def)
  show ?thesis
  proof (cases "runner_obstacle ?cfg ?rc")
    case (Some code)
    then show ?thesis using lim by (simp add: runSubscriberBenchmarkRunnerOnce_def Let_def run_of_def account_ok_def)
  next
    case None
    have "account_ok (0 + nat (br_MaxJobsPerTick ?rc)) (fst (claim_jobs ?next (nat (br_MaxJobsPerTick ?rc)) (run_of ''skipped'' []) w)) \<and>
        (bn_Status (fst (claim_jobs ?next (nat (br_MaxJobsPerTick ?rc)) (run_of ''skipped'' []) w)) = ''skipped'' \<longrightarrow>
           nat (br_MaxJobsPerTick ?rc) = 0 \<and> bn_Status (run_of ''skipped'' []) = ''skipped'')"
      by (rule claim_jobs_account) (simp_all add: job_run account_ok_def run_of_def)
    then show ?thesis using lim None
      by (auto simp: runSubscriberBenchmarkRunnerOnce_def Let_def case_prod_unfold)
  qed
qed

section \<open>Runner and marshal\<close>

text \<open>What the runner relies on: a marshal that accepts the report that a job is running has the job on its board, and one that accepts a
  completed result has closed it. \<open>ok\<close> is the invariant of the marshal.\<close>

locale benchmark_board =
  fixes net :: "'w runner_net" and base cred nodeID :: string
    and ok :: "'w \<Rightarrow> bool" and on_board closed :: "'w \<Rightarrow> string \<Rightarrow> bool"
  assumes claims: "ok w \<Longrightarrow> ok (snd (benchmarkRunnerPost net (base @ ''/subscriber/benchmarks/claim'') cred [(''node_id'', GStr nodeID)] w))"
    and started: "ok w \<Longrightarrow> benchmarkRunnerPost net (base @ ''/subscriber/benchmarks/status'') cred
      [(''node_id'', GStr nodeID), (''benchmark_id'', GStr i), (''status'', GStr ''running'')] w = (Some m, w') \<Longrightarrow> ok w' \<and> on_board w' i"
    and measured: "ok w \<Longrightarrow> on_board w i \<Longrightarrow> rn_ollama net url body w = (x, w') \<Longrightarrow> ok w' \<and> on_board w' i"
    and delivered: "ok w \<Longrightarrow> on_board w i \<Longrightarrow> i \<noteq> [] \<Longrightarrow> field body ''benchmark_id'' = GStr i \<Longrightarrow> field body ''node_id'' = GStr nodeID \<Longrightarrow>
      field body ''status'' = GStr ''completed'' \<Longrightarrow> benchmarkRunnerPost net (base @ ''/subscriber/benchmarks'') cred body w = (Some m, w') \<Longrightarrow>
      ok w' \<and> closed w' i"
begin

lemma run_tasks_board: "ok w \<Longrightarrow> on_board w i \<Longrightarrow> run_tasks net url model tasks t w = (x, w') \<Longrightarrow> ok w' \<and> on_board w' i"
proof (induction tasks arbitrary: t w)
  case (Cons task tasks)
  obtain g w1 where g: "runBenchmarkRunnerSyntheticTask net url model task w = (g, w1)" by fastforce
  then have "ok w1 \<and> on_board w1 i"
    using Cons.prems(1,2) by (auto simp: runBenchmarkRunnerSyntheticTask_def Let_def dest: measured split: if_splits prod.splits sum.splits)
  then show ?case using Cons g by (cases g) auto
qed simp

lemma result_board:
  assumes "ok w" "on_board w i" "benchmarkRunnerResult net now cfg nodeID i suiteID fx tc job rc w = (m, w')"
  shows "ok w' \<and> on_board w' i"
proof -
  let ?tasks = "benchmarkRunnerSyntheticTasksForJob suiteID job"
  obtain t w1 where r: "run_tasks net (c_Ollama_URL cfg) (benchmarkRunnerModel job) ?tasks noTotals w = (t, w1)" by fastforce
  have "w' = w \<or> w' = w1"
    using assms(3) r by (auto simp: benchmarkRunnerResult_def benchmarkRunnerSyntheticResult_def Let_def split: if_splits option.splits)
  then show ?thesis using run_tasks_board [OF assms(1,2) r] assms(1,2) by blast
qed

lemma completed_is_closed:
  assumes "ok w" "runSubscriberBenchmarkRunnerJob net now cfg base cred nodeID rc w = ((run, cont), w')" "bn_Completed run \<noteq> 0"
  shows "closed w' (bn_BenchmarkID run)"
proof (cases rule: job_cases [OF assms(2)])
  case (3 run' i suiteID fx tc job m0 w1 w2 m w3 m2)
  have "ok w1" using claims [OF assms(1)] 3(8) by simp
  then have "ok w2 \<and> on_board w2 i" using started 3(5) by blast
  then have w3: "ok w3 \<and> on_board w3 i" using result_board 3(6) by blast
  have "field m ''benchmark_id'' = GStr i" "field m ''node_id'' = GStr nodeID"
    using result_fields(2,3) [of net now cfg nodeID i suiteID fx tc job rc w2] 3(6) by simp_all
  moreover have "field m ''status'' = GStr ''completed''" using 3(1,9) assms(3) by (auto split: if_splits)
  ultimately show ?thesis using delivered w3 3(1,3,4,7) by auto
qed (use assms(3) in auto)

end

lemma with_reporter_200:
  assumes "jr_status (with_reporter e r i k s) = 200" "store_wf (at_store s)" "i \<noteq> []"
  obtains node s1 where "jr_status (k node s1) = 200" "jr_state (with_reporter e r i k s) = jr_state (k node s1)" "n_NodeID node = i"
    "job_list node = stored_jobs s i"
proof -
  obtain res s1 where r: "reporting_node e r i s = (res, s1)" by fastforce
  obtain node where n: "res = Inr node"
    using assms(1) r by (cases res) (auto simp: with_reporter_def job_answer_def reporting_node_def split: option.splits if_splits prod.splits)
  show thesis
    using that [of node s1] assms(1) r n reporting_node_jobs(1,2) [OF r [unfolded n] assms(3,2)] by (simp add: with_reporter_def)
qed

lemma as_string_json: "as_string v = x \<Longrightarrow> x \<noteq> [] \<Longrightarrow> as_string (json_val v) = x"
  by (cases v) (auto simp: as_string_def)

text \<open>The job that was written last is on the board.\<close>

lemma put_job_stored:
  assumes "upsert e node s = (err, s')" "n_NodeID node \<noteq> []" "job_field node = GMaps (upsertBenchmarkJob v job)"
  shows "json_obj job \<in> set (stored_jobs s' (n_NodeID node))"
proof -
  have "stored_jobs s' (n_NodeID node) = map json_obj (upsertBenchmarkJob v job)"
    using node_of_upsert [OF assms(1,2)] jobs_written [OF assms(3)] by simp
  then show ?thesis by (simp add: upsertBenchmarkJob_def Let_def maxBenchmarkJobs_def)
qed

lemma running_job_id: "field (report_job now p ''running'' code job) ''benchmark_id'' = field job ''benchmark_id''"
  by (simp add: report_job_def Let_def field_puts)

lemma status_accepted:
  assumes "jr_status (with_reporter e r nodeID (reporting e i ''running'' code) s) = 200" "store_wf (at_store s)" "nodeID \<noteq> []" "i \<noteq> []"
  shows "\<exists>job \<in> set (stored_jobs (jr_state (with_reporter e r nodeID (reporting e i ''running'' code) s)) nodeID).
    as_string (field job ''benchmark_id'') = i"
proof (rule with_reporter_200 [OF assms(1-3)])
  fix node s1
  assume k: "jr_status (reporting e i ''running'' code node s1) = 200"
      "jr_state (with_reporter e r nodeID (reporting e i ''running'' code) s) = jr_state (reporting e i ''running'' code node s1)"
    and node: "n_NodeID node = nodeID"
  obtain job0 where f: "findBenchmarkJob node i = Some job0" using k(1) by (auto simp: reporting_def job_answer_def split: option.splits)
  let ?job = "report_job (be_now e) (benchmarkSchedulerConfig s1) ''running'' code job0"
  define node' where "node' = put_job ?job (observe [(''benchmark_status'', GStr ''running''), (''benchmark_id'', GStr i),
    (''benchmark_updated_at'', GTime (be_now e))] node)"
  obtain err s2 where up: "upsert e node' s1 = (err, s2)" by fastforce
  have "node_of (jr_state (reporting e i ''running'' code node s1)) nodeID = node_of s2 nodeID"
    using f up by (simp add: reporting_def Let_def node'_def [symmetric] split: option.split)
  then have "json_obj ?job \<in> set (stored_jobs (jr_state (with_reporter e r nodeID (reporting e i ''running'' code) s)) nodeID)"
    using put_job_stored [OF up] put_job_field node assms(3) k(2) by (simp add: node'_def)
  moreover have "as_string (field job0 ''benchmark_id'') = i" using f by (auto simp: findBenchmarkJob_def find_Some_iff)
  then have "as_string (field (json_obj ?job) ''benchmark_id'') = i" using as_string_json assms(4) by (simp add: running_job_id)
  ultimately show ?thesis by blast
qed

lemma finish_id: "field (finish_job now result job) ''benchmark_id'' = field job ''benchmark_id''"
  by (simp add: finish_job_def Let_def copy_keys_field result_keys_def field_puts del: fold.simps)

definition job_closed :: "string \<Rightarrow> gobj \<Rightarrow> bool" where
  "job_closed i job \<longleftrightarrow> as_string (field job ''benchmark_id'') = i \<and> field job ''status'' = GStr ''completed'' \<and> phase_of job = Closed"

lemma result_accepted:
  assumes "jr_status (with_reporter e r nodeID (delivering e b) s) = 200" "store_wf (at_store s)" "nodeID \<noteq> []"
    and "safeBenchmarkString (rr_BenchmarkID b) = i" "i \<noteq> []" "safeBenchmarkStatus (rr_Status b) = ''completed''"
    and "job \<in> set (stored_jobs s nodeID)" "as_string (field job ''benchmark_id'') = i"
  shows "\<exists>job \<in> set (stored_jobs (jr_state (with_reporter e r nodeID (delivering e b) s)) nodeID). job_closed i job"
proof (rule with_reporter_200 [OF assms(1-3)])
  fix node s1
  assume k: "jr_status (delivering e b node s1) = 200"
      "jr_state (with_reporter e r nodeID (delivering e b) s) = jr_state (delivering e b node s1)"
    and node: "n_NodeID node = nodeID" "job_list node = stored_jobs s nodeID"
  let ?now = "be_now e"
  define result where "result = benchmarkResultMap ?now (e_random (ae_env (be_auth e))) b CapabilitySourceSubscriberReported ''subscriber_reported''"
  define node1 where "node1 = applyBenchmarkResult ?now result CapabilitySourceSubscriberReported node"
  have trim: "TrimSpace (rr_BenchmarkID b) \<noteq> []" using assms(4,5) by (auto simp: safeBenchmarkString_def Let_def redaction_markers_def)
  have "safeBenchmarkString (TrimSpace (rr_BenchmarkID b)) = i" using assms(4) by (simp add: safeBenchmarkString_def)
  then have res: "as_string (field result ''benchmark_id'') = i" "field result ''status'' = GStr ''completed''"
    using trim assms(6) by (simp_all add: result_def benchmarkResultMap_def field_def goget_def defaultString_def)
  have jobs: "job_list node1 = stored_jobs s nodeID" using node(2) by (simp add: node1_def job_list_job_field)
  then have "findBenchmarkJob node1 i \<noteq> None" using assms(7,8) by (simp add: findBenchmarkJob_def find_None_iff) blast
  then obtain job0 where f: "findBenchmarkJob node1 i = Some job0" by blast
  then have id0: "as_string (field job0 ''benchmark_id'') = i" by (auto simp: findBenchmarkJob_def find_Some_iff)
  let ?job = "finish_job ?now result job0"
  define node3 where "node3 = (if 0 < rr_TokensPerSecond b
    then updateModelBenchmarkRate (safeBenchmarkString (rr_Model b)) (rr_TokensPerSecond b) (put_job ?job node1) else put_job ?job node1)"
  obtain err s2 where up: "upsert e node3 s1 = (err, s2)" by fastforce
  have node2: "completeBenchmarkJobWithResult ?now result node1 = put_job ?job node1"
    using f assms(5) res(1) by (simp add: completeBenchmarkJobWithResult_def Let_def)
  have "node_of (jr_state (delivering e b node s1)) nodeID = node_of s2 nodeID"
    using up unfolding delivering_def Let_def result_def [symmetric] node1_def [symmetric] node2 node3_def by (simp split: option.split)
  moreover have "n_NodeID node3 = nodeID" "job_field node3 = GMaps (upsertBenchmarkJob (job_field node1) ?job)"
    using node by (simp_all add: node3_def node1_def job_field_def) (simp_all add: put_job_field flip: job_field_def)
  ultimately have "json_obj ?job \<in> set (stored_jobs (jr_state (with_reporter e r nodeID (delivering e b) s)) nodeID)"
    using put_job_stored [OF up] assms(3) k(2) by simp
  moreover have "job_closed i (json_obj ?job)"
    using id0 assms(5) as_string_json [of "field job0 ''benchmark_id''" i] res(2)
    by (simp add: job_closed_def finish_id finish_fields phase_of_def Let_def)
  ultimately show ?thesis by blast
qed

text \<open>The marshal as the network of its runner: the three handlers, with the bodies as they are decoded, and the answers as they are encoded.
  The local Ollama does not change the marshal.\<close>

definition job_request_of :: "gobj \<Rightarrow> subscriberBenchmarkJobRequest" where
  "job_request_of m = \<lparr> jq_NodeID = as_string (field m ''node_id''), jq_BenchmarkID = as_string (field m ''benchmark_id''),
     jq_Status = as_string (field m ''status''), jq_ErrorCode = as_string (field m ''error_code'') \<rparr>"

definition time_or_zero :: "gval \<Rightarrow> gotime" where
  "time_or_zero v = (case as_time v of None \<Rightarrow> 0 | Some t \<Rightarrow> t)"

definition result_request_of :: "gobj \<Rightarrow> subscriberBenchmarkResultRequest" where
  "result_request_of m = \<lparr> rr_NodeID = as_string (field m ''node_id''), rr_BenchmarkID = as_string (field m ''benchmark_id''),
     rr_Model = as_string (field m ''model''), rr_Status = as_string (field m ''status''), rr_StartedAt = time_or_zero (field m ''started_at''),
     rr_CompletedAt = time_or_zero (field m ''completed_at''), rr_DurationMS = benchmarkJobInt (field m ''duration_ms'') 0,
     rr_InputTokens = benchmarkJobInt (field m ''input_tokens'') 0, rr_GeneratedTokens = benchmarkJobInt (field m ''generated_tokens'') 0,
     rr_TokensPerSecond = result_number m ''tokens_per_second'', rr_OutputTokensPerSecond = result_number m ''output_tokens_per_second'',
     rr_PrefillTokensPerSecond = result_number m ''prefill_tokens_per_second'', rr_ErrorCode = as_string (field m ''error_code''),
     rr_SuiteID = as_string (field m ''suite_id''), rr_TaskCount = benchmarkJobInt (field m ''task_count'') 0,
     rr_FixtureManifestID = as_string (field m ''fixture_manifest_id''), rr_RunnerMode = as_string (field m ''runner_mode'') \<rparr>"

text \<open>The reply to a claim, without its third part: the record of the node, which the runner does not read.\<close>

definition claim_reply :: "'r job_result \<Rightarrow> gobj" where
  "claim_reply res =
    (case jr_job res of
       None \<Rightarrow> [(''status'', GStr ''no_job'')]
     | Some job \<Rightarrow> [(''status'', GStr ''job_claimed''), (''job'', GMap job)])"

definition marshal_post :: "'r sub_env \<Rightarrow> (gobj \<Rightarrow> string) \<Rightarrow> string \<Rightarrow> string \<Rightarrow> string \<Rightarrow> gobj \<Rightarrow> 'r auth_state
    \<Rightarrow> (string + int \<times> string) \<times> 'r auth_state" where
  "marshal_post e enc base url cred body s =
    (let answered = (\<lambda>reply res. (Inr (jr_status res, enc (json_obj (reply res))), jr_state res)); r = reportRequest cred in
     if url = base @ ''/subscriber/benchmarks/claim'' then answered claim_reply (subscriberBenchmarkJobClaim e r (Some (job_request_of body)) s)
     else if url = base @ ''/subscriber/benchmarks/status'' then
       answered (\<lambda>res. [(''status'', GStr ''ok'')]) (subscriberBenchmarkJobStatus e r (Some (job_request_of body)) s)
     else if url = base @ ''/subscriber/benchmarks'' then
       answered (\<lambda>res. [(''status'', GStr ''ok'')]) (subscriberBenchmarkResult e r (Some (result_request_of body)) s)
     else (Inr (404, []), s))"

definition marshal_net :: "'r sub_env \<Rightarrow> (gobj \<Rightarrow> string) \<Rightarrow> (string \<Rightarrow> gobj option) \<Rightarrow> (string \<Rightarrow> gobj \<Rightarrow> string + int \<times> string)
    \<Rightarrow> (string \<Rightarrow> benchmarkRunnerOllamaGenerateResponse option) \<Rightarrow> duration \<Rightarrow> string \<Rightarrow> 'r auth_state runner_net" where
  "marshal_net e enc dec oll gen elapsed base = \<lparr> rn_post = marshal_post e enc base, rn_ollama = (\<lambda>url body s. (oll url body, s)),
     rn_object = dec, rn_generate = gen, rn_elapsed = elapsed \<rparr>"

definition job_on_board :: "string \<Rightarrow> 'r auth_state \<Rightarrow> string \<Rightarrow> bool" where
  "job_on_board nodeID s i \<longleftrightarrow> TrimSpace nodeID \<noteq> [] \<and> safeBenchmarkString i \<noteq> [] \<and>
    (\<exists>job \<in> set (stored_jobs s (TrimSpace nodeID)). as_string (field job ''benchmark_id'') = safeBenchmarkString i)"

definition closed_on_board :: "string \<Rightarrow> 'r auth_state \<Rightarrow> string \<Rightarrow> bool" where
  "closed_on_board nodeID s i \<longleftrightarrow> list_ex (job_closed (safeBenchmarkString i)) (stored_jobs s (TrimSpace nodeID))"

lemma post_marshal:
  "benchmarkRunnerPost (marshal_net e enc dec oll gen elapsed base) url cred body s =
    (case marshal_post e enc base url cred (json_obj body) s of
       (Inr (code, text), s') \<Rightarrow>
         (if code < 200 \<or> 300 \<le> code then None
          else if take benchmarkRunnerMaxResponseBodyBytes text = [] then Some []
          else dec (take benchmarkRunnerMaxResponseBodyBytes text), s')
     | (Inl err, s') \<Rightarrow> (None, s'))"
  by (auto simp: benchmarkRunnerPost_def marshal_net_def Let_def split: prod.split sum.split)

lemma reporter_accepts:
  assumes "200 \<le> jr_status (with_reporter e r i k s)" "jr_status (with_reporter e r i k s) < 300"
    "\<And>node s1. jr_status (k node s1) \<in> {200, 404, 500}"
  shows "jr_status (with_reporter e r i k s) = 200"
proof -
  have "fst (reporting_node e r i s) = Inl st \<Longrightarrow> st \<in> {400, 401, 404}" for st
    by (auto simp: reporting_node_def split: option.splits if_splits prod.splits)
  then show ?thesis
    using assms by (fastforce simp: with_reporter_def job_answer_def split: prod.splits sum.splits)
qed

lemma report_codes:
  "jr_status (reporting e i st code node s) \<in> {200, 404, 500}" "jr_status (delivering e b node s) \<in> {200, 404, 500}"
  by (auto simp: reporting_def delivering_def job_answer_def Let_def split: option.split prod.split)

lemma runner_status_words [simp]: "safeBenchmarkStatus ''running'' = ''running''" "benchmarkJobStatusAllowed ''running''"
    "safeBenchmarkStatus ''completed'' = ''completed''"
  by code_simp+

interpretation board: benchmark_board "marshal_net e enc dec oll gen elapsed base" base cred nodeID
  "\<lambda>s. store_wf (at_store s) \<and> be_now e \<noteq> 0" "job_on_board nodeID" "closed_on_board nodeID"
  for e enc dec oll gen elapsed base cred nodeID
proof
  let ?net = "marshal_net e enc dec oll gen elapsed base" and ?r = "reportRequest cred"
  let ?ok = "\<lambda>s. store_wf (at_store s) \<and> be_now e \<noteq> 0"
  fix s :: "'a auth_state"
  have url: "base @ ''/subscriber/benchmarks/status'' \<noteq> base @ ''/subscriber/benchmarks/claim''"
    "base @ ''/subscriber/benchmarks'' \<noteq> base @ ''/subscriber/benchmarks/claim''"
    "base @ ''/subscriber/benchmarks'' \<noteq> base @ ''/subscriber/benchmarks/status''" by simp_all
  show "?ok (snd (benchmarkRunnerPost ?net (base @ ''/subscriber/benchmarks/claim'') cred [(''node_id'', GStr nodeID)] s))" if "?ok s"
    using that claim_job.reported_wf [of e s ?r]
    by (simp add: post_marshal marshal_post_def subscriberBenchmarkJobClaim_def)
  show "?ok s' \<and> job_on_board nodeID s' i"
    if "?ok s" "benchmarkRunnerPost ?net (base @ ''/subscriber/benchmarks/status'') cred
      [(''node_id'', GStr nodeID), (''benchmark_id'', GStr i), (''status'', GStr ''running'')] s = (Some m, s')" for i m s'
  proof -
    define b where "b = job_request_of (json_obj [(''node_id'', GStr nodeID), (''benchmark_id'', GStr i), (''status'', GStr ''running'')])"
    have b: "jq_NodeID b = nodeID" "jq_BenchmarkID b = i" "jq_Status b = ''running''"
      by (simp_all add: b_def job_request_of_def) (simp_all add: field_def goget_def)
    let ?res = "subscriberBenchmarkJobStatus e ?r (Some b) s"
    have p: "marshal_post e enc base (base @ ''/subscriber/benchmarks/status'') cred
        (json_obj [(''node_id'', GStr nodeID), (''benchmark_id'', GStr i), (''status'', GStr ''running'')]) s =
        (Inr (jr_status ?res, enc (json_obj [(''status'', GStr ''ok'')])), jr_state ?res)"
      unfolding marshal_post_def Let_def if_not_P [OF url(1)] b_def by simp
    have code: "200 \<le> jr_status ?res" "jr_status ?res < 300" and s': "s' = jr_state ?res"
      using that(2) unfolding post_marshal p by (auto split: if_splits)
    let ?k = "reporting e (safeBenchmarkString i) ''running'' (jq_ErrorCode b)"
    have ne: "TrimSpace nodeID \<noteq> []" "safeBenchmarkString i \<noteq> []"
      using code(2) code(1) by (auto simp: subscriberBenchmarkJobStatus_def b Let_def job_answer_def)
    have res: "?res = with_reporter e ?r (TrimSpace nodeID) ?k s" using ne by (simp add: subscriberBenchmarkJobStatus_def b Let_def)
    have ok: "jr_status (with_reporter e ?r (TrimSpace nodeID) ?k s) = 200"
      using reporter_accepts [OF code [unfolded res] report_codes(1)] .
    show ?thesis
      using status_accepted [OF ok _ ne] report_job.reported_wf [of e s ?r] that(1) ne
      by (simp add: s' res job_on_board_def)
  qed
  show "?ok s' \<and> job_on_board nodeID s' i" if "?ok s" "job_on_board nodeID s i" "rn_ollama ?net u body s = (x, s')" for i u body x s'
    using that by (simp add: marshal_net_def)
  show "?ok s' \<and> closed_on_board nodeID s' i"
    if "?ok s" "job_on_board nodeID s i" "i \<noteq> []" "field body ''benchmark_id'' = GStr i" "field body ''node_id'' = GStr nodeID"
      "field body ''status'' = GStr ''completed''" "benchmarkRunnerPost ?net (base @ ''/subscriber/benchmarks'') cred body s = (Some m, s')"
    for i body m s'
  proof -
    define b where "b = result_request_of (json_obj body)"
    have b: "rr_NodeID b = nodeID" "rr_BenchmarkID b = i" "rr_Status b = ''completed''"
      using that(4-6) by (simp_all add: b_def result_request_of_def)
    let ?res = "subscriberBenchmarkResult e ?r (Some b) s"
    have p: "marshal_post e enc base (base @ ''/subscriber/benchmarks'') cred (json_obj body) s =
        (Inr (jr_status ?res, enc (json_obj [(''status'', GStr ''ok'')])), jr_state ?res)"
      unfolding marshal_post_def Let_def if_not_P [OF url(2)] if_not_P [OF url(3)] b_def by simp
    have code: "200 \<le> jr_status ?res" "jr_status ?res < 300" and s': "s' = jr_state ?res"
      using that(7) unfolding post_marshal p by (auto split: if_splits)
    have board: "TrimSpace nodeID \<noteq> []" "safeBenchmarkString i \<noteq> []"
      and job: "\<exists>job \<in> set (stored_jobs s (TrimSpace nodeID)). as_string (field job ''benchmark_id'') = safeBenchmarkString i"
      using that(2) by (simp_all add: job_on_board_def)
    have res: "?res = with_reporter e ?r (TrimSpace nodeID) (delivering e b) s" using board by (simp add: subscriberBenchmarkResult_def b)
    have ok: "jr_status (with_reporter e ?r (TrimSpace nodeID) (delivering e b) s) = 200"
      using reporter_accepts [OF code [unfolded res] report_codes(2)] .
    show ?thesis
      using result_accepted [OF ok _ board(1), of "safeBenchmarkString i"] deliver.reported_wf [of e s ?r] that(1) board job b
      by (auto simp: s' res closed_on_board_def list_ex_iff)
  qed
qed

text \<open>C33. Runner and marshal agree: when a runner that talks to this marshal counts a job as completed, the marshal has the job, under its
  id and for this node, as completed and closed, so that it is not handed out again. This holds in both modes, whatever the job says and
  whatever the local Ollama and the codec of the answers do.\<close>

theorem completed_at_marshal:
  assumes "store_wf (at_store s)" "be_now e \<noteq> 0"
    "runSubscriberBenchmarkRunnerJob (marshal_net e enc dec oll gen elapsed base) now cfg base cred nodeID rc s = ((run, cont), s')"
    "bn_Completed run \<noteq> 0"
  shows "list_ex (\<lambda>job. as_string (field job ''benchmark_id'') = safeBenchmarkString (bn_BenchmarkID run) \<and>
      field job ''status'' = GStr ''completed'' \<and> phase_of job = Closed) (stored_jobs s' (TrimSpace nodeID))"
  using board.completed_is_closed [OF conjI [OF assms(1,2)] assms(3,4)] by (simp add: closed_on_board_def job_closed_def list_ex_iff)

section \<open>A queued job is brought to its end\<close>

text \<open>A node the marshal hears: it is there, is managed, the request has its credential, and the files can be read and written.\<close>

definition heard :: "'r sub_env \<Rightarrow> auth_request \<Rightarrow> string \<Rightarrow> 'r auth_state \<Rightarrow> bool" where
  "heard e r i s \<longleftrightarrow> i \<noteq> [] \<and> store_wf (at_store s) \<and> be_now e \<noteq> 0 \<and> e_write_ok (ae_env (be_auth e)) \<and> reads_answered (be_auth e) \<and>
    (\<exists>node. goget (st_Nodes (Snapshot (at_store s))) i = Some node \<and> n_ControlLevel node = ControlLevelManaged) \<and>
    credential_of e i s \<noteq> [] \<and> subscriberHeartbeatToken r = credential_of e i s"

lemma upsert_goget:
  assumes "upsert e node s = (err, s')" "n_NodeID node \<noteq> []"
  shows "goget (st_Nodes (Snapshot (at_store s'))) (n_NodeID node) = Some (jsonNode (prepareNode (ae_env (be_auth e)) node))"
    "err = (if e_write_ok (ae_env (be_auth e)) then None else Some WriteError)" "at_secrets s' = at_secrets s"
proof -
  have "n_NodeID (prepareNode (ae_env (be_auth e)) node) = n_NodeID node"
    using assms(2) by (simp add: prepareNode_def normalizeNode_def normalize_times_def normalize_sources_def normalize_approval_def
        normalize_levels_def Let_def orElse_def)
  then show "goget (st_Nodes (Snapshot (at_store s'))) (n_NodeID node) = Some (jsonNode (prepareNode (ae_env (be_auth e)) node))"
    "err = (if e_write_ok (ae_env (be_auth e)) then None else Some WriteError)" "at_secrets s' = at_secrets s"
    using assms(1) by (auto simp: upsert_def on_store_eq UpsertNode_def putNode_def Snapshot_def cloneState_def jsonState_def goget_map_snd
        saveLocked_err)
qed

lemma control_prepared:
  "n_ControlLevel n = ControlLevelManaged \<Longrightarrow> n_ControlLevel (jsonNode (prepareNode e n)) = ControlLevelManaged"
  by (auto simp: jsonNode_def prepareNode_def normalizeNode_def normalize_times_def normalize_sources_def normalize_approval_def
      normalize_levels_def Let_def orElse_def ControlLevelManaged_def ControlLevelPassive_def)

lemma credential_secrets: "at_secrets s = at_secrets s' \<Longrightarrow> credential_of e i s = credential_of e i s'"
  by (simp add: credential_of_def)

lemma heard_upsert:
  assumes "heard e r i s" "n_NodeID node = i" "n_ControlLevel node = ControlLevelManaged" "upsert e node s = (err, s')"
  shows "err = None" "heard e r i s'"
proof -
  have ne: "n_NodeID node \<noteq> []" using assms(1,2) by (simp add: heard_def)
  note u = upsert_goget [OF assms(4) ne]
  show "err = None" using u(2) assms(1) by (simp add: heard_def)
  show "heard e r i s'"
    using u assms(1,2) control_prepared [OF assms(3), of "ae_env (be_auth e)"] upsert_wf [OF assms(4)] credential_secrets [OF u(3), of e i]
    by (auto simp: heard_def)
qed

lemma heard_emit: "heard e r i s \<Longrightarrow> heard e r i (emit_sub e ty fs s)"
  using emit_sub_wf [of s e ty fs] credential_secrets [of "emit_sub e ty fs s" s e i]
  by (simp add: heard_def emit_sub_def emit_auth_def Snapshot_def cloneState_def jsonState_def)

lemma heard_reporting:
  assumes "heard e r i s"
  obtains node where "reporting_node e r i s = (Inr node, s)" "node_of s i = node" "n_NodeID node = i" "n_ControlLevel node = ControlLevelManaged"
proof -
  obtain node where node: "goget (st_Nodes (Snapshot (at_store s))) i = Some node" "n_ControlLevel node = ControlLevelManaged"
    using assms by (auto simp: heard_def)
  have st: "getSecret (be_auth e) k s = (secret_of (be_auth e) s k, s)" for k
    using getSecret_steady [OF reads_steady, of "be_auth e"] assms by (simp add: heard_def)
  have id: "n_NodeID node = i"
  proof -
    have "content_wf (Snapshot (at_store s))"
      using assms by (simp add: heard_def Snapshot_def cloneState_def jsonState_wf store_wf_def state_wf_def)
    then show ?thesis using goget_in_set [OF node(1)] by (auto simp: content_wf_def nodes_wf_def)
  qed
  have "verifySubscriberHeartbeatCredential e r node s = (None, s)"
    using assms id by (auto simp: verifySubscriberHeartbeatCredential_def st heard_def credential_of_def Let_def)
  then have "reporting_node e r i s = (Inr node, s)" using node by (auto simp: reporting_node_def)
  then show thesis using that [of node] node id by (simp add: node_of_def)
qed

lemma same_control [simp]:
  "n_ControlLevel (observe kvs node) = n_ControlLevel node" "n_ControlLevel (put_job job node) = n_ControlLevel node"
  by (simp_all add: observe_def put_job_def)

lemma delivered_control:
  "n_ControlLevel (completeBenchmarkJobWithResult now result (applyBenchmarkResult now result src node)) = n_ControlLevel node"
  "n_NodeID (completeBenchmarkJobWithResult now result (applyBenchmarkResult now result src node)) = n_NodeID node"
  "n_ControlLevel (updateModelBenchmarkRate model rate n) = n_ControlLevel n"
  by (simp_all add: completeBenchmarkJobWithResult_def applyBenchmarkResult_def updateModelBenchmarkRate_def Let_def split: option.split)

lemma claim_heard:
  assumes "heard e r i s" "TrimSpace (jq_NodeID b) = i"
    "nextQueuedBenchmarkJob (snd (reconcileBenchmarkJobsForNode (be_now e) ''subscriber_claim'' (benchmarkSchedulerConfig s) (node_of s i))) (be_now e) = Some job"
  shows "jr_status (subscriberBenchmarkJobClaim e r (Some b) s) = 200"
    "jr_job (subscriberBenchmarkJobClaim e r (Some b) s) = Some (claim_job (be_now e) (benchmarkSchedulerConfig s) job)"
    "heard e r i (jr_state (subscriberBenchmarkJobClaim e r (Some b) s))"
proof -
  let ?p = "benchmarkSchedulerConfig s"
  obtain node where node: "reporting_node e r i s = (Inr node, s)" "node_of s i = node" "n_NodeID node = i" "n_ControlLevel node = ControlLevelManaged"
    by (rule heard_reporting [OF assms(1)])
  obtain run node1 where rc: "reconcileBenchmarkJobsForNode (be_now e) ''subscriber_claim'' ?p node = (run, node1)" by fastforce
  have node1: "n_NodeID node1 = i" "n_ControlLevel node1 = ControlLevelManaged"
    using rc node(3,4) by (auto simp: reconcileBenchmarkJobsForNode_def Let_def case_prod_unfold split: if_splits)
  obtain err s2 where s2: "(if sr_Changed run then upsert e node1 s else (None, s)) = (err, s2)" by fastforce
  have h2: "err = None" "heard e r i s2" using s2 heard_upsert [OF assms(1) node1] assms(1) by (auto split: if_splits)
  let ?job = "claim_job (be_now e) ?p job"
  let ?node = "put_job ?job (observe [(''benchmark_status'', GStr ''running''), (''benchmark_id'', field ?job ''benchmark_id''),
    (''benchmark_updated_at'', GTime (be_now e))] node1)"
  obtain err3 s3 where s3: "upsert e ?node s2 = (err3, s3)" by fastforce
  have h3: "err3 = None" "heard e r i s3" using heard_upsert [OF h2(2) _ _ s3] node1 by simp_all
  have queued: "nextQueuedBenchmarkJob node1 (be_now e) = Some job" using assms(3) node(2) rc by simp
  have i: "i \<noteq> []" using assms(1) by (simp add: heard_def)
  obtain ty fs where res: "subscriberBenchmarkJobClaim e r (Some b) s = job_answer 200 (Some ?job) (emit_sub e ty fs s3)"
    unfolding subscriberBenchmarkJobClaim_def option.case assms(2) if_not_P [OF i] with_reporter_def node(1) prod.case sum.case
      claiming_def Let_def rc s2 h2(1) queued s3 h3(1) by (simp only: prod.case option.case)
  show "jr_status (subscriberBenchmarkJobClaim e r (Some b) s) = 200"
    "jr_job (subscriberBenchmarkJobClaim e r (Some b) s) = Some ?job"
    "heard e r i (jr_state (subscriberBenchmarkJobClaim e r (Some b) s))"
    unfolding res using heard_emit [OF h3(2)] by (simp_all add: job_answer_def)
qed

lemma status_heard:
  assumes "heard e r i s" "TrimSpace (jq_NodeID b) = i" "safeBenchmarkString (jq_BenchmarkID b) = x" "x \<noteq> []" "jq_Status b = ''running''"
    "job \<in> set (stored_jobs s i)" "as_string (field job ''benchmark_id'') = x"
  shows "jr_status (subscriberBenchmarkJobStatus e r (Some b) s) = 200" "heard e r i (jr_state (subscriberBenchmarkJobStatus e r (Some b) s))"
proof -
  let ?p = "benchmarkSchedulerConfig s" and ?c = "jq_ErrorCode b"
  obtain node where node: "reporting_node e r i s = (Inr node, s)" "node_of s i = node" "n_NodeID node = i" "n_ControlLevel node = ControlLevelManaged"
    by (rule heard_reporting [OF assms(1)])
  have i: "i \<noteq> []" using assms(1) by (simp add: heard_def)
  have "findBenchmarkJob node x \<noteq> None" using assms(6,7) node(2) by (simp add: findBenchmarkJob_def find_None_iff) blast
  then obtain job0 where f: "findBenchmarkJob node x = Some job0" by blast
  let ?node = "put_job (report_job (be_now e) ?p ''running'' ?c job0) (observe [(''benchmark_status'', GStr ''running''), (''benchmark_id'', GStr x),
    (''benchmark_updated_at'', GTime (be_now e))] node)"
  obtain err s2 where s2: "upsert e ?node s = (err, s2)" by fastforce
  have h2: "err = None" "heard e r i s2" using heard_upsert [OF assms(1) _ _ s2] node by simp_all
  have res: "\<exists>ty fs job. subscriberBenchmarkJobStatus e r (Some b) s = job_answer 200 (Some job) (emit_sub e ty fs s2)"
    using i assms(4) unfolding subscriberBenchmarkJobStatus_def option.case assms(2,3,5) Let_def runner_status_words(1)
    by (simp add: with_reporter_def node(1) reporting_def f Let_def s2 h2(1)) blast
  then show "jr_status (subscriberBenchmarkJobStatus e r (Some b) s) = 200" "heard e r i (jr_state (subscriberBenchmarkJobStatus e r (Some b) s))"
    using heard_emit [OF h2(2)] by (auto simp: job_answer_def)
qed

lemma result_heard:
  assumes "heard e r i s" "TrimSpace (rr_NodeID b) = i"
  shows "jr_status (subscriberBenchmarkResult e r (Some b) s) = 200"
proof -
  obtain node where node: "reporting_node e r i s = (Inr node, s)" "node_of s i = node" "n_NodeID node = i" "n_ControlLevel node = ControlLevelManaged"
    by (rule heard_reporting [OF assms(1)])
  have i: "i \<noteq> []" using assms(1) by (simp add: heard_def)
  define result where "result = benchmarkResultMap (be_now e) (e_random (ae_env (be_auth e))) b CapabilitySourceSubscriberReported ''subscriber_reported''"
  define node2 where "node2 = completeBenchmarkJobWithResult (be_now e) result (applyBenchmarkResult (be_now e) result CapabilitySourceSubscriberReported node)"
  define node3 where "node3 = (if 0 < rr_TokensPerSecond b
    then updateModelBenchmarkRate (safeBenchmarkString (rr_Model b)) (rr_TokensPerSecond b) node2 else node2)"
  have n3: "n_NodeID node3 = i" "n_ControlLevel node3 = ControlLevelManaged"
    using node by (simp_all add: node3_def node2_def delivered_control)
  obtain err s2 where s2: "upsert e node3 s = (err, s2)" by fastforce
  have "err = None" using heard_upsert(1) [OF assms(1) n3 s2] .
  then have "jr_status (delivering e b node s) = 200"
    unfolding delivering_def Let_def result_def [symmetric] node2_def [symmetric] node3_def [symmetric] s2 by (simp add: job_answer_def)
  then show ?thesis using i by (simp add: subscriberBenchmarkResult_def assms(2) with_reporter_def node(1))
qed

lemma claim_job_id: "field (claim_job now p job) ''benchmark_id'' = field job ''benchmark_id''"
  by (simp add: claim_job_def Let_def field_puts)

text \<open>After a claim, the claimed job is on the board.\<close>

lemma claimed_on_board:
  assumes "jr_job (subscriberBenchmarkJobClaim e r (Some b) s) = Some job" "jr_status (subscriberBenchmarkJobClaim e r (Some b) s) = 200"
    "heard e r i s" "TrimSpace (jq_NodeID b) = i" "as_string (field job ''benchmark_id'') = x" "x \<noteq> []"
  shows "\<exists>job \<in> set (stored_jobs (jr_state (subscriberBenchmarkJobClaim e r (Some b) s)) i). as_string (field job ''benchmark_id'') = x"
proof -
  have i: "i \<noteq> []" using assms(3) by (simp add: heard_def)
  obtain node where node: "reporting_node e r i s = (Inr node, s)" "node_of s i = node" "n_NodeID node = i" "n_ControlLevel node = ControlLevelManaged"
    by (rule heard_reporting [OF assms(3)])
  obtain run node1 where rc: "reconcileBenchmarkJobsForNode (be_now e) ''subscriber_claim'' (benchmarkSchedulerConfig s) node = (run, node1)" by fastforce
  have node1: "n_NodeID node1 = i"
    using rc node(3) by (auto simp: reconcileBenchmarkJobsForNode_def Let_def case_prod_unfold split: if_splits)
  have res: "subscriberBenchmarkJobClaim e r (Some b) s = claiming e node s"
    using i assms(4) by (simp add: subscriberBenchmarkJobClaim_def with_reporter_def node(1))
  obtain err s2 where s2: "(if sr_Changed run then upsert e node1 s else (None, s)) = (err, s2)" by fastforce
  have err: "err = None" using assms(1) s2 unfolding res claiming_def rc Let_def prod.case s2 by (cases err) (simp_all add: job_answer_def)
  obtain job0 where q: "nextQueuedBenchmarkJob node1 (be_now e) = Some job0"
    using assms(1) unfolding res claiming_def rc Let_def prod.case s2 err by (cases "nextQueuedBenchmarkJob node1 (be_now e)") (simp_all add: job_answer_def)
  let ?job = "claim_job (be_now e) (benchmarkSchedulerConfig s) job0"
  define node3 where "node3 = put_job ?job (observe [(''benchmark_status'', GStr ''running''), (''benchmark_id'', field ?job ''benchmark_id''),
    (''benchmark_updated_at'', GTime (be_now e))] node1)"
  obtain err3 s3 where s3: "upsert e node3 s2 = (err3, s3)" by fastforce
  have ran: "claiming e node s = (case err3 of Some _ \<Rightarrow> job_answer 500 None s3
      | None \<Rightarrow> job_answer 200 (Some ?job) (emit_sub e ''benchmark_job_claimed'' (node_event (node_of s3 (n_NodeID node3)) @
          [(''benchmark_id'', field ?job ''benchmark_id''), (''status'', field ?job ''status''), (''attempt'', field ?job ''attempt''),
           (''max_attempts'', field ?job ''max_attempts''), (''scheduler'', field ?job ''scheduler_policy'')]) s3))"
    unfolding claiming_def rc Let_def prod.case s2 err option.case q node3_def [symmetric] s3 by (cases err3) simp_all
  then have job: "job = ?job" and st: "node_of (jr_state (claiming e node s)) i = node_of s3 i"
    using assms(1) unfolding res by (cases err3; simp add: job_answer_def)+
  have "json_obj ?job \<in> set (stored_jobs s3 i)"
    using put_job_stored [OF s3] put_job_field i node1 by (simp add: node3_def)
  then show ?thesis using st res as_string_json [of "field job ''benchmark_id''" x] assms(5,6) job by (auto intro!: bexI [of _ "json_obj ?job"])
qed

text \<open>An answer that is short enough to be read in full, and decodes to what was sent.\<close>

definition answer_fits :: "(gobj \<Rightarrow> string) \<Rightarrow> (string \<Rightarrow> gobj option) \<Rightarrow> gobj \<Rightarrow> bool" where
  "answer_fits enc dec m \<longleftrightarrow> take benchmarkRunnerMaxResponseBodyBytes (enc m) \<noteq> [] \<and> dec (take benchmarkRunnerMaxResponseBodyBytes (enc m)) = Some m"

abbreviation accepted :: gobj where "accepted \<equiv> json_obj [(''status'', GStr ''ok'')]"

abbreviation claim_of :: "string \<Rightarrow> subscriberBenchmarkJobRequest" where
  "claim_of nodeID \<equiv> job_request_of (json_obj [(''node_id'', GStr nodeID)])"

abbreviation running_of :: "string \<Rightarrow> string \<Rightarrow> subscriberBenchmarkJobRequest" where
  "running_of nodeID i \<equiv> job_request_of (json_obj [(''node_id'', GStr nodeID), (''benchmark_id'', GStr i), (''status'', GStr ''running'')])"

lemma post_claim:
  assumes "jr_status (subscriberBenchmarkJobClaim e (reportRequest cred) (Some (claim_of nodeID)) s) = 200"
    "answer_fits enc dec (json_obj (claim_reply (subscriberBenchmarkJobClaim e (reportRequest cred) (Some (claim_of nodeID)) s)))"
  shows "benchmarkRunnerPost (marshal_net e enc dec oll gen elapsed base) (base @ ''/subscriber/benchmarks/claim'') cred [(''node_id'', GStr nodeID)] s =
    (Some (json_obj (claim_reply (subscriberBenchmarkJobClaim e (reportRequest cred) (Some (claim_of nodeID)) s))),
     jr_state (subscriberBenchmarkJobClaim e (reportRequest cred) (Some (claim_of nodeID)) s))"
  using assms by (simp add: post_marshal marshal_post_def Let_def answer_fits_def)

lemma post_status:
  assumes "jr_status (subscriberBenchmarkJobStatus e (reportRequest cred) (Some (running_of nodeID i)) s) = 200" "answer_fits enc dec accepted"
  shows "benchmarkRunnerPost (marshal_net e enc dec oll gen elapsed base) (base @ ''/subscriber/benchmarks/status'') cred
      [(''node_id'', GStr nodeID), (''benchmark_id'', GStr i), (''status'', GStr ''running'')] s =
    (Some accepted, jr_state (subscriberBenchmarkJobStatus e (reportRequest cred) (Some (running_of nodeID i)) s))"
  using assms by (simp add: post_marshal marshal_post_def Let_def answer_fits_def)

lemma post_result:
  assumes "jr_status (subscriberBenchmarkResult e (reportRequest cred) (Some (result_request_of (json_obj m))) s) = 200" "answer_fits enc dec accepted"
  shows "benchmarkRunnerPost (marshal_net e enc dec oll gen elapsed base) (base @ ''/subscriber/benchmarks'') cred m s =
    (Some accepted, jr_state (subscriberBenchmarkResult e (reportRequest cred) (Some (result_request_of (json_obj m))) s))"
  using assms by (simp add: post_marshal marshal_post_def Let_def answer_fits_def)

lemma claim_answer_reply:
  "jr_job res = Some job \<Longrightarrow> claim_answer (json_obj (claim_reply res)) = Some (''job_claimed'', Some (json_obj job))"
  by (simp add: claim_reply_def claim_answer_def) (simp add: field_def goget_def json_obj_def)

lemma request_fields:
  "jq_NodeID (claim_of nodeID) = nodeID" "jq_NodeID (running_of nodeID i) = nodeID" "jq_BenchmarkID (running_of nodeID i) = i"
  "jq_Status (running_of nodeID i) = ''running''"
  by (simp_all add: job_request_of_def) (simp_all add: field_def goget_def)

lemma queued_completes:
  assumes "heard e (reportRequest cred) (TrimSpace nodeID) s" "br_Mode rc \<noteq> ModeSyntheticBuiltin"
    "nextQueuedBenchmarkJob (snd (reconcileBenchmarkJobsForNode (be_now e) ''subscriber_claim'' (benchmarkSchedulerConfig s)
       (node_of s (TrimSpace nodeID)))) (be_now e) = Some job"
    "field job ''benchmark_id'' = GStr i" "TrimSpace i = i" "safeBenchmarkString i = i" "i \<noteq> []"
    "answer_fits enc dec (json_obj (claim_reply (subscriberBenchmarkJobClaim e (reportRequest cred) (Some (claim_of nodeID)) s)))"
    "answer_fits enc dec accepted"
  shows "case runSubscriberBenchmarkRunnerJob (marshal_net e enc dec oll gen elapsed base) now cfg base cred nodeID rc s of
    ((run, cont), s') \<Rightarrow> bn_Completed run = 1 \<and> bn_BenchmarkID run = i \<and> cont"
proof -
  let ?net = "marshal_net e enc dec oll gen elapsed base" and ?r = "reportRequest cred" and ?n = "TrimSpace nodeID"
  let ?cl = "subscriberBenchmarkJobClaim e ?r (Some (claim_of nodeID)) s"
  have "TrimSpace (jq_NodeID (claim_of nodeID)) = ?n" by (simp add: request_fields)
  note c = claim_heard [OF assms(1) this assms(3)]
  let ?job = "claim_job (be_now e) (benchmarkSchedulerConfig s) job"
  have id: "as_string (field ?job ''benchmark_id'') = i" by (simp add: claim_job_id assms(4))
  obtain j where j: "j \<in> set (stored_jobs (jr_state ?cl) ?n)" "as_string (field j ''benchmark_id'') = i"
    using claimed_on_board [OF c(2,1) assms(1) _ id assms(7)] by (auto simp: request_fields)
  let ?st = "subscriberBenchmarkJobStatus e ?r (Some (running_of nodeID i)) (jr_state ?cl)"
  have r: "jr_status ?st = 200" "heard e ?r ?n (jr_state ?st)"
    using status_heard [OF c(3), of "running_of nodeID i" i j] j assms(6,7) by (simp_all add: request_fields)
  define jb where "jb = json_obj ?job"
  obtain suiteID tc fx where md: "benchmarkRunnerWorkloadMetadata jb = (suiteID, tc, fx)" by (metis prod_cases3)
  define m where "m = benchmarkRunnerDryRunResult now nodeID i suiteID fx tc jb"
  have m: "field m ''node_id'' = GStr nodeID" "field m ''status'' = GStr ''completed''"
    by (simp_all add: m_def benchmarkRunnerDryRunResult_def Let_def field_def goget_def)
  have d: "jr_status (subscriberBenchmarkResult e ?r (Some (result_request_of (json_obj m))) (jr_state ?st)) = 200"
    using result_heard [OF r(2), of "result_request_of (json_obj m)"] m(1) by (simp add: result_request_of_def)
  have idj: "benchmarkJobString (field jb ''benchmark_id'') = i"
    using assms(4,5) by (simp add: jb_def claim_job_id benchmarkJobString_def)
  have mode: "benchmarkRunnerResult ?net now cfg nodeID i suiteID fx tc jb rc (jr_state ?st) = (m, jr_state ?st)"
    using assms(2) by (simp add: benchmarkRunnerResult_def m_def)
  show ?thesis
    unfolding runSubscriberBenchmarkRunnerJob_def Let_def post_claim [OF c(1) assms(8)] prod.case bind.bind_lunit
    by (simp add: claim_answer_reply [OF c(2), folded jb_def] idj assms(7) md post_status [OF r(1) assms(9)] mode post_result [OF d assms(9)] m(2) run_of_def)
qed

text \<open>C32. A queued job is brought to its end: if the marshal hears a node and has a job for it that is due, one step of the node's runner in its
  default mode claims this job, reports it and delivers its result; the runner counts it as completed, and the marshal has closed it.\<close>

theorem queued_job_completed:
  assumes "heard e (reportRequest cred) (TrimSpace nodeID) s" "br_Mode rc \<noteq> ModeSyntheticBuiltin"
    "nextQueuedBenchmarkJob (snd (reconcileBenchmarkJobsForNode (be_now e) ''subscriber_claim'' (benchmarkSchedulerConfig s)
       (node_of s (TrimSpace nodeID)))) (be_now e) = Some job"
    "field job ''benchmark_id'' = GStr i" "TrimSpace i = i" "safeBenchmarkString i = i" "i \<noteq> []"
    "answer_fits enc dec (json_obj (claim_reply (subscriberBenchmarkJobClaim e (reportRequest cred) (Some (claim_of nodeID)) s)))"
    "answer_fits enc dec accepted"
  shows "case runSubscriberBenchmarkRunnerJob (marshal_net e enc dec oll gen elapsed base) now cfg base cred nodeID rc s of
    ((run, cont), s') \<Rightarrow> bn_Completed run = 1 \<and> bn_BenchmarkID run = i \<and> list_ex (job_closed i) (stored_jobs s' (TrimSpace nodeID))"
proof -
  obtain run cont s' where ran: "runSubscriberBenchmarkRunnerJob (marshal_net e enc dec oll gen elapsed base) now cfg base cred nodeID rc s = ((run, cont), s')"
    by (metis prod.collapse)
  have c: "bn_Completed run = 1" "bn_BenchmarkID run = i" using queued_completes [OF assms, of oll gen elapsed base now cfg] ran by simp_all
  have "store_wf (at_store s) \<and> be_now e \<noteq> 0" using assms(1) by (simp add: heard_def)
  from board.completed_is_closed [OF this ran] c show ?thesis by (simp add: ran closed_on_board_def assms(6))
qed

section \<open>A concrete run\<close>

definition boardState :: "(string, string) gomap auth_state" where
  "boardState = jobState\<lparr> at_secrets := sampleSecrets\<lparr> sx_data := [(subscriberHeartbeatSecretKey (be_sha jobEnv) ''gpu-1'', ''lw_hb_1'')] \<rparr> \<rparr>"

definition boardEnc :: "gobj \<Rightarrow> string" where
  "boardEnc m = (if field m ''job'' = GNil then ''ok'' else ''job'')"

definition boardDec :: "gobj \<Rightarrow> string \<Rightarrow> gobj option" where
  "boardDec m text = Some (if text = ''ok'' then accepted else m)"

lemma board_heard: "heard jobEnv (reportRequest ''lw_hb_1'') ''gpu-1'' boardState"
proof -
  have store: "at_store boardState = at_store jobState" by (simp add: boardState_def)
  have env: "be_auth jobEnv = be_auth subEnv" by (simp add: jobEnv_def subEnv_def)
  have "case goget (st_Nodes (Snapshot (at_store jobState))) ''gpu-1'' of None \<Rightarrow> False | Some n \<Rightarrow> n_ControlLevel n = ControlLevelManaged" by code_simp
  then have node: "\<exists>n. goget (st_Nodes (Snapshot (at_store jobState))) ''gpu-1'' = Some n \<and> n_ControlLevel n = ControlLevelManaged"
    by (auto split: option.splits)
  have cred: "credential_of jobEnv ''gpu-1'' boardState = ''lw_hb_1''" "subscriberHeartbeatToken (reportRequest ''lw_hb_1'') = ''lw_hb_1''"
    "be_now jobEnv = 5" "e_write_ok (ae_env (be_auth jobEnv))" by code_simp+
  show ?thesis
    unfolding heard_def store env cred(1)
    using sample_evaluated(1) node cred subEnv_reads by (simp add: env)
qed

lemma board_queued:
  "nextQueuedBenchmarkJob (snd (reconcileBenchmarkJobsForNode (be_now jobEnv) ''subscriber_claim'' (benchmarkSchedulerConfig boardState)
     (node_of boardState (TrimSpace ''gpu-1'')))) (be_now jobEnv) = Some (json_obj sampleJob)"
proof -
  have "benchmarkSchedulerConfig boardState = benchmarkSchedulerConfig jobState" "node_of boardState ''gpu-1'' = node_of jobState ''gpu-1''"
    by (simp_all add: boardState_def benchmarkSchedulerConfig_def)
  moreover have "be_now jobEnv = 5" "TrimSpace ''gpu-1'' = ''gpu-1''" by code_simp+
  ultimately show ?thesis using sample_evaluated(6) by simp
qed

abbreviation boardReply :: gobj where
  "boardReply \<equiv> json_obj (claim_reply (subscriberBenchmarkJobClaim jobEnv (reportRequest ''lw_hb_1'') (Some (claim_of ''gpu-1'')) boardState))"

abbreviation boardNet :: "(string, string) gomap auth_state runner_net" where
  "boardNet \<equiv> marshal_net jobEnv boardEnc (boardDec boardReply) (\<lambda>_ _. Inl ''refused'') (\<lambda>_. None) second ''http://marshal:11435''"

lemma board_trim: "TrimSpace ''gpu-1'' = ''gpu-1''"
  by code_simp

lemma board_fits: "answer_fits boardEnc (boardDec boardReply) boardReply" "answer_fits boardEnc (boardDec boardReply) accepted"
proof -
  have "jr_job (subscriberBenchmarkJobClaim jobEnv (reportRequest ''lw_hb_1'') (Some (claim_of ''gpu-1'')) boardState) \<noteq> None"
    using claim_heard(2) [OF board_heard, of "claim_of ''gpu-1''"] board_queued board_trim by (simp add: request_fields)
  then have "field boardReply ''job'' \<noteq> GNil" by (auto simp: claim_reply_def field_def goget_def json_obj_def)
  then show "answer_fits boardEnc (boardDec boardReply) boardReply" "answer_fits boardEnc (boardDec boardReply) accepted"
    by (simp_all add: answer_fits_def boardEnc_def boardDec_def benchmarkRunnerMaxResponseBodyBytes_def) (simp_all add: field_def goget_def json_obj_def)
qed

lemma board_job: "field (json_obj sampleJob) ''benchmark_id'' = GStr ''b1''" "TrimSpace ''b1'' = ''b1''" "safeBenchmarkString ''b1'' = ''b1''"
  "br_Mode DefaultBenchmarkRunnerConfig \<noteq> ModeSyntheticBuiltin"
  by code_simp+

text \<open>Witness: the job of this marshal is completed by its runner.\<close>

theorem queued_job_completed_witness:
  "case runSubscriberBenchmarkRunnerJob boardNet 5 (Default ''subscriber'') ''http://marshal:11435'' ''lw_hb_1'' ''gpu-1'' DefaultBenchmarkRunnerConfig boardState of
     ((run, cont), s') \<Rightarrow> bn_Completed run = 1 \<and> list_ex (job_closed ''b1'') (stored_jobs s' ''gpu-1'')"
  using queued_job_completed [of jobEnv "''lw_hb_1''" "''gpu-1''" boardState DefaultBenchmarkRunnerConfig "json_obj sampleJob" "''b1''" boardEnc
      "boardDec boardReply" "\<lambda>_ _. Inl ''refused''" "\<lambda>_. None" second "''http://marshal:11435''" 5 "Default ''subscriber''"]
    board_heard board_queued board_fits board_job board_trim by (auto split: prod.splits)

text \<open>Witness: what this runner counts as completed is closed at its marshal.\<close>

theorem completed_at_marshal_witness:
  "\<exists>run cont s'. runSubscriberBenchmarkRunnerJob boardNet 5 (Default ''subscriber'') ''http://marshal:11435'' ''lw_hb_1'' ''gpu-1''
       DefaultBenchmarkRunnerConfig boardState = ((run, cont), s') \<and>
     list_ex (\<lambda>job. as_string (field job ''benchmark_id'') = ''b1'' \<and> field job ''status'' = GStr ''completed'' \<and> phase_of job = Closed)
       (stored_jobs s' ''gpu-1'')"
proof -
  obtain run cont s' where ran: "runSubscriberBenchmarkRunnerJob boardNet 5 (Default ''subscriber'') ''http://marshal:11435'' ''lw_hb_1'' ''gpu-1''
      DefaultBenchmarkRunnerConfig boardState = ((run, cont), s')" by (metis prod.collapse)
  have "bn_Completed run = 1 \<and> bn_BenchmarkID run = ''b1''"
    using queued_completes [of jobEnv "''lw_hb_1''" "''gpu-1''" boardState DefaultBenchmarkRunnerConfig "json_obj sampleJob" "''b1''" boardEnc
        "boardDec boardReply" "\<lambda>_ _. Inl ''refused''" "\<lambda>_. None" second "''http://marshal:11435''" 5 "Default ''subscriber''"]
      board_heard board_queued board_fits board_job board_trim ran by simp
  with completed_at_marshal [OF _ _ ran] board_heard ran show ?thesis by (auto simp: heard_def board_trim board_job)
qed

end
