(* ===== verification/JobBoard.thy ===== *)
theory JobBoard
  imports BenchmarkJobs
begin

text \<open>The refinement of the job handlers (\<^verbatim>\<open>internal/httpapi/benchmark_jobs.go\<close>): the jobs of a node are a board of entries, an
  identifier with the phase, the attempts and the maximum of the job, and every handler is one operation of the board. The operations take the
  readings of the clock (which leases have run out, which jobs are due) as arguments.\<close>

section \<open>The board and its operations\<close>

type_synonym board = "(string \<times> abstract_job) list"

text \<open>For each job, whether its lease has run out and whether it is due.\<close>

type_synonym clock = "(bool \<times> bool) list"

definition job_id :: "gobj \<Rightarrow> string" where
  "job_id job = as_string (field job ''benchmark_id'')"

definition entry :: "gobj \<Rightarrow> string \<times> abstract_job" where
  "entry job = (job_id job, abs_job job)"

abbreviation board_of :: "'r auth_state \<Rightarrow> string \<Rightarrow> board" where
  "board_of s i \<equiv> map entry (stored_jobs s i)"

definition clock_of :: "gotime \<Rightarrow> BenchmarkSchedulerConfig \<Rightarrow> gobj list \<Rightarrow> clock" where
  "clock_of now p jobs = map (\<lambda>job. (expired now (NormalizeBenchmarkSchedulerConfig p) job, benchmarkJobDue job now)) jobs"

text \<open>Time passes: a leased job whose lease has run out fails, a job whose pause is over opens again.\<close>

fun a_tick :: "clock \<Rightarrow> board \<Rightarrow> board" where
  "a_tick ((late, due) # c) ((k, a) # b) = (k, a_reconcile late due a) # a_tick c b"
| "a_tick c b = b"

text \<open>The first entry that is open and due, and the board with an entry in front, the only one of its identifier.\<close>

fun a_next :: "clock \<Rightarrow> board \<Rightarrow> (string \<times> abstract_job) option" where
  "a_next ((late, due) # c) ((k, a) # b) = (if aj_phase a = Open_job \<and> due then Some (k, a) else a_next c b)"
| "a_next c b = None"

definition a_put :: "string \<Rightarrow> abstract_job \<Rightarrow> board \<Rightarrow> board" where
  "a_put i a b = take maxBenchmarkJobs ((i, a) # filter (\<lambda>(k, x). \<not> (i \<noteq> [] \<and> k = i)) b)"

definition a_claim_board :: "clock \<Rightarrow> board \<Rightarrow> board" where
  "a_claim_board c b =
    (case a_next c (a_tick c b) of None \<Rightarrow> a_tick c b | Some (k, a) \<Rightarrow> a_put k (a_claim a) (a_tick c b))"

definition a_update :: "string \<Rightarrow> (abstract_job \<Rightarrow> abstract_job) \<Rightarrow> board \<Rightarrow> board" where
  "a_update i f b = (case find (\<lambda>(k, a). k = i) b of None \<Rightarrow> b | Some (k, a) \<Rightarrow> a_put k (f a) b)"

section \<open>Jobs and entries\<close>

definition well :: "gobj \<Rightarrow> bool" where
  "well job \<longleftrightarrow> job_ok job \<and> (\<exists>x. field job ''benchmark_id'' = GStr x)"

lemma with_timeout_id: "with_timeout now p job = (t, c, job') \<Longrightarrow> field job' ''benchmark_id'' = field job ''benchmark_id''"
  by (auto simp: with_timeout_def Let_def field_puts split: option.splits)

lemma ensure_id: "field (ensureBenchmarkJobSchedulerDefaults now p job) ''benchmark_id'' = field job ''benchmark_id''"
  by (simp add: ensureBenchmarkJobSchedulerDefaults_def Let_def due_time_field named_state_field bounded_limits_def named_policy_field field_puts)

lemma retry_id: "field (snd (scheduleBenchmarkJobRetry now reason p job)) ''benchmark_id'' = field job ''benchmark_id''"
  by (simp add: scheduleBenchmarkJobRetry_def Let_def field_puts ensure_id)

lemma reconcile_id: "field (snd (reconcile_job now reason p run job)) ''benchmark_id'' = field job ''benchmark_id''"
  by (cases rule: reconcile_job_cases [of job now p reason run])
    (auto simp: retry_id ensure_id field_puts dest: with_timeout_id)

lemma claimed_id: "field (claim_job now p job) ''benchmark_id'' = field job ''benchmark_id''"
  by (simp add: claim_job_def Let_def field_puts)

lemma report_id: "field (report_job now p st code job) ''benchmark_id'' = field job ''benchmark_id''"
  by (simp add: report_job_def Let_def field_puts retry_id)

lemma finished_id: "field (finish_job now result job) ''benchmark_id'' = field job ''benchmark_id''"
  by (simp add: finish_job_def Let_def copy_keys_field result_keys_def field_puts del: fold.simps)

lemma entry_json:
  assumes "well job"
  shows "entry (json_obj job) = entry job" "well (json_obj job)"
  using assms abs_json [of job] job_ok_json [of job] by (auto simp: entry_def job_id_def well_def as_string_def)

lemma entry_reconciled:
  assumes "well job"
  shows "entry (snd (reconcile_job now reason p run job)) = (job_id job, a_reconcile (expired now p job) (benchmarkJobDue job now) (abs_job job))"
    and "well (snd (reconcile_job now reason p run job))"
  using assms reconcile_abs [of job now reason p run] by (simp_all add: entry_def job_id_def well_def reconcile_id)

lemma entry_claimed:
  assumes "well job" "aj_attempt (abs_job job) + 1 < 2 ^ 62"
  shows "entry (claim_job now p job) = (job_id job, a_claim (abs_job job))" "well (claim_job now p job)"
  using assms claim_abs [of job now p] by (simp_all add: entry_def job_id_def well_def claimed_id)

lemma entry_reported:
  assumes "well job" "benchmarkJobStatusAllowed st"
  shows "entry (report_job now p st code job) = (job_id job, a_report st (abs_job job))" "well (report_job now p st code job)"
  using assms report_abs [of job st now p code] by (simp_all add: entry_def job_id_def well_def report_id)

lemma entry_finished:
  assumes "well job"
  shows "entry (finish_job now result job) = (job_id job, a_finish (as_string (field result ''status'')) (abs_job job))"
    "well (finish_job now result job)"
  using assms finish_abs [of job now result] by (simp_all add: entry_def job_id_def well_def finished_id)

lemmas entry_steps = entry_json entry_reconciled entry_claimed entry_reported entry_finished

section \<open>Lists of jobs and boards\<close>

lemma find_entry: "find (\<lambda>(k, a). k = i) (map entry jobs) = map_option entry (find (\<lambda>job. job_id job = i) jobs)"
  by (induction jobs) (simp_all add: entry_def)

lemma put_entry:
  assumes "well job" "list_all well (benchmarkJobs f)"
  shows "map entry (map json_obj (upsertBenchmarkJob f job)) = a_put (job_id job) (abs_job job) (map entry (benchmarkJobs f))"
    and "list_all well (map json_obj (upsertBenchmarkJob f job))"
proof -
  let ?jobs = "job # filter (\<lambda>c. \<not> (job_id job \<noteq> [] \<and> job_id c = job_id job)) (benchmarkJobs f)"
  have u: "upsertBenchmarkJob f job = take maxBenchmarkJobs ?jobs"
    by (simp add: upsertBenchmarkJob_def Let_def job_id_def)
  have w: "\<And>j. j \<in> set (upsertBenchmarkJob f job) \<Longrightarrow> well j"
    unfolding u using assms by (auto simp: list_all_iff dest!: in_set_takeD)
  then have "map entry (map json_obj (upsertBenchmarkJob f job)) = map entry (upsertBenchmarkJob f job)"
    by (simp add: entry_json)
  also have "\<dots> = a_put (job_id job) (abs_job job) (map entry (benchmarkJobs f))"
    by (simp add: u a_put_def take_map [symmetric] filter_map o_def entry_def)
  finally show "map entry (map json_obj (upsertBenchmarkJob f job)) = a_put (job_id job) (abs_job job) (map entry (benchmarkJobs f))" .
  show "list_all well (map json_obj (upsertBenchmarkJob f job))" using w by (simp add: list_all_iff entry_json)
qed

lemma tick_entry:
  assumes "list_all well jobs"
  shows "map entry (map (\<lambda>job. snd (reconcile_job now reason (NormalizeBenchmarkSchedulerConfig p) noRun job)) jobs) =
      a_tick (clock_of now p jobs) (map entry jobs)"
  using assms
proof (induction jobs)
  case (Cons job jobs)
  then show ?case using entry_reconciled(1) [of job now reason "NormalizeBenchmarkSchedulerConfig p" noRun]
    by (simp add: clock_of_def entry_def)
qed (simp add: clock_of_def)

text \<open>An open job is due after the reconciliation exactly when it was due before.\<close>

lemma reconciled_due:
  assumes "job_ok job" "phase_of (snd (reconcile_job now reason p run job)) = Open_job"
  shows "benchmarkJobDue (snd (reconcile_job now reason p run job)) now = benchmarkJobDue job now"
proof (cases rule: reconcile_job_cases [of job now p reason run])
  case (late t c job')
  then show ?thesis using assms(2) by (simp add: phase_failed retry_status split: if_splits)
next
  case (leased t c job')
  then have "phase_of job' = Leased" using core_abs [OF with_timeout_core [OF leased(2)]] by (simp add: abs_job_def)
  then show ?thesis using assms(2) leased by simp
next
  case again
  then show ?thesis by (simp add: benchmarkJobDue_def field_puts)
next
  case queued
  then show ?thesis
    by (simp add: ensureBenchmarkJobSchedulerDefaults_def Let_def benchmarkJobDue_def due_time_def named_state_field
        bounded_limits_def named_policy_field field_puts benchmarkJobTime_def as_time_def split: option.splits)
qed simp

lemma a_next_jobs:
  assumes "list_all2 (\<lambda>(late, due) job. phase_of job = Open_job \<longrightarrow> due = benchmarkJobDue job now) c jobs"
  shows "a_next c (map entry jobs) =
    map_option entry (find (\<lambda>job. as_string (field job ''status'') = ''queued'' \<and> benchmarkJobDue job now) jobs)"
proof -
  have q: "phase_of job = Open_job \<longleftrightarrow> as_string (field job ''status'') = ''queued''" for job by (simp add: phase_of_def Let_def)
  show ?thesis
    using assms by (induction rule: list_all2_induct) (auto simp: entry_def abs_job_def q)
qed

section \<open>The handlers\<close>

text \<open>The reconciliation of a node's jobs is a tick of its board. When nothing is to be written, the tick changes nothing.\<close>

lemma unchanged_entry:
  assumes "well job" "\<not> sr_Changed (fst (reconcile_job now reason p run job))"
  shows "a_reconcile (expired now p job) (benchmarkJobDue job now) (abs_job job) = abs_job job"
proof -
  have "abs_job (snd (reconcile_job now reason p run job)) = abs_job job"
  proof (cases rule: reconcile_job_cases [of job now p reason run])
    case (leased t c job')
    then show ?thesis using core_abs [OF with_timeout_core [OF leased(2)]] by simp
  next
    case queued
    then show ?thesis using assms(1) ensure_abs(1) by (simp add: well_def)
  qed (use assms in simp_all)
  then show ?thesis using reconcile_abs(1) [of job now reason p run] assms(1) by (simp add: well_def)
qed

lemma unchanged_tick:
  assumes "list_all well jobs" "\<not> sr_Changed (fst (reconcile_jobs now reason (NormalizeBenchmarkSchedulerConfig p) run jobs))"
  shows "a_tick (clock_of now p jobs) (map entry jobs) = map entry jobs"
  using assms
proof (induction jobs arbitrary: run)
  case (Cons job jobs)
  let ?p = "NormalizeBenchmarkSchedulerConfig p"
  obtain run1 job1 where r: "reconcile_job now reason ?p run job = (run1, job1)" by fastforce
  have rest: "\<not> sr_Changed (fst (reconcile_jobs now reason ?p run1 jobs))" using Cons.prems(2) r by (simp add: case_prod_unfold Let_def)
  then have "\<not> sr_Changed run1" using reconcile_jobs_unchanged by blast
  then have "a_reconcile (expired now ?p job) (benchmarkJobDue job now) (abs_job job) = abs_job job"
    using unchanged_entry [of job now reason ?p run] Cons.prems(1) r by simp
  then show ?case using Cons.IH [OF _ rest] Cons.prems(1) by (simp add: clock_of_def entry_def)
qed (simp add: clock_of_def)

lemma reconciled_board:
  assumes "reconcileBenchmarkJobsForNode now reason p node = (run, node')" "list_all well (job_list node)"
  shows "map entry (job_list node') = a_tick (clock_of now p (job_list node)) (map entry (job_list node))"
    and "list_all well (job_list node')"
    and "\<not> sr_Changed run \<Longrightarrow> node' = node"
    and "sr_Changed run \<Longrightarrow> job_field node' = GMaps (job_list node')"
    and "a_next (clock_of now p (job_list node)) (map entry (job_list node')) = map_option entry (nextQueuedBenchmarkJob node' now)"
proof -
  let ?p = "NormalizeBenchmarkSchedulerConfig p" and ?jobs = "job_list node"
  let ?rec = "\<lambda>job. snd (reconcile_job now reason ?p noRun job)"
  note f = reconciled_field(2) [OF assms(1)]
  show same: "\<not> sr_Changed run \<Longrightarrow> node' = node" using f by simp
  show written: "sr_Changed run \<Longrightarrow> job_field node' = GMaps (job_list node')"
    using f by (simp add: job_list_job_field benchmarkJobs_def as_maps_def)
  have rec: "sr_Changed run \<Longrightarrow> job_list node' = map ?rec ?jobs"
    using f by (simp add: job_list_job_field benchmarkJobs_def as_maps_def)
  have w: "\<And>job. job \<in> set ?jobs \<Longrightarrow> well job" using assms(2) by (simp add: list_all_iff)
  show wf: "list_all well (job_list node')"
    using rec same assms(2) w by (cases "sr_Changed run") (auto simp: list_all_iff entry_reconciled(2))
  have quiet: "a_tick (clock_of now p ?jobs) (map entry ?jobs) = map entry ?jobs" if "\<not> sr_Changed run"
  proof (cases "?jobs = []")
    case False
    then have "run = fst (reconcile_jobs now reason ?p noRun ?jobs)"
      using assms(1) by (simp add: reconcileBenchmarkJobsForNode_def Let_def case_prod_unfold)
    with that unchanged_tick [OF assms(2)] show ?thesis by metis
  qed (simp add: clock_of_def)
  show "map entry (job_list node') = a_tick (clock_of now p ?jobs) (map entry ?jobs)"
    using rec same quiet tick_entry [OF assms(2), of now reason p] by (cases "sr_Changed run") simp_all
  have "list_all2 (\<lambda>(late, due) job. phase_of job = Open_job \<longrightarrow> due = benchmarkJobDue job now) (clock_of now p ?jobs) (job_list node')"
  proof (cases "sr_Changed run")
    case True
    then show ?thesis
      unfolding rec [OF True] clock_of_def list_all2_map1 list_all2_map2 list_all2_same
      using w reconciled_due [of _ now reason ?p noRun] by (auto simp: well_def)
  next
    case False
    then show ?thesis using same by (simp add: clock_of_def list_all2_map1 list_all2_same)
  qed
  from a_next_jobs [OF this] show "a_next (clock_of now p ?jobs) (map entry (job_list node')) = map_option entry (nextQueuedBenchmarkJob node' now)"
    by (simp add: nextQueuedBenchmarkJob_def)
qed

lemma tick_attempts: "list_all (\<lambda>(k, a). aj_attempt a < n) b \<Longrightarrow> list_all (\<lambda>(k, a). aj_attempt a < n) (a_tick c b)"
  by (induction c b rule: a_tick.induct) (auto simp: a_reconcile_def a_fail_def)

text \<open>The jobs of the nodes after a node is written back.\<close>

lemma written_board:
  assumes "upsert e node' s = (err, s')" "n_NodeID node' \<noteq> []" "job_field node' = GMaps jobs" "list_all well jobs"
  shows "board_of s' i = (if i = n_NodeID node' then map entry jobs else board_of s i)"
    and "list_all well (stored_jobs s' (n_NodeID node'))"
proof -
  have "list_all well (map json_obj jobs)" "map entry (map json_obj jobs) = map entry jobs"
    using assms(4) by (simp_all add: list_all_iff entry_json)
  then show "board_of s' i = (if i = n_NodeID node' then map entry jobs else board_of s i)"
    "list_all well (stored_jobs s' (n_NodeID node'))"
    using node_of_upsert [OF assms(1,2)] jobs_written [OF assms(3)] by simp_all
qed

lemma put_board:
  assumes "upsert e (put_job job node') s = (err, s')" "n_NodeID node' \<noteq> []" "list_all well (job_list node')" "well job"
  shows "board_of s' i = (if i = n_NodeID node' then a_put (job_id job) (abs_job job) (map entry (job_list node')) else board_of s i)"
    and "list_all well (stored_jobs s' (n_NodeID node'))"
proof -
  note j = jobs_written [OF put_job_field [of job node']]
  note p = put_entry [OF assms(4), of "job_field node'", folded job_list_job_field, OF assms(3)]
  show "board_of s' i = (if i = n_NodeID node' then a_put (job_id job) (abs_job job) (map entry (job_list node')) else board_of s i)"
    "list_all well (stored_jobs s' (n_NodeID node'))"
    using node_of_upsert [OF assms(1)] assms(2) j p by simp_all
qed

lemma claiming_board:
  fixes e :: "'r sub_env" and s :: "'r auth_state"
  assumes "n_NodeID node = i" "i \<noteq> []" "node_of s i = node" "list_all well (job_list node)"
    and "list_all (\<lambda>(k, a). aj_attempt a < 2 ^ 61) (map entry (job_list node))"
  defines "c \<equiv> clock_of (be_now e) (benchmarkSchedulerConfig s) (job_list node)" and "b \<equiv> map entry (job_list node)"
    and "res \<equiv> claiming e node s"
  shows "jr_status res = 200 \<and> board_of (jr_state res) i = a_claim_board c b \<and>
        map_option entry (jr_job res) = map_option (apsnd a_claim) (a_next c (a_tick c b)) \<or>
      jr_status res = 500 \<and> (board_of (jr_state res) i = a_tick c b \<or> board_of (jr_state res) i = a_claim_board c b)"
    and "j \<noteq> i \<Longrightarrow> board_of (jr_state res) j = board_of s j"
    and "list_all well (stored_jobs (jr_state res) i)"
proof -
  let ?now = "be_now e" and ?p = "benchmarkSchedulerConfig s"
  obtain run node' where rc: "reconcileBenchmarkJobsForNode ?now ''subscriber_claim'' ?p node = (run, node')" by fastforce
  obtain err s2 where s2: "(if sr_Changed run then upsert e node' s else (None, s)) = (err, s2)" by fastforce
  have id': "n_NodeID node' = i" using reconciled_field(1) [OF rc] assms(1) by simp
  note r = reconciled_board [OF rc assms(4), folded c_def b_def]
  have two: "board_of s2 j = (if j = i then a_tick c b else board_of s j)" "list_all well (stored_jobs s2 i)" for j
  proof -
    show "board_of s2 j = (if j = i then a_tick c b else board_of s j)"
    proof (cases "sr_Changed run")
      case True
      with s2 written_board(1) [of e node' s err s2 "job_list node'" j] r id' assms(2) show ?thesis by simp
    next
      case False
      with s2 r(1,3) assms(3) show ?thesis by auto
    qed
    show "list_all well (stored_jobs s2 i)"
    proof (cases "sr_Changed run")
      case True
      with s2 written_board(2) [of e node' s err s2 "job_list node'"] r id' assms(2) show ?thesis by simp
    next
      case False
      with s2 assms(3,4) show ?thesis by simp
    qed
  qed
  have "(jr_status res = 200 \<and> board_of (jr_state res) i = a_claim_board c b \<and>
        map_option entry (jr_job res) = map_option (apsnd a_claim) (a_next c (a_tick c b)) \<or>
      jr_status res = 500 \<and> (board_of (jr_state res) i = a_tick c b \<or> board_of (jr_state res) i = a_claim_board c b)) \<and>
    (j \<noteq> i \<longrightarrow> board_of (jr_state res) j = board_of s j) \<and> list_all well (stored_jobs (jr_state res) i)"
  proof (cases "err = None \<and> (\<exists>job. nextQueuedBenchmarkJob node' ?now = Some job)")
    case False
    then have "jr_state res = s2"
        "jr_status res = 200 \<and> jr_job res = None \<and> nextQueuedBenchmarkJob node' ?now = None \<or> jr_status res = 500"
      using rc s2 unfolding res_def by (auto simp: claiming_def Let_def job_answer_def split: option.splits)
    then show ?thesis using two r(1,5) by (auto simp: a_claim_board_def)
  next
    case True
    then obtain job0 where job0: "nextQueuedBenchmarkJob node' ?now = Some job0" and err: "err = None" by blast
    define job where "job = claim_job ?now ?p job0"
    define node2 where "node2 = observe [(''benchmark_status'', GStr ''running''), (''benchmark_id'', field job ''benchmark_id''),
      (''benchmark_updated_at'', GTime ?now)] node'"
    obtain err3 s3 where up: "upsert e (put_job job node2) s2 = (err3, s3)" by fastforce
    have st: "node_of (jr_state res) j = node_of s3 j" "jr_status res = 200 \<and> jr_job res = Some job \<or> jr_status res = 500" for j
      using rc s2 up job0 err unfolding res_def job_def node2_def
      by (simp_all add: claiming_def Let_def job_answer_def split: option.split)
    have jl: "job_list node2 = job_list node'" "n_NodeID node2 = i"
      using id' by (simp_all add: node2_def job_list_job_field observe_job_field)
    have mem: "job0 \<in> set (job_list node')" using job0 by (auto simp: nextQueuedBenchmarkJob_def find_Some_iff)
    have "entry job0 \<in> set (a_tick c b)" using mem r(1) by (metis image_eqI set_map)
    with tick_attempts [OF assms(5), folded b_def, of c] have at: "aj_attempt (abs_job job0) < 2 ^ 61"
      by (auto simp: list_all_iff entry_def)
    have w0: "well job0" using r(2) mem by (simp add: list_all_iff)
    note cl = entry_claimed [OF w0, of ?now ?p, folded job_def]
    have entry: "job_id job = job_id job0" "abs_job job = a_claim (abs_job job0)" "well job"
      using cl at by (simp_all add: entry_def)
    have nx: "a_next c (a_tick c b) = Some (entry job0)" using r(1,5) job0 by simp
    note put = put_board [OF up, unfolded jl, OF assms(2) r(2) entry(3)]
    have "board_of (jr_state res) i = a_claim_board c b"
      using put(1) [of i] st(1) entry r(1) nx by (simp add: a_claim_board_def) (simp add: entry_def)
    moreover have "map_option (apsnd a_claim) (a_next c (a_tick c b)) = Some (entry job)"
      using nx entry by (simp add: entry_def)
    moreover have "j \<noteq> i \<longrightarrow> board_of (jr_state res) j = board_of s j" using put(1) [of j] st(1) two(1) by simp
    ultimately show ?thesis using st put(2) by auto
  qed
  then show "jr_status res = 200 \<and> board_of (jr_state res) i = a_claim_board c b \<and>
        map_option entry (jr_job res) = map_option (apsnd a_claim) (a_next c (a_tick c b)) \<or>
      jr_status res = 500 \<and> (board_of (jr_state res) i = a_tick c b \<or> board_of (jr_state res) i = a_claim_board c b)"
    and "j \<noteq> i \<Longrightarrow> board_of (jr_state res) j = board_of s j"
    and "list_all well (stored_jobs (jr_state res) i)" by blast+
qed

lemma updated_board:
  assumes "upsert e (put_job job' node') s = (err, s')" "n_NodeID node' = i" "i \<noteq> []" "job_list node' = stored_jobs s i"
    and "list_all well (stored_jobs s i)" "find (\<lambda>job. job_id job = k) (stored_jobs s i) = Some job"
    and "entry job' = (job_id job, f (abs_job job))" "well job'"
  shows "board_of s' j = (if j = i then a_update k f (board_of s i) else board_of s j)" "list_all well (stored_jobs s' i)"
  using put_board [OF assms(1), unfolded assms(2,4), OF assms(3,5,8)] assms(6,7)
  by (simp_all add: a_update_def find_entry entry_def)

lemma find_is: "findBenchmarkJob node k = find (\<lambda>job. job_id job = k) (job_list node)"
  by (simp add: findBenchmarkJob_def job_id_def)

lemma reporting_board:
  fixes e :: "'r sub_env" and s :: "'r auth_state" and k code :: string
  assumes "n_NodeID node = i" "i \<noteq> []" "node_of s i = node" "list_all well (job_list node)" "benchmarkJobStatusAllowed st"
  defines "res \<equiv> reporting e k st code node s"
  shows "board_of (jr_state res) j = (if j = i then a_update k (a_report st) (board_of s i) else board_of s j)"
    and "list_all well (stored_jobs (jr_state res) i)"
    and "jr_status res = 404 \<Longrightarrow> board_of (jr_state res) j = board_of s j"
proof -
  have "board_of (jr_state res) j = (if j = i then a_update k (a_report st) (board_of s i) else board_of s j) \<and>
    list_all well (stored_jobs (jr_state res) i) \<and> (jr_status res = 404 \<longrightarrow> board_of (jr_state res) j = board_of s j)"
  proof (cases "findBenchmarkJob node k")
    case None
    then show ?thesis
      using assms(3,4) by (simp add: res_def reporting_def job_answer_def a_update_def find_entry find_is)
  next
    case (Some job)
    let ?now = "be_now e" and ?p = "benchmarkSchedulerConfig s"
    let ?node = "observe [(''benchmark_status'', GStr st), (''benchmark_id'', GStr k), (''benchmark_updated_at'', GTime ?now)] node"
    obtain err s' where up: "upsert e (put_job (report_job ?now ?p st code job) ?node) s = (err, s')" by fastforce
    have w: "well job" using Some assms(4) by (auto simp: findBenchmarkJob_def find_Some_iff list_all_iff)
    have jl: "job_list ?node = stored_jobs s i" using assms(3) by (simp add: job_list_job_field observe_job_field)
    note u = updated_board [where f = "a_report st" and job = job and k = k, OF up _ assms(2) jl _ _
        entry_reported [OF w assms(5), of ?now ?p code]]
    have st: "node_of (jr_state res) x = node_of s' x" "jr_status res \<noteq> 404" for x
      using Some up by (simp_all add: res_def reporting_def Let_def job_answer_def split: option.split)
    show ?thesis using u st assms(1,3,4) Some by (simp add: find_is)
  qed
  then show "board_of (jr_state res) j = (if j = i then a_update k (a_report st) (board_of s i) else board_of s j)"
    and "list_all well (stored_jobs (jr_state res) i)"
    and "jr_status res = 404 \<Longrightarrow> board_of (jr_state res) j = board_of s j" by blast+
qed

lemma delivering_board:
  fixes e :: "'r sub_env" and s :: "'r auth_state" and b :: subscriberBenchmarkResultRequest
  assumes "n_NodeID node = i" "i \<noteq> []" "node_of s i = node" "list_all well (job_list node)" "job_field node = json_val (job_field node)"
  defines "res \<equiv> delivering e b node s"
    and "result \<equiv> benchmarkResultMap (be_now e) (e_random (ae_env (be_auth e))) b CapabilitySourceSubscriberReported ''subscriber_reported''"
  shows "board_of (jr_state res) j =
      (if j = i \<and> job_id result \<noteq> [] then a_update (job_id result) (a_finish (as_string (field result ''status''))) (board_of s i)
       else board_of s j)"
    and "list_all well (stored_jobs (jr_state res) i)"
proof -
  let ?now = "be_now e"
  define node1 where "node1 = applyBenchmarkResult ?now result CapabilitySourceSubscriberReported node"
  define node2 where "node2 = completeBenchmarkJobWithResult ?now result node1"
  define node3 where "node3 = (if 0 < rr_TokensPerSecond b
    then updateModelBenchmarkRate (safeBenchmarkString (rr_Model b)) (rr_TokensPerSecond b) node2 else node2)"
  obtain err s' where up: "upsert e node3 s = (err, s')" by fastforce
  have n1: "n_NodeID node1 = i" "job_list node1 = stored_jobs s i" "job_field node1 = job_field node"
    using assms(1,3) by (simp_all add: node1_def job_list_job_field)
  have n2: "n_NodeID node2 = i"
    using n1 by (simp add: node2_def completeBenchmarkJobWithResult_def Let_def split: option.split)
  have n3: "n_NodeID node3 = i" "job_field node3 = job_field node2" using n2 by (simp_all add: node3_def job_field_def)
  have st: "node_of (jr_state res) x = node_of s' x" for x
    using up unfolding res_def delivering_def Let_def node3_def node2_def node1_def result_def by (simp split: option.split)
  have jobs: "stored_jobs s' x = (if x = i then benchmarkJobs (json_val (job_field node2)) else stored_jobs s x)" for x
    using upsert_jobs [OF up, of x] n3 assms(2) by simp
  have "board_of s' j = (if j = i \<and> job_id result \<noteq> [] then a_update (job_id result) (a_finish (as_string (field result ''status''))) (board_of s i)
       else board_of s j) \<and> list_all well (stored_jobs s' i)"
  proof (cases "job_id result \<noteq> [] \<and> find (\<lambda>job. job_id job = job_id result) (stored_jobs s i) \<noteq> None")
    case True
    then obtain job where job: "find (\<lambda>job. job_id job = job_id result) (stored_jobs s i) = Some job" by blast
    have node2: "node2 = put_job (finish_job ?now result job) node1"
      using True job n1(2) unfolding node2_def completeBenchmarkJobWithResult_def Let_def find_is by (simp add: job_id_def)
    obtain err4 s4 where up4: "upsert e (put_job (finish_job ?now result job) node1) s = (err4, s4)" by fastforce
    have w: "well job" using job assms(3,4) by (auto simp: find_Some_iff list_all_iff)
    note u = updated_board [where f = "a_finish (as_string (field result ''status''))" and job = job,
        OF up4 n1(1) assms(2) n1(2) _ job entry_finished [OF w, of ?now result]]
    have "stored_jobs s4 x = stored_jobs s' x" for x
      using jobs upsert_jobs [OF up4, of x] n2 assms(2) node2 by simp
    then show ?thesis using u assms(3,4) True by simp
  next
    case False
    then have "node2 = node1"
      using n1(2) unfolding node2_def completeBenchmarkJobWithResult_def Let_def find_is by (auto simp: job_id_def split: option.split)
    then have "stored_jobs s' x = stored_jobs s x" for x
      using jobs n1 assms(3,5) by (simp add: job_list_job_field)
    then show ?thesis using False assms(3,4) by (auto simp: a_update_def find_entry)
  qed
  then show "board_of (jr_state res) j =
      (if j = i \<and> job_id result \<noteq> [] then a_update (job_id result) (a_finish (as_string (field result ''status''))) (board_of s i)
       else board_of s j)" "list_all well (stored_jobs (jr_state res) i)"
    using st by simp_all
qed

text \<open>Only managed nodes have jobs to reconcile.\<close>

definition job_node :: "Node \<Rightarrow> bool" where
  "job_node node \<longleftrightarrow> n_ControlLevel node = [] \<or> n_ControlLevel node = ControlLevelManaged"

lemma reconcile_nodes_board:
  assumes "list_all (\<lambda>n. n_NodeID n \<noteq> [] \<and> node_of s (n_NodeID n) = n) nodes" "distinct (map n_NodeID nodes)"
    and "list_all well (stored_jobs s i)"
  shows "board_of (snd (reconcile_nodes e reason p nodes run s)) i =
      (if i \<in> set (map n_NodeID nodes) \<and> job_node (node_of s i) then a_tick (clock_of (be_now e) p (stored_jobs s i)) (board_of s i)
       else board_of s i) \<and>
    list_all well (stored_jobs (snd (reconcile_nodes e reason p nodes run s)) i)"
  using assms
proof (induction nodes arbitrary: run s)
  case (Cons node nodes)
  let ?c = "clock_of (be_now e) p (stored_jobs s i)"
  obtain run1 node' where rc: "reconcileBenchmarkJobsForNode (be_now e) reason p node = (run1, node')" by fastforce
  obtain err s1 where up: "upsert e node' s = (err, s1)" by fastforce
  have id': "n_NodeID node' = n_NodeID node" by (rule reconciled_field(1) [OF rc])
  have node: "n_NodeID node \<noteq> []" "node_of s (n_NodeID node) = node" "n_NodeID node \<notin> set (map n_NodeID nodes)"
    and rest: "list_all (\<lambda>n. n_NodeID n \<noteq> [] \<and> node_of s (n_NodeID n) = n) nodes" "distinct (map n_NodeID nodes)"
    using Cons.prems by simp_all
  note after = node_of_upsert [OF up, unfolded id', OF node(1)]
  have nodes1: "list_all (\<lambda>n. n_NodeID n \<noteq> [] \<and> node_of s1 (n_NodeID n) = n) nodes"
    unfolding list_all_iff
  proof
    fix n
    assume n: "n \<in> set nodes"
    then have "n_NodeID n \<noteq> n_NodeID node" using node(3) by (metis image_eqI set_map)
    then show "n_NodeID n \<noteq> [] \<and> node_of s1 (n_NodeID n) = n"
      using after [of "n_NodeID n"] n rest(1) by (simp add: list_all_iff)
  qed
  note same = Cons.IH [OF rest Cons.prems(3)]
  show ?case
  proof (cases "n_ControlLevel node \<noteq> [] \<and> n_ControlLevel node \<noteq> ControlLevelManaged \<or> \<not> sr_Changed run1")
    case True
    have "a_tick ?c (board_of s i) = board_of s i" if "i = n_NodeID node" "job_node (node_of s i)"
      using reconciled_board(1,3) [OF rc] Cons.prems(3) node(2) that True by (auto simp: job_node_def)
    moreover have "reconcile_nodes e reason p (node # nodes) run s = reconcile_nodes e reason p nodes run s"
      using True rc by auto
    ultimately show ?thesis using same [of run] node(3) by auto
  next
    case False
    then have ch: "sr_Changed run1" "job_node node" by (auto simp: job_node_def)
    have s1: "board_of s1 i = (if i = n_NodeID node then a_tick ?c (board_of s i) else board_of s i)" "list_all well (stored_jobs s1 i)"
    proof -
      have "board_of s1 i = (if i = n_NodeID node then a_tick ?c (board_of s i) else board_of s i) \<and> list_all well (stored_jobs s1 i)"
      proof (cases "i = n_NodeID node")
        case True
        note r = reconciled_board [OF rc Cons.prems(3) [unfolded True node(2)]]
        note w = written_board [OF up _ r(4) [OF ch(1)] r(2), unfolded id', OF node(1)]
        show ?thesis using True r(1) w(1) [of i] w(2) node(2) by simp
      next
        case False
        then show ?thesis using after [of i] Cons.prems(3) by simp
      qed
      then show "board_of s1 i = (if i = n_NodeID node then a_tick ?c (board_of s i) else board_of s i)" "list_all well (stored_jobs s1 i)"
        by simp_all
    qed
    let ?goal = "\<lambda>s3. board_of s3 i = (if i \<in> set (map n_NodeID (node # nodes)) \<and> job_node (node_of s i) then a_tick ?c (board_of s i)
      else board_of s i) \<and> list_all well (stored_jobs s3 i)"
    have rest: "?goal (snd (reconcile_nodes e reason p nodes run2 s2))" if s2: "\<And>j. node_of s2 j = node_of s1 j" for run2 s2
    proof -
      have "list_all (\<lambda>n. n_NodeID n \<noteq> [] \<and> node_of s2 (n_NodeID n) = n) nodes" using nodes1 s2 by simp
      note ih = Cons.IH [OF this rest(2), of run2]
      show ?thesis
      proof (cases "i = n_NodeID node")
        case True
        then show ?thesis using ih s1 ch(2) node(2,3) s2 [of i] by simp
      next
        case False
        then show ?thesis using ih s1 after [of i] s2 [of i] by simp
      qed
    qed
    show ?thesis
    proof (cases err)
      case None
      from False have "reconcile_nodes e reason p (node # nodes) run s = reconcile_nodes e reason p nodes
          \<lparr> sr_Changed = True, sr_TimedOut = sr_TimedOut run + sr_TimedOut run1, sr_Retried = sr_Retried run + sr_Retried run1,
            sr_Exhausted = sr_Exhausted run + sr_Exhausted run1 \<rparr>
          (emit_sub e ''benchmark_scheduler_reconcile'' [(''node_id'', GStr (n_NodeID node')),
            (''timed_out'', GInt (sr_TimedOut run1)), (''retried'', GInt (sr_Retried run1)), (''exhausted'', GInt (sr_Exhausted run1)),
            (''reason'', GStr reason), (''scheduler'', GStr PolicyBoundedRetryTimeout)] s1)"
        by (auto simp: rc up None)
      then show ?thesis using rest by simp
    next
      case (Some x)
      from False have "reconcile_nodes e reason p (node # nodes) run s = reconcile_nodes e reason p nodes run s1"
        by (auto simp: rc up Some)
      then show ?thesis using rest [of s1 run] by simp
    qed
  qed
qed simp

lemma reconcile_board:
  assumes "store_wf (at_store s)" "goget (st_Nodes (s_state (at_store s))) [] = None" "list_all well (stored_jobs s i)"
  shows "board_of (snd (reconcileBenchmarkJobs e reason s)) i =
      (if job_node (node_of s i) then a_tick (clock_of (be_now e) (benchmarkSchedulerConfig s) (stored_jobs s i)) (board_of s i)
       else board_of s i)"
    and "list_all well (stored_jobs (snd (reconcileBenchmarkJobs e reason s)) i)"
proof -
  let ?m = "st_Nodes (Snapshot (at_store s))"
  note nodes = snapshot_nodes [OF assms(1,2)]
  note loop = reconcile_nodes_board [OF nodes assms(3), of e reason "benchmarkSchedulerConfig s" noRun, folded reconcileBenchmarkJobs_def]
  have "board_of s i = []" if "i \<notin> set (map n_NodeID (map snd ?m))"
  proof -
    have "goget ?m i = None"
    proof (rule ccontr)
      assume "goget ?m i \<noteq> None"
      then obtain n where n: "goget ?m i = Some n" by blast
      then have "n \<in> set (map snd ?m)" using goget_in_set [OF n] by force
      moreover have "n_NodeID n = i" using nodes_wf_snapshot [OF assms(1)] goget_in_set [OF n] by (auto simp: nodes_wf_def)
      ultimately show False using that by auto
    qed
    then show ?thesis
      by (simp add: node_of_def job_list_def zeroNode_def benchmarkJobs_def as_maps_def field_def goget_def)
  qed
  then show "board_of (snd (reconcileBenchmarkJobs e reason s)) i =
      (if job_node (node_of s i) then a_tick (clock_of (be_now e) (benchmarkSchedulerConfig s) (stored_jobs s i)) (board_of s i)
       else board_of s i)"
    and "list_all well (stored_jobs (snd (reconcileBenchmarkJobs e reason s)) i)"
    using loop by (auto simp: clock_of_def)
qed

text \<open>The node that a request names, and what a handler does when the node is not accepted.\<close>

definition claimant :: "subscriberBenchmarkJobRequest option \<Rightarrow> string" where
  "claimant body = (case body of None \<Rightarrow> [] | Some b \<Rightarrow> TrimSpace (jq_NodeID b))"

definition result_sender :: "subscriberBenchmarkResultRequest option \<Rightarrow> string" where
  "result_sender body = (case body of None \<Rightarrow> [] | Some b \<Rightarrow> TrimSpace (rr_NodeID b))"

lemma with_reporter_cases:
  assumes "store_wf (at_store s)" "nodeID \<noteq> []"
  obtains (refused) st s1 where "with_reporter e r nodeID k s = job_answer st None s1" "st \<in> {400, 401, 404}" "\<And>j. node_of s1 j = node_of s j"
  | (accepted) node s1 where "with_reporter e r nodeID k s = k node s1" "n_NodeID node = nodeID" "node_of s1 nodeID = node"
      "\<And>j. node_of s1 j = node_of s j" "job_field node = json_val (job_field node)" "benchmarkSchedulerConfig s1 = benchmarkSchedulerConfig s"
proof -
  obtain res s1 where r: "reporting_node e r nodeID s = (res, s1)" by fastforce
  have s1: "node_of s1 j = node_of s j" for j using node_of_reporting [of e r nodeID s j] r by simp
  show ?thesis
  proof (cases res)
    case (Inl st)
    then have "st \<in> {400, 401, 404}" using r by (auto simp: reporting_node_def split: option.splits if_splits prod.splits)
    moreover have "with_reporter e r nodeID k s = job_answer st None s1" using r Inl by (simp add: with_reporter_def)
    ultimately show ?thesis using refused s1 by blast
  next
    case (Inr node)
    then have r: "reporting_node e r nodeID s = (Inr node, s1)" using r by simp
    have k: "with_reporter e r nodeID k s = k node s1" using r by (simp add: with_reporter_def)
    have p: "benchmarkSchedulerConfig s1 = benchmarkSchedulerConfig s" using reporting_store [OF r] by (simp add: benchmarkSchedulerConfig_def)
    note j = reporting_node_jobs [OF r assms(2,1)]
    show ?thesis by (rule accepted [OF k j(1) _ s1 j(3) p]) (simp add: s1 j(2))
  qed
qed

lemma answer_parts [simp]: "jr_status (job_answer st job s) = st" "jr_job (job_answer st job s) = job"
  by (simp_all add: job_answer_def)

text \<open>Nothing happens to the other nodes.\<close>

lemma reporting_frame:
  assumes "n_NodeID node = i" "i \<noteq> []" "j \<noteq> i"
  shows "node_of (jr_state (reporting e k st code node s)) j = node_of s j"
proof (cases "findBenchmarkJob node k")
  case (Some job)
  obtain err s' where up: "upsert e (put_job (report_job (be_now e) (benchmarkSchedulerConfig s) st code job)
      (observe [(''benchmark_status'', GStr st), (''benchmark_id'', GStr k), (''benchmark_updated_at'', GTime (be_now e))] node)) s = (err, s')"
    by fastforce
  with Some node_of_upsert [OF up, of j] assms show ?thesis by (simp add: reporting_def Let_def split: option.split)
qed (simp add: reporting_def)

lemma delivering_frame:
  assumes "n_NodeID node = i" "i \<noteq> []" "j \<noteq> i"
  shows "node_of (jr_state (delivering e b node s)) j = node_of s j"
proof -
  define result where "result = benchmarkResultMap (be_now e) (e_random (ae_env (be_auth e))) b CapabilitySourceSubscriberReported ''subscriber_reported''"
  define node1 where "node1 = completeBenchmarkJobWithResult (be_now e) result (applyBenchmarkResult (be_now e) result CapabilitySourceSubscriberReported node)"
  define node2 where "node2 = (if 0 < rr_TokensPerSecond b
    then updateModelBenchmarkRate (safeBenchmarkString (rr_Model b)) (rr_TokensPerSecond b) node1 else node1)"
  obtain err s' where up: "upsert e node2 s = (err, s')" by fastforce
  have "n_NodeID node2 = i"
    using assms(1) by (simp add: node2_def node1_def completeBenchmarkJobWithResult_def Let_def split: option.split)
  then have "node_of s' j = node_of s j" using node_of_upsert [OF up, of j] assms by simp
  then show ?thesis
    using up unfolding delivering_def Let_def node2_def node1_def result_def by (simp split: option.split)
qed

lemma claiming_frame:
  assumes "n_NodeID node = i" "i \<noteq> []" "j \<noteq> i"
  shows "node_of (jr_state (claiming e node s)) j = node_of s j"
proof -
  let ?now = "be_now e" and ?p = "benchmarkSchedulerConfig s"
  obtain run node' where rc: "reconcileBenchmarkJobsForNode ?now ''subscriber_claim'' ?p node = (run, node')" by fastforce
  obtain err s2 where s2: "(if sr_Changed run then upsert e node' s else (None, s)) = (err, s2)" by fastforce
  have id': "n_NodeID node' = i" using reconciled_field(1) [OF rc] assms(1) by simp
  have two: "node_of s2 j = node_of s j" using s2 node_of_upsert [of e node' s err s2 j] id' assms by (auto split: if_splits)
  show ?thesis
  proof (cases "err = None \<and> (\<exists>job. nextQueuedBenchmarkJob node' ?now = Some job)")
    case False
    then have "jr_state (claiming e node s) = s2" using rc s2 by (auto simp: claiming_def Let_def split: option.splits)
    then show ?thesis using two by simp
  next
    case True
    then obtain job where job: "nextQueuedBenchmarkJob node' ?now = Some job" and err: "err = None" by blast
    obtain err3 s3 where up: "upsert e (put_job (claim_job ?now ?p job) (observe [(''benchmark_status'', GStr ''running''),
        (''benchmark_id'', field (claim_job ?now ?p job) ''benchmark_id''), (''benchmark_updated_at'', GTime ?now)] node')) s2 = (err3, s3)"
      by fastforce
    have "node_of (jr_state (claiming e node s)) j = node_of s3 j"
      using rc s2 up job err by (simp add: claiming_def Let_def split: option.split)
    then show ?thesis using node_of_upsert [OF up, of j] id' assms(2,3) two by simp
  qed
qed

lemma with_reporter_board:
  assumes "store_wf (at_store s)" "nodeID \<noteq> []" "list_all well (stored_jobs s i)"
    and frame: "\<And>node s1. n_NodeID node = nodeID \<Longrightarrow> i \<noteq> nodeID \<Longrightarrow> node_of (jr_state (k node s1)) i = node_of s1 i"
    and own: "\<And>node s1. nodeID = i \<Longrightarrow> n_NodeID node = i \<Longrightarrow> node_of s1 i = node \<Longrightarrow> job_list node = stored_jobs s i \<Longrightarrow>
      job_field node = json_val (job_field node) \<Longrightarrow> benchmarkSchedulerConfig s1 = benchmarkSchedulerConfig s \<Longrightarrow> P (k node s1)"
  shows "nodeID = i \<and> P (with_reporter e r nodeID k s) \<or>
    board_of (jr_state (with_reporter e r nodeID k s)) i = board_of s i \<and>
    list_all well (stored_jobs (jr_state (with_reporter e r nodeID k s)) i) \<and>
    (nodeID = i \<longrightarrow> jr_status (with_reporter e r nodeID k s) \<in> {400, 401, 404})"
proof (rule with_reporter_cases [OF assms(1,2), of e r k], goal_cases refused accepted)
  case (refused st s1)
  then show ?case using assms(3) by (cases "nodeID = i") auto
next
  case (accepted node s1)
  show ?case
  proof (cases "nodeID = i")
    case True
    then show ?thesis using own [of node s1] accepted by simp
  next
    case False
    then show ?thesis using frame [OF accepted(2), of s1] accepted(1,4) assms(3) by simp
  qed
qed

lemma claim_board:
  fixes e :: "'r sub_env" and s :: "'r auth_state" and r :: auth_request and body :: "subscriberBenchmarkJobRequest option"
  assumes "store_wf (at_store s)" "list_all well (stored_jobs s i)" "list_all (\<lambda>(k, a). aj_attempt a < 2 ^ 61) (board_of s i)"
  defines "res \<equiv> subscriberBenchmarkJobClaim e r body s" and "b \<equiv> board_of s i"
    and "c \<equiv> clock_of (be_now e) (benchmarkSchedulerConfig s) (stored_jobs s i)"
  shows "(if claimant body = i \<and> jr_status res = 200
      then board_of (jr_state res) i = a_claim_board c b \<and>
        map_option entry (jr_job res) = map_option (apsnd a_claim) (a_next c (a_tick c b))
      else if claimant body = i \<and> jr_status res = 500
      then board_of (jr_state res) i = a_tick c b \<or> board_of (jr_state res) i = a_claim_board c b
      else board_of (jr_state res) i = b) \<and> list_all well (stored_jobs (jr_state res) i)"
proof (cases "claimant body = []")
  case True
  then have "res = job_answer 400 None s"
    by (auto simp: res_def claimant_def subscriberBenchmarkJobClaim_def split: option.splits)
  then show ?thesis using assms(2) by (simp add: b_def)
next
  case False
  then have res: "res = with_reporter e r (claimant body) (claiming e) s"
    by (auto simp: res_def claimant_def subscriberBenchmarkJobClaim_def split: option.splits)
  let ?P = "\<lambda>res. (jr_status res = 200 \<and> board_of (jr_state res) i = a_claim_board c b \<and>
        map_option entry (jr_job res) = map_option (apsnd a_claim) (a_next c (a_tick c b)) \<or>
      jr_status res = 500 \<and> (board_of (jr_state res) i = a_tick c b \<or> board_of (jr_state res) i = a_claim_board c b)) \<and>
      list_all well (stored_jobs (jr_state res) i)"
  have own: "?P (claiming e node s1)" if "claimant body = i" "n_NodeID node = i" "node_of s1 i = node"
    "job_list node = stored_jobs s i" "benchmarkSchedulerConfig s1 = benchmarkSchedulerConfig s" for node s1
    using claiming_board [OF that(2) _ that(3), unfolded that(4,5), OF _ assms(2,3), where e = e, folded c_def b_def] that(1) False by blast
  have "claimant body = i \<and> ?P res \<or> board_of (jr_state res) i = b \<and> list_all well (stored_jobs (jr_state res) i) \<and>
      (claimant body = i \<longrightarrow> jr_status res \<in> {400, 401, 404})"
    unfolding res b_def [symmetric]
    by (rule with_reporter_board [OF assms(1) False assms(2), folded b_def]) (simp_all add: claiming_frame False own)
  then show ?thesis by auto
qed

lemma status_board:
  fixes e :: "'r sub_env" and s :: "'r auth_state" and r :: auth_request and body :: "subscriberBenchmarkJobRequest option"
  assumes "store_wf (at_store s)" "list_all well (stored_jobs s i)"
  defines "res \<equiv> subscriberBenchmarkJobStatus e r body s"
  shows "board_of (jr_state res) i =
      (if claimant body = i \<and> jr_status res \<in> {200, 500}
       then a_update (safeBenchmarkString (jq_BenchmarkID (the body))) (a_report (safeBenchmarkStatus (jq_Status (the body)))) (board_of s i)
       else board_of s i) \<and> list_all well (stored_jobs (jr_state res) i)"
proof (cases "\<exists>b. body = Some b \<and> TrimSpace (jq_NodeID b) \<noteq> [] \<and> safeBenchmarkString (jq_BenchmarkID b) \<noteq> [] \<and>
    benchmarkJobStatusAllowed (safeBenchmarkStatus (jq_Status b))")
  case False
  then have "res = job_answer 400 None s"
    by (auto simp: res_def subscriberBenchmarkJobStatus_def Let_def split: option.splits)
  then show ?thesis using assms(2) by simp
next
  case True
  then obtain b where b: "body = Some b" "TrimSpace (jq_NodeID b) \<noteq> []" "safeBenchmarkString (jq_BenchmarkID b) \<noteq> []"
    "benchmarkJobStatusAllowed (safeBenchmarkStatus (jq_Status b))" by blast
  define k st where "k = safeBenchmarkString (jq_BenchmarkID b)" and "st = safeBenchmarkStatus (jq_Status b)"
  have res: "res = with_reporter e r (TrimSpace (jq_NodeID b)) (reporting e k st (jq_ErrorCode b)) s"
    using b by (simp add: res_def subscriberBenchmarkJobStatus_def Let_def k_def st_def)
  let ?P = "\<lambda>res. board_of (jr_state res) i = a_update k (a_report st) (board_of s i) \<and> list_all well (stored_jobs (jr_state res) i) \<and>
    (jr_status res = 404 \<longrightarrow> board_of (jr_state res) i = board_of s i) \<and> jr_status res \<in> {200, 404, 500}"
  have own: "?P (reporting e k st (jq_ErrorCode b) node s1)" if "TrimSpace (jq_NodeID b) = i" "n_NodeID node = i" "node_of s1 i = node"
    "job_list node = stored_jobs s i" for node s1
  proof -
    have "jr_status (reporting e k st (jq_ErrorCode b) node s1) \<in> {200, 404, 500}"
      by (simp add: reporting_def Let_def split: option.split prod.split)
    moreover note rb = reporting_board [OF that(2) _ that(3), unfolded that(4), OF _ assms(2) b(4) [folded st_def],
        where e = e and k = k and code = "jq_ErrorCode b"]
    ultimately show ?thesis using rb(1) [of i] rb(2) rb(3) [of i] that b(2) by simp
  qed
  have "TrimSpace (jq_NodeID b) = i \<and> ?P res \<or> board_of (jr_state res) i = board_of s i \<and> list_all well (stored_jobs (jr_state res) i) \<and>
      (TrimSpace (jq_NodeID b) = i \<longrightarrow> jr_status res \<in> {400, 401, 404})"
    unfolding res by (rule with_reporter_board [OF assms(1) b(2) assms(2)], simp add: reporting_frame b(2), rule own)
  then show ?thesis using b(1) by (auto simp: claimant_def k_def st_def)
qed

lemma result_on_board:
  fixes e :: "'r sub_env" and s :: "'r auth_state" and r :: auth_request and body :: "subscriberBenchmarkResultRequest option"
  assumes "store_wf (at_store s)" "list_all well (stored_jobs s i)"
  defines "res \<equiv> subscriberBenchmarkResult e r body s"
    and "result \<equiv> benchmarkResultMap (be_now e) (e_random (ae_env (be_auth e))) (the body) CapabilitySourceSubscriberReported ''subscriber_reported''"
  shows "board_of (jr_state res) i =
      (if result_sender body = i \<and> jr_status res \<in> {200, 500} \<and> job_id result \<noteq> []
       then a_update (job_id result) (a_finish (as_string (field result ''status''))) (board_of s i)
       else board_of s i) \<and> list_all well (stored_jobs (jr_state res) i)"
proof (cases "result_sender body = []")
  case True
  then have "res = job_answer 400 None s"
    by (auto simp: res_def result_sender_def subscriberBenchmarkResult_def split: option.splits)
  then show ?thesis using assms(2) by simp
next
  case False
  then obtain b where b: "body = Some b" by (cases body) (simp_all add: result_sender_def)
  have res: "res = with_reporter e r (result_sender body) (delivering e b) s"
    using False by (simp add: res_def result_sender_def subscriberBenchmarkResult_def b)
  let ?P = "\<lambda>res. board_of (jr_state res) i =
      (if job_id result \<noteq> [] then a_update (job_id result) (a_finish (as_string (field result ''status''))) (board_of s i) else board_of s i) \<and>
    list_all well (stored_jobs (jr_state res) i) \<and> jr_status res \<in> {200, 500}"
  have own: "?P (delivering e b node s1)" if "result_sender body = i" "n_NodeID node = i" "node_of s1 i = node"
    "job_list node = stored_jobs s i" "job_field node = json_val (job_field node)" for node s1
  proof -
    have "jr_status (delivering e b node s1) \<in> {200, 500}"
      by (simp add: delivering_def Let_def split: option.split prod.split)
    moreover note db = delivering_board [OF that(2) _ that(3), unfolded that(4), OF _ assms(2) that(5), where e = e and b = b]
    ultimately show ?thesis using db(1) [of i] db(2) that False b by (simp add: result_def)
  qed
  have "result_sender body = i \<and> ?P res \<or> board_of (jr_state res) i = board_of s i \<and> list_all well (stored_jobs (jr_state res) i) \<and>
      (result_sender body = i \<longrightarrow> jr_status res \<in> {400, 401, 404})"
    unfolding res by (rule with_reporter_board [OF assms(1) False assms(2)], simp add: delivering_frame False, rule own)
  then show ?thesis by auto
qed

section \<open>Properties\<close>

text \<open>C11. Refinement. What the handlers of benchmark jobs do to the stored jobs of a node is, exactly, what the operations of its board do:
  a claim of the node lets time pass (a lease that has run out fails its job, a pause that is over opens it again) and takes the first job that is
  open and due, whose attempts grow by one and which the answer carries; a status report and a result change only the first job of the identifier
  they name, and put it in front as the only one of its identifier; the reconciliation of the fleet lets time pass for every managed node. Refused requests, and the
  requests of other nodes, change nothing. When the store can not be written (500), a claim has done one of its two steps in memory. The jobs stay
  well-formed, so that the handlers can follow each other.\<close>

theorem job_refinement:
  assumes "store_wf (at_store s)" "goget (st_Nodes (s_state (at_store s))) [] = None"
    and "list_all well (stored_jobs s i)" "list_all (\<lambda>(k, a). aj_attempt a < 2 ^ 61) (board_of s i)"
  shows "let b = board_of s i; c = clock_of (be_now e) (benchmarkSchedulerConfig s) (stored_jobs s i);
      claim = subscriberBenchmarkJobClaim e r body s; report = subscriberBenchmarkJobStatus e r body s;
      result = subscriberBenchmarkResult e r result_body s; reconciled = snd (reconcileBenchmarkJobs e reason s);
      sent = benchmarkResultMap (be_now e) (e_random (ae_env (be_auth e))) (the result_body) CapabilitySourceSubscriberReported
        ''subscriber_reported''
    in
    (if claimant body = i \<and> jr_status claim = 200
      then board_of (jr_state claim) i = a_claim_board c b \<and>
        map_option entry (jr_job claim) = map_option (apsnd a_claim) (a_next c (a_tick c b))
      else if claimant body = i \<and> jr_status claim = 500
      then board_of (jr_state claim) i = a_tick c b \<or> board_of (jr_state claim) i = a_claim_board c b
      else board_of (jr_state claim) i = b) \<and>
    board_of (jr_state report) i =
      (if claimant body = i \<and> jr_status report \<in> {200, 500}
       then a_update (safeBenchmarkString (jq_BenchmarkID (the body))) (a_report (safeBenchmarkStatus (jq_Status (the body)))) b else b) \<and>
    board_of (jr_state result) i =
      (if result_sender result_body = i \<and> jr_status result \<in> {200, 500} \<and> job_id sent \<noteq> []
       then a_update (job_id sent) (a_finish (as_string (field sent ''status''))) b else b) \<and>
    board_of reconciled i = (if job_node (node_of s i) then a_tick c b else b) \<and>
    list_all well (stored_jobs (jr_state claim) i @ stored_jobs (jr_state report) i @ stored_jobs (jr_state result) i @ stored_jobs reconciled i)"
  using claim_board [OF assms(1,3,4), of body e r] status_board [OF assms(1,3), of e r body]
    result_on_board [OF assms(1,3), of e r result_body] reconcile_board [OF assms(1,2,3), of e reason]
  unfolding Let_def list_all_append by blast

section \<open>A concrete board\<close>

lemma sample_board:
  "stored_jobs jobState ''gpu-1'' = [json_obj sampleJob]" "well sampleJob" "well (json_obj sampleJob)"
  "board_of jobState ''gpu-1'' = [(''b1'', \<lparr> aj_phase = Open_job, aj_attempt = 2, aj_max = 3 \<rparr>)]"
  "a_claim_board (clock_of 5 p (stored_jobs jobState ''gpu-1'')) (board_of jobState ''gpu-1'') =
     [(''b1'', \<lparr> aj_phase = Leased, aj_attempt = 3, aj_max = 3 \<rparr>)]"
proof -
  show jobs: "stored_jobs jobState ''gpu-1'' = [json_obj sampleJob]" by (rule sample_evaluated(2))
  show w: "well sampleJob" using sample_evaluated(3) by (simp add: well_def sampleJob_def field_def goget_def)
  then show "well (json_obj sampleJob)" by (rule entry_json(2))
  show b: "board_of jobState ''gpu-1'' = [(''b1'', \<lparr> aj_phase = Open_job, aj_attempt = 2, aj_max = 3 \<rparr>)]"
    using jobs entry_json(1) [OF w] by code_simp
  have "benchmarkJobDue (json_obj sampleJob) 5" by code_simp
  then show "a_claim_board (clock_of 5 p (stored_jobs jobState ''gpu-1'')) (board_of jobState ''gpu-1'') =
     [(''b1'', \<lparr> aj_phase = Leased, aj_attempt = 3, aj_max = 3 \<rparr>)]"
    unfolding b unfolding jobs
    by (simp add: clock_of_def a_claim_board_def a_reconcile_def a_claim_def a_put_def maxBenchmarkJobs_def)
qed

lemma written_claim:
  assumes "e_write_ok (ae_env (be_auth e))"
  shows "jr_status (claiming e node s) = 200"
proof -
  have "fst (upsert e n s) = None" for n s
    using assms by (simp add: upsert_def on_store_def UpsertNode_def AppState.saveLocked_def Let_def case_prod_unfold)
  then show ?thesis
    by (auto simp: claiming_def Let_def case_prod_unfold split: option.split)
qed

text \<open>Witness: the third and last attempt of a queued job is claimed, and the answer carries it.\<close>

theorem job_refinement_witness:
  "let claim = subscriberBenchmarkJobClaim jobEnv (reportRequest []) jobRequest jobState;
       b = [(''b1'', \<lparr> aj_phase = Leased, aj_attempt = 3, aj_max = 3 \<rparr>)] in
   jr_status claim = 200 \<and> board_of (jr_state claim) ''gpu-1'' = b \<and> map_option entry (jr_job claim) = Some (hd b)"
proof -
  let ?claim = "subscriberBenchmarkJobClaim jobEnv (reportRequest []) jobRequest jobState"
  let ?c = "clock_of 5 (benchmarkSchedulerConfig jobState) (stored_jobs jobState ''gpu-1'')" and ?b = "board_of jobState ''gpu-1''"
  obtain s1 where r: "reporting_node jobEnv (reportRequest []) ''gpu-1'' jobState = (Inr (node_of jobState ''gpu-1''), s1)"
    using sample_evaluated(4) by blast
  have who: "claimant jobRequest = ''gpu-1''" and now: "be_now jobEnv = 5" and w: "e_write_ok (ae_env (be_auth jobEnv))" by code_simp+
  have ok: "jr_status ?claim = 200"
    using who written_claim [OF w] by (simp add: subscriberBenchmarkJobClaim_def with_reporter_def claimant_def jobRequest_def r)
  have none: "goget (st_Nodes (s_state (at_store jobState))) [] = None" by code_simp
  have "list_all well (stored_jobs jobState ''gpu-1'')" "list_all (\<lambda>(k, a). aj_attempt a < 2 ^ 61) ?b"
    using sample_board(1,3) by (simp, subst sample_board(4), simp)
  from job_refinement [OF sample_evaluated(1) none this, where e = jobEnv and r = "reportRequest []" and body = jobRequest
      and result_body = None and reason = "''tick''"]
  have "board_of (jr_state ?claim) ''gpu-1'' = a_claim_board ?c ?b"
    and job: "map_option entry (jr_job ?claim) = map_option (apsnd a_claim) (a_next ?c (a_tick ?c ?b))"
    unfolding Let_def by (simp_all only: who now ok simp_thms if_True)
  moreover have "a_next ?c (a_tick ?c ?b) = Some (''b1'', \<lparr> aj_phase = Open_job, aj_attempt = 2, aj_max = 3 \<rparr>)"
  proof -
    have "benchmarkJobDue (json_obj sampleJob) 5" by code_simp
    then show ?thesis unfolding sample_board(4) unfolding sample_board(1) by (simp add: clock_of_def a_reconcile_def)
  qed
  ultimately show ?thesis unfolding Let_def using ok sample_board(5) by (simp add: a_claim_def)
qed

end
