(* ===== verification/PeerDiscovery.thy ===== *)
theory PeerDiscovery
  imports SetupHandlers "HOL-Library.Product_Lexorder"
begin

unbundle bit_operations_syntax

text \<open>
  Peer discovery (\<^verbatim>\<open>httpapi/peer_discovery.go\<close>): one multicast query for three services, the parser of the answers, and the
  candidates that the operator is shown.

  A packet is a string of bytes. Reading a byte or a slice outside of the packet is a value of its own, \<open>Panicked\<close>, as Go panics there (a
  slice may reach up to the capacity of the buffer in Go; here it may not, which makes the absence of panics a stronger claim).
  Offsets are at most the length of a packet plus 65 535 and do not wrap.
\<close>

section \<open>Packets\<close>

datatype 'a parsed = Parsed 'a | Malformed string | Panicked

definition and_then :: "'a parsed \<Rightarrow> ('a \<Rightarrow> 'b parsed) \<Rightarrow> 'b parsed" where
  "and_then x f = (case x of Parsed a \<Rightarrow> f a | Malformed m \<Rightarrow> Malformed m | Panicked \<Rightarrow> Panicked)"

definition byte_at :: "string \<Rightarrow> nat \<Rightarrow> nat parsed" where
  "byte_at p i = (if i < length p then Parsed (of_char (p ! i)) else Panicked)"

definition slice :: "string \<Rightarrow> nat \<Rightarrow> nat \<Rightarrow> string parsed" where
  "slice p i j = (if i \<le> j \<and> j \<le> length p then Parsed (take (j - i) (drop i p)) else Panicked)"

definition Uint16 :: "string \<Rightarrow> nat \<Rightarrow> nat parsed" where
  "Uint16 p i = and_then (byte_at p i) (\<lambda>hi. and_then (byte_at p (i + 1)) (\<lambda>lo. Parsed (256 * hi + lo)))"

definition uint16_bytes :: "nat \<Rightarrow> string" where
  "uint16_bytes n = [char_of (n div 256 mod 256), char_of (n mod 256)]"

section \<open>Names\<close>

definition TrimSuffix :: "string \<Rightarrow> string \<Rightarrow> string" where
  "TrimSuffix s p = (if HasSuffix s p then take (length s - length p) s else s)"

definition dns_label :: "string \<Rightarrow> string" where
  "dns_label label = (let label = take 63 label in char_of (length label) # label)"

definition appendDNSName :: "string \<Rightarrow> string \<Rightarrow> string" where
  "appendDNSName packet name =
    packet @ concat (map dns_label (filter (\<lambda>label. label \<noteq> []) (Split (CHR ''.'') (TrimSuffix name ''.'')))) @ [CHR 0x00]"

definition buildMDNSQuery :: "string list \<Rightarrow> string" where
  "buildMDNSQuery services =
    fold (\<lambda>service packet. appendDNSName packet service @ uint16_bytes 12 @ uint16_bytes 1) services
      (replicate 4 (CHR 0x00) @ uint16_bytes (length services) @ replicate 6 (CHR 0x00))"

text \<open>The loop of \<^verbatim>\<open>readDNSName\<close>. The first argument is what is left of its 32 rounds; \<open>origin\<close> is the offset after the first pointer, once one was
  followed.\<close>

fun name_loop :: "nat \<Rightarrow> string \<Rightarrow> string list \<Rightarrow> nat option \<Rightarrow> nat \<Rightarrow> (string \<times> nat) parsed" where
  "name_loop 0 packet labels origin offset = Malformed ''dns name compression loop''"
| "name_loop (Suc rounds) packet labels origin offset =
    (if length packet \<le> offset then Malformed ''dns name out of bounds''
     else and_then (byte_at packet offset) (\<lambda>l.
       if l = 0 then Parsed (Join ''.'' labels @ ''.'', case origin of Some original \<Rightarrow> original | None \<Rightarrow> offset + 1)
       else if l AND 0xC0 = 0xC0 then
         (if length packet \<le> offset + 1 then Malformed ''dns pointer out of bounds''
          else and_then (byte_at packet (offset + 1)) (\<lambda>b.
            name_loop rounds packet labels (Some (case origin of Some original \<Rightarrow> original | None \<Rightarrow> offset + 2))
              (push_bit 8 (l AND 0x3F) OR b)))
       else if length packet < offset + 1 + l then Malformed ''dns label out of bounds''
       else and_then (slice packet (offset + 1) (offset + 1 + l)) (\<lambda>label.
         name_loop rounds packet (labels @ [label]) origin (offset + 1 + l))))"

definition readDNSName :: "string \<Rightarrow> nat \<Rightarrow> (string \<times> nat) parsed" where
  "readDNSName packet offset = name_loop 32 packet [] None offset"

definition normalizeDNSName :: "string \<Rightarrow> string" where
  "normalizeDNSName name0 =
    (let name = TrimSpace (ToLower name0) in if name = [] \<or> HasSuffix name ''.'' then name else name @ ''.'')"

section \<open>Addresses as text\<close>

text \<open>\<^verbatim>\<open>net.IP.String\<close>: dotted for IPv4, also in its mapped form; otherwise eight groups with the first of the longest runs of two or more zero
  groups left out.\<close>

fun hex_text :: "nat \<Rightarrow> string" where
  "hex_text n = (if n < 16 then [''0123456789abcdef'' ! n] else hex_text (n div 16) @ [''0123456789abcdef'' ! (n mod 16)])"

declare hex_text.simps [simp del]

definition v6_groups :: "nat list \<Rightarrow> nat list" where
  "v6_groups a = map (\<lambda>i. 256 * a ! (2 * i) + a ! (2 * i + 1)) [0..<8]"

definition zero_run :: "nat list \<Rightarrow> nat \<times> nat" where
  "zero_run gs = fold (\<lambda>i (from, upto).
     let l = length (takeWhile (\<lambda>g. g = 0) (drop i gs)) in if 2 \<le> l \<and> upto - from < l then (i, i + l) else (from, upto)) [0..<8] (255, 255)"

definition v6_text :: "nat list \<Rightarrow> string" where
  "v6_text a =
    (let gs = v6_groups a; texts = map hex_text gs; (from, upto) = zero_run gs in
     if 8 \<le> from then Join '':'' texts
     else Join '':'' (take from texts) @ ''::'' @ Join '':'' (drop upto texts))"

definition v4_text :: "nat list \<Rightarrow> string" where
  "v4_text q = Join ''.'' (map Itoa q)"

definition IP_String :: "string \<Rightarrow> string" where
  "IP_String bytes =
    (let a = map of_char bytes in
     if length a = 4 then v4_text a else case ip_to4 a of Some q \<Rightarrow> v4_text q | None \<Rightarrow> v6_text a)"

section \<open>Records\<close>

record mdnsSRV =
  sr_Target :: string
  sr_Port :: nat

record mdnsRecordSet =
  rs_ptr :: "(string, string list) gomap"
  rs_srv :: "(string, mdnsSRV) gomap"
  rs_addr :: "(string, string list) gomap"

definition noRecords :: mdnsRecordSet where
  "noRecords = \<lparr> rs_ptr = [], rs_srv = [], rs_addr = [] \<rparr>"

definition listed :: "(string, string list) gomap \<Rightarrow> string \<Rightarrow> string list" where
  "listed m k = (case goget m k of Some vs \<Rightarrow> vs | None \<Rightarrow> [])"

definition append_at :: "string \<Rightarrow> string list \<Rightarrow> (string, string list) gomap \<Rightarrow> (string, string list) gomap" where
  "append_at k vs m = goput k (listed m k @ vs) m"

definition add_ptr :: "string \<Rightarrow> string \<Rightarrow> mdnsRecordSet \<Rightarrow> mdnsRecordSet" where
  "add_ptr name target r = r\<lparr> rs_ptr := append_at (normalizeDNSName name) [normalizeDNSName target] (rs_ptr r) \<rparr>"

definition add_addr :: "string \<Rightarrow> string \<Rightarrow> mdnsRecordSet \<Rightarrow> mdnsRecordSet" where
  "add_addr name a r = r\<lparr> rs_addr := append_at (normalizeDNSName name) [a] (rs_addr r) \<rparr>"

definition add_srv :: "string \<Rightarrow> string \<Rightarrow> nat \<Rightarrow> mdnsRecordSet \<Rightarrow> mdnsRecordSet" where
  "add_srv name target port r =
    r\<lparr> rs_srv := goput (normalizeDNSName name) \<lparr> sr_Target = normalizeDNSName target, sr_Port = port \<rparr> (rs_srv r) \<rparr>"

text \<open>A name inside of the data of a record that can not be read skips the record.\<close>

definition if_named :: "(string \<times> nat) parsed \<Rightarrow> (string \<Rightarrow> mdnsRecordSet) \<Rightarrow> mdnsRecordSet \<Rightarrow> mdnsRecordSet parsed" where
  "if_named x f r = (case x of Parsed (name, _) \<Rightarrow> Parsed (f name) | Malformed _ \<Rightarrow> Parsed r | Panicked \<Rightarrow> Panicked)"

definition record_data :: "string \<Rightarrow> string \<Rightarrow> nat \<Rightarrow> nat \<Rightarrow> nat \<Rightarrow> mdnsRecordSet \<Rightarrow> mdnsRecordSet parsed" where
  "record_data packet name rrType rdata rdLen r =
    (let address = and_then (slice packet rdata (rdata + rdLen)) (\<lambda>bytes. Parsed (add_addr name (IP_String bytes) r)) in
     if rrType = 1 then (if rdLen = 4 then address else Parsed r)
     else if rrType = 12 then if_named (readDNSName packet rdata) (\<lambda>target. add_ptr name target r) r
     else if rrType = 28 then (if rdLen = 16 then address else Parsed r)
     else if rrType = 33 then
       (if 6 \<le> rdLen then
          and_then (Uint16 packet (rdata + 4)) (\<lambda>port.
            if_named (readDNSName packet (rdata + 6)) (\<lambda>target. add_srv name target port r) r)
        else Parsed r)
     else Parsed r)"

definition read_record :: "string \<Rightarrow> nat \<Rightarrow> mdnsRecordSet \<Rightarrow> (nat \<times> mdnsRecordSet) parsed" where
  "read_record packet offset r =
    and_then (readDNSName packet offset) (\<lambda>(name, nxt).
      if length packet < nxt + 10 then Malformed ''short dns rr''
      else and_then (Uint16 packet nxt) (\<lambda>rrType. and_then (Uint16 packet (nxt + 8)) (\<lambda>rdLen.
        let rdata = nxt + 10 in
        if length packet < rdata + rdLen then Malformed ''short dns rdata''
        else and_then (record_data packet name rrType rdata rdLen r) (\<lambda>r. Parsed (rdata + rdLen, r)))))"

fun read_questions :: "nat \<Rightarrow> string \<Rightarrow> nat \<Rightarrow> nat parsed" where
  "read_questions 0 packet offset = Parsed offset"
| "read_questions (Suc n) packet offset =
    and_then (readDNSName packet offset) (\<lambda>(_, nxt).
      if length packet < nxt + 4 then Malformed ''short dns question'' else read_questions n packet (nxt + 4))"

fun read_records :: "nat \<Rightarrow> string \<Rightarrow> nat \<Rightarrow> mdnsRecordSet \<Rightarrow> mdnsRecordSet parsed" where
  "read_records 0 packet offset r = Parsed r"
| "read_records (Suc n) packet offset r =
    and_then (read_record packet offset r) (\<lambda>(offset, r). read_records n packet offset r)"

definition parseMDNSRecords :: "string \<Rightarrow> mdnsRecordSet parsed" where
  "parseMDNSRecords packet =
    (if length packet < 12 then Malformed ''short dns packet''
     else and_then (Uint16 packet 4) (\<lambda>qd. and_then (Uint16 packet 6) (\<lambda>an. and_then (Uint16 packet 8) (\<lambda>ns.
       and_then (Uint16 packet 10) (\<lambda>ar. and_then (read_questions qd packet 12) (\<lambda>offset.
         read_records (an + ns + ar) packet offset noRecords))))))"

definition mergeMDNSRecords :: "mdnsRecordSet \<Rightarrow> mdnsRecordSet \<Rightarrow> mdnsRecordSet" where
  "mergeMDNSRecords dst src =
    \<lparr> rs_ptr = fold (\<lambda>(k, vs). append_at k vs) (rs_ptr src) (rs_ptr dst),
      rs_srv = fold (\<lambda>(k, v). goput k v) (rs_srv src) (rs_srv dst),
      rs_addr = fold (\<lambda>(k, vs). append_at k vs) (rs_addr src) (rs_addr dst) \<rparr>"

section \<open>Candidates\<close>

record PeerDiscoveryCandidate =
  pc_ID :: string
  pc_DisplayName :: string
  pc_Service :: string
  pc_Instance :: string
  pc_Host :: string
  pc_Port :: nat
  pc_Addresses :: "string list"
  pc_EndpointURL :: string
  pc_ControlLevel :: string
  pc_TrustLevel :: string
  pc_CapabilitySource :: string
  pc_ApprovalState :: string
  pc_AdoptionPath :: string

definition dedupeStrings :: "string list \<Rightarrow> string list" where
  "dedupeStrings values =
    sort (fold (\<lambda>v out. if v = [] \<or> v \<in> set out then out else out @ [v]) values [])"

text \<open>The digest is given in hexadecimal digits; the source keeps its first six bytes.\<close>

definition discoveryCandidateID :: "(string \<Rightarrow> string) \<Rightarrow> string \<Rightarrow> string \<Rightarrow> string" where
  "discoveryCandidateID sha service inst = ''mdns_'' @ take 12 (sha (service @ ''|'' @ inst))"

definition discoveryAdoptionPath :: "string \<Rightarrow> string" where
  "discoveryAdoptionPath service = (if Contains service ''ollama'' then ''passive_endpoint_add'' else ''managed_node_enrollment'')"

definition candidate_endpoint :: "mdnsSRV \<Rightarrow> string list \<Rightarrow> string" where
  "candidate_endpoint srv addrs =
    (let host = TrimSuffix (sr_Target srv) ''.''; hostForURL = (case addrs of [] \<Rightarrow> host | a # _ \<Rightarrow> a) in
     if 0 < sr_Port srv \<and> hostForURL \<noteq> [] then ''http://'' @ hostForURL @ '':'' @ Itoa (sr_Port srv) else [])"

definition candidate :: "(string \<Rightarrow> string) \<Rightarrow> mdnsRecordSet \<Rightarrow> string \<Rightarrow> string \<Rightarrow> PeerDiscoveryCandidate" where
  "candidate sha records service inst =
    (let srv = (case goget (rs_srv records) inst of Some srv \<Rightarrow> srv | None \<Rightarrow> \<lparr> sr_Target = [], sr_Port = 0 \<rparr>);
         addrs = dedupeStrings (listed (rs_addr records) (sr_Target srv)) in
     \<lparr> pc_ID = discoveryCandidateID sha service inst, pc_DisplayName = TrimSuffix inst ''.'', pc_Service = service,
       pc_Instance = inst, pc_Host = TrimSuffix (sr_Target srv) ''.'', pc_Port = sr_Port srv, pc_Addresses = addrs,
       pc_EndpointURL = candidate_endpoint srv addrs, pc_ControlLevel = ''candidate'', pc_TrustLevel = ''lan_unverified'',
       pc_CapabilitySource = ''mdns_observed'', pc_ApprovalState = ''not_added'', pc_AdoptionPath = discoveryAdoptionPath service \<rparr>)"

text \<open>The two loops run over the pairs of a service and an instance, in the order of both; \<open>keys\<close> are the keys of the earlier pairs.\<close>

definition advertised :: "mdnsRecordSet \<Rightarrow> (string \<times> string) list" where
  "advertised records =
    concat (map (\<lambda>service. map (Pair service) (sort (listed (rs_ptr records) service))) (sort (map fst (rs_ptr records))))"

fun unseen_pairs :: "string set \<Rightarrow> (string \<times> string) list \<Rightarrow> (string \<times> string) list" where
  "unseen_pairs keys [] = []"
| "unseen_pairs keys ((service, inst) # ps) =
    (let key = service @ ''|'' @ inst in
     if key \<in> keys then unseen_pairs keys ps else (service, inst) # unseen_pairs (insert key keys) ps)"

definition mdnsCandidates :: "(string \<Rightarrow> string) \<Rightarrow> mdnsRecordSet \<Rightarrow> PeerDiscoveryCandidate list" where
  "mdnsCandidates sha records = map (\<lambda>(service, inst). candidate sha records service inst) (unseen_pairs {} (advertised records))"

section \<open>The query\<close>

definition mdnsServiceNames :: "string list" where
  "mdnsServiceNames = [''_llama-wrangler._tcp.local.'', ''_llama-wrangler-subscriber._tcp.local.'', ''_ollama._tcp.local.'']"

text \<open>What one round of the read loop meets: the caller has given up, the read fails, or a packet arrives, before or after the deadline. A list
  that ends stands for the read that runs into the deadline. A panic of the parser would end the request; it does not happen (\<open>parse_safe\<close>). The socket may fail to open, to resolve the address or to send.\<close>

datatype mdns_event = GivenUp string | ReadFailed string | Received string bool

record mdns_net =
  mn_failure :: "string option"
  mn_events :: "mdns_event list"

fun read_loop :: "mdns_event list \<Rightarrow> mdnsRecordSet \<Rightarrow> string + mdnsRecordSet" where
  "read_loop [] records = Inr records"
| "read_loop (GivenUp err # es) records = Inl err"
| "read_loop (ReadFailed err # es) records = Inl err"
| "read_loop (Received packet late # es) records =
    (case parseMDNSRecords (take 4096 packet) of
       Parsed parsed \<Rightarrow>
         (let records = mergeMDNSRecords records parsed in if late then Inr records else read_loop es records)
     | _ \<Rightarrow> read_loop es records)"

definition queryMDNS :: "(string \<Rightarrow> mdns_net) \<Rightarrow> string list \<Rightarrow> string + mdnsRecordSet" where
  "queryMDNS net services =
    (let answer = net (buildMDNSQuery services) in
     case mn_failure answer of Some err \<Rightarrow> Inl err | None \<Rightarrow> read_loop (mn_events answer) noRecords)"

definition safeDiscoveryError :: "string \<Rightarrow> string" where
  "safeDiscoveryError err = map (\<lambda>c. if c = CHR 0x0A then CHR '' '' else c) (take 160 err)"

record PeerDiscoveryStatus =
  pd_Mode :: string
  pd_Status :: string
  pd_StartedAt :: gotime
  pd_FinishedAt :: gotime
  pd_Summary :: "(string, nat) gomap"
  pd_MDNSStatus :: string
  pd_Services :: "string list"
  pd_TimeoutMS :: nat
  pd_Message :: string
  pd_SubnetScanEnabled :: bool
  pd_SubnetScanStatus :: string
  pd_Candidates :: "PeerDiscoveryCandidate list"
  pd_Warnings :: "string list"

definition discoverPeersStatus :: "'r sub_env \<Rightarrow> (string \<Rightarrow> mdns_net) \<Rightarrow> PeerDiscoveryStatus" where
  "discoverPeersStatus e net =
    (let found = queryMDNS net mdnsServiceNames;
         candidates = (case found of Inr records \<Rightarrow> mdnsCandidates (be_sha e) records | Inl _ \<Rightarrow> []);
         (st, message) = (case found of
            Inl _ \<Rightarrow> (''unavailable'', ''mDNS discovery could not complete in this environment; manual enrollment remains available.'')
          | Inr _ \<Rightarrow> if candidates = []
              then (''no_candidates_found'', ''mDNS probe completed with no Llama Wrangler or Ollama service candidates.'')
              else (''candidates_found'', ''mDNS probe found candidate services. Review and adopt manually.'')) in
     \<lparr> pd_Mode = ''operator_initiated_mdns'', pd_Status = ''completed'', pd_StartedAt = be_now e, pd_FinishedAt = be_now e,
       pd_Summary = [(''candidates'', length candidates), (''mdns_services_queried'', length mdnsServiceNames), (''subnet_scan_disabled'', 1)],
       pd_MDNSStatus = st, pd_Services = mdnsServiceNames, pd_TimeoutMS = 750, pd_Message = message,
       pd_SubnetScanEnabled = False, pd_SubnetScanStatus = ''disabled_requires_future_explicit_opt_in'', pd_Candidates = candidates,
       pd_Warnings = [''Discovered peers are candidates only; they are not saved, approved, or routed automatically.'',
           ''Use Managed Node enrollment or Passive Endpoint add to adopt a candidate.''] @
         (case found of Inl err \<Rightarrow> [''mDNS unavailable: '' @ safeDiscoveryError err] | Inr _ \<Rightarrow> []) \<rparr>)"

definition discoverPeers :: "'r sub_env \<Rightarrow> (string \<Rightarrow> mdns_net) \<Rightarrow> 'r server \<Rightarrow> PeerDiscoveryStatus \<times> 'r server" where
  "discoverPeers e net s =
    (let st = discoverPeersStatus e net in
     (st, emit_srv e ''peer_discovery''
        [(''mode'', GStr (pd_Mode st)), (''status'', GStr (pd_Status st)), (''mdns_status'', GStr (pd_MDNSStatus st)),
         (''candidate_count'', GInt (int (length (pd_Candidates st)))), (''subnet_scan_enabled'', GBool (pd_SubnetScanEnabled st)),
         (''subnet_scan_status'', GStr (pd_SubnetScanStatus st)), (''mdns_services_queried'', GInt (int (length (pd_Services st))))] s))"

section \<open>Reading is safe\<close>

lemma and_then_simps [simp]:
  "and_then (Parsed a) f = f a" "and_then (Malformed m) f = Malformed m" "and_then Panicked f = Panicked"
  by (simp_all add: and_then_def)

lemma and_then_Panicked: "and_then x f = Panicked \<longleftrightarrow> x = Panicked \<or> (\<exists>a. x = Parsed a \<and> f a = Panicked)"
  by (cases x) simp_all

lemma and_then_Parsed: "and_then x f = Parsed b \<longleftrightarrow> (\<exists>a. x = Parsed a \<and> f a = Parsed b)"
  by (cases x) simp_all

lemma byte_at_in [simp]: "i < length p \<Longrightarrow> byte_at p i = Parsed (of_char (p ! i))"
  by (simp add: byte_at_def)

lemma slice_in [simp]: "i \<le> j \<Longrightarrow> j \<le> length p \<Longrightarrow> slice p i j = Parsed (take (j - i) (drop i p))"
  by (simp add: slice_def)

lemma Uint16_in [simp]: "i + 1 < length p \<Longrightarrow> Uint16 p i = Parsed (256 * of_char (p ! i) + of_char (p ! (i + 1)))"
  by (simp add: Uint16_def)

lemma name_loop_safe: "name_loop k p labels origin i \<noteq> Panicked"
  by (induction k arbitrary: labels origin i) (simp_all add: Let_def)

text \<open>The three kinds of round.\<close>

lemma name_loop_end:
  "i < length p \<Longrightarrow> of_char (p ! i) = (0 :: nat) \<Longrightarrow>
   name_loop (Suc k) p labels origin i = Parsed (Join ''.'' labels @ ''.'', case origin of Some b \<Rightarrow> b | None \<Rightarrow> i + 1)"
  by simp

lemma name_loop_pointer:
  "i + 1 < length p \<Longrightarrow> of_char (p ! i) AND 0xC0 = (0xC0 :: nat) \<Longrightarrow>
   name_loop (Suc k) p labels origin i =
   name_loop k p labels (Some (case origin of Some b \<Rightarrow> b | None \<Rightarrow> i + 2)) (push_bit 8 (of_char (p ! i) AND 0x3F) OR of_char (p ! (i + 1)))"
  by auto

lemma name_loop_label:
  "i + 1 + l \<le> length p \<Longrightarrow> of_char (p ! i) = l \<Longrightarrow> l \<noteq> 0 \<Longrightarrow> l AND 0xC0 \<noteq> 0xC0 \<Longrightarrow>
   name_loop (Suc k) p labels origin i = name_loop k p (labels @ [take l (drop (i + 1) p)]) origin (i + 1 + l)"
  by simp

lemma name_loop_cases:
  assumes "name_loop (Suc k) p labels origin i = Parsed r"
  obtains (End) "i < length p" "of_char (p ! i) = (0 :: nat)" "r = (Join ''.'' labels @ ''.'', case origin of Some b \<Rightarrow> b | None \<Rightarrow> i + 1)"
  | (Pointer) t where "i + 1 < length p" "name_loop k p labels (Some (case origin of Some b \<Rightarrow> b | None \<Rightarrow> i + 2)) t = Parsed r"
  | (Label) l where "i + 1 + l \<le> length p" "of_char (p ! i) = l" "l AND 0xC0 \<noteq> 0xC0"
      "name_loop k p (labels @ [take l (drop (i + 1) p)]) origin (i + 1 + l) = Parsed r"
proof -
  from assms have i: "i < length p" by (auto split: if_splits)
  let ?l = "of_char (p ! i) :: nat"
  consider "?l = 0" | "?l \<noteq> 0" "?l AND 0xC0 = 0xC0" | "?l \<noteq> 0" "?l AND 0xC0 \<noteq> 0xC0" by blast
  then show thesis
  proof cases
    case 1
    then show thesis using assms name_loop_end [OF i 1] i End by simp
  next
    case 2
    with assms i have "i + 1 < length p" by (auto split: if_splits)
    with assms show thesis using name_loop_pointer [OF _ 2(2)] Pointer by metis
  next
    case 3
    with assms i have "i + 1 + ?l \<le> length p" by (auto split: if_splits)
    with assms show thesis using name_loop_label [OF _ refl 3] Label 3 by metis
  qed
qed

lemma name_loop_next:
  assumes "name_loop k p labels origin i = Parsed (name, j)"
  shows "case origin of None \<Rightarrow> i < j \<and> j \<le> length p | Some b \<Rightarrow> j = b"
  using assms
proof (induction k arbitrary: labels origin i)
  case (Suc k)
  from Suc.prems show ?case
  proof (cases rule: name_loop_cases)
    case End
    then show ?thesis by (auto split: option.splits)
  next
    case (Pointer t)
    from Suc.IH [OF Pointer(2)] Pointer(1) show ?thesis by (auto split: option.splits)
  next
    case (Label l)
    from Suc.IH [OF Label(4)] show ?thesis by (auto split: option.splits)
  qed
qed simp

lemma two_bits: "l AND 0xC0 = 64 * (l div 64 mod 4)" for l :: nat
proof -
  have "(0xC0 :: nat) = push_bit 6 (Bit_Operations.mask 2)" by (simp add: push_bit_eq_mult mask_eq_exp_minus_1)
  then have "l AND 0xC0 = l AND push_bit 6 (Bit_Operations.mask 2)" by (simp only:)
  also have "\<dots> = push_bit 6 (take_bit 2 (drop_bit 6 l))" by (rule bit_eqI) (auto simp: bit_simps)
  finally show ?thesis by (simp add: push_bit_eq_mult take_bit_eq_mod drop_bit_eq_div)
qed

lemma wide_label: "l AND 0xC0 \<noteq> 0xC0 \<Longrightarrow> l < 256 \<Longrightarrow> l < 192" for l :: nat
proof (rule ccontr)
  assume l: "l AND 0xC0 \<noteq> 0xC0" "l < 256" "\<not> l < 192"
  then have "l div 64 = 3" by (intro div_nat_eqI) simp_all
  with l(1) show False by (simp add: two_bits)
qed

lemma narrow_label: "l < 64 \<Longrightarrow> l AND 0xC0 \<noteq> 0xC0" for l :: nat
  unfolding two_bits by simp

lemma length_Join_snoc: "length (Join sep (labels @ [l])) \<le> length (Join sep labels) + length sep + length l"
  by (induction sep labels rule: Join.induct) simp_all

lemma name_loop_length:
  assumes "name_loop k p labels origin i = Parsed (name, j)"
  shows "length name \<le> length (Join ''.'' labels) + (k - 1) * 192 + 1"
  using assms
proof (induction k arbitrary: labels origin i)
  case (Suc k)
  from Suc.prems show ?case
  proof (cases rule: name_loop_cases)
    case End
    then show ?thesis by simp
  next
    case (Pointer t)
    from Suc.IH [OF Pointer(2)] show ?thesis by (cases k) simp_all
  next
    case (Label l)
    then have "l < 192" using wide_label [of l] nat_of_char_less_256 by auto
    then show ?thesis using Suc.IH [OF Label(4)] length_Join_snoc [of "''.''" labels "take l (drop (i + 1) p)"] Label(4)
      by (cases k) simp_all
  qed
qed simp

lemma readDNSName_safe: "readDNSName p i \<noteq> Panicked"
  by (simp add: readDNSName_def name_loop_safe del: name_loop.simps)

lemma readDNSName_next: "readDNSName p i = Parsed (name, j) \<Longrightarrow> i < j \<and> j \<le> length p \<and> length name \<le> 5953"
  using name_loop_next [of 32 p "[]" None i name j] name_loop_length [of 32 p "[]" None i name j]
  by (simp add: readDNSName_def del: name_loop.simps)

lemma if_named_safe: "if_named (readDNSName p i) f r \<noteq> Panicked"
  using readDNSName_safe [of p i] by (cases "readDNSName p i") (auto simp: if_named_def)

lemma record_data_safe: "i + n \<le> length p \<Longrightarrow> record_data p name ty i n r \<noteq> Panicked"
  by (simp add: record_data_def Let_def if_named_safe)

lemma read_record_safe: "read_record p i r \<noteq> Panicked"
proof (cases "readDNSName p i")
  case (Parsed x)
  obtain name j where x: "x = (name, j)" by fastforce
  show ?thesis using Parsed record_data_safe [of "j + 10" _ p name _ r] by (auto simp: read_record_def x Let_def and_then_Panicked)
qed (use readDNSName_safe in \<open>auto simp: read_record_def\<close>)

lemma read_questions_safe: "read_questions n p i \<noteq> Panicked"
proof (induction n arbitrary: i)
  case (Suc n)
  then show ?case by (auto simp: and_then_Panicked readDNSName_safe)
qed simp

lemma read_records_safe: "read_records n p i r \<noteq> Panicked"
proof (induction n arbitrary: i r)
  case (Suc n)
  then show ?case by (auto simp: and_then_Panicked read_record_safe)
qed simp

lemma parse_safe: "parseMDNSRecords p \<noteq> Panicked"
  by (simp add: parseMDNSRecords_def and_then_Panicked read_questions_safe read_records_safe)

text \<open>C35. No packet makes the parser read outside of it: whatever bytes arrive, parsing ends with records or with an error. A name that is
  read, compressed or not, ends after its start and inside of the packet, so that every record makes progress, and a chain of
  pointers can not make it longer than 5 953 bytes.\<close>

theorem mdns_input_safe:
  "parseMDNSRecords p \<noteq> Panicked \<and>
   (case readDNSName p i of
      Parsed (name, j) \<Rightarrow> i < j \<and> j \<le> length p \<and> length name \<le> 5953
    | Malformed m \<Rightarrow> True
    | Panicked \<Rightarrow> False)"
  using parse_safe readDNSName_safe [of p i] readDNSName_next [of p i] by (auto split: parsed.splits)

section \<open>Well-formed answers are understood\<close>

text \<open>The reference encoder: what a responder sends for a list of advertisements, with names written by \<open>appendDNSName\<close>. A name is the text of at
  most 31 labels of 1 to 63 bytes, with the dot of the root at its end.\<close>

definition dns_name :: "string \<Rightarrow> bool" where
  "dns_name name \<longleftrightarrow> name \<noteq> [] \<and> last name = CHR ''.'' \<and>
    (let labels = Split (CHR ''.'') (butlast name) in length labels \<le> 31 \<and> list_all (\<lambda>l. 1 \<le> length l \<and> length l \<le> 63) labels)"

datatype advert = PTR string string | SRV string string nat | Address string string

fun advert_ok :: "advert \<Rightarrow> bool" where
  "advert_ok (PTR name target) = (dns_name name \<and> dns_name target)"
| "advert_ok (SRV name target port) = (dns_name name \<and> dns_name target \<and> port < 65536)"
| "advert_ok (Address name bytes) = (dns_name name \<and> (length bytes = 4 \<or> length bytes = 16))"

definition rr_bytes :: "string \<Rightarrow> nat \<Rightarrow> string \<Rightarrow> string" where
  "rr_bytes name ty d = appendDNSName [] name @ uint16_bytes ty @ uint16_bytes 1 @ replicate 4 (CHR 0x00) @ uint16_bytes (length d) @ d"

fun advert_bytes :: "advert \<Rightarrow> string" where
  "advert_bytes (PTR name target) = rr_bytes name 12 (appendDNSName [] target)"
| "advert_bytes (SRV name target port) = rr_bytes name 33 (replicate 4 (CHR 0x00) @ uint16_bytes port @ appendDNSName [] target)"
| "advert_bytes (Address name bytes) = rr_bytes name (if length bytes = 4 then 1 else 28) bytes"

definition answer_packet :: "advert list \<Rightarrow> string" where
  "answer_packet ads = replicate 6 (CHR 0x00) @ uint16_bytes (length ads) @ replicate 4 (CHR 0x00) @ concat (map advert_bytes ads)"

fun advertise :: "advert \<Rightarrow> mdnsRecordSet \<Rightarrow> mdnsRecordSet" where
  "advertise (PTR name target) = add_ptr name target"
| "advertise (SRV name target port) = add_srv name target port"
| "advertise (Address name bytes) = add_addr name (IP_String bytes)"

lemma length_uint16_bytes [simp]: "length (uint16_bytes n) = 2"
  by (simp add: uint16_bytes_def)

lemma Uint16_bytes: "n < 65536 \<Longrightarrow> i = length pre \<Longrightarrow> Uint16 (pre @ uint16_bytes n @ post) i = Parsed n"
proof -
  assume n: "n < 65536" "i = length pre"
  then have "n div 256 < 256" by simp
  with n show ?thesis by (simp add: uint16_bytes_def nth_append of_char_of)
qed

lemma Split_nonempty: "Split c s \<noteq> []"
  by (induction s) (simp_all split: list.split)

lemma Join_Split: "Join [c] (Split c s) = s"
proof (induction s)
  case (Cons x s)
  obtain w ws where "Split c s = w # ws" using Split_nonempty [of c s] by (cases "Split c s") auto
  with Cons show ?case by (cases ws) auto
qed simp

lemma dns_name_labels:
  assumes "dns_name name"
  obtains labels where "length labels \<le> 31" "list_all (\<lambda>l. 1 \<le> length l \<and> length l \<le> 63) labels" "Join ''.'' labels @ ''.'' = name"
    "appendDNSName [] name = concat (map dns_label labels) @ [CHR 0x00]"
proof
  let ?labels = "Split (CHR ''.'') (butlast name)"
  from assms have n: "name = butlast name @ ''.''" using append_butlast_last_id [of name] by (simp add: dns_name_def)
  have trim: "TrimSuffix name ''.'' = butlast name"
    by (subst n, subst TrimSuffix_def) (simp add: HasSuffix_def butlast_conv_take)
  show "length ?labels \<le> 31" "list_all (\<lambda>l. 1 \<le> length l \<and> length l \<le> 63) ?labels" using assms by (simp_all add: dns_name_def Let_def)
  then have "filter (\<lambda>label. label \<noteq> []) ?labels = ?labels" by (auto simp: filter_id_conv list_all_iff)
  then show "appendDNSName [] name = concat (map dns_label ?labels) @ [CHR 0x00]" by (simp add: appendDNSName_def trim)
  show "Join ''.'' ?labels @ ''.'' = name" using n Join_Split [of "CHR ''.''" "butlast name"] by simp
qed

lemma name_loop_labels:
  assumes "list_all (\<lambda>l. 1 \<le> length l \<and> length l \<le> 63) labels" "length labels < k"
  shows "name_loop k (pre @ concat (map dns_label labels) @ CHR 0x00 # post) acc origin (length pre) =
    Parsed (Join ''.'' (acc @ labels) @ ''.'', case origin of Some b \<Rightarrow> b | None \<Rightarrow> length pre + length (concat (map dns_label labels)) + 1)"
  using assms
proof (induction labels arbitrary: k pre acc)
  case Nil
  then obtain r where "k = Suc r" by (cases k) auto
  then show ?case by (cases origin) (simp_all add: name_loop_end nth_append del: name_loop.simps)
next
  case (Cons l labels)
  then obtain r where r: "k = Suc r" "length labels < r" by (cases k) auto
  from Cons.prems have l: "1 \<le> length l" "length l \<le> 63" and rest: "list_all (\<lambda>l. 1 \<le> length l \<and> length l \<le> 63) labels" by simp_all
  then have label: "dns_label l = char_of (length l) # l" by (simp add: dns_label_def)
  let ?p = "pre @ dns_label l @ concat (map dns_label labels) @ CHR 0x00 # post"
  have "name_loop k ?p acc origin (length pre) = name_loop r ?p (acc @ [take (length l) (drop (length pre + 1) ?p)]) origin (length pre + 1 + length l)"
    unfolding r(1) using l by (intro name_loop_label) (auto simp: label nth_append of_char_of narrow_label)
  also have "\<dots> = name_loop r ((pre @ dns_label l) @ concat (map dns_label labels) @ CHR 0x00 # post) (acc @ [l]) origin (length (pre @ dns_label l))"
    by (simp add: label)
  also note Cons.IH [OF rest r(2)]
  finally show ?case by (cases origin) (simp_all add: label)
qed

lemma readDNSName_append:
  assumes "dns_name name" "i = length pre"
  shows "readDNSName (pre @ appendDNSName [] name @ post) i = Parsed (name, length pre + length (appendDNSName [] name))"
proof -
  obtain labels where labels: "length labels \<le> 31" "list_all (\<lambda>l. 1 \<le> length l \<and> length l \<le> 63) labels" "Join ''.'' labels @ ''.'' = name"
    "appendDNSName [] name = concat (map dns_label labels) @ [CHR 0x00]" by (rule dns_name_labels [OF assms(1)])
  show ?thesis using name_loop_labels [OF labels(2), of 32 pre post "[]" None] labels(1) by (simp add: readDNSName_def labels(3,4) assms(2) del: name_loop.simps)
qed

lemma read_record_rr:
  assumes "dns_name name" "ty < 65536" "length d < 65536"
    and "packet = pre @ rr_bytes name ty d @ post" "k = length pre + length (appendDNSName [] name) + 10"
  shows "read_record packet (length pre) r = and_then (record_data packet name ty k (length d) r) (\<lambda>r. Parsed (k + length d, r))"
proof -
  let ?n = "appendDNSName [] name" and ?z = "uint16_bytes 1 @ replicate 4 (CHR 0x00)"
  have name: "readDNSName packet (length pre) = Parsed (name, length pre + length ?n)"
    using readDNSName_append [OF assms(1) refl, of pre] by (simp add: assms(4) rr_bytes_def)
  have ty: "Uint16 packet (length pre + length ?n) = Parsed ty"
    using Uint16_bytes [OF assms(2), of "length pre + length ?n" "pre @ ?n"] by (simp add: assms(4) rr_bytes_def)
  have len: "Uint16 packet (length pre + length ?n + 8) = Parsed (length d)"
    using Uint16_bytes [OF assms(3), of "length pre + length ?n + 8" "pre @ ?n @ uint16_bytes ty @ ?z"] by (simp add: assms(4) rr_bytes_def)
  have room: "length pre + length ?n + 10 + length d \<le> length packet" by (simp add: assms(4) rr_bytes_def)
  show ?thesis using room by (simp add: read_record_def name ty len Let_def assms(5) del: Uint16_in)
qed

lemma length_dns_name: "dns_name name \<Longrightarrow> length (appendDNSName [] name) \<le> 1985"
proof -
  assume "dns_name name"
  then obtain labels where labels: "length labels \<le> 31" "list_all (\<lambda>l. 1 \<le> length l \<and> length l \<le> 63) labels"
    "appendDNSName [] name = concat (map dns_label labels) @ [CHR 0x00]" by (rule dns_name_labels)
  from labels(2) have "length (concat (map dns_label labels)) \<le> 64 * length labels"
    by (induction labels) (simp_all add: dns_label_def)
  with labels(1,3) show ?thesis by simp
qed

lemma read_record_advert:
  assumes "advert_ok a"
  shows "read_record (pre @ advert_bytes a @ post) (length pre) r = Parsed (length pre + length (advert_bytes a), advertise a r)"
proof (cases a)
  case (PTR name target)
  let ?d = "appendDNSName [] target" and ?pre = "pre @ appendDNSName [] name @ uint16_bytes 12 @ uint16_bytes 1 @ replicate 4 (CHR 0x00)"
  from assms PTR have ok: "dns_name name" "dns_name target" by simp_all
  have target: "readDNSName (pre @ rr_bytes name 12 ?d @ post) (length pre + length (appendDNSName [] name) + 10) =
      Parsed (target, length pre + length (appendDNSName [] name) + 10 + length ?d)"
    using readDNSName_append [OF ok(2), of "length pre + length (appendDNSName [] name) + 10" "?pre @ uint16_bytes (length ?d)" post]
    by (simp add: rr_bytes_def)
  show ?thesis using read_record_rr [OF ok(1) _ _ refl refl, of 12 ?d pre post r] length_dns_name [OF ok(2)]
    by (simp add: PTR record_data_def if_named_def target) (simp add: rr_bytes_def)
next
  case (SRV name target port)
  let ?t = "appendDNSName [] target"
  let ?d = "replicate 4 (CHR 0x00) @ uint16_bytes port @ ?t"
  let ?pre = "pre @ appendDNSName [] name @ uint16_bytes 33 @ uint16_bytes 1 @ replicate 4 (CHR 0x00) @ uint16_bytes (length ?d) @ replicate 4 (CHR 0x00)"
  let ?at = "length pre + length (appendDNSName [] name) + 10"
  from assms SRV have ok: "dns_name name" "dns_name target" "port < 65536" by simp_all
  have target: "readDNSName (pre @ rr_bytes name 33 ?d @ post) (?at + 6) = Parsed (target, ?at + 6 + length ?t)"
    using readDNSName_append [OF ok(2), of "?at + 6" "?pre @ uint16_bytes port" post] by (simp add: rr_bytes_def)
  have port: "Uint16 (pre @ rr_bytes name 33 ?d @ post) (?at + 4) = Parsed port"
    using Uint16_bytes [OF ok(3), of "?at + 4" ?pre "?t @ post"] by (simp add: rr_bytes_def)
  have d: "length ?d = 6 + length ?t" by simp
  have "record_data (pre @ rr_bytes name 33 ?d @ post) name 33 ?at (length ?d) r = Parsed (add_srv name target port r)"
    unfolding record_data_def Let_def d port target by (simp add: if_named_def)
  then show ?thesis using read_record_rr [OF ok(1) _ _ refl refl, of 33 ?d pre post r] length_dns_name [OF ok(2)]
    by (simp only: SRV advert_bytes.simps advertise.simps and_then_simps) (simp add: rr_bytes_def)
next
  case (Address name bytes)
  let ?ty = "if length bytes = 4 then 1 else 28" and ?at = "length pre + length (appendDNSName [] name) + 10"
  from assms Address have ok: "dns_name name" "length bytes = 4 \<or> length bytes = 16" by simp_all
  have "slice (pre @ rr_bytes name ?ty bytes @ post) ?at (?at + length bytes) = Parsed bytes"
    by (simp add: rr_bytes_def)
  with ok show ?thesis using read_record_rr [OF ok(1) _ _ refl refl, of ?ty bytes pre post r]
    by (auto simp: Address record_data_def Let_def) (simp_all add: rr_bytes_def)
qed

lemma read_records_adverts:
  "list_all advert_ok ads \<Longrightarrow> read_records (length ads) (pre @ concat (map advert_bytes ads)) (length pre) r = Parsed (fold advertise ads r)"
proof (induction ads arbitrary: pre r)
  case (Cons a ads)
  then show ?case using read_record_advert [of a pre "concat (map advert_bytes ads)" r] Cons.IH [of "pre @ advert_bytes a"] by simp
qed simp

text \<open>A header with its two counts that are not zero: questions and answers.\<close>

lemma parse_header:
  assumes "qd < 65536" "an < 65536" "packet = replicate 4 (CHR 0x00) @ uint16_bytes qd @ uint16_bytes an @ replicate 4 (CHR 0x00) @ body"
  shows "parseMDNSRecords packet = and_then (read_questions qd packet 12) (\<lambda>i. read_records an packet i noRecords)"
proof -
  have zero: "replicate 4 (CHR 0x00) = uint16_bytes 0 @ uint16_bytes 0" by code_simp
  let ?z = "uint16_bytes 0"
  have packet: "packet = ?z @ ?z @ uint16_bytes qd @ uint16_bytes an @ ?z @ ?z @ body" unfolding assms(3) zero by simp
  have "Uint16 packet 4 = Parsed qd" "Uint16 packet 6 = Parsed an" "Uint16 packet 8 = Parsed 0" "Uint16 packet 10 = Parsed 0"
    using Uint16_bytes [OF assms(1), of 4 "?z @ ?z"] Uint16_bytes [OF assms(2), of 6 "?z @ ?z @ uint16_bytes qd"]
      Uint16_bytes [of 0 8 "?z @ ?z @ uint16_bytes qd @ uint16_bytes an"] Uint16_bytes [of 0 10 "?z @ ?z @ uint16_bytes qd @ uint16_bytes an @ ?z"]
    by (simp_all add: packet del: Uint16_in)
  moreover have "\<not> length packet < 12" by (simp add: packet)
  ultimately show ?thesis by (simp add: parseMDNSRecords_def del: Uint16_in)
qed

lemma packet_parsed:
  assumes "list_all advert_ok ads" "length ads < 65536"
  shows "parseMDNSRecords (answer_packet ads) = Parsed (fold advertise ads noRecords)"
proof -
  let ?h = "replicate 6 (CHR 0x00) @ uint16_bytes (length ads) @ replicate 4 (CHR 0x00)"
  have zero: "replicate 6 (CHR 0x00) = replicate 4 (CHR 0x00) @ uint16_bytes 0" by code_simp
  have "parseMDNSRecords (answer_packet ads) = read_records (length ads) (answer_packet ads) 12 noRecords"
    using parse_header [of 0 "length ads" "answer_packet ads" "concat (map advert_bytes ads)"] assms(2)
    by (simp add: answer_packet_def zero)
  also have "\<dots> = Parsed (fold advertise ads noRecords)"
    using read_records_adverts [OF assms(1), of ?h noRecords] by (simp add: answer_packet_def)
  finally show ?thesis .
qed

text \<open>C36. Well-formed answers are understood: the packet of a responder that advertises services, hosts and ports in any number and order is
  parsed to exactly what it advertises.\<close>

theorem answers_understood:
  assumes "list_all advert_ok ads" "length ads < 65536"
  shows "parseMDNSRecords (answer_packet ads) = Parsed (fold advertise ads noRecords)"
  by (rule packet_parsed [OF assms])

text \<open>The query itself is a well-formed packet: its questions end where it ends.\<close>

lemma build_query:
  "fold (\<lambda>service packet. appendDNSName packet service @ uint16_bytes 12 @ uint16_bytes 1) services p =
   p @ concat (map (\<lambda>service. appendDNSName [] service @ uint16_bytes 12 @ uint16_bytes 1) services)"
  by (induction services arbitrary: p) (simp_all add: appendDNSName_def)

lemma read_questions_query:
  "list_all dns_name services \<Longrightarrow>
   read_questions (length services) (pre @ concat (map (\<lambda>service. appendDNSName [] service @ uint16_bytes 12 @ uint16_bytes 1) services)) (length pre) =
   Parsed (length pre + length (concat (map (\<lambda>service. appendDNSName [] service @ uint16_bytes 12 @ uint16_bytes 1) services)))"
proof (induction services arbitrary: pre)
  case (Cons service services)
  then show ?case
    using readDNSName_append [of service "length pre" pre] Cons.IH [of "pre @ appendDNSName [] service @ uint16_bytes 12 @ uint16_bytes 1"]
    by (simp add: algebra_simps)
qed simp

lemma query_accepted:
  assumes "list_all dns_name services" "length services < 65536"
  shows "parseMDNSRecords (buildMDNSQuery services) = Parsed noRecords"
proof -
  let ?h = "replicate 4 (CHR 0x00) @ uint16_bytes (length services) @ replicate 6 (CHR 0x00)"
  let ?b = "concat (map (\<lambda>service. appendDNSName [] service @ uint16_bytes 12 @ uint16_bytes 1) services)"
  have zero: "replicate 6 (CHR 0x00) = uint16_bytes 0 @ replicate 4 (CHR 0x00)" by code_simp
  have q: "buildMDNSQuery services = ?h @ ?b" unfolding buildMDNSQuery_def build_query by simp
  show ?thesis using parse_header [OF assms(2), of 0 "buildMDNSQuery services" ?b] read_questions_query [OF assms(1), of ?h]
    unfolding q by (simp add: zero)
qed

section \<open>Candidates\<close>

lemma listed_keys: "i \<in> set (listed m k) \<Longrightarrow> k \<in> fst ` set m"
  using goget_in_set [of m k] by (cases "goget m k") (force simp: listed_def)+

lemma set_advertised: "set (advertised r) = {(service, inst). inst \<in> set (listed (rs_ptr r) service)}"
  using listed_keys by (fastforce simp: advertised_def)

lemma sorted_blocks:
  "sorted_wrt (<) ks \<Longrightarrow> sorted (concat (map (\<lambda>k. map (Pair k) (sort (f k))) ks))" for ks :: "string list" and f :: "string \<Rightarrow> string list"
proof (induction ks)
  case (Cons k ks)
  have "sorted (map (Pair k) (sort (f k)))" by (simp add: sorted_map sorted_wrt_mono_rel [OF _ sorted_sort])
  with Cons show ?case by (auto simp: sorted_append intro: less_imp_le)
qed simp

lemma sorted_advertised: "gokeys_distinct (rs_ptr r) \<Longrightarrow> sorted (advertised r)"
  unfolding advertised_def by (rule sorted_blocks) (simp add: strict_sorted_iff gokeys_distinct_def)

definition pair_key :: "string \<times> string \<Rightarrow> string" where
  "pair_key p = fst p @ ''|'' @ snd p"

lemma unseen_pairs_step:
  "unseen_pairs keys (p # ps) = (if pair_key p \<in> keys then unseen_pairs keys ps else p # unseen_pairs (insert (pair_key p) keys) ps)"
  by (cases p) (simp add: pair_key_def Let_def)

lemma sorted_unseen: "set (unseen_pairs keys ps) \<subseteq> set ps \<and> (sorted ps \<longrightarrow> sorted (unseen_pairs keys ps))"
  by (induction ps arbitrary: keys) (auto simp: unseen_pairs_step)

lemma unseen_exact:
  "inj_on pair_key (set ps) \<Longrightarrow>
   set (unseen_pairs keys ps) = {p \<in> set ps. pair_key p \<notin> keys} \<and> distinct (unseen_pairs keys ps)"
proof (induction ps arbitrary: keys)
  case (Cons p ps)
  then have inj: "inj_on pair_key (set ps)" and eq: "q \<in> set ps \<Longrightarrow> pair_key q = pair_key p \<Longrightarrow> q = p" for q
    by (auto simp: inj_on_def)
  show ?case using Cons.IH [OF inj, of keys] Cons.IH [OF inj, of "insert (pair_key p) keys"] eq by (auto simp: unseen_pairs_step)
qed simp

lemma pair_key_inj: "c \<notin> set a \<Longrightarrow> c \<notin> set b \<Longrightarrow> a @ c # x = b @ c # y \<Longrightarrow> a = b \<and> x = y"
  by (induction a arbitrary: b) (auto simp: Cons_eq_append_conv)

lemma unseen_sorted_list:
  assumes "gokeys_distinct (rs_ptr r)" "list_all (\<lambda>(service, _). CHR ''|'' \<notin> set service) (advertised r)"
  shows "unseen_pairs {} (advertised r) = sorted_list_of_set {(service, inst). inst \<in> set (listed (rs_ptr r) service)}"
proof -
  have "CHR ''|'' \<notin> set service" if "(service, inst) \<in> set (advertised r)" for service inst
    using that assms(2) by (auto simp: list_all_iff)
  then have bar: "CHR ''|'' \<notin> set (fst p)" if "p \<in> set (advertised r)" for p using that by (cases p) simp
  have "inj_on pair_key (set (advertised r))"
  proof (rule inj_onI)
    fix p q
    assume "p \<in> set (advertised r)" "q \<in> set (advertised r)" "pair_key p = pair_key q"
    then show "p = q" using pair_key_inj [OF bar bar, of p q "snd p" "snd q"] by (simp add: pair_key_def prod_eq_iff)
  qed
  from unseen_exact [OF this, of "{}"] sorted_unseen [of "{}" "advertised r"] sorted_advertised [OF assms(1)] show ?thesis
    using sorted_list_of_set.idem_if_sorted_distinct [of "unseen_pairs {} (advertised r)"] by (simp add: set_advertised)
qed

text \<open>The candidates are one for every service and instance of the records, in the order of both. (The program joins service and instance
  with a bar to find repetitions, so that the names of the services are taken to be free of it.)\<close>

lemma candidates_exact:
  assumes "gokeys_distinct (rs_ptr records)" "list_all (\<lambda>(service, _). CHR ''|'' \<notin> set service) (advertised records)"
  shows "mdnsCandidates sha records =
    map (\<lambda>(service, inst). candidate sha records service inst)
      (sorted_list_of_set {(service, inst). inst \<in> set (listed (rs_ptr records) service)})"
  by (simp add: mdnsCandidates_def unseen_sorted_list [OF assms])

lemma append_at_distinct: "gokeys_distinct m \<Longrightarrow> gokeys_distinct (append_at k vs m)"
  by (simp add: append_at_def gokeys_distinct_def goput_def distinct_update)

lemma append_all_distinct: "gokeys_distinct m \<Longrightarrow> gokeys_distinct (fold (\<lambda>(k, vs). append_at k vs) xs m)"
  by (induction xs arbitrary: m) (simp_all add: append_at_distinct split_beta)

lemma merge_distinct: "gokeys_distinct (rs_ptr dst) \<Longrightarrow> gokeys_distinct (rs_ptr (mergeMDNSRecords dst src))"
  by (simp add: mergeMDNSRecords_def append_all_distinct)

lemma read_loop_distinct: "gokeys_distinct (rs_ptr r) \<Longrightarrow> read_loop es r = Inr r' \<Longrightarrow> gokeys_distinct (rs_ptr r')"
proof (induction es arbitrary: r)
  case (Cons ev es)
  show ?case
  proof (cases ev)
    case (Received packet late)
    with Cons.prems Cons.IH [of r] Cons.IH merge_distinct [OF Cons.prems(1)] show ?thesis
      by (cases "parseMDNSRecords (take 4096 packet)") (auto simp: Let_def split: if_splits)
  qed (use Cons.prems in simp_all)
qed simp

lemma query_distinct: "queryMDNS net services = Inr r \<Longrightarrow> gokeys_distinct (rs_ptr r)"
  using read_loop_distinct [of noRecords "mn_events (net (buildMDNSQuery services))" r]
  by (simp add: queryMDNS_def noRecords_def gokeys_distinct_def Let_def split: option.splits)

section \<open>Discovery adopts nobody\<close>

lemma Select_emit:
  "Select t cfg (Snapshot (at_store (srv_auth (emit_srv e ty fs s)))) rq = Select t cfg (Snapshot (at_store (srv_auth s))) rq"
proof -
  have "pool cfg (Snapshot (at_store (srv_auth (emit_srv e ty fs s)))) = pool cfg (Snapshot (at_store (srv_auth s)))"
    by (simp add: pool_def Snapshot_nodes emit_srv_def emit_auth_def)
  then show ?thesis by (simp only: Select_def)
qed

lemma emit_srv_keeps [simp]:
  "srv_cfg (emit_srv e ty fs s) = srv_cfg s"
  "at_secrets (srv_auth (emit_srv e ty fs s)) = at_secrets (srv_auth s)"
  "st_Nodes (s_state (at_store (srv_auth (emit_srv e ty fs s)))) = st_Nodes (s_state (at_store (srv_auth s)))"
  "st_EnrollmentQueue (s_state (at_store (srv_auth (emit_srv e ty fs s)))) = st_EnrollmentQueue (s_state (at_store (srv_auth s)))"
  "st_ClientAPIKeys (s_state (at_store (srv_auth (emit_srv e ty fs s)))) = st_ClientAPIKeys (s_state (at_store (srv_auth s)))"
  "st_Config (s_state (at_store (srv_auth (emit_srv e ty fs s)))) = st_Config (s_state (at_store (srv_auth s)))"
  by (simp_all add: emit_srv_def emit_auth_def)

definition only_shown :: "PeerDiscoveryCandidate \<Rightarrow> bool" where
  "only_shown c \<longleftrightarrow> pc_ApprovalState c = ''not_added'' \<and> pc_TrustLevel c = ''lan_unverified'' \<and> pc_ControlLevel c = ''candidate''"

lemma candidates_only_shown: "list_all only_shown (pd_Candidates (discoverPeersStatus e net))"
proof -
  have "list_all only_shown (mdnsCandidates sha r)" for sha r
    by (auto simp: mdnsCandidates_def candidate_def list_all_iff only_shown_def Let_def)
  then show ?thesis by (cases "queryMDNS net mdnsServiceNames") (simp_all add: discoverPeersStatus_def Let_def split_beta)
qed

text \<open>A discovery only looks: whatever the machines of the network answer, every candidate is shown as unverified and not added, and the
  server is as before but for its audit trail: its configuration, its secrets, its nodes and its enrollment tokens are the same, and
  every later request is routed as it would have been.\<close>

lemma discovery_adopts_nobody:
  "let (found, s') = discoverPeers e net s; st = s_state (at_store (srv_auth s)); st' = s_state (at_store (srv_auth s')) in
   list_all only_shown (pd_Candidates found) \<and>
   srv_cfg s' = srv_cfg s \<and> at_secrets (srv_auth s') = at_secrets (srv_auth s) \<and>
   st_Nodes st' = st_Nodes st \<and> st_EnrollmentQueue st' = st_EnrollmentQueue st \<and> st_ClientAPIKeys st' = st_ClientAPIKeys st \<and>
   st_Config st' = st_Config st \<and>
   Select t cfg (Snapshot (at_store (srv_auth s'))) rq = Select t cfg (Snapshot (at_store (srv_auth s))) rq"
  by (simp add: discoverPeers_def Let_def candidates_only_shown Select_emit)

section \<open>The list of a discovery\<close>

text \<open>The pairs of a service and an instance that answers point to, and the ones of a table of the records.\<close>

definition pointers :: "advert list \<Rightarrow> (string \<times> string) list" where
  "pointers ads = concat (map (\<lambda>a. case a of PTR name target \<Rightarrow> [(normalizeDNSName name, normalizeDNSName target)] | _ \<Rightarrow> []) ads)"

definition pairs_of :: "(string, string list) gomap \<Rightarrow> (string \<times> string) set" where
  "pairs_of m = {(k, v). v \<in> set (listed m k)}"

lemma pairs_append_at: "pairs_of (append_at k vs m) = pairs_of m \<union> {k} \<times> set vs"
  by (auto simp: pairs_of_def append_at_def listed_def split: if_splits)

lemma pairs_append_all: "pairs_of (fold (\<lambda>(k, vs). append_at k vs) src dst) = pairs_of dst \<union> (\<Union>(k, vs)\<in>set src. {k} \<times> set vs)"
  by (induction src arbitrary: dst) (auto simp: pairs_append_at)

lemma pairs_distinct: "gokeys_distinct m \<Longrightarrow> pairs_of m = (\<Union>(k, vs)\<in>set m. {k} \<times> set vs)"
  using goget_in_set [of m] by (force simp: pairs_of_def listed_def gokeys_distinct_def goget_def split: option.splits)

lemma pairs_merge:
  "gokeys_distinct (rs_ptr src) \<Longrightarrow> pairs_of (rs_ptr (mergeMDNSRecords dst src)) = pairs_of (rs_ptr dst) \<union> pairs_of (rs_ptr src)"
  by (simp add: mergeMDNSRecords_def pairs_append_all pairs_distinct [of "rs_ptr src"])

lemma pairs_advertise:
  "pairs_of (rs_ptr (fold advertise ads r)) = pairs_of (rs_ptr r) \<union> set (pointers ads)"
proof (induction ads arbitrary: r)
  case (Cons a ads)
  have "pairs_of (rs_ptr (advertise a r)) = pairs_of (rs_ptr r) \<union> set (pointers [a])"
    by (cases a) (simp_all add: pointers_def add_ptr_def add_srv_def add_addr_def pairs_append_at)
  with Cons.IH [of "advertise a r"] show ?case by (simp add: pointers_def Un_assoc)
qed (simp add: pointers_def)

lemma pairs_none [simp]: "pairs_of (rs_ptr noRecords) = {}" "gokeys_distinct (rs_ptr noRecords)"
  by (simp_all add: pairs_of_def listed_def goget_def noRecords_def gokeys_distinct_def)

lemma advertise_distinct: "gokeys_distinct (rs_ptr r) \<Longrightarrow> gokeys_distinct (rs_ptr (fold advertise ads r))"
proof (induction ads arbitrary: r)
  case (Cons a ads)
  have "gokeys_distinct (rs_ptr (advertise a r))"
    using Cons.prems by (cases a) (simp_all add: add_ptr_def add_srv_def add_addr_def append_at_distinct)
  with Cons.IH show ?case by simp
qed simp

text \<open>A responder that fits into the buffer of the reader.\<close>

definition answer_ok :: "advert list \<Rightarrow> bool" where
  "answer_ok ads \<longleftrightarrow> list_all advert_ok ads \<and> length (answer_packet ads) \<le> 4096"

lemma answer_parsed:
  assumes "answer_ok ads"
  shows "parseMDNSRecords (take 4096 (answer_packet ads)) = Parsed (fold advertise ads noRecords)"
proof -
  have "1 \<le> length (advert_bytes a)" for a by (cases a) (simp_all add: rr_bytes_def)
  then have "length ads \<le> length (concat (map advert_bytes ads))"
    by (induction ads) (simp_all, metis One_nat_def Suc_le_mono add_mono plus_1_eq_Suc)
  then have "length ads < 65536" using assms by (simp add: answer_ok_def answer_packet_def)
  then show ?thesis using packet_parsed assms by (simp add: answer_ok_def)
qed

lemma read_answers:
  "list_all answer_ok answers \<Longrightarrow> gokeys_distinct (rs_ptr r) \<Longrightarrow>
   \<exists>r'. read_loop (map (\<lambda>ads. Received (answer_packet ads) False) answers) r = Inr r' \<and> gokeys_distinct (rs_ptr r') \<and>
     pairs_of (rs_ptr r') = pairs_of (rs_ptr r) \<union> set (pointers (concat answers))"
proof (induction answers arbitrary: r)
  case (Cons ads answers)
  let ?src = "fold advertise ads noRecords"
  have src: "gokeys_distinct (rs_ptr ?src)" "pairs_of (rs_ptr ?src) = set (pointers ads)"
    by (rule advertise_distinct) (simp_all add: pairs_advertise)
  from Cons.IH [of "mergeMDNSRecords r ?src"] Cons.prems merge_distinct [of r ?src] show ?case
    by (simp add: answer_parsed Let_def pairs_merge [OF src(1)] src(2)) (simp add: pointers_def Un_assoc)
qed (simp add: pointers_def)

text \<open>C37. The list of a discovery is what the network advertises: after any sequence of answers of well-formed responders it has exactly one
  candidate for every instance of a service that some answer points to, in the order of services and instances. Repetitions, the
  order of the answers, their distribution over packets and the iteration order of the maps have no influence. (The program joins
  service and instance with a bar to find repetitions, so that the names of the services are taken to be free of it.)\<close>

theorem discovery_lists:
  assumes "mn_failure (net (buildMDNSQuery mdnsServiceNames)) = None"
    and "mn_events (net (buildMDNSQuery mdnsServiceNames)) = map (\<lambda>ads. Received (answer_packet ads) False) answers"
    and "list_all answer_ok answers" "list_all (\<lambda>(service, _). CHR ''|'' \<notin> set service) (pointers (concat answers))"
  shows "map (\<lambda>c. (pc_Service c, pc_Instance c)) (pd_Candidates (discoverPeersStatus e net)) =
    sorted_list_of_set (set (pointers (concat answers)))"
proof -
  obtain r where r: "queryMDNS net mdnsServiceNames = Inr r" "gokeys_distinct (rs_ptr r)" "pairs_of (rs_ptr r) = set (pointers (concat answers))"
    using read_answers [OF assms(3), of noRecords] by (auto simp: queryMDNS_def Let_def assms(1,2))
  have "set (advertised r) = set (pointers (concat answers))" using r(3) by (simp add: set_advertised pairs_of_def)
  then have "list_all (\<lambda>(service, _). CHR ''|'' \<notin> set service) (advertised r)" using assms(4) by (simp add: list_all_iff)
  note exact = candidates_exact [OF r(2) this, of "be_sha e"]
  have "pd_Candidates (discoverPeersStatus e net) = mdnsCandidates (be_sha e) r"
    unfolding discoverPeersStatus_def r(1) Let_def by (simp add: split_beta)
  moreover have "map (\<lambda>c. (pc_Service c, pc_Instance c)) (map (\<lambda>(service, inst). candidate (be_sha e) r service inst) ps) = ps" for ps
    by (induction ps) (auto simp: candidate_def Let_def)
  ultimately show ?thesis using r(3) by (simp only: exact pairs_of_def)
qed

section \<open>What the list shows beyond its purpose\<close>

text \<open>An address of IPv6 is put into the endpoint without brackets, and what comes out has no host and port.\<close>

lemma ipv6_endpoint:
  "candidate_endpoint \<lparr> sr_Target = ''gpu.local.'', sr_Port = 443 \<rparr> [''fe80::1''] = ''http://fe80::1:443''"
  "SplitHostPort ''fe80::1:443'' = None"
  by code_simp+

text \<open>The answers are not matched with the query: any service that is advertised on the network becomes a candidate for enrollment.\<close>

lemma unasked_service_listed:
  "map (\<lambda>c. (pc_DisplayName c, pc_AdoptionPath c))
     (mdnsCandidates sha (add_ptr ''_ipp._tcp.local.'' ''printer._ipp._tcp.local.'' noRecords)) =
   [(''printer._ipp._tcp.local'', ''managed_node_enrollment'')]"
proof -
  have "unseen_pairs {} (advertised (add_ptr ''_ipp._tcp.local.'' ''printer._ipp._tcp.local.'' noRecords)) = [(''_ipp._tcp.local.'', ''printer._ipp._tcp.local.'')]"
    "TrimSuffix ''printer._ipp._tcp.local.'' ''.'' = ''printer._ipp._tcp.local''"
    "discoveryAdoptionPath ''_ipp._tcp.local.'' = ''managed_node_enrollment''"
    by code_simp+
  then show ?thesis by (simp add: mdnsCandidates_def candidate_def Let_def)
qed

section \<open>Concrete answers\<close>

definition sampleAdverts :: "advert list" where
  "sampleAdverts = [PTR ''_ollama._tcp.local.'' ''GPU._ollama._tcp.local.'', SRV ''gpu._ollama._tcp.local.'' ''gpu.local.'' 443,
     Address ''gpu.local.'' [CHR 0x0A, CHR 0x00, CHR 0x00, CHR 0x07]]"

definition sampleRecords :: mdnsRecordSet where
  "sampleRecords = \<lparr> rs_ptr = [(''_ollama._tcp.local.'', [''gpu._ollama._tcp.local.''])],
     rs_srv = [(''gpu._ollama._tcp.local.'', \<lparr> sr_Target = ''gpu.local.'', sr_Port = 443 \<rparr>)], rs_addr = [(''gpu.local.'', [''10.0.0.7''])] \<rparr>"

lemma sample_names:
  "dns_name ''_ollama._tcp.local.''" "dns_name ''GPU._ollama._tcp.local.''" "dns_name ''gpu._ollama._tcp.local.''" "dns_name ''gpu.local.''"
  by code_simp+

lemma sampleAdverts_ok: "list_all advert_ok sampleAdverts" "length sampleAdverts < 65536"
  by (simp_all add: sampleAdverts_def sample_names)

lemma sampleAdverts_records: "fold advertise sampleAdverts noRecords = sampleRecords"
  by code_simp

theorem answers_understood_witness: "parseMDNSRecords (answer_packet sampleAdverts) = Parsed sampleRecords"
  using answers_understood [OF sampleAdverts_ok] by (simp add: sampleAdverts_records)

text \<open>Witness: two responders that both advertise the same instance, and one of them another service.\<close>

definition sampleNet :: "string \<Rightarrow> mdns_net" where
  "sampleNet query = \<lparr> mn_failure = None, mn_events = map (\<lambda>ads. Received (answer_packet ads) False)
     [sampleAdverts, [PTR ''_llama-wrangler._tcp.local.'' ''gpu.local.'', PTR ''_ollama._tcp.local.'' ''gpu._ollama._tcp.local.'']] \<rparr>"

theorem discovery_lists_witness:
  "map (\<lambda>c. (pc_Service c, pc_Instance c)) (pd_Candidates (discoverPeersStatus subEnv sampleNet)) =
    sorted_list_of_set {(''_llama-wrangler._tcp.local.'', ''gpu.local.''), (''_ollama._tcp.local.'', ''gpu._ollama._tcp.local.'')}"
proof -
  let ?answers = "[sampleAdverts, [PTR ''_llama-wrangler._tcp.local.'' ''gpu.local.'', PTR ''_ollama._tcp.local.'' ''gpu._ollama._tcp.local.'']]"
  have "length (answer_packet sampleAdverts) \<le> 200" "length (answer_packet [PTR ''_llama-wrangler._tcp.local.'' ''gpu.local.'', PTR ''_ollama._tcp.local.'' ''gpu._ollama._tcp.local.'']) \<le> 200"
    by code_simp+
  moreover have "dns_name ''_llama-wrangler._tcp.local.''" by code_simp
  ultimately have "list_all answer_ok ?answers" using sampleAdverts_ok(1) by (simp add: answer_ok_def sample_names)
  moreover have p: "pointers (concat ?answers) = [(''_ollama._tcp.local.'', ''gpu._ollama._tcp.local.''),
      (''_llama-wrangler._tcp.local.'', ''gpu.local.''), (''_ollama._tcp.local.'', ''gpu._ollama._tcp.local.'')]" by code_simp
  moreover have "list_all (\<lambda>(service, _). CHR ''|'' \<notin> set service) (pointers (concat ?answers))" unfolding p by code_simp
  ultimately show ?thesis using discovery_lists [of sampleNet ?answers subEnv] by (simp add: sampleNet_def insert_commute)
qed

lemma sample_endpoint: "map pc_EndpointURL (mdnsCandidates (\<lambda>x. x) sampleRecords) = [''http://10.0.0.7:443'']"
  by code_simp

end
