(* ===== verification/Diagnostics.thy ===== *)
theory Diagnostics
  imports SetupHandlers
begin

text \<open>
  What the server tells about itself: the support bundle (\<^verbatim>\<open>httpapi/support_bundle.go\<close>) and the summary of recent operations
  (\<^verbatim>\<open>httpapi/operations.go\<close>). Both are computed from a snapshot of the state, whose dynamic values have been copied through JSON.
\<close>

section \<open>The support bundle\<close>

definition replace_char :: "char \<Rightarrow> char \<Rightarrow> string \<Rightarrow> string" where
  "replace_char a b s = map (\<lambda>c. if c = a then b else c) s"

definition sensitive_parts :: "string list" where
  "sensitive_parts = [''api_key'', ''authorization'', ''bearer'', ''client_key'', ''header'', ''message'', ''password'', ''payload'', ''prompt'',
     ''request_body'', ''response'', ''secret'', ''token'']"

definition supportSensitiveKey :: "string \<Rightarrow> bool" where
  "supportSensitiveKey key =
    (let normalized = ToLower (replace_char (CHR '' '') (CHR ''_'') (replace_char (CHR ''-'') (CHR ''_'') key)) in
     list_ex (Contains normalized) sensitive_parts)"

definition secret_markers :: "string list" where
  "secret_markers = [''lw_admin_'', ''lw_client_'', ''lw_hb_'', ''lw_enroll_'', ''sk-'', ''secret_prompt'', ''secret_response'', ''authorization: bearer'']"

definition marked :: "string \<Rightarrow> bool" where
  "marked s = list_ex (Contains (ToLower s)) secret_markers"

definition sanitizeSupportString :: "string \<Rightarrow> string" where
  "sanitizeSupportString v = (if marked v then ''[redacted]'' else v)"

text \<open>The cases of the type switch; every other type, among them lists of maps and counts, is returned as it is.\<close>

fun sanitizeForSupport :: "gval \<Rightarrow> gval" where
  "sanitizeForSupport (GMap m) = GMap (map (\<lambda>(k, v). (k, sanitizeForSupport v)) (filter (\<lambda>(k, v). \<not> supportSensitiveKey k) m))"
| "sanitizeForSupport (GList vs) = GList (map sanitizeForSupport vs)"
| "sanitizeForSupport (GStrs ss) = GList (map (\<lambda>s. GStr (sanitizeSupportString s)) ss)"
| "sanitizeForSupport (GStr s) = GStr (sanitizeSupportString s)"
| "sanitizeForSupport v = v"

definition sanitize_obj :: "gobj \<Rightarrow> gobj" where
  "sanitize_obj m = map (\<lambda>(k, v). (k, sanitizeForSupport v)) (filter (\<lambda>(k, v). \<not> supportSensitiveKey k) m)"

text \<open>A node, a session and the configuration are structures, for which the type switch has no case: of a node only the observed map is changed.\<close>

definition sanitizeNodeMap :: "(string, Node) gomap \<Rightarrow> (string, Node) gomap" where
  "sanitizeNodeMap nodes = map (\<lambda>(i, node). (i, node\<lparr> n_Observed := sanitize_obj (n_Observed node) \<rparr>)) nodes"

definition sanitizeSessionMap :: "(string, Session) gomap \<Rightarrow> (string, Session) gomap" where
  "sanitizeSessionMap sessions = sessions"

definition sanitizeAuditEvents :: "AuditEvent list \<Rightarrow> AuditEvent list" where
  "sanitizeAuditEvents events =
    map (\<lambda>ev. ev\<lparr> ae_Fields := sanitize_obj (ae_Fields ev), ae_Message := sanitizeSupportString (ae_Message ev) \<rparr>) events"

record supportClientKeyMetadata =
  sc_Count :: nat
  sc_Active :: nat
  sc_Revoked :: nat

definition summarizeClientKeys :: "ClientAPIKey list \<Rightarrow> supportClientKeyMetadata" where
  "summarizeClientKeys keys =
    fold (\<lambda>key m. if ck_Enabled key then m\<lparr> sc_Active := sc_Active m + 1 \<rparr> else m\<lparr> sc_Revoked := sc_Revoked m + 1 \<rparr>) keys
      \<lparr> sc_Count = length keys, sc_Active = 0, sc_Revoked = 0 \<rparr>"

record supportServiceMetadata =
  sm_Role :: string
  sm_NodeID :: string
  sm_SetupComplete :: bool
  sm_SchemaVersion :: int
  sm_ConfigVersion :: int
  sm_MigrationHistory :: "MigrationRecord list"
  sm_CreatedAt :: gotime
  sm_UpdatedAt :: gotime
  sm_ClientKeys :: supportClientKeyMetadata
  sm_EnrollmentQueue :: "EnrollmentRequest list"

record supportBundle =
  sb_GeneratedAt :: gotime
  sb_Version :: string
  sb_Schema :: "string \<times> int \<times> string \<times> string \<times> string"
  sb_Service :: supportServiceMetadata
  sb_Config :: Config
  sb_Nodes :: "(string, Node) gomap"
  sb_Sessions :: "(string, Session) gomap"
  sb_Queue :: QueueSnapshot
  sb_Audit :: "AuditEvent list"
  sb_SecretStorage :: SecretStatus
  sb_SecretsIncluded :: bool

definition queueSnapshot :: "'r server \<Rightarrow> QueueSnapshot" where
  "queueSnapshot s = snapshot (activeDepth (srv_queue s)) (Queue.status (srv_queue s)) (srv_meta s)"

definition buildSupportBundle :: "'r sub_env \<Rightarrow> 'r server \<Rightarrow> supportBundle" where
  "buildSupportBundle e s =
    (let state = Snapshot (at_store (srv_auth s)) in
     \<lparr> sb_GeneratedAt = be_now e, sb_Version = c_Version (srv_cfg s),
       sb_Schema = (''llama-wrangler.support-bundle'', 1, ''schemas/support_bundle.schema.json'', ''docs/13_support_bundle_schema.md'',
         ''additive_backward_compatible''),
       sb_Service = \<lparr> sm_Role = st_Role state, sm_NodeID = st_NodeID state, sm_SetupComplete = st_SetupComplete state,
         sm_SchemaVersion = st_SchemaVersion state, sm_ConfigVersion = st_ConfigVersion state,
         sm_MigrationHistory = st_MigrationHistory state, sm_CreatedAt = st_CreatedAt state, sm_UpdatedAt = st_UpdatedAt state,
         sm_ClientKeys = summarizeClientKeys (st_ClientAPIKeys state),
         sm_EnrollmentQueue = sanitizeEnrollmentQueue (st_EnrollmentQueue state) \<rparr>,
       sb_Config = sanitizeConfig (st_Config state), sb_Nodes = sanitizeNodeMap (st_Nodes state),
       sb_Sessions = sanitizeSessionMap (st_Sessions state), sb_Queue = queueSnapshot s,
       sb_Audit = sanitizeAuditEvents (st_Audit state), sb_SecretStorage = statusLocked (at_secrets (srv_auth s)),
       sb_SecretsIncluded = False \<rparr>)"

section \<open>Recent operations\<close>

record OperationEventCounter =
  oc_Total :: nat
  oc_BeforeFirstToken :: nat
  oc_AfterPartial :: nat
  oc_LastAt :: "gotime option"

record CancellationCounter =
  cc_Total :: nat
  cc_BeforeFirstToken :: nat
  cc_AfterPartialOutput :: nat
  cc_BeforeQueue :: nat
  cc_LastAt :: "gotime option"

record ConsensusCounter =
  cs_Total :: nat
  cs_Reached :: nat
  cs_NoMajority :: nat
  cs_Failed :: nat
  cs_TimedOut :: nat
  cs_Cancelled :: nat
  cs_StreamingRejected :: nat
  cs_LastParticipantCount :: int
  cs_LastSuccessfulCount :: int
  cs_LastAgreementScore :: rat
  cs_LastWinnerNode :: string
  cs_FailureReasons :: "(string, int) gomap"
  cs_LastAt :: "gotime option"

record OperationStats =
  op_Window :: string
  op_AuditEvents :: nat
  op_Retries :: OperationEventCounter
  op_Partials :: OperationEventCounter
  op_Cancellations :: CancellationCounter
  op_Consensus :: ConsensusCounter

definition boolField :: "AuditEvent \<Rightarrow> string \<Rightarrow> bool" where
  "boolField ev key = (case field (ae_Fields ev) key of GBool b \<Rightarrow> b | _ \<Rightarrow> False)"

definition intField :: "AuditEvent \<Rightarrow> string \<Rightarrow> int" where
  "intField ev key = benchmarkJobInt (field (ae_Fields ev) key) 0"

definition floatField :: "AuditEvent \<Rightarrow> string \<Rightarrow> rat" where
  "floatField ev key = (case field (ae_Fields ev) key of GFloat q \<Rightarrow> q | GInt n \<Rightarrow> of_int n | _ \<Rightarrow> 0)"

definition event_text :: "AuditEvent \<Rightarrow> string \<Rightarrow> string" where
  "event_text ev key = as_string (field (ae_Fields ev) key)"

definition latestTime :: "gotime option \<Rightarrow> gotime \<Rightarrow> gotime option" where
  "latestTime current candidate =
    (if candidate = 0 then current
     else case current of None \<Rightarrow> Some candidate | Some t \<Rightarrow> if t < candidate then Some candidate else current)"

definition isConsensusFailureReason :: "string \<Rightarrow> bool" where
  "isConsensusFailureReason reason \<longleftrightarrow> reason \<in> {consensusFailureMissingProxyURL, consensusFailureConnectionError, consensusFailureUpstream4xx,
     consensusFailureUpstream5xx, consensusFailureBodyRead, consensusFailureResponseSize, consensusFailureTimeout, consensusFailureCancellation}"

definition add_count :: "string \<Rightarrow> int \<Rightarrow> (string, int) gomap \<Rightarrow> (string, int) gomap" where
  "add_count reason n m = goput reason ((case goget m reason of Some k \<Rightarrow> k | None \<Rightarrow> 0) + n) m"

definition consensusFailureReasonCounts :: "AuditEvent \<Rightarrow> (string, int) gomap" where
  "consensusFailureReasonCounts ev =
    (case field (ae_Fields ev) ''failure_reason_counts'' of
       GCounts cs \<Rightarrow> fold (\<lambda>(reason, n) m. if isConsensusFailureReason reason \<and> 0 < n then add_count reason n m else m) cs []
     | GMap vs \<Rightarrow> fold (\<lambda>(reason, v) m. if isConsensusFailureReason reason then add_count reason (max (benchmarkJobInt v 0) 0) m else m) vs []
     | _ \<Rightarrow> [])"

definition count_retry :: "AuditEvent \<Rightarrow> OperationEventCounter \<Rightarrow> OperationEventCounter" where
  "count_retry ev c = c\<lparr> oc_Total := oc_Total c + 1,
     oc_BeforeFirstToken := (if event_text ev ''retry_phase'' = ''before_first_token'' then oc_BeforeFirstToken c + 1 else oc_BeforeFirstToken c),
     oc_LastAt := latestTime (oc_LastAt c) (ae_Timestamp ev) \<rparr>"

definition count_partial :: "AuditEvent \<Rightarrow> OperationEventCounter \<Rightarrow> OperationEventCounter" where
  "count_partial ev c = c\<lparr> oc_Total := oc_Total c + 1,
     oc_AfterPartial := (if event_text ev ''retry_phase'' = ''after_partial_output'' then oc_AfterPartial c + 1 else oc_AfterPartial c),
     oc_LastAt := latestTime (oc_LastAt c) (ae_Timestamp ev) \<rparr>"

definition count_cancelled :: "AuditEvent \<Rightarrow> CancellationCounter \<Rightarrow> CancellationCounter" where
  "count_cancelled ev c0 =
    (let c = c0\<lparr> cc_Total := cc_Total c0 + 1 \<rparr>; reason = event_text ev ''reason'';
         c = (if reason = ''client_cancelled_before_first_token'' then c\<lparr> cc_BeforeFirstToken := cc_BeforeFirstToken c + 1 \<rparr>
              else if reason = ''client_cancelled_after_partial_output'' then c\<lparr> cc_AfterPartialOutput := cc_AfterPartialOutput c + 1 \<rparr>
              else if reason = ''client_disconnect_before_queue'' then c\<lparr> cc_BeforeQueue := cc_BeforeQueue c + 1 \<rparr> else c) in
     c\<lparr> cc_LastAt := latestTime (cc_LastAt c) (ae_Timestamp ev) \<rparr>)"

definition consensus_outcome :: "AuditEvent \<Rightarrow> ConsensusCounter \<Rightarrow> ConsensusCounter" where
  "consensus_outcome ev c =
    (if boolField ev ''consensus_reached'' then c\<lparr> cs_Reached := cs_Reached c + 1 \<rparr>
     else if boolField ev ''streaming_rejected'' then c\<lparr> cs_StreamingRejected := cs_StreamingRejected c + 1, cs_Failed := cs_Failed c + 1 \<rparr>
     else if boolField ev ''client_cancelled'' then c\<lparr> cs_Cancelled := cs_Cancelled c + 1, cs_Failed := cs_Failed c + 1 \<rparr>
     else if intField ev ''successful_count'' < intField ev ''required_participants'' then c\<lparr> cs_Failed := cs_Failed c + 1 \<rparr>
     else c\<lparr> cs_NoMajority := cs_NoMajority c + 1 \<rparr>)"

definition count_consensus :: "AuditEvent \<Rightarrow> ConsensusCounter \<Rightarrow> ConsensusCounter" where
  "count_consensus ev c0 =
    (let c = c0\<lparr> cs_Total := cs_Total c0 + 1,
           cs_FailureReasons := fold (\<lambda>(reason, n). add_count reason n) (consensusFailureReasonCounts ev) (cs_FailureReasons c0) \<rparr>;
         c = consensus_outcome ev c;
         c = (if boolField ev ''timed_out'' then c\<lparr> cs_TimedOut := cs_TimedOut c + 1 \<rparr> else c);
         newer = (case cs_LastAt c of None \<Rightarrow> True | Some t \<Rightarrow> t < ae_Timestamp ev);
         c = (if newer then c\<lparr> cs_LastParticipantCount := intField ev ''participant_count'',
                cs_LastSuccessfulCount := intField ev ''successful_count'', cs_LastAgreementScore := floatField ev ''agreement_score'',
                cs_LastWinnerNode := event_text ev ''winner_node'' \<rparr> else c) in
     c\<lparr> cs_LastAt := latestTime (cs_LastAt c) (ae_Timestamp ev) \<rparr>)"

definition count_event :: "AuditEvent \<Rightarrow> OperationStats \<Rightarrow> OperationStats" where
  "count_event ev st =
    (if ae_Type ev = ''upstream_retry'' then st\<lparr> op_Retries := count_retry ev (op_Retries st) \<rparr>
     else if ae_Type ev = ''response_partial'' then st\<lparr> op_Partials := count_partial ev (op_Partials st) \<rparr>
     else if ae_Type ev = ''request_cancelled'' then st\<lparr> op_Cancellations := count_cancelled ev (op_Cancellations st) \<rparr>
     else if ae_Type ev = ''consensus'' then st\<lparr> op_Consensus := count_consensus ev (op_Consensus st) \<rparr>
     else st)"

definition noStats :: "nat \<Rightarrow> OperationStats" where
  "noStats n = \<lparr> op_Window = ''recent_audit_events'', op_AuditEvents = n,
     op_Retries = \<lparr> oc_Total = 0, oc_BeforeFirstToken = 0, oc_AfterPartial = 0, oc_LastAt = None \<rparr>,
     op_Partials = \<lparr> oc_Total = 0, oc_BeforeFirstToken = 0, oc_AfterPartial = 0, oc_LastAt = None \<rparr>,
     op_Cancellations = \<lparr> cc_Total = 0, cc_BeforeFirstToken = 0, cc_AfterPartialOutput = 0, cc_BeforeQueue = 0, cc_LastAt = None \<rparr>,
     op_Consensus = \<lparr> cs_Total = 0, cs_Reached = 0, cs_NoMajority = 0, cs_Failed = 0, cs_TimedOut = 0, cs_Cancelled = 0, cs_StreamingRejected = 0,
       cs_LastParticipantCount = 0, cs_LastSuccessfulCount = 0, cs_LastAgreementScore = 0, cs_LastWinnerNode = [], cs_FailureReasons = [],
       cs_LastAt = None \<rparr> \<rparr>"

definition summarizeOperations :: "AuditEvent list \<Rightarrow> OperationStats" where
  "summarizeOperations events = fold count_event events (noStats (length events))"

definition operationStats :: "'r server \<Rightarrow> OperationStats" where
  "operationStats s = summarizeOperations (st_Audit (Snapshot (at_store (srv_auth s))))"

section \<open>What the bundle gives away\<close>

text \<open>No map in a clean value, at any depth, has a key that names something sensitive, and no text carries the mark of a token.\<close>

fun clean_value :: "gval \<Rightarrow> bool" where
  "clean_value (GMap m) = list_all (\<lambda>(k, v). \<not> supportSensitiveKey k \<and> clean_value v) m"
| "clean_value (GMaps ms) = list_all (list_all (\<lambda>(k, v). \<not> supportSensitiveKey k \<and> clean_value v)) ms"
| "clean_value (GList vs) = list_all clean_value vs"
| "clean_value (GStrs ss) = list_all (\<lambda>s. \<not> marked s) ss"
| "clean_value (GCounts cs) = list_all (\<lambda>(k, _). \<not> supportSensitiveKey k) cs"
| "clean_value (GStr s) = (\<not> marked s)"
| "clean_value _ = True"

lemma redacted_unmarked: "\<not> marked ''[redacted]''"
  by code_simp

lemma sanitized_unmarked: "\<not> marked (sanitizeSupportString s)"
  by (simp add: sanitizeSupportString_def redacted_unmarked)

lemma sanitized_clean: "clean_value (sanitizeForSupport (json_val v))"
  by (induction v rule: json_val.induct) (auto simp: list_all_iff sanitized_unmarked)

text \<open>Beyond that nothing is dropped: a value that is clean comes through as it is.\<close>

lemma sanitize_pairs:
  "list_all (\<lambda>(k, v). \<not> supportSensitiveKey k \<and> f v = v) m \<Longrightarrow> map (\<lambda>(k, v). (k, f v)) (filter (\<lambda>(k, v). \<not> supportSensitiveKey k) m) = m"
  by (induction m) auto

lemma sanitize_clean_id: "clean_value (json_val v) \<Longrightarrow> sanitizeForSupport (json_val v) = json_val v"
proof (induction v rule: json_val.induct)
  case (8 m)
  then show ?case by (simp del: map_map) (rule sanitize_pairs, auto simp: list_all_iff)
next
  case (9 ms)
  then have "map (\<lambda>(k, v). (k, sanitizeForSupport v)) (filter (\<lambda>(k, v). \<not> supportSensitiveKey k) (map (\<lambda>(k, v). (k, json_val v)) m)) =
      map (\<lambda>(k, v). (k, json_val v)) m" if "m \<in> set ms" for m
    using that by (intro sanitize_pairs) (fastforce simp: list_all_iff)
  then show ?case by simp
next
  case (11 cs)
  then show ?case by (simp del: map_map) (rule sanitize_pairs, auto simp: list_all_iff)
qed (auto simp: list_all_iff sanitizeSupportString_def intro!: map_idI)

lemma sanitize_json_obj: "list_all (\<lambda>(k, v). \<not> supportSensitiveKey k \<and> clean_value v) (sanitize_obj (json_obj m))"
  by (auto simp: sanitize_obj_def json_obj_def list_all_iff sanitized_clean)

text \<open>The server with every secret blanked: the secrets and their files, the secret fields of both configurations, the digests of enrollment tokens,
  the hint of the operator token and of client keys, and the recovery token.\<close>

definition without_secrets :: "'r server \<Rightarrow> 'r server" where
  "without_secrets s =
    (let a = srv_auth s; t = at_store a; st = s_state t in
     s\<lparr> srv_cfg := jsonConfig (srv_cfg s), srv_recovery := [],
        srv_auth := a\<lparr> at_secrets := (at_secrets a)\<lparr> sx_data := [], sx_key := [], sx_file := Missing, sx_keyFile := Missing, sx_legacy := Missing \<rparr>,
          at_store := t\<lparr> s_file := NoFile, s_state := st\<lparr> st_Config := jsonConfig (st_Config st), st_AdminTokenHint := [],
            st_ClientAPIKeys := map (\<lambda>k. k\<lparr> ck_Hint := [] \<rparr>) (st_ClientAPIKeys st),
            st_EnrollmentQueue := map (\<lambda>r. r\<lparr> er_TokenHash := [] \<rparr>) (st_EnrollmentQueue st) \<rparr> \<rparr> \<rparr> \<rparr>)"

lemma summarize_fold:
  "fold (\<lambda>key m. if ck_Enabled key then m\<lparr> sc_Active := sc_Active m + 1 \<rparr> else m\<lparr> sc_Revoked := sc_Revoked m + 1 \<rparr>) keys m =
   m\<lparr> sc_Active := sc_Active m + length (filter ck_Enabled keys), sc_Revoked := sc_Revoked m + length (filter (\<lambda>k. \<not> ck_Enabled k) keys) \<rparr>"
  by (induction keys arbitrary: m) simp_all

lemma summarizeClientKeys_eq:
  "summarizeClientKeys keys = \<lparr> sc_Count = length keys, sc_Active = length (filter ck_Enabled keys), sc_Revoked = length (filter (\<lambda>k. \<not> ck_Enabled k) keys) \<rparr>"
  by (simp only: summarizeClientKeys_def summarize_fold) simp

lemma summarize_hint: "summarizeClientKeys (map (\<lambda>k. k\<lparr> ck_Hint := h \<rparr>) keys) = summarizeClientKeys keys"
  by (simp add: summarizeClientKeys_eq filter_map comp_def)

lemma jsonConfig_twice: "jsonConfig (jsonConfig c) = jsonConfig c"
  by (simp add: jsonConfig_def)

text \<open>C38. What the support bundle keeps back. It does not depend on any stored secret: a server whose secrets, token digests, hints and recovery
  token are all blank exports the same bundle. The observed data of nodes and the fields of the audit trail have no key that names a
  secret or the content of a request, at any depth, and no text in them, nor the message of an event, carries the mark of a token; the
  enrollment requests carry no digest. Of the client keys it has three numbers, of which the first is the sum of the others. (Nothing
  is said of the other structures: the configuration with its compatibility map, sessions and the other texts of nodes are exported as
  they are, see \<open>structures_not_redacted\<close>.)\<close>

theorem support_bundle_safe:
  "buildSupportBundle e (without_secrets s) = buildSupportBundle e s \<and>
   (let b = buildSupportBundle e s; clean = list_all (\<lambda>(k, v). \<not> supportSensitiveKey k \<and> clean_value v); keys = sm_ClientKeys (sb_Service b) in
    list_all (\<lambda>(i, node). clean (n_Observed node)) (sb_Nodes b) \<and>
    list_all (\<lambda>ev. clean (ae_Fields ev) \<and> \<not> marked (ae_Message ev)) (sb_Audit b) \<and>
    list_all (\<lambda>r. er_TokenHash r = []) (sm_EnrollmentQueue (sb_Service b)) \<and>
    sc_Count keys = sc_Active keys + sc_Revoked keys)"
proof -
  have "buildSupportBundle e (without_secrets s) = buildSupportBundle e s"
    by (simp add: buildSupportBundle_def without_secrets_def Let_def Snapshot_def cloneState_def jsonState_def jsonConfig_twice summarize_hint
        sanitizeEnrollmentQueue_def statusLocked_def queueSnapshot_def comp_def) (simp add: jsonConfig_def)
  moreover have "sc_Count (summarizeClientKeys keys) = sc_Active (summarizeClientKeys keys) + sc_Revoked (summarizeClientKeys keys)" for keys
    by (simp add: summarizeClientKeys_eq sum_length_filter_compl)
  ultimately show ?thesis
    by (auto simp: buildSupportBundle_def Let_def Snapshot_def cloneState_def jsonState_def jsonNode_def jsonAudit_def sanitizeNodeMap_def
        sanitizeAuditEvents_def sanitizeEnrollmentQueue_def list.pred_map comp_def case_prod_unfold sanitize_json_obj [unfolded case_prod_unfold]
        sanitized_unmarked list.pred_True)
qed

text \<open>The type switch has no case for structures: the texts of a node beside its observed data are exported as they are, and so is the map of the
  configuration, whatever its keys.\<close>

lemma structures_not_redacted:
  "c_Compatibility (sb_Config (buildSupportBundle e s)) = json_obj (c_Compatibility (st_Config (s_state (at_store (srv_auth s)))))"
  "sb_Sessions (buildSupportBundle e s) = st_Sessions (s_state (at_store (srv_auth s)))"
  "map (\<lambda>(i, node). (i, n_Hostname node)) (sb_Nodes (buildSupportBundle e s)) = map (\<lambda>(i, node). (i, n_Hostname node)) (st_Nodes (s_state (at_store (srv_auth s))))"
  by (simp_all add: buildSupportBundle_def Let_def Snapshot_def cloneState_def jsonState_def jsonConfig_def sanitizeConfig_def sanitizeSessionMap_def
      sanitizeNodeMap_def jsonNode_def comp_def case_prod_unfold)

section \<open>The account of operations\<close>

abbreviation of_type :: "string \<Rightarrow> AuditEvent list \<Rightarrow> AuditEvent list" where
  "of_type ty events \<equiv> filter (\<lambda>ev. ae_Type ev = ty) events"

text \<open>The newest of the times that are not zero.\<close>

definition newest :: "AuditEvent list \<Rightarrow> gotime option" where
  "newest events = (let ts = filter (\<lambda>t. t \<noteq> 0) (map ae_Timestamp events) in if ts = [] then None else Some (Max (set ts)))"

lemma fold_counters:
  "op_Retries (fold count_event events st) = fold count_retry (of_type ''upstream_retry'' events) (op_Retries st)"
  "op_Partials (fold count_event events st) = fold count_partial (of_type ''response_partial'' events) (op_Partials st)"
  "op_Cancellations (fold count_event events st) = fold count_cancelled (of_type ''request_cancelled'' events) (op_Cancellations st)"
  "op_Consensus (fold count_event events st) = fold count_consensus (of_type ''consensus'' events) (op_Consensus st)"
  "op_AuditEvents (fold count_event events st) = op_AuditEvents st"
  by (induction events arbitrary: st) (simp_all add: count_event_def)

lemma newest_snoc: "newest (events @ [ev]) = latestTime (newest events) (ae_Timestamp ev)"
proof -
  define ts where "ts = filter (\<lambda>t. t \<noteq> 0) (map ae_Timestamp events)"
  have before: "newest events = (if ts = [] then None else Some (Max (set ts)))" by (simp only: newest_def ts_def Let_def)
  have after: "newest (events @ [ev]) = (let ts' = ts @ (if ae_Timestamp ev \<noteq> 0 then [ae_Timestamp ev] else []) in if ts' = [] then None else Some (Max (set ts')))"
    by (simp only: newest_def ts_def Let_def) simp
  show ?thesis unfolding before after by (cases "ts = []") (auto simp: latestTime_def max_def simp del: Max_less_iff)
qed

lemma newest_fold:
  assumes "\<And>ev c. last_of (f ev c) = latestTime (last_of c) (ae_Timestamp ev)" "last_of c = None"
  shows "last_of (fold f events c) = newest events"
  by (induction events rule: rev_induct) (simp_all add: assms newest_snoc, simp add: newest_def)

text \<open>One invariant per counter.\<close>

lemma retries_account:
  "let c = fold count_retry events \<lparr> oc_Total = 0, oc_BeforeFirstToken = 0, oc_AfterPartial = 0, oc_LastAt = None \<rparr> in
   oc_Total c = length events \<and> oc_BeforeFirstToken c \<le> oc_Total c \<and> oc_AfterPartial c = 0"
  by (induction events rule: rev_induct) (simp_all add: count_retry_def Let_def)

lemma partials_account:
  "let c = fold count_partial events \<lparr> oc_Total = 0, oc_BeforeFirstToken = 0, oc_AfterPartial = 0, oc_LastAt = None \<rparr> in
   oc_Total c = length events \<and> oc_AfterPartial c \<le> oc_Total c \<and> oc_BeforeFirstToken c = 0"
  by (induction events rule: rev_induct) (simp_all add: count_partial_def Let_def)

lemma cancelled_account:
  "let c = fold count_cancelled events \<lparr> cc_Total = 0, cc_BeforeFirstToken = 0, cc_AfterPartialOutput = 0, cc_BeforeQueue = 0, cc_LastAt = None \<rparr> in
   cc_Total c = length events \<and> cc_BeforeFirstToken c + cc_AfterPartialOutput c + cc_BeforeQueue c \<le> cc_Total c"
  by (induction events rule: rev_induct) (simp_all add: count_cancelled_def Let_def)

abbreviation vocabulary :: "(string, int) gomap \<Rightarrow> bool" where
  "vocabulary \<equiv> list_all (\<lambda>(reason, n). isConsensusFailureReason reason \<and> 0 \<le> n)"

lemma set_goput_subset: "set (goput k v m) \<subseteq> insert (k, v) (set m)"
  unfolding goput_def by (induction m) auto

lemma add_count_vocabulary: "vocabulary m \<Longrightarrow> isConsensusFailureReason r \<Longrightarrow> 0 \<le> n \<Longrightarrow> vocabulary (add_count r n m)"
proof -
  assume m: "vocabulary m" and r: "isConsensusFailureReason r" and n: "0 \<le> n"
  have "0 \<le> (case goget m r of Some k \<Rightarrow> k | None \<Rightarrow> 0) + n"
    using m n goget_in_set [of m r] by (fastforce simp: list_all_iff split: option.split)
  with m r show ?thesis by (auto simp: add_count_def list_all_iff dest!: subsetD [OF set_goput_subset])
qed

lemma reason_counts_vocabulary: "vocabulary (consensusFailureReasonCounts ev)"
proof -
  have a: "vocabulary m \<Longrightarrow> vocabulary (fold (\<lambda>(reason, n) m. if isConsensusFailureReason reason \<and> 0 < n then add_count reason n m else m) cs m)"
    for cs :: "(string \<times> int) list" and m
    by (induction cs arbitrary: m) (simp_all add: split_beta add_count_vocabulary)
  have b: "vocabulary m \<Longrightarrow>
      vocabulary (fold (\<lambda>(reason, v) m. if isConsensusFailureReason reason then add_count reason (max (benchmarkJobInt v 0) 0) m else m) vs m)" for vs m
    by (induction vs arbitrary: m) (simp_all add: split_beta add_count_vocabulary)
  show ?thesis using a [of "[]"] b [of "[]"] by (simp add: consensusFailureReasonCounts_def split: gval.split)
qed

lemma add_counts_vocabulary: "vocabulary cs \<Longrightarrow> vocabulary m \<Longrightarrow> vocabulary (fold (\<lambda>(reason, n). add_count reason n) cs m)"
  by (induction cs arbitrary: m) (simp_all add: split_beta add_count_vocabulary)

text \<open>What the page shows as the last decision is taken from one event.\<close>

definition shown_last :: "ConsensusCounter \<Rightarrow> AuditEvent \<Rightarrow> bool" where
  "shown_last c ev \<longleftrightarrow> cs_LastParticipantCount c = intField ev ''participant_count'' \<and> cs_LastSuccessfulCount c = intField ev ''successful_count'' \<and>
     cs_LastAgreementScore c = floatField ev ''agreement_score'' \<and> cs_LastWinnerNode c = event_text ev ''winner_node''"

definition consensus_account :: "AuditEvent list \<Rightarrow> ConsensusCounter \<Rightarrow> bool" where
  "consensus_account events c \<longleftrightarrow>
     cs_Total c = length events \<and> cs_Reached c + cs_NoMajority c + cs_Failed c = cs_Total c \<and>
     cs_Cancelled c + cs_StreamingRejected c \<le> cs_Failed c \<and> cs_TimedOut c \<le> cs_Total c \<and> vocabulary (cs_FailureReasons c)"

lemma count_consensus_account: "consensus_account events c \<Longrightarrow> consensus_account (events @ [ev]) (count_consensus ev c)"
proof -
  assume c: "consensus_account events c"
  have "vocabulary (cs_FailureReasons (count_consensus ev c))"
    using c add_counts_vocabulary [OF reason_counts_vocabulary] by (simp add: count_consensus_def consensus_outcome_def consensus_account_def Let_def)
  with c show ?thesis by (simp add: count_consensus_def consensus_outcome_def consensus_account_def Let_def)
qed

lemma count_consensus_last:
  "cs_LastAt (count_consensus ev c) = latestTime (cs_LastAt c) (ae_Timestamp ev)"
  "(case cs_LastAt c of None \<Rightarrow> True | Some t \<Rightarrow> t < ae_Timestamp ev) \<Longrightarrow> shown_last (count_consensus ev c) ev"
  "\<not> (case cs_LastAt c of None \<Rightarrow> True | Some t \<Rightarrow> t < ae_Timestamp ev) \<Longrightarrow> shown_last (count_consensus ev c) = shown_last c"
  by (simp_all add: count_consensus_def consensus_outcome_def shown_last_def Let_def fun_eq_iff)

abbreviation noConsensus :: ConsensusCounter where
  "noConsensus \<equiv> op_Consensus (noStats 0)"

lemma consensus_fold:
  "consensus_account events (fold count_consensus events noConsensus) \<and> cs_LastAt (fold count_consensus events noConsensus) = newest events \<and>
   (case newest events of None \<Rightarrow> True
    | Some t \<Rightarrow> t < 0 \<or> list_ex (\<lambda>ev. ae_Timestamp ev = t \<and> shown_last (fold count_consensus events noConsensus) ev) events)"
proof (induction events rule: rev_induct)
  case Nil
  then show ?case by (simp add: consensus_account_def noStats_def newest_def)
next
  case (snoc ev events)
  let ?c = "fold count_consensus events noConsensus"
  have lastAt: "cs_LastAt ?c = newest events" using snoc by blast
  have eq: "fold count_consensus (events @ [ev]) noConsensus = count_consensus ev ?c" by simp
  have account: "consensus_account (events @ [ev]) (count_consensus ev ?c)" using count_consensus_account snoc by blast
  have time: "cs_LastAt (count_consensus ev ?c) = newest (events @ [ev])"
    unfolding newest_snoc lastAt [symmetric] by (rule count_consensus_last)
  have "case newest (events @ [ev]) of None \<Rightarrow> True
    | Some t \<Rightarrow> t < 0 \<or> list_ex (\<lambda>x. ae_Timestamp x = t \<and> shown_last (count_consensus ev ?c) x) (events @ [ev])"
    using snoc count_consensus_last(2,3) [where c = ?c and ev = ev] unfolding newest_snoc lastAt
    by (cases "newest events") (auto simp: latestTime_def list_ex_iff)
  then show ?case unfolding eq using account time by (intro conjI)
qed

lemma summary_retries:
  "let r = op_Retries (summarizeOperations events) in
   oc_Total r = length (of_type ''upstream_retry'' events) \<and> oc_BeforeFirstToken r \<le> oc_Total r \<and> oc_LastAt r = newest (of_type ''upstream_retry'' events)"
  using retries_account [of "of_type ''upstream_retry'' events"]
    newest_fold [of oc_LastAt count_retry "\<lparr> oc_Total = 0, oc_BeforeFirstToken = 0, oc_AfterPartial = 0, oc_LastAt = None \<rparr>" "of_type ''upstream_retry'' events"]
  by (simp add: summarizeOperations_def fold_counters noStats_def Let_def count_retry_def)

lemma summary_partials:
  "let p = op_Partials (summarizeOperations events) in
   oc_Total p = length (of_type ''response_partial'' events) \<and> oc_AfterPartial p \<le> oc_Total p \<and> oc_LastAt p = newest (of_type ''response_partial'' events)"
  using partials_account [of "of_type ''response_partial'' events"]
    newest_fold [of oc_LastAt count_partial "\<lparr> oc_Total = 0, oc_BeforeFirstToken = 0, oc_AfterPartial = 0, oc_LastAt = None \<rparr>" "of_type ''response_partial'' events"]
  by (simp add: summarizeOperations_def fold_counters noStats_def Let_def count_partial_def)

lemma cancelled_last: "cc_LastAt (count_cancelled ev c) = latestTime (cc_LastAt c) (ae_Timestamp ev)"
  by (simp add: count_cancelled_def Let_def)

lemma summary_cancelled:
  "let x = op_Cancellations (summarizeOperations events) in
   cc_Total x = length (of_type ''request_cancelled'' events) \<and> cc_BeforeFirstToken x + cc_AfterPartialOutput x + cc_BeforeQueue x \<le> cc_Total x \<and>
   cc_LastAt x = newest (of_type ''request_cancelled'' events)"
  using cancelled_account [of "of_type ''request_cancelled'' events"]
    newest_fold [of cc_LastAt count_cancelled "\<lparr> cc_Total = 0, cc_BeforeFirstToken = 0, cc_AfterPartialOutput = 0, cc_BeforeQueue = 0, cc_LastAt = None \<rparr>"
      "of_type ''request_cancelled'' events", OF cancelled_last]
  by (simp add: summarizeOperations_def fold_counters noStats_def Let_def)

lemma summary_consensus: "op_Consensus (summarizeOperations events) = fold count_consensus (of_type ''consensus'' events) noConsensus"
  by (simp add: summarizeOperations_def fold_counters noStats_def)

text \<open>The page of operations adds up: it counts every event of the four kinds once; a decision by consensus is reached, without a majority
  or failed, and cancelled and rejected ones are among the failed; the phases of retries, partial answers and cancellations are not
  more than their totals; the reasons of failures are of the fixed vocabulary and their numbers not negative. The times are those
  of the newest event of each kind, and what is shown of the last decision is all of one event, a newest one (of times after the zero time of Go, the year 1).\<close>

theorem operations_add_up:
  "let st = summarizeOperations events; r = op_Retries st; p = op_Partials st; x = op_Cancellations st; c = op_Consensus st in
   oc_Total r = length (of_type ''upstream_retry'' events) \<and> oc_BeforeFirstToken r \<le> oc_Total r \<and>
   oc_Total p = length (of_type ''response_partial'' events) \<and> oc_AfterPartial p \<le> oc_Total p \<and>
   cc_Total x = length (of_type ''request_cancelled'' events) \<and> cc_BeforeFirstToken x + cc_AfterPartialOutput x + cc_BeforeQueue x \<le> cc_Total x \<and>
   cs_Total c = length (of_type ''consensus'' events) \<and> cs_Reached c + cs_NoMajority c + cs_Failed c = cs_Total c \<and>
   cs_Cancelled c + cs_StreamingRejected c \<le> cs_Failed c \<and> cs_TimedOut c \<le> cs_Total c \<and>
   list_all (\<lambda>(reason, n). isConsensusFailureReason reason \<and> 0 \<le> n) (cs_FailureReasons c) \<and>
   oc_LastAt r = newest (of_type ''upstream_retry'' events) \<and> oc_LastAt p = newest (of_type ''response_partial'' events) \<and>
   cc_LastAt x = newest (of_type ''request_cancelled'' events) \<and> cs_LastAt c = newest (of_type ''consensus'' events) \<and>
   (case cs_LastAt c of None \<Rightarrow> True | Some t \<Rightarrow> t < 0 \<or> list_ex (\<lambda>ev. ae_Timestamp ev = t \<and> shown_last c ev) (of_type ''consensus'' events))"
  using summary_retries [of events] summary_partials [of events] summary_cancelled [of events]
    consensus_fold [of "of_type ''consensus'' events", folded summary_consensus]
  by (simp add: Let_def consensus_account_def)

end
