(* ===== verification/Installation.thy ===== *)
theory Installation
  imports SetupHandlers
begin

text \<open>
  Installation on other machines: the dry run of a service wrapper (\<^verbatim>\<open>servicewrap/dryrun.go\<close>) with the property list it renders, and the
  plan for a subscriber (\<^verbatim>\<open>httpapi/subscriber_install.go\<close>) with its commands; the guidance for runners (\<^verbatim>\<open>httpapi/benchmark_runner_guidance.go\<close>) and
  the presets for clients (\<^verbatim>\<open>httpapi/client_presets.go\<close>). They put names that come from other machines and from requests into text that
  a reader of property lists or a shell will take apart again; the lemmas say what those readers see. The home directory, the operating
  system and the JSON encoder are parameters. Fixed advice to the operator that nothing depends on is left out of the plans.
\<close>

section \<open>Paths\<close>

text \<open>\<^verbatim>\<open>filepath.Clean\<close>, \<^verbatim>\<open>Join\<close> and \<^verbatim>\<open>Dir\<close> on Unix. The stack of \<open>clean_parts\<close> has the last part first.\<close>

fun clean_parts :: "bool \<Rightarrow> string list \<Rightarrow> string list \<Rightarrow> string list" where
  "clean_parts rooted [] stack = rev stack"
| "clean_parts rooted (part # parts) stack =
    (if part = [] \<or> part = ''.'' then clean_parts rooted parts stack
     else if part = ''..'' then
       (case stack of
          [] \<Rightarrow> clean_parts rooted parts (if rooted then [] else [''..''])
        | prev # below \<Rightarrow> clean_parts rooted parts (if prev = ''..'' then ''..'' # stack else below))
     else clean_parts rooted parts (part # stack))"

definition path_Clean :: "string \<Rightarrow> string" where
  "path_Clean path =
    (let rooted = HasPrefix path ''/''; out = Join ''/'' (clean_parts rooted (Split (CHR ''/'') path) []) in
     if rooted then ''/'' @ out else if out = [] then ''.'' else out)"

definition path_Join :: "string list \<Rightarrow> string" where
  "path_Join elems = (case dropWhile (\<lambda>e. e = []) elems of [] \<Rightarrow> [] | es \<Rightarrow> path_Clean (Join ''/'' es))"

definition path_Dir :: "string \<Rightarrow> string" where
  "path_Dir path = path_Clean (rev (dropWhile (\<lambda>c. c \<noteq> CHR ''/'') (rev path)))"

section \<open>The dry run\<close>

record Options =
  so_Target :: string
  so_BinaryPath :: string
  so_ConfigPath :: string
  so_Mode :: string
  so_EnableKeychain :: bool
  so_Environment :: "(string, string) gomap"
  so_Label :: string
  so_WorkingDir :: string
  so_LogDir :: string
  so_LaunchAgentsDir :: string
  so_KeepAlive :: bool
  so_RunAtLoad :: bool
  so_LimitLoadToUser :: string

record Plan =
  sp_Target :: string
  sp_Platform :: string
  sp_DryRun :: bool
  sp_Supported :: bool
  sp_Label :: string
  sp_WrapperPath :: string
  sp_ProgramArguments :: "string list"
  sp_Environment :: "(string, string) gomap"
  sp_LaunchdPlist :: string
  sp_ValidationCommands :: "string list"
  sp_KeychainCheckCommands :: "string list"
  sp_Warnings :: "string list"
  sp_Notes :: "string list"

text \<open>What the program asks the operating system: the home directory, if there is one, and its name.\<close>

record machine_env =
  me_home :: "string option"
  me_os :: string

definition userHomeDir :: "machine_env \<Rightarrow> string" where
  "userHomeDir m = (case me_home m of Some home \<Rightarrow> if TrimSpace home \<noteq> [] then home else ''~'' | None \<Rightarrow> ''~'')"

definition expandUserPath :: "machine_env \<Rightarrow> string \<Rightarrow> string" where
  "expandUserPath m path =
    (if path = ''~'' then userHomeDir m
     else if HasPrefix path ''~/'' then path_Join [userHomeDir m, TrimPrefix path ''~/''] else path)"

definition normalizeOptions :: "machine_env \<Rightarrow> Options \<Rightarrow> Options" where
  "normalizeOptions m opts =
    opts\<lparr> so_Target := orElse (ToLower (TrimSpace (so_Target opts))) ''launchd'', so_Mode := orElse (so_Mode opts) ''start'',
      so_Label := orElse (so_Label opts) ''com.llama-wrangler.marshal'',
      so_LogDir := (if so_LogDir opts = [] then path_Join [userHomeDir m, ''Library'', ''Logs'', ''Llama Wrangler''] else expandUserPath m (so_LogDir opts)),
      so_LaunchAgentsDir := (if so_LaunchAgentsDir opts = [] then path_Join [userHomeDir m, ''Library'', ''LaunchAgents'']
        else expandUserPath m (so_LaunchAgentsDir opts)),
      so_WorkingDir := (if so_WorkingDir opts = [] \<and> so_BinaryPath opts \<noteq> [] then path_Dir (so_BinaryPath opts) else so_WorkingDir opts) \<rparr>"

definition label_char :: "char \<Rightarrow> bool" where
  "label_char c \<longleftrightarrow> (let n = (of_char c :: nat) in (97 \<le> n \<and> n \<le> 122) \<or> (65 \<le> n \<and> n \<le> 90) \<or> (48 \<le> n \<and> n \<le> 57)) \<or>
     c \<in> {CHR ''.'', CHR ''-'', CHR ''_''}"

definition validLaunchdLabel :: "string \<Rightarrow> bool" where
  "validLaunchdLabel label \<longleftrightarrow> \<not> (label = [] \<or> 128 < length label \<or> Contains label ''..'') \<and> list_all label_char label"

definition ReplaceChar :: "char \<Rightarrow> string \<Rightarrow> string \<Rightarrow> string" where
  "ReplaceChar c r s = concat (map (\<lambda>x. if x = c then r else [x]) s)"

definition escapePlist :: "string \<Rightarrow> string" where
  "escapePlist v = ReplaceChar (CHR 0x27) ''&apos;'' (ReplaceChar (CHR 0x22) ''&quot;'' (ReplaceChar (CHR ''>'') ''&gt;''
     (ReplaceChar (CHR ''<'') ''&lt;'' (ReplaceChar (CHR ''&'') ''&amp;'' v))))"

definition indent :: "nat \<Rightarrow> string" where
  "indent tabs = replicate tabs (CHR 0x09)"

definition writeString :: "string \<Rightarrow> nat \<Rightarrow> string" where
  "writeString v tabs = indent tabs @ ''<string>'' @ escapePlist v @ ''</string>'' @ [CHR 0x0A]"

definition writeKey :: "string \<Rightarrow> nat \<Rightarrow> string" where
  "writeKey key tabs = indent tabs @ ''<key>'' @ escapePlist key @ ''</key>'' @ [CHR 0x0A]"

definition writeKeyString :: "string \<Rightarrow> string \<Rightarrow> nat \<Rightarrow> string" where
  "writeKeyString key v tabs = writeKey key tabs @ writeString v tabs"

definition writeKeyBool :: "string \<Rightarrow> bool \<Rightarrow> nat \<Rightarrow> string" where
  "writeKeyBool key v tabs = writeKey key tabs @ indent tabs @ (if v then ''<true/>'' else ''<false/>'') @ [CHR 0x0A]"

text \<open>The insertion sort of the source, on keys that are pairwise distinct, as the keys of a map are.\<close>

definition sortedEnvKeys :: "(string, string) gomap \<Rightarrow> string list" where
  "sortedEnvKeys env = sort (map fst env)"

definition env_value :: "(string, string) gomap \<Rightarrow> string \<Rightarrow> string" where
  "env_value env key = (case goget env key of Some v \<Rightarrow> v | None \<Rightarrow> [])"

definition plist_head :: string where
  "plist_head = ''<?xml version=\"1.0\" encoding=\"UTF-8\"?>'' @ [CHR 0x0A] @
     ''<!DOCTYPE plist PUBLIC \"-//Apple//DTD PLIST 1.0//EN\" \"http://www.apple.com/DTDs/PropertyList-1.0.dtd\">'' @ [CHR 0x0A] @
     ''<plist version=\"1.0\">'' @ [CHR 0x0A] @ ''<dict>'' @ [CHR 0x0A]"

definition renderLaunchdPlist :: "Options \<Rightarrow> string list \<Rightarrow> (string, string) gomap \<Rightarrow> string" where
  "renderLaunchdPlist opts args env =
    plist_head @ writeKeyString ''Label'' (so_Label opts) 1 @ [CHR 0x09] @ ''<key>ProgramArguments</key>'' @ [CHR 0x0A, CHR 0x09] @ ''<array>'' @ [CHR 0x0A] @
    concat (map (\<lambda>arg. writeString arg 2) args) @ [CHR 0x09] @ ''</array>'' @ [CHR 0x0A] @
    (if so_WorkingDir opts \<noteq> [] then writeKeyString ''WorkingDirectory'' (so_WorkingDir opts) 1 else []) @
    [CHR 0x09] @ ''<key>EnvironmentVariables</key>'' @ [CHR 0x0A, CHR 0x09] @ ''<dict>'' @ [CHR 0x0A] @
    concat (map (\<lambda>key. writeKeyString key (env_value env key) 2) (sortedEnvKeys env)) @ [CHR 0x09] @ ''</dict>'' @ [CHR 0x0A] @
    writeKeyBool ''RunAtLoad'' (so_RunAtLoad opts) 1 @ writeKeyBool ''KeepAlive'' (so_KeepAlive opts) 1 @
    writeKeyString ''StandardOutPath'' (path_Join [so_LogDir opts, ''launchd.out.log'']) 1 @
    writeKeyString ''StandardErrorPath'' (path_Join [so_LogDir opts, ''launchd.err.log'']) 1 @ ''</dict>'' @ [CHR 0x0A] @ ''</plist>'' @ [CHR 0x0A]"

definition plan_env :: "Options \<Rightarrow> (string, string) gomap" where
  "plan_env opts =
    (let env = fold (\<lambda>(key, v) env. if TrimSpace key = [] then env else goput (TrimSpace key) v env) (so_Environment opts)
           [(''LLAMA_WRANGLER_SECRET_BACKEND'', ''encrypted_file''), (''LLAMA_WRANGLER_SERVICE_MODE'', ''1'')];
         env = goput ''LLAMA_WRANGLER_SERVICE_MODE'' ''1'' env in
     if so_EnableKeychain opts then goput ''LLAMA_WRANGLER_SECRET_BACKEND'' ''os_keychain'' env else env)"

definition plan_args :: "Options \<Rightarrow> string list" where
  "plan_args opts = [so_BinaryPath opts, so_Mode opts] @ (if so_ConfigPath opts \<noteq> [] then [''--config'', so_ConfigPath opts] else [])"

datatype plan_error = NoBinary | ConfigNeedsMode | InvalidLabel string | UnsupportedTarget string

definition launchdPlan :: "machine_env \<Rightarrow> Options \<Rightarrow> plan_error + Plan" where
  "launchdPlan m opts =
    (if TrimSpace (so_BinaryPath opts) = [] then Inl NoBinary
     else if so_ConfigPath opts \<noteq> [] \<and> so_Mode opts = ''start'' then Inl ConfigNeedsMode
     else if \<not> validLaunchdLabel (so_Label opts) then Inl (InvalidLabel (so_Label opts))
     else
       let args = plan_args opts; env = plan_env opts; plistPath = path_Join [so_LaunchAgentsDir opts, so_Label opts @ ''.plist''] in
       Inr \<lparr> sp_Target = ''launchd'', sp_Platform = me_os m, sp_DryRun = True, sp_Supported = (me_os m = ''darwin''), sp_Label = so_Label opts,
         sp_WrapperPath = plistPath, sp_ProgramArguments = args, sp_Environment = env, sp_LaunchdPlist = renderLaunchdPlist opts args env,
         sp_ValidationCommands = [''plutil -lint '' @ plistPath, ''launchctl bootstrap gui/$(id -u) '' @ plistPath,
           ''launchctl print gui/$(id -u)/'' @ so_Label opts, ''launchctl bootout gui/$(id -u)/'' @ so_Label opts],
         sp_KeychainCheckCommands = [''LLAMA_WRANGLER_RUN_KEYCHAIN_TESTS=1 go test -v ./internal/secrets -run TestOSKeychainBackendPlatformOptIn'',
           ''LLAMA_WRANGLER_SECRET_BACKEND=os_keychain LLAMA_WRANGLER_SERVICE_MODE=1 '' @ so_BinaryPath opts @ '' start'',
           ''curl -sS http://localhost:11435/wrangler/ui/bootstrap | jq '' @ [CHR 0x27] @ ''.secret_storage'' @ [CHR 0x27]],
         sp_Warnings = [''Dry run only: this command does not write a plist, load launchd, start a service, or modify keychain items.'',
           ''launchd may run with a different environment and keychain session than an interactive shell; verify before relying on OS keychain storage.'',
           ''Encrypted fallback remains required and available even when OS keychain is enabled.''] @
           (if me_os m \<noteq> ''darwin'' then [''launchd dry-run output is intended for macOS; current runtime is '' @ me_os m @ ''.''] else []),
         sp_Notes = [''Review the plist before writing it to disk.'',
           ''Use a dedicated local test user or disposable app-data directory for service-wrapper keychain experiments when practical.'',
           ''Expected metadata in service-like runs includes os_keychain_runtime=service_like and os_keychain_service_mode=true.''] \<rparr>)"

definition NewDryRunPlan :: "machine_env \<Rightarrow> Options \<Rightarrow> plan_error + Plan" where
  "NewDryRunPlan m opts0 =
    (let opts = normalizeOptions m opts0 in
     if so_Target opts = ''launchd'' then launchdPlan m opts else Inl (UnsupportedTarget (so_Target opts)))"

section \<open>The plan for a subscriber\<close>

definition shellSingleQuote :: "string \<Rightarrow> string" where
  "shellSingleQuote v =
    (if v = [] then [CHR 0x27, CHR 0x27] else [CHR 0x27] @ ReplaceChar (CHR 0x27) [CHR 0x27, CHR 0x22, CHR 0x27, CHR 0x22, CHR 0x27] v @ [CHR 0x27])"

definition shellDoubleQuote :: "string \<Rightarrow> string" where
  "shellDoubleQuote v =
    (if v = [] then [CHR 0x22, CHR 0x22]
     else [CHR 0x22] @ ReplaceChar (CHR 0x22) [CHR 0x5C, CHR 0x22] (ReplaceChar (CHR 0x5C) [CHR 0x5C, CHR 0x5C] v) @ [CHR 0x22])"

definition suffix_char :: "char \<Rightarrow> bool" where
  "suffix_char c \<longleftrightarrow> (let n = (of_char c :: nat) in (97 \<le> n \<and> n \<le> 122) \<or> (48 \<le> n \<and> n \<le> 57)) \<or> c = CHR ''.''"

text \<open>Every run of other characters becomes one dash. The flag says that the last character written is such a dash.\<close>

fun dashed :: "bool \<Rightarrow> string \<Rightarrow> string" where
  "dashed lastDash [] = []"
| "dashed lastDash (r # s) =
    (if suffix_char r then r # dashed False s else if \<not> lastDash then CHR ''-'' # dashed True s else dashed lastDash s)"

definition launchdSafeLabelSuffix :: "string \<Rightarrow> string" where
  "launchdSafeLabelSuffix v0 =
    (let v = ToLower (TrimSpace v0) in
     if v = [] then ''node'' else orElse (trim_by (\<lambda>c. c = CHR ''-'' \<or> c = CHR ''.'') (dashed False v)) ''node'')"

definition subscriberHeartbeatCredentialEnv :: string where
  "subscriberHeartbeatCredentialEnv = ''LLAMA_WRANGLER_SUBSCRIBER_HEARTBEAT_CREDENTIAL''"

definition subscriberCredentialPlaceholder :: string where
  "subscriberCredentialPlaceholder = ''<credential-from-rotation-response>''"

definition marshalURLPlaceholder :: string where
  "marshalURLPlaceholder = ''<marshal-url>''"

record subscriberServiceWrapperInstallPlan =
  sw_Label :: string
  sw_PlistPath :: string
  sw_Environment :: "(string, string) gomap"
  sw_LaunchdPlistTemplate :: string
  sw_InstallCommands :: "string list"
  sw_ValidationCommands :: "string list"
  sw_UninstallCommands :: "string list"

record subscriberCredentialInstallPlan =
  si_NodeID :: string
  si_CredentialHint :: string
  si_ConfigSnippet :: string
  si_ShellExportCommand :: string
  si_EnvFileTemplate :: string
  si_LaunchdDryRunCommand :: string
  si_HeartbeatCheckCommand :: string
  si_ServiceWrapper :: subscriberServiceWrapperInstallPlan

definition install_options :: "string \<Rightarrow> Options" where
  "install_options label = \<lparr> so_Target = ''launchd'', so_BinaryPath = ''./llama-wrangler'', so_ConfigPath = ''./subscriber.yaml'', so_Mode = ''subscriber'',
     so_EnableKeychain = False, so_Environment = [(subscriberHeartbeatCredentialEnv, subscriberCredentialPlaceholder)], so_Label = label,
     so_WorkingDir = [], so_LogDir = ''~/Library/Logs/Llama Wrangler'', so_LaunchAgentsDir = [], so_KeepAlive = False, so_RunAtLoad = False,
     so_LimitLoadToUser = [] \<rparr>"

definition heartbeat_command :: "string \<Rightarrow> string" where
  "heartbeat_command body =
    ''curl -fsS -X POST '' @ shellSingleQuote (marshalURLPlaceholder @ ''/subscriber/heartbeat'') @ '' -H '' @
    shellSingleQuote ''Content-Type: application/json'' @ '' -H '' @
    shellSingleQuote (''X-Llama-Wrangler-Subscriber-Token: '' @ subscriberCredentialPlaceholder) @ '' -d '' @ shellSingleQuote body"

text \<open>The encoder gets the two fields of the body. An error of the dry run is dropped and leaves an empty template.\<close>

definition buildSubscriberCredentialInstallPlan :: "((string \<times> string) list \<Rightarrow> string) \<Rightarrow> machine_env \<Rightarrow> Node \<Rightarrow> string \<Rightarrow> subscriberCredentialInstallPlan" where
  "buildSubscriberCredentialInstallPlan js m node credentialHint =
    (let nodeID = orElse (TrimSpace (n_NodeID node)) ''<node-id>''; label = ''com.llama-wrangler.subscriber.'' @ launchdSafeLabelSuffix nodeID;
         launchAgentsDir = ''$HOME/Library/LaunchAgents''; logDirCommandPath = ''$HOME/Library/Logs/Llama Wrangler'';
         plistCommandPath = ''$HOME/Library/LaunchAgents/'' @ label @ ''.plist'';
         env = [(subscriberHeartbeatCredentialEnv, subscriberCredentialPlaceholder)];
         dryRun = NewDryRunPlan m (install_options label);
         check = heartbeat_command (js [(''node_id'', nodeID), (''status'', ''healthy'')]) in
     \<lparr> si_NodeID = nodeID, si_CredentialHint = credentialHint,
       si_ConfigSnippet = ''registration:'' @ [CHR 0x0A] @ ''  marshal_url: '' @ [CHR 0x22] @ marshalURLPlaceholder @ [CHR 0x22, CHR 0x0A] @
         ''  heartbeat_credential_env: '' @ subscriberHeartbeatCredentialEnv,
       si_ShellExportCommand = ''export '' @ subscriberHeartbeatCredentialEnv @ ''='' @ shellSingleQuote subscriberCredentialPlaceholder,
       si_EnvFileTemplate = subscriberHeartbeatCredentialEnv @ ''='' @ shellSingleQuote subscriberCredentialPlaceholder,
       si_LaunchdDryRunCommand = Join '' '' [''llama-wrangler service-dry-run'', ''--target launchd'', ''--mode subscriber'',
         ''--config '' @ shellSingleQuote ''./subscriber.yaml'', ''--label '' @ shellSingleQuote label,
         ''--env '' @ shellSingleQuote (subscriberHeartbeatCredentialEnv @ ''='' @ subscriberCredentialPlaceholder)],
       si_HeartbeatCheckCommand = check,
       si_ServiceWrapper = \<lparr> sw_Label = label, sw_PlistPath = ''~/Library/LaunchAgents/'' @ label @ ''.plist'', sw_Environment = env,
         sw_LaunchdPlistTemplate = (case dryRun of Inr plan \<Rightarrow> sp_LaunchdPlist plan | Inl _ \<Rightarrow> []),
         sw_InstallCommands = [''install -d '' @ shellDoubleQuote launchAgentsDir @ '' '' @ shellDoubleQuote logDirCommandPath,
           ''# Write service_wrapper.launchd_plist_template to '' @ plistCommandPath, ''plutil -lint '' @ shellDoubleQuote plistCommandPath,
           ''launchctl bootstrap gui/$(id -u) '' @ shellDoubleQuote plistCommandPath, ''launchctl kickstart -k gui/$(id -u)/'' @ shellSingleQuote label],
         sw_ValidationCommands = [''launchctl print gui/$(id -u)/'' @ shellSingleQuote label, check],
         sw_UninstallCommands = [''launchctl bootout gui/$(id -u)/'' @ shellSingleQuote label,
           ''# Remove '' @ plistCommandPath @ '' after confirming the service is stopped.''] \<rparr> \<rparr>)"

section \<open>The command line\<close>

text \<open>The flags of the dry run that set variables of the environment, and its options once the flags are parsed; \<open>exe\<close> is the path of the running program.\<close>

definition env_Set :: "string \<Rightarrow> string list \<Rightarrow> string option \<times> string list" where
  "env_Set v f = (if \<not> Contains v ''='' then (Some ''environment value must use KEY=VALUE'', f) else (None, f @ [v]))"

definition env_Values :: "string list \<Rightarrow> (string, string) gomap" where
  "env_Values f =
    fold (\<lambda>item values. if CHR ''='' \<notin> set item then values
      else let (key0, v) = Cut (CHR ''='') item; key = TrimSpace key0 in if key = [] then values else goput key v values) f []"

definition runServiceDryRun :: "machine_env \<Rightarrow> string option \<Rightarrow> string list \<Rightarrow> Options \<Rightarrow> plan_error + Plan" where
  "runServiceDryRun m exe env flags =
    NewDryRunPlan m (flags\<lparr> so_BinaryPath := (if so_BinaryPath flags = [] then (case exe of Some current \<Rightarrow> current | None \<Rightarrow> []) else so_BinaryPath flags),
      so_Environment := env_Values env, so_LimitLoadToUser := [] \<rparr>)"

text \<open>The configuration of a server that is started in a mode: the mode of the command line stands, whatever a file says. \<open>loaded\<close> is the outcome of
  loading the file, if one is named.\<close>

definition runMode :: "string \<Rightarrow> (string + Config) option \<Rightarrow> string + Config" where
  "runMode mode loaded =
    (case (case loaded of None \<Rightarrow> Inr (Default mode) | Some r \<Rightarrow> r) of
       Inl err \<Rightarrow> Inl err
     | Inr cfg \<Rightarrow> Inr (cfg\<lparr> c_Server := (c_Server cfg)\<lparr> sv_Mode := mode \<rparr>, c_Version := orElse (c_Version cfg) ''0.1.0'' \<rparr>))"

definition serviceLikeRuntime :: "string \<Rightarrow> bool" where
  "serviceLikeRuntime v0 = (let v = TrimSpace v0 in v = ''1'' \<or> EqualFold v ''true'')"

definition displayPort :: "string \<Rightarrow> string" where
  "displayPort listen = (if CHR '':'' \<in> set listen then CHR '':'' # rev (takeWhile (\<lambda>c. c \<noteq> CHR '':'') (rev listen)) else '':11435'')"

lemma runMode_mode: "runMode mode loaded = Inr cfg \<Longrightarrow> sv_Mode (c_Server cfg) = mode \<and> c_Version cfg \<noteq> []"
  by (auto simp: runMode_def orElse_def split: sum.splits option.splits if_splits)

lemma displayPort_port: "CHR '':'' \<notin> set port \<Longrightarrow> displayPort (host @ CHR '':'' # port) = CHR '':'' # port"
proof -
  assume "CHR '':'' \<notin> set port"
  then have "takeWhile (\<lambda>c. c \<noteq> CHR '':'') (rev port @ CHR '':'' # rev host) = rev port @ takeWhile (\<lambda>c. c \<noteq> CHR '':'') (CHR '':'' # rev host)"
    by (intro takeWhile_append2) auto
  then show ?thesis by (simp add: displayPort_def)
qed

section \<open>Guidance for runners\<close>

text \<open>The address a request was made to: \<open>tls\<close> says whether the connection was encrypted, \<open>host\<close> is what the client wrote into its \<^verbatim>\<open>Host\<close> header.\<close>

definition requestBaseURL :: "bool \<Rightarrow> string \<Rightarrow> (string \<Rightarrow> string) \<Rightarrow> string" where
  "requestBaseURL tls host0 header =
    (let forwarded = ToLower (TrimSpace (header ''X-Forwarded-Proto''));
         scheme = (if forwarded = ''http'' \<or> forwarded = ''https'' then forwarded else if tls then ''https'' else ''http'');
         host = orElse (TrimSpace host0) ''localhost:11435'' in
     scheme @ ''://'' @ host)"

definition benchmarkRunnerSupportedSuiteIDs :: "string list" where
  "benchmarkRunnerSupportedSuiteIDs = map ws_ID benchmarkWorkloadSuites"

definition benchmarkRunnerCurl :: "string \<Rightarrow> string \<Rightarrow> string" where
  "benchmarkRunnerCurl url body =
    Join '' '' [''curl -fsS -X POST '' @ shellSingleQuote url, ''-H '' @ shellSingleQuote ''Content-Type: application/json'',
      ''-H '' @ shellSingleQuote (''X-Llama-Wrangler-Subscriber-Token: '' @ ''<subscriber-heartbeat-credential>''), ''-d '' @ shellSingleQuote body]"

record BenchmarkRunnerCommands =
  bc_ClaimJob :: string
  bc_ReportStatus :: string
  bc_ReportResult :: string

record BenchmarkRunnerGuidance =
  bg_Status :: string
  bg_SupportedSuiteIDs :: "string list"
  bg_Environment :: "(string, string) gomap"
  bg_ConfigSnippet :: string
  bg_RunnerConfig :: BenchmarkRunnerConfig
  bg_MetricFields :: "string list"
  bg_Commands :: BenchmarkRunnerCommands

definition runner_bodies :: "gobj list" where
  "runner_bodies =
    [[(''node_id'', GStr ''<node-id>'')],
     [(''node_id'', GStr ''<node-id>''), (''benchmark_id'', GStr ''<benchmark-id-from-claim>''), (''status'', GStr ''running'')],
     [(''node_id'', GStr ''<node-id>''), (''benchmark_id'', GStr ''<benchmark-id-from-claim>''), (''model'', GStr ''<model-from-local-runner>''),
      (''status'', GStr ''completed''), (''duration_ms'', GInt 0), (''input_tokens'', GInt 0), (''generated_tokens'', GInt 0), (''tokens_per_second'', GInt 0),
      (''suite_id'', GStr ''<suite-id-from-claim>''), (''task_count'', GInt 0)]]"

definition runner_commands :: "(gobj \<Rightarrow> string) \<Rightarrow> string \<Rightarrow> BenchmarkRunnerCommands" where
  "runner_commands js base = \<lparr> bc_ClaimJob = benchmarkRunnerCurl (base @ ''/subscriber/benchmarks/claim'') (js (runner_bodies ! 0)),
     bc_ReportStatus = benchmarkRunnerCurl (base @ ''/subscriber/benchmarks/status'') (js (runner_bodies ! 1)),
     bc_ReportResult = benchmarkRunnerCurl (base @ ''/subscriber/benchmarks'') (js (runner_bodies ! 2)) \<rparr>"

definition guidance_status :: "BenchmarkRunnerConfig \<Rightarrow> string" where
  "guidance_status rc =
    (if br_Enabled rc then (if br_Mode rc = ModeSyntheticBuiltin then ''enabled_synthetic_builtin'' else ''enabled_dry_run'') else ''disabled_by_default'')"

definition FormatBool :: "bool \<Rightarrow> string" where
  "FormatBool b = (if b then ''true'' else ''false'')"

definition guidance_base :: "string \<Rightarrow> string" where
  "guidance_base baseURL = orElse (TrimRight (CHR ''/'') (TrimSpace baseURL)) marshalURLPlaceholder"

definition config_snippet :: "BenchmarkRunnerConfig \<Rightarrow> string" where
  "config_snippet rc = Join [CHR 0x0A]
     [''registration:'', ''  marshal_url: '' @ [CHR 0x22] @ marshalURLPlaceholder @ [CHR 0x22], ''  heartbeat_credential_env: '' @ subscriberHeartbeatCredentialEnv,
      ''benchmark_runner:'', ''  enabled: '' @ FormatBool (br_Enabled rc), ''  mode: '' @ br_Mode rc,
      ''  poll_interval_seconds: '' @ Itoa (nat (br_PollIntervalSeconds rc)), ''  max_jobs_per_tick: '' @ Itoa (nat (br_MaxJobsPerTick rc)),
      ''  fixture_manifest_dir_env: '' @ ''LLAMA_WRANGLER_BENCHMARK_FIXTURE_MANIFEST_DIR'', ''  result_body_policy: '' @ ResultPolicyMetricsOnly]"

definition buildBenchmarkRunnerGuidance :: "(gobj \<Rightarrow> string) \<Rightarrow> string \<Rightarrow> BenchmarkRunnerConfig \<Rightarrow> BenchmarkRunnerGuidance" where
  "buildBenchmarkRunnerGuidance js baseURL runnerConfig =
    (let rc = NormalizeBenchmarkRunnerConfig runnerConfig in
     \<lparr> bg_Status = guidance_status rc, bg_SupportedSuiteIDs = benchmarkRunnerSupportedSuiteIDs,
       bg_Environment = [(subscriberHeartbeatCredentialEnv, ''<subscriber-heartbeat-credential>''),
         (''LLAMA_WRANGLER_BENCHMARK_RUNNER_ENABLED'', FormatBool (br_Enabled rc)), (''LLAMA_WRANGLER_BENCHMARK_FIXTURE_MANIFEST_DIR'', ''./benchmark-fixtures'')],
       bg_ConfigSnippet = config_snippet rc, bg_RunnerConfig = rc,
       bg_MetricFields = [''benchmark_id'', ''model'', ''status'', ''duration_ms'', ''input_tokens'', ''generated_tokens'', ''tokens_per_second'',
         ''output_tokens_per_second'', ''prefill_tokens_per_second'', ''suite_id'', ''task_count'', ''fixture_manifest_id'', ''error_code''],
       bg_Commands = runner_commands js (guidance_base baseURL) \<rparr>)"

section \<open>Presets for clients\<close>

record clientPreset =
  cl_ID :: string
  cl_Name :: string
  cl_Client :: string
  cl_Protocol :: string
  cl_BaseURL :: string
  cl_Model :: string
  cl_APIKeyPlaceholder :: string
  cl_Fields :: "(string \<times> string) list"
  cl_Snippet :: "string \<times> string \<times> string"

text \<open>The first alias is the first one that \<^verbatim>\<open>range\<close> visits.\<close>

definition alias_map :: "Config \<Rightarrow> (string, ModelAlias) gomap" where
  "alias_map cfg = (case c_ModelAliases cfg of Some m \<Rightarrow> m | None \<Rightarrow> [])"

definition firstConfiguredModelAlias :: "Config \<Rightarrow> string" where
  "firstConfiguredModelAlias cfg =
    (if r_DefaultModelAlias (c_Routing cfg) \<noteq> [] then r_DefaultModelAlias (c_Routing cfg)
     else case find (\<lambda>a. a \<noteq> []) (map fst (alias_map cfg)) of Some a \<Rightarrow> a | None \<Rightarrow> ''local-fast'')"

definition preferredModelAlias :: "Config \<Rightarrow> string \<Rightarrow> string \<Rightarrow> string" where
  "preferredModelAlias cfg preferred fallback =
    (if goget (alias_map cfg) preferred \<noteq> None then preferred else if fallback \<noteq> [] then fallback else firstConfiguredModelAlias cfg)"

definition clientAPIKeyPlaceholder :: string where
  "clientAPIKeyPlaceholder = ''<client-api-key>''"

definition openAIFields :: "string \<Rightarrow> string \<Rightarrow> (string \<times> string) list" where
  "openAIFields baseURL model = [(''Base URL'', baseURL), (''Model'', model), (''API key'', clientAPIKeyPlaceholder)]"

definition openai_preset :: "string \<Rightarrow> string \<Rightarrow> string \<Rightarrow> string \<Rightarrow> string \<Rightarrow> string \<times> string \<times> string \<Rightarrow> clientPreset" where
  "openai_preset i name client url model snippet =
    \<lparr> cl_ID = i, cl_Name = name, cl_Client = client, cl_Protocol = ''OpenAI-compatible'', cl_BaseURL = url, cl_Model = model,
      cl_APIKeyPlaceholder = clientAPIKeyPlaceholder, cl_Fields = openAIFields url model, cl_Snippet = snippet \<rparr>"

definition javascript_snippet :: "string \<Rightarrow> string \<Rightarrow> string" where
  "javascript_snippet url model =
    ''import OpenAI from \"openai\";'' @ [CHR 0x0A, CHR 0x0A] @ ''const client = new OpenAI({'' @ [CHR 0x0A] @
    ''  apiKey: process.env.LLAMA_WRANGLER_API_KEY || \"'' @ clientAPIKeyPlaceholder @ ''\",'' @ [CHR 0x0A] @ ''  baseURL: \"'' @ url @ ''\",'' @ [CHR 0x0A] @ ''});'' @
    [CHR 0x0A, CHR 0x0A] @ ''const response = await client.chat.completions.create({'' @ [CHR 0x0A] @ ''  model: \"'' @ model @ ''\",'' @ [CHR 0x0A] @
    ''  messages: [{ role: \"user\", content: \"Hello from Llama Wrangler\" }],'' @ [CHR 0x0A] @ ''});''"

text \<open>\<open>pretty\<close> is the encoder with indentation.\<close>

definition buildClientPresets :: "(gval \<Rightarrow> string) \<Rightarrow> string \<Rightarrow> 'r server \<Rightarrow> clientPreset list" where
  "buildClientPresets pretty baseURL s =
    (let cfg = stored_config s; url = TrimRight (CHR ''/'') baseURL @ ''/v1''; defaultModel = firstConfiguredModelAlias cfg;
         codeModel = preferredModelAlias cfg ''local-code'' defaultModel; fastModel = preferredModelAlias cfg ''local-fast'' defaultModel in
     [openai_preset ''cline'' ''Cline'' ''Cline'' url codeModel (''OpenAI-compatible provider'', ''json'',
        pretty (GMap [(''provider'', GStr ''openai-compatible''), (''baseUrl'', GStr url), (''apiKey'', GStr clientAPIKeyPlaceholder), (''model'', GStr codeModel)])),
      openai_preset ''continue'' ''Continue'' ''Continue'' url codeModel (''.continue/config.json model'', ''json'',
        pretty (GMap [(''models'', GMaps [[(''title'', GStr (''Llama Wrangler '' @ codeModel)), (''provider'', GStr ''openai''), (''model'', GStr codeModel),
          (''apiBase'', GStr url), (''apiKey'', GStr clientAPIKeyPlaceholder)]])])),
      openai_preset ''open-webui'' ''Open WebUI'' ''Open WebUI'' url fastModel (''OpenAI connection'', ''text'',
        ''OpenAI API Base URL: '' @ url @ [CHR 0x0A] @ ''API Key: '' @ clientAPIKeyPlaceholder @ [CHR 0x0A] @ ''Model: '' @ fastModel),
      openai_preset ''openai-sdk'' ''OpenAI SDK'' ''Generic OpenAI SDK'' url fastModel (''JavaScript'', ''javascript'', javascript_snippet url fastModel)])"

section \<open>What a reader of the property list sees\<close>

text \<open>The reference reader: values are the texts between the tags of a key or a string, with the five entities of XML decoded; every other tag is a
  mark of the structure; text outside of values is skipped.\<close>

definition entities :: "(char \<times> string) list" where
  "entities = [(CHR ''&'', ''&amp;''), (CHR ''<'', ''&lt;''), (CHR ''>'', ''&gt;''), (CHR 0x22, ''&quot;''), (CHR 0x27, ''&apos;'')]"

fun decode_entities :: "string \<Rightarrow> string" where
  "decode_entities [] = []"
| "decode_entities (c # s) =
    (if c = CHR ''&'' then
       (if HasPrefix s ''amp;'' then CHR ''&'' # decode_entities (drop 4 s)
        else if HasPrefix s ''lt;'' then CHR ''<'' # decode_entities (drop 3 s)
        else if HasPrefix s ''gt;'' then CHR ''>'' # decode_entities (drop 3 s)
        else if HasPrefix s ''quot;'' then CHR 0x22 # decode_entities (drop 5 s)
        else if HasPrefix s ''apos;'' then CHR 0x27 # decode_entities (drop 5 s)
        else c # decode_entities s)
     else c # decode_entities s)"

datatype element = Value string string | Mark string

function read_plist :: "string \<Rightarrow> element list" where
  "read_plist [] = []"
| "read_plist (c # s) =
    (if c \<noteq> CHR ''<'' then read_plist s
     else
       let tag = takeWhile (\<lambda>x. x \<noteq> CHR ''>'') s; rest = drop 1 (dropWhile (\<lambda>x. x \<noteq> CHR ''>'') s);
           raw = takeWhile (\<lambda>x. x \<noteq> CHR ''<'') rest; ending = dropWhile (\<lambda>x. x \<noteq> CHR ''<'') rest in
       if (tag = ''key'' \<or> tag = ''string'') \<and> HasPrefix ending (''</'' @ tag @ ''>'')
       then Value tag (decode_entities raw) # read_plist (drop (length tag + 3) ending)
       else Mark tag # read_plist rest)"
  by pat_completeness auto

termination
proof (relation "measure length")
  fix c :: char and s :: string and tag rest raw ending
  have le: "length (dropWhile p xs) \<le> length xs" for p and xs :: string by (rule length_dropWhile_le)
  assume d: "rest = drop 1 (dropWhile (\<lambda>x. x \<noteq> CHR ''>'') s)" "ending = dropWhile (\<lambda>x. x \<noteq> CHR ''<'') rest"
  show "(drop (length tag + 3) ending, c # s) \<in> measure length"
    using le [of "\<lambda>x. x \<noteq> CHR ''>''" s] le [of "\<lambda>x. x \<noteq> CHR ''<''" rest] by (simp add: d)
next
  fix c :: char and s :: string and tag rest
  assume d: "rest = drop 1 (dropWhile (\<lambda>x. x \<noteq> CHR ''>'') s)"
  show "(rest, c # s) \<in> measure length" using length_dropWhile_le [of "\<lambda>x. x \<noteq> CHR ''>''" s] by (simp add: d)
qed auto

definition escape_char :: "char \<Rightarrow> string" where
  "escape_char c = (case map_of entities c of Some e \<Rightarrow> e | None \<Rightarrow> [c])"

lemma ReplaceChar_concat: "ReplaceChar c r (concat (map f s)) = concat (map (\<lambda>x. ReplaceChar c r (f x)) s)"
  by (induction s) (simp_all add: ReplaceChar_def)

text \<open>The five replacements in a row are one replacement of characters.\<close>

lemma escapePlist_chars: "escapePlist v = concat (map escape_char v)"
proof -
  have one: "ReplaceChar c r v = concat (map (\<lambda>x. if x = c then r else [x]) v)" for c r v by (simp add: ReplaceChar_def)
  have "escapePlist v = concat (map (\<lambda>x. escapePlist [x]) v)"
    unfolding escapePlist_def one [of "CHR ''&''" _ v] ReplaceChar_concat by (simp add: ReplaceChar_def)
  moreover have "escapePlist [x] = escape_char x" for x
    by (simp add: escapePlist_def ReplaceChar_def escape_char_def entities_def)
  ultimately show ?thesis by simp
qed

lemma escape_char_cases:
  obtains "c = CHR ''&''" "escape_char c = ''&amp;''" | "c = CHR ''<''" "escape_char c = ''&lt;''" | "c = CHR ''>''" "escape_char c = ''&gt;''"
  | "c = CHR 0x22" "escape_char c = ''&quot;''" | "c = CHR 0x27" "escape_char c = ''&apos;''"
  | "c \<noteq> CHR ''&''" "c \<noteq> CHR ''<''" "c \<noteq> CHR ''>''" "escape_char c = [c]"
proof -
  note e = escape_char_def entities_def
  consider "c = CHR ''&''" | "c = CHR ''<''" | "c = CHR ''>''" | "c = CHR 0x22" | "c = CHR 0x27"
    | "c \<notin> {CHR ''&'', CHR ''<'', CHR ''>'', CHR 0x22, CHR 0x27}" by blast
  then show thesis
  proof cases
    case 1 then show thesis using that(1) by (simp add: e)
  next
    case 2 then show thesis using that(2) by (simp add: e)
  next
    case 3 then show thesis using that(3) by (simp add: e)
  next
    case 4 then show thesis using that(4) by (simp add: e)
  next
    case 5 then show thesis using that(5) by (simp add: e)
  next
    case 6 then show thesis using that(6) by (simp add: e)
  qed
qed

lemma no_tag_in_escaped: "CHR ''<'' \<notin> set (escapePlist v)"
proof -
  have "CHR ''<'' \<notin> set (escape_char c)" for c by (cases c rule: escape_char_cases) auto
  then show ?thesis by (auto simp: escapePlist_chars)
qed

lemma decode_escape_char: "decode_entities (escape_char c @ s) = c # decode_entities s"
  by (cases c rule: escape_char_cases) (simp_all add: HasPrefix_def)

lemma decode_escaped: "decode_entities (escapePlist v) = v"
  unfolding escapePlist_chars by (induction v) (simp_all add: decode_escape_char)

lemma read_skip: "c \<noteq> CHR ''<'' \<Longrightarrow> read_plist (c # s) = read_plist s"
  by simp

lemma read_mark:
  "list_all (\<lambda>x. x \<noteq> CHR ''>'') tag \<Longrightarrow> tag \<noteq> ''key'' \<Longrightarrow> tag \<noteq> ''string'' \<Longrightarrow> read_plist (CHR ''<'' # tag @ CHR ''>'' # s) = Mark tag # read_plist s"
proof -
  assume t: "list_all (\<lambda>x. x \<noteq> CHR ''>'') tag" "tag \<noteq> ''key''" "tag \<noteq> ''string''"
  have tag: "takeWhile (\<lambda>x. x \<noteq> CHR ''>'') (tag @ CHR ''>'' # s) = tag" "dropWhile (\<lambda>x. x \<noteq> CHR ''>'') (tag @ CHR ''>'' # s) = CHR ''>'' # s"
    using t(1) by (simp_all add: list_all_iff takeWhile_append2 dropWhile_append2)
  show ?thesis unfolding read_plist.simps(2) Let_def tag using t(2,3) by simp
qed

lemma read_value:
  assumes "tag = ''key'' \<or> tag = ''string''"
  shows "read_plist (CHR ''<'' # tag @ CHR ''>'' # escapePlist v @ ''</'' @ tag @ CHR ''>'' # s) = Value tag v # read_plist s"
proof -
  let ?ending = "''</'' @ tag @ CHR ''>'' # s"
  have tag: "takeWhile (\<lambda>x. x \<noteq> CHR ''>'') (tag @ CHR ''>'' # r) = tag" "dropWhile (\<lambda>x. x \<noteq> CHR ''>'') (tag @ CHR ''>'' # r) = CHR ''>'' # r" for r
    using assms by auto
  have raw: "takeWhile (\<lambda>x. x \<noteq> CHR ''<'') (escapePlist v @ ?ending) = escapePlist v" "dropWhile (\<lambda>x. x \<noteq> CHR ''<'') (escapePlist v @ ?ending) = ?ending"
    using no_tag_in_escaped [of v] by (subst takeWhile_append2 dropWhile_append2; auto)+
  have prefix: "HasPrefix ?ending (''</'' @ tag @ ''>'')" by (simp add: HasPrefix_def)
  have "drop 1 (CHR ''>'' # escapePlist v @ ?ending) = escapePlist v @ ?ending" "drop (length tag + 3) ?ending = s" using assms by auto
  then show ?thesis unfolding read_plist.simps(2) Let_def tag raw using assms prefix raw decode_escaped [of v] by (simp only: tag raw if_True simp_thms if_False)
qed

lemma read_indent [simp]: "read_plist (indent n @ s) = read_plist s"
  unfolding indent_def by (induction n) (simp_all add: read_skip del: read_plist.simps)

lemma read_newline [simp]: "read_plist (CHR 0x0A # s) = read_plist s" "read_plist (CHR 0x09 # s) = read_plist s"
  by (rule read_skip; simp)+

lemma read_written [simp]:
  "read_plist (writeString v n @ s) = Value ''string'' v # read_plist s"
  "read_plist (writeKey k n @ s) = Value ''key'' k # read_plist s"
  using read_value [of "''string''" v "CHR 0x0A # s"] read_value [of "''key''" k "CHR 0x0A # s"]
  by (simp_all add: writeString_def writeKey_def del: read_plist.simps)

lemma read_writeKeyString [simp]: "read_plist (writeKeyString k v n @ s) = Value ''key'' k # Value ''string'' v # read_plist s"
  by (simp add: writeKeyString_def del: read_plist.simps)

lemma read_writeKeyBool [simp]:
  "read_plist (writeKeyBool k b n @ s) = Value ''key'' k # Mark (if b then ''true/'' else ''false/'') # read_plist s"
  using read_mark [of "''true/''" "CHR 0x0A # s"] read_mark [of "''false/''" "CHR 0x0A # s"]
  by (simp add: writeKeyBool_def del: read_plist.simps)

lemma read_array: "read_plist (concat (map (\<lambda>arg. writeString arg n) args) @ s) = map (Value ''string'') args @ read_plist s"
  by (induction args) (simp_all del: read_plist.simps)

lemma read_dict:
  "read_plist (concat (map (\<lambda>key. writeKeyString key (f key) n) keys) @ s) = concat (map (\<lambda>key. [Value ''key'' key, Value ''string'' (f key)]) keys) @ read_plist s"
  by (induction keys) (simp_all del: read_plist.simps)

definition head_marks :: "element list" where
  "head_marks = [Mark ''?xml version=\"1.0\" encoding=\"UTF-8\"?'',
     Mark ''!DOCTYPE plist PUBLIC \"-//Apple//DTD PLIST 1.0//EN\" \"http://www.apple.com/DTDs/PropertyList-1.0.dtd\"'', Mark ''plist version=\"1.0\"'', Mark ''dict'']"

lemma read_head: "read_plist (plist_head @ s) = head_marks @ read_plist s"
proof -
  let ?a = "''?xml version=\"1.0\" encoding=\"UTF-8\"?''" and ?c = "''plist version=\"1.0\"''"
    and ?b = "''!DOCTYPE plist PUBLIC \"-//Apple//DTD PLIST 1.0//EN\" \"http://www.apple.com/DTDs/PropertyList-1.0.dtd\"''"
  have ok: "list_all (\<lambda>x. x \<noteq> CHR ''>'') ?a" "list_all (\<lambda>x. x \<noteq> CHR ''>'') ?b" "list_all (\<lambda>x. x \<noteq> CHR ''>'') ?c"
    "list_all (\<lambda>x. x \<noteq> CHR ''>'') ''dict''" by code_simp+
  note read = read_mark [OF ok(1)] read_mark [OF ok(2)] read_mark [OF ok(3)] read_mark [OF ok(4)]
  show ?thesis using read [of "CHR 0x0A # _"] by (simp add: plist_head_def head_marks_def del: read_plist.simps)
qed

lemma read_literals [simp]:
  "read_plist (''<key>ProgramArguments</key>'' @ s) = Value ''key'' ''ProgramArguments'' # read_plist s"
  "read_plist (''<key>EnvironmentVariables</key>'' @ s) = Value ''key'' ''EnvironmentVariables'' # read_plist s"
proof -
  have e: "escapePlist ''ProgramArguments'' = ''ProgramArguments''" "escapePlist ''EnvironmentVariables'' = ''EnvironmentVariables''" by code_simp+
  show "read_plist (''<key>ProgramArguments</key>'' @ s) = Value ''key'' ''ProgramArguments'' # read_plist s"
    "read_plist (''<key>EnvironmentVariables</key>'' @ s) = Value ''key'' ''EnvironmentVariables'' # read_plist s"
    using read_value [of "''key''" "''ProgramArguments''" s] read_value [of "''key''" "''EnvironmentVariables''" s]
    by (simp_all add: e del: read_plist.simps)
qed

lemma read_marks [simp]:
  "read_plist (''<array>'' @ s) = Mark ''array'' # read_plist s" "read_plist (''</array>'' @ s) = Mark ''/array'' # read_plist s"
  "read_plist (''<dict>'' @ s) = Mark ''dict'' # read_plist s" "read_plist (''</dict>'' @ s) = Mark ''/dict'' # read_plist s"
  "read_plist (''</plist>'' @ s) = Mark ''/plist'' # read_plist s"
  using read_mark [of "''array''" s] read_mark [of "''/array''" s] read_mark [of "''dict''" s] read_mark [of "''/dict''" s] read_mark [of "''/plist''" s]
  by (simp_all del: read_plist.simps)

abbreviation entry :: "string \<Rightarrow> string \<Rightarrow> element list" where
  "entry k v \<equiv> [Value ''key'' k, Value ''string'' v]"

definition plist_content :: "Options \<Rightarrow> string list \<Rightarrow> (string, string) gomap \<Rightarrow> element list" where
  "plist_content opts args env =
    head_marks @ entry ''Label'' (so_Label opts) @ [Value ''key'' ''ProgramArguments'', Mark ''array''] @ map (Value ''string'') args @ [Mark ''/array''] @
    (if so_WorkingDir opts \<noteq> [] then entry ''WorkingDirectory'' (so_WorkingDir opts) else []) @
    [Value ''key'' ''EnvironmentVariables'', Mark ''dict''] @ concat (map (\<lambda>key. entry key (env_value env key)) (sortedEnvKeys env)) @
    [Mark ''/dict'', Value ''key'' ''RunAtLoad'', Mark (if so_RunAtLoad opts then ''true/'' else ''false/''),
     Value ''key'' ''KeepAlive'', Mark (if so_KeepAlive opts then ''true/'' else ''false/'')] @
    entry ''StandardOutPath'' (path_Join [so_LogDir opts, ''launchd.out.log'']) @
    entry ''StandardErrorPath'' (path_Join [so_LogDir opts, ''launchd.err.log'']) @ [Mark ''/dict'', Mark ''/plist'']"

text \<open>On the bytes themselves, the structure is read back whatever the texts are: no value can end its element or add one of its own.\<close>

lemma plist_read: "read_plist (renderLaunchdPlist opts args env) = plist_content opts args env"
proof -
  have blank: "read_plist ([CHR 0x0A] @ s) = read_plist s" "read_plist ([CHR 0x09] @ s) = read_plist s" "read_plist ([CHR 0x0A, CHR 0x09] @ s) = read_plist s"
    "read_plist [CHR 0x0A] = []" for s by (simp_all del: read_plist.simps(2))
  have working: "read_plist ((if so_WorkingDir opts \<noteq> [] then writeKeyString ''WorkingDirectory'' (so_WorkingDir opts) 1 else []) @ s) =
      (if so_WorkingDir opts \<noteq> [] then entry ''WorkingDirectory'' (so_WorkingDir opts) else []) @ read_plist s" for s by (simp del: read_plist.simps)
  show ?thesis unfolding renderLaunchdPlist_def plist_content_def
    by (simp only: read_head append_assoc blank working read_writeKeyString read_literals read_marks read_array read_dict read_writeKeyBool) simp
qed

subsection \<open>A reader of XML\<close>

text \<open>A reader of XML 1.0 does two things before it looks at any tag. It decodes the bytes as the UTF-8 that the first line declares and refuses
  the whole document when that fails or when a character is none of the production \<^verbatim>\<open>Char\<close>, which leaves out control characters other
  than tab, line feed and carriage return. And it makes one line feed of every line end, so that a carriage return never reaches a value.\<close>

definition xml_point :: "int \<Rightarrow> bool" where
  "xml_point p \<longleftrightarrow> p \<in> {9, 10, 13} \<or> (32 \<le> p \<and> p \<le> 55295) \<or> (57344 \<le> p \<and> p \<le> 65533) \<or> (65536 \<le> p \<and> p \<le> 1114111)"

definition xml_chars :: "string \<Rightarrow> bool" where
  "xml_chars s = (case utf8_points s of None \<Rightarrow> False | Some ps \<Rightarrow> list_all xml_point ps)"

fun lines_from :: "bool \<Rightarrow> string \<Rightarrow> string" where
  "lines_from returned [] = []"
| "lines_from returned (c # s) =
    (if c = CHR 0x0D then CHR 0x0A # lines_from True s
     else if returned \<and> c = CHR 0x0A then lines_from False s
     else c # lines_from False s)"

definition xml_lines :: "string \<Rightarrow> string" where
  "xml_lines s = lines_from False s"

definition read_xml :: "string \<Rightarrow> element list option" where
  "read_xml s = (if xml_chars s then Some (read_plist (xml_lines s)) else None)"

text \<open>The texts that XML can carry as they are, and the texts of a property list.\<close>

definition xml_text :: "string \<Rightarrow> bool" where
  "xml_text s \<longleftrightarrow> xml_chars s \<and> CHR 0x0D \<notin> set s"

definition plist_texts :: "Options \<Rightarrow> string list \<Rightarrow> (string, string) gomap \<Rightarrow> string list" where
  "plist_texts opts args env =
    [so_Label opts, so_WorkingDir opts, path_Join [so_LogDir opts, ''launchd.out.log''], path_Join [so_LogDir opts, ''launchd.err.log'']] @ args @
    concat (map (\<lambda>key. [key, env_value env key]) (sortedEnvKeys env))"

lemma xml_lines_same: "CHR 0x0D \<notin> set s \<Longrightarrow> xml_lines s = s"
  unfolding xml_lines_def by (induction s) auto

lemma xml_text_nil [simp]: "xml_text []"
  by (simp add: xml_text_def xml_chars_def)

lemma xml_text_append [simp]: "xml_text s \<Longrightarrow> xml_text (s @ t) = xml_text t"
  by (auto simp: xml_text_def xml_chars_def utf8_append split: option.splits)

lemma xml_text_ascii: "(of_char c :: int) < 128 \<Longrightarrow> xml_text (c # s) = (xml_point (of_char c) \<and> c \<noteq> CHR 0x0D \<and> xml_text s)"
  by (auto simp: xml_text_def xml_chars_def utf8_ascii split: option.splits)

text \<open>A text is made of single characters below 128 and of groups of bytes that are not.\<close>

lemma xml_text_induct [consumes 1, case_names nil ascii group]:
  assumes "xml_text s" and "P []"
    and "\<And>c s. (of_char c :: int) < 128 \<Longrightarrow> xml_text [c] \<Longrightarrow> xml_text s \<Longrightarrow> P s \<Longrightarrow> P (c # s)"
    and "\<And>f s. list_all (\<lambda>c. 128 \<le> (of_char c :: int)) f \<Longrightarrow> xml_text f \<Longrightarrow> xml_text s \<Longrightarrow> P s \<Longrightarrow> P (f @ s)"
  shows "P s"
  using assms(1)
proof (induction s rule: length_induct)
  case (1 s)
  show ?case
  proof (cases "s = []")
    case False
    with "1.prems" obtain p r ps where f: "utf8_first s = Some (p, r)" "utf8_points r = Some ps" "xml_point p" "list_all xml_point ps"
      by (auto simp: xml_text_def xml_chars_def utf8_points.simps [of s] split: option.splits)
    have no: "CHR 0x0D \<notin> set s" using "1.prems" by (simp add: xml_text_def)
    from f(1) show ?thesis
    proof (cases rule: utf8_firstE)
      case (ascii c)
      then have "xml_text r" using f no by (simp add: xml_text_def xml_chars_def)
      moreover have "xml_text [c]" using ascii f(3) no by (auto simp: xml_text_ascii)
      ultimately show ?thesis using "1.IH" assms(3) ascii by simp
    next
      case (group g)
      then have r: "xml_text r" and g: "xml_text g" using f no by (simp_all add: xml_text_def xml_chars_def)
      have "length r < length s" by (rule utf8_first_shorter [OF f(1)])
      then show ?thesis using "1.IH" assms(4) group r g by simp
    qed
  qed (simp add: assms(2))
qed

lemma escapePlist_append: "escapePlist (s @ t) = escapePlist s @ escapePlist t"
  by (simp add: escapePlist_chars)

lemma escape_high:
  assumes "list_all (\<lambda>c. 128 \<le> (of_char c :: int)) f"
  shows "escapePlist f = f"
proof -
  have "escape_char c = [c]" if "128 \<le> (of_char c :: int)" for c
    using that by (cases c rule: escape_char_cases) (simp_all add: of_char_def)
  then show ?thesis using assms by (induction f) (simp_all add: escapePlist_chars)
qed

lemma plain_xml_text:
  assumes "list_all (\<lambda>c. let n = (of_char c :: int) in n \<in> {9, 10} \<or> 32 \<le> n \<and> n < 127) s"
  shows "xml_text s"
  using assms by (induction s) (auto simp: xml_text_ascii xml_point_def Let_def)

lemma escape_xml_text [simp]: "xml_text v \<Longrightarrow> xml_text (escapePlist v)"
proof (induction v rule: xml_text_induct)
  case (ascii c s)
  have "xml_text (escape_char c)"
    using ascii(2) by (cases c rule: escape_char_cases) (simp_all add: plain_xml_text)
  then show ?case using ascii by (simp add: escapePlist_chars)
next
  case (group f s)
  then show ?case by (simp add: escapePlist_append escape_high)
qed (simp add: escapePlist_chars)

lemma write_xml_text [simp]:
  "xml_text v \<Longrightarrow> xml_text (writeString v n)" "xml_text k \<Longrightarrow> xml_text (writeKey k n)"
  "xml_text k \<Longrightarrow> xml_text v \<Longrightarrow> xml_text (writeKeyString k v n)" "xml_text k \<Longrightarrow> xml_text (writeKeyBool k b n)"
proof -
  have indent: "xml_text (indent n)" for n by (rule plain_xml_text) (simp add: indent_def list_all_iff)
  note simps = writeString_def writeKey_def writeKeyString_def writeKeyBool_def xml_text_ascii xml_point_def
  show s: "xml_text v \<Longrightarrow> xml_text (writeString v n)" for v n by (simp add: simps indent)
  show k: "xml_text k \<Longrightarrow> xml_text (writeKey k n)" for k n by (simp add: simps indent)
  show "xml_text k \<Longrightarrow> xml_text v \<Longrightarrow> xml_text (writeKeyString k v n)" using s k by (simp add: writeKeyString_def)
  show "xml_text k \<Longrightarrow> xml_text (writeKeyBool k b n)" by (simp add: simps indent)
qed

lemma concat_xml_text: "list_all (\<lambda>x. xml_text (f x)) xs \<Longrightarrow> xml_text (concat (map f xs))"
  by (induction xs) simp_all

lemma rendered_xml_text:
  assumes "list_all xml_text (plist_texts opts args env)"
  shows "xml_text (renderLaunchdPlist opts args env)"
proof -
  have t: "xml_text (so_Label opts)" "xml_text (so_WorkingDir opts)" "xml_text (path_Join [so_LogDir opts, ''launchd.out.log''])"
    "xml_text (path_Join [so_LogDir opts, ''launchd.err.log''])" "list_all xml_text args"
    "list_all (\<lambda>key. xml_text key \<and> xml_text (env_value env key)) (sortedEnvKeys env)"
    using assms by (auto simp: plist_texts_def list_all_iff)
  have lists: "xml_text (concat (map (\<lambda>arg. writeString arg 2) args))"
    "xml_text (concat (map (\<lambda>key. writeKeyString key (env_value env key) 2) (sortedEnvKeys env)))"
    by (rule concat_xml_text; use t in \<open>auto simp: list_all_iff\<close>)+
  have fixed: "xml_text plist_head" "xml_text [CHR 0x09]" "xml_text ''<key>ProgramArguments</key>''" "xml_text [CHR 0x0A, CHR 0x09]" "xml_text ''<array>''"
    "xml_text [CHR 0x0A]" "xml_text ''</array>''" "xml_text ''<key>EnvironmentVariables</key>''" "xml_text ''<dict>''" "xml_text ''</dict>''" "xml_text ''</plist>''"
    "xml_text ''Label''" "xml_text ''WorkingDirectory''" "xml_text ''RunAtLoad''" "xml_text ''KeepAlive''" "xml_text ''StandardOutPath''" "xml_text ''StandardErrorPath''"
    by (rule plain_xml_text; simp add: plist_head_def)+
  have working: "xml_text (if so_WorkingDir opts \<noteq> [] then writeKeyString ''WorkingDirectory'' (so_WorkingDir opts) 1 else [])"
    using fixed t by simp
  show ?thesis unfolding renderLaunchdPlist_def
    by (simp only: xml_text_append lists fixed working write_xml_text t)
qed

text \<open>C39. The rendered property list says what was meant: when the arguments, the names and values of the environment, the label and the
  directories are texts that XML can carry (valid UTF-8 of the characters XML allows, without carriage returns), a reader of XML accepts
  the list and gets exactly these texts in exactly this structure, whatever markup they contain.\<close>

theorem plist_faithful:
  assumes "list_all xml_text (plist_texts opts args env)"
  shows "read_xml (renderLaunchdPlist opts args env) = Some (plist_content opts args env)"
  using rendered_xml_text [OF assms] by (simp add: read_xml_def xml_text_def xml_lines_same plist_read del: read_plist.simps)

text \<open>Witness: an argument with markup and a letter outside of ASCII, and an environment with a quote.\<close>

definition plist_sample :: Options where
  "plist_sample = \<lparr> so_Target = ''launchd'', so_BinaryPath = ''/bin/lw'', so_ConfigPath = [], so_Mode = ''start'', so_EnableKeychain = False,
     so_Environment = [], so_Label = ''com.lw'', so_WorkingDir = ''/a&b'', so_LogDir = ''/logs'', so_LaunchAgentsDir = ''/agents'',
     so_KeepAlive = True, so_RunAtLoad = True, so_LimitLoadToUser = [] \<rparr>"

abbreviation sample_args :: "string list" where
  "sample_args \<equiv> [''/bin/lw'', ''</string>'' @ [CHR 0xC3, CHR 0xA9]]"

abbreviation sample_env :: "(string, string) gomap" where
  "sample_env \<equiv> [(''NAME'', [CHR 0x22, CHR ''&''])]"

lemma sample_texts: "list_all xml_text (plist_texts plist_sample sample_args sample_env)"
  by code_simp

theorem plist_faithful_witness:
  "read_xml (renderLaunchdPlist plist_sample sample_args sample_env) = Some (plist_content plist_sample sample_args sample_env)"
  by (rule plist_faithful [OF sample_texts])

text \<open>What the escaping leaves open: a carriage return in an argument arrives as a line feed, and one control character makes the
  whole list unreadable.\<close>

lemma carriage_return_lost: "xml_chars (writeString [CHR ''a'', CHR 0x0D] 1)"
  "read_plist (xml_lines (writeString [CHR ''a'', CHR 0x0D] 1)) = [Value ''string'' [CHR ''a'', CHR 0x0A]]"
  by code_simp+

lemma control_refused: "\<not> xml_chars (writeString [CHR ''a'', CHR 0x01] 1)" "\<not> xml_chars (writeString [CHR ''a'', CHR 0xFF] 1)"
  by code_simp+

section \<open>What a shell sees\<close>

text \<open>The words of a command line for a POSIX shell, as far as the commands use it: quotes of both kinds, and spaces between words. Whatever would
  make a shell expand or run something gives no result. The first argument is the quote that is open.\<close>

definition shell_special :: "char \<Rightarrow> bool" where
  "shell_special c \<longleftrightarrow> c \<in> {CHR 0x5C, CHR ''$'', CHR 0x60, CHR '';'', CHR ''|'', CHR ''&'', CHR ''<'', CHR ''>'', CHR ''('', CHR '')'', CHR ''*'', CHR ''?'',
     CHR ''['', CHR ''#'', CHR ''~'', CHR ''!'', CHR ''{'', CHR 0x0A, CHR 0x09, CHR 0x0D}"

abbreviation word :: "string option \<Rightarrow> string" where
  "word w \<equiv> (case w of Some x \<Rightarrow> x | None \<Rightarrow> [])"

fun shell :: "char option \<Rightarrow> string option \<Rightarrow> string \<Rightarrow> string list option" where
  "shell None w [] = Some (case w of Some x \<Rightarrow> [x] | None \<Rightarrow> [])"
| "shell (Some q) w [] = None"
| "shell None w (c # s) =
    (if c = CHR '' '' then map_option (\<lambda>ws. (case w of Some x \<Rightarrow> x # ws | None \<Rightarrow> ws)) (shell None None s)
     else if c = CHR 0x27 \<or> c = CHR 0x22 then shell (Some c) (Some (word w)) s
     else if shell_special c then None
     else shell None (Some (word w @ [c])) s)"
| "shell (Some q) w (c # s) =
    (if c = q then shell None w s
     else if q = CHR 0x22 \<and> c \<in> {CHR 0x5C, CHR ''$'', CHR 0x60} then None
     else shell (Some q) (Some (word w @ [c])) s)"

lemma shell_quoted:
  "shell (Some (CHR 0x27)) (Some x) (ReplaceChar (CHR 0x27) [CHR 0x27, CHR 0x22, CHR 0x27, CHR 0x22, CHR 0x27] v @ CHR 0x27 # s) = shell None (Some (x @ v)) s"
  by (induction v arbitrary: x) (simp_all add: ReplaceChar_def)

lemma shell_single [simp]: "shell None w (shellSingleQuote v @ s) = shell None (Some (word w @ v)) s"
  using shell_quoted [of "word w" v s] by (simp add: shellSingleQuote_def)

lemma shell_single_end [simp]: "shell None w (shellSingleQuote v) = Some [word w @ v]"
  using shell_single [of w v "[]"] by (simp del: shell_single)

lemma shell_curl:
  "shell None None (benchmarkRunnerCurl url body) =
   Some [''curl'', ''-fsS'', ''-X'', ''POST'', url, ''-H'', ''Content-Type: application/json'', ''-H'',
     ''X-Llama-Wrangler-Subscriber-Token: <subscriber-heartbeat-credential>'', ''-d'', body]"
  by (simp add: benchmarkRunnerCurl_def shell_special_def)

text \<open>C40. The commands that are shown to operators can not be subverted by the name of a node or by the host a request names: a shell takes the
  check, the dry run and the export of an installation plan and the three commands of the guidance apart into exactly the intended
  words, whatever these names are and whatever the encoder makes of them, and expands or runs nothing else.\<close>

theorem shown_commands_safe:
  "(let plan = buildSubscriberCredentialInstallPlan js m node hint; body = js [(''node_id'', si_NodeID plan), (''status'', ''healthy'')] in
    shell None None (si_HeartbeatCheckCommand plan) =
      Some [''curl'', ''-fsS'', ''-X'', ''POST'', ''<marshal-url>/subscriber/heartbeat'', ''-H'', ''Content-Type: application/json'', ''-H'',
        ''X-Llama-Wrangler-Subscriber-Token: <credential-from-rotation-response>'', ''-d'', body] \<and>
    shell None None (si_LaunchdDryRunCommand plan) =
      Some [''llama-wrangler'', ''service-dry-run'', ''--target'', ''launchd'', ''--mode'', ''subscriber'', ''--config'', ''./subscriber.yaml'', ''--label'',
        sw_Label (si_ServiceWrapper plan), ''--env'', ''LLAMA_WRANGLER_SUBSCRIBER_HEARTBEAT_CREDENTIAL=<credential-from-rotation-response>''] \<and>
    shell None None (si_ShellExportCommand plan) =
      Some [''export'', ''LLAMA_WRANGLER_SUBSCRIBER_HEARTBEAT_CREDENTIAL=<credential-from-rotation-response>'']) \<and>
   (let commands = bg_Commands (buildBenchmarkRunnerGuidance enc (requestBaseURL tls host header) rc);
        base = guidance_base (requestBaseURL tls host header);
        words = (\<lambda>path body. Some [''curl'', ''-fsS'', ''-X'', ''POST'', base @ path, ''-H'', ''Content-Type: application/json'', ''-H'',
          ''X-Llama-Wrangler-Subscriber-Token: <subscriber-heartbeat-credential>'', ''-d'', body]) in
    shell None None (bc_ClaimJob commands) = words ''/subscriber/benchmarks/claim'' (enc (runner_bodies ! 0)) \<and>
    shell None None (bc_ReportStatus commands) = words ''/subscriber/benchmarks/status'' (enc (runner_bodies ! 1)) \<and>
    shell None None (bc_ReportResult commands) = words ''/subscriber/benchmarks'' (enc (runner_bodies ! 2)))"
proof (rule conjI, goal_cases)
  case 1
  show ?case
    by (simp add: buildSubscriberCredentialInstallPlan_def Let_def heartbeat_command_def shell_special_def marshalURLPlaceholder_def
        subscriberCredentialPlaceholder_def subscriberHeartbeatCredentialEnv_def)
next
  case 2
  show ?case by (simp add: buildBenchmarkRunnerGuidance_def runner_commands_def Let_def shell_curl)
qed

text \<open>The model of a preset is an alias of the configuration or the fixed default, and the preset names no key.\<close>

lemma preferred_alias: "preferredModelAlias cfg preferred fallback \<in> {preferred, fallback, firstConfiguredModelAlias cfg}"
  by (simp add: preferredModelAlias_def)

lemma first_alias_known: "firstConfiguredModelAlias cfg \<in> {r_DefaultModelAlias (c_Routing cfg), ''local-fast''} \<union> fst ` set (alias_map cfg) \<and> firstConfiguredModelAlias cfg \<noteq> []"
  by (auto simp: firstConfiguredModelAlias_def find_Some_iff split: option.split)

lemma presets_show_placeholder:
  "list_all (\<lambda>p. cl_APIKeyPlaceholder p = clientAPIKeyPlaceholder \<and> cl_Model p \<noteq> [] \<and> cl_Fields p = openAIFields (cl_BaseURL p) (cl_Model p))
     (buildClientPresets pretty baseURL s)"
  using first_alias_known [of "stored_config s"]
  by (simp add: buildClientPresets_def openai_preset_def preferredModelAlias_def Let_def)

section \<open>The template of a plan\<close>

lemma dashed_chars: "list_all label_char (dashed d s)"
  by (induction d s rule: dashed.induct) (auto simp: label_char_def suffix_char_def Let_def)

lemma trim_by_subset: "set (trim_by p s) \<subseteq> set s"
  unfolding trim_by_def by (auto dest!: set_dropWhileD)

lemma suffix_chars: "list_all label_char (launchdSafeLabelSuffix v)"
proof -
  have node: "list_all label_char ''node''" by code_simp
  have "list_all label_char (trim_by p (dashed False w))" for p w
    using dashed_chars [of False w] trim_by_subset [of p "dashed False w"] by (auto simp: list_all_iff)
  with node show ?thesis by (simp add: launchdSafeLabelSuffix_def orElse_def Let_def)
qed

abbreviation subscriber_label :: "string \<Rightarrow> string" where
  "subscriber_label nodeID \<equiv> ''com.llama-wrangler.subscriber.'' @ launchdSafeLabelSuffix nodeID"

lemma label_valid: "validLaunchdLabel (subscriber_label v) \<longleftrightarrow> length (subscriber_label v) \<le> 128 \<and> \<not> Contains (subscriber_label v) ''..''"
proof -
  have "list_all label_char ''com.llama-wrangler.subscriber.''" by code_simp
  with suffix_chars [of v] have "list_all label_char (subscriber_label v)" by (simp only: list_all_append simp_thms)
  then show ?thesis unfolding validLaunchdLabel_def by auto
qed

text \<open>The plan has a template exactly when its label is one that launchd accepts; otherwise the error of the dry run is lost, and the template is
  empty. A reader of the template gets the command of the subscriber and the placeholder of its credential.\<close>

lemma install_template:
  "let plan = buildSubscriberCredentialInstallPlan js m node hint; label = sw_Label (si_ServiceWrapper plan);
       opts = normalizeOptions m (install_options label); template = sw_LaunchdPlistTemplate (si_ServiceWrapper plan) in
   label = subscriber_label (si_NodeID plan) \<and>
   (if length label \<le> 128 \<and> \<not> Contains label ''..''
    then template = renderLaunchdPlist opts [''./llama-wrangler'', ''subscriber'', ''--config'', ''./subscriber.yaml''] (plan_env opts)
    else template = [])"
proof -
  have target: "ToLower (TrimSpace ''launchd'') = ''launchd''" "TrimSpace ''./llama-wrangler'' \<noteq> []" by code_simp+
  have ne: "subscriber_label v \<noteq> []" for v by simp
  have opts: "so_Target (normalizeOptions m (install_options label)) = ''launchd''" "so_BinaryPath (normalizeOptions m (install_options label)) = ''./llama-wrangler''"
    "so_ConfigPath (normalizeOptions m (install_options label)) = ''./subscriber.yaml''" "so_Mode (normalizeOptions m (install_options label)) = ''subscriber''"
    "label \<noteq> [] \<Longrightarrow> so_Label (normalizeOptions m (install_options label)) = label" for label
    by (simp_all add: normalizeOptions_def install_options_def orElse_def target)
  have plan: "(case NewDryRunPlan m (install_options label) of Inr plan \<Rightarrow> sp_LaunchdPlist plan | Inl _ \<Rightarrow> []) =
      (if validLaunchdLabel label then renderLaunchdPlist (normalizeOptions m (install_options label))
         [''./llama-wrangler'', ''subscriber'', ''--config'', ''./subscriber.yaml''] (plan_env (normalizeOptions m (install_options label))) else [])"
    if "label \<noteq> []" for label
    using that by (simp add: NewDryRunPlan_def launchdPlan_def plan_args_def opts target Let_def)
  show ?thesis unfolding buildSubscriberCredentialInstallPlan_def Let_def plan [OF ne] label_valid
    by (simp only: subscriberCredentialInstallPlan.simps subscriberServiceWrapperInstallPlan.simps simp_thms split: if_split) blast
qed

lemma dotted_name_loses_template: "Contains (subscriber_label ''gpu..1'') ''..''"
  by code_simp

end
