(* ===== verification/Frontier.thy ===== *)
theory Frontier
  imports ConsensusProxy
begin

text \<open>
  The policy for models outside of the own machines (\<^verbatim>\<open>frontier/policy.go\<close>): whether a text may leave. The source searches the text with regular
  expressions; they are modelled as expressions over bytes with a matcher by derivatives, which is proved to decide their language.
  Case is folded for the letters of ASCII.
\<close>

section \<open>Regular expressions\<close>

datatype rx = Never | Empty | Byte "char \<Rightarrow> bool" | Seq rx rx | Alt rx rx | Star rx

primrec lang :: "rx \<Rightarrow> string set" where
  "lang Never = {}"
| "lang Empty = {[]}"
| "lang (Byte p) = {[c] | c. p c}"
| "lang (Seq r s) = {a @ b | a b. a \<in> lang r \<and> b \<in> lang s}"
| "lang (Alt r s) = lang r \<union> lang s"
| "lang (Star r) = {concat ws | ws. set ws \<subseteq> lang r}"

primrec nullable :: "rx \<Rightarrow> bool" where
  "nullable Never = False"
| "nullable Empty = True"
| "nullable (Byte p) = False"
| "nullable (Seq r s) = (nullable r \<and> nullable s)"
| "nullable (Alt r s) = (nullable r \<or> nullable s)"
| "nullable (Star r) = True"

text \<open>Constructors that drop what can not contribute keep the derivatives small.\<close>

fun seq :: "rx \<Rightarrow> rx \<Rightarrow> rx" where
  "seq Never s = Never"
| "seq r Never = Never"
| "seq Empty s = s"
| "seq r s = Seq r s"

fun alt :: "rx \<Rightarrow> rx \<Rightarrow> rx" where
  "alt Never s = s"
| "alt r Never = r"
| "alt r s = Alt r s"

primrec deriv :: "char \<Rightarrow> rx \<Rightarrow> rx" where
  "deriv c Never = Never"
| "deriv c Empty = Never"
| "deriv c (Byte p) = (if p c then Empty else Never)"
| "deriv c (Seq r s) = (if nullable r then alt (seq (deriv c r) s) (deriv c s) else seq (deriv c r) s)"
| "deriv c (Alt r s) = alt (deriv c r) (deriv c s)"
| "deriv c (Star r) = seq (deriv c r) (Star r)"

definition matches :: "rx \<Rightarrow> string \<Rightarrow> bool" where
  "matches r s = nullable (fold deriv s r)"

text \<open>\<^verbatim>\<open>MatchString\<close> searches: it succeeds if some part of the text is in the language.\<close>

definition MatchString :: "rx \<Rightarrow> string \<Rightarrow> bool" where
  "MatchString r s = matches (Seq (Star (Byte (\<lambda>_. True))) (Seq r (Star (Byte (\<lambda>_. True))))) s"

section \<open>The patterns\<close>

definition fold_char :: "char \<Rightarrow> char \<Rightarrow> bool" where
  "fold_char c x \<longleftrightarrow> lower_char c = lower_char x"

definition lit :: "string \<Rightarrow> rx" where
  "lit w = foldr (\<lambda>c r. seq (Byte (\<lambda>x. x = c)) r) w Empty"

definition lit_fold :: "string \<Rightarrow> rx" where
  "lit_fold w = foldr (\<lambda>c r. seq (Byte (fold_char c)) r) w Empty"

definition opt :: "rx \<Rightarrow> rx" where
  "opt r = Alt r Empty"

definition some_of :: "rx \<Rightarrow> rx" where
  "some_of r = seq r (Star r)"

fun at_least :: "nat \<Rightarrow> rx \<Rightarrow> rx" where
  "at_least 0 r = Star r"
| "at_least (Suc n) r = seq r (at_least n r)"

definition blanks :: rx where
  "blanks = Star (Byte (\<lambda>c. c \<in> {CHR 0x09, CHR 0x0A, CHR 0x0C, CHR 0x0D, CHR '' ''}))"

definition blank :: rx where
  "blank = Byte (\<lambda>c. c \<in> {CHR 0x09, CHR 0x0A, CHR 0x0C, CHR 0x0D, CHR '' ''})"

definition one_of :: "string \<Rightarrow> rx" where
  "one_of cs = Byte (\<lambda>c. c \<in> set cs)"

definition word_char :: "char \<Rightarrow> bool" where
  "word_char c \<longleftrightarrow> (let n = (of_char c :: nat) in (97 \<le> n \<and> n \<le> 122) \<or> (65 \<le> n \<and> n \<le> 90) \<or> (48 \<le> n \<and> n \<le> 57)) \<or> c = CHR ''_'' \<or> c = CHR ''-''"

definition seqs :: "rx list \<Rightarrow> rx" where
  "seqs rs = foldr seq rs Empty"

definition secretPatterns :: "rx list" where
  "secretPatterns =
    [seqs [lit_fold ''api'', opt (one_of ''_-''), lit_fold ''key'', blanks, one_of '':='', blanks, opt (one_of [CHR 0x22, CHR 0x27]), at_least 16 (Byte word_char)],
     seqs [lit_fold ''bearer'', some_of blank, at_least 20 (Byte (\<lambda>c. word_char c \<or> c = CHR ''.''))],
     seqs [lit ''-----BEGIN '', Star (Byte (\<lambda>c. (let n = (of_char c :: nat) in 65 \<le> n \<and> n \<le> 90) \<or> c = CHR '' '')), lit ''PRIVATE KEY-----''],
     seqs [Alt (lit_fold ''aws_access_key_id'') (Alt (lit_fold ''aws_secret_access_key'') (Alt (lit_fold ''github_token'')
        (seqs [lit_fold ''splunk'', opt (one_of ''_-''), lit_fold ''token'']))), blanks, one_of '':=''],
     seqs [lit_fold ''password'', blanks, one_of '':='', blanks, some_of (Byte (\<lambda>c. c \<noteq> CHR '' '' \<and> c \<noteq> CHR 0x0A))]]"

section \<open>The check\<close>

record CheckResult =
  cr_Allowed :: bool
  cr_SecretsDetected :: bool
  cr_Redacted :: bool
  cr_Reasons :: "string list"

definition Check :: "FrontierConfig \<Rightarrow> string \<Rightarrow> CheckResult" where
  "Check cfg text =
    (let secrets = list_ex (\<lambda>pattern. MatchString pattern text) secretPatterns;
         approval = Contains (ToLower (Join '' '' (f_RequireApprovalFor cfg))) ''source_code'' in
     \<lparr> cr_Allowed = (f_Enabled cfg \<and> \<not> f_LocalOnly cfg \<and> \<not> secrets \<and> \<not> approval), cr_SecretsDetected = secrets, cr_Redacted = False,
       cr_Reasons = (if \<not> f_Enabled cfg then [''frontier_disabled''] else []) @ (if f_LocalOnly cfg then [''local_only''] else []) @
         (if secrets then [''secrets_detected''] else []) @ (if approval then [''approval_required''] else []) \<rparr>)"

section \<open>The matcher decides the language\<close>

lemma nullable_lang: "nullable r \<longleftrightarrow> [] \<in> lang r"
  by (induction r) (auto intro: exI [of _ "[]"])

lemma lang_seq [simp]: "lang (seq r s) = lang (Seq r s)"
  by (induction r s rule: seq.induct) auto

lemma lang_alt [simp]: "lang (alt r s) = lang (Alt r s)"
  by (induction r s rule: alt.induct) auto

lemma Cons_in_seq: "c # w \<in> lang (Seq r s) \<longleftrightarrow> (\<exists>a b. w = a @ b \<and> c # a \<in> lang r \<and> b \<in> lang s) \<or> [] \<in> lang r \<and> c # w \<in> lang s"
proof
  assume "c # w \<in> lang (Seq r s)"
  then obtain a b where "c # w = a @ b" "a \<in> lang r" "b \<in> lang s" by auto
  then show "(\<exists>a b. w = a @ b \<and> c # a \<in> lang r \<and> b \<in> lang s) \<or> [] \<in> lang r \<and> c # w \<in> lang s" by (cases a) auto
next
  assume "(\<exists>a b. w = a @ b \<and> c # a \<in> lang r \<and> b \<in> lang s) \<or> [] \<in> lang r \<and> c # w \<in> lang s"
  then show "c # w \<in> lang (Seq r s)"
  proof
    assume "\<exists>a b. w = a @ b \<and> c # a \<in> lang r \<and> b \<in> lang s"
    then obtain a b where "c # w = (c # a) @ b" "c # a \<in> lang r" "b \<in> lang s" by auto
    then show ?thesis unfolding lang.simps by blast
  next
    assume "[] \<in> lang r \<and> c # w \<in> lang s"
    then show ?thesis unfolding lang.simps by (metis (mono_tags, lifting) append_Nil mem_Collect_eq)
  qed
qed

text \<open>A word of a repetition starts with a nonempty word.\<close>

lemma Cons_in_concat: "c # w = concat ws \<Longrightarrow> set ws \<subseteq> L \<Longrightarrow> \<exists>a vs. w = a @ concat vs \<and> c # a \<in> L \<and> set vs \<subseteq> L"
proof (induction ws)
  case (Cons v ws)
  then show ?case
  proof (cases v)
    case (Cons d a)
    with Cons.prems show ?thesis by auto
  qed auto
qed simp

lemma Cons_in_star: "c # w \<in> lang (Star r) \<longleftrightarrow> (\<exists>a b. w = a @ b \<and> c # a \<in> lang r \<and> b \<in> lang (Star r))"
proof
  assume "c # w \<in> lang (Star r)"
  then obtain ws where ws: "c # w = concat ws" "set ws \<subseteq> lang r" by auto
  from Cons_in_concat [OF ws] show "\<exists>a b. w = a @ b \<and> c # a \<in> lang r \<and> b \<in> lang (Star r)" by auto
next
  assume "\<exists>a b. w = a @ b \<and> c # a \<in> lang r \<and> b \<in> lang (Star r)"
  then obtain a vs where "w = a @ concat vs" "c # a \<in> lang r" "set vs \<subseteq> lang r" by auto
  then show "c # w \<in> lang (Star r)" by (auto intro!: exI [of _ "(c # a) # vs"])
qed

lemma lang_deriv: "w \<in> lang (deriv c r) \<longleftrightarrow> c # w \<in> lang r"
proof (induction r arbitrary: w)
  case (Seq r s)
  have "w \<in> lang (seq (deriv c r) s) \<longleftrightarrow> (\<exists>a b. w = a @ b \<and> c # a \<in> lang r \<and> b \<in> lang s)" using Seq.IH(1) by auto
  then show ?case unfolding Cons_in_seq using Seq.IH(2) nullable_lang [of r] by simp
next
  case (Star r)
  have "w \<in> lang (seq (deriv c r) (Star r)) \<longleftrightarrow> (\<exists>a b. w = a @ b \<and> c # a \<in> lang r \<and> b \<in> lang (Star r))" using Star.IH by auto
  then show ?case unfolding Cons_in_star by simp
qed auto

lemma matches_lang: "matches r w \<longleftrightarrow> w \<in> lang r"
  unfolding matches_def by (induction w arbitrary: r) (simp_all add: nullable_lang lang_deriv)

lemma lang_anything: "lang (Star (Byte (\<lambda>_. True))) = UNIV"
proof -
  have "w \<in> lang (Star (Byte (\<lambda>_. True)))" for w
    by (auto intro!: exI [of _ "map (\<lambda>c. [c]) w"])
  then show ?thesis by blast
qed

lemma MatchString_infix: "MatchString r s \<longleftrightarrow> (\<exists>a b c. s = a @ b @ c \<and> b \<in> lang r)"
  unfolding MatchString_def matches_lang lang.simps(4) lang_anything by auto

text \<open>When a text may leave: exactly if the frontier is enabled, not confined to local models, needs no approval for source code, and no part
  of the text is in the language of a pattern for secrets. A text that may not leave comes with a reason, and one that may leave with
  none.\<close>

theorem frontier_check_exact:
  "let result = Check cfg text; approval = Contains (ToLower (Join '' '' (f_RequireApprovalFor cfg))) ''source_code'' in
   (cr_Allowed result \<longleftrightarrow> f_Enabled cfg \<and> \<not> f_LocalOnly cfg \<and> \<not> approval \<and>
      (\<nexists>pattern a b c. pattern \<in> set secretPatterns \<and> text = a @ b @ c \<and> b \<in> lang pattern)) \<and>
   (cr_Allowed result \<longleftrightarrow> cr_Reasons result = [])"
  by (auto simp: Check_def Let_def list_ex_iff MatchString_infix)

text \<open>The patterns at work.\<close>

lemma password_found: "MatchString (secretPatterns ! 4) ''PassWord = x1''" "\<not> MatchString (secretPatterns ! 4) ''password:''"
  by code_simp+

end
