(* ===== verification/Spec2Isabelle.thy ===== *)
theory Spec2Isabelle
  imports Routes BenchmarkRunner JobBoard PeerDiscovery Diagnostics Installation Frontier
begin

text \<open>
  Llama Wrangler: a verification library.

  \<^bold>\<open>The program.\<close> Llama Wrangler (\<^verbatim>\<open>src/\<close>, Go) puts one OpenAI- and Ollama-compatible endpoint in front of a fleet of machines
  that run Ollama. A request passes the client gate (\<^verbatim>\<open>httpapi/auth.go\<close>), takes a slot of the queue (\<^verbatim>\<open>httpapi/queue.go\<close>), is
  routed to candidate nodes by policy and rank (\<^verbatim>\<open>routing\<close>), is pinned to the node of its session (\<^verbatim>\<open>session\<close>), and is then either
  forwarded to the selected node with fallbacks (\<^verbatim>\<open>httpapi/server.go\<close>) or fanned out to several nodes whose answers are
  compared (\<^verbatim>\<open>httpapi/consensus.go\<close>, \<^verbatim>\<open>consensus\<close>). Nodes, sessions, client keys, enrollment requests and the audit trail live in
  a store that is written to a file after each change (\<^verbatim>\<open>appstate\<close>); tokens live in an encrypted file and optionally in the
  keychain (\<^verbatim>\<open>secrets\<close>); events go to the audit trail and to Splunk (\<^verbatim>\<open>telemetry\<close>).

  \<^bold>\<open>The theories\<close>, each after the ones it builds on:

    \<^item> \<open>Prelude\<close>: Go's strings, maps (association lists whose order stands for the iteration order), 64-bit integers and
      stable sort; the interfaces shared by the components as locales: \<open>finite_map_interface\<close>, \<open>weak_order\<close> (what a stable
      sort needs of a comparison), \<open>capped_log\<close> (bounded newest-first lists), \<open>normaliser\<close> and \<open>clocked_normaliser\<close>
      (normalisation onto a well-formedness predicate). Each is interpreted where a component provides it.
    \<^item> \<open>GoTime\<close>, \<open>GoValue\<close>, \<open>GoNet\<close>: times and their text form, dynamic values and their copy through JSON, URLs and IP
      addresses, and the code points of texts in UTF-8.
    \<^item> \<open>Config\<close> (\<^verbatim>\<open>config/config.go\<close>): the configuration as records, defaults, \<open>Normalize\<close>, \<open>Load\<close>. Every loaded configuration
      is within its bounds.
    \<^item> \<open>AppState\<close> (\<^verbatim>\<open>appstate/state.go\<close>): the store as a record with its state and its file, one definition per operation,
      migration and loading; the step relation \<open>store_step\<close> and its reachable states. Lemmas: the data invariant in every
      reachable state whatever writes fail, single use of enrollment tokens, outcomes of migration, restart after save.
    \<^item> \<open>Routing\<close> (\<^verbatim>\<open>routing/routing.go\<close>, \<^verbatim>\<open>httpapi/routing_policy_status.go\<close>): \<open>Select\<close> with its policy \<open>classify\<close>, score, benchmark
      placement. Lemmas: soundness and completeness for the policy \<open>may_serve\<close>, the ranking, independence of map order, bounds
      of consensus participants, what is reported as excluded, agreement with the status page.
    \<^item> \<open>Affinity\<close> (\<^verbatim>\<open>session/session.go\<close>, \<^verbatim>\<open>telemetry/event.go\<close>): \<open>ApplyAffinity\<close>, \<open>Emit\<close>. Lemmas: affinity stays among the
      candidates and sticks, events are redacted.
    \<^item> \<open>Queue\<close> (\<^verbatim>\<open>httpapi/queue.go\<close>): the scheduler and the tracker; \<open>acquire\<close> is cut at its \<^verbatim>\<open>select\<close> into the locked parts, and a
      step relation interleaves any number of clients. Lemmas: slots equal admitted requests, capacity, a bound on waiting
      under weighted priorities, exact shares per round.
    \<^item> \<open>ConsensusEngine\<close> (\<^verbatim>\<open>consensus/engine.go\<close>): \<open>Evaluate\<close>. Lemmas: plurality, and consensus exactly on a strict majority.
    \<^item> \<open>Proxy\<close> (\<^verbatim>\<open>httpapi/server.go\<close>, \<^verbatim>\<open>httpapi/error_compat.go\<close>): \<open>forwardWithFallback\<close> and \<open>copyUpstreamResponse\<close> on a writer that may
      fail at any byte. Lemmas: which attempt settles a request, that at most one attempt writes, what a success delivers,
      and the one case that panics.
    \<^item> \<open>ConsensusProxy\<close> (\<^verbatim>\<open>httpapi/consensus.go\<close>): \<open>forwardConsensus\<close>; the arrivals on its channel are a list of events in any order.
      Lemmas: quorum and delivery, accounting of participants, when the fan-out ends.
    \<^item> \<open>Inference\<close> (\<^verbatim>\<open>marshalProxy\<close> of \<^verbatim>\<open>httpapi/server.go\<close>): the whole handler. Lemmas: a request has no effect on and gets nothing
      from nodes outside the routing decision, it is answered, and it gives back its slot.
    \<^item> \<open>Secrets\<close> (\<^verbatim>\<open>secrets/store.go\<close>): the store with its files and the keychain, every file operation able to fail. The locale
      \<open>vault\<close> is what authentication relies on. Lemmas: what matches after each operation, restart, rotation of the key.
    \<^item> \<open>Auth\<close> (\<^verbatim>\<open>httpapi/auth.go\<close>, \<^verbatim>\<open>httpapi/auth_limiter.go\<close>, \<^verbatim>\<open>httpapi/safety.go\<close> and the token handlers of \<^verbatim>\<open>httpapi/server.go\<close>):
      the gates, the limiter, the management of keys. Lemmas: who passes, the budget of failures, revocation.
    \<^item> \<open>Subscriber\<close> (\<^verbatim>\<open>httpapi/server.go\<close>): the credential of a managed node. Lemmas: who is heard, before and after a rotation.
    \<^item> \<open>BenchmarkJobs\<close> (\<^verbatim>\<open>httpapi/benchmark_jobs.go\<close>, \<^verbatim>\<open>httpapi/benchmark_results.go\<close>): the jobs in the observed data of a node and the
      handlers that claim, report and finish them; \<open>abs_job\<close> maps a stored job to its phase and attempts. Lemmas: what every
      operation does to phase and attempts, the bound on attempts, the leases.
    \<^item> \<open>JobBoard\<close>: the specification of these handlers, a board of entries (an identifier with phase, attempts and maximum) with the operations
      \<open>a_tick\<close>, \<open>a_claim_board\<close> and \<open>a_update\<close>. The readings of the clock are arguments, so that every operation is a function. Lemmas: each
      handler changes the stored jobs exactly as its operation changes the board.
    \<^item> \<open>ModelLifecycle\<close> (\<^verbatim>\<open>httpapi/model_lifecycle_*.go\<close>): the inventory of models, keep-warm actions and their pages. Lemmas: the type of a
      cleaned inventory, who may receive an action, that it is claimed once and takes effect.
    \<^item> \<open>BenchmarkScheduler\<close> (\<^verbatim>\<open>httpapi/benchmark_policy_status.go\<close>, \<^verbatim>\<open>benchmark_suites.go\<close>, \<^verbatim>\<open>benchmark_scheduler_*.go\<close>): the background loop
      and the pages of benchmarks. Lemmas: the cadence of the loop, agreement of the page with routing.
    \<^item> \<open>NodeHandlers\<close> (\<^verbatim>\<open>httpapi/server.go\<close>): enrollment tokens, enrollment, heartbeats, nodes added by hand, the probe of passive endpoints
      and the operator's actions. The locale \<open>subscriber_work\<close> is what every request of a subscriber keeps to; it is interpreted on
      the six kinds of work. Lemmas: subscribers at work change no decision of the operator, what each action decides, who is heard
      after an enrollment (which with a valid token replaces the node that it names).

    \<^item> \<open>SetupHandlers\<close> (\<^verbatim>\<open>httpapi/server.go\<close>, \<^verbatim>\<open>hec/client.go\<close>, \<^verbatim>\<open>detect/detect.go\<close>): the whole server as a record, \<open>NewServer\<close>, the steps of the
      setup, configuration, routing policies, the Splunk settings and the first page. Lemmas: setup and restart close both gates
      (loading and migration keep what the file says of the setup), policies take effect, to whom the first page is shown; of the
      page only the configuration and the enrollment queue are modelled.
    \<^item> \<open>Routes\<close> (\<^verbatim>\<open>routes\<close> of \<^verbatim>\<open>httpapi/server.go\<close>, \<^verbatim>\<open>httpapi/ui.go\<close>, \<^verbatim>\<open>ollama/client.go\<close>): the table of routes with their gates, the dispatch of
      \<^verbatim>\<open>http.ServeMux\<close> and the client of the local Ollama. Lemmas: no route is hidden, where a request without a token gets.
    \<^item> \<open>BenchmarkRunner\<close> (\<^verbatim>\<open>httpapi/benchmark_runner_loop.go\<close>, \<^verbatim>\<open>benchmark_runner_synthetic.go\<close>): the runner of a subscriber. The locale
      \<open>benchmark_board\<close> is what it relies on; it is interpreted on the handlers of \<open>BenchmarkJobs\<close>, so that runner and marshal are
      composed. Lemmas: bounds of what is delivered, the account of a tick, agreement of runner and marshal, a due job is completed.

    \<^item> \<open>PeerDiscovery\<close> (\<^verbatim>\<open>httpapi/peer_discovery.go\<close>): the parser of discovery answers on packets of bytes, with reads outside of a packet as
      values, and the candidates. Lemmas: the parser never panics, well-formed answers are understood, the list of a discovery
      has exactly the advertised instances, a discovery changes nothing but the audit trail.
    \<^item> \<open>Diagnostics\<close> (\<^verbatim>\<open>httpapi/support_bundle.go\<close>, \<^verbatim>\<open>httpapi/operations.go\<close>): the support bundle and the page of operations. Lemmas: the bundle
      does not depend on stored secrets and its dynamic values are redacted at every depth (structures are not), the counters add up.

    \<^item> \<open>Installation\<close> (\<^verbatim>\<open>servicewrap/dryrun.go\<close>, \<^verbatim>\<open>httpapi/subscriber_install.go\<close>, \<^verbatim>\<open>benchmark_runner_guidance.go\<close>, \<^verbatim>\<open>client_presets.go\<close>, helpers of
      \<^verbatim>\<open>cmd/llama-wrangler/main.go\<close>): service wrappers, installation plans, guidance and presets. Lemmas: what a reader of the property list
      and a shell see of the generated text. The reader decodes UTF-8, refuses the characters XML refuses and normalises line ends.
    \<^item> \<open>Frontier\<close> (\<^verbatim>\<open>frontier/policy.go\<close>): the check of texts that would leave, with its patterns as regular expressions. Lemmas: the matcher
      decides the language, when a text may leave.

  This theory holds the properties that span components.

  \<^bold>\<open>Conventions.\<close> State is passed explicitly; errors and panics are values. A time is the number of nanoseconds since Go's zero time,
  with 0 for the zero value; the clock is read once per operation, from the environment \<open>env\<close>, which also has the outcome of the
  write of the state file and the random digits. A \<^verbatim>\<open>float64\<close> is a rational number: rounding is not modelled. Integers have
  the wrap of 64 bits written out (\<open>i64\<close>) where values from outside are added up. Code outside of \<^verbatim>\<open>src/\<close> is a parameter: the
  JSON and YAML codecs, digests, the authenticated cipher, base64, the keychain, and the network, which gives every attempt its
  result. What is assumed of them is stated where it is used (\<open>cipher_lawful\<close>, \<open>keyring_lawful\<close>, the contract of a writer); of the JSON encoding of the secrets
  only maps of valid texts are assumed to come back, and as maps, not in their order. Each assumption is instantiated in the witness of the properties that use it.

  \<^bold>\<open>Loops and fuel.\<close> There is no fuel: loops over slices are structural recursions, \<open>dispatchLocked\<close> has a termination proof by the
  number of waiters, \<open>stream_loop\<close> recurses over the reads of the body, and the IPv6 parser counts the eight groups an address can
  have. The reader of compressed names has the 32 rounds of the source. A wait that may last is a value of its own
  (\<open>Waiting\<close> of a fan-out, a blocked client of the queue).

  \<^bold>\<open>Concurrency.\<close> Each operation of the store, the queue, the secrets and the limiter runs under its mutex and is one step. The
  interleavings of queue clients and of store operations are explored by their step relations; the handler is modelled for
  one request, with what other requests do to the store and the queue in between left out.

  \<^bold>\<open>Not modelled.\<close> Handlers that only present a snapshot of the state; \<^verbatim>\<open>Run\<close>, which starts the loops; flag parsing, printing and signals of
  the command line; the overflow of the sum of queue weights; the record of the node in the reply to a claim; fixed advice in plans and
  guidance; and the embedded files of the user interface. They are input and output or
  constant text.
\<close>

section \<open>Enrollment and routing\<close>

lemma pending_not_candidate:
  assumes "nodes_wf (st_Nodes st)" "goget (st_Nodes st) i = Some n" "\<not> n_Approved n" "Select t cfg st rq = (d, True)"
  shows "i \<notin> set (d_CandidateNodes d)"
proof
  assume "i \<in> set (d_CandidateNodes d)"
  then obtain m where m: "m \<in> set (pool cfg st)" "n_NodeID m = i" "n_Approved m"
    using subsetD [OF Select_candidates(1) [OF assms(4)]] by (auto simp: set_candidates may_serve_def)
  have n: "n \<in> snd ` set (st_Nodes st)" "n_NodeID n = i"
    using goget_in_set [OF assms(2)] assms(1) by (force simp: nodes_wf_def)+
  have "m \<in> snd ` set (st_Nodes st)"
  proof (rule ccontr)
    assume "m \<notin> snd ` set (st_Nodes st)"
    then obtain sub where "m = configured_node sub" "sub_NodeID sub \<notin> n_NodeID ` snd ` set (st_Nodes st)"
      using m(1) by (auto simp: pool_def Let_def)
    moreover have "i \<in> n_NodeID ` snd ` set (st_Nodes st)" using imageI [OF n(1), of n_NodeID] n(2) by simp
    ultimately show False using m(2) by (simp add: configured_node_def)
  qed
  then obtain k where "(k, m) \<in> set (st_Nodes st)" by auto
  moreover from this have "k = i" using assms(1) m(2) by (auto simp: nodes_wf_def)
  ultimately have "(i, m) \<in> set (st_Nodes st)" by simp
  then have "goget (st_Nodes st) i = Some m" using assms(1) goget_set [of "st_Nodes st" i m] by (simp add: nodes_wf_def)
  with assms(2,3) m(3) show False by simp
qed

lemma barred_not_candidate:
  assumes "barred s i" "list_all (\<lambda>(e, r, call). be_now e \<noteq> 0) calls"
    and "Select t cfg (Snapshot (at_store (run_calls calls s))) rq = (d, True)"
  shows "i \<notin> set (d_CandidateNodes d)"
proof -
  note b = barred_calls [OF assms(1,2)]
  show ?thesis using pending_not_candidate [OF barred_node(2,1) [OF b] _ assms(3)] b by (simp add: barred_def)
qed

text \<open>C20. Enrollment alone admits nobody: after \<^verbatim>\<open>subscriberEnroll\<close> answered 200, and after any requests that this and other
  subscribers then make (heartbeats, claims, reports, with any outcome of the writes), the node is not a candidate of a
  routing decision, whatever the configuration and the request. Only the operator can change that.\<close>

theorem enrolled_node_waits:
  assumes "store_wf (at_store s)" "be_now e \<noteq> 0" "nr_status (subscriberEnroll e mac (Some (token, b)) s) = 200"
    and "TrimSpace (sb_NodeID b) = i" "i \<noteq> []" "list_all (\<lambda>(e, r, call). be_now e \<noteq> 0) calls"
    and "Select t cfg (Snapshot (at_store (run_calls calls (nr_state (subscriberEnroll e mac (Some (token, b)) s))))) rq = (d, True)"
  shows "i \<notin> set (d_CandidateNodes d)"
  by (rule barred_not_candidate [OF enrolled_barred [OF assms(1-5)] assms(6,7)])

text \<open>C21. Revocation holds: after the operator has revoked a node it is not a candidate of a routing decision, and no request of a
  subscriber brings it back, even when the state file could not be written.\<close>

theorem revoked_node_stays_out:
  assumes "store_wf (at_store s)" "be_now e \<noteq> 0"
    and "Split (CHR ''/'') (TrimPrefix path ''/wrangler/nodes/'') = [i, ''revoke'']" "i \<noteq> []"
    and "goget (st_Nodes (Snapshot (at_store s))) i = Some node" "list_all (\<lambda>(e, r, call). be_now e \<noteq> 0) calls"
    and "Select t cfg (Snapshot (at_store (run_calls calls (nr_state (nodeAction e elapsed found path body s))))) rq = (d, True)"
  shows "i \<notin> set (d_CandidateNodes d)"
  by (rule barred_not_candidate [OF revoked_barred [OF assms(1-5)] assms(6,7)])

section \<open>A concrete fleet\<close>

text \<open>One node comes from the configuration and serves, as long as the store does not know it.\<close>

definition peerConfig :: Config where
  "peerConfig = (Default ''marshal'')\<lparr> c_Subscribers := [\<lparr> sub_NodeID = ''gpu-2'', sub_URL = ''http://10.0.0.2:11434'', sub_Token = [] \<rparr>] \<rparr>"

definition peerRequest :: Request where
  "peerRequest = sampleRequest\<lparr> rq_Model := ''llama3.1:8b'' \<rparr>"

lemma peer_serves:
  assumes "nodes_wf (st_Nodes st)" "goget (st_Nodes st) ''gpu-2'' = None"
  shows "\<exists>d. Select 5 peerConfig st peerRequest = (d, True)"
proof -
  let ?peer = "configured_node \<lparr> sub_NodeID = ''gpu-2'', sub_URL = ''http://10.0.0.2:11434'', sub_Token = [] \<rparr>"
  have "''gpu-2'' \<notin> n_NodeID ` snd ` set (st_Nodes st)"
  proof
    assume "''gpu-2'' \<in> n_NodeID ` snd ` set (st_Nodes st)"
    then obtain n where "(''gpu-2'', n) \<in> set (st_Nodes st)" using assms(1) by (fastforce simp: nodes_wf_def)
    then show False using assms goget_set [of "st_Nodes st" "''gpu-2''" n] by (simp add: nodes_wf_def)
  qed
  then have "?peer \<in> set (pool peerConfig st)" by (simp add: pool_def peerConfig_def)
  moreover have "may_serve False 5 ?peer"
  proof -
    have "\<not> heartbeatRequired ?peer" by code_simp
    then show ?thesis by (simp add: may_serve_def configured_node_def zeroNode_def level_defs)
  qed
  moreover have "offers ?peer w" for w by (simp add: offers_def configured_node_def zeroNode_def)
  ultimately have peer: "?peer \<in> set (candidates_for False 5 w (pool peerConfig st))" for w by (simp add: set_candidates)
  have "candidates_for False 5 w (pool peerConfig st) \<noteq> []" for w using peer [of w] by force
  moreover have "wanted_models peerConfig peerRequest = [''llama3.1:8b'']" "\<not> consensus_request peerConfig peerRequest" by code_simp+
  ultimately have "snd (Select 5 peerConfig st peerRequest)" by (simp add: Select_iff first_served_def)
  then show ?thesis by (metis prod.collapse)
qed

lemma barred_peer_serves:
  assumes "barred s i" "n_NodeID (node_of s ''gpu-2'') = []"
  shows "\<exists>d. Select 5 peerConfig (Snapshot (at_store s)) peerRequest = (d, True)"
proof (rule peer_serves [OF barred_node(2) [OF assms(1)]])
  show "goget (st_Nodes (Snapshot (at_store s))) ''gpu-2'' = None"
  proof (rule ccontr)
    assume "goget (st_Nodes (Snapshot (at_store s))) ''gpu-2'' \<noteq> None"
    then obtain n where n: "goget (st_Nodes (Snapshot (at_store s))) ''gpu-2'' = Some n" by blast
    then have "n_NodeID n = ''gpu-2''" using goget_in_set [OF n] barred_node(2) [OF assms(1)] by (auto simp: nodes_wf_def)
    then show False using assms(2) n by (simp add: node_of_def)
  qed
qed

text \<open>Witness: a node that enrolled is not among the candidates of a decision that another node serves.\<close>

theorem enrolled_node_waits_witness:
  "\<exists>d. Select 5 peerConfig (Snapshot (at_store (run_calls [] (nr_state
       (subscriberEnroll jobEnv (\<lambda>key text. key) (Some (''h1'', newSubscriber)) enrollState))))) peerRequest = (d, True) \<and>
     ''gpu-7'' \<notin> set (d_CandidateNodes d)"
proof -
  let ?s = "nr_state (subscriberEnroll jobEnv (\<lambda>key text. key) (Some (''h1'', newSubscriber)) enrollState)"
  have i: "TrimSpace (sb_NodeID newSubscriber) = ''gpu-7''" and now: "be_now jobEnv \<noteq> 0"
    and none: "n_NodeID (node_of enrollState ''gpu-2'') = []" by code_simp+
  have wf: "store_wf (at_store enrollState)" using reachable_wf [OF enrollingStore_reachable] by (simp add: enrollState_def)
  have "node_of ?s ''gpu-2'' = node_of enrollState ''gpu-2''" using enrolled(4) [OF enroll_sample i] by simp
  then obtain d where "Select 5 peerConfig (Snapshot (at_store ?s)) peerRequest = (d, True)"
    using barred_peer_serves [OF enrolled_barred [OF wf now enroll_sample i]] none by auto
  then have d: "Select 5 peerConfig (Snapshot (at_store (run_calls [] ?s))) peerRequest = (d, True)" by (simp add: run_calls_def)
  from enrolled_node_waits [OF wf now enroll_sample i _ _ d] d show ?thesis by simp
qed

text \<open>Witness: the same for a node that was revoked.\<close>

definition noBody :: action_body where
  "noBody = \<lparr> ab_benchmark = None, ab_keep_warm = None, ab_trust = None, ab_patch = \<lparr> pt_DisplayName = [], pt_MaxJobs = 0, pt_Tags = None \<rparr> \<rparr>"

theorem revoked_node_stays_out_witness:
  "\<exists>d. Select 5 peerConfig (Snapshot (at_store (run_calls [] (nr_state
       (nodeAction jobEnv 0 (\<lambda>_. Inr []) ''/wrangler/nodes/gpu-1/revoke'' noBody actionState))))) peerRequest = (d, True) \<and>
     ''gpu-1'' \<notin> set (d_CandidateNodes d)"
proof -
  let ?s = "nr_state (nodeAction jobEnv 0 (\<lambda>_. Inr []) ''/wrangler/nodes/gpu-1/revoke'' noBody actionState)"
  have p: "Split (CHR ''/'') (TrimPrefix ''/wrangler/nodes/gpu-1/revoke'' ''/wrangler/nodes/'') = [''gpu-1'', ''revoke'']"
    and now: "be_now jobEnv \<noteq> 0" and none: "n_NodeID (node_of actionState ''gpu-2'') = []" by code_simp+
  have "goget (st_Nodes (Snapshot (at_store actionState))) ''gpu-1'' \<noteq> None" by code_simp
  then obtain node where g: "goget (st_Nodes (Snapshot (at_store actionState))) ''gpu-1'' = Some node" by blast
  have b: "barred ?s ''gpu-1''" by (rule revoked_barred [OF action_sample(1) now p _ g]) simp
  have "node_of ?s ''gpu-2'' = node_of actionState ''gpu-2''"
    using nodeAction_authority [OF action_sample(1) p _ g] by (simp add: touches_but_def)
  then obtain d where "Select 5 peerConfig (Snapshot (at_store ?s)) peerRequest = (d, True)"
    using barred_peer_serves [OF b] none by auto
  then have d: "Select 5 peerConfig (Snapshot (at_store (run_calls [] ?s))) peerRequest = (d, True)" by (simp add: run_calls_def)
  from revoked_node_stays_out [OF action_sample(1) now p _ g _ d] d show ?thesis by simp
qed

end
